(* ===== verification/Prelude.thy ===== *)
theory Prelude
  imports Main "HOL-Library.Char_ord" "HOL-Library.List_Lexorder"
begin

text \<open>
  Shared ground of the development.

  \<^item> Errors are values: a computation that may throw has type \<open>'e + 'a\<close> (\<open>Inl\<close> the
    exception), sequenced by \<open>bindr\<close>; a computation over a mutable store that may throw in the
    middle, keeping the writes made before the throw, is a function
    \<open>'s \<Rightarrow> ('e + 'a) \<times> 's\<close>, sequenced by \<open>ebind\<close>.
  \<^item> Rows of a table that is addressed by a key are a list in insertion order; \<open>row_find\<close>
    and \<open>row_update\<close> are the lookup and the keyed update of one row.
  \<^item> Decimal text (\<open>dec_text\<close>) is what JavaScript prints for a non-negative integer.
  \<^item> \<open>sort_by\<close> is the stable sort of an array by a comparison.

  Instants (JavaScript's \<open>Date\<close> and the ISO texts the program stores) are \<open>int\<close> milliseconds.
\<close>

named_theorems monad_simps \<open>unfolding the result and the store monad\<close>
named_theorems row_simps \<open>lookup after update on keyed row lists\<close>

type_synonym instant = int
type_synonym txid = string
type_synonym principal = string

subsection \<open>Results\<close>

definition bindr :: "'e + 'a \<Rightarrow> ('a \<Rightarrow> 'e + 'b) \<Rightarrow> 'e + 'b" where
  "bindr m f = (case m of Inl e \<Rightarrow> Inl e | Inr a \<Rightarrow> f a)"

definition guardr :: "bool \<Rightarrow> 'e \<Rightarrow> 'e + unit" where
  "guardr b e = (if b then Inr () else Inl e)"

lemma bindr_Inl [simp]: "bindr (Inl e) f = Inl e"
  by (simp add: bindr_def)

lemma bindr_Inr [simp]: "bindr (Inr a) f = f a"
  by (simp add: bindr_def)

lemma bindr_eq_Inr [simp]: "bindr m f = Inr b \<longleftrightarrow> (\<exists>a. m = Inr a \<and> f a = Inr b)"
  by (cases m) simp_all

lemma guardr_eq_Inr [simp]: "guardr b e = Inr u \<longleftrightarrow> b"
  by (simp add: guardr_def)

lemma guardr_simps [simp]: "guardr True e = Inr ()" "guardr False e = Inl e"
  by (simp_all add: guardr_def)

fun mapr :: "('a \<Rightarrow> 'e + 'b) \<Rightarrow> 'a list \<Rightarrow> 'e + 'b list" where
  "mapr f [] = Inr []"
| "mapr f (x # xs) = bindr (f x) (\<lambda>y. bindr (mapr f xs) (\<lambda>ys. Inr (y # ys)))"

lemma mapr_length: "mapr f xs = Inr ys \<Longrightarrow> length ys = length xs"
  by (induction xs arbitrary: ys) auto

lemma mapr_Inr_all: "(\<And>x. x \<in> set xs \<Longrightarrow> f x = Inr (g x)) \<Longrightarrow> mapr f xs = Inr (map g xs)"
  by (induction xs) auto

subsection \<open>Computations over a store\<close>

type_synonym ('s, 'e, 'a) eng = "'s \<Rightarrow> ('e + 'a) \<times> 's"

definition eret :: "'a \<Rightarrow> ('s, 'e, 'a) eng" where
  "eret a s = (Inr a, s)"

definition ethrow :: "'e \<Rightarrow> ('s, 'e, 'a) eng" where
  "ethrow e s = (Inl e, s)"

definition ebind :: "('s, 'e, 'a) eng \<Rightarrow> ('a \<Rightarrow> ('s, 'e, 'b) eng) \<Rightarrow> ('s, 'e, 'b) eng" where
  "ebind m f s = (case m s of (Inl e, t) \<Rightarrow> (Inl e, t) | (Inr a, t) \<Rightarrow> f a t)"

definition eguard :: "bool \<Rightarrow> 'e \<Rightarrow> ('s, 'e, unit) eng" where
  "eguard b e s = (if b then (Inr (), s) else (Inl e, s))"

definition elift :: "'e + 'a \<Rightarrow> ('s, 'e, 'a) eng" where
  "elift r s = (r, s)"

definition eread :: "('s \<Rightarrow> 'e + 'a) \<Rightarrow> ('s, 'e, 'a) eng" where
  "eread f s = (f s, s)"

text \<open>A statement that is a transaction: it either commits or throws and changes nothing.\<close>

definition eatomic :: "('s \<Rightarrow> 'e + 's) \<Rightarrow> ('s, 'e, unit) eng" where
  "eatomic f s = (case f s of Inl e \<Rightarrow> (Inl e, s) | Inr t \<Rightarrow> (Inr (), t))"

lemmas monad_defs [monad_simps] =
  eret_def ethrow_def ebind_def eguard_def elift_def eread_def eatomic_def

text \<open>
  What a computation keeps of a property of the store: \<open>keeps P m\<close> says that \<open>m\<close>, whether it
  returns or throws, ends in a store with \<open>P\<close> when it started in one.
\<close>

definition keeps :: "('s \<Rightarrow> bool) \<Rightarrow> ('s, 'e, 'a) eng \<Rightarrow> bool" where
  "keeps P m \<longleftrightarrow> (\<forall>s. P s \<longrightarrow> P (snd (m s)))"

lemma keepsI: "(\<And>s. P s \<Longrightarrow> P (snd (m s))) \<Longrightarrow> keeps P m"
  by (simp add: keeps_def)

lemma keepsD: "keeps P m \<Longrightarrow> P s \<Longrightarrow> P (snd (m s))"
  by (simp add: keeps_def)

lemma keeps_eret [simp, intro]: "keeps P (eret a)"
  and keeps_ethrow [simp, intro]: "keeps P (ethrow e)"
  and keeps_eguard [simp, intro]: "keeps P (eguard b e)"
  and keeps_elift [simp, intro]: "keeps P (elift r)"
  and keeps_eread [simp, intro]: "keeps P (eread f)"
  by (simp_all add: keeps_def monad_defs)

lemma keeps_ebind [intro]:
  assumes "keeps P m" and "\<And>a. keeps P (f a)"
  shows "keeps P (ebind m f)"
  using assms by (auto simp: keeps_def ebind_def split: prod.splits sum.splits)

lemma keeps_eatomic:
  "(\<And>s t. P s \<Longrightarrow> f s = Inr t \<Longrightarrow> P t) \<Longrightarrow> keeps P (eatomic f)"
  by (auto simp: keeps_def eatomic_def split: sum.splits)

lemma keeps_if: "keeps P m \<Longrightarrow> keeps P n \<Longrightarrow> keeps P (if b then m else n)"
  by simp

lemma keeps_option:
  "keeps P m \<Longrightarrow> (\<And>a. keeps P (n a)) \<Longrightarrow> keeps P (case x of None \<Rightarrow> m | Some a \<Rightarrow> n a)"
  by (cases x) simp_all

lemma keeps_select:
  "keeps P m \<Longrightarrow> (\<And>a. keeps P (n a)) \<Longrightarrow> keeps P (\<lambda>s. case g s of None \<Rightarrow> m s | Some a \<Rightarrow> n a s)"
  by (simp add: keeps_def split: option.splits)

text \<open>The rules that take a computation apart.\<close>

lemmas keeps_rules = keeps_ebind keeps_if keeps_option keeps_select

text \<open>
  Weakest preconditions: \<open>wp m Q E s\<close> says that \<open>m\<close> started in \<open>s\<close> either returns some \<open>a\<close> in a
  store \<open>t\<close> with \<open>Q a t\<close>, or throws in a store \<open>t\<close> with \<open>E t\<close>.
\<close>

definition wp :: "('s, 'e, 'a) eng \<Rightarrow> ('a \<Rightarrow> 's \<Rightarrow> bool) \<Rightarrow> ('s \<Rightarrow> bool) \<Rightarrow> 's \<Rightarrow> bool" where
  "wp m Q E s = (case m s of (Inl e, t) \<Rightarrow> E t | (Inr a, t) \<Rightarrow> Q a t)"

lemma wp_eret [simp]: "wp (eret a) Q E = Q a"
  by (simp add: fun_eq_iff wp_def monad_defs)

lemma wp_ethrow [simp]: "wp (ethrow e) Q E = E"
  by (simp add: fun_eq_iff wp_def monad_defs)

lemma wp_eguard [simp]: "wp (eguard b e) Q E s = (if b then Q () s else E s)"
  by (simp add: wp_def monad_defs)

lemma wp_elift [simp]: "wp (elift r) Q E s = (case r of Inl e \<Rightarrow> E s | Inr a \<Rightarrow> Q a s)"
  by (simp add: wp_def monad_defs split: sum.splits)

lemma wp_eread [simp]: "wp (eread f) Q E s = (case f s of Inl e \<Rightarrow> E s | Inr a \<Rightarrow> Q a s)"
  by (simp add: wp_def monad_defs split: sum.splits)

lemma wp_eatomic [simp]: "wp (eatomic f) Q E s = (case f s of Inl e \<Rightarrow> E s | Inr t \<Rightarrow> Q () t)"
  by (simp add: wp_def monad_defs split: sum.splits)

lemma wp_ebind [simp]: "wp (ebind m f) Q E = wp m (\<lambda>a. wp (f a) Q E) E"
  by (simp add: fun_eq_iff wp_def ebind_def split: sum.splits prod.splits)

text \<open>\<open>try { m } catch (e) { h(e) }\<close>.\<close>

definition ecatch :: "('s, 'e, 'a) eng \<Rightarrow> ('e \<Rightarrow> ('s, 'e, 'a) eng) \<Rightarrow> ('s, 'e, 'a) eng" where
  "ecatch m h s = (case m s of (Inl e, t) \<Rightarrow> h e t | (Inr a, t) \<Rightarrow> (Inr a, t))"

lemma wp_ecatch:
  assumes "wp m Q E' s" and "\<And>e t. E' t \<Longrightarrow> wp (h e) Q E t"
  shows "wp (ecatch m h) Q E s"
proof (cases "m s")
  case (Pair x t)
  with assms(1) assms(2)[of t] show ?thesis by (cases x) (simp_all add: wp_def ecatch_def)
qed

lemma wp_lambda: "wp (\<lambda>s. m s s) Q E s = wp (m s) Q E s"
  by (simp add: wp_def)

lemma wp_select:
  "wp (\<lambda>s. case g s of None \<Rightarrow> m s | Some a \<Rightarrow> n a s) Q E s =
     (case g s of None \<Rightarrow> wp m Q E s | Some a \<Rightarrow> wp (n a) Q E s)"
  by (simp add: wp_def split: option.splits)

lemma wp_mono:
  assumes "wp m Q E s" and "\<And>a t. Q a t \<Longrightarrow> Q' a t" and "\<And>t. E t \<Longrightarrow> E' t"
  shows "wp m Q' E' s"
  using assms by (auto simp: wp_def split: sum.splits prod.splits)

lemma wp_final: "wp m (\<lambda>_. P) P s \<Longrightarrow> P (snd (m s))"
  by (auto simp: wp_def split: sum.splits prod.splits)

lemma wp_Inr: "wp m Q E s \<Longrightarrow> m s = (Inr a, t) \<Longrightarrow> Q a t"
  and wp_Inl: "wp m Q E s \<Longrightarrow> m s = (Inl e, t) \<Longrightarrow> E t"
  by (auto simp: wp_def)

subsection \<open>Keyed rows\<close>

definition row_find :: "('r \<Rightarrow> 'k) \<Rightarrow> 'k \<Rightarrow> 'r list \<Rightarrow> 'r option" where
  "row_find key k rs = find (\<lambda>r. key r = k) rs"

definition row_update :: "('r \<Rightarrow> 'k) \<Rightarrow> 'k \<Rightarrow> ('r \<Rightarrow> 'r) \<Rightarrow> 'r list \<Rightarrow> 'r list" where
  "row_update key k f rs = map (\<lambda>r. if key r = k then f r else r) rs"

lemma row_find_Nil [simp]: "row_find key k [] = None"
  by (simp add: row_find_def)

lemma row_find_Cons [simp]:
  "row_find key k (r # rs) = (if key r = k then Some r else row_find key k rs)"
  by (simp add: row_find_def)

lemma row_find_SomeD: "row_find key k rs = Some r \<Longrightarrow> r \<in> set rs \<and> key r = k"
  by (auto simp: row_find_def find_Some_iff)

lemma row_find_None_iff: "row_find key k rs = None \<longleftrightarrow> k \<notin> key ` set rs"
  by (auto simp: row_find_def find_None_iff)

lemma row_find_unique:
  "distinct (map key rs) \<Longrightarrow> r \<in> set rs \<Longrightarrow> row_find key (key r) rs = Some r"
  by (induction rs) (auto simp: rev_image_eqI)

lemma row_find_append:
  "row_find key k (rs @ rs') =
     (case row_find key k rs of None \<Rightarrow> row_find key k rs' | Some r \<Rightarrow> Some r)"
  by (induction rs) auto

lemma row_find_update [row_simps]:
  assumes "\<And>r. key (f r) = key r"
  shows "row_find key k (row_update key k' f rs) =
    (if k = k' then map_option f (row_find key k rs) else row_find key k rs)"
  by (induction rs) (auto simp: row_update_def assms)

lemma row_update_keys [row_simps]:
  "(\<And>r. key (f r) = key r) \<Longrightarrow> map key (row_update key k f rs) = map key rs"
  by (simp add: row_update_def)

lemma row_update_length [simp]: "length (row_update key k f rs) = length rs"
  by (simp add: row_update_def)

lemma row_update_ball:
  assumes "\<forall>r \<in> set rs. P r" and "\<And>r. r \<in> set rs \<Longrightarrow> key r = k \<Longrightarrow> P r \<Longrightarrow> P (f r)"
  shows "\<forall>r \<in> set (row_update key k f rs). P r"
  using assms by (auto simp: row_update_def)

lemma row_update_other: "k \<notin> key ` set rs \<Longrightarrow> row_update key k f rs = rs"
  by (induction rs) (auto simp: row_update_def)

lemma in_row_update:
  "r \<in> set (row_update key k f rs) \<longleftrightarrow>
     (\<exists>r0 \<in> set rs. r = (if key r0 = k then f r0 else r0))"
  unfolding row_update_def by (induction rs) auto

lemma in_row_update_unique:
  assumes "distinct (map key rs)" and "row_find key k rs = Some r"
  shows "x \<in> set (row_update key k f rs) \<longleftrightarrow> x = f r \<or> (x \<in> set rs \<and> key x \<noteq> k)"
proof -
  have u: "r0 = r" if "r0 \<in> set rs" "key r0 = k" for r0
    using row_find_unique[OF assms(1) that(1)] that(2) assms(2) by simp
  have m: "r \<in> set rs" "key r = k" using row_find_SomeD[OF assms(2)] by simp_all
  show ?thesis
  proof
    assume "x \<in> set (row_update key k f rs)"
    then obtain r0 where "r0 \<in> set rs" "x = (if key r0 = k then f r0 else r0)"
      by (auto simp: in_row_update)
    then show "x = f r \<or> (x \<in> set rs \<and> key x \<noteq> k)" using u by (cases "key r0 = k") auto
  next
    assume "x = f r \<or> (x \<in> set rs \<and> key x \<noteq> k)"
    then show "x \<in> set (row_update key k f rs)"
      using m unfolding in_row_update by (elim disjE) (rule bexI[of _ r], auto)
  qed
qed

subsection \<open>Options and JSON-like absence\<close>

text \<open>SQL's \<open>COALESCE(?, column)\<close>.\<close>

definition coalesce :: "'a option \<Rightarrow> 'a option \<Rightarrow> 'a option" where
  "coalesce new old = (case new of None \<Rightarrow> old | Some v \<Rightarrow> Some v)"

lemma coalesce_simps [simp]: "coalesce None old = old" "coalesce (Some v) old = Some v"
  by (simp_all add: coalesce_def)

lemma coalesce_eq_None [simp]: "coalesce a b = None \<longleftrightarrow> a = None \<and> b = None"
  by (cases a) auto

text \<open>JavaScript's \<open>xs[i]\<close> on an array: \<open>undefined\<close> out of range.\<close>

definition at_index :: "'a list \<Rightarrow> nat \<Rightarrow> 'a option" where
  "at_index xs i = (if i < length xs then Some (xs ! i) else None)"

lemma at_index_Some [simp]: "at_index xs i = Some x \<longleftrightarrow> i < length xs \<and> xs ! i = x"
  by (auto simp: at_index_def)

lemma at_index_None [simp]: "at_index xs i = None \<longleftrightarrow> length xs \<le> i"
  by (auto simp: at_index_def)

text \<open>JavaScript's \<open>xs.at(-1)\<close>.\<close>

definition last_opt :: "'a list \<Rightarrow> 'a option" where
  "last_opt xs = (if xs = [] then None else Some (last xs))"

lemma last_opt_Some: "last_opt xs = Some x \<Longrightarrow> x \<in> set xs"
  by (auto simp: last_opt_def split: if_splits)

lemma last_opt_snoc [simp]: "last_opt (xs @ [x]) = Some x"
  by (simp add: last_opt_def)

lemma last_opt_Nil [simp]: "last_opt [] = None"
  by (simp add: last_opt_def)

subsection \<open>Decimal text\<close>

definition digit_char :: "nat \<Rightarrow> char" where
  "digit_char d = ''0123456789'' ! d"

fun dec_text :: "nat \<Rightarrow> string" where
  "dec_text n = (if n < 10 then [digit_char n] else dec_text (n div 10) @ [digit_char (n mod 10)])"

declare dec_text.simps [simp del]

lemma digit_char_inj: "a < 10 \<Longrightarrow> b < 10 \<Longrightarrow> digit_char a = digit_char b \<Longrightarrow> a = b"
proof -
  have "distinct (''0123456789'' :: string)" and "length (''0123456789'' :: string) = 10"
    by simp_all
  then show "a < 10 \<Longrightarrow> b < 10 \<Longrightarrow> digit_char a = digit_char b \<Longrightarrow> a = b"
    unfolding digit_char_def by (metis nth_eq_iff_index_eq)
qed

lemma digit_char_mem: "d < 10 \<Longrightarrow> digit_char d \<in> set ''0123456789''"
proof -
  assume "d < 10"
  then have "d < length (''0123456789'' :: string)" by simp
  then show ?thesis unfolding digit_char_def by (rule nth_mem)
qed

lemma dec_text_digits: "set (dec_text n) \<subseteq> set ''0123456789''"
proof (induction n rule: dec_text.induct)
  case (1 n)
  have "digit_char (n mod 10) \<in> set ''0123456789''"
    by (rule digit_char_mem) simp
  moreover have "n < 10 \<Longrightarrow> digit_char n \<in> set ''0123456789''"
    by (rule digit_char_mem)
  ultimately show ?case
    using 1 by (subst dec_text.simps) auto
qed

lemma dec_text_nonempty [simp]: "dec_text n \<noteq> []"
  by (subst dec_text.simps) simp

lemma dec_text_length: "length (dec_text n) = 1 \<longleftrightarrow> n < 10"
  by (subst dec_text.simps) simp

lemma dec_text_inject [simp]: "dec_text m = dec_text n \<longleftrightarrow> m = n"
proof
  assume "dec_text m = dec_text n"
  then show "m = n"
  proof (induction m arbitrary: n rule: dec_text.induct)
    case (1 m)
    show ?case
    proof (cases "m < 10")
      case True
      with 1(2) have "n < 10" using dec_text_length[of m] dec_text_length[of n] by simp
      with True 1(2) show ?thesis
        by (simp add: dec_text.simps[of m] dec_text.simps[of n] digit_char_inj)
    next
      case False
      with 1(2) have n: "\<not> n < 10" using dec_text_length[of m] dec_text_length[of n] by simp
      with False 1(2) have "dec_text (m div 10) = dec_text (n div 10)"
        and "digit_char (m mod 10) = digit_char (n mod 10)"
        by (simp_all add: dec_text.simps[of m] dec_text.simps[of n])
      then have "m div 10 = n div 10" and "m mod 10 = n mod 10"
        using 1(1)[OF False, of "n div 10"] by (auto intro: digit_char_inj)
      then show ?thesis by (metis div_mod_decomp)
    qed
  qed
qed simp

lemma dec_text_no_colon [simp]: "CHR '':'' \<notin> set (dec_text n)"
  using dec_text_digits[of n] by auto

lemma append_sep_inject:
  assumes "x \<notin> set as" and "x \<notin> set bs" and "as @ x # r = bs @ x # r'"
  shows "as = bs \<and> r = r'"
  using assms
proof (induction as arbitrary: bs)
  case Nil
  then show ?case by (cases bs) auto
next
  case (Cons a as)
  then show ?case by (cases bs) auto
qed

subsection \<open>Stable sorting by a comparison\<close>

fun insert_by :: "('a \<Rightarrow> 'a \<Rightarrow> bool) \<Rightarrow> 'a \<Rightarrow> 'a list \<Rightarrow> 'a list" where
  "insert_by le x [] = [x]"
| "insert_by le x (y # ys) = (if le x y then x # y # ys else y # insert_by le x ys)"

fun sort_by :: "('a \<Rightarrow> 'a \<Rightarrow> bool) \<Rightarrow> 'a list \<Rightarrow> 'a list" where
  "sort_by le [] = []"
| "sort_by le (x # xs) = insert_by le x (sort_by le xs)"

lemma set_insert_by [simp]: "set (insert_by le x xs) = insert x (set xs)"
  by (induction xs) auto

lemma set_sort_by [simp]: "set (sort_by le xs) = set xs"
  by (induction xs) auto

lemma length_insert_by [simp]: "length (insert_by le x xs) = Suc (length xs)"
  by (induction xs) auto

lemma length_sort_by [simp]: "length (sort_by le xs) = length xs"
  by (induction xs) auto

lemma distinct_insert_by [simp]: "distinct (insert_by le x xs) \<longleftrightarrow> distinct (x # xs)"
  by (induction xs) auto

lemma distinct_sort_by [simp]: "distinct (sort_by le xs) \<longleftrightarrow> distinct xs"
  by (induction xs) auto

lemma distinct_map_insert_by [simp]:
  "distinct (map f (insert_by le x xs)) \<longleftrightarrow> distinct (map f (x # xs))"
  by (induction xs) auto

lemma distinct_map_sort_by [simp]: "distinct (map f (sort_by le xs)) \<longleftrightarrow> distinct (map f xs)"
  by (induction xs) auto

lemma sum_list_insert_by [simp]:
  "sum_list (map (g :: 'a \<Rightarrow> nat) (insert_by le x xs)) = g x + sum_list (map g xs)"
  by (induction xs) auto

lemma sum_list_sort_by [simp]:
  "sum_list (map (g :: 'a \<Rightarrow> nat) (sort_by le xs)) = sum_list (map g xs)"
  by (induction xs) auto

lemma sorted_insert_by:
  assumes total: "\<And>a b. le a b \<or> le b a"
    and trans: "\<And>a b c. le a b \<Longrightarrow> le b c \<Longrightarrow> le a c"
    and s: "sorted_wrt le xs"
  shows "sorted_wrt le (insert_by le x xs)"
  using s
proof (induction xs)
  case (Cons y ys)
  show ?case
  proof (cases "le x y")
    case True
    with Cons.prems trans show ?thesis by auto
  next
    case False
    with total have "le y x" by blast
    with False Cons show ?thesis by auto
  qed
qed simp

lemma sorted_sort_by:
  assumes "\<And>a b. le a b \<or> le b a" and "\<And>a b c. le a b \<Longrightarrow> le b c \<Longrightarrow> le a c"
  shows "sorted_wrt le (sort_by le xs)"
  by (induction xs) (simp_all add: sorted_insert_by [OF assms])

end
