(* ===== verification/Canonical_Json.thy ===== *)
theory Canonical_Json
  imports Prelude
begin

text \<open>
  The canonical JSON text that the sealed recipes and plans are hashed over
  (\<open>canonicalJson\<close> of reward-run-service.ts and reward-operation-plan.ts).

  A JavaScript value that reaches it is one of the six JSON shapes. Object keys are sorted with
  \<open>localeCompare\<close>, whose order depends on the runtime's collation tables: it is the parameter
  \<open>le\<close> (\<open>le a b\<close> is \<open>a.localeCompare(b) \<le> 0\<close>). String literals are quoted as
  \<open>JSON.stringify\<close> does on ASCII text.
\<close>

datatype json =
    JNull
  | JBool bool
  | JNum int
  | JStr string
  | JArr "json list"
  | JObj "(string \<times> json) list"

definition int_text :: "int \<Rightarrow> string" where
  "int_text i = (if i < 0 then CHR ''-'' # dec_text (nat (- i)) else dec_text (nat i))"

definition hex_digit :: "nat \<Rightarrow> char" where
  "hex_digit d = ''0123456789abcdef'' ! d"

definition json_escape :: "char \<Rightarrow> string" where
  "json_escape c =
     (if c = CHR 0x22 then [CHR 0x5C, CHR 0x22]
      else if c = CHR 0x5C then [CHR 0x5C, CHR 0x5C]
      else if c = CHR 0x08 then [CHR 0x5C, CHR ''b'']
      else if c = CHR 0x0C then [CHR 0x5C, CHR ''f'']
      else if c = CHR 0x0A then [CHR 0x5C, CHR ''n'']
      else if c = CHR 0x0D then [CHR 0x5C, CHR ''r'']
      else if c = CHR 0x09 then [CHR 0x5C, CHR ''t'']
      else if of_char c < (32 :: nat) then
        [CHR 0x5C, CHR ''u'', CHR ''0'', CHR ''0'',
         hex_digit (of_char c div 16), hex_digit (of_char c mod 16)]
      else [c])"

definition json_quote :: "string \<Rightarrow> string" where
  "json_quote s = [CHR 0x22] @ concat (map json_escape s) @ [CHR 0x22]"

fun join :: "string \<Rightarrow> string list \<Rightarrow> string" where
  "join sep [] = []"
| "join sep [x] = x"
| "join sep (x # y # ys) = x @ sep @ join sep (y # ys)"

fun canonicalJson :: "(string \<Rightarrow> string \<Rightarrow> bool) \<Rightarrow> json \<Rightarrow> string" where
  "canonicalJson le JNull = ''null''"
| "canonicalJson le (JBool b) = (if b then ''true'' else ''false'')"
| "canonicalJson le (JNum i) = int_text i"
| "canonicalJson le (JStr s) = json_quote s"
| "canonicalJson le (JArr vs) = ''['' @ join '','' (map (canonicalJson le) vs) @ '']''"
| "canonicalJson le (JObj kvs) =
     ''{'' @ join '',''
       (map (\<lambda>(k, t). json_quote k @ '':'' @ t)
         (sort_by (\<lambda>(k, _) (k', _). le k k')
           (map (\<lambda>(k, v). (k, canonicalJson le v)) kvs))) @ ''}''"

definition json_opt :: "('a \<Rightarrow> json) \<Rightarrow> 'a option \<Rightarrow> json" where
  "json_opt f x = (case x of None \<Rightarrow> JNull | Some v \<Rightarrow> f v)"

text \<open>A decimal-text field of a sealed record (\<open>amount.toString()\<close>).\<close>

definition json_uint :: "nat \<Rightarrow> json" where
  "json_uint n = JStr (dec_text n)"

lemma json_uint_inject [simp]: "json_uint a = json_uint b \<longleftrightarrow> a = b"
  by (simp add: json_uint_def)

lemma json_opt_inject:
  assumes "\<And>a b. f a = f b \<Longrightarrow> a = b" and "\<And>a. f a \<noteq> JNull"
  shows "json_opt f x = json_opt f y \<longleftrightarrow> x = y"
  using assms by (auto simp: json_opt_def split: option.splits) metis+

end
