(* ===== verification/Operation_Plan.thy ===== *)
theory Operation_Plan
  imports Canonical_Json
begin

text \<open>
  The sealed reward-operation plan (packages/protocol/src/reward-operation-plan.ts) and the
  principal syntax it rests on (principals.ts).

  \<open>planRewardOperation\<close> turns one of five operation inputs into a sealed plan: the closed contract
  call with its exact post-condition, the serialized unsigned transaction, and the digest over the
  canonical JSON of the material. \<open>revalidateRewardOperationPlan\<close> rebuilds the plan from its own
  material before a signature.

  The transaction library (@stacks/transactions), zod's UUID test and the SHA-256 digest are not part
  of the program: they are the fields of a \<open>tx_lib\<close> argument. Decimal-text fields of the material
  are the \<open>int\<close> whose \<open>toString\<close> they hold; \<open>uintTextSchema\<close> (which admits neither a sign nor a
  leading zero) accepts exactly the non-negative ones. The literal fields \<open>schemaVersion\<close> and \<open>kind\<close> are constants
  of the JSON rendering.
\<close>

subsection \<open>Principals (principals.ts)\<close>

datatype network = Mainnet | Testnet

datatype plan_error = PlanError string | SchemaError string

definition is_letter :: "char \<Rightarrow> bool" where
  "is_letter c \<longleftrightarrow> (CHR ''a'' \<le> c \<and> c \<le> CHR ''z'') \<or> (CHR ''A'' \<le> c \<and> c \<le> CHR ''Z'')"

definition is_digit :: "char \<Rightarrow> bool" where
  "is_digit c \<longleftrightarrow> CHR ''0'' \<le> c \<and> c \<le> CHR ''9''"

definition contractNamePattern :: "string \<Rightarrow> bool" where
  "contractNamePattern s =
     (case s of [] \<Rightarrow> False
      | c # cs \<Rightarrow> is_letter c \<and> length cs \<le> 39 \<and>
          list_all (\<lambda>d. is_letter d \<or> is_digit d \<or> d = CHR ''-'' \<or> d = CHR ''_'') cs)"

record contract_parts =
  address :: string
  contractName :: string
  partsNetwork :: network

text \<open>The text before and after the first dot, when there is one.\<close>

fun split_dot :: "string \<Rightarrow> (string \<times> string) option" where
  "split_dot [] = None"
| "split_dot (c # cs) =
     (if c = CHR ''.'' then Some ([], cs)
      else map_option (\<lambda>(a, b). (c # a, b)) (split_dot cs))"

definition parseContractPrincipal ::
    "(string \<Rightarrow> bool) \<Rightarrow> principal \<Rightarrow> plan_error + contract_parts" where
  "parseContractPrincipal validAddress p =
     (case split_dot p of
        None \<Rightarrow> Inl (PlanError ''Expected a contract principal in the form ADDRESS.contract-name'')
      | Some (addr, name) \<Rightarrow>
          if addr = [] \<or> CHR ''.'' \<in> set name
          then Inl (PlanError ''Expected a contract principal in the form ADDRESS.contract-name'')
          else if \<not> validAddress addr
          then Inl (PlanError ''Contract principal has an invalid address'')
          else if \<not> contractNamePattern name
          then Inl (PlanError ''Contract principal has an invalid contract name'')
          else Inr \<lparr>address = addr, contractName = name,
                 partsNetwork = (if take 2 addr = ''SP'' \<or> take 2 addr = ''SM'' then Mainnet
                                 else Testnet)\<rparr>)"

definition validatePrincipal :: "(string \<Rightarrow> bool) \<Rightarrow> principal \<Rightarrow> bool" where
  "validatePrincipal validAddress p =
     (if CHR ''.'' \<notin> set p then validAddress p
      else (case parseContractPrincipal validAddress p of Inl _ \<Rightarrow> False | Inr _ \<Rightarrow> True))"

subsection \<open>Data of a plan\<close>

datatype operation =
  CalculateRewards | ClaimRewards | ClaimStakerRewards
  | SettleAcceptedWithdrawal | ReclaimFailedWithdrawal

datatype checkpoint = FirstHalf | SecondHalf

datatype payout_route = DirectSbtc | BitcoinL1

record authorization =
  authRunId :: string
  authRecipeSha256 :: string

record plan_network =
  netKind :: network
  netChainId :: int

record plan_anchor =
  ancStacksHeight :: int
  ancBurnHeight :: int
  ancIndexHash :: string

record plan_sender =
  senderPrincipal :: principal
  senderPublicKey :: string

record plan_transaction =
  txNonce :: int
  txFeeUstx :: int
  txUnsignedSha256 :: string

record ft_transfer =
  ftAsset :: string
  ftSender :: principal
  ftRecipient :: principal
  ftAmountSats :: int

text \<open>The kind-specific part of the material (\<open>operationMaterialSchema\<close>).\<close>

datatype op_material =
    MCalculate (mPox5: principal) (mBondPeriods: "int list") (mTargetCycle: int)
      (mTargetCheckpoint: checkpoint) (mExpectedLastCompute: int)
  | MClaim (mManager: principal) (mPox5: principal) (mSbtcToken: principal) (mCycle: int)
      (mBondPeriods: "int list") (mEffect: ft_transfer)
  | MClaimStaker (mManager: principal) (mSbtcToken: principal) (mStaker: principal) (mCycle: int)
      (mBondIndex: "int option") (mRoute: payout_route) (mGross: int) (mFee: int)
      (mEffect: ft_transfer)
  | MSettle (mManager: principal) (mRequestId: int) (mStaker: principal)
  | MReclaim (mManager: principal) (mSbtcToken: principal) (mRequestId: int) (mStaker: principal)
      (mWithdrawal: int) (mMaxFee: int) (mEffect: ft_transfer)

record material =
  matAdapterId :: string
  matAdapterRevision :: nat
  matAuthorization :: authorization
  matNetwork :: plan_network
  matAnchor :: plan_anchor
  matSender :: plan_sender
  matManagerFingerprint :: "string option"
  matTransaction :: plan_transaction
  matOp :: op_material

record plan =
  planSha256 :: string
  unsignedTransactionHex :: string
  unsignedTransactionSha256 :: string
  planMaterial :: material

fun material_kind :: "op_material \<Rightarrow> operation" where
  "material_kind (MCalculate _ _ _ _ _) = CalculateRewards"
| "material_kind (MClaim _ _ _ _ _ _) = ClaimRewards"
| "material_kind (MClaimStaker _ _ _ _ _ _ _ _ _) = ClaimStakerRewards"
| "material_kind (MSettle _ _ _) = SettleAcceptedWithdrawal"
| "material_kind (MReclaim _ _ _ _ _ _ _) = ReclaimFailedWithdrawal"

text \<open>The sBTC a plan may move: the amount of its exact transfer, none for the other kinds.\<close>

fun material_effect :: "op_material \<Rightarrow> ft_transfer option" where
  "material_effect (MClaim _ _ _ _ _ e) = Some e"
| "material_effect (MClaimStaker _ _ _ _ _ _ _ _ e) = Some e"
| "material_effect (MReclaim _ _ _ _ _ _ e) = Some e"
| "material_effect _ = None"

subsection \<open>Inputs\<close>

record op_common =
  inAuthorization :: authorization
  inNetwork :: plan_network
  inAnchor :: plan_anchor
  inSender :: plan_sender
  inManagerFingerprint :: "string option"
  inNonce :: int
  inFeeUstx :: int

datatype op_request =
    ICalculate principal "int list" int checkpoint int
  | IClaim principal principal principal int "int list" int
  | IClaimStaker principal principal principal int "int option" payout_route int int int
  | ISettle principal int principal
  | IReclaim principal principal int principal int int

subsection \<open>The adapter registry\<close>

fun adapter_id :: "operation \<Rightarrow> string" where
  "adapter_id CalculateRewards = ''pox5-calculate-rewards''"
| "adapter_id ClaimRewards = ''reference-manager-claim-rewards''"
| "adapter_id ClaimStakerRewards = ''reference-manager-claim-staker-rewards''"
| "adapter_id SettleAcceptedWithdrawal = ''reference-manager-settle-accepted-withdrawal''"
| "adapter_id ReclaimFailedWithdrawal = ''reference-manager-reclaim-failed-withdrawal''"

fun adapter_revision :: "operation \<Rightarrow> nat" where
  "adapter_revision CalculateRewards = 1"
| "adapter_revision ClaimRewards = 3"
| "adapter_revision ClaimStakerRewards = 2"
| "adapter_revision SettleAcceptedWithdrawal = 1"
| "adapter_revision ReclaimFailedWithdrawal = 1"

subsection \<open>The transaction library\<close>

datatype clarity_arg =
    AUint int
  | APrincipal principal
  | AList "clarity_arg list"
  | ANone
  | ASome clarity_arg

text \<open>\<open>Pc.principal(s).willSendEq(n).ft(contract, name)\<close>.\<close>

record post_condition =
  pcPrincipal :: principal
  pcAmount :: int
  pcContract :: principal
  pcToken :: string

record unsigned_call =
  callContract :: contract_parts
  callFunction :: string
  callArgs :: "clarity_arg list"
  callPublicKey :: string
  callNonce :: int
  callFee :: int
  callNetwork :: network
  callDenyMode :: bool
  callPostConditions :: "post_condition list"

record tx_lib =
  validateStacksAddress :: "string \<Rightarrow> bool"
  compressedPublicKey :: "string \<Rightarrow> bool"
  getAddressFromPublicKey :: "string \<Rightarrow> network \<Rightarrow> principal"
  makeUnsignedContractCall :: "unsigned_call \<Rightarrow> plan_error + string"
  deserializeOk :: "string \<Rightarrow> bool"
  isUuid :: "string \<Rightarrow> bool"
  sha256Text :: "string \<Rightarrow> string"
  sha256HexBytes :: "string \<Rightarrow> string"
  localeLe :: "string \<Rightarrow> string \<Rightarrow> bool"

subsection \<open>Schemas\<close>

definition is_hex_lower :: "char \<Rightarrow> bool" where
  "is_hex_lower c \<longleftrightarrow> is_digit c \<or> (CHR ''a'' \<le> c \<and> c \<le> CHR ''f'')"

definition hashSchema :: "string \<Rightarrow> bool" where
  "hashSchema s \<longleftrightarrow> length s = 64 \<and> list_all is_hex_lower s"

definition indexBlockHashSchema :: "string \<Rightarrow> bool" where
  "indexBlockHashSchema s \<longleftrightarrow> take 2 s = ''0x'' \<and> hashSchema (drop 2 s)"

definition standardPrincipalSchema :: "tx_lib \<Rightarrow> principal \<Rightarrow> bool" where
  "standardPrincipalSchema L p \<longleftrightarrow> CHR ''.'' \<notin> set p \<and> validatePrincipal (validateStacksAddress L) p"

definition contractPrincipalSchema :: "tx_lib \<Rightarrow> principal \<Rightarrow> bool" where
  "contractPrincipalSchema L p =
     (case parseContractPrincipal (validateStacksAddress L) p of Inl _ \<Rightarrow> False | Inr _ \<Rightarrow> True)"

definition publicKeySchema :: "tx_lib \<Rightarrow> string \<Rightarrow> bool" where
  "publicKeySchema L k \<longleftrightarrow>
     (take 2 k = ''02'' \<or> take 2 k = ''03'') \<and> hashSchema (drop 2 k) \<and> compressedPublicKey L k"

definition authorizationSchema :: "tx_lib \<Rightarrow> authorization \<Rightarrow> bool" where
  "authorizationSchema L a \<longleftrightarrow> isUuid L (authRunId a) \<and> hashSchema (authRecipeSha256 a)"

definition networkSchema :: "plan_network \<Rightarrow> bool" where
  "networkSchema n \<longleftrightarrow> 0 \<le> netChainId n"

definition anchorSchema :: "plan_anchor \<Rightarrow> bool" where
  "anchorSchema a \<longleftrightarrow>
     0 \<le> ancStacksHeight a \<and> 0 \<le> ancBurnHeight a \<and> indexBlockHashSchema (ancIndexHash a)"

definition senderSchema :: "tx_lib \<Rightarrow> plan_sender \<Rightarrow> bool" where
  "senderSchema L s \<longleftrightarrow>
     standardPrincipalSchema L (senderPrincipal s) \<and> publicKeySchema L (senderPublicKey s)"

text \<open>\<open>uintTextSchema\<close> on the \<open>toString\<close> of a bigint.\<close>

definition uintText :: "int \<Rightarrow> bool" where
  "uintText i \<longleftrightarrow> 0 \<le> i"

definition effectSchema :: "ft_transfer \<Rightarrow> bool" where
  "effectSchema e \<longleftrightarrow>
     ftAsset e \<noteq> [] \<and> ftSender e \<noteq> [] \<and> ftRecipient e \<noteq> [] \<and> uintText (ftAmountSats e)"

fun opMaterialSchema :: "tx_lib \<Rightarrow> op_material \<Rightarrow> bool" where
  "opMaterialSchema L (MCalculate pox5 periods cyc chk lastCompute) =
     (contractPrincipalSchema L pox5 \<and> list_all uintText periods \<and> length periods \<le> 6 \<and>
      uintText cyc \<and> 0 \<le> lastCompute)"
| "opMaterialSchema L (MClaim mgr pox5 sbtc cyc periods eff) =
     (contractPrincipalSchema L mgr \<and> contractPrincipalSchema L pox5 \<and>
      contractPrincipalSchema L sbtc \<and> uintText cyc \<and>
      list_all uintText periods \<and> length periods \<le> 6 \<and> effectSchema eff)"
| "opMaterialSchema L (MClaimStaker mgr sbtc staker cyc bond route gross fee eff) =
     (contractPrincipalSchema L mgr \<and> contractPrincipalSchema L sbtc \<and>
      validatePrincipal (validateStacksAddress L) staker \<and> uintText cyc \<and>
      (case bond of None \<Rightarrow> True | Some b \<Rightarrow> uintText b) \<and>
      uintText gross \<and> uintText fee \<and> effectSchema eff)"
| "opMaterialSchema L (MSettle mgr request staker) =
     (contractPrincipalSchema L mgr \<and> uintText request \<and>
      validatePrincipal (validateStacksAddress L) staker)"
| "opMaterialSchema L (MReclaim mgr sbtc request staker amount maxFee eff) =
     (contractPrincipalSchema L mgr \<and> contractPrincipalSchema L sbtc \<and> uintText request \<and>
      validatePrincipal (validateStacksAddress L) staker \<and>
      uintText amount \<and> uintText maxFee \<and> effectSchema eff)"

definition operationMaterialSchema :: "tx_lib \<Rightarrow> material \<Rightarrow> bool" where
  "operationMaterialSchema L m \<longleftrightarrow>
     matAdapterId m \<in> adapter_id ` {CalculateRewards, ClaimRewards, ClaimStakerRewards,
       SettleAcceptedWithdrawal, ReclaimFailedWithdrawal} \<and>
     0 < matAdapterRevision m \<and>
     authorizationSchema L (matAuthorization m) \<and> networkSchema (matNetwork m) \<and>
     anchorSchema (matAnchor m) \<and> senderSchema L (matSender m) \<and>
     (case matManagerFingerprint m of None \<Rightarrow> True | Some f \<Rightarrow> hashSchema f) \<and>
     uintText (txNonce (matTransaction m)) \<and> uintText (txFeeUstx (matTransaction m)) \<and>
     hashSchema (txUnsignedSha256 (matTransaction m)) \<and>
     opMaterialSchema L (matOp m)"

definition rewardOperationPlanSchema :: "tx_lib \<Rightarrow> plan \<Rightarrow> bool" where
  "rewardOperationPlanSchema L p \<longleftrightarrow>
     hashSchema (planSha256 p) \<and>
     unsignedTransactionHex p \<noteq> [] \<and> list_all is_hex_lower (unsignedTransactionHex p) \<and>
     hashSchema (unsignedTransactionSha256 p) \<and> operationMaterialSchema L (planMaterial p)"

subsection \<open>Common checks\<close>

definition assertCommon :: "tx_lib \<Rightarrow> op_common \<Rightarrow> plan_error + unit" where
  "assertCommon L c =
     bindr (guardr (authorizationSchema L (inAuthorization c)) (SchemaError ''authorization'')) (\<lambda>_.
     bindr (guardr (networkSchema (inNetwork c)) (SchemaError ''network'')) (\<lambda>_.
     bindr (guardr (anchorSchema (inAnchor c)) (SchemaError ''chainAnchor'')) (\<lambda>_.
     bindr (guardr (senderSchema L (inSender c)) (SchemaError ''sender'')) (\<lambda>_.
     bindr (guardr (getAddressFromPublicKey L (senderPublicKey (inSender c)) (netKind (inNetwork c))
                      = senderPrincipal (inSender c))
             (PlanError ''Reward-operation sender does not match its public key'')) (\<lambda>_.
     bindr (guardr (\<not> (inNonce c < 0 \<or> inFeeUstx c < 0))
             (PlanError ''Nonce and fee must be non-negative'')) (\<lambda>_.
     bindr (guardr (\<not> (netKind (inNetwork c) = Mainnet \<and> netChainId (inNetwork c) \<noteq> 1))
             (PlanError ''Mainnet reward operations require chain ID 1'')) (\<lambda>_.
     guardr (\<not> (netKind (inNetwork c) = Testnet \<and> \<not> bit (netChainId (inNetwork c)) 31))
             (PlanError ''Testnet reward operations require a testnet chain ID''))))))))"

subsection \<open>The closed contract calls\<close>

record contract_call =
  ccContract :: principal
  ccFunction :: string
  ccArgs :: "clarity_arg list"
  ccPostConditions :: "post_condition list"
  ccMaterial :: op_material

definition sbtc_transfer :: "principal \<Rightarrow> principal \<Rightarrow> principal \<Rightarrow> int \<Rightarrow> ft_transfer" where
  "sbtc_transfer token sndr rcp amount =
     \<lparr>ftAsset = token @ ''::sbtc-token'', ftSender = sndr, ftRecipient = rcp, ftAmountSats = amount\<rparr>"

definition will_send_eq :: "principal \<Rightarrow> int \<Rightarrow> principal \<Rightarrow> post_condition" where
  "will_send_eq sndr amount token =
     \<lparr>pcPrincipal = sndr, pcAmount = amount, pcContract = token, pcToken = ''sbtc-token''\<rparr>"

fun contractCall :: "op_request \<Rightarrow> plan_error + contract_call" where
  "contractCall (ICalculate pox5 periods cyc chk lastCompute) =
     Inr \<lparr>ccContract = pox5, ccFunction = ''calculate-rewards'',
          ccArgs = [AList (map AUint periods)], ccPostConditions = [],
          ccMaterial = MCalculate pox5 periods cyc chk lastCompute\<rparr>"
| "contractCall (IClaim mgr pox5 sbtc cyc periods outflow) =
     (if outflow \<le> 0 then Inl (PlanError ''Collect must move positive sBTC'')
      else Inr \<lparr>ccContract = mgr, ccFunction = ''claim-rewards'',
          ccArgs = [AList (map AUint periods), AUint cyc],
          ccPostConditions = [will_send_eq pox5 outflow sbtc],
          ccMaterial = MClaim mgr pox5 sbtc cyc periods (sbtc_transfer sbtc pox5 mgr outflow)\<rparr>)"
| "contractCall (IClaimStaker mgr sbtc staker cyc bond route gross fee net) =
     (if net \<le> 0 \<or> gross - fee \<noteq> net
      then Inl (PlanError ''Staker payout must equal positive gross rewards minus manager fee'')
      else Inr \<lparr>ccContract = mgr, ccFunction = ''claim-staker-rewards'',
          ccArgs = [APrincipal staker, AUint cyc,
                    (case bond of None \<Rightarrow> ANone | Some b \<Rightarrow> ASome (AUint b))],
          ccPostConditions = [will_send_eq mgr net sbtc],
          ccMaterial = MClaimStaker mgr sbtc staker cyc bond route gross fee
            (sbtc_transfer sbtc mgr
              (if route = DirectSbtc then staker else ''sbtc-withdrawal'') net)\<rparr>)"
| "contractCall (ISettle mgr request staker) =
     Inr \<lparr>ccContract = mgr, ccFunction = ''settle-accepted-withdrawal'',
          ccArgs = [AUint request], ccPostConditions = [],
          ccMaterial = MSettle mgr request staker\<rparr>"
| "contractCall (IReclaim mgr sbtc request staker amount maxFee) =
     (let refund = amount + maxFee in
      if refund \<le> 0 then Inl (PlanError ''Withdrawal reclaim must return positive sBTC'')
      else Inr \<lparr>ccContract = mgr, ccFunction = ''reclaim-failed-withdrawal'',
          ccArgs = [AUint request],
          ccPostConditions = [will_send_eq mgr refund sbtc],
          ccMaterial = MReclaim mgr sbtc request staker amount maxFee
            (sbtc_transfer sbtc mgr staker refund)\<rparr>)"

subsection \<open>The material as JSON\<close>

fun network_text :: "network \<Rightarrow> string" where
  "network_text Mainnet = ''mainnet''"
| "network_text Testnet = ''testnet''"

fun operation_text :: "operation \<Rightarrow> string" where
  "operation_text CalculateRewards = ''calculate-rewards''"
| "operation_text ClaimRewards = ''claim-rewards''"
| "operation_text ClaimStakerRewards = ''claim-staker-rewards''"
| "operation_text SettleAcceptedWithdrawal = ''settle-accepted-withdrawal''"
| "operation_text ReclaimFailedWithdrawal = ''reclaim-failed-withdrawal''"

fun checkpoint_text :: "checkpoint \<Rightarrow> string" where
  "checkpoint_text FirstHalf = ''first-half''"
| "checkpoint_text SecondHalf = ''second-half''"

fun route_text :: "payout_route \<Rightarrow> string" where
  "route_text DirectSbtc = ''direct-sbtc''"
| "route_text BitcoinL1 = ''bitcoin-l1''"

definition no_asset_json :: json where
  "no_asset_json = JObj [(''kind'', JStr ''no-asset-transfer'')]"

definition effect_json :: "ft_transfer \<Rightarrow> json" where
  "effect_json e = JObj [(''kind'', JStr ''exact-ft-transfer''), (''asset'', JStr (ftAsset e)),
     (''sender'', JStr (ftSender e)), (''recipient'', JStr (ftRecipient e)),
     (''amountSats'', JStr (int_text (ftAmountSats e)))]"

fun op_json :: "op_material \<Rightarrow> (string \<times> json) list" where
  "op_json (MCalculate pox5 periods cyc chk lastCompute) =
     [(''kind'', JStr ''calculate-rewards''), (''pox5Contract'', JStr pox5),
      (''bondPeriods'', JArr (map (\<lambda>p. JStr (int_text p)) periods)),
      (''targetRewardCycle'', JStr (int_text cyc)),
      (''targetCheckpoint'', JStr (checkpoint_text chk)),
      (''expectedLastRewardComputeBurnHeight'', JNum lastCompute),
      (''expectedEffect'', no_asset_json)]"
| "op_json (MClaim mgr pox5 sbtc cyc periods eff) =
     [(''kind'', JStr ''claim-rewards''), (''managerContract'', JStr mgr),
      (''pox5Contract'', JStr pox5), (''sbtcTokenContract'', JStr sbtc),
      (''rewardCycle'', JStr (int_text cyc)),
      (''bondPeriods'', JArr (map (\<lambda>p. JStr (int_text p)) periods)),
      (''expectedEffect'', effect_json eff)]"
| "op_json (MClaimStaker mgr sbtc staker cyc bond route gross fee eff) =
     [(''kind'', JStr ''claim-staker-rewards''), (''managerContract'', JStr mgr),
      (''sbtcTokenContract'', JStr sbtc), (''stakerPrincipal'', JStr staker),
      (''rewardCycle'', JStr (int_text cyc)),
      (''bondIndex'', json_opt (\<lambda>b. JStr (int_text b)) bond),
      (''payoutRoute'', JStr (route_text route)), (''grossSats'', JStr (int_text gross)),
      (''feeSats'', JStr (int_text fee)), (''expectedEffect'', effect_json eff)]"
| "op_json (MSettle mgr request staker) =
     [(''kind'', JStr ''settle-accepted-withdrawal''), (''managerContract'', JStr mgr),
      (''requestId'', JStr (int_text request)), (''stakerPrincipal'', JStr staker),
      (''expectedEffect'', no_asset_json)]"
| "op_json (MReclaim mgr sbtc request staker amount maxFee eff) =
     [(''kind'', JStr ''reclaim-failed-withdrawal''), (''managerContract'', JStr mgr),
      (''sbtcTokenContract'', JStr sbtc), (''requestId'', JStr (int_text request)),
      (''stakerPrincipal'', JStr staker), (''withdrawalAmountSats'', JStr (int_text amount)),
      (''maxFeeSats'', JStr (int_text maxFee)), (''expectedEffect'', effect_json eff)]"

definition material_json :: "material \<Rightarrow> json" where
  "material_json m = JObj ([(''schemaVersion'', JNum 2)] @ op_json (matOp m) @
     [(''adapter'', JObj [(''id'', JStr (matAdapterId m)),
         (''revision'', JNum (int (matAdapterRevision m)))]),
      (''authorization'', JObj [(''schemaVersion'', JNum 2), (''kind'', JStr ''operator-run''),
         (''runId'', JStr (authRunId (matAuthorization m))),
         (''recipeSha256'', JStr (authRecipeSha256 (matAuthorization m)))]),
      (''network'', JObj [(''kind'', JStr (network_text (netKind (matNetwork m)))),
         (''chainId'', JNum (netChainId (matNetwork m)))]),
      (''chainAnchor'', JObj [(''stacksBlockHeight'', JNum (ancStacksHeight (matAnchor m))),
         (''burnBlockHeight'', JNum (ancBurnHeight (matAnchor m))),
         (''indexBlockHash'', JStr (ancIndexHash (matAnchor m)))]),
      (''sender'', JObj [(''principal'', JStr (senderPrincipal (matSender m))),
         (''publicKey'', JStr (senderPublicKey (matSender m)))]),
      (''managerSourceFingerprint'', json_opt JStr (matManagerFingerprint m)),
      (''transaction'', JObj [(''nonce'', JStr (int_text (txNonce (matTransaction m)))),
         (''feeUstx'', JStr (int_text (txFeeUstx (matTransaction m)))),
         (''unsignedTransactionSha256'', JStr (txUnsignedSha256 (matTransaction m)))])])"

subsection \<open>Building and revalidating a plan\<close>

definition request_kind :: "op_request \<Rightarrow> operation" where
  "request_kind r = (case r of ICalculate _ _ _ _ _ \<Rightarrow> CalculateRewards
     | IClaim _ _ _ _ _ _ \<Rightarrow> ClaimRewards
     | IClaimStaker _ _ _ _ _ _ _ _ _ \<Rightarrow> ClaimStakerRewards
     | ISettle _ _ _ \<Rightarrow> SettleAcceptedWithdrawal
     | IReclaim _ _ _ _ _ _ \<Rightarrow> ReclaimFailedWithdrawal)"

definition plan_call :: "op_common \<Rightarrow> contract_call \<Rightarrow> contract_parts \<Rightarrow> unsigned_call" where
  "plan_call c cc parts =
     \<lparr>callContract = parts, callFunction = ccFunction cc, callArgs = ccArgs cc,
      callPublicKey = senderPublicKey (inSender c), callNonce = inNonce c, callFee = inFeeUstx c,
      callNetwork = netKind (inNetwork c), callDenyMode = True,
      callPostConditions = ccPostConditions cc\<rparr>"

definition plan_material :: "op_common \<Rightarrow> op_request \<Rightarrow> contract_call \<Rightarrow> string \<Rightarrow> material" where
  "plan_material c r cc txSha =
     \<lparr>matAdapterId = adapter_id (request_kind r), matAdapterRevision = adapter_revision (request_kind r),
      matAuthorization = inAuthorization c, matNetwork = inNetwork c, matAnchor = inAnchor c,
      matSender = inSender c, matManagerFingerprint = inManagerFingerprint c,
      matTransaction = \<lparr>txNonce = inNonce c, txFeeUstx = inFeeUstx c, txUnsignedSha256 = txSha\<rparr>,
      matOp = ccMaterial cc\<rparr>"

definition plan_digest :: "tx_lib \<Rightarrow> material \<Rightarrow> string" where
  "plan_digest L m = sha256Text L
     (''signer-sidekick:reward-operation-plan:v2'' @ [CHR 0x00] @
      canonicalJson (localeLe L) (material_json m))"

definition planRewardOperation :: "tx_lib \<Rightarrow> op_common \<Rightarrow> op_request \<Rightarrow> plan_error + plan" where
  "planRewardOperation L c r =
     bindr (assertCommon L c) (\<lambda>_.
     bindr (contractCall r) (\<lambda>cc.
     bindr (parseContractPrincipal (validateStacksAddress L) (ccContract cc)) (\<lambda>parts.
     bindr (guardr (partsNetwork parts = netKind (inNetwork c))
             (PlanError ''Call contract network mismatch'')) (\<lambda>_.
     bindr (makeUnsignedContractCall L (plan_call c cc parts)) (\<lambda>hex.
     bindr (guardr (deserializeOk L hex) (PlanError ''deserializeTransaction'')) (\<lambda>_.
     let m = plan_material c r cc (sha256HexBytes L hex) in
     bindr (guardr (operationMaterialSchema L m) (SchemaError ''material'')) (\<lambda>_.
     let p = \<lparr>planSha256 = plan_digest L m, unsignedTransactionHex = hex,
              unsignedTransactionSha256 = sha256HexBytes L hex, planMaterial = m\<rparr> in
     bindr (guardr (rewardOperationPlanSchema L p) (SchemaError ''plan'')) (\<lambda>_. Inr p))))))))"

definition rebuildCommon :: "plan \<Rightarrow> op_common" where
  "rebuildCommon p = (let m = planMaterial p in
     \<lparr>inAuthorization = matAuthorization m, inNetwork = matNetwork m, inAnchor = matAnchor m,
      inSender = matSender m, inManagerFingerprint = matManagerFingerprint m,
      inNonce = txNonce (matTransaction m), inFeeUstx = txFeeUstx (matTransaction m)\<rparr>)"

fun rebuildInput :: "op_material \<Rightarrow> op_request" where
  "rebuildInput (MCalculate pox5 periods cyc chk lastCompute) =
     ICalculate pox5 periods cyc chk lastCompute"
| "rebuildInput (MClaim mgr pox5 sbtc cyc periods eff) =
     IClaim mgr pox5 sbtc cyc periods (ftAmountSats eff)"
| "rebuildInput (MClaimStaker mgr sbtc staker cyc bond route gross fee eff) =
     IClaimStaker mgr sbtc staker cyc bond route gross fee (ftAmountSats eff)"
| "rebuildInput (MSettle mgr request staker) = ISettle mgr request staker"
| "rebuildInput (MReclaim mgr sbtc request staker amount maxFee eff) =
     IReclaim mgr sbtc request staker amount maxFee"

definition revalidateRewardOperationPlan :: "tx_lib \<Rightarrow> plan \<Rightarrow> plan_error + plan" where
  "revalidateRewardOperationPlan L p =
     bindr (guardr (rewardOperationPlanSchema L p) (SchemaError ''plan'')) (\<lambda>_.
     bindr (planRewardOperation L (rebuildCommon p) (rebuildInput (matOp (planMaterial p)))) (\<lambda>rebuilt.
     if p \<noteq> rebuilt then Inl (PlanError ''Reward-operation sealed plan mismatch'')
     else Inr rebuilt))"

subsection \<open>Lemmas\<close>

lemma contractCall_rebuild: "contractCall r = Inr cc \<Longrightarrow> rebuildInput (ccMaterial cc) = r"
  by (cases r) (auto simp: sbtc_transfer_def Let_def split: if_splits)

lemma contractCall_kind: "contractCall r = Inr cc \<Longrightarrow> material_kind (ccMaterial cc) = request_kind r"
  by (cases r) (auto simp: request_kind_def Let_def split: if_splits)

text \<open>The post-conditions a material calls for: its exact transfer, or none.\<close>

definition effect_post_conditions :: "op_material \<Rightarrow> post_condition list" where
  "effect_post_conditions m =
     (case material_effect m of None \<Rightarrow> []
      | Some e \<Rightarrow> [will_send_eq (ftSender e) (ftAmountSats e) (mSbtcToken m)])"

lemma contractCall_post_conditions:
  "contractCall r = Inr cc \<Longrightarrow> ccPostConditions cc = effect_post_conditions (ccMaterial cc)"
  by (cases r) (auto simp: effect_post_conditions_def sbtc_transfer_def Let_def split: if_splits)

lemma contractCall_effect_positive:
  "contractCall r = Inr cc \<Longrightarrow> material_effect (ccMaterial cc) = Some e \<Longrightarrow> 0 < ftAmountSats e"
  by (cases r) (auto simp: sbtc_transfer_def Let_def split: if_splits)

lemma planRewardOperation_elim:
  assumes "planRewardOperation L c r = Inr p"
  obtains cc parts where
    "assertCommon L c = Inr ()" "contractCall r = Inr cc"
    "parseContractPrincipal (validateStacksAddress L) (ccContract cc) = Inr parts"
    "partsNetwork parts = netKind (inNetwork c)"
    "makeUnsignedContractCall L (plan_call c cc parts) = Inr (unsignedTransactionHex p)"
    "unsignedTransactionSha256 p = sha256HexBytes L (unsignedTransactionHex p)"
    "planMaterial p = plan_material c r cc (unsignedTransactionSha256 p)"
    "planSha256 p = plan_digest L (planMaterial p)"
    "rewardOperationPlanSchema L p"
  using assms by (auto simp: planRewardOperation_def Let_def)

lemma plan_rebuild:
  assumes "planRewardOperation L c r = Inr p"
  shows "rebuildCommon p = c" and "rebuildInput (matOp (planMaterial p)) = r"
  using assms
  by (auto elim!: planRewardOperation_elim simp: rebuildCommon_def plan_material_def contractCall_rebuild)

lemma revalidate_iff:
  "revalidateRewardOperationPlan L p = Inr q \<longleftrightarrow>
     q = p \<and> planRewardOperation L (rebuildCommon p) (rebuildInput (matOp (planMaterial p))) = Inr p"
  by (auto simp: revalidateRewardOperationPlan_def elim: planRewardOperation_elim split: if_splits)

lemma revalidateD:
  "revalidateRewardOperationPlan L p = Inr q \<Longrightarrow>
     planRewardOperation L (rebuildCommon p) (rebuildInput (matOp (planMaterial p))) = Inr p"
  unfolding revalidate_iff by (elim conjE)

subsection \<open>A concrete library and plan\<close>

definition sample_lib :: tx_lib where
  "sample_lib = \<lparr>validateStacksAddress = (\<lambda>a. a \<noteq> []), compressedPublicKey = (\<lambda>_. True),
     getAddressFromPublicKey = (\<lambda>k n. ''SPW''), makeUnsignedContractCall = (\<lambda>c. Inr ''00''),
     deserializeOk = (\<lambda>_. True), isUuid = (\<lambda>_. True),
     sha256Text = (\<lambda>_. replicate 64 (CHR ''a'')), sha256HexBytes = (\<lambda>_. replicate 64 (CHR ''b'')),
     localeLe = (\<lambda>a b. a \<le> b)\<rparr>"

definition sample_anchor :: plan_anchor where
  "sample_anchor = \<lparr>ancStacksHeight = 100, ancBurnHeight = 50,
     ancIndexHash = ''0x'' @ replicate 64 (CHR ''0'')\<rparr>"

definition sample_common :: op_common where
  "sample_common = \<lparr>inAuthorization = \<lparr>authRunId = ''run'', authRecipeSha256 = replicate 64 (CHR ''a'')\<rparr>,
     inNetwork = \<lparr>netKind = Mainnet, netChainId = 1\<rparr>, inAnchor = sample_anchor,
     inSender = \<lparr>senderPrincipal = ''SPW'', senderPublicKey = ''02'' @ replicate 64 (CHR ''0'')\<rparr>,
     inManagerFingerprint = Some (replicate 64 (CHR ''1'')), inNonce = 5, inFeeUstx = 2500\<rparr>"

definition sample_claim :: op_request where
  "sample_claim = IClaim ''SPM.manager'' ''SP0.pox-5'' ''SPB.sbtc-token'' 7 [2] 900"

definition sample_call :: contract_call where
  "sample_call =
     \<lparr>ccContract = ''SPM.manager'', ccFunction = ''claim-rewards'', ccArgs = [AList [AUint 2], AUint 7],
      ccPostConditions = [will_send_eq ''SP0.pox-5'' 900 ''SPB.sbtc-token''],
      ccMaterial = MClaim ''SPM.manager'' ''SP0.pox-5'' ''SPB.sbtc-token'' 7 [2]
        (sbtc_transfer ''SPB.sbtc-token'' ''SP0.pox-5'' ''SPM.manager'' 900)\<rparr>"

definition sample_plan :: plan where
  "sample_plan =
     \<lparr>planSha256 = replicate 64 (CHR ''a''), unsignedTransactionHex = ''00'',
      unsignedTransactionSha256 = replicate 64 (CHR ''b''),
      planMaterial = plan_material sample_common sample_claim sample_call (replicate 64 (CHR ''b''))\<rparr>"

lemma hashSchema_replicate [simp]: "is_hex_lower c \<Longrightarrow> hashSchema (replicate 64 c)"
  by (simp add: hashSchema_def list_all_iff)

lemma sample_sel [simp]:
  "validateStacksAddress sample_lib a \<longleftrightarrow> a \<noteq> []" "compressedPublicKey sample_lib k"
  "getAddressFromPublicKey sample_lib k n = ''SPW''" "makeUnsignedContractCall sample_lib c = Inr ''00''"
  "deserializeOk sample_lib h" "isUuid sample_lib h"
  "sha256Text sample_lib t = replicate 64 (CHR ''a'')"
  "sha256HexBytes sample_lib t = replicate 64 (CHR ''b'')"
  by (simp_all add: sample_lib_def)

lemma sample_hex [simp]:
  "is_hex_lower (CHR ''a'')" "is_hex_lower (CHR ''b'')" "is_hex_lower (CHR ''0'')"
  "is_hex_lower (CHR ''1'')" "is_hex_lower (CHR ''2'')"
  by (simp_all add: is_hex_lower_def is_digit_def less_eq_char_def)

lemma sample_contracts [simp]:
  "parseContractPrincipal (validateStacksAddress sample_lib) ''SPM.manager'' =
     Inr \<lparr>address = ''SPM'', contractName = ''manager'', partsNetwork = Mainnet\<rparr>"
  "parseContractPrincipal (validateStacksAddress sample_lib) ''SP0.pox-5'' =
     Inr \<lparr>address = ''SP0'', contractName = ''pox-5'', partsNetwork = Mainnet\<rparr>"
  "parseContractPrincipal (validateStacksAddress sample_lib) ''SPB.sbtc-token'' =
     Inr \<lparr>address = ''SPB'', contractName = ''sbtc-token'', partsNetwork = Mainnet\<rparr>"
  by (simp_all add: parseContractPrincipal_def contractNamePattern_def is_letter_def is_digit_def
      less_eq_char_def)

lemma sample_digest: "plan_digest sample_lib m = replicate 64 (CHR ''a'')"
  unfolding plan_digest_def by (simp only: sample_sel)

lemma sample_plan_built: "planRewardOperation sample_lib sample_common sample_claim = Inr sample_plan"
proof -
  have common: "assertCommon sample_lib sample_common = Inr ()"
    by (simp add: assertCommon_def sample_common_def authorizationSchema_def networkSchema_def
        anchorSchema_def sample_anchor_def indexBlockHashSchema_def senderSchema_def
        standardPrincipalSchema_def validatePrincipal_def publicKeySchema_def)
  have call: "contractCall sample_claim = Inr sample_call"
    by (simp add: sample_claim_def sample_call_def)
  have schema: "operationMaterialSchema sample_lib
      (plan_material sample_common sample_claim sample_call (replicate 64 (CHR ''b'')))"
    by (simp add: operationMaterialSchema_def plan_material_def sample_call_def sample_common_def sample_claim_def request_kind_def authorizationSchema_def networkSchema_def
        anchorSchema_def sample_anchor_def indexBlockHashSchema_def senderSchema_def
        standardPrincipalSchema_def validatePrincipal_def publicKeySchema_def uintText_def
        contractPrincipalSchema_def effectSchema_def sbtc_transfer_def)
  have plan: "rewardOperationPlanSchema sample_lib sample_plan"
    using schema by (simp add: rewardOperationPlanSchema_def sample_plan_def)
  have net: "netKind (inNetwork sample_common) = Mainnet" by (simp add: sample_common_def)
  have parts: "parseContractPrincipal (validateStacksAddress sample_lib) (ccContract sample_call) =
      Inr \<lparr>address = ''SPM'', contractName = ''manager'', partsNetwork = Mainnet\<rparr>"
    by (simp only: sample_call_def contract_call.simps sample_contracts)
  show ?thesis
    unfolding planRewardOperation_def Let_def common call parts bindr_Inr net sample_sel
      contract_parts.simps sample_digest guardr_def
    by (simp only: schema plan[unfolded sample_plan_def] sample_plan_def sample_sel simp_thms if_True bindr_Inr)
qed

lemma sample_plan_revalidates: "revalidateRewardOperationPlan sample_lib sample_plan = Inr sample_plan"
  unfolding revalidate_iff plan_rebuild[OF sample_plan_built] using sample_plan_built by simp

subsection \<open>Sealed plans\<close>

text \<open>
  C9: sealing and revalidation round-trip, and a sealed plan cannot be altered. Revalidating a built
  plan returns it unchanged, and a plan over the same material that revalidates is the built plan
  itself: its digests and its transaction bytes are determined by the material.
\<close>
theorem plan_revalidates:
  assumes "planRewardOperation L c r = Inr p"
  shows "revalidateRewardOperationPlan L p = Inr p \<and>
    (\<forall>p' q. planMaterial p' = planMaterial p \<and> revalidateRewardOperationPlan L p' = Inr q \<longrightarrow> p' = p)"
proof (intro conjI allI impI)
  have built: "planRewardOperation L (rebuildCommon p) (rebuildInput (matOp (planMaterial p))) = Inr p"
    using plan_rebuild[OF assms] assms by simp
  then show "revalidateRewardOperationPlan L p = Inr p" unfolding revalidate_iff by simp
  fix p' q
  assume p': "planMaterial p' = planMaterial p \<and> revalidateRewardOperationPlan L p' = Inr q"
  then have "rebuildCommon p' = rebuildCommon p" by (simp add: rebuildCommon_def)
  moreover have
    "planRewardOperation L (rebuildCommon p') (rebuildInput (matOp (planMaterial p'))) = Inr p'"
    by (rule revalidateD[OF conjunct2[OF p']])
  ultimately have "Inr p' = (Inr p :: plan_error + plan)"
    unfolding conjunct1[OF p'] built[symmetric] by simp
  then show "p' = p" by simp
qed

theorem plan_revalidates_witness: "revalidateRewardOperationPlan sample_lib sample_plan = Inr sample_plan"
  using plan_revalidates[OF sample_plan_built] by simp

end
