(* ===== verification/Run_Recipe.thy ===== *)
theory Run_Recipe
  imports Operation_Plan
begin

text \<open>
  The reward-run recipe: the data contracts of packages/api-contracts/src/reward-runs.ts and the
  sealing of a recipe by \<open>buildRewardRunRecipe\<close> (apps/sidekick/src/transaction-engine/
  reward-run-service.ts), with the digests that bind an approval to it.

  Decimal-text fields of the recipe (amounts, request ids, bond indexes, all \<open>\d+\<close>) are \<open>nat\<close>.
  \<open>Array.prototype.sort\<close> is the stable \<open>sort_by\<close>; \<open>localeCompare\<close> is the field \<open>localeLe\<close> of the
  library argument.
\<close>

subsection \<open>Errors of the transaction engine\<close>

datatype run_error_code =
    RunUnavailable | RunNotFound | RunInvalid | RunNoWork | RunConflict | RunExpired | RunRefused

datatype repo_error_code =
    AuthorizationBusy | RepoRunNotFound | StateConflict | RecipeConflict | ChildNotFound

datatype calculate_error_code = InvalidTarget | AlreadyComputed | IncompleteBondState

datatype engine_error =
    RewardRunError run_error_code string
  | RepositoryError repo_error_code string
  | SqliteError string
  | UpstreamUnavailableError string
  | UpstreamHttpError string nat
  | RateLimitedError string "int option"
  | ChainAnchorError string bool
  | Pox5CalculateRewardsError calculate_error_code string
  | OtherError string

subsection \<open>Requests and facts\<close>

datatype distribution = Dist1 | Dist2

record prepare_request =
  rqRequestId :: "string option"
  rqCycle :: nat
  rqDistribution :: distribution
  rqOperations :: "operation list option"
  rqMaxTransactions :: "nat option"

record draft_account =
  daStaker :: principal
  daCycle :: nat
  daBond :: "nat option"
  daMaxGross :: nat
  daRoute :: payout_route

datatype withdrawal_state = Accepted | Rejected

record draft_withdrawal =
  dwRequestId :: nat
  dwStaker :: principal
  dwState :: withdrawal_state
  dwMaxAmount :: nat
  dwAmount :: nat
  dwMaxFee :: nat

record draft_facts =
  dfWallet :: principal
  dfManager :: principal
  dfPox5 :: principal
  dfSbtcToken :: principal
  dfSbtcRegistry :: principal
  dfNetwork :: network
  dfChainId :: nat
  dfCycle :: nat
  dfDistribution :: distribution
  dfAnchor :: plan_anchor
  dfManagerFingerprint :: string
  dfPox5Fingerprint :: string
  dfCalculateRequired :: bool
  dfCollectRequired :: bool
  dfMaximumCollect :: "nat option"
  dfEligibleAccounts :: nat
  dfEligibleAccepted :: nat
  dfEligibleRejected :: nat
  dfAccounts :: "draft_account list"
  dfWithdrawals :: "draft_withdrawal list"

subsection \<open>The recipe\<close>

record account_bound =
  abKey :: string
  abAccount :: draft_account

record recipe_child =
  rcIndex :: nat
  rcOperation :: operation
  rcAdapterId :: string
  rcAdapterRevision :: nat
  rcAccountKey :: "string option"
  rcRequestId :: "nat option"
  rcStaker :: "principal option"
  rcMaxAmount :: "nat option"
  rcWithdrawal :: "nat option"
  rcMaxFee :: "nat option"

record recipe =
  rpRunId :: string
  rpPrepareSha :: string
  rpWallet :: principal
  rpManager :: principal
  rpPox5 :: principal
  rpSbtcToken :: principal
  rpSbtcRegistry :: principal
  rpNetwork :: network
  rpChainId :: nat
  rpCycle :: nat
  rpDistribution :: distribution
  rpOperations :: "operation list"
  rpAccounts :: "account_bound list"
  rpReviewedTotal :: nat
  rpReviewedCount :: nat
  rpMaxTransactions :: nat
  rpEligible :: nat
  rpTruncated :: bool
  rpRemaining :: nat
  rpFeeCap :: nat
  rpGasBudget :: nat
  rpManagerFingerprint :: string
  rpPox5Fingerprint :: string
  rpAdapterRevisions :: "(string \<times> nat) list"
  rpChildren :: "recipe_child list"
  rpAnchor :: plan_anchor

definition nonempty :: "string \<Rightarrow> bool" where
  "nonempty s \<longleftrightarrow> s \<noteq> []"

definition recipeChildSchema :: "recipe_child \<Rightarrow> bool" where
  "recipeChildSchema c \<longleftrightarrow> nonempty (rcAdapterId c) \<and> 0 < rcAdapterRevision c"

definition accountBoundSchema :: "account_bound \<Rightarrow> bool" where
  "accountBoundSchema b \<longleftrightarrow> nonempty (abKey b) \<and> nonempty (daStaker (abAccount b))"

definition rewardRunRecipeSchema :: "tx_lib \<Rightarrow> recipe \<Rightarrow> bool" where
  "rewardRunRecipeSchema L r \<longleftrightarrow>
     isUuid L (rpRunId r) \<and> hashSchema (rpPrepareSha r) \<and>
     nonempty (rpWallet r) \<and> nonempty (rpManager r) \<and> nonempty (rpPox5 r) \<and>
     nonempty (rpSbtcToken r) \<and> nonempty (rpSbtcRegistry r) \<and>
     1 \<le> length (rpOperations r) \<and> length (rpOperations r) \<le> 5 \<and>
     length (rpAccounts r) \<le> 200 \<and> list_all accountBoundSchema (rpAccounts r) \<and>
     rpReviewedCount r \<le> 200 \<and>
     1 \<le> rpMaxTransactions r \<and> rpMaxTransactions r \<le> 200 \<and>
     0 < rpEligible r \<and>
     hashSchema (rpManagerFingerprint r) \<and> hashSchema (rpPox5Fingerprint r) \<and>
     list_all (\<lambda>(_, v). 0 < v) (rpAdapterRevisions r) \<and>
     1 \<le> length (rpChildren r) \<and> length (rpChildren r) \<le> 200 \<and>
     list_all recipeChildSchema (rpChildren r) \<and>
     anchorSchema (rpAnchor r)"

subsection \<open>JSON and digests\<close>

definition json_nat :: "nat \<Rightarrow> json" where
  "json_nat n = JNum (int n)"

fun distribution_nat :: "distribution \<Rightarrow> nat" where
  "distribution_nat Dist1 = 1"
| "distribution_nat Dist2 = 2"

definition account_json :: "account_bound \<Rightarrow> json" where
  "account_json b = (let a = abAccount b in
     JObj [(''stakerPrincipal'', JStr (daStaker a)), (''rewardCycle'', json_nat (daCycle a)),
       (''bondIndex'', json_opt json_uint (daBond a)),
       (''maximumGrossSats'', json_uint (daMaxGross a)),
       (''payoutRoute'', JStr (route_text (daRoute a))), (''accountKey'', JStr (abKey b))])"

definition child_json :: "recipe_child \<Rightarrow> json" where
  "child_json c =
     JObj [(''index'', json_nat (rcIndex c)), (''operation'', JStr (operation_text (rcOperation c))),
       (''adapterId'', JStr (rcAdapterId c)), (''adapterRevision'', json_nat (rcAdapterRevision c)),
       (''accountKey'', json_opt JStr (rcAccountKey c)),
       (''requestId'', json_opt json_uint (rcRequestId c)),
       (''stakerPrincipal'', json_opt JStr (rcStaker c)),
       (''maximumAmountSats'', json_opt json_uint (rcMaxAmount c)),
       (''withdrawalAmountSats'', json_opt json_uint (rcWithdrawal c)),
       (''maxFeeSats'', json_opt json_uint (rcMaxFee c))]"

definition recipe_json :: "recipe \<Rightarrow> json" where
  "recipe_json r =
     JObj [(''schemaVersion'', JNum 1), (''runId'', JStr (rpRunId r)),
       (''prepareRequestSha256'', JStr (rpPrepareSha r)), (''walletPrincipal'', JStr (rpWallet r)),
       (''managerPrincipal'', JStr (rpManager r)), (''pox5Contract'', JStr (rpPox5 r)),
       (''sbtcTokenContract'', JStr (rpSbtcToken r)),
       (''sbtcRegistryContract'', JStr (rpSbtcRegistry r)),
       (''network'', JStr (network_text (rpNetwork r))), (''chainId'', json_nat (rpChainId r)),
       (''cycle'', json_nat (rpCycle r)),
       (''distribution'', json_nat (distribution_nat (rpDistribution r))),
       (''orderedOperations'', JArr (map (\<lambda>p. JStr (operation_text p)) (rpOperations r))),
       (''accounts'', JArr (map account_json (rpAccounts r))),
       (''reviewedTotalSats'', json_uint (rpReviewedTotal r)),
       (''reviewedPaymentCount'', json_nat (rpReviewedCount r)),
       (''maxTransactions'', json_nat (rpMaxTransactions r)),
       (''eligibleTransactions'', json_nat (rpEligible r)),
       (''truncated'', JBool (rpTruncated r)),
       (''remainingTransactions'', json_nat (rpRemaining r)),
       (''feeCapUstx'', json_uint (rpFeeCap r)), (''gasBudgetUstx'', json_uint (rpGasBudget r)),
       (''managerSourceFingerprint'', JStr (rpManagerFingerprint r)),
       (''pox5SourceFingerprint'', JStr (rpPox5Fingerprint r)),
       (''adapterRevisions'', JObj (map (\<lambda>(k, v). (k, json_nat v)) (rpAdapterRevisions r))),
       (''children'', JArr (map child_json (rpChildren r))),
       (''preparedAnchor'', JObj [(''stacksBlockHeight'', JNum (ancStacksHeight (rpAnchor r))),
         (''burnBlockHeight'', JNum (ancBurnHeight (rpAnchor r))),
         (''indexBlockHash'', JStr (ancIndexHash (rpAnchor r)))])]"

definition rewardRunRecipeSha256 :: "tx_lib \<Rightarrow> recipe \<Rightarrow> string" where
  "rewardRunRecipeSha256 L r = sha256Text L
     (''signer-sidekick:reward-run-recipe:v1'' @ [CHR 0x00] @
      canonicalJson (localeLe L) (recipe_json r))"

definition rewardRunPrepareRequestSha256 :: "tx_lib \<Rightarrow> prepare_request \<Rightarrow> string" where
  "rewardRunPrepareRequestSha256 L q = sha256Text L
     (''signer-sidekick:reward-run-prepare:v1'' @ [CHR 0x00] @
      canonicalJson (localeLe L) (JObj
        [(''cycle'', json_nat (rqCycle q)),
         (''distribution'', json_nat (distribution_nat (rqDistribution q))),
         (''maxTransactions'', json_opt json_nat (rqMaxTransactions q)),
         (''operations'',
            json_opt (\<lambda>ps. JArr (map (\<lambda>p. JStr (operation_text p)) ps)) (rqOperations q))]))"

subsection \<open>Building the recipe\<close>

definition operationOrder :: "operation list" where
  "operationOrder = [CalculateRewards, ClaimRewards, ClaimStakerRewards,
     SettleAcceptedWithdrawal, ReclaimFailedWithdrawal]"

definition accountKey :: "draft_account \<Rightarrow> string" where
  "accountKey a = daStaker a @ '':'' @ dec_text (daCycle a) @ '':'' @
     (case daBond a of None \<Rightarrow> ''stx'' | Some b \<Rightarrow> dec_text b)"

definition uniqueOperations :: "operation list option \<Rightarrow> engine_error + operation list" where
  "uniqueOperations requested =
     (let ops = remdups (case requested of None \<Rightarrow> operationOrder | Some ps \<Rightarrow> ps) in
      if length ops \<noteq> (case requested of None \<Rightarrow> length ops | Some ps \<Rightarrow> length ps)
      then Inl (RewardRunError RunInvalid ''A reward operation may appear only once'')
      else Inr ops)"

record child_detail =
  cdAccountKey :: "string option"
  cdRequestId :: "nat option"
  cdStaker :: "principal option"
  cdMaxAmount :: "nat option"
  cdWithdrawal :: "nat option"
  cdMaxFee :: "nat option"

definition add_child ::
    "nat \<Rightarrow> operation \<Rightarrow> child_detail \<Rightarrow> recipe_child list \<Rightarrow> recipe_child list" where
  "add_child maxTransactions p d children =
     (if maxTransactions \<le> length children then children
      else children @
        [\<lparr>rcIndex = length children, rcOperation = p, rcAdapterId = adapter_id p,
          rcAdapterRevision = adapter_revision p, rcAccountKey = cdAccountKey d,
          rcRequestId = cdRequestId d, rcStaker = cdStaker d, rcMaxAmount = cdMaxAmount d,
          rcWithdrawal = cdWithdrawal d, rcMaxFee = cdMaxFee d\<rparr>])"

definition no_detail :: child_detail where
  "no_detail = \<lparr>cdAccountKey = None, cdRequestId = None, cdStaker = None, cdMaxAmount = None,
     cdWithdrawal = None, cdMaxFee = None\<rparr>"

definition payment_detail :: "draft_account \<Rightarrow> child_detail" where
  "payment_detail a = no_detail\<lparr>cdAccountKey := Some (accountKey a), cdStaker := Some (daStaker a),
     cdMaxAmount := Some (daMaxGross a)\<rparr>"

definition withdrawal_operation :: "draft_withdrawal \<Rightarrow> operation" where
  "withdrawal_operation w =
     (if dwState w = Accepted then SettleAcceptedWithdrawal else ReclaimFailedWithdrawal)"

definition withdrawal_detail :: "draft_withdrawal \<Rightarrow> child_detail" where
  "withdrawal_detail w = \<lparr>cdAccountKey = None, cdRequestId = Some (dwRequestId w),
     cdStaker = Some (dwStaker w),
     cdMaxAmount = (if withdrawal_operation w = ReclaimFailedWithdrawal then Some (dwMaxAmount w)
                    else None),
     cdWithdrawal = Some (dwAmount w), cdMaxFee = Some (dwMaxFee w)\<rparr>"

fun add_payments :: "nat \<Rightarrow> draft_account list \<Rightarrow> recipe_child list \<Rightarrow> recipe_child list" where
  "add_payments m [] cs = cs"
| "add_payments m (a # as) cs =
     add_payments m as (if daMaxGross a = 0 then cs
                        else add_child m ClaimStakerRewards (payment_detail a) cs)"

fun add_withdrawals ::
    "nat \<Rightarrow> operation list \<Rightarrow> draft_withdrawal list \<Rightarrow> recipe_child list \<Rightarrow> recipe_child list" where
  "add_withdrawals m sel [] cs = cs"
| "add_withdrawals m sel (w # ws) cs =
     add_withdrawals m sel ws
       (if withdrawal_operation w \<in> set sel
        then add_child m (withdrawal_operation w) (withdrawal_detail w) cs else cs)"

definition sorted_accounts :: "tx_lib \<Rightarrow> draft_facts \<Rightarrow> draft_account list" where
  "sorted_accounts L f =
     sort_by (\<lambda>a b. localeLe L (accountKey a) (accountKey b)) (dfAccounts f)"

text \<open>
  The source's comparator for withdrawals answers \<open>-1\<close> or \<open>1\<close>, never \<open>0\<close>; request ids are
  distinct on chain, and there it is the order by request id.
\<close>

definition sorted_withdrawals :: "draft_facts \<Rightarrow> draft_withdrawal list" where
  "sorted_withdrawals f = sort_by (\<lambda>a b. dwRequestId a \<le> dwRequestId b) (dfWithdrawals f)"

definition calculate_children :: "draft_facts \<Rightarrow> operation list \<Rightarrow> nat \<Rightarrow> recipe_child list" where
  "calculate_children f sel m =
     (if CalculateRewards \<in> set sel \<and> dfCalculateRequired f
      then add_child m CalculateRewards no_detail [] else [])"

definition collect_children ::
    "draft_facts \<Rightarrow> operation list \<Rightarrow> nat \<Rightarrow> recipe_child list \<Rightarrow> engine_error + recipe_child list" where
  "collect_children f sel m cs =
     (if ClaimRewards \<in> set sel \<and> dfCollectRequired f
      then (if dfMaximumCollect f = None \<or> dfMaximumCollect f = Some 0
            then Inl (RewardRunError RunInvalid
              ''The manager collect amount is not proven at the preparation anchor'')
            else Inr (add_child m ClaimRewards (no_detail\<lparr>cdMaxAmount := dfMaximumCollect f\<rparr>) cs))
      else Inr cs)"

definition recipe_children ::
    "tx_lib \<Rightarrow> draft_facts \<Rightarrow> operation list \<Rightarrow> nat \<Rightarrow> engine_error + recipe_child list" where
  "recipe_children L f sel m =
     bindr (collect_children f sel m (calculate_children f sel m)) (\<lambda>c2.
      let c3 = (if ClaimStakerRewards \<in> set sel then add_payments m (sorted_accounts L f) c2 else c2);
          c4 = add_withdrawals m sel (sorted_withdrawals f) c3 in
      if c4 = [] then Inl (RewardRunError RunNoWork ''There is no current reward work to run'')
      else Inr c4)"

fun bound_accounts ::
    "recipe_child list \<Rightarrow> string list \<Rightarrow> draft_account list \<Rightarrow> engine_error + account_bound list" where
  "bound_accounts cs seen [] = Inr []"
| "bound_accounts cs seen (a # as) =
     (if accountKey a \<in> set seen
      then Inl (RewardRunError RunInvalid (''Duplicate reward account '' @ accountKey a))
      else bindr (bound_accounts cs (accountKey a # seen) as) (\<lambda>bs.
        Inr (if list_ex (\<lambda>c. rcAccountKey c = Some (accountKey a)) cs
             then \<lparr>abKey = accountKey a, abAccount = a\<rparr> # bs else bs)))"

definition eligible_transactions :: "draft_facts \<Rightarrow> operation list \<Rightarrow> nat" where
  "eligible_transactions f sel =
     (if CalculateRewards \<in> set sel \<and> dfCalculateRequired f then 1 else 0) +
     (if ClaimRewards \<in> set sel \<and> dfCollectRequired f then 1 else 0) +
     (if ClaimStakerRewards \<in> set sel then dfEligibleAccounts f else 0) +
     (if SettleAcceptedWithdrawal \<in> set sel then dfEligibleAccepted f else 0) +
     (if ReclaimFailedWithdrawal \<in> set sel then dfEligibleRejected f else 0)"

text \<open>\<open>Object.fromEntries\<close>: a later entry of a key replaces the value of an earlier one.\<close>

fun obj_set :: "string \<Rightarrow> 'v \<Rightarrow> (string \<times> 'v) list \<Rightarrow> (string \<times> 'v) list" where
  "obj_set k v [] = [(k, v)]"
| "obj_set k v ((k', v') # kvs) = (if k = k' then (k, v) # kvs else (k', v') # obj_set k v kvs)"

fun from_entries :: "(string \<times> 'v) list \<Rightarrow> (string \<times> 'v) list \<Rightarrow> (string \<times> 'v) list" where
  "from_entries acc [] = acc"
| "from_entries acc ((k, v) # kvs) = from_entries (obj_set k v acc) kvs"

definition buildRewardRunRecipe ::
    "tx_lib \<Rightarrow> string \<Rightarrow> draft_facts \<Rightarrow> prepare_request \<Rightarrow> nat \<Rightarrow> nat \<Rightarrow> engine_error + recipe" where
  "buildRewardRunRecipe L runId f q feeCap maximumTransactions =
     (if rqCycle q \<noteq> dfCycle f \<or> rqDistribution q \<noteq> dfDistribution f
      then Inl (RewardRunError RunConflict
        ''The selected distribution changed while the run was being prepared'')
      else
      bindr (uniqueOperations (rqOperations q)) (\<lambda>sel.
      let m = min (case rqMaxTransactions q of None \<Rightarrow> maximumTransactions | Some n \<Rightarrow> n)
                  maximumTransactions in
      bindr (recipe_children L f sel m) (\<lambda>cs.
      bindr (bound_accounts cs [] (sorted_accounts L f)) (\<lambda>accounts.
      let eligible = eligible_transactions f sel in
      if eligible < length cs
      then Inl (RewardRunError RunInvalid
        ''Eligible reward work is inconsistent with the sealed recipe'')
      else Inr
        \<lparr>rpRunId = runId, rpPrepareSha = rewardRunPrepareRequestSha256 L q,
         rpWallet = dfWallet f, rpManager = dfManager f, rpPox5 = dfPox5 f,
         rpSbtcToken = dfSbtcToken f, rpSbtcRegistry = dfSbtcRegistry f,
         rpNetwork = dfNetwork f, rpChainId = dfChainId f, rpCycle = dfCycle f,
         rpDistribution = dfDistribution f,
         rpOperations = filter (\<lambda>p. list_ex (\<lambda>c. rcOperation c = p) cs) operationOrder,
         rpAccounts = accounts,
         rpReviewedTotal = sum_list (map (\<lambda>b. daMaxGross (abAccount b)) accounts),
         rpReviewedCount = length accounts,
         rpMaxTransactions = m, rpEligible = eligible,
         rpTruncated = (length cs < eligible), rpRemaining = eligible - length cs,
         rpFeeCap = feeCap, rpGasBudget = feeCap * length cs,
         rpManagerFingerprint = dfManagerFingerprint f, rpPox5Fingerprint = dfPox5Fingerprint f,
         rpAdapterRevisions =
           from_entries [] (map (\<lambda>c. (rcAdapterId c, rcAdapterRevision c)) cs),
         rpChildren = cs, rpAnchor = dfAnchor f\<rparr>))))"

subsection \<open>Shape of the children\<close>

definition mk_child :: "nat \<Rightarrow> operation \<Rightarrow> child_detail \<Rightarrow> recipe_child" where
  "mk_child i p d =
     \<lparr>rcIndex = i, rcOperation = p, rcAdapterId = adapter_id p,
      rcAdapterRevision = adapter_revision p, rcAccountKey = cdAccountKey d,
      rcRequestId = cdRequestId d, rcStaker = cdStaker d, rcMaxAmount = cdMaxAmount d,
      rcWithdrawal = cdWithdrawal d, rcMaxFee = cdMaxFee d\<rparr>"

lemma mk_child_sel [simp]:
  "rcIndex (mk_child i p d) = i" "rcOperation (mk_child i p d) = p"
  "rcAccountKey (mk_child i p d) = cdAccountKey d" "rcStaker (mk_child i p d) = cdStaker d"
  "rcMaxAmount (mk_child i p d) = cdMaxAmount d" "rcRequestId (mk_child i p d) = cdRequestId d"
  "rcAdapterId (mk_child i p d) = adapter_id p"
  "rcAdapterRevision (mk_child i p d) = adapter_revision p"
  "rcWithdrawal (mk_child i p d) = cdWithdrawal d" "rcMaxFee (mk_child i p d) = cdMaxFee d"
  by (simp_all add: mk_child_def)

lemma add_child_eq:
  "add_child m p d cs = (if m \<le> length cs then cs else cs @ [mk_child (length cs) p d])"
  by (simp add: add_child_def mk_child_def)

text \<open>Adding a list of children: what fits under the cap, numbered consecutively.\<close>

definition built :: "nat \<Rightarrow> ('x \<Rightarrow> operation) \<Rightarrow> ('x \<Rightarrow> child_detail) \<Rightarrow> 'x list \<Rightarrow> recipe_child list" where
  "built n op dt xs = map (\<lambda>(i, x). mk_child i (op x) (dt x)) (List.enumerate n xs)"

lemma built_simps [simp]:
  "built n op dt [] = []"
  "built n op dt (x # xs) = mk_child n (op x) (dt x) # built (Suc n) op dt xs"
  by (simp_all add: built_def)

lemma length_built [simp]: "length (built n op dt xs) = length xs"
  by (simp add: built_def)

lemma add_payments_eq:
  "add_payments m as cs = cs @ built (length cs) (\<lambda>_. ClaimStakerRewards) payment_detail
     (take (m - length cs) (filter (\<lambda>a. daMaxGross a \<noteq> 0) as))"
proof (induction as arbitrary: cs)
  case (Cons a as)
  show ?case
  proof (cases "daMaxGross a = 0 \<or> m \<le> length cs")
    case True
    with Cons.IH show ?thesis by (auto simp: add_child_eq)
  next
    case False
    then have "m - length cs = Suc (m - Suc (length cs))" by arith
    with False Cons.IH show ?thesis by (simp add: add_child_eq)
  qed
qed simp

lemma add_withdrawals_eq:
  "add_withdrawals m sel ws cs = cs @ built (length cs) withdrawal_operation withdrawal_detail
     (take (m - length cs) (filter (\<lambda>w. withdrawal_operation w \<in> set sel) ws))"
proof (induction ws arbitrary: cs)
  case (Cons w ws)
  show ?case
  proof (cases "withdrawal_operation w \<notin> set sel \<or> m \<le> length cs")
    case True
    with Cons.IH show ?thesis by (auto simp: add_child_eq)
  next
    case False
    then have "m - length cs = Suc (m - Suc (length cs))" by arith
    with False Cons.IH show ?thesis by (simp add: add_child_eq)
  qed
qed simp

definition payments :: "recipe_child list \<Rightarrow> recipe_child list" where
  "payments cs = filter (\<lambda>c. rcOperation c = ClaimStakerRewards) cs"

text \<open>The children are at most a calculation, a collect, then payments, then withdrawals.\<close>

lemma collect_children_shape:
  assumes "collect_children f sel m (calculate_children f sel m) = Inr h"
  shows "length h \<le> m" and "map rcIndex h = [0..<length h]"
    and "\<forall>c \<in> set h. rcAccountKey c = None \<and>
           (rcOperation c = CalculateRewards \<or> rcOperation c = ClaimRewards)"
    and "sorted (map (\<lambda>c. if rcOperation c = CalculateRewards then 0 else 1 :: nat) h)"
  using assms
  by (auto simp: collect_children_def calculate_children_def add_child_eq no_detail_def split: if_splits)

lemma recipe_children_shape:
  assumes "recipe_children L f sel m = Inr cs"
  obtains h as ws where
    "cs = h @ built (length h) (\<lambda>_. ClaimStakerRewards) payment_detail as
            @ built (length h + length as) withdrawal_operation withdrawal_detail ws"
    "cs \<noteq> []" "length cs \<le> m"
    "collect_children f sel m (calculate_children f sel m) = Inr h"
    "\<exists>k. as = take k (filter (\<lambda>a. daMaxGross a \<noteq> 0) (sorted_accounts L f))"
    "set ws \<subseteq> set (dfWithdrawals f)"
proof -
  from assms obtain h where h: "collect_children f sel m (calculate_children f sel m) = Inr h"
    and cs: "cs = add_withdrawals m sel (sorted_withdrawals f)
           (if ClaimStakerRewards \<in> set sel then add_payments m (sorted_accounts L f) h else h)"
    and ne: "cs \<noteq> []"
    unfolding recipe_children_def by (auto simp: Let_def split: if_splits)
  define as where "as = (if ClaimStakerRewards \<in> set sel
     then take (m - length h) (filter (\<lambda>a. daMaxGross a \<noteq> 0) (sorted_accounts L f)) else [])"
  define ws where "ws = take (m - (length h + length as))
     (filter (\<lambda>w. withdrawal_operation w \<in> set sel) (sorted_withdrawals f))"
  show ?thesis
  proof (rule that)
    show eq: "cs = h @ built (length h) (\<lambda>_. ClaimStakerRewards) payment_detail as
            @ built (length h + length as) withdrawal_operation withdrawal_detail ws"
      by (simp add: cs as_def ws_def add_payments_eq add_withdrawals_eq)
    have "length as \<le> m - length h" by (simp add: as_def)
    moreover have "length ws \<le> m - (length h + length as)" by (simp add: ws_def)
    moreover have "length h \<le> m" using h by (rule collect_children_shape(1))
    ultimately show "length cs \<le> m" by (simp add: eq)
    show "\<exists>k. as = take k (filter (\<lambda>a. daMaxGross a \<noteq> 0) (sorted_accounts L f))"
      by (auto simp: as_def intro: exI[of _ 0])
    show "set ws \<subseteq> set (dfWithdrawals f)"
      by (auto simp: ws_def sorted_withdrawals_def dest!: in_set_takeD)
  qed (fact ne h)+
qed

lemma recipe_children_length:
  assumes "recipe_children L f sel m = Inr cs"
  shows "0 < length cs \<and> length cs \<le> m"
proof (rule recipe_children_shape[OF assms])
  assume "cs \<noteq> []" and "length cs \<le> m"
  then show ?thesis by simp
qed

lemma index_built [simp]: "map rcIndex (built n op dt xs) = [n..<n + length xs]"
proof (induction xs arbitrary: n)
  case (Cons x xs)
  have "[n..<n + length (x # xs)] = n # [Suc n..<Suc n + length xs]"
    by (simp add: upt_rec)
  with Cons.IH[of "Suc n"] show ?case by simp
qed simp

lemma payments_built:
  "payments (built n (\<lambda>_. ClaimStakerRewards) dt xs) = built n (\<lambda>_. ClaimStakerRewards) dt xs"
  by (induction xs arbitrary: n) (simp_all add: payments_def)

lemma payments_withdrawals: "payments (built n withdrawal_operation dt ws) = []"
  by (induction ws arbitrary: n) (simp_all add: payments_def withdrawal_operation_def)

lemma payments_append [simp]: "payments (xs @ ys) = payments xs @ payments ys"
  by (simp add: payments_def)

lemma map_built:
  assumes "\<And>i x. g (mk_child i (op x) (dt x)) = k x"
  shows "map g (built n op dt xs) = map k xs"
  by (induction xs arbitrary: n) (simp_all add: assms)

lemma in_built: "c \<in> set (built n op dt xs) \<Longrightarrow> \<exists>i. \<exists>x \<in> set xs. c = mk_child i (op x) (dt x)"
  by (induction xs arbitrary: n) (simp, fastforce)

lemma built_in: "x \<in> set xs \<Longrightarrow> \<exists>i. mk_child i (op x) (dt x) \<in> set (built n op dt xs)"
  by (induction xs arbitrary: n) auto

lemma recipe_children_payments:
  assumes "recipe_children L f sel m = Inr cs"
  obtains k as where
    "as = take k (filter (\<lambda>a. daMaxGross a \<noteq> 0) (sorted_accounts L f))"
    "map (\<lambda>c. (rcAccountKey c, rcStaker c, rcMaxAmount c)) (payments cs) =
       map (\<lambda>a. (Some (accountKey a), Some (daStaker a), Some (daMaxGross a))) as"
    "\<And>key. (\<exists>c \<in> set cs. rcAccountKey c = Some key) \<longleftrightarrow> key \<in> accountKey ` set as"
proof -
  from assms obtain h as ws k where
    cs: "cs = h @ built (length h) (\<lambda>_. ClaimStakerRewards) payment_detail as
            @ built (length h + length as) withdrawal_operation withdrawal_detail ws"
    and h: "collect_children f sel m (calculate_children f sel m) = Inr h"
    and as: "as = take k (filter (\<lambda>a. daMaxGross a \<noteq> 0) (sorted_accounts L f))"
    using recipe_children_shape[OF assms] by metis
  have "payments h = []"
    using collect_children_shape(3)[OF h] by (auto simp: payments_def filter_empty_conv)
  then have pay: "payments cs = built (length h) (\<lambda>_. ClaimStakerRewards) payment_detail as"
    by (simp add: cs payments_built payments_withdrawals)
  have key: "\<exists>a \<in> set as. key = accountKey a" if "c \<in> set cs" "rcAccountKey c = Some key" for c key
  proof -
    have "c \<notin> set h" using that(2) collect_children_shape(3)[OF h] by auto
    with that show ?thesis
      by (auto simp: cs payment_detail_def withdrawal_detail_def dest!: in_built)
  qed
  have key': "\<exists>c \<in> set cs. rcAccountKey c = Some (accountKey a)" if mem: "a \<in> set as" for a
  proof -
    obtain i where
      "mk_child i ClaimStakerRewards (payment_detail a) \<in> set (built (length h) (\<lambda>_. ClaimStakerRewards) payment_detail as)"
      using built_in[OF mem] by metis
    then show ?thesis unfolding cs by (intro bexI) (auto simp: payment_detail_def)
  qed
  show ?thesis
  proof (rule that[OF as])
    show "map (\<lambda>c. (rcAccountKey c, rcStaker c, rcMaxAmount c)) (payments cs) =
       map (\<lambda>a. (Some (accountKey a), Some (daStaker a), Some (daMaxGross a))) as"
      unfolding pay by (rule map_built) (simp add: payment_detail_def)
    show "(\<exists>c \<in> set cs. rcAccountKey c = Some key) \<longleftrightarrow> key \<in> accountKey ` set as" for key
      using key key' by blast
  qed
qed

subsection \<open>Account keys and bounds\<close>

lemma bound_accounts_eq:
  assumes "bound_accounts cs seen as = Inr bs"
  shows "bs = map (\<lambda>a. \<lparr>abKey = accountKey a, abAccount = a\<rparr>)
                (filter (\<lambda>a. \<exists>c \<in> set cs. rcAccountKey c = Some (accountKey a)) as)"
    and "distinct (map accountKey as)" and "set (map accountKey as) \<inter> set seen = {}"
  using assms
  by (induction as arbitrary: seen bs) (fastforce simp: list_ex_iff split: if_splits)+

lemma filter_taken:
  assumes "distinct (map f xs)" and "ts = take k (filter Q xs)"
  shows "filter (\<lambda>x. f x \<in> f ` set ts) xs = ts"
  using assms
proof (induction xs arbitrary: k ts)
  case (Cons x xs)
  show ?case
  proof (cases "Q x \<and> k \<noteq> 0")
    case True
    then obtain k' where ts: "ts = x # take k' (filter Q xs)"
      using Cons.prems(2) by (cases k) auto
    have "filter (\<lambda>y. f y \<in> f ` set ts) xs = filter (\<lambda>y. f y \<in> f ` set (take k' (filter Q xs))) xs"
      by (rule filter_cong) (use Cons.prems(1) in \<open>auto simp: ts image_iff\<close>)
    with Cons.IH[of "take k' (filter Q xs)" k'] Cons.prems(1) show ?thesis by (simp add: ts)
  next
    case False
    then have ts: "ts = take k (filter Q xs)" using Cons.prems(2) by auto
    have "f x \<notin> f ` set ts"
      using Cons.prems(1) by (auto simp: ts dest!: in_set_takeD)
    with Cons.IH[OF _ ts] Cons.prems(1) show ?thesis by simp
  qed
qed simp

text \<open>The recipe reviewed by the operator lists exactly the payments of its children.\<close>

lemma recipe_accounts:
  assumes "recipe_children L f sel m = Inr cs"
    and "bound_accounts cs [] (sorted_accounts L f) = Inr bs"
  shows "map (\<lambda>c. (rcAccountKey c, rcStaker c, rcMaxAmount c)) (payments cs) =
     map (\<lambda>b. (Some (abKey b), Some (daStaker (abAccount b)), Some (daMaxGross (abAccount b)))) bs"
    and "distinct (map abKey bs)" and "abAccount ` set bs \<subseteq> set (dfAccounts f)"
    and "\<forall>b \<in> set bs. abKey b = accountKey (abAccount b)"
proof -
  obtain k as where as: "as = take k (filter (\<lambda>a. daMaxGross a \<noteq> 0) (sorted_accounts L f))"
    and pay: "map (\<lambda>c. (rcAccountKey c, rcStaker c, rcMaxAmount c)) (payments cs) =
       map (\<lambda>a. (Some (accountKey a), Some (daStaker a), Some (daMaxGross a))) as"
    and key: "\<And>key. (\<exists>c \<in> set cs. rcAccountKey c = Some key) \<longleftrightarrow> key \<in> accountKey ` set as"
    by (rule recipe_children_payments[OF assms(1)]) (rule that)
  note b = bound_accounts_eq[OF assms(2)]
  have bs: "bs = map (\<lambda>a. \<lparr>abKey = accountKey a, abAccount = a\<rparr>) as"
    using b(1) filter_taken[OF b(2) as] by (simp add: key)
  show "map (\<lambda>c. (rcAccountKey c, rcStaker c, rcMaxAmount c)) (payments cs) =
     map (\<lambda>b. (Some (abKey b), Some (daStaker (abAccount b)), Some (daMaxGross (abAccount b)))) bs"
    by (simp add: pay bs)
  have "distinct (map accountKey as)"
    by (metis as b(2) distinct_map_filter distinct_take take_map)
  then show "distinct (map abKey bs)" by (simp add: bs comp_def)
  show "abAccount ` set bs \<subseteq> set (dfAccounts f)"
    by (auto simp: bs as sorted_accounts_def dest!: in_set_takeD)
  show "\<forall>b \<in> set bs. abKey b = accountKey (abAccount b)" by (simp add: bs)
qed

lemma buildRewardRunRecipe_elim:
  assumes "buildRewardRunRecipe L runId f q feeCap maxTx = Inr r"
  obtains sel where
    "uniqueOperations (rqOperations q) = Inr sel"
    "recipe_children L f sel (rpMaxTransactions r) = Inr (rpChildren r)"
    "bound_accounts (rpChildren r) [] (sorted_accounts L f) = Inr (rpAccounts r)"
    "rpMaxTransactions r \<le> maxTx" "length (rpChildren r) \<le> rpEligible r"
    "rpTruncated r = (length (rpChildren r) < rpEligible r)"
    "rpRemaining r = rpEligible r - length (rpChildren r)"
    "rpFeeCap r = feeCap" "rpGasBudget r = feeCap * length (rpChildren r)"
    "rpReviewedTotal r = sum_list (map (\<lambda>b. daMaxGross (abAccount b)) (rpAccounts r))"
    "rpReviewedCount r = length (rpAccounts r)"
    "rpRunId r = runId" "rpWallet r = dfWallet f" "rpPrepareSha r = rewardRunPrepareRequestSha256 L q"
    "rpOperations r = filter (\<lambda>p. list_ex (\<lambda>c. rcOperation c = p) (rpChildren r)) operationOrder"
  using assms
  by (auto simp: buildRewardRunRecipe_def Let_def split: if_splits)

lemma recipe_index:
  assumes "recipe_children L f sel m = Inr cs"
  shows "map rcIndex cs = [0..<length cs]"
proof -
  obtain h as ws where
    cs: "cs = h @ built (length h) (\<lambda>_. ClaimStakerRewards) payment_detail as
            @ built (length h + length as) withdrawal_operation withdrawal_detail ws"
    and h: "collect_children f sel m (calculate_children f sel m) = Inr h"
    by (rule recipe_children_shape[OF assms]) (rule that)
  show ?thesis
    using upt_add_eq_append[of 0 "length h" "length as + length ws"]
      upt_add_eq_append[of "length h" "length h + length as" "length ws"]
    by (simp add: cs collect_children_shape(2)[OF h] add.assoc)
qed

definition phase :: "recipe_child \<Rightarrow> nat" where
  "phase c = (case rcOperation c of CalculateRewards \<Rightarrow> 0 | ClaimRewards \<Rightarrow> 1
     | ClaimStakerRewards \<Rightarrow> 2 | SettleAcceptedWithdrawal \<Rightarrow> 3 | ReclaimFailedWithdrawal \<Rightarrow> 3)"

lemma phase_sorted:
  assumes "recipe_children L f sel m = Inr cs"
  shows "sorted (map phase cs)"
proof -
  obtain h as ws where
    cs: "cs = h @ built (length h) (\<lambda>_. ClaimStakerRewards) payment_detail as
            @ built (length h + length as) withdrawal_operation withdrawal_detail ws"
    and h: "collect_children f sel m (calculate_children f sel m) = Inr h"
    by (rule recipe_children_shape[OF assms]) (rule that)
  note hs = collect_children_shape(3,4)[OF h]
  have eq: "map phase h = map (\<lambda>c. if rcOperation c = CalculateRewards then 0 else 1) h"
    using hs(1) by (auto simp: phase_def)
  have "sorted (map phase h)" unfolding eq by (rule hs(2))
  moreover have "\<forall>c \<in> set h. phase c \<le> 1"
    using hs(1) by (auto simp: phase_def)
  moreover have "map phase (built n (\<lambda>_. ClaimStakerRewards) payment_detail as) = map (\<lambda>_. 2) as" for n
    by (rule map_built) (simp add: phase_def)
  moreover have "map phase (built n withdrawal_operation withdrawal_detail ws) = map (\<lambda>_. 3) ws" for n
    by (rule map_built) (simp add: phase_def withdrawal_operation_def)
  ultimately show ?thesis
    unfolding cs map_append by (auto simp: sorted_append map_replicate_const)
qed

lemma bond_text_no_colon:
  "CHR '':'' \<notin> set (case b of None \<Rightarrow> ''stx'' | Some n \<Rightarrow> dec_text n)"
  by (cases b) auto

lemma bond_text_inject:
  "(case b of None \<Rightarrow> ''stx'' | Some n \<Rightarrow> dec_text n) =
   (case c of None \<Rightarrow> ''stx'' | Some n \<Rightarrow> dec_text n) \<longleftrightarrow> b = c"
proof -
  have "dec_text n \<noteq> ''stx''" for n
  proof
    assume "dec_text n = ''stx''"
    then have "CHR ''s'' \<in> set (dec_text n)" by simp
    with dec_text_digits[of n] show False by auto
  qed
  then show ?thesis by (auto split: option.splits dest: sym)
qed

text \<open>
  An account key determines the staker, the reward cycle and the bond bucket it was made from
  (principals contain no colon), so two different reward accounts never share one recipe bound.
\<close>
theorem accountKey_identifies:
  assumes "CHR '':'' \<notin> set (daStaker a)" and "CHR '':'' \<notin> set (daStaker b)"
  shows "accountKey a = accountKey b \<longleftrightarrow>
     daStaker a = daStaker b \<and> daCycle a = daCycle b \<and> daBond a = daBond b"
proof
  let ?bt = "\<lambda>x. case daBond x of None \<Rightarrow> ''stx'' | Some n \<Rightarrow> dec_text n"
  assume "accountKey a = accountKey b"
  then have "daStaker a @ CHR '':'' # (dec_text (daCycle a) @ CHR '':'' # ?bt a)
      = daStaker b @ CHR '':'' # (dec_text (daCycle b) @ CHR '':'' # ?bt b)"
    by (simp add: accountKey_def)
  from append_sep_inject[OF assms this]
  have s: "daStaker a = daStaker b"
    and r: "dec_text (daCycle a) @ CHR '':'' # ?bt a = dec_text (daCycle b) @ CHR '':'' # ?bt b"
    by simp_all
  from append_sep_inject[OF dec_text_no_colon dec_text_no_colon r] s
  show "daStaker a = daStaker b \<and> daCycle a = daCycle b \<and> daBond a = daBond b"
    by (simp add: bond_text_inject)
qed (simp add: accountKey_def)

definition sample_account :: "principal \<Rightarrow> nat option \<Rightarrow> nat \<Rightarrow> draft_account" where
  "sample_account staker bond gross = \<lparr>daStaker = staker, daCycle = 7, daBond = bond,
     daMaxGross = gross, daRoute = DirectSbtc\<rparr>"

theorem accountKey_identifies_witness:
  "CHR '':'' \<notin> set (daStaker (sample_account ''SP1'' None 5)) \<and>
   CHR '':'' \<notin> set (daStaker (sample_account ''SP1'' (Some 3) 5)) \<and>
   accountKey (sample_account ''SP1'' None 5) \<noteq> accountKey (sample_account ''SP1'' (Some 3) 5)"
proof -
  have h: "CHR '':'' \<notin> set (daStaker (sample_account ''SP1'' None 5))"
    "CHR '':'' \<notin> set (daStaker (sample_account ''SP1'' (Some 3) 5))"
    by (simp_all add: sample_account_def)
  show ?thesis using h accountKey_identifies[OF h] by (simp add: sample_account_def)
qed

subsection \<open>The sealed recipe\<close>

definition sample_facts :: draft_facts where
  "sample_facts = \<lparr>dfWallet = ''SPW'', dfManager = ''SPM.manager'', dfPox5 = ''SP0.pox-5'',
     dfSbtcToken = ''SPB.sbtc-token'', dfSbtcRegistry = ''SPB.sbtc-registry'', dfNetwork = Mainnet,
     dfChainId = 1, dfCycle = 7, dfDistribution = Dist1, dfAnchor = sample_anchor,
     dfManagerFingerprint = replicate 64 (CHR ''1''), dfPox5Fingerprint = replicate 64 (CHR ''2''),
     dfCalculateRequired = True, dfCollectRequired = True, dfMaximumCollect = Some 900,
     dfEligibleAccounts = 2, dfEligibleAccepted = 0, dfEligibleRejected = 1,
     dfAccounts = [sample_account ''SPB'' None 500, sample_account ''SPA'' (Some 3) 300],
     dfWithdrawals = [\<lparr>dwRequestId = 4, dwStaker = ''SPC'', dwState = Rejected, dwMaxAmount = 80,
       dwAmount = 70, dwMaxFee = 10\<rparr>]\<rparr>"

definition sample_request :: prepare_request where
  "sample_request = \<lparr>rqRequestId = None, rqCycle = 7, rqDistribution = Dist1, rqOperations = None,
     rqMaxTransactions = Some 4\<rparr>"

definition sample_recipe :: recipe where
  "sample_recipe = (case buildRewardRunRecipe sample_lib ''run'' sample_facts sample_request 3000 200 of
     Inr r \<Rightarrow> r | Inl _ \<Rightarrow> undefined)"

lemma sample_recipe_built:
  "buildRewardRunRecipe sample_lib ''run'' sample_facts sample_request 3000 200 = Inr sample_recipe"
proof -
  have "\<exists>r. buildRewardRunRecipe sample_lib ''run'' sample_facts sample_request 3000 200 = Inr r"
    by (simp add: buildRewardRunRecipe_def sample_facts_def sample_request_def uniqueOperations_def
        operationOrder_def recipe_children_def collect_children_def calculate_children_def
        add_payments_eq add_withdrawals_eq add_child_eq sorted_accounts_def sorted_withdrawals_def
        sample_lib_def sample_account_def accountKey_def withdrawal_operation_def
        eligible_transactions_def Let_def dec_text.simps digit_char_def)
  then show ?thesis by (auto simp: sample_recipe_def)
qed

text \<open>
  A sealed recipe has between one child and its transaction cap, its children are numbered
  consecutively and lie in phases (calculate, collect, payments, withdrawals), its gas budget is the
  fee cap times the number of children, and what was cut off by the cap is counted exactly.
\<close>
theorem recipe_sealed_bounds:
  assumes "buildRewardRunRecipe L runId f q feeCap maxTx = Inr r"
  shows "0 < length (rpChildren r) \<and> length (rpChildren r) \<le> rpMaxTransactions r
     \<and> rpMaxTransactions r \<le> maxTx
     \<and> map rcIndex (rpChildren r) = [0..<length (rpChildren r)]
     \<and> sorted (map phase (rpChildren r))
     \<and> rpGasBudget r = feeCap * length (rpChildren r)
     \<and> rpEligible r = length (rpChildren r) + rpRemaining r
     \<and> (rpTruncated r \<longleftrightarrow> 0 < rpRemaining r)"
proof -
  from assms obtain sel where
    cs: "recipe_children L f sel (rpMaxTransactions r) = Inr (rpChildren r)"
    and n: "rpMaxTransactions r \<le> maxTx" "length (rpChildren r) \<le> rpEligible r"
      "rpTruncated r = (length (rpChildren r) < rpEligible r)"
      "rpRemaining r = rpEligible r - length (rpChildren r)"
      "rpGasBudget r = feeCap * length (rpChildren r)"
    by (rule buildRewardRunRecipe_elim) (rule that)
  show ?thesis
    using recipe_children_length[OF cs] recipe_index[OF cs] phase_sorted[OF cs] n by auto
qed

theorem recipe_sealed_bounds_witness:
  "buildRewardRunRecipe sample_lib ''run'' sample_facts sample_request 3000 200 = Inr sample_recipe \<and>
   rpGasBudget sample_recipe = 3000 * length (rpChildren sample_recipe)"
  using recipe_sealed_bounds[OF sample_recipe_built] sample_recipe_built by simp

text \<open>
  C10: the accounts an operator reviews are exactly the payments the recipe can make: payment child
  by payment child the key, the staker and the maximum amount are those of the reviewed account, the
  keys are distinct, every account comes from the anchored facts, and the reviewed total is the sum
  of the payment maxima.
\<close>
theorem recipe_reviewed_payments:
  assumes "buildRewardRunRecipe L runId f q feeCap maxTx = Inr r"
  shows "map (\<lambda>c. (rcAccountKey c, rcStaker c, rcMaxAmount c)) (payments (rpChildren r)) =
       map (\<lambda>b. (Some (abKey b), Some (daStaker (abAccount b)), Some (daMaxGross (abAccount b))))
         (rpAccounts r)
     \<and> distinct (map abKey (rpAccounts r))
     \<and> abAccount ` set (rpAccounts r) \<subseteq> set (dfAccounts f)
     \<and> rpReviewedTotal r = sum_list (map (\<lambda>c. the (rcMaxAmount c)) (payments (rpChildren r)))
     \<and> rpReviewedCount r = length (payments (rpChildren r))"
proof -
  from assms obtain sel where
    cs: "recipe_children L f sel (rpMaxTransactions r) = Inr (rpChildren r)"
    and bs: "bound_accounts (rpChildren r) [] (sorted_accounts L f) = Inr (rpAccounts r)"
    and n: "rpReviewedTotal r = sum_list (map (\<lambda>b. daMaxGross (abAccount b)) (rpAccounts r))"
      "rpReviewedCount r = length (rpAccounts r)"
    by (rule buildRewardRunRecipe_elim) (rule that)
  note acc = recipe_accounts[OF cs bs]
  have "map (\<lambda>c. the (rcMaxAmount c)) (payments (rpChildren r)) =
      map (\<lambda>b. daMaxGross (abAccount b)) (rpAccounts r)"
    using arg_cong[OF acc(1), of "map (\<lambda>(_, _, x). the x)"] by (simp add: comp_def)
  moreover have "length (payments (rpChildren r)) = length (rpAccounts r)"
    using arg_cong[OF acc(1), of length] by simp
  ultimately show ?thesis using acc n by simp
qed

theorem recipe_reviewed_payments_witness:
  "buildRewardRunRecipe sample_lib ''run'' sample_facts sample_request 3000 200 = Inr sample_recipe \<and>
   distinct (map abKey (rpAccounts sample_recipe))"
  using recipe_reviewed_payments[OF sample_recipe_built] sample_recipe_built by simp

end
