(* ===== verification/Broadcaster.thy ===== *)
theory Broadcaster
  imports Operation_Plan
begin

text \<open>
  The no-retry broadcaster (apps/sidekick/src/transaction-engine/transaction-broadcaster.ts).

  \<open>broadcast\<close> posts the signed bytes of one sealed attempt at most once and classifies what came
  back. The HTTP exchange is an argument (\<open>fetch\<close>): it either throws, or answers a status and a
  body whose reading may itself fail. The transaction library and \<open>JSON.parse\<close> are the fields of
  \<open>wire_lib\<close>. Strings are ASCII; \<open>trim\<close> and \<open>toLowerCase\<close> are JavaScript's on ASCII text.
\<close>

subsection \<open>Results\<close>

datatype rejection_reason = InvalidSignedAttempt | NodeRejection

datatype ambiguous_reason =
    Timeout | ConnectionReset | TransportError | ServerError | InvalidSuccessResponse
  | AmbiguousNodeRejection

datatype broadcast_result =
    BAccepted (resTxid: txid) nat
  | BRejected "txid option" "nat option" rejection_reason "string option"
  | BAmbiguous (resTxid: txid) "nat option" ambiguous_reason "string option"

subsection \<open>Text helpers\<close>

definition is_space :: "char \<Rightarrow> bool" where
  "is_space c \<longleftrightarrow> c = CHR '' '' \<or> (9 \<le> (of_char c :: nat) \<and> (of_char c :: nat) \<le> 13)"

definition trim :: "string \<Rightarrow> string" where
  "trim s = rev (dropWhile is_space (rev (dropWhile is_space s)))"

definition lower_char :: "char \<Rightarrow> char" where
  "lower_char c = (if CHR ''A'' \<le> c \<and> c \<le> CHR ''Z'' then char_of (of_char c + 32 :: nat) else c)"

definition to_lower :: "string \<Rightarrow> string" where
  "to_lower s = map lower_char s"

definition strip_quotes :: "string \<Rightarrow> string" where
  "strip_quotes s =
     (let s1 = (case s of [] \<Rightarrow> [] | c # cs \<Rightarrow> if c = CHR 0x22 then cs else s) in
      if s1 \<noteq> [] \<and> last s1 = CHR 0x22 then butlast s1 else s1)"

definition starts_with :: "string \<Rightarrow> string \<Rightarrow> bool" where
  "starts_with p s \<longleftrightarrow> take (length p) s = p"

definition txidPattern :: "string \<Rightarrow> bool" where
  "txidPattern s \<longleftrightarrow> indexBlockHashSchema s"

definition canonicalTxid :: "string \<Rightarrow> txid option" where
  "canonicalTxid v =
     (let n = to_lower (strip_quotes (trim v));
          p = (if starts_with ''0x'' n then n else ''0x'' @ n) in
      if txidPattern p then Some p else None)"

subsection \<open>Reading a response body\<close>

definition obj_get :: "string \<Rightarrow> (string \<times> json) list \<Rightarrow> json option" where
  "obj_get k kvs = map_of (rev kvs) k"

definition string_field :: "(string \<times> json) list \<Rightarrow> string \<Rightarrow> string option" where
  "string_field kvs k = (case obj_get k kvs of Some (JStr s) \<Rightarrow> Some s | _ \<Rightarrow> None)"

fun first_string :: "(string \<times> json) list \<Rightarrow> string list \<Rightarrow> string option" where
  "first_string kvs [] = None"
| "first_string kvs (k # ks) =
     (case string_field kvs k of Some s \<Rightarrow> Some s | None \<Rightarrow> first_string kvs ks)"

definition maximumNodeMessageLength :: nat where
  "maximumNodeMessageLength = 256"

definition nodeMessage :: "(string \<Rightarrow> json option) \<Rightarrow> string \<Rightarrow> string option" where
  "nodeMessage jsonParse body =
     (let t = trim body in
      if t = [] then None
      else (case jsonParse t of
          Some (JStr s) \<Rightarrow> Some (take maximumNodeMessageLength s)
        | Some (JObj kvs) \<Rightarrow>
            (case first_string kvs [''reason'', ''error'', ''message''] of
               Some s \<Rightarrow> Some (take maximumNodeMessageLength s)
             | None \<Rightarrow> Some (take maximumNodeMessageLength t))
        | _ \<Rightarrow> Some (take maximumNodeMessageLength t)))"

definition deterministicNodeRejectionReasons :: "string list" where
  "deterministicNodeRejectionReasons =
     [''Serialization'', ''Deserialization'', ''SignatureValidation'', ''FeeTooLow'',
      ''NoSuchPublicFunction'', ''BadFunctionArgument'', ''BadAddressVersionByte'']"

definition deterministicNodeRejection ::
    "(string \<Rightarrow> json option) \<Rightarrow> string \<Rightarrow> txid \<Rightarrow> string option" where
  "deterministicNodeRejection jsonParse body expected =
     (case jsonParse body of
        Some (JObj kvs) \<Rightarrow>
          (case (string_field kvs ''reason'', string_field kvs ''txid'') of
             (Some reason, Some t) \<Rightarrow>
               if reason \<in> set deterministicNodeRejectionReasons \<and> canonicalTxid t = Some expected
               then Some reason else None
           | _ \<Rightarrow> None)
      | _ \<Rightarrow> None)"

definition successTxid :: "(string \<Rightarrow> json option) \<Rightarrow> string \<Rightarrow> txid option" where
  "successTxid jsonParse body =
     (case canonicalTxid body of Some t \<Rightarrow> Some t
      | None \<Rightarrow> (case jsonParse body of
          Some (JObj kvs) \<Rightarrow>
            (case string_field kvs ''txid'' of Some t \<Rightarrow> canonicalTxid t | None \<Rightarrow> None)
        | _ \<Rightarrow> None))"

subsection \<open>Transport failures\<close>

datatype js_error = JsError (errName: "string option") (errCode: "string option") (errCause: "js_error option")

fun errorCode :: "js_error \<Rightarrow> string option" where
  "errorCode (JsError n (Some c) cause) = Some c"
| "errorCode (JsError n None None) = None"
| "errorCode (JsError n None (Some e)) = errorCode e"

definition ambiguousTransportReason :: "js_error \<Rightarrow> ambiguous_reason" where
  "ambiguousTransportReason e =
     (if errName e \<in> {Some ''AbortError'', Some ''TimeoutError''} \<or>
         errorCode e \<in> Some ` {''ETIMEDOUT'', ''UND_ERR_CONNECT_TIMEOUT'',
           ''UND_ERR_HEADERS_TIMEOUT'', ''UND_ERR_BODY_TIMEOUT''}
      then Timeout
      else if errorCode e \<in> Some ` {''ECONNRESET'', ''ECONNABORTED'', ''EPIPE'', ''UND_ERR_SOCKET''}
      then ConnectionReset
      else TransportError)"

subsection \<open>One broadcast\<close>

record signed_attempt =
  sgTxid :: txid
  sgNonce :: nat
  sgFee :: nat
  sgBytes :: string

record wire_lib =
  wlDeserializeOk :: "string \<Rightarrow> bool"
  wlTxidFromBytes :: "string \<Rightarrow> string"
  wlJsonParse :: "string \<Rightarrow> json option"

datatype fetch_outcome =
    FetchThrew js_error
  | Response nat "string option"

definition validateSignedAttempt :: "wire_lib \<Rightarrow> signed_attempt \<Rightarrow> (string \<times> txid) option" where
  "validateSignedAttempt W a =
     (case canonicalTxid (sgTxid a) of None \<Rightarrow> None
      | Some t \<Rightarrow>
          if sgBytes a = [] then None
          else if \<not> wlDeserializeOk W (sgBytes a) then None
          else if ''0x'' @ wlTxidFromBytes W (sgBytes a) \<noteq> t then None
          else Some (sgBytes a, t))"

text \<open>The result, and the request bodies that were posted (in order).\<close>

definition broadcast ::
    "wire_lib \<Rightarrow> (string \<Rightarrow> fetch_outcome) \<Rightarrow> signed_attempt \<Rightarrow> broadcast_result \<times> string list" where
  "broadcast W fetch a =
     (case validateSignedAttempt W a of
        None \<Rightarrow> (BRejected (canonicalTxid (sgTxid a)) None InvalidSignedAttempt None, [])
      | Some (bytes, t) \<Rightarrow>
          (case fetch bytes of
             FetchThrew e \<Rightarrow> BAmbiguous t None (ambiguousTransportReason e) None
           | Response st bodyText \<Rightarrow>
               if 500 \<le> st then BAmbiguous t (Some st) ServerError None
               else if \<not> (200 \<le> st \<and> st \<le> 299) then
                 (let body = (case bodyText of None \<Rightarrow> [] | Some b \<Rightarrow> b);
                      reason = (if st = 400 then deterministicNodeRejection (wlJsonParse W) body t
                                else None) in
                  case reason of
                    None \<Rightarrow> BAmbiguous t (Some st) AmbiguousNodeRejection
                              (nodeMessage (wlJsonParse W) body)
                  | Some r \<Rightarrow> BRejected (Some t) (Some st) NodeRejection (Some r))
               else (case bodyText of
                   None \<Rightarrow> BAmbiguous t (Some st) ConnectionReset None
                 | Some body \<Rightarrow>
                     if successTxid (wlJsonParse W) body \<noteq> Some t
                     then BAmbiguous t (Some st) InvalidSuccessResponse None
                     else BAccepted t st), [bytes]))"

lemma canonicalTxid_pattern: "canonicalTxid v = Some t \<Longrightarrow> txidPattern t"
  by (auto simp: canonicalTxid_def Let_def split: if_splits)

lemma validateSignedAttempt_Some:
  "validateSignedAttempt W a = Some (b, t) \<Longrightarrow>
     b = sgBytes a \<and> b \<noteq> [] \<and> canonicalTxid (sgTxid a) = Some t \<and> ''0x'' @ wlTxidFromBytes W b = t"
  by (auto simp: validateSignedAttempt_def split: option.splits if_splits)

text \<open>
  C11: the broadcaster never retries and never guesses. It posts the attempt's own bytes at most
  once; \<open>accepted\<close> means a 2xx answer that names the sealed transaction id; a deterministic
  rejection means either that nothing was posted because the attempt itself is malformed, or an
  HTTP 400 whose body names this transaction id and one of the seven reviewed reasons; everything
  else, in particular a thrown request and any 5xx, is ambiguous and names the sealed id.
\<close>
theorem broadcast_classification:
  "(case broadcast W fetch a of
      (BAccepted t st, posts) \<Rightarrow>
        posts = [sgBytes a] \<and> canonicalTxid (sgTxid a) = Some t \<and> 200 \<le> st \<and> st \<le> 299
        \<and> (\<exists>body. fetch (sgBytes a) = Response st (Some body)
                 \<and> successTxid (wlJsonParse W) body = Some t)
    | (BRejected t st InvalidSignedAttempt msg, posts) \<Rightarrow>
        posts = [] \<and> validateSignedAttempt W a = None
    | (BRejected t st NodeRejection msg, posts) \<Rightarrow>
        posts = [sgBytes a] \<and> st = Some 400 \<and> t = canonicalTxid (sgTxid a)
        \<and> (\<exists>r. msg = Some r \<and> r \<in> set deterministicNodeRejectionReasons)
    | (BAmbiguous t st reason msg, posts) \<Rightarrow>
        posts = [sgBytes a] \<and> canonicalTxid (sgTxid a) = Some t)
   \<and> (\<forall>e. validateSignedAttempt W a \<noteq> None \<and>
          (fetch (sgBytes a) = FetchThrew e
           \<or> (\<exists>st body. 500 \<le> st \<and> fetch (sgBytes a) = Response st body))
        \<longrightarrow> (\<exists>t st reason msg. fst (broadcast W fetch a) = BAmbiguous t st reason msg))"
proof (cases "validateSignedAttempt W a")
  case None
  then show ?thesis by (simp add: broadcast_def)
next
  case (Some bt)
  then obtain b t where bt: "validateSignedAttempt W a = Some (b, t)" by (cases bt) auto
  then have b: "b = sgBytes a" "canonicalTxid (sgTxid a) = Some t"
    by (auto dest: validateSignedAttempt_Some)
  have det: "deterministicNodeRejection P body t = Some r \<Longrightarrow> r \<in> set deterministicNodeRejectionReasons"
    for P body r
    by (auto simp: deterministicNodeRejection_def split: option.splits json.splits if_splits)
  show ?thesis
  proof (cases "fetch (sgBytes a)")
    case (FetchThrew e)
    then show ?thesis using bt b by (simp add: broadcast_def)
  next
    case (Response st body)
    then show ?thesis using bt b
      by (auto simp: broadcast_def Let_def det split: option.splits)
  qed
qed

definition sample_wire :: wire_lib where
  "sample_wire = \<lparr>wlDeserializeOk = (\<lambda>_. True), wlTxidFromBytes = (\<lambda>_. replicate 64 (CHR ''a'')),
     wlJsonParse = (\<lambda>_. None)\<rparr>"

definition sample_signed :: signed_attempt where
  "sample_signed = \<lparr>sgTxid = ''0x'' @ replicate 64 (CHR ''a''), sgNonce = 1, sgFee = 3000,
     sgBytes = ''xy''\<rparr>"

theorem broadcast_classification_witness:
  "(\<exists>t st reason msg. fst (broadcast sample_wire
      (\<lambda>_. FetchThrew (JsError (Some ''AbortError'') None None)) sample_signed)
      = BAmbiguous t st reason msg)"
proof -
  have "validateSignedAttempt sample_wire sample_signed \<noteq> None" by code_simp
  then show ?thesis
    using broadcast_classification[where W = sample_wire and a = sample_signed
        and fetch = "\<lambda>_. FetchThrew (JsError (Some ''AbortError'') None None)"]
    by blast
qed

end
