(* ===== verification/Sweep_Plan.thy ===== *)
theory Sweep_Plan
  imports Broadcaster
begin

text \<open>
  The sealed gas-wallet sweep plan (apps/sidekick/src/gas-wallet-sweep.ts): the whole balance less
  the fee, to one operator-entered standard address of the wallet's network.

  The token-transfer builder, its decoder, the address validation, the digests and
  \<open>Date.toISOString\<close> are the fields of \<open>sweep_lib\<close>. The object keys of this plan are sorted by
  code units, which is the order of \<open>string\<close>. Decimal texts are \<open>int\<close>, as in the reward plans.
\<close>

datatype sweep_error_code =
  InvalidRecipient | RecipientIsWallet | InsufficientBalance | InvalidMaterial | PlanMismatch

record sweep_material =
  swNetwork :: network
  swChainId :: int
  swSender :: principal
  swPublicKey :: string
  swRecipient :: principal
  swAmount :: int
  swFee :: int
  swNonce :: int
  swBalance :: int
  swAnchor :: string
  swCreatedAt :: instant
  swExpiresAt :: instant

record sweep_plan =
  spSha256 :: string
  spHex :: string
  spTxSha256 :: string
  spMaterial :: sweep_material

record network_params =
  npChainId :: int
  npTransactionVersion :: int
  npPeerNetworkId :: int
  npMagicBytes :: string
  npBootAddress :: string
  npSingleSig :: int
  npMultiSig :: int

record transfer_call =
  tcRecipient :: principal
  tcAmount :: int
  tcFee :: int
  tcNonce :: int
  tcPublicKey :: string
  tcNetwork :: network_params

record decoded_transfer =
  dtIsTokenTransfer :: bool
  dtAmount :: int
  dtRecipient :: "principal option"
  dtNonce :: int
  dtFee :: int

record sweep_lib =
  slValidAddress :: "string \<Rightarrow> bool"
  slMakeTransfer :: "transfer_call \<Rightarrow> sweep_error_code + string"
  slDecode :: "string \<Rightarrow> decoded_transfer"
  slShaText :: "string \<Rightarrow> string"
  slShaHexBytes :: "string \<Rightarrow> string"
  slIsoText :: "instant \<Rightarrow> string"

definition transactionNetwork :: "sweep_material \<Rightarrow> network_params" where
  "transactionNetwork m = (let mainnet = (swNetwork m = Mainnet) in
     \<lparr>npChainId = swChainId m,
      npTransactionVersion = (if mainnet then 0 else 128),
      npPeerNetworkId = (if mainnet then 0x17000000 else 0xff000000),
      npMagicBytes = (if mainnet then ''X2'' else ''T2''),
      npBootAddress = (if mainnet then ''SP000000000000000000002Q6VF78''
                       else ''ST000000000000000000002AMW42H''),
      npSingleSig = (if mainnet then 22 else 26), npMultiSig = (if mainnet then 20 else 21)\<rparr>)"

definition sweep_json :: "sweep_lib \<Rightarrow> sweep_material \<Rightarrow> json" where
  "sweep_json S m = JObj [(''schemaVersion'', JNum 1),
     (''network'', JObj [(''kind'', JStr (network_text (swNetwork m))), (''chainId'', JNum (swChainId m))]),
     (''sender'', JObj [(''principal'', JStr (swSender m)), (''publicKey'', JStr (swPublicKey m))]),
     (''recipient'', JStr (swRecipient m)), (''amountUstx'', JStr (int_text (swAmount m))),
     (''feeUstx'', JStr (int_text (swFee m))), (''nonce'', JStr (int_text (swNonce m))),
     (''balanceUstx'', JStr (int_text (swBalance m))),
     (''anchor'', JObj [(''indexBlockHash'', JStr (swAnchor m))]),
     (''createdAt'', JStr (slIsoText S (swCreatedAt m))),
     (''expiresAt'', JStr (slIsoText S (swExpiresAt m)))]"

definition gasWalletSweepPlanMaterialSchema :: "sweep_material \<Rightarrow> bool" where
  "gasWalletSweepPlanMaterialSchema m \<longleftrightarrow>
     0 \<le> swChainId m \<and> swSender m \<noteq> [] \<and>
     (take 2 (swPublicKey m) = ''02'' \<or> take 2 (swPublicKey m) = ''03'') \<and>
     hashSchema (drop 2 (swPublicKey m)) \<and> swRecipient m \<noteq> [] \<and>
     uintText (swAmount m) \<and> uintText (swFee m) \<and> uintText (swNonce m) \<and> uintText (swBalance m) \<and>
     indexBlockHashSchema (swAnchor m)"

definition gasWalletSweepPlanSchema :: "sweep_plan \<Rightarrow> bool" where
  "gasWalletSweepPlanSchema p \<longleftrightarrow>
     hashSchema (spSha256 p) \<and> spHex p \<noteq> [] \<and> list_all is_hex_lower (spHex p) \<and>
     hashSchema (spTxSha256 p) \<and> gasWalletSweepPlanMaterialSchema (spMaterial p)"

definition validateSweepRecipient ::
    "sweep_lib \<Rightarrow> string \<Rightarrow> network \<Rightarrow> principal \<Rightarrow> sweep_error_code + principal" where
  "validateSweepRecipient S recipient net wallet =
     (let v = trim recipient;
          prefixes = (if net = Mainnet then [''SP'', ''SM''] else [''ST'', ''SN'']) in
      if v = [] \<or> CHR ''.'' \<in> set v \<or> \<not> slValidAddress S v then Inl InvalidRecipient
      else if \<not> list_ex (\<lambda>p. starts_with p v) prefixes then Inl InvalidRecipient
      else if v = wallet then Inl RecipientIsWallet
      else Inr v)"

definition transfer_of :: "sweep_material \<Rightarrow> transfer_call" where
  "transfer_of m = \<lparr>tcRecipient = swRecipient m, tcAmount = swAmount m, tcFee = swFee m,
     tcNonce = swNonce m, tcPublicKey = swPublicKey m, tcNetwork = transactionNetwork m\<rparr>"

definition buildUnsignedSweep :: "sweep_lib \<Rightarrow> sweep_material \<Rightarrow> sweep_error_code + string" where
  "buildUnsignedSweep S m =
     bindr (slMakeTransfer S (transfer_of m)) (\<lambda>hex.
     let d = slDecode S hex in
     if \<not> dtIsTokenTransfer d \<or> dtAmount d \<noteq> swAmount m \<or> dtRecipient d \<noteq> Some (swRecipient m) \<or>
        dtNonce d \<noteq> swNonce m \<or> dtFee d \<noteq> swFee m
     then Inl PlanMismatch else Inr hex)"

record sweep_input =
  siNetwork :: network
  siChainId :: int
  siSender :: principal
  siPublicKey :: string
  siRecipient :: string
  siBalance :: int
  siFee :: int
  siNonce :: int
  siAnchor :: string
  siCreatedAt :: instant
  siExpiresAt :: instant

definition planGasWalletSweep :: "sweep_lib \<Rightarrow> sweep_input \<Rightarrow> sweep_error_code + sweep_plan" where
  "planGasWalletSweep S i =
     bindr (validateSweepRecipient S (siRecipient i) (siNetwork i) (siSender i)) (\<lambda>recipient.
     bindr (guardr (\<not> siFee i \<le> 0) InvalidMaterial) (\<lambda>_.
     bindr (guardr (\<not> siBalance i \<le> siFee i) InsufficientBalance) (\<lambda>_.
     let m = \<lparr>swNetwork = siNetwork i, swChainId = siChainId i, swSender = siSender i,
          swPublicKey = to_lower (siPublicKey i), swRecipient = recipient,
          swAmount = siBalance i - siFee i, swFee = siFee i, swNonce = siNonce i,
          swBalance = siBalance i, swAnchor = siAnchor i,
          swCreatedAt = siCreatedAt i, swExpiresAt = siExpiresAt i\<rparr> in
     bindr (guardr (gasWalletSweepPlanMaterialSchema m) InvalidMaterial) (\<lambda>_.
     bindr (buildUnsignedSweep S m) (\<lambda>hex.
     Inr \<lparr>spSha256 = slShaText S (canonicalJson (\<le>) (sweep_json S m)), spHex = hex,
          spTxSha256 = slShaHexBytes S hex, spMaterial = m\<rparr>)))))"

definition revalidateGasWalletSweepPlan :: "sweep_lib \<Rightarrow> sweep_plan \<Rightarrow> sweep_error_code + sweep_plan" where
  "revalidateGasWalletSweepPlan S p =
     bindr (guardr (gasWalletSweepPlanSchema p) InvalidMaterial) (\<lambda>_.
     let m = spMaterial p in
     bindr (validateSweepRecipient S (swRecipient m) (swNetwork m) (swSender m)) (\<lambda>_.
     bindr (guardr (swBalance m = swAmount m + swFee m) PlanMismatch) (\<lambda>_.
     bindr (buildUnsignedSweep S m) (\<lambda>hex.
     if hex \<noteq> spHex p \<or> slShaHexBytes S hex \<noteq> spTxSha256 p \<or>
        slShaText S (canonicalJson (\<le>) (sweep_json S m)) \<noteq> spSha256 p
     then Inl PlanMismatch else Inr p))))"

subsection \<open>Lemmas\<close>

lemma dropWhile_idem [simp]: "dropWhile P (dropWhile P xs) = dropWhile P xs"
  by (induction xs) auto

lemma trim_fixed: "v = trim s \<Longrightarrow> trim v = v"
proof -
  assume v: "v = trim s"
  define u where "u = dropWhile is_space s"
  have vu: "v = rev (dropWhile is_space (rev u))" by (simp add: v trim_def u_def)
  have "dropWhile is_space v = v"
  proof (cases v)
    case (Cons c cs)
    obtain w where "u = v @ w"
      unfolding vu by (metis rev_append rev_rev_ident takeWhile_dropWhile_id)
    with Cons have "u = c # (cs @ w)" by simp
    then have "\<not> is_space c"
      by (metis hd_dropWhile list.discI list.sel(1) u_def)
    with Cons show ?thesis by simp
  qed simp
  then show ?thesis by (simp add: trim_def) (simp add: vu)
qed

lemma validateSweepRecipient_Inr:
  assumes "validateSweepRecipient S r n w = Inr v"
  shows "v \<noteq> w" "v \<noteq> []" "CHR ''.'' \<notin> set v" "slValidAddress S v"
    and "n = Mainnet \<Longrightarrow> starts_with ''SP'' v \<or> starts_with ''SM'' v"
    and "n = Testnet \<Longrightarrow> starts_with ''ST'' v \<or> starts_with ''SN'' v"
    and "validateSweepRecipient S v n w = Inr v"
proof -
  from assms have v: "v = trim r" by (auto simp: validateSweepRecipient_def Let_def split: if_splits)
  show "v \<noteq> w" "v \<noteq> []" "CHR ''.'' \<notin> set v" "slValidAddress S v"
    "n = Mainnet \<Longrightarrow> starts_with ''SP'' v \<or> starts_with ''SM'' v"
    "n = Testnet \<Longrightarrow> starts_with ''ST'' v \<or> starts_with ''SN'' v"
    using assms by (auto simp: validateSweepRecipient_def Let_def split: if_splits)
  show "validateSweepRecipient S v n w = Inr v"
    using assms trim_fixed[OF v] v by (simp add: validateSweepRecipient_def Let_def split: if_splits)
qed

lemma buildUnsignedSweep_Inr:
  "buildUnsignedSweep S m = Inr hex \<Longrightarrow>
     slMakeTransfer S (transfer_of m) = Inr hex \<and> dtIsTokenTransfer (slDecode S hex) \<and>
     dtAmount (slDecode S hex) = swAmount m \<and> dtRecipient (slDecode S hex) = Some (swRecipient m) \<and>
     dtNonce (slDecode S hex) = swNonce m \<and> dtFee (slDecode S hex) = swFee m"
  by (auto simp: buildUnsignedSweep_def Let_def split: if_splits)

text \<open>What the program relies on of the digests and of the transaction serializer.\<close>

definition sweep_lib_documented :: "sweep_lib \<Rightarrow> bool" where
  "sweep_lib_documented S \<longleftrightarrow>
     (\<forall>t. hashSchema (slShaText S t)) \<and> (\<forall>t. hashSchema (slShaHexBytes S t)) \<and>
     (\<forall>c h. slMakeTransfer S c = Inr h \<longrightarrow> h \<noteq> [] \<and> list_all is_hex_lower h)"

text \<open>
  C12: a sealed sweep sends the wallet's balance less a positive fee, and nothing more, to a standard
  address of the wallet's own network that is not the wallet; the serialized transaction decodes to
  exactly that amount, recipient, nonce and fee; and the plan revalidates to itself before signing.
\<close>
theorem sweep_plan_exact:
  assumes lib: "sweep_lib_documented S" and plan: "planGasWalletSweep S i = Inr p"
  shows "swAmount (spMaterial p) + swFee (spMaterial p) = siBalance i
     \<and> 0 < swFee (spMaterial p) \<and> 0 < swAmount (spMaterial p)
     \<and> swRecipient (spMaterial p) = trim (siRecipient i) \<and> swRecipient (spMaterial p) \<noteq> siSender i
     \<and> dtAmount (slDecode S (spHex p)) = siBalance i - siFee i
     \<and> dtRecipient (slDecode S (spHex p)) = Some (swRecipient (spMaterial p))
     \<and> dtNonce (slDecode S (spHex p)) = siNonce i \<and> dtFee (slDecode S (spHex p)) = siFee i
     \<and> revalidateGasWalletSweepPlan S p = Inr p"
proof -
  from plan obtain v where
    v: "validateSweepRecipient S (siRecipient i) (siNetwork i) (siSender i) = Inr v"
    and fee: "0 < siFee i" "siFee i < siBalance i"
    and m: "swNetwork (spMaterial p) = siNetwork i" "swSender (spMaterial p) = siSender i"
      "swRecipient (spMaterial p) = v" "swAmount (spMaterial p) = siBalance i - siFee i"
      "swFee (spMaterial p) = siFee i" "swNonce (spMaterial p) = siNonce i"
      "swBalance (spMaterial p) = siBalance i"
    and sch: "gasWalletSweepPlanMaterialSchema (spMaterial p)"
    and hex: "buildUnsignedSweep S (spMaterial p) = Inr (spHex p)"
    and sha: "spSha256 p = slShaText S (canonicalJson (\<le>) (sweep_json S (spMaterial p)))"
      "spTxSha256 p = slShaHexBytes S (spHex p)"
    by (auto simp: planGasWalletSweep_def Let_def)
  have "v = trim (siRecipient i)"
    using v by (auto simp: validateSweepRecipient_def Let_def split: if_splits)
  moreover have "gasWalletSweepPlanSchema p"
    using lib sch buildUnsignedSweep_Inr[OF hex] sha
    by (auto simp: gasWalletSweepPlanSchema_def sweep_lib_documented_def)
  then have "revalidateGasWalletSweepPlan S p = Inr p"
    using m sha hex validateSweepRecipient_Inr(7)[OF v]
    by (simp add: revalidateGasWalletSweepPlan_def Let_def)
  ultimately show ?thesis
    using m fee buildUnsignedSweep_Inr[OF hex] validateSweepRecipient_Inr(1)[OF v] by auto
qed

definition sample_sweep_lib :: sweep_lib where
  "sample_sweep_lib = \<lparr>slValidAddress = (\<lambda>a. a \<noteq> []), slMakeTransfer = (\<lambda>c. Inr ''00''),
     slDecode = (\<lambda>h. \<lparr>dtIsTokenTransfer = True, dtAmount = 700, dtRecipient = Some ''SPX'',
       dtNonce = 4, dtFee = 300\<rparr>),
     slShaText = (\<lambda>_. replicate 64 (CHR ''a'')), slShaHexBytes = (\<lambda>_. replicate 64 (CHR ''b'')),
     slIsoText = (\<lambda>_. ''2026-01-01T00:00:00.000Z'')\<rparr>"

definition sample_sweep_input :: sweep_input where
  "sample_sweep_input = \<lparr>siNetwork = Mainnet, siChainId = 1, siSender = ''SPW'',
     siPublicKey = ''02'' @ replicate 64 (CHR ''c''), siRecipient = '' SPX '', siBalance = 1000,
     siFee = 300, siNonce = 4, siAnchor = ''0x'' @ replicate 64 (CHR ''0''), siCreatedAt = 0,
     siExpiresAt = 600000\<rparr>"

definition sample_sweep_plan :: sweep_plan where
  "sample_sweep_plan = (case planGasWalletSweep sample_sweep_lib sample_sweep_input of
     Inr p \<Rightarrow> p | Inl _ \<Rightarrow> undefined)"

lemma sample_sweep_planned:
  "planGasWalletSweep sample_sweep_lib sample_sweep_input = Inr sample_sweep_plan"
proof -
  have "case planGasWalletSweep sample_sweep_lib sample_sweep_input of Inl _ \<Rightarrow> False | Inr _ \<Rightarrow> True"
    by code_simp
  then show ?thesis by (auto simp: sample_sweep_plan_def split: sum.splits)
qed

lemma sample_sweep_lib_documented: "sweep_lib_documented sample_sweep_lib"
  by (simp add: sweep_lib_documented_def sample_sweep_lib_def hashSchema_def is_hex_lower_def
      is_digit_def list_all_iff)

theorem sweep_plan_exact_witness:
  "sweep_lib_documented sample_sweep_lib \<and>
   planGasWalletSweep sample_sweep_lib sample_sweep_input = Inr sample_sweep_plan \<and>
   revalidateGasWalletSweepPlan sample_sweep_lib sample_sweep_plan = Inr sample_sweep_plan"
  using sweep_plan_exact[OF sample_sweep_lib_documented sample_sweep_planned]
    sample_sweep_lib_documented sample_sweep_planned by blast

end
