(* ===== verification/Wallet_Lease.thy ===== *)
theory Wallet_Lease
  imports Prelude
begin

text \<open>
  The gas-wallet lease: the table \<open>gas_wallet_authorizations\<close> (storage/migrations.ts), which reward
  runs and sweeps acquire and release. A wallet is the primary key, and an owner (kind and id) is
  unique, so an \<open>INSERT\<close> fails on either.

  The locale \<open>wallet_lease\<close> is the contract its two clients rely on; it is interpreted on the table.
\<close>

datatype auth_kind = RewardRunKind | SweepKind

record lease =
  lsWallet :: principal
  lsKind :: auth_kind
  lsId :: string
  lsAcquiredAt :: instant

text \<open>\<open>INSERT INTO gas_wallet_authorizations\<close>: \<open>None\<close> is the UNIQUE constraint failure.\<close>

definition lease_acquire ::
    "principal \<Rightarrow> auth_kind \<Rightarrow> string \<Rightarrow> instant \<Rightarrow> lease list \<Rightarrow> lease list option" where
  "lease_acquire w k i t ls =
     (if list_ex (\<lambda>l. lsWallet l = w \<or> (lsKind l = k \<and> lsId l = i)) ls then None
      else Some (ls @ [\<lparr>lsWallet = w, lsKind = k, lsId = i, lsAcquiredAt = t\<rparr>]))"

text \<open>\<open>DELETE FROM gas_wallet_authorizations WHERE authorization_kind = ? AND authorization_id = ?\<close>.\<close>

definition lease_release :: "auth_kind \<Rightarrow> string \<Rightarrow> lease list \<Rightarrow> lease list" where
  "lease_release k i ls = filter (\<lambda>l. \<not> (lsKind l = k \<and> lsId l = i)) ls"

definition lease_holder :: "lease list \<Rightarrow> principal \<Rightarrow> (auth_kind \<times> string) option" where
  "lease_holder ls w = map_option (\<lambda>l. (lsKind l, lsId l)) (row_find lsWallet w ls)"

definition lease_ok :: "lease list \<Rightarrow> bool" where
  "lease_ok ls \<longleftrightarrow> distinct (map lsWallet ls) \<and> distinct (map (\<lambda>l. (lsKind l, lsId l)) ls)"

subsection \<open>The contract\<close>

locale wallet_lease =
  fixes acquire :: "principal \<Rightarrow> auth_kind \<Rightarrow> string \<Rightarrow> instant \<Rightarrow> 's \<Rightarrow> 's option"
    and release :: "auth_kind \<Rightarrow> string \<Rightarrow> 's \<Rightarrow> 's"
    and holder :: "'s \<Rightarrow> principal \<Rightarrow> (auth_kind \<times> string) option"
    and invar :: "'s \<Rightarrow> bool"
  assumes acquire_defined:
      "invar s \<Longrightarrow> acquire w k i t s \<noteq> None \<longleftrightarrow> holder s w = None \<and> (k, i) \<notin> ran (holder s)"
    and holder_acquire:
      "invar s \<Longrightarrow> acquire w k i t s = Some s' \<Longrightarrow> holder s' = (holder s)(w \<mapsto> (k, i))"
    and invar_acquire: "invar s \<Longrightarrow> acquire w k i t s = Some s' \<Longrightarrow> invar s'"
    and holder_release:
      "invar s \<Longrightarrow> holder (release k i s) =
         (\<lambda>w. if holder s w = Some (k, i) then None else holder s w)"
    and invar_release: "invar s \<Longrightarrow> invar (release k i s)"
    and owner_unique: "invar s \<Longrightarrow> holder s w = Some x \<Longrightarrow> holder s w' = Some x \<Longrightarrow> w = w'"
begin

lemma busy: "invar s \<Longrightarrow> holder s w = Some x \<Longrightarrow> acquire w k i t s = None"
  using acquire_defined[of s w k i t] by auto

lemma acquired: "invar s \<Longrightarrow> acquire w k i t s = Some s' \<Longrightarrow> holder s' w = Some (k, i)"
  by (simp add: holder_acquire)

lemma acquire_keeps_others:
  "invar s \<Longrightarrow> acquire w k i t s = Some s' \<Longrightarrow> holder s w' = Some x \<Longrightarrow> holder s' w' = Some x"
  using busy[of s w' x k i t] by (auto simp: holder_acquire)

lemma released: "invar s \<Longrightarrow> (k, i) \<notin> ran (holder (release k i s))"
  by (auto simp: holder_release ran_def split: if_splits)

lemma release_keeps_others:
  "invar s \<Longrightarrow> holder s w = Some x \<Longrightarrow> x \<noteq> (k, i) \<Longrightarrow> holder (release k i s) w = Some x"
  by (simp add: holder_release)

lemma reacquire:
  assumes "invar s" and "holder s w = Some (k, i)" and "(k', i') \<notin> ran (holder s)"
  shows "acquire w k' i' t (release k i s) \<noteq> None"
proof -
  have "holder (release k i s) w = None" using assms by (simp add: holder_release)
  moreover have "(k', i') \<notin> ran (holder (release k i s))"
    using assms by (auto simp: holder_release ran_def)
  ultimately show ?thesis using acquire_defined[OF invar_release[OF assms(1)]] by blast
qed

text \<open>Two clients that both hold the lease of one wallet are the same client.\<close>

lemma exclusive: "invar s \<Longrightarrow> holder s w = Some x \<Longrightarrow> holder s w = Some y \<Longrightarrow> x = y"
  by simp

end

lemma lease_holder_append:
  "lease_holder (ls @ ms) w = (case lease_holder ls w of None \<Rightarrow> lease_holder ms w | x \<Rightarrow> x)"
  by (auto simp: lease_holder_def row_find_append split: option.splits)

lemma lease_holder_Some_iff:
  "lease_ok ls \<Longrightarrow> lease_holder ls w = Some (k, i) \<longleftrightarrow>
     (\<exists>l \<in> set ls. lsWallet l = w \<and> lsKind l = k \<and> lsId l = i)"
  by (auto simp: lease_holder_def lease_ok_def dest: row_find_SomeD row_find_unique)

lemma lease_holder_None_iff: "lease_holder ls w = None \<longleftrightarrow> (\<forall>l \<in> set ls. lsWallet l \<noteq> w)"
  by (auto simp: lease_holder_def row_find_None_iff)

lemma lease_release_ok: "lease_ok ls \<Longrightarrow> lease_ok (lease_release k i ls)"
  by (auto simp: lease_ok_def lease_release_def distinct_map_filter)

lemma lease_ran: "lease_ok ls \<Longrightarrow> ran (lease_holder ls) = (\<lambda>l. (lsKind l, lsId l)) ` set ls"
  by (force simp: ran_def lease_holder_Some_iff image_iff)

lemma lease_release_holder:
  assumes "lease_ok ls"
  shows "lease_holder (lease_release k i ls) w =
     (if lease_holder ls w = Some (k, i) then None else lease_holder ls w)"
proof (cases "lease_holder ls w")
  case None
  then have "lease_holder (lease_release k i ls) w = None"
    by (auto simp: lease_holder_None_iff lease_release_def)
  with None show ?thesis by simp
next
  case (Some x)
  obtain k' i' where x: "x = (k', i')" by (cases x)
  show ?thesis
  proof (cases "x = (k, i)")
    case True
    have "lease_holder (lease_release k i ls) w = None"
      using Some assms unfolding True lease_holder_None_iff
      by (auto simp: lease_holder_Some_iff lease_release_def lease_ok_def distinct_map inj_on_def)
    with Some True show ?thesis by simp
  next
    case False
    with Some x assms have "lease_holder (lease_release k i ls) w = Some (k', i')"
      unfolding lease_holder_Some_iff[OF lease_release_ok[OF assms]]
      by (auto simp: lease_holder_Some_iff lease_release_def)
    with Some x False show ?thesis by simp
  qed
qed

interpretation leases: wallet_lease lease_acquire lease_release lease_holder lease_ok
proof (unfold_locales, goal_cases)
  case (1 s w k i t)
  then show ?case
    by (auto simp: lease_acquire_def lease_ran lease_holder_None_iff list_ex_iff)
next
  case (2 s w k i t s')
  then have "lease_holder s w = None"
    by (auto simp: lease_acquire_def lease_holder_None_iff list_ex_iff split: if_splits)
  with 2 show ?case
    by (auto simp: lease_acquire_def lease_holder_append fun_eq_iff split: if_splits option.splits)
      (auto simp: lease_holder_def split: if_splits)
next
  case (3 s w k i t s')
  then show ?case
    by (auto simp: lease_acquire_def lease_ok_def list_ex_iff split: if_splits)
next
  case (4 s k i)
  then show ?case by (simp add: lease_release_holder fun_eq_iff)
next
  case (5 s k i)
  then show ?case by (rule lease_release_ok)
next
  case (6 s w x w')
  then show ?case
    by (cases x) (auto simp: lease_holder_Some_iff lease_ok_def distinct_map inj_on_def)
qed

end
