(* ===== verification/Run_Store.thy ===== *)
theory Run_Store
  imports Run_Recipe Broadcaster Sweep_Plan Wallet_Lease
begin

text \<open>
  The durable state of reward runs (apps/sidekick/src/storage/reward-run-repository.ts over the
  tables of storage/migrations.ts).

  A run row holds its child rows, and a child row its attempt rows: child and attempt indexes are
  assigned consecutively by the only statements that insert them and no statement deletes or
  renumbers them, so a row is addressed by its position. Decimal-text columns are \<open>nat\<close>. CHECK and
  UNIQUE constraints of the tables are \<open>SqliteError\<close>s. A method is a computation over the store;
  the writes of a method that throws half way are kept, unless the method runs in a transaction
  (\<open>eatomic\<close>).
\<close>

subsection \<open>Rows\<close>

datatype run_status =
  AwaitingApproval | Approved | Running | Paused | Completed | Halted | Cancelled | Expired

datatype child_status =
  Pending | Materialized | Broadcast | Confirmed | ExternallyCompleted | Skipped | ChildHalted

datatype provenance = You | AnotherCaller | PolicyException

datatype execution_source = NodeSource | ApiWithNode | ApiSource

datatype attempt_state = Signed | AttemptAccepted | Ambiguous | AttemptRejected | AttemptConfirmed

record attempt =
  atTxid :: txid
  atNonce :: nat
  atFee :: nat
  atState :: attempt_state
  atResult :: "broadcast_result option"
  atCreated :: instant
  atUpdated :: instant

record child =
  chOperation :: operation
  chAdapterId :: string
  chAdapterRevision :: nat
  chAccountKey :: "string option"
  chMaxAmount :: "nat option"
  chStatus :: child_status
  chAmount :: "nat option"
  chPlan :: "plan option"
  chTxid :: "txid option"
  chProvenance :: "provenance option"
  chSource :: "execution_source option"
  chFailure :: "string option"
  chCreated :: instant
  chUpdated :: instant
  chAttempts :: "attempt list"

record run =
  rnId :: string
  rnStatus :: run_status
  rnWallet :: principal
  rnRecipeSha :: string
  rnRecipe :: recipe
  rnCursor :: nat
  rnGasSpent :: nat
  rnApprovalExpires :: instant
  rnRuntimeExpires :: "instant option"
  rnApprovedAt :: "instant option"
  rnStartedAt :: "instant option"
  rnCompletedAt :: "instant option"
  rnFailure :: "string option"
  rnCreated :: instant
  rnUpdated :: instant
  rnChildren :: "child list"

datatype prep_status = Queued | Preparing | Ready | Failed

datatype failure_code = NoWork | TemporarilyUnavailable

record preparation =
  ppId :: string
  ppStatus :: prep_status
  ppRequestSha :: string
  ppRequest :: prepare_request
  ppRunId :: "string option"
  ppFailure :: "string option"
  ppFailureCode :: "failure_code option"
  ppCreated :: instant
  ppStarted :: "instant option"
  ppCompleted :: "instant option"
  ppUpdated :: instant

datatype sweep_status = SwPlanned | SwBroadcast | SwConfirmed | SwFailed | SwCancelled | SwExpired

record sweep =
  gsId :: string
  gsStatus :: sweep_status
  gsWallet :: principal
  gsPlan :: sweep_plan
  gsTxid :: "txid option"
  gsAmbiguous :: bool
  gsSource :: "execution_source option"
  gsCreated :: instant
  gsExpires :: instant
  gsApprovedAt :: "instant option"
  gsBroadcastAt :: "instant option"
  gsResolvedAt :: "instant option"
  gsBlockHeight :: "nat option"
  gsFailure :: "string option"
  gsUpdated :: instant

record store =
  stLeases :: "lease list"
  stRuns :: "run list"
  stPreps :: "preparation list"
  stSweeps :: "sweep list"

type_synonym 'a op = "(store, engine_error, 'a) eng"

definition terminal_run :: "run_status \<Rightarrow> bool" where
  "terminal_run s \<longleftrightarrow> s \<in> {Completed, Cancelled, Expired}"

definition child_complete :: "child_status \<Rightarrow> bool" where
  "child_complete s \<longleftrightarrow> s \<in> {Confirmed, ExternallyCompleted, Skipped}"

definition in_flight :: "run \<Rightarrow> nat" where
  "in_flight r = length (filter (\<lambda>c. chStatus c = Broadcast) (rnChildren r))"

definition completed_children :: "run \<Rightarrow> nat" where
  "completed_children r = length (filter (\<lambda>c. child_complete (chStatus c)) (rnChildren r))"

subsection \<open>Text of statuses\<close>

fun run_status_text :: "run_status \<Rightarrow> string" where
  "run_status_text AwaitingApproval = ''awaiting-approval''"
| "run_status_text Approved = ''approved''"
| "run_status_text Running = ''running''"
| "run_status_text Paused = ''paused''"
| "run_status_text Completed = ''completed''"
| "run_status_text Halted = ''halted''"
| "run_status_text Cancelled = ''cancelled''"
| "run_status_text Expired = ''expired''"

subsection \<open>Table constraints\<close>

definition run_checks :: "run \<Rightarrow> bool" where
  "run_checks r \<longleftrightarrow>
     length (rnId r) = 36 \<and> length (rnRecipeSha r) = 64 \<and>
     (rnStatus r \<in> {Approved, Running, Paused, Completed, Halted} \<longrightarrow> rnApprovedAt r \<noteq> None) \<and>
     (rnStatus r \<in> {Running, Paused, Completed, Halted} \<longrightarrow>
        rnStartedAt r \<noteq> None \<and> rnRuntimeExpires r \<noteq> None)"

definition child_checks :: "child \<Rightarrow> bool" where
  "child_checks c \<longleftrightarrow>
     0 < chAdapterRevision c \<and>
     (case chTxid c of None \<Rightarrow> True | Some t \<Rightarrow> length t = 66) \<and>
     ((chOperation c = ClaimStakerRewards) = (chAccountKey c \<noteq> None)) \<and>
     ((chOperation c \<in> {ClaimRewards, ClaimStakerRewards, ReclaimFailedWithdrawal})
        = (chMaxAmount c \<noteq> None))"

definition prep_checks :: "preparation \<Rightarrow> bool" where
  "prep_checks p \<longleftrightarrow>
     length (ppId p) = 36 \<and> length (ppRequestSha p) = 64 \<and>
     ((ppStatus p = Ready) = (ppRunId p \<noteq> None)) \<and>
     ((ppStatus p = Failed) = (ppFailure p \<noteq> None)) \<and>
     ((ppStatus p \<in> {Ready, Failed}) = (ppCompleted p \<noteq> None)) \<and>
     (ppFailureCode p \<noteq> None \<longrightarrow> ppStatus p = Failed)"

subsection \<open>Reading runs\<close>

text \<open>The schema a hydrated run is parsed by (\<open>rewardRunSchema\<close>).\<close>

definition childSchema :: "child \<Rightarrow> bool" where
  "childSchema c \<longleftrightarrow>
     (case chPlan c of None \<Rightarrow> True | Some p \<Rightarrow> hashSchema (planSha256 p)) \<and>
     (case chTxid c of None \<Rightarrow> True | Some t \<Rightarrow> indexBlockHashSchema t)"

definition rewardRunSchema :: "tx_lib \<Rightarrow> run \<Rightarrow> bool" where
  "rewardRunSchema L r \<longleftrightarrow>
     isUuid L (rnId r) \<and> rnWallet r \<noteq> [] \<and> hashSchema (rnRecipeSha r) \<and>
     rewardRunRecipeSchema L (rnRecipe r) \<and> in_flight r \<le> 1 \<and> list_all childSchema (rnChildren r)"

definition run_row :: "store \<Rightarrow> string \<Rightarrow> run option" where
  "run_row s rid = row_find rnId rid (stRuns s)"

definition getRun :: "tx_lib \<Rightarrow> string \<Rightarrow> run option op" where
  "getRun L rid = eread (\<lambda>s. case run_row s rid of None \<Rightarrow> Inr None
     | Some r \<Rightarrow> if rewardRunSchema L r then Inr (Some r) else Inl (OtherError ''ZodError''))"

definition requireRun :: "tx_lib \<Rightarrow> string \<Rightarrow> run op" where
  "requireRun L rid = ebind (getRun L rid) (\<lambda>r. case r of
       None \<Rightarrow> ethrow (RepositoryError RepoRunNotFound ''Reward run does not exist'')
     | Some run \<Rightarrow> eret run)"

definition activeRun :: "tx_lib \<Rightarrow> principal \<Rightarrow> run option op" where
  "activeRun L w = (\<lambda>s. case lease_holder (stLeases s) w of
       Some (RewardRunKind, rid) \<Rightarrow> getRun L rid s
     | _ \<Rightarrow> (Inr None, s))"

definition requireAll :: "tx_lib \<Rightarrow> (store \<Rightarrow> run list) \<Rightarrow> run list op" where
  "requireAll L select = (\<lambda>s. elift (mapr (\<lambda>r. fst (requireRun L (rnId r) s)) (select s)) s)"

definition newest_first :: "run \<Rightarrow> run \<Rightarrow> bool" where
  "newest_first a b \<longleftrightarrow> rnCreated b < rnCreated a \<or> (rnCreated a = rnCreated b \<and> rnId b \<le> rnId a)"

definition oldest_first :: "run \<Rightarrow> run \<Rightarrow> bool" where
  "oldest_first a b \<longleftrightarrow> rnCreated a < rnCreated b \<or> (rnCreated a = rnCreated b \<and> rnId a \<le> rnId b)"

definition bounded_limit :: "int \<Rightarrow> nat" where
  "bounded_limit n = nat (max 1 (min 200 n))"

definition listRuns :: "tx_lib \<Rightarrow> int \<Rightarrow> run list op" where
  "listRuns L limit =
     requireAll L (\<lambda>s. take (bounded_limit limit) (sort_by newest_first (stRuns s)))"

definition listUnfinished :: "tx_lib \<Rightarrow> run list op" where
  "listUnfinished L = requireAll L (\<lambda>s. sort_by oldest_first
     (filter (\<lambda>r. rnStatus r \<in> {AwaitingApproval, Approved, Running, Paused, Halted}) (stRuns s)))"

definition listForTarget :: "tx_lib \<Rightarrow> nat \<Rightarrow> distribution \<Rightarrow> int \<Rightarrow> run list op" where
  "listForTarget L cyc d limit = requireAll L (\<lambda>s. take (bounded_limit limit) (sort_by oldest_first
     (filter (\<lambda>r. rpCycle (rnRecipe r) = cyc \<and> rpDistribution (rnRecipe r) = d) (stRuns s))))"

text \<open>The run of the most recently updated child row with the given id.\<close>

definition getByTxid :: "tx_lib \<Rightarrow> txid \<Rightarrow> run option op" where
  "getByTxid L t = (\<lambda>s.
     case sort_by (\<lambda>(u, i) (u', i'). u' < u \<or> (u = u' \<and> i' \<le> i))
       (concat (map (\<lambda>r. map (\<lambda>c. (chUpdated c, rnId r))
          (filter (\<lambda>c. chTxid c = Some t) (rnChildren r))) (stRuns s))) of
       [] \<Rightarrow> (Inr None, s)
     | (_, rid) # _ \<Rightarrow> getRun L rid s)"

text \<open>The ids a run owns, for the union query of \<open>listOwnedTransactionIds\<close> (a set of texts).\<close>

definition child_owned :: "child \<Rightarrow> txid list" where
  "child_owned c = (case chTxid c of None \<Rightarrow> [] | Some t \<Rightarrow> [t]) @ map atTxid (chAttempts c)"

definition listOwnedTransactionIds :: "store \<Rightarrow> txid list" where
  "listOwnedTransactionIds s =
     remdups (concat (map (\<lambda>r. concat (map child_owned (rnChildren r))) (stRuns s)))"

subsection \<open>Preparations\<close>

definition prep_row :: "store \<Rightarrow> string \<Rightarrow> preparation option" where
  "prep_row s pid = row_find ppId pid (stPreps s)"

definition requirePreparation :: "string \<Rightarrow> preparation op" where
  "requirePreparation pid = eread (\<lambda>s. case prep_row s pid of
       None \<Rightarrow> Inl (RepositoryError RepoRunNotFound ''Reward-run preparation does not exist'')
     | Some p \<Rightarrow> Inr p)"

definition prep_active :: "preparation \<Rightarrow> bool" where
  "prep_active p \<longleftrightarrow> ppStatus p \<in> {Queued, Preparing}"

definition activePreparationForRequest :: "store \<Rightarrow> string \<Rightarrow> preparation option" where
  "activePreparationForRequest s sha =
     (case sort_by (\<lambda>a b. ppCreated a \<le> ppCreated b)
        (filter (\<lambda>p. ppRequestSha p = sha \<and> prep_active p) (stPreps s)) of
        [] \<Rightarrow> None | p # _ \<Rightarrow> Some p)"

definition createPreparation ::
    "string \<Rightarrow> string \<Rightarrow> prepare_request \<Rightarrow> instant \<Rightarrow> preparation op" where
  "createPreparation pid sha q now = (\<lambda>s.
     case prep_row s pid of
       Some p \<Rightarrow>
         if ppRequestSha p \<noteq> sha
         then (Inl (RepositoryError RecipeConflict
                 ''This reward-run preparation ID was already used with different inputs''), s)
         else (Inr p, s)
     | None \<Rightarrow>
         (case activePreparationForRequest s sha of
            Some p \<Rightarrow> (Inr p, s)
          | None \<Rightarrow>
              (let p = \<lparr>ppId = pid, ppStatus = Queued, ppRequestSha = sha, ppRequest = q,
                   ppRunId = None, ppFailure = None, ppFailureCode = None, ppCreated = now,
                   ppStarted = None, ppCompleted = None, ppUpdated = now\<rparr> in
               if prep_checks p then (Inr p, s\<lparr>stPreps := stPreps s @ [p]\<rparr>)
               else (Inl (SqliteError ''CHECK constraint failed''), s))))"

definition pendingPreparations :: "store \<Rightarrow> preparation list" where
  "pendingPreparations s =
     sort_by (\<lambda>a b. ppCreated a < ppCreated b \<or> (ppCreated a = ppCreated b \<and> ppId a \<le> ppId b))
       (filter (\<lambda>p. ppStatus p = Queued) (stPreps s))"

definition resetInterruptedPreparations :: "instant \<Rightarrow> nat op" where
  "resetInterruptedPreparations now = (\<lambda>s.
     (Inr (length (filter (\<lambda>p. ppStatus p = Preparing) (stPreps s))),
      s\<lparr>stPreps := map (\<lambda>p. if ppStatus p = Preparing
          then p\<lparr>ppStatus := Queued, ppStarted := None, ppUpdated := now\<rparr> else p) (stPreps s)\<rparr>))"

definition update_prep ::
    "string \<Rightarrow> prep_status \<Rightarrow> (preparation \<Rightarrow> preparation) \<Rightarrow> bool op" where
  "update_prep pid from f = (\<lambda>s.
     case prep_row s pid of
       None \<Rightarrow> (Inr False, s)
     | Some p \<Rightarrow>
         if ppStatus p \<noteq> from then (Inr False, s)
         else if \<not> prep_checks (f p) then (Inl (SqliteError ''CHECK constraint failed''), s)
         else (Inr True, s\<lparr>stPreps := row_update ppId pid f (stPreps s)\<rparr>))"

definition claimPreparation :: "string \<Rightarrow> instant \<Rightarrow> preparation option op" where
  "claimPreparation pid now =
     ebind (update_prep pid Queued (\<lambda>p. p\<lparr>ppStatus := Preparing,
              ppStarted := coalesce (ppStarted p) (Some now), ppUpdated := now\<rparr>)) (\<lambda>changed.
     if \<not> changed then eret None else ebind (requirePreparation pid) (\<lambda>p. eret (Some p)))"

definition completePreparation :: "string \<Rightarrow> string \<Rightarrow> instant \<Rightarrow> preparation op" where
  "completePreparation pid rid now =
     ebind (eread (\<lambda>s. if (\<exists>p. prep_row s pid = Some p \<and> ppStatus p = Preparing) \<and> run_row s rid = None
              then Inl (SqliteError ''FOREIGN KEY constraint failed'') else Inr ())) (\<lambda>_.
     ebind (update_prep pid Preparing (\<lambda>p. p\<lparr>ppStatus := Ready, ppRunId := Some rid,
              ppFailure := None, ppCompleted := Some now, ppUpdated := now\<rparr>)) (\<lambda>changed.
     if \<not> changed
     then ethrow (RepositoryError StateConflict ''Reward-run preparation is no longer active'')
     else requirePreparation pid))"

definition failPreparation ::
    "string \<Rightarrow> string \<Rightarrow> instant \<Rightarrow> failure_code option \<Rightarrow> preparation op" where
  "failPreparation pid reason now code =
     (let text = take 2000 (trim reason);
          failure = (if text = [] then ''Reward-run preparation failed'' else text) in
      ebind (update_prep pid Preparing (\<lambda>p. p\<lparr>ppStatus := Failed, ppRunId := None,
               ppFailure := Some failure, ppCompleted := Some now, ppUpdated := now,
               ppFailureCode := code\<rparr>)) (\<lambda>changed.
      if \<not> changed
      then ethrow (RepositoryError StateConflict ''Reward-run preparation is no longer active'')
      else requirePreparation pid))"

subsection \<open>Inserting a run\<close>

record child_input =
  ciOperation :: operation
  ciAdapterId :: string
  ciAdapterRevision :: nat
  ciAccountKey :: "string option"
  ciMaxAmount :: "nat option"

definition fresh_child :: "instant \<Rightarrow> child_input \<Rightarrow> child" where
  "fresh_child now c = \<lparr>chOperation = ciOperation c, chAdapterId = ciAdapterId c,
     chAdapterRevision = ciAdapterRevision c, chAccountKey = ciAccountKey c,
     chMaxAmount = ciMaxAmount c, chStatus = Pending, chAmount = None, chPlan = None,
     chTxid = None, chProvenance = None, chSource = None, chFailure = None,
     chCreated = now, chUpdated = now, chAttempts = []\<rparr>"

definition fresh_run ::
    "string \<Rightarrow> principal \<Rightarrow> string \<Rightarrow> recipe \<Rightarrow> instant \<Rightarrow> child_input list \<Rightarrow> instant \<Rightarrow> run" where
  "fresh_run rid wallet sha recipe approvalExpires cs now =
     \<lparr>rnId = rid, rnStatus = AwaitingApproval, rnWallet = wallet, rnRecipeSha = sha,
      rnRecipe = recipe, rnCursor = 0, rnGasSpent = 0, rnApprovalExpires = approvalExpires,
      rnRuntimeExpires = None, rnApprovedAt = None, rnStartedAt = None, rnCompletedAt = None,
      rnFailure = None, rnCreated = now, rnUpdated = now, rnChildren = map (fresh_child now) cs\<rparr>"

definition insertRun ::
    "tx_lib \<Rightarrow> string \<Rightarrow> principal \<Rightarrow> string \<Rightarrow> recipe \<Rightarrow> instant \<Rightarrow> child_input list \<Rightarrow> instant
     \<Rightarrow> run op" where
  "insertRun L rid wallet sha recipe approvalExpires cs now =
     ebind (eguard (rewardRunRecipeSchema L recipe) (OtherError ''ZodError'')) (\<lambda>_.
     ebind (eatomic (\<lambda>s.
       case lease_acquire wallet RewardRunKind rid now (stLeases s) of
         None \<Rightarrow> Inl (RepositoryError AuthorizationBusy
                   ''The gas wallet already has an active run or sweep'')
       | Some ls \<Rightarrow>
           (let r = fresh_run rid wallet sha recipe approvalExpires cs now in
            if run_row s rid \<noteq> None
            then Inl (SqliteError ''UNIQUE constraint failed: transaction_runs.run_id'')
            else if \<not> run_checks r \<or> \<not> list_all child_checks (rnChildren r)
            then Inl (SqliteError ''CHECK constraint failed'')
            else if \<not> rewardRunSchema L r then Inl (OtherError ''ZodError'')
            else Inr (s\<lparr>stLeases := ls, stRuns := stRuns s @ [r]\<rparr>)))) (\<lambda>_.
     requireRun L rid))"

subsection \<open>Run transitions\<close>

record transition_patch =
  tpApprovedAt :: "instant option"
  tpStartedAt :: "instant option"
  tpRuntimeExpires :: "instant option"
  tpCompletedAt :: "instant option"
  tpFailure :: "string option"

definition no_patch :: transition_patch where
  "no_patch = \<lparr>tpApprovedAt = None, tpStartedAt = None, tpRuntimeExpires = None,
     tpCompletedAt = None, tpFailure = None\<rparr>"

definition apply_patch :: "run_status \<Rightarrow> instant \<Rightarrow> transition_patch \<Rightarrow> run \<Rightarrow> run" where
  "apply_patch to now p r = r\<lparr>rnStatus := to, rnUpdated := now,
     rnApprovedAt := coalesce (tpApprovedAt p) (rnApprovedAt r),
     rnStartedAt := coalesce (tpStartedAt p) (rnStartedAt r),
     rnRuntimeExpires := coalesce (tpRuntimeExpires p) (rnRuntimeExpires r),
     rnCompletedAt := coalesce (tpCompletedAt p) (rnCompletedAt r),
     rnFailure := tpFailure p\<rparr>"

definition release_run :: "string \<Rightarrow> store \<Rightarrow> store" where
  "release_run rid s = s\<lparr>stLeases := lease_release RewardRunKind rid (stLeases s)\<rparr>"

definition transition ::
    "tx_lib \<Rightarrow> string \<Rightarrow> run_status list \<Rightarrow> run_status \<Rightarrow> instant \<Rightarrow> transition_patch \<Rightarrow> run op" where
  "transition L rid from to now p =
     ebind (eatomic (\<lambda>s.
       bindr (fst (requireRun L rid s)) (\<lambda>current.
       if rnStatus current \<notin> set from
       then Inl (RepositoryError StateConflict
              (''Reward run is '' @ run_status_text (rnStatus current) @ '', expected '' @
               join '' or '' (map run_status_text from)))
       else if \<not> run_checks (apply_patch to now p current)
       then Inl (SqliteError ''CHECK constraint failed'')
       else if \<not> rewardRunSchema L (apply_patch to now p current) then Inl (OtherError ''ZodError'')
       else (let s1 = s\<lparr>stRuns := row_update rnId rid (apply_patch to now p) (stRuns s)\<rparr> in
             Inr (if terminal_run to then release_run rid s1 else s1))))) (\<lambda>_.
     requireRun L rid)"

subsection \<open>Children\<close>

definition child_row :: "store \<Rightarrow> string \<Rightarrow> nat \<Rightarrow> child option" where
  "child_row s rid i = (case run_row s rid of None \<Rightarrow> None | Some r \<Rightarrow> at_index (rnChildren r) i)"

definition requireChild :: "string \<Rightarrow> nat \<Rightarrow> child op" where
  "requireChild rid i = eread (\<lambda>s. case child_row s rid i of
       None \<Rightarrow> Inl (RepositoryError ChildNotFound ''Run child does not exist'')
     | Some c \<Rightarrow> Inr c)"

definition update_child_row :: "string \<Rightarrow> nat \<Rightarrow> (child \<Rightarrow> child) \<Rightarrow> store \<Rightarrow> store" where
  "update_child_row rid i f s = s\<lparr>stRuns := row_update rnId rid
     (\<lambda>r. r\<lparr>rnChildren := (rnChildren r)[i := f (rnChildren r ! i)]\<rparr>) (stRuns s)\<rparr>"

definition write_child :: "string \<Rightarrow> nat \<Rightarrow> (child \<Rightarrow> child) \<Rightarrow> unit op" where
  "write_child rid i f = eatomic (\<lambda>s. case child_row s rid i of
       None \<Rightarrow> Inr s
     | Some c \<Rightarrow> if child_checks (f c) then Inr (update_child_row rid i f s)
                 else Inl (SqliteError ''CHECK constraint failed''))"

definition materializeChild ::
    "string \<Rightarrow> nat \<Rightarrow> plan \<Rightarrow> nat option \<Rightarrow> instant \<Rightarrow> child op" where
  "materializeChild rid i p amount now =
     ebind (requireChild rid i) (\<lambda>c.
     ebind (eguard (chStatus c = Pending)
             (RepositoryError StateConflict ''Run child is not pending'')) (\<lambda>_.
     ebind (eguard (case (chMaxAmount c, amount) of (Some m, Some a) \<Rightarrow> a \<le> m | _ \<Rightarrow> True)
             (RepositoryError RecipeConflict
               ''Materialized payment exceeds its approved recipe bound'')) (\<lambda>_.
     ebind (write_child rid i (\<lambda>c. c\<lparr>chStatus := Materialized, chPlan := Some p,
               chAmount := amount, chUpdated := now\<rparr>)) (\<lambda>_.
     requireChild rid i))))"

definition childPlan :: "string \<Rightarrow> nat \<Rightarrow> plan option op" where
  "childPlan rid i = ebind (requireChild rid i) (\<lambda>c. eret (chPlan c))"

record child_patch =
  cpTxid :: "txid option"
  cpProvenance :: "provenance option"
  cpSource :: "execution_source option"
  cpFailure :: "string option"

definition no_child_patch :: child_patch where
  "no_child_patch = \<lparr>cpTxid = None, cpProvenance = None, cpSource = None, cpFailure = None\<rparr>"

definition updateChild ::
    "string \<Rightarrow> nat \<Rightarrow> child_status list \<Rightarrow> child_status \<Rightarrow> instant \<Rightarrow> child_patch \<Rightarrow> child op" where
  "updateChild rid i from to now p =
     ebind (requireChild rid i) (\<lambda>current.
     ebind (eguard (chStatus current \<in> set from)
             (RepositoryError StateConflict ''Run child changed concurrently'')) (\<lambda>_.
     ebind (write_child rid i (\<lambda>c. c\<lparr>chStatus := to, chTxid := coalesce (cpTxid p) (chTxid c),
               chProvenance := cpProvenance p, chFailure := cpFailure p,
               chSource := coalesce (cpSource p) (chSource current), chUpdated := now\<rparr>)) (\<lambda>_.
     requireChild rid i)))"

definition attempts :: "string \<Rightarrow> nat \<Rightarrow> store \<Rightarrow> attempt list" where
  "attempts rid i s = (case child_row s rid i of None \<Rightarrow> [] | Some c \<Rightarrow> chAttempts c)"

definition unmaterialize :: "instant \<Rightarrow> child \<Rightarrow> child" where
  "unmaterialize now c = c\<lparr>chStatus := Pending, chPlan := None, chAmount := None, chUpdated := now\<rparr>"

definition resetUnattemptedMaterializedChild :: "string \<Rightarrow> nat \<Rightarrow> instant \<Rightarrow> unit op" where
  "resetUnattemptedMaterializedChild rid i now = (\<lambda>s.
     if attempts rid i s \<noteq> []
     then (Inl (RepositoryError StateConflict
             ''A materialized child with an attempt cannot be reset''), s)
     else (case child_row s rid i of
         Some c \<Rightarrow> if chStatus c = Materialized
           then write_child rid i (unmaterialize now) s
           else (Inl (RepositoryError StateConflict ''Materialized child changed concurrently''), s)
       | None \<Rightarrow> (Inl (RepositoryError StateConflict ''Materialized child changed concurrently''), s)))"

definition resetRejectedChild :: "string \<Rightarrow> nat \<Rightarrow> instant \<Rightarrow> unit op" where
  "resetRejectedChild rid i now =
     ebind (requireChild rid i) (\<lambda>c.
     ebind (eguard (chStatus c = ChildHalted \<and>
               (case last_opt (chAttempts c) of None \<Rightarrow> False | Some a \<Rightarrow> atState a = AttemptRejected))
             (RepositoryError StateConflict
               ''Only a deterministically rejected child can be explicitly retried'')) (\<lambda>_.
     write_child rid i (\<lambda>c. (unmaterialize now c)\<lparr>chTxid := None, chProvenance := None,
               chFailure := None, chSource := None\<rparr>)))"

definition advanceCursor :: "tx_lib \<Rightarrow> string \<Rightarrow> nat \<Rightarrow> nat \<Rightarrow> instant \<Rightarrow> run op" where
  "advanceCursor L rid expected gasSpent now =
     ebind (eatomic (\<lambda>s. case run_row s rid of
         Some r \<Rightarrow> if rnCursor r = expected
           then Inr (s\<lparr>stRuns := row_update rnId rid (\<lambda>r. r\<lparr>rnCursor := rnCursor r + 1,
                  rnGasSpent := gasSpent, rnUpdated := now\<rparr>) (stRuns s)\<rparr>)
           else Inl (RepositoryError StateConflict ''Reward run cursor changed concurrently'')
       | None \<Rightarrow> Inl (RepositoryError StateConflict ''Reward run cursor changed concurrently''))) (\<lambda>_.
     requireRun L rid)"

subsection \<open>Attempts\<close>

definition attempt_txids :: "store \<Rightarrow> txid list" where
  "attempt_txids s =
     concat (map (\<lambda>r. concat (map (\<lambda>c. map atTxid (chAttempts c)) (rnChildren r))) (stRuns s))"

definition insertAttempt ::
    "string \<Rightarrow> nat \<Rightarrow> txid \<Rightarrow> nat \<Rightarrow> nat \<Rightarrow> attempt_state \<Rightarrow> instant \<Rightarrow> nat op" where
  "insertAttempt rid i t nonce fee st now = (\<lambda>s.
     if child_row s rid i = None then (Inl (SqliteError ''FOREIGN KEY constraint failed''), s)
     else if t \<in> set (attempt_txids s)
     then (Inl (SqliteError ''UNIQUE constraint failed: transaction_run_attempts.precomputed_txid''), s)
     else if length t \<noteq> 66 then (Inl (SqliteError ''CHECK constraint failed''), s)
     else (Inr (length (attempts rid i s)),
           update_child_row rid i (\<lambda>c. c\<lparr>chAttempts := chAttempts c @
             [\<lparr>atTxid = t, atNonce = nonce, atFee = fee, atState = st, atResult = None,
               atCreated = now, atUpdated = now\<rparr>]\<rparr>) s))"

definition updateAttempt ::
    "string \<Rightarrow> nat \<Rightarrow> nat \<Rightarrow> attempt_state \<Rightarrow> broadcast_result option \<Rightarrow> instant \<Rightarrow> unit op" where
  "updateAttempt rid i k st res now = (\<lambda>s.
     (Inr (), update_child_row rid i (\<lambda>c. c\<lparr>chAttempts := (chAttempts c)[k :=
        (chAttempts c ! k)\<lparr>atState := st, atResult := res, atUpdated := now\<rparr>]\<rparr>) s))"

end
