(* ===== verification/Run_Guards.thy ===== *)
theory Run_Guards
  imports Run_Store
begin

text \<open>
  The two checks a reward run is executed behind (transaction-engine/reward-run-service.ts):
  \<open>assertSealedRun\<close>, that a stored run still is what was sealed, and \<open>assertPlan\<close>, that the plan the
  driver materialized lies inside the sealed recipe. The theorem of this file is what the second
  one is for: the sBTC a checked plan can move is bounded by the amount the operator reviewed.
\<close>

subsection \<open>The integrity check of a stored run\<close>

definition recipe_child_matches :: "recipe_child \<Rightarrow> nat \<Rightarrow> child option \<Rightarrow> bool" where
  "recipe_child_matches rc i c = (case c of None \<Rightarrow> False | Some c \<Rightarrow>
     rcIndex rc = i \<and> chOperation c = rcOperation rc \<and> chAccountKey c = rcAccountKey rc \<and>
     chMaxAmount c = rcMaxAmount rc)"

definition recipe_children_match :: "run \<Rightarrow> bool" where
  "recipe_children_match r \<longleftrightarrow>
     length (rpChildren (rnRecipe r)) = length (rnChildren r) \<and>
     list_all (\<lambda>i. recipe_child_matches (rpChildren (rnRecipe r) ! i) i (at_index (rnChildren r) i))
       [0..<length (rpChildren (rnRecipe r))]"

definition sealed_run :: "tx_lib \<Rightarrow> run \<Rightarrow> bool" where
  "sealed_run L r \<longleftrightarrow>
     rpRunId (rnRecipe r) = rnId r \<and> rpWallet (rnRecipe r) = rnWallet r \<and>
     rewardRunRecipeSha256 L (rnRecipe r) = rnRecipeSha r \<and> recipe_children_match r"

definition assertSealedRun :: "tx_lib \<Rightarrow> run \<Rightarrow> engine_error + unit" where
  "assertSealedRun L r = guardr (sealed_run L r)
     (RewardRunError RunInvalid ''Stored reward run failed its integrity check'')"

subsection \<open>The check of a materialized plan\<close>

definition target_checkpoint :: "distribution \<Rightarrow> checkpoint" where
  "target_checkpoint d = (if d = Dist1 then FirstHalf else SecondHalf)"

text \<open>\<open>material.field === amountSats\<close>, the text of a number against a text or \<open>null\<close>.\<close>

definition amount_is :: "int \<Rightarrow> nat option \<Rightarrow> bool" where
  "amount_is x a \<longleftrightarrow> (case a of None \<Rightarrow> False | Some n \<Rightarrow> x = int n)"

definition staker_key :: "principal \<Rightarrow> int \<Rightarrow> int option \<Rightarrow> string" where
  "staker_key staker cyc bond = staker @ '':'' @ int_text cyc @ '':'' @
     (case bond of None \<Rightarrow> ''stx'' | Some b \<Rightarrow> int_text b)"

fun op_in_recipe :: "recipe \<Rightarrow> recipe_child \<Rightarrow> nat option \<Rightarrow> op_material \<Rightarrow> bool" where
  "op_in_recipe R rc a (MCalculate pox5 periods cyc chk lastCompute) \<longleftrightarrow>
     pox5 = rpPox5 R \<and> cyc = int (rpCycle R) \<and> chk = target_checkpoint (rpDistribution R)"
| "op_in_recipe R rc a (MClaim mgr pox5 sbtc cyc periods eff) \<longleftrightarrow>
     mgr = rpManager R \<and> pox5 = rpPox5 R \<and> sbtc = rpSbtcToken R \<and> cyc = int (rpCycle R) \<and>
     amount_is (ftAmountSats eff) a"
| "op_in_recipe R rc a (MClaimStaker mgr sbtc staker cyc bond route gross fee eff) \<longleftrightarrow>
     (case find (\<lambda>b. Some (abKey b) = rcAccountKey rc) (rpAccounts R) of
        None \<Rightarrow> False
      | Some b \<Rightarrow>
          mgr = rpManager R \<and> sbtc = rpSbtcToken R \<and> rcStaker rc = Some staker \<and>
          rcAccountKey rc = Some (staker_key staker cyc bond) \<and>
          cyc = int (daCycle (abAccount b)) \<and> bond = map_option int (daBond (abAccount b)) \<and>
          route = daRoute (abAccount b) \<and> amount_is gross a)"
| "op_in_recipe R rc a (MSettle mgr request staker) \<longleftrightarrow>
     mgr = rpManager R \<and> map_option int (rcRequestId rc) = Some request \<and> rcStaker rc = Some staker"
| "op_in_recipe R rc a (MReclaim mgr sbtc request staker amount maxFee eff) \<longleftrightarrow>
     mgr = rpManager R \<and> sbtc = rpSbtcToken R \<and> map_option int (rcRequestId rc) = Some request \<and>
     rcStaker rc = Some staker \<and> map_option int (rcWithdrawal rc) = Some amount \<and>
     map_option int (rcMaxFee rc) = Some maxFee \<and> amount_is (amount + maxFee) a"

fun op_message :: "op_material \<Rightarrow> string" where
  "op_message (MCalculate _ _ _ _ _) = ''Calculation target is not in the recipe''"
| "op_message (MClaim _ _ _ _ _ _) = ''Manager collect is not in the recipe''"
| "op_message (MClaimStaker _ _ _ _ _ _ _ _ _) = ''Staker payment is not in the recipe''"
| "op_message (MSettle _ _ _) = ''Withdrawal settlement is not in the recipe''"
| "op_message (MReclaim _ _ _ _ _ _ _) = ''Withdrawal reclaim is not in the recipe''"

text \<open>The first condition of \<open>assertPlan\<close>: who authorized, what is called, who sends, at which fee.\<close>

definition material_bound ::
    "string \<Rightarrow> principal \<Rightarrow> string \<Rightarrow> recipe \<Rightarrow> operation \<Rightarrow> recipe_child option \<Rightarrow> material \<Rightarrow> bool" where
  "material_bound rid wallet sha R k rc m \<longleftrightarrow>
     authRunId (matAuthorization m) = rid \<and> authRecipeSha256 (matAuthorization m) = sha \<and>
     material_kind (matOp m) = k \<and>
     map_option rcAdapterId rc = Some (matAdapterId m) \<and>
     map_option rcAdapterRevision rc = Some (matAdapterRevision m) \<and>
     netKind (matNetwork m) = rpNetwork R \<and> netChainId (matNetwork m) = int (rpChainId R) \<and>
     senderPrincipal (matSender m) = wallet \<and>
     matManagerFingerprint m = Some (rpManagerFingerprint R) \<and>
     ancStacksHeight (rpAnchor R) \<le> ancStacksHeight (matAnchor m) \<and>
     ancBurnHeight (rpAnchor R) \<le> ancBurnHeight (matAnchor m) \<and>
     txFeeUstx (matTransaction m) \<le> int (rpFeeCap R)"

definition amount_within :: "recipe_child \<Rightarrow> nat option \<Rightarrow> bool" where
  "amount_within rc a = (case (rcMaxAmount rc, a) of (Some m, Some n) \<Rightarrow> n \<le> m | _ \<Rightarrow> True)"

definition assertPlan :: "run \<Rightarrow> nat \<Rightarrow> child \<Rightarrow> plan \<Rightarrow> nat option \<Rightarrow> engine_error + unit" where
  "assertPlan r i c p a =
     (let m = planMaterial p; R = rnRecipe r; rc = at_index (rpChildren R) i;
          invalid = RewardRunError RunInvalid in
      bindr (guardr (material_bound (rnId r) (rnWallet r) (rnRecipeSha r) R (chOperation c) rc m)
              (invalid ''Materialized child is outside its recipe'')) (\<lambda>_.
      case rc of
        None \<Rightarrow> Inl (invalid ''Recipe child is missing'')
      | Some rc \<Rightarrow>
          bindr (guardr ((rcMaxAmount rc = None) = (a = None))
                  (invalid ''Materialized child amount does not match its recipe shape'')) (\<lambda>_.
          bindr (guardr (amount_within rc a)
                  (invalid ''Materialized child exceeds the approved account amount'')) (\<lambda>_.
          guardr (op_in_recipe R rc a (matOp m)) (invalid (op_message (matOp m)))))))"

lemma assertPlan_ok:
  "assertPlan r i c p a = Inr () \<longleftrightarrow>
     (\<exists>rc. at_index (rpChildren (rnRecipe r)) i = Some rc \<and>
        material_bound (rnId r) (rnWallet r) (rnRecipeSha r) (rnRecipe r) (chOperation c) (Some rc)
          (planMaterial p) \<and>
        (rcMaxAmount rc = None) = (a = None) \<and> amount_within rc a \<and>
        op_in_recipe (rnRecipe r) rc a (matOp (planMaterial p)))"
  by (cases "at_index (rpChildren (rnRecipe r)) i")
    (auto simp: assertPlan_def Let_def simp del: at_index_Some at_index_None)

lemma assertPlan_elim:
  assumes "assertPlan r i c p a = Inr ()"
  obtains rc where "at_index (rpChildren (rnRecipe r)) i = Some rc"
    "material_bound (rnId r) (rnWallet r) (rnRecipeSha r) (rnRecipe r) (chOperation c) (Some rc)
       (planMaterial p)"
    "(rcMaxAmount rc = None) = (a = None)" "amount_within rc a"
    "op_in_recipe (rnRecipe r) rc a (matOp (planMaterial p))"
  using assms unfolding assertPlan_ok by (elim exE conjE) (rule that)

text \<open>The amount of a material that \<open>assertPlan\<close> compares with the materialized amount.\<close>

fun checked_amount :: "op_material \<Rightarrow> int option" where
  "checked_amount (MClaim _ _ _ _ _ eff) = Some (ftAmountSats eff)"
| "checked_amount (MClaimStaker _ _ _ _ _ _ gross _ _) = Some gross"
| "checked_amount (MReclaim _ _ _ _ amount maxFee _) = Some (amount + maxFee)"
| "checked_amount _ = None"

lemma op_in_recipe_amount: "op_in_recipe R rc a m \<Longrightarrow> checked_amount m = Some x \<Longrightarrow> a = Some (nat x) \<and> 0 \<le> x"
  by (cases m; cases a) (simp_all add: amount_is_def split: option.splits)

lemma contractCall_effect_checked:
  assumes "contractCall req = Inr cc" and "opMaterialSchema L (ccMaterial cc)"
    and "material_effect (ccMaterial cc) = Some e"
  shows "\<exists>x. checked_amount (ccMaterial cc) = Some x \<and> 0 < ftAmountSats e \<and> ftAmountSats e \<le> x"
  using assms
  by (cases req) (simp_all add: sbtc_transfer_def uintText_def Let_def split: if_splits,
      auto simp: uintText_def)

text \<open>
  C8: a plan that revalidates and passes \<open>assertPlan\<close> is bounded by what the operator approved. Its
  bytes are the serialization of one contract call in deny mode whose only post-conditions are the
  exact transfer of its effect; the call is signed for by the run's own wallet, of the kind of the
  child, at a fee within the sealed cap; and an effect moves a positive amount that is at most the
  maximum of the recipe child, so a child without a maximum moves nothing.
\<close>
theorem assertPlan_bounds_outflow:
  assumes rv: "revalidateRewardOperationPlan L p = Inr q" and ok: "assertPlan r i c p a = Inr ()"
  shows "q = p \<and> i < length (rpChildren (rnRecipe r))
    \<and> (\<exists>call. makeUnsignedContractCall L call = Inr (unsignedTransactionHex p) \<and> callDenyMode call
         \<and> callPostConditions call = effect_post_conditions (matOp (planMaterial p))
         \<and> callFee call \<le> int (rpFeeCap (rnRecipe r)))
    \<and> senderPrincipal (matSender (planMaterial p)) = rnWallet r
    \<and> material_kind (matOp (planMaterial p)) = chOperation c
    \<and> (case material_effect (matOp (planMaterial p)) of None \<Rightarrow> True
       | Some e \<Rightarrow> 0 < ftAmountSats e \<and>
           (\<exists>m. rcMaxAmount (rpChildren (rnRecipe r) ! i) = Some m \<and> ftAmountSats e \<le> int m))"
proof -
  from ok obtain rc where rc: "at_index (rpChildren (rnRecipe r)) i = Some rc"
    and mb: "material_bound (rnId r) (rnWallet r) (rnRecipeSha r) (rnRecipe r) (chOperation c) (Some rc)
          (planMaterial p)"
    and shape: "(rcMaxAmount rc = None) = (a = None)" and within: "amount_within rc a"
    and opr: "op_in_recipe (rnRecipe r) rc a (matOp (planMaterial p))"
    by (rule assertPlan_elim) (rule that)
  from rv have qp: "q = p" and
    pl: "planRewardOperation L (rebuildCommon p) (rebuildInput (matOp (planMaterial p))) = Inr p"
    unfolding revalidate_iff by simp_all
  let ?c = "rebuildCommon p" and ?req = "rebuildInput (matOp (planMaterial p))"
  from pl obtain cc parts where cc: "contractCall ?req = Inr cc"
    and hex: "makeUnsignedContractCall L (plan_call ?c cc parts) = Inr (unsignedTransactionHex p)"
    and m: "planMaterial p = plan_material ?c ?req cc (unsignedTransactionSha256 p)"
    and sch: "rewardOperationPlanSchema L p"
    by (rule planRewardOperation_elim) (rule that)
  have mop: "matOp (planMaterial p) = ccMaterial cc" by (subst m) (simp add: plan_material_def)
  have call: "callDenyMode (plan_call ?c cc parts)"
    "callPostConditions (plan_call ?c cc parts) = effect_post_conditions (matOp (planMaterial p))"
    "callFee (plan_call ?c cc parts) \<le> int (rpFeeCap (rnRecipe r))"
    using contractCall_post_conditions[OF cc] mb
    by (simp_all add: plan_call_def mop rebuildCommon_def Let_def material_bound_def)
  have eff: "\<exists>x. rcMaxAmount rc = Some x \<and> 0 < ftAmountSats e \<and> ftAmountSats e \<le> int x"
    if e: "material_effect (matOp (planMaterial p)) = Some e" for e
  proof -
    have "opMaterialSchema L (ccMaterial cc)"
      using sch by (simp add: rewardOperationPlanSchema_def operationMaterialSchema_def mop)
    from contractCall_effect_checked[OF cc this] e obtain x where
      x: "checked_amount (matOp (planMaterial p)) = Some x" "0 < ftAmountSats e" "ftAmountSats e \<le> x"
      unfolding mop by auto
    from op_in_recipe_amount[OF opr x(1)] have a: "a = Some (nat x)" "0 \<le> x" by simp_all
    with shape within obtain mx where "rcMaxAmount rc = Some mx" "nat x \<le> mx"
      by (cases "rcMaxAmount rc") (auto simp: amount_within_def)
    with x a show ?thesis by (intro exI[of _ mx]) simp
  qed
  show ?thesis
    using qp rc mb hex call eff
    by (auto simp: material_bound_def split: option.splits)
qed

definition sample_run :: run where
  "sample_run = fresh_run ''run'' ''SPW'' (replicate 64 (CHR ''a'')) sample_recipe 1000
     (map (\<lambda>rc. \<lparr>ciOperation = rcOperation rc, ciAdapterId = rcAdapterId rc,
        ciAdapterRevision = rcAdapterRevision rc, ciAccountKey = rcAccountKey rc,
        ciMaxAmount = rcMaxAmount rc\<rparr>) (rpChildren sample_recipe)) 0"

lemma sample_recipe_fields:
  "length (rpChildren sample_recipe) = 4"
  "rpChildren sample_recipe ! Suc 0 = \<lparr>rcIndex = 1, rcOperation = ClaimRewards,
     rcAdapterId = ''reference-manager-claim-rewards'', rcAdapterRevision = 3, rcAccountKey = None,
     rcRequestId = None, rcStaker = None, rcMaxAmount = Some 900, rcWithdrawal = None,
     rcMaxFee = None\<rparr>"
  "rpNetwork sample_recipe = Mainnet" "rpChainId sample_recipe = 1" "rpCycle sample_recipe = 7"
  "rpManager sample_recipe = ''SPM.manager''" "rpPox5 sample_recipe = ''SP0.pox-5''"
  "rpSbtcToken sample_recipe = ''SPB.sbtc-token''" "rpFeeCap sample_recipe = 3000"
  "rpManagerFingerprint sample_recipe = replicate 64 (CHR ''1'')"
  "rpAnchor sample_recipe = sample_anchor"
  by (simp_all add: sample_recipe_def buildRewardRunRecipe_def sample_facts_def sample_request_def
      uniqueOperations_def operationOrder_def recipe_children_def collect_children_def
      calculate_children_def add_payments_eq add_withdrawals_eq add_child_eq sorted_accounts_def
      sorted_withdrawals_def sample_lib_def sample_account_def accountKey_def
      withdrawal_operation_def eligible_transactions_def Let_def dec_text.simps digit_char_def
      mk_child_def no_detail_def)

theorem assertPlan_bounds_outflow_witness:
  "revalidateRewardOperationPlan sample_lib sample_plan = Inr sample_plan \<and>
   assertPlan sample_run 1 (rnChildren sample_run ! 1) sample_plan (Some 900) = Inr () \<and>
   senderPrincipal (matSender (planMaterial sample_plan)) = rnWallet sample_run"
proof -
  have rv: "revalidateRewardOperationPlan sample_lib sample_plan = Inr sample_plan"
    by (rule sample_plan_revalidates)
  have ok: "assertPlan sample_run 1 (rnChildren sample_run ! 1) sample_plan (Some 900) = Inr ()"
    unfolding assertPlan_ok
    by (simp add: sample_run_def fresh_run_def fresh_child_def sample_recipe_fields material_bound_def
        sample_plan_def plan_material_def sample_common_def sample_claim_def sample_call_def
        request_kind_def amount_within_def sbtc_transfer_def amount_is_def)
  show ?thesis using rv ok assertPlan_bounds_outflow[OF rv ok] by blast
qed

end
