(* ===== verification/Run_Tick.thy ===== *)
theory Run_Tick
  imports Run_Guards
begin

text \<open>
  One execution step of a reward run: \<open>#tick\<close> of transaction-engine/reward-run-service.ts, as a
  computation over the store.

  \<open>#tick\<close> is an \<open>async\<close> method; between two \<open>await\<close>s it runs alone, and at an \<open>await\<close> every
  other handler may run. It is therefore one function per stretch between two \<open>await\<close>s: each
  returns the \<open>tick_pc\<close> the method is suspended at, with the local variables the rest of the method
  uses (\<open>run\<close> and \<open>child\<close> are the snapshot read when the tick started, never refreshed), and the
  next one takes that and the awaited value. What is awaited (the driver's chain reads, the wallet
  refusal check, the signer and the broadcaster) is an argument, an exception of it an \<open>Inl\<close>.
\<close>

subsection \<open>What a tick awaits\<close>

datatype materialization =
    MatPlan plan "nat option"
  | MatSkip string provenance
  | MatHalt string

datatype reconciliation =
    RecPending bool "int option"
  | RecConfirmed "execution_source option"
  | RecExternal "execution_source option"
  | RecHalt string "execution_source option" bool

record control =
  ctAllowed :: bool
  ctReason :: "string option"

type_synonym execution_control = "operation list \<Rightarrow> control option"

datatype refusal_reason = ManagerAdmin | SignerKey | ContractPrincipal | CheckUnavailable

fun refusal_text :: "refusal_reason \<Rightarrow> string" where
  "refusal_text ManagerAdmin = ''manager-admin''"
| "refusal_text SignerKey = ''signer-key''"
| "refusal_text ContractPrincipal = ''contract-principal''"
| "refusal_text CheckUnavailable = ''check-unavailable''"

text \<open>
  The suspension points: the snapshot run and child index of the tick, its start time, and what the
  rest of the method needs. \<open>TickBroadcast\<close> carries the signed transaction being submitted and the
  index of the attempt row that records it.
\<close>

datatype tick_pc =
    TickDone
  | TickReconcile run nat plan txid instant
  | TickMaterialize run nat instant
  | TickRefusal run nat plan instant
  | TickSign run nat plan instant
  | TickBroadcast run nat signed_attempt nat instant

subsection \<open>Shared steps of the service\<close>

definition assertExecutionAllowed :: "execution_control \<Rightarrow> operation list \<Rightarrow> engine_error + unit" where
  "assertExecutionAllowed ctl ops =
     (case ctl ops of
        Some c \<Rightarrow> guardr (ctAllowed c) (RewardRunError RunUnavailable
          (case ctReason c of None \<Rightarrow> ''Reward-run execution is disabled by an emergency control''
           | Some t \<Rightarrow> t))
      | None \<Rightarrow> Inr ())"

definition assertDedicatedWallet :: "refusal_reason option \<Rightarrow> engine_error + unit" where
  "assertDedicatedWallet refusal = (case refusal of None \<Rightarrow> Inr ()
     | Some t \<Rightarrow> Inl (RewardRunError RunRefused
         (''The gas wallet failed its per-transaction refusal check ('' @ refusal_text t @ '')'')))"

definition serviceGet :: "tx_lib \<Rightarrow> string \<Rightarrow> run op" where
  "serviceGet L rid = ebind (getRun L rid) (\<lambda>r. case r of
       None \<Rightarrow> ethrow (RewardRunError RunNotFound ''Reward run does not exist'')
     | Some r \<Rightarrow> ebind (elift (assertSealedRun L r)) (\<lambda>_. eret r))"

definition halt :: "tx_lib \<Rightarrow> string \<Rightarrow> string \<Rightarrow> instant \<Rightarrow> run op" where
  "halt L rid reason now =
     transition L rid [Running] Halted now (no_patch\<lparr>tpFailure := Some reason\<rparr>)"

definition runtime_elapsed :: "run \<Rightarrow> instant \<Rightarrow> bool" where
  "runtime_elapsed r now = (case rnRuntimeExpires r of None \<Rightarrow> False | Some t \<Rightarrow> t \<le> now)"

definition expired_patch :: "instant \<Rightarrow> string \<Rightarrow> transition_patch" where
  "expired_patch now reason = no_patch\<lparr>tpCompletedAt := Some now, tpFailure := Some reason\<rparr>"

definition expireRunningRun :: "tx_lib \<Rightarrow> run \<Rightarrow> instant \<Rightarrow> bool op" where
  "expireRunningRun L r now =
     (if \<not> runtime_elapsed r now then eret False
      else ebind (transition L (rnId r) [Running] Expired now
             (expired_patch now ''Maximum run time elapsed'')) (\<lambda>_. eret True))"

definition isRetryableChainReadError :: "engine_error \<Rightarrow> bool" where
  "isRetryableChainReadError e = (case e of
       UpstreamUnavailableError _ \<Rightarrow> True
     | RateLimitedError _ _ \<Rightarrow> True
     | ChainAnchorError _ retryable \<Rightarrow> retryable
     | _ \<Rightarrow> False)"

fun error_message :: "engine_error \<Rightarrow> string" where
  "error_message (RewardRunError _ m) = m"
| "error_message (RepositoryError _ m) = m"
| "error_message (SqliteError m) = m"
| "error_message (UpstreamUnavailableError m) = m"
| "error_message (UpstreamHttpError m _) = m"
| "error_message (RateLimitedError m _) = m"
| "error_message (ChainAnchorError m _) = m"
| "error_message (Pox5CalculateRewardsError _ m) = m"
| "error_message (OtherError m) = m"

subsection \<open>The start of a tick\<close>

definition start_running :: "tx_lib \<Rightarrow> int \<Rightarrow> string \<Rightarrow> run \<Rightarrow> instant \<Rightarrow> run op" where
  "start_running L maximumRunHours rid r now =
     (if rnStatus r = Approved
      then transition L rid [Approved] Running now
             (no_patch\<lparr>tpStartedAt := Some now,
                tpRuntimeExpires := Some (now + maximumRunHours * 60 * 60000)\<rparr>)
      else eret r)"

definition tick_materialized_child :: "tx_lib \<Rightarrow> run \<Rightarrow> nat \<Rightarrow> instant \<Rightarrow> tick_pc op" where
  "tick_materialized_child L r i now = (\<lambda>s.
     case last_opt (attempts (rnId r) i s) of
       Some a \<Rightarrow>
         ebind (updateChild (rnId r) i [Materialized] Broadcast now
                 (no_child_patch\<lparr>cpTxid := Some (atTxid a), cpProvenance := Some You,
                    cpFailure := Some ''Submission may have started before Sidekick restarted''\<rparr>)) (\<lambda>_.
         ebind (halt L (rnId r)
                 ''Sidekick restarted after signing began; resume to reconcile the saved transaction ID''
                 now) (\<lambda>_.
         eret TickDone)) s
     | None \<Rightarrow> ebind (resetUnattemptedMaterializedChild (rnId r) i now) (\<lambda>_. eret TickDone) s)"

definition tick_broadcast_child ::
    "tx_lib \<Rightarrow> (txid \<Rightarrow> bool) \<Rightarrow> run \<Rightarrow> nat \<Rightarrow> txid \<Rightarrow> instant \<Rightarrow> tick_pc op" where
  "tick_broadcast_child L isDue r i t now =
     ebind (childPlan (rnId r) i) (\<lambda>p. case p of
         None \<Rightarrow> ebind (halt L (rnId r) ''Broadcast child is missing its sealed plan'' now)
                   (\<lambda>_. eret TickDone)
       | Some p \<Rightarrow> if \<not> isDue t then eret TickDone else eret (TickReconcile r i p t now))"

definition tick_child ::
    "tx_lib \<Rightarrow> execution_control \<Rightarrow> (txid \<Rightarrow> bool) \<Rightarrow> run \<Rightarrow> nat \<Rightarrow> child \<Rightarrow> instant \<Rightarrow> tick_pc op" where
  "tick_child L ctl isDue r i c now =
     (if chStatus c = Materialized then tick_materialized_child L r i now
      else case (chStatus c, chTxid c) of
        (Broadcast, Some t) \<Rightarrow> tick_broadcast_child L isDue r i t now
      | _ \<Rightarrow>
        if child_complete (chStatus c)
        then ebind (advanceCursor L (rnId r) (rnCursor r) (rnGasSpent r) now) (\<lambda>_. eret TickDone)
        else ebind (elift (assertExecutionAllowed ctl [chOperation c])) (\<lambda>_.
             eret (TickMaterialize r i now)))"

definition tick_start ::
    "tx_lib \<Rightarrow> int \<Rightarrow> execution_control \<Rightarrow> (txid \<Rightarrow> bool) \<Rightarrow> string \<Rightarrow> instant \<Rightarrow> tick_pc op" where
  "tick_start L maximumRunHours ctl isDue rid now =
     ebind (serviceGet L rid) (\<lambda>r0.
     ebind (start_running L maximumRunHours rid r0 now) (\<lambda>r.
     if rnStatus r \<noteq> Running then eret TickDone
     else ebind (expireRunningRun L r now) (\<lambda>expired.
     if expired then eret TickDone
     else case at_index (rnChildren r) (rnCursor r) of
       None \<Rightarrow> ebind (transition L rid [Running] Completed now (no_patch\<lparr>tpCompletedAt := Some now\<rparr>))
                 (\<lambda>_. eret TickDone)
     | Some c \<Rightarrow> tick_child L ctl isDue r (rnCursor r) c now)))"

subsection \<open>After the reconciliation of a broadcast child\<close>

definition record_resolution ::
    "tx_lib \<Rightarrow> run \<Rightarrow> nat \<Rightarrow> instant \<Rightarrow> child_status \<Rightarrow> execution_source option \<Rightarrow> tick_pc op" where
  "record_resolution L r i now st src =
     ebind (updateChild (rnId r) i [Broadcast] st now
             (no_child_patch\<lparr>cpProvenance := Some (if st = Confirmed then You else AnotherCaller),
                cpSource := src\<rparr>)) (\<lambda>_ s.
       let as = attempts (rnId r) i s;
           paidFee = (case last_opt as of None \<Rightarrow> 0 | Some a \<Rightarrow> atFee a) in
       ebind (if as \<noteq> [] \<and> st = Confirmed
              then updateAttempt (rnId r) i (length as - 1) AttemptConfirmed None now
              else eret ()) (\<lambda>_.
       ebind (advanceCursor L (rnId r) (rnCursor r) (rnGasSpent r + paidFee) now) (\<lambda>_.
       eret TickDone)) s)"

definition tick_reconciled :: "tx_lib \<Rightarrow> run \<Rightarrow> nat \<Rightarrow> child \<Rightarrow> instant \<Rightarrow> instant \<Rightarrow> reconciliation \<Rightarrow> tick_pc op" where
  "tick_reconciled L r i c now at rec = (case rec of
       RecPending _ _ \<Rightarrow> eret TickDone
     | RecHalt reason src corroborate \<Rightarrow>
         ebind (if src \<noteq> None \<or> corroborate
                then ebind (updateChild (rnId r) i [Broadcast] Broadcast now
                       (no_child_patch\<lparr>cpProvenance := chProvenance c, cpSource := src,
                          cpFailure := (if corroborate then Some reason else chFailure c)\<rparr>)) (\<lambda>_. eret ())
                else eret ()) (\<lambda>_.
         ebind (halt L (rnId r) reason at) (\<lambda>_. eret TickDone))
     | RecConfirmed src \<Rightarrow> record_resolution L r i now Confirmed src
     | RecExternal src \<Rightarrow> record_resolution L r i now ExternallyCompleted src)"

subsection \<open>After the driver materialized a child\<close>

definition tick_materialized ::
    "tx_lib \<Rightarrow> execution_control \<Rightarrow> run \<Rightarrow> nat \<Rightarrow> child \<Rightarrow> instant \<Rightarrow> instant \<Rightarrow> materialization \<Rightarrow> tick_pc op" where
  "tick_materialized L ctl r i c now at m = (case m of
       MatSkip reason prov \<Rightarrow>
         ebind (updateChild (rnId r) i [Pending] Skipped now
                 (no_child_patch\<lparr>cpProvenance := Some prov, cpFailure := Some reason\<rparr>)) (\<lambda>_.
         ebind (advanceCursor L (rnId r) (rnCursor r) (rnGasSpent r) now) (\<lambda>_. eret TickDone))
     | MatHalt reason \<Rightarrow> ebind (halt L (rnId r) reason at) (\<lambda>_. eret TickDone)
     | MatPlan p amount \<Rightarrow>
         ebind (elift (assertPlan r i c p amount)) (\<lambda>_.
         if int (rnGasSpent r) + txFeeUstx (matTransaction (planMaterial p))
              > int (rpGasBudget (rnRecipe r))
         then ebind (halt L (rnId r) ''The approved gas budget would be exceeded'' at) (\<lambda>_. eret TickDone)
         else
         ebind (materializeChild (rnId r) i p amount now) (\<lambda>stored.
         ebind (elift (assertExecutionAllowed ctl [chOperation stored])) (\<lambda>_.
         eret (TickRefusal r i p now)))))"

subsection \<open>At the signature boundary\<close>

definition tick_refusal_checked ::
    "tx_lib \<Rightarrow> execution_control \<Rightarrow> bool \<Rightarrow> run \<Rightarrow> nat \<Rightarrow> operation \<Rightarrow> plan \<Rightarrow> instant \<Rightarrow> instant
     \<Rightarrow> refusal_reason option \<Rightarrow> tick_pc op" where
  "tick_refusal_checked L ctl closed r i k p now at refusal =
     ebind (elift (assertDedicatedWallet refusal)) (\<lambda>_.
     ebind (serviceGet L (rnId r)) (\<lambda>beforeSign.
     if closed \<or> rnStatus beforeSign \<noteq> Running then eret TickDone
     else ebind (expireRunningRun L beforeSign at) (\<lambda>expired.
     if expired then eret TickDone
     else ebind (elift (assertExecutionAllowed ctl [k])) (\<lambda>_.
     eret (TickSign r i p now)))))"

definition attempt_index_of :: "txid \<Rightarrow> attempt list \<Rightarrow> nat option" where
  "attempt_index_of t as = (let k = length (takeWhile (\<lambda>a. atTxid a \<noteq> t) as) in
     if k < length as then Some k else None)"

definition reuseRejectedAttempt :: "string \<Rightarrow> nat \<Rightarrow> nat \<Rightarrow> attempt \<Rightarrow> instant \<Rightarrow> nat op" where
  "reuseRejectedAttempt rid i k a now =
     ebind (eguard (atState a = AttemptRejected) (RewardRunError RunConflict
             ''A signed transaction with this ID already exists and is not retryable'')) (\<lambda>_.
     ebind (updateAttempt rid i k Signed None now) (\<lambda>_. eret k))"

definition tick_signed :: "run \<Rightarrow> nat \<Rightarrow> plan \<Rightarrow> instant \<Rightarrow> signed_attempt \<Rightarrow> tick_pc op" where
  "tick_signed r i p now sg =
     ebind (eguard (int (sgFee sg) = txFeeUstx (matTransaction (planMaterial p)))
             (RewardRunError RunInvalid ''Signed child fee differs from its sealed plan'')) (\<lambda>_ s.
     ebind (case attempt_index_of (sgTxid sg) (attempts (rnId r) i s) of
              Some k \<Rightarrow> reuseRejectedAttempt (rnId r) i k (attempts (rnId r) i s ! k) now
            | None \<Rightarrow> insertAttempt (rnId r) i (sgTxid sg) (sgNonce sg) (sgFee sg) Signed now) (\<lambda>k.
     eret (TickBroadcast r i sg k now)) s)"

subsection \<open>After the broadcast\<close>

definition rejection_text :: "string option \<Rightarrow> string" where
  "rejection_text m = (case m of None \<Rightarrow> ''The node rejected the transaction'' | Some t \<Rightarrow> t)"

definition record_submission :: "run \<Rightarrow> nat \<Rightarrow> nat \<Rightarrow> attempt_state \<Rightarrow> txid \<Rightarrow> broadcast_result \<Rightarrow> instant \<Rightarrow> unit op" where
  "record_submission r i k st t res at =
     ebind (updateAttempt (rnId r) i k st (Some res) at) (\<lambda>_.
     ebind (updateChild (rnId r) i [Materialized] Broadcast at
             (no_child_patch\<lparr>cpTxid := Some t, cpProvenance := Some You\<rparr>)) (\<lambda>_. eret ()))"

definition tick_broadcasted ::
    "tx_lib \<Rightarrow> run \<Rightarrow> nat \<Rightarrow> signed_attempt \<Rightarrow> nat \<Rightarrow> instant \<Rightarrow> broadcast_result \<Rightarrow> tick_pc op" where
  "tick_broadcasted L r i sg k at res = (case res of
       BRejected t _ _ msg \<Rightarrow>
         ebind (updateAttempt (rnId r) i k AttemptRejected (Some res) at) (\<lambda>_.
         ebind (updateChild (rnId r) i [Materialized] ChildHalted at
                 (no_child_patch\<lparr>cpTxid := coalesce t (Some (sgTxid sg)),
                    cpFailure := Some (rejection_text msg)\<rparr>)) (\<lambda>_.
         ebind (halt L (rnId r) (rejection_text msg) at) (\<lambda>_. eret TickDone)))
     | BAccepted t _ \<Rightarrow>
         ebind (record_submission r i k AttemptAccepted t res at) (\<lambda>_. eret TickDone)
     | BAmbiguous t _ _ _ \<Rightarrow>
         ebind (record_submission r i k Ambiguous t res at) (\<lambda>_.
         ebind (serviceGet L (rnId r)) (\<lambda>current.
         ebind (halt L (rnId current) ''Broadcast outcome is ambiguous'' at) (\<lambda>_. eret TickDone))))"

subsection \<open>The handler around a tick\<close>

text \<open>
  \<open>#guardedTick\<close>: what an exception of a tick does to the store. \<open>Inr (Some reason)\<close> is a run left
  waiting for its sources, \<open>Inr None\<close> a run that was halted, or was not running any more.
\<close>

definition submission_may_have_started :: "string \<Rightarrow> run option \<Rightarrow> store \<Rightarrow> bool" where
  "submission_may_have_started rid current s = (case current of None \<Rightarrow> False
     | Some r \<Rightarrow> (case at_index (rnChildren r) (rnCursor r) of None \<Rightarrow> False
        | Some c \<Rightarrow> chStatus c = Materialized \<and> attempts rid (rnCursor r) s \<noteq> []))"

definition tick_failed :: "tx_lib \<Rightarrow> string \<Rightarrow> engine_error \<Rightarrow> instant \<Rightarrow> string option op" where
  "tick_failed L rid err at =
     ebind (getRun L rid) (\<lambda>current s.
       let running = (case current of None \<Rightarrow> False | Some r \<Rightarrow> rnStatus r = Running) in
       if running \<and> \<not> submission_may_have_started rid current s \<and> isRetryableChainReadError err
       then (Inr (Some (error_message err)), s)
       else if running then ebind (halt L rid (error_message err) at) (\<lambda>_. eret None) s
       else (Inr None, s))"

end
