(* ===== verification/Sweep_Store.thy ===== *)
theory Sweep_Store
  imports Run_Store
begin

text \<open>
  The durable state of gas-wallet sweeps (storage/gas-wallet-sweep-repository.ts): insertion, which
  takes the wallet's lease in the same transaction, and the patch update, which gives it back when
  the sweep reaches a terminal status. \<open>update\<close> does not look at the status it overwrites; what its
  callers must respect is \<open>revives\<close>.
\<close>

definition sweep_terminal :: "sweep_status \<Rightarrow> bool" where
  "sweep_terminal s \<longleftrightarrow> s \<in> {SwConfirmed, SwFailed, SwCancelled, SwExpired}"

definition sweep_row :: "store \<Rightarrow> string \<Rightarrow> sweep option" where
  "sweep_row s sid = row_find gsId sid (stSweeps s)"

text \<open>The table's CHECK constraints and the schema a row is read back through.\<close>

definition sweep_checks :: "sweep \<Rightarrow> bool" where
  "sweep_checks g \<longleftrightarrow> length (gsId g) = 36 \<and> length (spSha256 (gsPlan g)) = 64 \<and>
     (case gsTxid g of None \<Rightarrow> True | Some t \<Rightarrow> length t = 66)"

definition sweepRowSchema :: "tx_lib \<Rightarrow> sweep \<Rightarrow> bool" where
  "sweepRowSchema L g \<longleftrightarrow> isUuid L (gsId g) \<and> gsWallet g \<noteq> [] \<and>
     swRecipient (spMaterial (gsPlan g)) \<noteq> [] \<and> length (spSha256 (gsPlan g)) = 64 \<and>
     (case gsTxid g of None \<Rightarrow> True | Some t \<Rightarrow> indexBlockHashSchema t)"

definition getSweep :: "tx_lib \<Rightarrow> string \<Rightarrow> sweep option op" where
  "getSweep L sid = eread (\<lambda>s. case sweep_row s sid of None \<Rightarrow> Inr None
     | Some g \<Rightarrow> if sweepRowSchema L g then Inr (Some g) else Inl (OtherError ''ZodError''))"

definition getSweepPlan :: "string \<Rightarrow> sweep_plan option op" where
  "getSweepPlan sid = eread (\<lambda>s. case sweep_row s sid of None \<Rightarrow> Inr None
     | Some g \<Rightarrow> if gasWalletSweepPlanSchema (gsPlan g) then Inr (Some (gsPlan g))
                 else Inl (OtherError ''ZodError''))"

definition fresh_sweep :: "string \<Rightarrow> principal \<Rightarrow> sweep_plan \<Rightarrow> instant \<Rightarrow> sweep" where
  "fresh_sweep sid wallet p now = \<lparr>gsId = sid, gsStatus = SwPlanned, gsWallet = wallet, gsPlan = p,
     gsTxid = None, gsAmbiguous = False, gsSource = None, gsCreated = now,
     gsExpires = swExpiresAt (spMaterial p), gsApprovedAt = None, gsBroadcastAt = None,
     gsResolvedAt = None, gsBlockHeight = None, gsFailure = None, gsUpdated = now\<rparr>"

definition sweepBusy :: engine_error where
  "sweepBusy = RepositoryError AuthorizationBusy
     ''The gas wallet already has an active reward run or sweep''"

definition insertSweep :: "tx_lib \<Rightarrow> string \<Rightarrow> principal \<Rightarrow> sweep_plan \<Rightarrow> instant \<Rightarrow> sweep op" where
  "insertSweep L sid wallet p now =
     ebind (eguard (gasWalletSweepPlanSchema p) (OtherError ''ZodError'')) (\<lambda>_.
     ebind (eatomic (\<lambda>s.
       case lease_acquire wallet SweepKind sid now (stLeases s) of
         None \<Rightarrow> Inl sweepBusy
       | Some ls \<Rightarrow>
           if sweep_row s sid \<noteq> None then Inl sweepBusy
           else if \<not> sweep_checks (fresh_sweep sid wallet p now)
           then Inl (SqliteError ''CHECK constraint failed'')
           else Inr (s\<lparr>stLeases := ls, stSweeps := stSweeps s @ [fresh_sweep sid wallet p now]\<rparr>))) (\<lambda>_.
     ebind (getSweep L sid) (\<lambda>g. case g of
         None \<Rightarrow> ethrow (OtherError ''Gas wallet sweep did not persist'')
       | Some g \<Rightarrow> eret g)))"

text \<open>A patch: \<open>None\<close> is an absent key (\<open>undefined\<close>), \<open>Some None\<close> an explicit \<open>null\<close>.\<close>

record sweep_patch =
  gpStatus :: "sweep_status option"
  gpTxid :: "txid option option"
  gpAmbiguous :: "bool option"
  gpSource :: "execution_source option option"
  gpApprovedAt :: "instant option option"
  gpBroadcastAt :: "instant option option"
  gpResolvedAt :: "instant option option"
  gpBlockHeight :: "nat option option"
  gpFailure :: "string option option"

definition no_sweep_patch :: sweep_patch where
  "no_sweep_patch = \<lparr>gpStatus = None, gpTxid = None, gpAmbiguous = None, gpSource = None,
     gpApprovedAt = None, gpBroadcastAt = None, gpResolvedAt = None, gpBlockHeight = None,
     gpFailure = None\<rparr>"

definition patched :: "'a option \<Rightarrow> 'a \<Rightarrow> 'a" where
  "patched new old = (case new of None \<Rightarrow> old | Some v \<Rightarrow> v)"

definition apply_sweep_patch :: "sweep_patch \<Rightarrow> instant \<Rightarrow> sweep \<Rightarrow> sweep" where
  "apply_sweep_patch p now g = g\<lparr>gsUpdated := now,
     gsStatus := patched (gpStatus p) (gsStatus g),
     gsTxid := patched (gpTxid p) (gsTxid g),
     gsAmbiguous := patched (gpAmbiguous p) (gsAmbiguous g),
     gsApprovedAt := patched (gpApprovedAt p) (gsApprovedAt g),
     gsBroadcastAt := patched (gpBroadcastAt p) (gsBroadcastAt g),
     gsResolvedAt := patched (gpResolvedAt p) (gsResolvedAt g),
     gsBlockHeight := patched (gpBlockHeight p) (gsBlockHeight g),
     gsFailure := patched (gpFailure p) (gsFailure g),
     gsSource := patched (gpSource p) (gsSource g)\<rparr>"

definition patch_terminal :: "sweep_patch \<Rightarrow> bool" where
  "patch_terminal p = (case gpStatus p of None \<Rightarrow> False | Some st \<Rightarrow> sweep_terminal st)"

definition release_sweep :: "string \<Rightarrow> store \<Rightarrow> store" where
  "release_sweep sid s = s\<lparr>stLeases := lease_release SweepKind sid (stLeases s)\<rparr>"

definition write_sweep :: "string \<Rightarrow> sweep_patch \<Rightarrow> instant \<Rightarrow> store \<Rightarrow> store" where
  "write_sweep sid p now s =
     s\<lparr>stSweeps := row_update gsId sid (apply_sweep_patch p now) (stSweeps s)\<rparr>"

definition updateSweep :: "tx_lib \<Rightarrow> string \<Rightarrow> sweep_patch \<Rightarrow> instant \<Rightarrow> sweep op" where
  "updateSweep L sid p now =
     ebind (eatomic (\<lambda>s.
       if list_ex (\<lambda>g. gsId g = sid \<and> \<not> sweep_checks (apply_sweep_patch p now g)) (stSweeps s)
       then Inl (SqliteError ''CHECK constraint failed'')
       else Inr (if patch_terminal p then release_sweep sid (write_sweep sid p now s)
                 else write_sweep sid p now s))) (\<lambda>_.
     ebind (getSweep L sid) (\<lambda>g. case g of
         None \<Rightarrow> ethrow (OtherError ''Gas wallet sweep does not exist'')
       | Some g \<Rightarrow> eret g))"

definition sweep_newest_first :: "sweep \<Rightarrow> sweep \<Rightarrow> bool" where
  "sweep_newest_first a b \<longleftrightarrow>
     gsCreated b < gsCreated a \<or> (gsCreated a = gsCreated b \<and> gsId b \<le> gsId a)"

definition read_sweep :: "tx_lib \<Rightarrow> sweep \<Rightarrow> engine_error + sweep" where
  "read_sweep L g = (if sweepRowSchema L g then Inr g else Inl (OtherError ''ZodError''))"

definition listSweeps :: "tx_lib \<Rightarrow> int \<Rightarrow> sweep list op" where
  "listSweeps L limit = eread (\<lambda>s.
     mapr (read_sweep L) (take (bounded_limit limit) (sort_by sweep_newest_first (stSweeps s))))"

definition activeSweep :: "tx_lib \<Rightarrow> sweep option op" where
  "activeSweep L = eread (\<lambda>s.
     case sort_by (\<lambda>a b. gsCreated b \<le> gsCreated a)
        (filter (\<lambda>g. gsStatus g \<in> {SwPlanned, SwBroadcast}) (stSweeps s)) of
       [] \<Rightarrow> Inr None
     | g # _ \<Rightarrow> map_sum id Some (read_sweep L g))"

text \<open>An update that turns a finished sweep back into an active one.\<close>

definition revives :: "sweep_patch \<Rightarrow> sweep \<Rightarrow> bool" where
  "revives p g \<longleftrightarrow> sweep_terminal (gsStatus g) \<and>
     \<not> sweep_terminal (patched (gpStatus p) (gsStatus g))"

end
