(* ===== verification/Run_Invariant.thy ===== *)
theory Run_Invariant
  imports Run_Tick Sweep_Store
begin

text \<open>
  The invariant of the durable state and what each repository operation does to it.

  \<open>run_inv\<close> is what a stored run satisfies on its own, \<open>lease_inv\<close> ties the lease table to the
  runs and sweeps that are not finished, \<open>store_inv\<close> is both for the whole store. The operations are
  given by weakest-precondition rules over it, with the frame \<open>run_frame\<close>: what an operation of
  another handler leaves unchanged of a run that a tick is working on.
\<close>

subsection \<open>One run\<close>

definition live :: "child \<Rightarrow> attempt list" where
  "live c = filter (\<lambda>a. atState a \<noteq> AttemptRejected) (chAttempts c)"

definition child_inv :: "run \<Rightarrow> nat \<Rightarrow> child \<Rightarrow> bool" where
  "child_inv r i c \<longleftrightarrow>
     (\<forall>a \<in> set (chAttempts c). atFee a \<le> rpFeeCap (rnRecipe r)) \<and>
     (chStatus c \<in> {Pending, ChildHalted, Skipped} \<longrightarrow> live c = []) \<and>
     (chStatus c \<in> {Materialized, Broadcast} \<longrightarrow> length (live c) \<le> 1) \<and>
     (chStatus c \<notin> {Pending, Skipped} \<longrightarrow>
        (\<exists>p. chPlan c = Some p \<and> assertPlan r i c p (chAmount c) = Inr ())) \<and>
     (chStatus c \<in> {Pending, Skipped} \<longrightarrow> chAmount c = None) \<and>
     (chStatus c = Broadcast \<longrightarrow> chTxid c \<noteq> None)"

definition recipe_inv :: "recipe \<Rightarrow> bool" where
  "recipe_inv R \<longleftrightarrow>
     rpGasBudget R = rpFeeCap R * length (rpChildren R) \<and>
     rpReviewedTotal R = sum_list (map (\<lambda>c. the (rcMaxAmount c)) (payments (rpChildren R)))"

definition untouched :: "child \<Rightarrow> bool" where
  "untouched c \<longleftrightarrow> chStatus c = Pending \<and> chAttempts c = []"

definition run_inv :: "tx_lib \<Rightarrow> run \<Rightarrow> bool" where
  "run_inv L r \<longleftrightarrow>
     sealed_run L r \<and> recipe_inv (rnRecipe r) \<and>
     rnCursor r \<le> length (rnChildren r) \<and>
     rnGasSpent r \<le> rpFeeCap (rnRecipe r) * rnCursor r \<and>
     (\<forall>i < length (rnChildren r). child_inv r i (rnChildren r ! i)) \<and>
     (\<forall>i < rnCursor r. child_complete (chStatus (rnChildren r ! i))) \<and>
     (\<forall>i < length (rnChildren r). rnCursor r < i \<longrightarrow> untouched (rnChildren r ! i)) \<and>
     (rnStatus r = Completed \<longrightarrow> rnCursor r = length (rnChildren r)) \<and>
     (rnApprovedAt r = None \<longrightarrow> (\<forall>c \<in> set (rnChildren r). untouched c)) \<and>
     run_checks r"

lemma run_invD:
  assumes "run_inv L r"
  shows run_inv_sealed: "sealed_run L r" and run_inv_recipe: "recipe_inv (rnRecipe r)"
    and run_inv_cursor: "rnCursor r \<le> length (rnChildren r)"
    and run_inv_gas: "rnGasSpent r \<le> rpFeeCap (rnRecipe r) * rnCursor r"
    and run_inv_child: "i < length (rnChildren r) \<Longrightarrow> child_inv r i (rnChildren r ! i)"
    and run_inv_before: "i < rnCursor r \<Longrightarrow> child_complete (chStatus (rnChildren r ! i))"
    and run_inv_after: "i < length (rnChildren r) \<Longrightarrow> rnCursor r < i \<Longrightarrow> untouched (rnChildren r ! i)"
    and run_inv_completed: "rnStatus r = Completed \<Longrightarrow> rnCursor r = length (rnChildren r)"
    and run_inv_approved: "rnApprovedAt r = None \<Longrightarrow> c \<in> set (rnChildren r) \<Longrightarrow> untouched c"
    and run_inv_checks: "run_checks r"
  using assms by (auto simp: run_inv_def)

text \<open>The parts of a run that no operation writes, and the parts of a child.\<close>

definition same_seal :: "run \<Rightarrow> run \<Rightarrow> bool" where
  "same_seal r r' \<longleftrightarrow> rnId r' = rnId r \<and> rnWallet r' = rnWallet r \<and>
     rnRecipeSha r' = rnRecipeSha r \<and> rnRecipe r' = rnRecipe r"

definition same_child_seal :: "child \<Rightarrow> child \<Rightarrow> bool" where
  "same_child_seal c c' \<longleftrightarrow> chOperation c' = chOperation c \<and> chAccountKey c' = chAccountKey c \<and>
     chMaxAmount c' = chMaxAmount c"

lemma assertPlan_seal:
  "same_seal r r' \<Longrightarrow> chOperation c' = chOperation c \<Longrightarrow> assertPlan r' i c' p a = assertPlan r i c p a"
  by (simp add: assertPlan_def same_seal_def)

lemma child_inv_seal: "same_seal r r' \<Longrightarrow> child_inv r' i c = child_inv r i c"
  using assertPlan_seal[of r r' c c] by (simp add: child_inv_def same_seal_def)

lemma sealed_run_seal:
  assumes "sealed_run L r" and "same_seal r r'" and "rnChildren r' = rnChildren r"
  shows "sealed_run L r'"
  using assms unfolding sealed_run_def same_seal_def recipe_children_match_def by metis

lemma sealed_run_set_child:
  assumes "sealed_run L r" and "i < length (rnChildren r)" and "same_child_seal (rnChildren r ! i) c"
  shows "sealed_run L (r\<lparr>rnChildren := (rnChildren r)[i := c]\<rparr>)"
  using assms
  by (auto simp: sealed_run_def recipe_children_match_def list_all_iff recipe_child_matches_def
      same_child_seal_def at_index_def nth_list_update)

lemma run_inv_set_cursor:
  assumes inv: "run_inv L r" and i: "rnCursor r < length (rnChildren r)"
    and seal: "same_child_seal (rnChildren r ! rnCursor r) c"
    and c: "child_inv r (rnCursor r) c" and appr: "rnApprovedAt r \<noteq> None"
  shows "run_inv L (r\<lparr>rnChildren := (rnChildren r)[rnCursor r := c]\<rparr>)"
proof -
  let ?r = "r\<lparr>rnChildren := (rnChildren r)[rnCursor r := c]\<rparr>"
  have same: "same_seal r ?r" by (simp add: same_seal_def)
  have st: "rnStatus r \<noteq> Completed" using i run_inv_completed[OF inv] by auto
  have ch: "child_inv ?r j (rnChildren ?r ! j)" if "j < length (rnChildren r)" for j
    using that c run_inv_child[OF inv that]
    by (cases "j = rnCursor r") (simp_all add: child_inv_seal[OF same])
  have "run_checks ?r" using run_inv_checks[OF inv] by (simp add: run_checks_def)
  then show ?thesis
    using sealed_run_set_child[OF run_inv_sealed[OF inv] i seal] ch appr st i
      run_inv_recipe[OF inv] run_inv_gas[OF inv] run_inv_before[OF inv] run_inv_after[OF inv]
    unfolding run_inv_def by (auto simp: nth_list_update)
qed

lemma run_inv_advance:
  assumes inv: "run_inv L r" and i: "rnCursor r < length (rnChildren r)"
    and fin: "child_complete (chStatus (rnChildren r ! rnCursor r))"
    and gas: "g \<le> rpFeeCap (rnRecipe r) * Suc (rnCursor r)"
  shows "run_inv L (r\<lparr>rnCursor := rnCursor r + 1, rnGasSpent := g, rnUpdated := now\<rparr>)" (is "run_inv L ?r")
proof -
  have same: "same_seal r ?r" by (simp add: same_seal_def)
  have st: "rnStatus r \<noteq> Completed" using i run_inv_completed[OF inv] by auto
  have bef: "child_complete (chStatus (rnChildren r ! j))" if "j < Suc (rnCursor r)" for j
    using that fin run_inv_before[OF inv, of j] by (cases "j = rnCursor r") auto
  have ch: "child_inv ?r j (rnChildren r ! j)" if "j < length (rnChildren r)" for j
    using run_inv_child[OF inv that] by (simp only: child_inv_seal[OF same])
  have "run_checks ?r" using run_inv_checks[OF inv] by (simp add: run_checks_def)
  then show ?thesis
    using sealed_run_seal[OF run_inv_sealed[OF inv] same] st i gas bef run_inv_recipe[OF inv]
      ch run_inv_after[OF inv] run_inv_approved[OF inv]
    unfolding run_inv_def by auto
qed

lemma run_inv_patch:
  assumes inv: "run_inv L r" and ck: "run_checks (apply_patch to now p r)"
    and compl: "to = Completed \<Longrightarrow> rnCursor r = length (rnChildren r)"
  shows "run_inv L (apply_patch to now p r)" (is "run_inv L ?r")
proof -
  have same: "same_seal r ?r" by (simp add: same_seal_def apply_patch_def)
  have eq: "rnChildren ?r = rnChildren r" "rnCursor ?r = rnCursor r" "rnGasSpent ?r = rnGasSpent r"
    "rnStatus ?r = to" "rnRecipe ?r = rnRecipe r"
    "rnApprovedAt ?r = None \<Longrightarrow> rnApprovedAt r = None"
    by (simp_all add: apply_patch_def)
  show ?thesis
    using inv ck compl sealed_run_seal[OF run_inv_sealed[OF inv] same eq(1)]
    unfolding run_inv_def eq(1-5) child_inv_seal[OF same] using eq(6) by auto
qed

subsection \<open>The store\<close>

text \<open>Who may hold the lease of a wallet: a run or a sweep of that wallet that is not finished.\<close>

fun owner_active :: "store \<Rightarrow> principal \<Rightarrow> auth_kind \<times> string \<Rightarrow> bool" where
  "owner_active s w (RewardRunKind, rid) \<longleftrightarrow>
     (\<exists>r \<in> set (stRuns s). rnId r = rid \<and> rnWallet r = w \<and> \<not> terminal_run (rnStatus r))"
| "owner_active s w (SweepKind, sid) \<longleftrightarrow>
     (\<exists>g \<in> set (stSweeps s). gsId g = sid \<and> gsWallet g = w \<and> \<not> sweep_terminal (gsStatus g))"

definition lease_inv :: "store \<Rightarrow> bool" where
  "lease_inv s \<longleftrightarrow> lease_ok (stLeases s) \<and>
     (\<forall>w x. lease_holder (stLeases s) w = Some x \<longleftrightarrow> owner_active s w x)"

definition store_inv :: "tx_lib \<Rightarrow> store \<Rightarrow> bool" where
  "store_inv L s \<longleftrightarrow> distinct (map rnId (stRuns s)) \<and> distinct (map gsId (stSweeps s)) \<and>
     distinct (attempt_txids s) \<and> (\<forall>r \<in> set (stRuns s). run_inv L r) \<and> lease_inv s"

lemma store_inv_run: "store_inv L s \<Longrightarrow> run_row s rid = Some r \<Longrightarrow> run_inv L r \<and> rnId r = rid \<and> r \<in> set (stRuns s)"
  by (auto simp: store_inv_def run_row_def dest: row_find_SomeD)

lemma run_row_unique:
  "store_inv L s \<Longrightarrow> r \<in> set (stRuns s) \<Longrightarrow> run_row s (rnId r) = Some r"
  by (simp add: store_inv_def run_row_def row_find_unique)

definition upd_run :: "string \<Rightarrow> (run \<Rightarrow> run) \<Rightarrow> store \<Rightarrow> store" where
  "upd_run rid f s = s\<lparr>stRuns := row_update rnId rid f (stRuns s)\<rparr>"

definition run_txids :: "run \<Rightarrow> txid list" where
  "run_txids r = concat (map (\<lambda>c. map atTxid (chAttempts c)) (rnChildren r))"

lemma attempt_txids_runs: "attempt_txids s = concat (map run_txids (stRuns s))"
  unfolding attempt_txids_def run_txids_def[abs_def] ..

lemma upd_run_fields [simp]:
  "stLeases (upd_run rid f s) = stLeases s" "stSweeps (upd_run rid f s) = stSweeps s"
  "stPreps (upd_run rid f s) = stPreps s" "stRuns (upd_run rid f s) = row_update rnId rid f (stRuns s)"
  by (simp_all add: upd_run_def)

lemma run_row_upd [simp]:
  "(\<And>r. rnId (f r) = rnId r) \<Longrightarrow>
   run_row (upd_run rid f s) rid' = (if rid' = rid then map_option f (run_row s rid) else run_row s rid')"
  by (simp add: run_row_def row_find_update)

lemma in_upd_run:
  assumes "store_inv L s" and "run_row s rid = Some r"
  shows "r' \<in> set (stRuns (upd_run rid f s)) \<longleftrightarrow> r' = f r \<or> (r' \<in> set (stRuns s) \<and> rnId r' \<noteq> rid)"
  using assms in_row_update_unique[of rnId "stRuns s" rid r r' f]
  by (simp add: store_inv_def run_row_def)

lemma owner_active_upd:
  assumes inv: "store_inv L s" and r: "run_row s rid = Some r"
    and f: "rnId (f r) = rnId r" "rnWallet (f r) = rnWallet r"
  shows "owner_active (upd_run rid f s) w x \<longleftrightarrow>
    (if x = (RewardRunKind, rid) then w = rnWallet r \<and> \<not> terminal_run (rnStatus (f r))
     else owner_active s w x)"
proof -
  have id: "rnId r = rid" using store_inv_run[OF inv r] by simp
  obtain k i where x: "x = (k, i)" by (cases x)
  show ?thesis
  proof (cases k)
    case RewardRunKind
    then show ?thesis
      using f id x unfolding x RewardRunKind owner_active.simps Bex_def in_upd_run[OF inv r]
      by auto
  qed (simp add: x)
qed

lemma store_inv_upd:
  assumes inv: "store_inv L s" and r: "run_row s rid = Some r"
    and f: "\<And>r. rnId (f r) = rnId r" "\<And>r. rnWallet (f r) = rnWallet r" "run_inv L (f r)"
    and tx: "distinct (attempt_txids (upd_run rid f s))"
    and trm: "terminal_run (rnStatus (f r)) = terminal_run (rnStatus r)"
  shows "store_inv L (upd_run rid f s)"
proof -
  have id: "rnId r = rid" and mem: "r \<in> set (stRuns s)" using store_inv_run[OF inv r] by simp_all
  have own: "owner_active s w (RewardRunKind, rid) \<longleftrightarrow> w = rnWallet r \<and> \<not> terminal_run (rnStatus r)" for w
    using mem id run_row_unique[OF inv] r by (metis option.inject owner_active.simps(1))
  have "owner_active (upd_run rid f s) w x = owner_active s w x" for w x
    using own[of w] trm by (simp add: owner_active_upd[where L = L and s = s and r = r and f = f, OF inv r f(1) f(2)])
  moreover have "\<forall>r' \<in> set (stRuns (upd_run rid f s)). run_inv L r'"
    using f(3) inv unfolding Ball_def in_upd_run[OF inv r] by (auto simp: store_inv_def)
  ultimately show ?thesis
    using inv tx f(1) by (simp add: store_inv_def lease_inv_def row_update_keys)
qed

lemma store_inv_upd_release:
  assumes inv: "store_inv L s" and r: "run_row s rid = Some r"
    and f: "\<And>r. rnId (f r) = rnId r" "\<And>r. rnWallet (f r) = rnWallet r" "run_inv L (f r)"
    and tx: "distinct (attempt_txids (upd_run rid f s))"
    and trm: "terminal_run (rnStatus (f r))"
  shows "store_inv L (release_run rid (upd_run rid f s))"
proof -
  have ok: "lease_ok (stLeases s)" and
    own: "\<And>w x. lease_holder (stLeases s) w = Some x \<longleftrightarrow> owner_active s w x"
    using inv unfolding store_inv_def lease_inv_def by blast+
  have same: "owner_active (release_run rid t) = owner_active t" for t
    by (intro ext, rename_tac w x, case_tac "(t, w, x)" rule: owner_active.cases)
      (simp_all add: release_run_def)
  have "lease_holder (lease_release RewardRunKind rid (stLeases s)) w = Some x \<longleftrightarrow>
      owner_active (upd_run rid f s) w x" for w x
    using own[of w x] trm
    by (auto simp: leases.holder_release[OF ok] owner_active_upd[where L = L and s = s and r = r and f = f, OF inv r f(1) f(2)])
  moreover have "\<forall>r' \<in> set (stRuns (upd_run rid f s)). run_inv L r'"
    using f(3) inv unfolding Ball_def in_upd_run[OF inv r] by (auto simp: store_inv_def)
  ultimately show ?thesis
    using inv tx f(1) leases.invar_release[OF ok] unfolding store_inv_def lease_inv_def same
    by (simp add: release_run_def row_update_keys attempt_txids_def)
qed

subsection \<open>Transaction ids of the attempts\<close>

definition upd_child :: "nat \<Rightarrow> (child \<Rightarrow> child) \<Rightarrow> run \<Rightarrow> run" where
  "upd_child i f r = r\<lparr>rnChildren := (rnChildren r)[i := f (rnChildren r ! i)]\<rparr>"

lemma update_child_row_eq: "update_child_row rid i f = upd_run rid (upd_child i f)"
  by (simp add: fun_eq_iff update_child_row_def upd_run_def upd_child_def[abs_def])

lemma upd_child_fields [simp]:
  "rnId (upd_child i f r) = rnId r" "rnWallet (upd_child i f r) = rnWallet r"
  "rnStatus (upd_child i f r) = rnStatus r" "rnCursor (upd_child i f r) = rnCursor r"
  "rnGasSpent (upd_child i f r) = rnGasSpent r" "rnRecipe (upd_child i f r) = rnRecipe r"
  "rnApprovedAt (upd_child i f r) = rnApprovedAt r" "rnRecipeSha (upd_child i f r) = rnRecipeSha r"
  "rnChildren (upd_child i f r) = (rnChildren r)[i := f (rnChildren r ! i)]"
  by (simp_all add: upd_child_def)

lemma concat_map_update:
  "g (f (xs ! i)) = g (xs ! i) \<Longrightarrow> concat (map g (xs[i := f (xs ! i)])) = concat (map g xs)"
  by (cases "i < length xs") (simp_all add: map_update list_update_beyond, metis list_update_id nth_map)

lemma run_txids_upd_child:
  assumes "\<And>c. map atTxid (chAttempts (f c)) = map atTxid (chAttempts c)"
  shows "run_txids (upd_child i f r) = run_txids r"
  unfolding run_txids_def upd_child_fields by (rule concat_map_update) (rule assms)

lemma attempt_txids_upd:
  "(\<And>r. run_txids (f r) = run_txids r) \<Longrightarrow> attempt_txids (upd_run rid f s) = attempt_txids s"
  by (simp add: attempt_txids_runs row_update_def comp_def if_distrib cong: if_cong)

lemma attempt_txids_insert:
  assumes inv: "store_inv L s" and r: "run_row s rid = Some r" and i: "i < length (rnChildren r)"
    and new: "t \<notin> set (attempt_txids s)"
    and f: "map atTxid (chAttempts (f (rnChildren r ! i))) = map atTxid (chAttempts (rnChildren r ! i)) @ [t]"
  shows "distinct (attempt_txids (upd_run rid (upd_child i f) s))"
proof -
  have id: "rnId r = rid" and mem: "r \<in> set (stRuns s)" using store_inv_run[OF inv r] by simp_all
  from mem obtain as bs where runs: "stRuns s = as @ r # bs" by (meson split_list)
  with inv id have other: "rid \<notin> rnId ` set as" "rid \<notin> rnId ` set bs" by (auto simp: store_inv_def)
  have upd: "stRuns (upd_run rid (upd_child i f) s) = as @ upd_child i f r # bs"
    using id row_update_other[OF other(1)] row_update_other[OF other(2)]
    by (simp add: runs row_update_def)
  have cs: "rnChildren r = take i (rnChildren r) @ rnChildren r ! i # drop (Suc i) (rnChildren r)"
    using i by (rule id_take_nth_drop)
  have txs: "run_txids (upd_child i f r) =
      concat (map (\<lambda>c. map atTxid (chAttempts c)) (take i (rnChildren r))) @
      (map atTxid (chAttempts (rnChildren r ! i)) @ [t]) @
      concat (map (\<lambda>c. map atTxid (chAttempts c)) (drop (Suc i) (rnChildren r)))"
    using i f by (simp add: run_txids_def upd_conv_take_nth_drop)
  have old: "run_txids r =
      concat (map (\<lambda>c. map atTxid (chAttempts c)) (take i (rnChildren r))) @
      map atTxid (chAttempts (rnChildren r ! i)) @
      concat (map (\<lambda>c. map atTxid (chAttempts c)) (drop (Suc i) (rnChildren r)))"
    unfolding run_txids_def by (subst cs) simp
  have "distinct (attempt_txids s)" using inv by (simp add: store_inv_def)
  then show ?thesis
    using new unfolding attempt_txids_runs upd runs map_append concat_append list.map concat.simps txs old
    by auto
qed

subsection \<open>What the operations do to a run\<close>

definition run_at :: "tx_lib \<Rightarrow> string \<Rightarrow> run \<Rightarrow> store \<Rightarrow> bool" where
  "run_at L rid r s \<longleftrightarrow> store_inv L s \<and> run_row s rid = Some r"

lemma run_atD: "run_at L rid r s \<Longrightarrow> store_inv L s \<and> run_row s rid = Some r \<and> run_inv L r \<and> rnId r = rid"
  by (auto simp: run_at_def dest: store_inv_run)

definition same_work :: "run \<Rightarrow> run \<Rightarrow> bool" where
  "same_work r r' \<longleftrightarrow> same_seal r r' \<and> rnCursor r' = rnCursor r \<and>
     length (rnChildren r') = length (rnChildren r) \<and>
     (rnApprovedAt r \<noteq> None \<longrightarrow> rnApprovedAt r' \<noteq> None) \<and>
     (\<forall>i < length (rnChildren r). chStatus (rnChildren r ! i) \<in> {Materialized, Broadcast} \<longrightarrow>
        rnChildren r' ! i = rnChildren r ! i)"

lemma same_work_refl [simp]: "same_work r r"
  by (simp add: same_work_def same_seal_def)

lemma same_work_patch [simp]: "same_work r (apply_patch to now p r)"
  by (simp add: same_work_def same_seal_def apply_patch_def)

definition run_frame :: "store \<Rightarrow> store \<Rightarrow> bool" where
  "run_frame s t \<longleftrightarrow> (\<forall>rid r. run_row s rid = Some r \<longrightarrow> (\<exists>r'. run_row t rid = Some r' \<and> same_work r r'))"

lemma run_frame_refl [simp]: "run_frame s s"
  by (simp add: run_frame_def)

lemma same_work_trans: "same_work r r' \<Longrightarrow> same_work r' r'' \<Longrightarrow> same_work r r''"
  by (auto simp: same_work_def same_seal_def)

lemma run_frame_trans: "run_frame s t \<Longrightarrow> run_frame t u \<Longrightarrow> run_frame s u"
  unfolding run_frame_def by (meson same_work_trans)

lemma run_frame_upd:
  assumes "\<And>r. rnId (f r) = rnId r" and "\<And>r. run_row s rid = Some r \<Longrightarrow> same_work r (f r)"
  shows "run_frame s (upd_run rid f s)"
  using assms by (auto simp: run_frame_def)

lemma run_row_release [simp]: "run_row (release_run rid s) = run_row s"
  by (simp add: fun_eq_iff run_row_def release_run_def)

lemma getRun_cases:
  "wp (getRun L rid) Q E s \<longleftrightarrow>
     (case run_row s rid of None \<Rightarrow> Q None s
      | Some r \<Rightarrow> if rewardRunSchema L r then Q (Some r) s else E s)"
  by (simp add: getRun_def split: option.splits)

lemma wp_requireRun:
  "(\<And>r. run_row s rid = Some r \<Longrightarrow> rewardRunSchema L r \<Longrightarrow> Q r s) \<Longrightarrow> E s \<Longrightarrow> wp (requireRun L rid) Q E s"
  by (simp add: requireRun_def getRun_cases split: option.splits)

lemma wp_serviceGet:
  "(\<And>r. run_row s rid = Some r \<Longrightarrow> rewardRunSchema L r \<Longrightarrow> Q r s) \<Longrightarrow> E s \<Longrightarrow> wp (serviceGet L rid) Q E s"
  by (simp add: serviceGet_def getRun_cases assertSealedRun_def guardr_def split: option.splits)

lemma requireRun_fst:
  "fst (requireRun L rid s) = (case run_row s rid of
       None \<Rightarrow> Inl (RepositoryError RepoRunNotFound ''Reward run does not exist'')
     | Some r \<Rightarrow> if rewardRunSchema L r then Inr r else Inl (OtherError ''ZodError''))"
  by (simp add: requireRun_def getRun_def monad_defs split: option.splits)

definition transitioned :: "string \<Rightarrow> run_status \<Rightarrow> instant \<Rightarrow> transition_patch \<Rightarrow> store \<Rightarrow> store" where
  "transitioned rid to now p s = (let t = upd_run rid (apply_patch to now p) s in
     if terminal_run to then release_run rid t else t)"

lemma transition_row [simp]:
  "run_row (transitioned rid to now p s) rid' =
     (if rid' = rid then map_option (apply_patch to now p) (run_row s rid) else run_row s rid')"
  by (simp add: transitioned_def Let_def apply_patch_def)

lemma transition_inv:
  assumes inv: "store_inv L s" and r: "run_row s rid = Some r" and fr: "\<not> terminal_run (rnStatus r)"
    and ck: "run_checks (apply_patch to now p r)"
    and compl: "to = Completed \<Longrightarrow> rnCursor r = length (rnChildren r)"
  shows "store_inv L (transitioned rid to now p s)" and "run_frame s (transitioned rid to now p s)"
proof -
  let ?f = "apply_patch to now p"
  have f: "rnId (?f r) = rnId r" "rnWallet (?f r) = rnWallet r" for r by (simp_all add: apply_patch_def)
  have i: "run_inv L (?f r)" using run_inv_patch[OF _ ck compl] store_inv_run[OF inv r] by simp
  have "attempt_txids (upd_run rid ?f s) = attempt_txids s"
    by (rule attempt_txids_upd) (simp add: run_txids_def apply_patch_def)
  with inv have tx: "distinct (attempt_txids (upd_run rid ?f s))" by (simp add: store_inv_def)
  show "store_inv L (transitioned rid to now p s)"
    using store_inv_upd[OF inv r f i tx] store_inv_upd_release[OF inv r f i tx] fr
    by (simp add: transitioned_def Let_def apply_patch_def)
  show "run_frame s (transitioned rid to now p s)"
    by (auto simp: run_frame_def)
qed

lemma wp_transition:
  assumes inv: "store_inv L s" and fr: "list_all (\<lambda>x. \<not> terminal_run x) from"
    and compl: "\<And>r. to = Completed \<Longrightarrow> run_row s rid = Some r \<Longrightarrow> rnCursor r = length (rnChildren r)"
    and Q: "\<And>r t. run_row s rid = Some r \<Longrightarrow> rnStatus r \<in> set from \<Longrightarrow>
      t = transitioned rid to now p s \<Longrightarrow> run_at L rid (apply_patch to now p r) t \<Longrightarrow> run_frame s t \<Longrightarrow>
      Q (apply_patch to now p r) t"
    and E: "E s"
  shows "wp (transition L rid from to now p) Q E s"
proof (cases "run_row s rid")
  case None
  then show ?thesis using E unfolding transition_def wp_ebind wp_eatomic by (simp add: requireRun_fst)
next
  case (Some r)
  note row = this
  have ok: "Q (apply_patch to now p r) (transitioned rid to now p s)"
    if st: "rnStatus r \<in> set from" and ck: "run_checks (apply_patch to now p r)"
  proof -
    have "\<not> terminal_run (rnStatus r)" using fr st by (simp add: list_all_iff)
    from transition_inv[OF inv row this ck compl[OF _ row]] show ?thesis
      using row by (intro Q[OF row st refl]) (simp_all add: run_at_def)
  qed
  have upd: "s\<lparr>stRuns := row_update rnId rid (apply_patch to now p) (stRuns s)\<rparr> =
      upd_run rid (apply_patch to now p) s" by (simp add: upd_run_def)
  show ?thesis
  proof (cases "rewardRunSchema L r \<and> rnStatus r \<in> set from \<and> run_checks (apply_patch to now p r)
      \<and> rewardRunSchema L (apply_patch to now p r)")
    case True
    have "wp (requireRun L rid) Q E (transitioned rid to now p s)"
      using True ok row by (simp add: requireRun_def getRun_def)
    then show ?thesis
      using True row unfolding transition_def wp_ebind wp_eatomic
      by (simp add: requireRun_fst upd Let_def transitioned_def split: if_splits)
  next
    case False
    then show ?thesis
      using E row unfolding transition_def wp_ebind wp_eatomic by (auto simp: requireRun_fst)
  qed
qed

subsection \<open>What the operations do to a child\<close>

lemma upd_child_run_at:
  assumes at: "run_at L rid r s" and inv: "run_inv L (upd_child i f r)"
    and tx: "distinct (attempt_txids (upd_run rid (upd_child i f) s))"
  shows "run_at L rid (upd_child i f r) (upd_run rid (upd_child i f) s)"
proof -
  from at have st: "store_inv L s" and row: "run_row s rid = Some r" by (simp_all add: run_at_def)
  have "store_inv L (upd_run rid (upd_child i f) s)"
    by (rule store_inv_upd[OF st row _ _ inv tx]) simp_all
  with row show ?thesis by (simp add: run_at_def)
qed

lemma same_txids:
  assumes "run_at L rid r s" and "\<And>c. map atTxid (chAttempts (f c)) = map atTxid (chAttempts c)"
  shows "distinct (attempt_txids (upd_run rid (upd_child i f) s))"
  using assms by (simp add: attempt_txids_upd run_txids_upd_child run_at_def store_inv_def)

lemma child_row_at: "run_at L rid r s \<Longrightarrow> child_row s rid i = at_index (rnChildren r) i"
  by (simp add: child_row_def run_at_def)

lemma attempts_at:
  "run_at L rid r s \<Longrightarrow> i < length (rnChildren r) \<Longrightarrow> attempts rid i s = chAttempts (rnChildren r ! i)"
  by (simp add: attempts_def child_row_at at_index_def)

lemma wp_requireChild:
  assumes "run_at L rid r s" and "i < length (rnChildren r) \<Longrightarrow> Q (rnChildren r ! i) s" and "E s"
  shows "wp (requireChild rid i) Q E s"
  using assms by (simp add: requireChild_def child_row_at at_index_def)

lemma wp_write_child:
  assumes at: "run_at L rid r s" and i: "i < length (rnChildren r)"
    and tx: "\<And>c. map atTxid (chAttempts (f c)) = map atTxid (chAttempts c)"
    and inv: "run_inv L (upd_child i f r)"
    and Q: "\<And>t. t = upd_run rid (upd_child i f) s \<Longrightarrow> run_at L rid (upd_child i f r) t \<Longrightarrow> Q () t"
    and E: "E s"
  shows "wp (write_child rid i f) Q E s"
  using i Q[OF refl upd_child_run_at[OF at inv same_txids[OF at tx]]] E
  by (simp add: write_child_def child_row_at[OF at] at_index_def update_child_row_eq)

lemma wp_updateChild:
  assumes at: "run_at L rid r s"
    and f: "f = (\<lambda>c. c\<lparr>chStatus := to, chTxid := coalesce (cpTxid p) (chTxid c),
       chProvenance := cpProvenance p, chFailure := cpFailure p,
       chSource := coalesce (cpSource p) (chSource (rnChildren r ! i)), chUpdated := now\<rparr>)"
    and inv: "i < length (rnChildren r) \<Longrightarrow> chStatus (rnChildren r ! i) \<in> set from \<Longrightarrow>
      run_inv L (upd_child i f r)"
    and Q: "\<And>t. i < length (rnChildren r) \<Longrightarrow> chStatus (rnChildren r ! i) \<in> set from \<Longrightarrow>
      run_at L rid (upd_child i f r) t \<Longrightarrow> Q (f (rnChildren r ! i)) t"
    and E: "\<And>t. run_at L rid r t \<Longrightarrow> E t"
  shows "wp (updateChild rid i from to now p) Q E s"
proof -
  have w: "wp (write_child rid i f) (\<lambda>a. wp (requireChild rid i) Q E) E s"
    if i: "i < length (rnChildren r)" and st: "chStatus (rnChildren r ! i) \<in> set from"
  proof (rule wp_write_child[OF at i])
    show "run_inv L (upd_child i f r)" by (rule inv[OF i st])
    show "E s" by (rule E[OF at])
    show "map atTxid (chAttempts (f c)) = map atTxid (chAttempts c)" for c by (simp add: f)
    fix t
    assume t: "run_at L rid (upd_child i f r) t"
    have "child_row t rid i = Some (f (rnChildren r ! i))"
      using i by (simp add: child_row_at[OF t])
    then show "wp (requireChild rid i) Q E t" using Q[OF i st t] by (simp add: requireChild_def)
  qed
  show ?thesis
    unfolding updateChild_def wp_ebind
    by (rule wp_requireChild[OF at]) (auto simp: f[symmetric] E[OF at] dest: w)
qed

lemma wp_updateAttempt:
  assumes at: "run_at L rid r s"
    and f: "f = (\<lambda>c. c\<lparr>chAttempts := (chAttempts c)[k :=
        (chAttempts c ! k)\<lparr>atState := st, atResult := res, atUpdated := now\<rparr>]\<rparr>)"
    and inv: "run_inv L (upd_child i f r)"
    and Q: "\<And>t. run_at L rid (upd_child i f r) t \<Longrightarrow> Q () t"
  shows "wp (updateAttempt rid i k st res now) Q E s"
proof -
  have "map atTxid (chAttempts (f c)) = map atTxid (chAttempts c)" for c
    by (cases "k < length (chAttempts c)")
      (simp_all add: f map_update list_update_beyond, metis list_update_id nth_map)
  from Q[OF upd_child_run_at[OF at inv same_txids[OF at this]]] show ?thesis
    by (simp add: wp_def updateAttempt_def update_child_row_eq f)
qed

lemma wp_insertAttempt:
  assumes at: "run_at L rid r s"
    and f: "f = (\<lambda>c. c\<lparr>chAttempts := chAttempts c @
       [\<lparr>atTxid = t, atNonce = nonce, atFee = fee, atState = st, atResult = None,
         atCreated = now, atUpdated = now\<rparr>]\<rparr>)"
    and inv: "i < length (rnChildren r) \<Longrightarrow> run_inv L (upd_child i f r)"
    and Q: "\<And>u. i < length (rnChildren r) \<Longrightarrow> run_at L rid (upd_child i f r) u \<Longrightarrow>
      Q (length (chAttempts (rnChildren r ! i))) u"
    and E: "E s"
  shows "wp (insertAttempt rid i t nonce fee st now) Q E s"
proof (cases "i < length (rnChildren r) \<and> t \<notin> set (attempt_txids s)")
  case True
  have "distinct (attempt_txids (upd_run rid (upd_child i f) s))"
    using at True by (intro attempt_txids_insert[of L s rid r i t f]) (simp_all add: run_at_def f)
  from upd_child_run_at[OF at _ this] inv Q True E show ?thesis
    by (simp add: wp_def insertAttempt_def child_row_at[OF at] attempts_at[OF at] update_child_row_eq
        at_index_def f)
next
  case False
  then show ?thesis
    using E by (auto simp: wp_def insertAttempt_def child_row_at[OF at] at_index_def)
qed

lemma wp_advanceCursor:
  assumes at: "run_at L rid r s"
    and inv: "rnCursor r = n \<Longrightarrow>
      run_inv L (r\<lparr>rnCursor := rnCursor r + 1, rnGasSpent := g, rnUpdated := now\<rparr>)"
    and Q: "\<And>r' t. rnCursor r = n \<Longrightarrow>
      r' = r\<lparr>rnCursor := rnCursor r + 1, rnGasSpent := g, rnUpdated := now\<rparr> \<Longrightarrow>
      run_at L rid r' t \<Longrightarrow> Q r' t"
    and E: "\<And>t. store_inv L t \<Longrightarrow> E t"
  shows "wp (advanceCursor L rid n g now) Q E s"
proof (cases "rnCursor r = n")
  case True
  let ?f = "\<lambda>r. r\<lparr>rnCursor := rnCursor r + 1, rnGasSpent := g, rnUpdated := now\<rparr>"
  from at have st: "store_inv L s" and row: "run_row s rid = Some r" by (simp_all add: run_at_def)
  have "attempt_txids (upd_run rid ?f s) = attempt_txids s"
    by (rule attempt_txids_upd) (simp add: run_txids_def)
  with st have "distinct (attempt_txids (upd_run rid ?f s))" by (simp add: store_inv_def)
  with st row inv[OF True] have "store_inv L (upd_run rid ?f s)" by (intro store_inv_upd[of L s rid r]) simp_all
  note inv' = this
  with row have t_at: "run_at L rid (?f r) (upd_run rid ?f s)" by (simp add: run_at_def)
  have "wp (requireRun L rid) Q E (upd_run rid ?f s)"
  proof (rule wp_requireRun)
    fix r'
    assume "run_row (upd_run rid ?f s) rid = Some r'"
    with t_at have "r' = ?f r" unfolding run_at_def by (metis option.inject)
    with Q[OF True refl t_at] show "Q r' (upd_run rid ?f s)" by simp
  qed (rule E[OF inv'])
  then show ?thesis using row True by (simp add: advanceCursor_def upd_run_def)
next
  case False
  with at E show ?thesis by (simp add: advanceCursor_def run_at_def)
qed

end
