(* ===== verification/Tick_Safety.thy ===== *)
theory Tick_Safety
  imports Run_Invariant
begin

text \<open>
  A tick keeps the invariant of the store. \<open>pc_inv\<close> is what a suspended tick still knows of its run
  when it resumes; it is stable under everything other handlers may do meanwhile (\<open>run_frame\<close>), and
  every stretch of \<open>#tick\<close> re-establishes it.
\<close>

subsection \<open>What a suspended tick knows\<close>

text \<open>The stored run behind the snapshot of a tick: same seal, same cursor, approved.\<close>

definition behind :: "run \<Rightarrow> run \<Rightarrow> bool" where
  "behind r r' \<longleftrightarrow> same_seal r r' \<and> rnCursor r' = rnCursor r \<and>
     length (rnChildren r') = length (rnChildren r) \<and> rnApprovedAt r' \<noteq> None"

definition snapshot_of :: "tx_lib \<Rightarrow> run \<Rightarrow> nat \<Rightarrow> store \<Rightarrow> run \<Rightarrow> bool" where
  "snapshot_of L r i s r' \<longleftrightarrow> run_inv L r \<and> i = rnCursor r \<and> i < length (rnChildren r) \<and>
     run_row s (rnId r) = Some r' \<and> behind r r'"

text \<open>A child that is materialized with the plan \<open>p\<close> and about to be signed.\<close>

definition signable :: "run \<Rightarrow> nat \<Rightarrow> plan \<Rightarrow> bool" where
  "signable r' i p \<longleftrightarrow> chStatus (rnChildren r' ! i) = Materialized \<and>
     chPlan (rnChildren r' ! i) = Some p \<and> live (rnChildren r' ! i) = [] \<and>
     txFeeUstx (matTransaction (planMaterial p)) \<le> int (rpFeeCap (rnRecipe r'))"

text \<open>The attempt row \<open>k\<close> records the submission, and every other attempt of the child was rejected.\<close>

definition recorded :: "run \<Rightarrow> nat \<Rightarrow> signed_attempt \<Rightarrow> nat \<Rightarrow> bool" where
  "recorded r' i sg k \<longleftrightarrow> (let c = rnChildren r' ! i; as = chAttempts c in
     chStatus c = Materialized \<and> k < length as \<and> atTxid (as ! k) = sgTxid sg \<and>
     atState (as ! k) = Signed \<and>
     (\<forall>j < length as. j \<noteq> k \<longrightarrow> atState (as ! j) = AttemptRejected))"

fun pc_inv :: "tx_lib \<Rightarrow> tick_pc \<Rightarrow> store \<Rightarrow> bool" where
  "pc_inv L TickDone s = True"
| "pc_inv L (TickReconcile r i p t now) s = ((\<exists>r'. snapshot_of L r i s r') \<and>
     chStatus (rnChildren r ! i) = Broadcast \<and> chPlan (rnChildren r ! i) = Some p \<and>
     chTxid (rnChildren r ! i) = Some t)"
| "pc_inv L (TickMaterialize r i now) s = (\<exists>r'. snapshot_of L r i s r')"
| "pc_inv L (TickRefusal r i p now) s = (\<exists>r'. snapshot_of L r i s r' \<and> signable r' i p)"
| "pc_inv L (TickSign r i p now) s = (\<exists>r'. snapshot_of L r i s r' \<and> signable r' i p)"
| "pc_inv L (TickBroadcast r i sg k now) s = (\<exists>r'. snapshot_of L r i s r' \<and> recorded r' i sg k)"

lemma snapshot_frame:
  assumes "snapshot_of L r i s r'" and "run_frame s t"
  shows "\<exists>r''. snapshot_of L r i t r'' \<and> same_work r' r''"
proof -
  from assms obtain r'' where "run_row t (rnId r) = Some r''" "same_work r' r''"
    by (auto simp: snapshot_of_def run_frame_def)
  with assms(1) show ?thesis
    by (auto simp: snapshot_of_def behind_def same_work_def same_seal_def)
qed

lemma same_work_child:
  "same_work r' r'' \<Longrightarrow> i < length (rnChildren r') \<Longrightarrow> chStatus (rnChildren r' ! i) = Materialized \<Longrightarrow>
   rnChildren r'' ! i = rnChildren r' ! i"
  by (simp add: same_work_def)

lemma pc_inv_frame:
  assumes "pc_inv L pc s" and "run_frame s t"
  shows "pc_inv L pc t"
proof -
  have len: "i < length (rnChildren r')" if "snapshot_of L r i s r'" for r r' i
    using that by (simp add: snapshot_of_def behind_def)
  have sg: "signable r'' i p" if "signable r' i p" "same_work r' r''" "i < length (rnChildren r')"
    for r' r'' i p
    using that same_work_child[OF that(2,3)] by (simp add: signable_def same_work_def same_seal_def)
  have rc: "recorded r'' i sg k" if "recorded r' i sg k" "same_work r' r''" "i < length (rnChildren r')"
    for r' r'' i sg k
    using that same_work_child[OF that(2,3)] by (simp add: recorded_def Let_def)
  show ?thesis
    using assms(1) snapshot_frame[OF _ assms(2)] sg rc len by (cases pc) (simp; meson)+
qed

subsection \<open>One child after an update\<close>

lemma assertPlan_upd [simp]:
  "assertPlan r i (c\<lparr>chStatus := a1\<rparr>) = assertPlan r i c"
  "assertPlan r i (c\<lparr>chAmount := a2\<rparr>) = assertPlan r i c"
  "assertPlan r i (c\<lparr>chPlan := a3\<rparr>) = assertPlan r i c"
  "assertPlan r i (c\<lparr>chTxid := a4\<rparr>) = assertPlan r i c"
  "assertPlan r i (c\<lparr>chProvenance := a5\<rparr>) = assertPlan r i c"
  "assertPlan r i (c\<lparr>chSource := a6\<rparr>) = assertPlan r i c"
  "assertPlan r i (c\<lparr>chFailure := a7\<rparr>) = assertPlan r i c"
  "assertPlan r i (c\<lparr>chUpdated := a8\<rparr>) = assertPlan r i c"
  "assertPlan r i (c\<lparr>chAttempts := a9\<rparr>) = assertPlan r i c"
  by (simp_all add: fun_eq_iff assertPlan_def)

lemma run_inv_upd_cursor:
  assumes "run_inv L r" and "rnCursor r < length (rnChildren r)" and "rnApprovedAt r \<noteq> None"
    and "same_child_seal (rnChildren r ! rnCursor r) (f (rnChildren r ! rnCursor r))"
    and "child_inv r (rnCursor r) (f (rnChildren r ! rnCursor r))"
  shows "run_inv L (upd_child (rnCursor r) f r)"
  unfolding upd_child_def by (rule run_inv_set_cursor) (use assms in simp_all)

lemma live_all_rejected: "live c = [] \<longleftrightarrow> (\<forall>a \<in> set (chAttempts c). atState a = AttemptRejected)"
  by (auto simp: live_def filter_empty_conv)

lemma live_one:
  assumes "\<forall>j < length (chAttempts c). j \<noteq> k \<longrightarrow> atState (chAttempts c ! j) = AttemptRejected"
  shows "length (live c) \<le> 1"
proof -
  have "length (live c) = card {j. j < length (chAttempts c) \<and> atState (chAttempts c ! j) \<noteq> AttemptRejected}"
    unfolding live_def by (rule length_filter_conv_card)
  also have "\<dots> \<le> card {k}" using assms by (intro card_mono) auto
  finally show ?thesis by simp
qed

subsection \<open>Stretches of a tick\<close>

text \<open>The goal of every stretch: the invariant and the knowledge of the next suspension point.\<close>

definition tick_ok :: "tx_lib \<Rightarrow> tick_pc \<Rightarrow> store \<Rightarrow> bool" where
  "tick_ok L pc t \<longleftrightarrow> store_inv L t \<and> pc_inv L pc t"

lemma tick_ok_done [simp]: "tick_ok L TickDone = store_inv L"
  by (simp add: fun_eq_iff tick_ok_def)

lemma wp_halt:
  assumes "store_inv L s" and "\<And>r t. store_inv L t \<Longrightarrow> run_frame s t \<Longrightarrow> Q r t" and "E s"
  shows "wp (halt L rid reason now) Q E s"
  unfolding halt_def
  by (rule wp_transition[OF assms(1)]) (simp_all add: terminal_run_def run_at_def assms)

lemma wp_expire:
  assumes "store_inv L s" and "Q False s" and "\<And>t. store_inv L t \<Longrightarrow> run_frame s t \<Longrightarrow> Q True t" and "E s"
  shows "wp (expireRunningRun L r now) Q E s"
  using assms(2,4) unfolding expireRunningRun_def
  by (auto intro!: wp_transition[OF assms(1)] assms(3) simp: terminal_run_def run_at_def)

lemma snapshotD:
  assumes "store_inv L s" and "snapshot_of L r i s r'"
  shows "run_at L (rnId r) r' s" and "run_inv L r'" and "rnCursor r' = i" and "rnCursor r = i"
    and "i < length (rnChildren r')" and "rnApprovedAt r' \<noteq> None" and "run_inv L r"
    and "rnRecipe r' = rnRecipe r" and "same_seal r r'" and "rnId r' = rnId r"
  using assms store_inv_run[OF assms(1)]
  by (auto simp: snapshot_of_def behind_def run_at_def same_seal_def)

lemma child_seal_refl [simp]:
  "same_child_seal c (c\<lparr>chStatus := a1, chTxid := a2, chProvenance := a3, chFailure := a4,
     chSource := a5, chUpdated := a6\<rparr>)"
  "same_child_seal c (c\<lparr>chAttempts := a7\<rparr>)"
  "same_child_seal c (c\<lparr>chStatus := a1, chPlan := a8, chAmount := a9, chUpdated := a6\<rparr>)"
  by (simp_all add: same_child_seal_def)

lemma live_upd [simp]:
  "live (c\<lparr>chStatus := a1\<rparr>) = live c" "live (c\<lparr>chTxid := a2\<rparr>) = live c"
  "live (c\<lparr>chProvenance := a3\<rparr>) = live c" "live (c\<lparr>chFailure := a4\<rparr>) = live c"
  "live (c\<lparr>chSource := a5\<rparr>) = live c" "live (c\<lparr>chUpdated := a6\<rparr>) = live c"
  "live (c\<lparr>chPlan := a8\<rparr>) = live c" "live (c\<lparr>chAmount := a9\<rparr>) = live c"
  by (simp_all add: live_def)

text \<open>The update of the child at the cursor, for a tick whose run is \<open>r'\<close>.\<close>

definition patched_child :: "child_status \<Rightarrow> instant \<Rightarrow> child_patch \<Rightarrow> child \<Rightarrow> child" where
  "patched_child to now p c = c\<lparr>chStatus := to, chTxid := coalesce (cpTxid p) (chTxid c),
     chProvenance := cpProvenance p, chFailure := cpFailure p,
     chSource := coalesce (cpSource p) (chSource c), chUpdated := now\<rparr>"

lemma patched_child_fields [simp]:
  "chStatus (patched_child to now p c) = to"
  "chTxid (patched_child to now p c) = coalesce (cpTxid p) (chTxid c)"
  "chAttempts (patched_child to now p c) = chAttempts c" "live (patched_child to now p c) = live c"
  "chPlan (patched_child to now p c) = chPlan c" "chAmount (patched_child to now p c) = chAmount c"
  "assertPlan r i (patched_child to now p c) = assertPlan r i c"
  "same_child_seal c (patched_child to now p c)"
  by (simp_all add: patched_child_def)

lemma wp_updateCursorChild:
  assumes at: "run_at L rid r' s" and i: "i = rnCursor r'" "rnApprovedAt r' \<noteq> None"
    and inv: "\<And>c. c = rnChildren r' ! i \<Longrightarrow> chStatus c \<in> set from \<Longrightarrow> child_inv r' i c \<Longrightarrow>
      child_inv r' i (patched_child to now p c)"
    and Q: "\<And>t. i < length (rnChildren r') \<Longrightarrow> chStatus (rnChildren r' ! i) \<in> set from \<Longrightarrow>
      run_at L rid (upd_child i (patched_child to now p) r') t \<Longrightarrow>
      Q (patched_child to now p (rnChildren r' ! i)) t"
    and E: "\<And>t. store_inv L t \<Longrightarrow> E t"
  shows "wp (updateChild rid i from to now p) Q E s"
proof (rule wp_updateChild[OF at refl])
  let ?c = "rnChildren r' ! i"
  let ?f = "\<lambda>c. c\<lparr>chStatus := to, chTxid := coalesce (cpTxid p) (chTxid c),
       chProvenance := cpProvenance p, chFailure := cpFailure p,
       chSource := coalesce (cpSource p) (chSource ?c), chUpdated := now\<rparr>"
  have fc: "?f ?c = patched_child to now p ?c" by (simp add: patched_child_def)
  have fr: "upd_child i ?f r' = upd_child i (patched_child to now p) r'"
    by (simp add: upd_child_def patched_child_def)
  have ri: "run_inv L r'" using run_atD[OF at] by simp
  show "run_inv L (upd_child i ?f r')" if l: "i < length (rnChildren r')" and st: "chStatus ?c \<in> set from"
    using inv[OF refl st run_inv_child[OF ri l]] ri l i unfolding fr by (auto intro!: run_inv_upd_cursor)
  show "Q (?f ?c) t"
    if "i < length (rnChildren r')" "chStatus ?c \<in> set from" "run_at L rid (upd_child i ?f r') t" for t
    using Q that unfolding fr fc by blast
  show "E t" if "run_at L rid r' t" for t using that E by (simp add: run_at_def)
qed

definition set_attempt :: "nat \<Rightarrow> attempt_state \<Rightarrow> broadcast_result option \<Rightarrow> instant \<Rightarrow> child \<Rightarrow> child" where
  "set_attempt k st res now c = c\<lparr>chAttempts := (chAttempts c)[k :=
     (chAttempts c ! k)\<lparr>atState := st, atResult := res, atUpdated := now\<rparr>]\<rparr>"

lemma set_attempt_fields [simp]:
  "chStatus (set_attempt k st res now c) = chStatus c" "chTxid (set_attempt k st res now c) = chTxid c"
  "chPlan (set_attempt k st res now c) = chPlan c" "chAmount (set_attempt k st res now c) = chAmount c"
  "chOperation (set_attempt k st res now c) = chOperation c"
  "assertPlan r i (set_attempt k st res now c) = assertPlan r i c"
  "same_child_seal c (set_attempt k st res now c)"
  "length (chAttempts (set_attempt k st res now c)) = length (chAttempts c)"
  by (simp_all add: set_attempt_def)

lemma set_attempt_nth:
  "j < length (chAttempts c) \<Longrightarrow> chAttempts (set_attempt k st res now c) ! j =
     (if j = k then (chAttempts c ! k)\<lparr>atState := st, atResult := res, atUpdated := now\<rparr>
      else chAttempts c ! j)"
  by (simp add: set_attempt_def nth_list_update)

lemma set_attempt_txids: "map atTxid (chAttempts (set_attempt k st res now c)) = map atTxid (chAttempts c)"
  by (cases "k < length (chAttempts c)")
    (simp_all add: set_attempt_def map_update list_update_beyond, metis list_update_id nth_map)

lemma set_attempt_fees:
  "\<forall>a \<in> set (chAttempts c). atFee a \<le> m \<Longrightarrow> \<forall>a \<in> set (chAttempts (set_attempt k st res now c)). atFee a \<le> m"
  by (auto simp: in_set_conv_nth set_attempt_nth Ball_def)

lemma wp_set_attempt:
  assumes at: "run_at L rid r' s" and i: "i = rnCursor r'" "rnApprovedAt r' \<noteq> None" "i < length (rnChildren r')"
    and inv: "child_inv r' i (set_attempt k st res now (rnChildren r' ! i))"
    and Q: "\<And>t. run_at L rid (upd_child i (set_attempt k st res now) r') t \<Longrightarrow> Q () t"
  shows "wp (updateAttempt rid i k st res now) Q E s"
proof (rule wp_updateAttempt[OF at, where f = "set_attempt k st res now"])
  show "Q () t" if "run_at L rid (upd_child i (set_attempt k st res now) r') t" for t
    by (rule Q[OF that])
  show "set_attempt k st res now = (\<lambda>c. c\<lparr>chAttempts := (chAttempts c)[k :=
        (chAttempts c ! k)\<lparr>atState := st, atResult := res, atUpdated := now\<rparr>]\<rparr>)"
    by (simp add: fun_eq_iff set_attempt_def)
  have "run_inv L r'" using run_atD[OF at] by simp
  with inv i show "run_inv L (upd_child i (set_attempt k st res now) r')"
    by (auto intro!: run_inv_upd_cursor)
qed

lemma behind_upd_child: "behind r r' \<Longrightarrow> behind r (upd_child i f r')"
  by (simp add: behind_def same_seal_def)

lemma snapshot_upd_child:
  "snapshot_of L r i s r' \<Longrightarrow> run_at L (rnId r) (upd_child j f r') t \<Longrightarrow> snapshot_of L r i t (upd_child j f r')"
  by (simp add: snapshot_of_def run_at_def behind_upd_child)

lemma run_at_inv: "run_at L rid r s \<Longrightarrow> store_inv L s"
  by (simp add: run_at_def)

lemma wp_finish_child:
  assumes at: "run_at L (rnId r) r1 s" and cur: "rnCursor r1 = rnCursor r"
    and i: "rnCursor r < length (rnChildren r1)"
    and fin: "child_complete (chStatus (rnChildren r1 ! rnCursor r))"
    and gas: "g \<le> rpFeeCap (rnRecipe r1) * Suc (rnCursor r)"
  shows "wp (advanceCursor L (rnId r) (rnCursor r) g now) (\<lambda>_. store_inv L) (store_inv L) s"
proof (rule wp_advanceCursor[OF at])
  have "run_inv L r1" using run_atD[OF at] by simp
  then show "run_inv L (r1\<lparr>rnCursor := rnCursor r1 + 1, rnGasSpent := g, rnUpdated := now\<rparr>)"
    by (rule run_inv_advance) (use cur i fin gas in simp_all)
qed (simp_all add: run_at_inv)

lemma wp_record_resolution:
  assumes inv: "store_inv L s" and sn: "snapshot_of L r i s r'" and st: "st \<in> {Confirmed, ExternallyCompleted}"
  shows "wp (record_resolution L r i now st src) (tick_ok L) (store_inv L) s"
proof -
  note S = snapshotD[OF inv sn]
  let ?p = "no_child_patch\<lparr>cpProvenance := Some (if st = Confirmed then You else AnotherCaller),
     cpSource := src\<rparr>"
  let ?r1 = "upd_child i (patched_child st now ?p) r'"
  have c1: "rnChildren ?r1 ! i = patched_child st now ?p (rnChildren r' ! i)" using S(5) by simp
  have after: "wp (\<lambda>s. let as = attempts (rnId r) i s;
           paidFee = (case last_opt as of None \<Rightarrow> 0 | Some a \<Rightarrow> atFee a) in
       ebind (if as \<noteq> [] \<and> st = Confirmed
              then updateAttempt (rnId r) i (length as - 1) AttemptConfirmed None now
              else eret ()) (\<lambda>_.
       ebind (advanceCursor L (rnId r) (rnCursor r) (rnGasSpent r + paidFee) now) (\<lambda>_.
       eret TickDone)) s) (tick_ok L) (store_inv L) t"
    if t: "run_at L (rnId r) ?r1 t" for t
  proof -
    let ?as = "chAttempts (rnChildren r' ! i)" and ?c = "rnChildren ?r1 ! i"
    let ?fee = "case last_opt ?as of None \<Rightarrow> 0 | Some a \<Rightarrow> atFee a"
    have as: "attempts (rnId r) i t = ?as" using S(5) by (simp add: attempts_at[OF t])
    have ci: "child_inv ?r1 i ?c" using run_atD[OF t] S(5) by (intro run_inv_child[of L]) simp_all
    have fees: "\<forall>a \<in> set ?as. atFee a \<le> rpFeeCap (rnRecipe r')"
      using ci unfolding c1 by (simp add: child_inv_def)
    then have "?fee \<le> rpFeeCap (rnRecipe r')" by (auto dest: last_opt_Some split: option.splits)
    with run_inv_gas[OF S(7)] have gas: "rnGasSpent r + ?fee \<le> rpFeeCap (rnRecipe r') * Suc (rnCursor r)"
      by (simp add: S(8))
    have fin: "wp (ebind (advanceCursor L (rnId r) (rnCursor r) (rnGasSpent r + ?fee) now) (\<lambda>_. eret TickDone))
        (tick_ok L) (store_inv L) u"
      if u: "run_at L (rnId r) (upd_child i f ?r1) u" and cf: "chStatus (f ?c) = st" for f u
      using wp_finish_child[OF u, of "rnGasSpent r + ?fee" now] gas cf st S(3-5)
      by (auto simp: child_complete_def)
    have upd: "wp (updateAttempt (rnId r) i (length ?as - 1) AttemptConfirmed None now)
        (\<lambda>_. wp (ebind (advanceCursor L (rnId r) (rnCursor r) (rnGasSpent r + ?fee) now) (\<lambda>_. eret TickDone))
        (tick_ok L) (store_inv L)) (store_inv L) t"
      if "st = Confirmed"
    proof (rule wp_set_attempt[OF t])
      show "child_inv ?r1 i (set_attempt (length ?as - 1) AttemptConfirmed None now ?c)"
        using ci that fees set_attempt_fees[OF fees] unfolding c1
        by (auto simp: child_inv_def set_attempt_def patched_child_def)
      fix u
      assume "run_at L (rnId r) (upd_child i (set_attempt (length ?as - 1) AttemptConfirmed None now) ?r1) u"
      from fin[OF this] show "wp (ebind (advanceCursor L (rnId r) (rnCursor r) (rnGasSpent r + ?fee) now)
          (\<lambda>_. eret TickDone)) (tick_ok L) (store_inv L) u" unfolding c1 by simp
    qed (use S in simp_all)
    have same: "upd_child i (\<lambda>c. c) ?r1 = ?r1" by (simp add: upd_child_def)
    show ?thesis
      using upd fin[of "\<lambda>c. c", unfolded same, OF t] S(5)
      by (auto simp: wp_def Let_def as ebind_def eret_def split: prod.splits sum.splits)
  qed
  show ?thesis
    unfolding record_resolution_def wp_ebind
  proof (rule wp_updateCursorChild[OF S(1) S(3)[symmetric] S(6)])
    show "child_inv r' i (patched_child st now ?p c)"
      if "chStatus c \<in> set [Broadcast]" and "child_inv r' i c" for c
      using that st by (auto simp: child_inv_def)
  qed (use after in \<open>simp_all\<close>)
qed

lemma wp_halt_done:
  "store_inv L s \<Longrightarrow> wp (halt L rid reason now) (\<lambda>_. store_inv L) (store_inv L) s"
  by (rule wp_halt) simp_all

lemma wp_tick_reconciled:
  assumes inv: "store_inv L s" and sn: "snapshot_of L r i s r'"
  shows "wp (tick_reconciled L r i c now at rec) (tick_ok L) (store_inv L) s"
proof (cases rec)
  case (RecHalt reason src corroborate)
  note S = snapshotD[OF inv sn]
  have "wp (updateChild (rnId r) i [Broadcast] Broadcast now
      (no_child_patch\<lparr>cpProvenance := chProvenance c, cpSource := src,
         cpFailure := (if corroborate then Some reason else chFailure c)\<rparr>))
      (\<lambda>_. wp (halt L (rnId r) reason at) (\<lambda>_. store_inv L) (store_inv L)) (store_inv L) s"
    by (rule wp_updateCursorChild[OF S(1) S(3)[symmetric] S(6)])
      (auto simp: child_inv_def no_child_patch_def intro!: wp_halt_done dest: run_at_inv)
  then show ?thesis
    using inv unfolding tick_reconciled_def RecHalt by (simp add: wp_halt_done)
qed (use inv wp_record_resolution[OF inv sn] in \<open>simp_all add: tick_reconciled_def\<close>)

lemma wp_tick_materialized_child:
  assumes at: "run_at L (rnId r) r s" and i: "i = rnCursor r" "i < length (rnChildren r)"
    and appr: "rnApprovedAt r \<noteq> None"
  shows "wp (tick_materialized_child L r i now) (tick_ok L) (store_inv L) s"
proof (cases "last_opt (attempts (rnId r) i s)")
  case (Some a)
  let ?p = "no_child_patch\<lparr>cpTxid := Some (atTxid a), cpProvenance := Some You,
     cpFailure := Some ''Submission may have started before Sidekick restarted''\<rparr>"
  have "wp (updateChild (rnId r) i [Materialized] Broadcast now ?p)
      (\<lambda>_. wp (halt L (rnId r)
        ''Sidekick restarted after signing began; resume to reconcile the saved transaction ID'' now)
         (\<lambda>_. store_inv L) (store_inv L)) (store_inv L) s"
    by (rule wp_updateCursorChild[OF at i(1) appr])
      (auto simp: child_inv_def intro!: wp_halt_done dest: run_at_inv)
  then show ?thesis
    unfolding tick_materialized_child_def wp_select[where g = "\<lambda>s. last_opt (attempts (rnId r) i s)"]
    using Some by simp
next
  case None
  let ?f = "unmaterialize now"
  have emp: "chAttempts (rnChildren r ! i) = []"
    using None i by (simp add: attempts_at[OF at] last_opt_def split: if_splits)
  have "run_inv L (upd_child i ?f r)" unfolding i(1)
    by (rule run_inv_upd_cursor)
      (use run_atD[OF at] i appr emp in
        \<open>simp_all add: unmaterialize_def child_inv_def live_def same_child_seal_def\<close>)
  then have "wp (write_child (rnId r) i ?f) (\<lambda>_. store_inv L) (store_inv L) s"
    by (intro wp_write_child[OF at i(2)]) (simp_all add: unmaterialize_def run_at_inv run_at_inv[OF at])
  then have "wp (resetUnattemptedMaterializedChild (rnId r) i now) (\<lambda>_. store_inv L) (store_inv L) s"
    using run_at_inv[OF at] emp i
    by (simp add: wp_def resetUnattemptedMaterializedChild_def attempts_at[OF at] child_row_at[OF at]
        split: option.splits)
  then show ?thesis
    unfolding tick_materialized_child_def wp_select[where g = "\<lambda>s. last_opt (attempts (rnId r) i s)"]
    using None by simp
qed

lemma snapshot_self:
  "run_at L (rnId r) r s \<Longrightarrow> rnCursor r < length (rnChildren r) \<Longrightarrow> rnApprovedAt r \<noteq> None \<Longrightarrow>
   snapshot_of L r (rnCursor r) s r"
  by (auto simp: snapshot_of_def behind_def same_seal_def dest: run_atD)

lemma wp_tick_child:
  assumes at: "run_at L (rnId r) r s" and i: "rnCursor r < length (rnChildren r)"
    and appr: "rnApprovedAt r \<noteq> None"
  shows "wp (tick_child L ctl isDue r (rnCursor r) (rnChildren r ! rnCursor r) now) (tick_ok L) (store_inv L) s"
proof -
  let ?c = "rnChildren r ! rnCursor r"
  have inv: "store_inv L s" and ri: "run_inv L r" using run_atD[OF at] by simp_all
  have sn: "snapshot_of L r (rnCursor r) s r" by (rule snapshot_self[OF at i appr])
  have b: "wp (tick_broadcast_child L isDue r (rnCursor r) t now) (tick_ok L) (store_inv L) s"
    if c: "chStatus ?c = Broadcast" "chTxid ?c = Some t" for t
  proof -
    have "wp (requireChild (rnId r) (rnCursor r)) (\<lambda>c. wp (eret (chPlan c))
        (\<lambda>p. wp (case p of
         None \<Rightarrow> ebind (halt L (rnId r) ''Broadcast child is missing its sealed plan'' now)
                   (\<lambda>_. eret TickDone)
       | Some p \<Rightarrow> if \<not> isDue t then eret TickDone else eret (TickReconcile r (rnCursor r) p t now))
         (tick_ok L) (store_inv L)) (store_inv L)) (store_inv L) s"
      by (rule wp_requireChild[OF at])
        (use inv sn c in \<open>auto simp: tick_ok_def wp_halt_done split: option.splits\<close>)
    then show ?thesis by (simp add: tick_broadcast_child_def childPlan_def)
  qed
  have adv: "wp (advanceCursor L (rnId r) (rnCursor r) (rnGasSpent r) now) (\<lambda>_. store_inv L) (store_inv L) s"
    if "child_complete (chStatus ?c)"
    by (rule wp_finish_child[OF at refl i that]) (use run_inv_gas[OF ri] in simp)
  have go: "wp (if child_complete (chStatus ?c)
        then ebind (advanceCursor L (rnId r) (rnCursor r) (rnGasSpent r) now) (\<lambda>_. eret TickDone)
        else ebind (elift (assertExecutionAllowed ctl [chOperation ?c])) (\<lambda>_.
             eret (TickMaterialize r (rnCursor r) now))) (tick_ok L) (store_inv L) s"
    using adv inv sn by (auto simp: tick_ok_def split: sum.splits)
  show ?thesis
    using wp_tick_materialized_child[OF at refl i appr] b go unfolding tick_child_def
    by (cases "chStatus ?c"; cases "chTxid ?c") simp_all
qed

lemma wp_start_running:
  assumes inv: "store_inv L s" and r: "run_row s rid = Some r"
    and Q: "\<And>r' t. run_at L rid r' t \<Longrightarrow> Q r' t" and E: "E s"
  shows "wp (start_running L h rid r now) Q E s"
  using Q[of r s] inv r E unfolding start_running_def
  by (auto simp: run_at_def terminal_run_def intro!: wp_transition[OF inv] Q)

lemma wp_expire_at:
  assumes at: "run_at L rid r s" and Q: "Q False s" "\<And>t. store_inv L t \<Longrightarrow> Q True t" and E: "E s"
  shows "wp (expireRunningRun L r now) Q E s"
  by (rule wp_expire[OF run_at_inv[OF at]]) (use Q E in simp_all)

lemma wp_complete:
  assumes at: "run_at L rid r s" and fin: "length (rnChildren r) \<le> rnCursor r"
  shows "wp (transition L rid [Running] Completed now p) (\<lambda>_. store_inv L) (store_inv L) s"
proof (rule wp_transition[OF run_at_inv[OF at]])
  show "rnCursor r' = length (rnChildren r')" if "run_row s rid = Some r'" for r'
    using that at fin run_inv_cursor[of L r] run_atD[OF at] by (simp add: run_at_def)
qed (use run_at_inv[OF at] in \<open>simp_all add: terminal_run_def run_at_def\<close>)

lemma wp_tick_running:
  assumes at: "run_at L rid r s" and st: "rnStatus r = Running"
  shows "wp (case at_index (rnChildren r) (rnCursor r) of
       None \<Rightarrow> ebind (transition L rid [Running] Completed now (no_patch\<lparr>tpCompletedAt := Some now\<rparr>))
                 (\<lambda>_. eret TickDone)
     | Some c \<Rightarrow> tick_child L ctl isDue r (rnCursor r) c now) (tick_ok L) (store_inv L) s"
proof (cases "rnCursor r < length (rnChildren r)")
  case True
  have "rnId r = rid" and "run_checks r" using run_atD[OF at] run_inv_checks by auto
  with st have "rnApprovedAt r \<noteq> None" by (auto simp: run_checks_def)
  with True wp_tick_child[of L r s ctl isDue now] at \<open>rnId r = rid\<close> show ?thesis
    by (simp add: at_index_def)
next
  case False
  with wp_complete[OF at] show ?thesis by (simp add: at_index_def)
qed

lemma wp_tick_start:
  assumes "store_inv L s"
  shows "wp (tick_start L h ctl isDue rid now) (tick_ok L) (store_inv L) s"
  unfolding tick_start_def wp_ebind
proof (rule wp_serviceGet)
  fix r0
  assume "run_row s rid = Some r0"
  then show "wp (start_running L h rid r0 now) (\<lambda>r. wp (if rnStatus r \<noteq> Running then eret TickDone
      else ebind (expireRunningRun L r now) (\<lambda>expired. if expired then eret TickDone
        else case at_index (rnChildren r) (rnCursor r) of
          None \<Rightarrow> ebind (transition L rid [Running] Completed now (no_patch\<lparr>tpCompletedAt := Some now\<rparr>))
                    (\<lambda>_. eret TickDone)
        | Some c \<Rightarrow> tick_child L ctl isDue r (rnCursor r) c now)) (tick_ok L) (store_inv L)) (store_inv L) s"
    by (rule wp_start_running[OF assms])
      (use assms in \<open>auto intro!: wp_expire_at wp_tick_running dest: run_at_inv simp del: wp_ebind
        simp add: wp_ebind[abs_def]\<close>)
qed (rule assms)

subsection \<open>Materialization\<close>

lemma sealed_child:
  assumes "sealed_run L r" and "i < length (rnChildren r)"
  shows "i < length (rpChildren (rnRecipe r))"
    and "chOperation (rnChildren r ! i) = rcOperation (rpChildren (rnRecipe r) ! i)"
    and "chMaxAmount (rnChildren r ! i) = rcMaxAmount (rpChildren (rnRecipe r) ! i)"
  using assms
  by (auto simp: sealed_run_def recipe_children_match_def list_all_iff recipe_child_matches_def at_index_def)

lemma snapshot_operation:
  assumes "store_inv L s" and "snapshot_of L r i s r'"
  shows "chOperation (rnChildren r' ! i) = chOperation (rnChildren r ! i)"
proof -
  note S = snapshotD[OF assms]
  have "i < length (rnChildren r)" using assms(2) by (simp add: snapshot_of_def)
  then show ?thesis
    using sealed_child(2)[OF run_inv_sealed[OF S(2)] S(5)] sealed_child(2)[OF run_inv_sealed[OF S(7)]]
    by (simp add: S(8))
qed

definition materialize_child :: "plan \<Rightarrow> nat option \<Rightarrow> instant \<Rightarrow> child \<Rightarrow> child" where
  "materialize_child p a now c = c\<lparr>chStatus := Materialized, chPlan := Some p, chAmount := a, chUpdated := now\<rparr>"

lemma materialize_child_fields [simp]:
  "chStatus (materialize_child p a now c) = Materialized" "chPlan (materialize_child p a now c) = Some p"
  "chAmount (materialize_child p a now c) = a" "chAttempts (materialize_child p a now c) = chAttempts c"
  "live (materialize_child p a now c) = live c" "chOperation (materialize_child p a now c) = chOperation c"
  "same_child_seal c (materialize_child p a now c)"
  "assertPlan r i (materialize_child p a now c) = assertPlan r i c"
  by (simp_all add: materialize_child_def)

lemma assertPlan_fee:
  "assertPlan r i c p a = Inr () \<Longrightarrow> txFeeUstx (matTransaction (planMaterial p)) \<le> int (rpFeeCap (rnRecipe r))"
  by (erule assertPlan_elim) (simp add: material_bound_def)

lemma wp_materializeChild:
  assumes inv: "store_inv L s" and sn: "snapshot_of L r i s r'"
    and ok: "assertPlan r i (rnChildren r ! i) p a = Inr ()"
    and Q: "\<And>c t. run_at L (rnId r) (upd_child i (materialize_child p a now) r') t \<Longrightarrow>
      signable (upd_child i (materialize_child p a now) r') i p \<Longrightarrow> Q c t"
    and E: "\<And>t. store_inv L t \<Longrightarrow> E t"
  shows "wp (materializeChild (rnId r) i p a now) Q E s"
proof -
  note S = snapshotD[OF inv sn]
  let ?f = "materialize_child p a now" and ?c = "rnChildren r' ! i"
  let ?r1 = "upd_child i ?f r'"
  have ok': "assertPlan r' i ?c p a = Inr ()"
    using ok assertPlan_seal[OF S(9) snapshot_operation[OF inv sn]] by simp
  have w: "wp (write_child (rnId r) i ?f) (\<lambda>_. wp (requireChild (rnId r) i) Q E) E s"
    if st: "chStatus ?c = Pending"
  proof (rule wp_write_child[OF S(1) S(5)])
    have ci: "child_inv r' i ?c" by (rule run_inv_child[OF S(2,5)])
    then have "child_inv r' i (?f ?c)" using st ok' by (auto simp: child_inv_def)
    then show "run_inv L ?r1" using S by (auto intro!: run_inv_upd_cursor)
    fix t
    assume t: "run_at L (rnId r) ?r1 t"
    have "signable ?r1 i p" using ci st S(5) assertPlan_fee[OF ok'] by (simp add: signable_def child_inv_def)
    then show "wp (requireChild (rnId r) i) Q E t"
      using Q[OF t] E[OF run_at_inv[OF t]] by (intro wp_requireChild[OF t])
  qed (simp_all add: E inv)
  have eq: "(\<lambda>c. c\<lparr>chStatus := Materialized, chPlan := Some p, chAmount := a, chUpdated := now\<rparr>) = ?f"
    by (simp add: fun_eq_iff materialize_child_def)
  show ?thesis
    unfolding materializeChild_def wp_ebind eq
    by (rule wp_requireChild[OF S(1)]) (use w E[OF inv] in \<open>auto\<close>)
qed

lemma wp_skip:
  assumes inv: "store_inv L s" and sn: "snapshot_of L r i s r'"
  shows "wp (updateChild (rnId r) i [Pending] Skipped now p)
    (\<lambda>_. wp (advanceCursor L (rnId r) (rnCursor r) (rnGasSpent r) now) (\<lambda>_. store_inv L) (store_inv L))
    (store_inv L) s"
proof -
  note S = snapshotD[OF inv sn]
  show ?thesis
  proof (rule wp_updateCursorChild[OF S(1) S(3)[symmetric] S(6)])
    show "child_inv r' i (patched_child Skipped now p c)"
      if "chStatus c \<in> set [Pending]" and "child_inv r' i c" for c
      using that by (auto simp: child_inv_def)
    fix t
    assume t: "run_at L (rnId r) (upd_child i (patched_child Skipped now p) r') t"
    show "wp (advanceCursor L (rnId r) (rnCursor r) (rnGasSpent r) now) (\<lambda>_. store_inv L) (store_inv L) t"
      by (rule wp_finish_child[OF t])
        (use S run_inv_gas[OF S(7)] in \<open>simp_all add: child_complete_def\<close>)
  qed simp
qed

lemma wp_tick_materialized:
  assumes inv: "store_inv L s" and sn: "snapshot_of L r i s r'"
  shows "wp (tick_materialized L ctl r i (rnChildren r ! i) now at m) (tick_ok L) (store_inv L) s"
proof (cases m)
  case (MatPlan p a)
  show ?thesis
  proof (cases "assertPlan r i (rnChildren r ! i) p a")
    case (Inr u)
    then have ok: "assertPlan r i (rnChildren r ! i) p a = Inr ()" by simp
    have "wp (materializeChild (rnId r) i p a now)
        (\<lambda>stored. wp (ebind (elift (assertExecutionAllowed ctl [chOperation stored])) (\<lambda>_.
           eret (TickRefusal r i p now))) (tick_ok L) (store_inv L)) (store_inv L) s"
      by (rule wp_materializeChild[OF inv sn ok])
        (auto simp: tick_ok_def run_at_inv intro: snapshot_upd_child[OF sn] split: sum.splits)
    with ok inv show ?thesis by (simp add: tick_materialized_def MatPlan wp_halt_done)
  qed (simp add: tick_materialized_def MatPlan inv)
qed (use inv wp_skip[OF inv sn] in \<open>simp_all add: tick_materialized_def wp_halt_done\<close>)

subsection \<open>The signature boundary and the submission\<close>

lemma wp_tick_refusal_checked:
  assumes inv: "store_inv L s" and pc: "pc_inv L (TickRefusal r i p now) s"
  shows "wp (tick_refusal_checked L ctl closed r i k p now at refusal) (tick_ok L) (store_inv L) s"
proof -
  have sign: "wp (ebind (elift (assertExecutionAllowed ctl [k])) (\<lambda>_. eret (TickSign r i p now)))
      (tick_ok L) (store_inv L) s"
    using inv pc by (auto simp: tick_ok_def split: sum.splits)
  have "wp (serviceGet L (rnId r)) (\<lambda>b. wp (if closed \<or> rnStatus b \<noteq> Running then eret TickDone
     else ebind (expireRunningRun L b at) (\<lambda>expired. if expired then eret TickDone
       else ebind (elift (assertExecutionAllowed ctl [k])) (\<lambda>_. eret (TickSign r i p now))))
     (tick_ok L) (store_inv L)) (store_inv L) s"
    by (rule wp_serviceGet) (use inv sign in \<open>auto intro!: wp_expire simp del: wp_ebind simp add: wp_ebind[abs_def]\<close>)
  then show ?thesis
    using inv unfolding tick_refusal_checked_def wp_ebind by (simp split: sum.splits)
qed

lemma attempt_index_of_Some:
  assumes "attempt_index_of t as = Some k"
  shows "k < length as" and "atTxid (as ! k) = t"
  using assms nth_length_takeWhile[of "\<lambda>a. atTxid a \<noteq> t" as]
  by (auto simp: attempt_index_of_def Let_def split: if_splits)

lemma recorded_live:
  assumes "recorded r' i sg k" shows "length (live (rnChildren r' ! i)) \<le> 1"
  using assms by (intro live_one[of _ k]) (simp add: recorded_def Let_def)

lemma wp_reuse:
  assumes inv: "store_inv L s" and sn: "snapshot_of L r i s r'" and sg: "signable r' i p"
    and k: "attempt_index_of (sgTxid x) (chAttempts (rnChildren r' ! i)) = Some k"
  shows "wp (reuseRejectedAttempt (rnId r) i k (chAttempts (rnChildren r' ! i) ! k) now)
    (\<lambda>k. tick_ok L (TickBroadcast r i x k now)) (store_inv L) s"
proof -
  note S = snapshotD[OF inv sn]
  let ?c = "rnChildren r' ! i"
  let ?c' = "set_attempt k Signed None now ?c"
  note kk = attempt_index_of_Some[OF k]
  have rej: "\<forall>a \<in> set (chAttempts ?c). atState a = AttemptRejected" and m: "chStatus ?c = Materialized"
    using sg by (simp_all add: signable_def live_all_rejected)
  have one: "\<forall>j < length (chAttempts ?c'). j \<noteq> k \<longrightarrow> atState (chAttempts ?c' ! j) = AttemptRejected"
    using rej by (auto simp: set_attempt_nth)
  have ci: "child_inv r' i ?c" by (rule run_inv_child[OF S(2,5)])
  then have fees: "\<forall>a \<in> set (chAttempts ?c). atFee a \<le> rpFeeCap (rnRecipe r')" by (simp add: child_inv_def)
  have ci': "child_inv r' i ?c'"
    using ci m set_attempt_fees[OF fees, of k Signed None now] live_one[OF one] by (simp add: child_inv_def)
  have rec: "recorded (upd_child i (set_attempt k Signed None now) r') i x k"
    using S(5) kk one m by (simp add: recorded_def Let_def set_attempt_nth)
  have "wp (updateAttempt (rnId r) i k Signed None now)
      (\<lambda>_. tick_ok L (TickBroadcast r i x k now)) (store_inv L) s"
    by (rule wp_set_attempt[OF S(1) S(3)[symmetric] S(6) S(5) ci'])
      (use rec snapshot_upd_child[OF sn] in \<open>auto simp: tick_ok_def run_at_inv\<close>)
  then show ?thesis using inv by (simp add: reuseRejectedAttempt_def)
qed

lemma wp_insert_attempt:
  assumes inv: "store_inv L s" and sn: "snapshot_of L r i s r'" and sg: "signable r' i p"
    and fee: "int (sgFee x) = txFeeUstx (matTransaction (planMaterial p))"
  shows "wp (insertAttempt (rnId r) i (sgTxid x) (sgNonce x) (sgFee x) Signed now)
    (\<lambda>k. tick_ok L (TickBroadcast r i x k now)) (store_inv L) s"
proof -
  note S = snapshotD[OF inv sn]
  let ?a = "\<lparr>atTxid = sgTxid x, atNonce = sgNonce x, atFee = sgFee x, atState = Signed, atResult = None,
         atCreated = now, atUpdated = now\<rparr>"
  let ?f = "\<lambda>c. c\<lparr>chAttempts := chAttempts c @ [?a]\<rparr>" and ?c = "rnChildren r' ! i"
  have rej: "\<forall>a \<in> set (chAttempts ?c). atState a = AttemptRejected" and m: "chStatus ?c = Materialized"
    and cap: "sgFee x \<le> rpFeeCap (rnRecipe r')"
    using sg fee by (simp_all add: signable_def live_all_rejected)
  have one: "\<forall>j < length (chAttempts (?f ?c)). j \<noteq> length (chAttempts ?c) \<longrightarrow>
      atState (chAttempts (?f ?c) ! j) = AttemptRejected"
    using rej by (auto simp: nth_append)
  have ci: "child_inv r' i ?c" by (rule run_inv_child[OF S(2,5)])
  then have ci': "child_inv r' i (?f ?c)"
    using m cap live_one[OF one] by (simp add: child_inv_def)
  have rec: "recorded (upd_child i ?f r') i x (length (chAttempts ?c))"
    using S(5) one m by (simp add: recorded_def Let_def)
  have ri: "run_inv L (upd_child i ?f r')"
    using S ci' by (auto intro!: run_inv_upd_cursor)
  show ?thesis
    by (rule wp_insertAttempt[OF S(1) refl ri])
      (use rec snapshot_upd_child[OF sn] inv in \<open>auto simp: tick_ok_def run_at_inv\<close>)
qed

lemma wp_tick_signed_eq:
  "wp (tick_signed r i p now x) Q E s =
     (if int (sgFee x) = txFeeUstx (matTransaction (planMaterial p))
      then wp (case attempt_index_of (sgTxid x) (attempts (rnId r) i s) of
              Some k \<Rightarrow> reuseRejectedAttempt (rnId r) i k (attempts (rnId r) i s ! k) now
            | None \<Rightarrow> insertAttempt (rnId r) i (sgTxid x) (sgNonce x) (sgFee x) Signed now)
           (\<lambda>k. Q (TickBroadcast r i x k now)) E s
      else E s)"
  by (simp add: tick_signed_def wp_def monad_defs split: option.splits prod.splits sum.splits)

lemma wp_tick_signed:
  assumes inv: "store_inv L s" and pc: "pc_inv L (TickSign r i p now) s"
  shows "wp (tick_signed r i p now x) (tick_ok L) (store_inv L) s"
proof -
  from pc obtain r' where sn: "snapshot_of L r i s r'" and sg: "signable r' i p" by auto
  have as: "attempts (rnId r) i s = chAttempts (rnChildren r' ! i)"
    using attempts_at[OF snapshotD(1,5)[OF inv sn]] .
  show ?thesis
    using inv wp_reuse[OF inv sn sg, of x] wp_insert_attempt[OF inv sn sg, of x]
    unfolding wp_tick_signed_eq by (auto simp: as split: option.splits)
qed

lemma wp_record_submission:
  assumes inv: "store_inv L s" and sn: "snapshot_of L r i s r'" and rec: "recorded r' i sg k"
    and Q: "\<And>t. store_inv L t \<Longrightarrow> Q () t"
  shows "wp (record_submission r i k st t res now) Q (store_inv L) s"
proof -
  note S = snapshotD[OF inv sn]
  let ?c = "rnChildren r' ! i"
  let ?c' = "set_attempt k st (Some res) now ?c"
  have ci: "child_inv r' i ?c" by (rule run_inv_child[OF S(2,5)])
  then have fees: "\<forall>a \<in> set (chAttempts ?c). atFee a \<le> rpFeeCap (rnRecipe r')" by (simp add: child_inv_def)
  have one: "\<forall>j < length (chAttempts ?c'). j \<noteq> k \<longrightarrow> atState (chAttempts ?c' ! j) = AttemptRejected"
    using rec by (auto simp: recorded_def Let_def set_attempt_nth)
  have ci': "child_inv r' i ?c'"
    using ci rec set_attempt_fees[OF fees, of k st "Some res" now] live_one[OF one]
    by (simp add: child_inv_def recorded_def Let_def)
  have "wp (updateChild (rnId r) i [Materialized] Broadcast now
      (no_child_patch\<lparr>cpTxid := Some t, cpProvenance := Some You\<rparr>)) (\<lambda>_. Q ()) (store_inv L) u"
    if u: "run_at L (rnId r) (upd_child i (set_attempt k st (Some res) now) r') u" for u
    by (rule wp_updateCursorChild[OF u])
      (use S Q in \<open>auto simp: child_inv_def run_at_inv\<close>)
  then show ?thesis
    unfolding record_submission_def wp_ebind wp_eret
    by (intro wp_set_attempt[OF S(1) S(3)[symmetric] S(6) S(5) ci'])
qed

lemma wp_reject:
  assumes inv: "store_inv L s" and sn: "snapshot_of L r i s r'" and rec: "recorded r' i sg k"
  shows "wp (updateAttempt (rnId r) i k AttemptRejected (Some res) now)
    (\<lambda>_. wp (updateChild (rnId r) i [Materialized] ChildHalted now p)
      (\<lambda>_. wp (halt L (rnId r) msg at) (\<lambda>_. store_inv L) (store_inv L)) (store_inv L)) (store_inv L) s"
proof -
  note S = snapshotD[OF inv sn]
  let ?c = "rnChildren r' ! i"
  let ?c' = "set_attempt k AttemptRejected (Some res) now ?c"
  have ci: "child_inv r' i ?c" by (rule run_inv_child[OF S(2,5)])
  then have fees: "\<forall>a \<in> set (chAttempts ?c). atFee a \<le> rpFeeCap (rnRecipe r')" by (simp add: child_inv_def)
  have dead: "live ?c' = []"
    using rec by (auto simp: live_all_rejected recorded_def Let_def in_set_conv_nth set_attempt_nth)
  have ci': "child_inv r' i ?c'"
    using ci rec dead set_attempt_fees[OF fees, of k AttemptRejected "Some res" now]
    by (simp add: child_inv_def recorded_def Let_def)
  show ?thesis
  proof (rule wp_set_attempt[OF S(1) S(3)[symmetric] S(6) S(5) ci'])
    fix u
    assume u: "run_at L (rnId r) (upd_child i (set_attempt k AttemptRejected (Some res) now) r') u"
    show "wp (updateChild (rnId r) i [Materialized] ChildHalted now p)
      (\<lambda>_. wp (halt L (rnId r) msg at) (\<lambda>_. store_inv L) (store_inv L)) (store_inv L) u"
      by (rule wp_updateCursorChild[OF u])
        (use S dead in \<open>auto simp: child_inv_def intro!: wp_halt_done dest: run_at_inv\<close>)
  qed
qed

lemma wp_tick_broadcasted:
  assumes inv: "store_inv L s" and pc: "pc_inv L (TickBroadcast r i sg k now) s"
  shows "wp (tick_broadcasted L r i sg k at res) (tick_ok L) (store_inv L) s"
proof -
  from pc obtain r' where sn: "snapshot_of L r i s r'" and rec: "recorded r' i sg k" by auto
  have sub: "wp (record_submission r i k st t res at) (\<lambda>_. store_inv L) (store_inv L) s" for st t
    by (rule wp_record_submission[OF inv sn rec])
  have amb: "wp (record_submission r i k st t res at) (\<lambda>_. wp (serviceGet L (rnId r)) (\<lambda>c.
      wp (halt L (rnId c) m at) (\<lambda>_. store_inv L) (store_inv L)) (store_inv L)) (store_inv L) s" for st t m
    by (rule wp_record_submission[OF inv sn rec]) (auto intro!: wp_serviceGet wp_halt_done)
  show ?thesis
    using sub amb wp_reject[OF inv sn rec] by (cases res) (simp_all add: tick_broadcasted_def)
qed

lemma wp_tick_failed:
  assumes inv: "store_inv L s"
  shows "wp (tick_failed L rid err at) (\<lambda>_. store_inv L) (store_inv L) s"
  using wp_final[OF wp_halt_done[OF inv, of rid "error_message err" at]]
  by (cases "halt L rid (error_message err) at s"; cases "run_row s rid"; cases "fst (halt L rid (error_message err) at s)")
    (simp_all add: wp_def tick_failed_def getRun_def monad_defs Let_def inv)

end
