(* ===== verification/Nakamoto_Block.thy ===== *)
theory Nakamoto_Block
  imports Broadcaster "HOL-Library.Word"
begin

unbundle bit_operations_syntax

text \<open>
  Recovering the transactions of a Nakamoto block from its consensus bytes
  (apps/sidekick/src/nakamoto-block.ts).

  A block is a list of bytes (\<open>8 word\<close>). The header walk is written out; reads through the
  \<open>DataView\<close> are guarded by \<open>requireBytes\<close>. The \<open>BytesReader\<close> and \<open>deserializeTransaction\<close> of the
  transaction library are the fields of \<open>tx_codec\<close>: each reads at an offset and answers the value
  and the offset after it, or throws. \<open>encode_block\<close> is the wire format the header comment states;
  the round trip is proved against it, with \<open>reads_back\<close> the contract of the library's reader.
\<close>

type_synonym byte = "8 word"
type_synonym bytes = "byte list"

record 'tx tx_codec =
  readUInt32BE :: "bytes \<Rightarrow> nat \<Rightarrow> string + nat \<times> nat"
  deserializeTransaction :: "bytes \<Rightarrow> nat \<Rightarrow> string + 'tx \<times> nat"
  tcTxid :: "'tx \<Rightarrow> string"
  tcSerialize :: "'tx \<Rightarrow> string"

datatype block_error =
    EndedMidHeader
  | ReaderError string
  | TransactionUndecodable nat
  | NotConsumedExactly

subsection \<open>The header walk\<close>

definition FIXED_HEADER_BYTES :: nat where "FIXED_HEADER_BYTES = 206"
definition MESSAGE_SIGNATURE_BYTES :: nat where "MESSAGE_SIGNATURE_BYTES = 65"
definition PROBLEMATIC_TX_MARKER_BYTES :: nat where "PROBLEMATIC_TX_MARKER_BYTES = 5"
definition HEADER_VERSION_MASK :: byte where "HEADER_VERSION_MASK = 0x7f"
definition HEADER_VERSION_EPOCH_4 :: nat where "HEADER_VERSION_EPOCH_4 = 1"

definition requireBytes :: "bytes \<Rightarrow> nat \<Rightarrow> nat \<Rightarrow> block_error + unit" where
  "requireBytes block offset len = guardr (offset + len \<le> length block) EndedMidHeader"

text \<open>\<open>DataView.getUint32\<close> is big-endian; every use is inside the required bytes.\<close>

definition getUint32 :: "bytes \<Rightarrow> nat \<Rightarrow> nat" where
  "getUint32 block i =
     unat (block ! i) * 2 ^ 24 + unat (block ! (i + 1)) * 2 ^ 16 + unat (block ! (i + 2)) * 2 ^ 8 +
     unat (block ! (i + 3))"

definition hasMarkers :: "byte \<Rightarrow> bool" where
  "hasMarkers version \<longleftrightarrow> HEADER_VERSION_EPOCH_4 \<le> unat (version AND HEADER_VERSION_MASK)"

definition transactionArrayOffset :: "bytes \<Rightarrow> block_error + nat" where
  "transactionArrayOffset block =
     bindr (requireBytes block 0 (FIXED_HEADER_BYTES + 4)) (\<lambda>_.
     let version = block ! 0;
         offset = FIXED_HEADER_BYTES;
         signatures = getUint32 block offset;
         offset = offset + 4 in
     bindr (requireBytes block offset (signatures * MESSAGE_SIGNATURE_BYTES)) (\<lambda>_.
     let offset = offset + signatures * MESSAGE_SIGNATURE_BYTES in
     bindr (requireBytes block offset 6) (\<lambda>_.
     let offset = offset + 2;
         bitvecBytes = getUint32 block offset;
         offset = offset + 4 in
     bindr (requireBytes block offset bitvecBytes) (\<lambda>_.
     let offset = offset + bitvecBytes in
     if hasMarkers version
     then bindr (requireBytes block offset 4) (\<lambda>_.
          let markers = getUint32 block offset;
              offset = offset + 4 in
          bindr (requireBytes block offset (markers * PROBLEMATIC_TX_MARKER_BYTES)) (\<lambda>_.
          Inr (offset + markers * PROBLEMATIC_TX_MARKER_BYTES)))
     else Inr offset))))"

subsection \<open>The transaction walk\<close>

text \<open>The loop with \<open>n\<close> transactions to go: the visited transactions in order and the final offset.\<close>

fun visit_transactions :: "'tx tx_codec \<Rightarrow> bytes \<Rightarrow> nat \<Rightarrow> nat \<Rightarrow> nat \<Rightarrow> block_error + 'tx list \<times> nat" where
  "visit_transactions T block 0 index offset = Inr ([], offset)"
| "visit_transactions T block (Suc n) index offset =
     (case deserializeTransaction T block offset of
        Inl _ \<Rightarrow> Inl (TransactionUndecodable index)
      | Inr (tx, offset') \<Rightarrow>
          bindr (visit_transactions T block n (index + 1) offset') (\<lambda>(txs, end).
          Inr (tx # txs, end)))"

definition walkNakamotoBlockTransactions :: "'tx tx_codec \<Rightarrow> bytes \<Rightarrow> block_error + 'tx list" where
  "walkNakamotoBlockTransactions T block =
     bindr (transactionArrayOffset block) (\<lambda>offset.
     case readUInt32BE T block offset of
       Inl e \<Rightarrow> Inl (ReaderError e)
     | Inr (count, offset') \<Rightarrow>
         bindr (visit_transactions T block count 0 offset') (\<lambda>(txs, end).
         bindr (guardr (end = length block) NotConsumedExactly) (\<lambda>_. Inr txs)))"

definition prefixed_txid :: "'tx tx_codec \<Rightarrow> 'tx \<Rightarrow> txid" where
  "prefixed_txid T tx = ''0x'' @ to_lower (tcTxid T tx)"

definition readNakamotoBlockTxids :: "'tx tx_codec \<Rightarrow> bytes \<Rightarrow> block_error + txid list" where
  "readNakamotoBlockTxids T block =
     bindr (walkNakamotoBlockTransactions T block) (\<lambda>txs. Inr (map (prefixed_txid T) txs))"

text \<open>The visitor keeps the last transaction whose id matches.\<close>

definition keep_match :: "'tx tx_codec \<Rightarrow> string \<Rightarrow> 'tx \<Rightarrow> 'tx option \<Rightarrow> 'tx option" where
  "keep_match T txId tx match = (if prefixed_txid T tx = to_lower txId then Some tx else match)"

definition findNakamotoBlockTransaction ::
    "'tx tx_codec \<Rightarrow> bytes \<Rightarrow> string \<Rightarrow> block_error + 'tx option" where
  "findNakamotoBlockTransaction T block txId =
     bindr (walkNakamotoBlockTransactions T block) (\<lambda>txs. Inr (fold (keep_match T txId) txs None))"

definition nakamotoBlockContainsTxid :: "'tx tx_codec \<Rightarrow> bytes \<Rightarrow> string \<Rightarrow> block_error + bool" where
  "nakamotoBlockContainsTxid T block txId =
     bindr (readNakamotoBlockTxids T block) (\<lambda>txids. Inr (to_lower txId \<in> set txids))"

lemma fold_keep_match:
  "fold (keep_match T txId) txs m =
     (case filter (\<lambda>tx. prefixed_txid T tx = to_lower txId) (rev txs) of [] \<Rightarrow> m | tx # _ \<Rightarrow> Some tx)"
proof (induction txs arbitrary: m)
  case (Cons tx txs)
  then show ?case
    by (cases "filter (\<lambda>tx. prefixed_txid T tx = to_lower txId) (rev txs)")
      (simp_all add: keep_match_def)
qed simp

lemma fold_keep_match_Some:
  assumes "fold (keep_match T txId) txs None = Some tx"
  shows "tx \<in> set txs \<and> prefixed_txid T tx = to_lower txId"
proof -
  obtain rest where "filter (\<lambda>tx. prefixed_txid T tx = to_lower txId) (rev txs) = tx # rest"
    using assms unfolding fold_keep_match by (simp split: list.splits)
  then have "tx \<in> set (filter (\<lambda>tx. prefixed_txid T tx = to_lower txId) (rev txs))"
    by simp
  then show ?thesis
    by simp
qed

lemma fold_keep_match_None:
  "fold (keep_match T txId) txs None = None \<longleftrightarrow> to_lower txId \<notin> set (map (prefixed_txid T) txs)"
proof -
  have "fold (keep_match T txId) txs None = None \<longleftrightarrow>
      filter (\<lambda>tx. prefixed_txid T tx = to_lower txId) (rev txs) = []"
    unfolding fold_keep_match by (simp split: list.splits)
  then show ?thesis
    by (simp only: filter_empty_conv set_rev set_map image_iff) metis
qed

lemma find_contains:
  "nakamotoBlockContainsTxid T block txId =
     bindr (findNakamotoBlockTransaction T block txId) (\<lambda>match. Inr (match \<noteq> None))"
proof (cases "walkNakamotoBlockTransactions T block")
  case (Inr txs)
  then show ?thesis
    using fold_keep_match_None [of T txId txs]
    by (simp add: nakamotoBlockContainsTxid_def readNakamotoBlockTxids_def
        findNakamotoBlockTransaction_def del: not_None_eq)
qed (simp add: nakamotoBlockContainsTxid_def readNakamotoBlockTxids_def findNakamotoBlockTransaction_def)

subsection \<open>The wire format\<close>

definition u32_bytes :: "nat \<Rightarrow> bytes" where
  "u32_bytes n = [of_nat (n div 2 ^ 24), of_nat (n div 2 ^ 16), of_nat (n div 2 ^ 8), of_nat n]"

record 'tx block =
  bkVersion :: byte
  bkPrefix :: bytes
  bkSignatures :: "bytes list"
  bkBitLength :: bytes
  bkBits :: bytes
  bkMarkers :: "bytes list"
  bkTransactions :: "'tx list"

definition vector :: "bytes list \<Rightarrow> bytes" where
  "vector xs = u32_bytes (length xs) @ concat xs"

definition encode_block :: "('tx \<Rightarrow> bytes) \<Rightarrow> 'tx block \<Rightarrow> bytes" where
  "encode_block enc b =
     bkVersion b # bkPrefix b @ vector (bkSignatures b) @ bkBitLength b @
     vector (map (\<lambda>x. [x]) (bkBits b)) @
     (if hasMarkers (bkVersion b) then vector (bkMarkers b) else []) @
     vector (map enc (bkTransactions b))"

definition block_ok :: "'tx block \<Rightarrow> bool" where
  "block_ok b \<longleftrightarrow>
     length (bkPrefix b) = 205 \<and> length (bkBitLength b) = 2 \<and>
     list_all (\<lambda>s. length s = 65) (bkSignatures b) \<and> list_all (\<lambda>m. length m = 5) (bkMarkers b) \<and>
     length (bkSignatures b) < 2 ^ 32 \<and> length (bkBits b) < 2 ^ 32 \<and>
     length (bkMarkers b) < 2 ^ 32 \<and> length (bkTransactions b) < 2 ^ 32"

text \<open>What the transaction library promises: a reader placed before an encoded value reads it.\<close>

definition reads_back :: "'tx tx_codec \<Rightarrow> ('tx \<Rightarrow> bytes) \<Rightarrow> 'tx list \<Rightarrow> bool" where
  "reads_back T enc txs \<longleftrightarrow>
     (\<forall>pre post n. n < 2 ^ 32 \<longrightarrow>
        readUInt32BE T (pre @ u32_bytes n @ post) (length pre) = Inr (n, length pre + 4)) \<and>
     (\<forall>pre post. \<forall>tx \<in> set txs.
        deserializeTransaction T (pre @ enc tx @ post) (length pre) = Inr (tx, length pre + length (enc tx)))"

lemma length_u32_bytes [simp]: "length (u32_bytes n) = 4"
  by (simp add: u32_bytes_def)

lemma unat_byte: "unat (of_nat n :: byte) = n mod 256"
  by (simp add: unat_of_nat)

lemma u32_digits:
  assumes "n < 2 ^ 32"
  shows "(n div 2 ^ 24 mod 256) * 2 ^ 24 + (n div 2 ^ 16 mod 256) * 2 ^ 16 +
     (n div 2 ^ 8 mod 256) * 2 ^ 8 + n mod 256 = (n::nat)"
proof -
  define q where "q = n div 256"
  define r where "r = q div 256"
  define s where "s = r div 256"
  have q: "n = q * 256 + n mod 256" and r: "q = r * 256 + q mod 256" and s: "r = s * 256 + r mod 256"
    unfolding q_def r_def s_def by simp_all
  have d: "n div 2 ^ 8 = q" "n div 2 ^ 16 = r" "n div 2 ^ 24 = s"
    unfolding q_def r_def s_def by (simp_all add: div_mult2_eq [symmetric])
  have "s < 256"
    using assms d(3) by (simp add: less_mult_imp_div_less)
  then show ?thesis
    unfolding d using q r s by simp
qed

lemma getUint32_read:
  assumes "block = pre @ u32_bytes n @ post" "i = length pre" "n < 2 ^ 32"
  shows "getUint32 block i = n"
proof -
  have "n div 16777216 < 256"
    using assms(3) by (simp add: less_mult_imp_div_less)
  then show ?thesis
    using u32_digits [OF assms(3)] unfolding getUint32_def u32_bytes_def assms(1,2)
    by (simp add: nth_append unat_byte)
qed

lemma length_concat_const: "list_all (\<lambda>x. length x = k) xs \<Longrightarrow> length (concat xs) = length xs * k"
  by (induction xs) auto

lemma transactionArrayOffset_encoded:
  assumes "block_ok b"
  defines "head \<equiv> bkVersion b # bkPrefix b @ vector (bkSignatures b) @ bkBitLength b @
     vector (map (\<lambda>x. [x]) (bkBits b)) @ (if hasMarkers (bkVersion b) then vector (bkMarkers b) else [])"
  assumes "rest \<noteq> []"
  shows "transactionArrayOffset (head @ rest) = Inr (length head)"
proof -
  let ?sig = "concat (bkSignatures b)" and ?mark = "if hasMarkers (bkVersion b) then vector (bkMarkers b) else []"
  let ?p1 = "bkVersion b # bkPrefix b"
  let ?p2 = "?p1 @ vector (bkSignatures b) @ bkBitLength b"
  let ?p3 = "?p2 @ u32_bytes (length (bkBits b)) @ bkBits b"
  have bits: "vector (map (\<lambda>x. [x]) (bkBits b)) = u32_bytes (length (bkBits b)) @ bkBits b"
    by (simp add: vector_def)
  have len: "length ?sig = length (bkSignatures b) * 65" "length (concat (bkMarkers b)) = length (bkMarkers b) * 5"
    using assms(1) by (auto simp: block_ok_def intro!: length_concat_const)
  have sig: "getUint32 (head @ rest) 206 = length (bkSignatures b)"
    by (rule getUint32_read [where pre = ?p1]) (use assms(1) in \<open>simp_all add: head_def vector_def block_ok_def\<close>)
  have vec: "getUint32 (head @ rest) (212 + length (bkSignatures b) * 65) = length (bkBits b)"
    by (rule getUint32_read [where pre = ?p2])
      (use assms(1) len in \<open>simp_all add: head_def vector_def block_ok_def\<close>)
  have mark: "getUint32 (head @ rest) (216 + length (bkSignatures b) * 65 + length (bkBits b)) =
      length (bkMarkers b)" if "hasMarkers (bkVersion b)"
    by (rule getUint32_read [where pre = ?p3])
      (use assms(1) len that in \<open>simp_all add: head_def vector_def block_ok_def\<close>)
  have size: "length head = 216 + length (bkSignatures b) * 65 + length (bkBits b) +
      (if hasMarkers (bkVersion b) then 4 + length (bkMarkers b) * 5 else 0)"
    using assms(1) len by (simp add: head_def vector_def block_ok_def)
  have version: "(head @ rest) ! 0 = bkVersion b"
    by (simp add: head_def)
  show ?thesis
    using sig vec mark size version
    by (simp add: transactionArrayOffset_def requireBytes_def guardr_def Let_def
        FIXED_HEADER_BYTES_def MESSAGE_SIGNATURE_BYTES_def PROBLEMATIC_TX_MARKER_BYTES_def ac_simps)
qed

lemma visit_encoded:
  assumes "reads_back T enc all" "set txs \<subseteq> set all"
  shows "visit_transactions T (pre @ concat (map enc txs) @ post) (length txs) index (length pre) =
     Inr (txs, length pre + length (concat (map enc txs)))"
  using assms(2)
proof (induction txs arbitrary: pre index)
  case (Cons tx txs)
  have "deserializeTransaction T (pre @ enc tx @ concat (map enc txs) @ post) (length pre) =
      Inr (tx, length pre + length (enc tx))"
    using assms(1) Cons.prems by (simp add: reads_back_def)
  then show ?case
    using Cons.IH [of "pre @ enc tx" "Suc index"] Cons.prems by simp
qed simp

text \<open>A reader of one-byte transactions.\<close>

definition byte_codec :: "byte tx_codec" where
  "byte_codec = \<lparr>
     readUInt32BE = (\<lambda>b i. if i + 4 \<le> length b then Inr (getUint32 b i, i + 4) else Inl ''range''),
     deserializeTransaction = (\<lambda>b i. if i < length b then Inr (b ! i, i + 1) else Inl ''range''),
     tcTxid = (\<lambda>t. if t = 7 then ''AA'' else ''bb''), tcSerialize = (\<lambda>t. ''00'')\<rparr>"

definition demo_block :: "byte block" where
  "demo_block = \<lparr>bkVersion = 0x81, bkPrefix = replicate 205 0, bkSignatures = [replicate 65 1, replicate 65 2],
     bkBitLength = [0, 3], bkBits = [5], bkMarkers = [replicate 5 4], bkTransactions = [7, 9]\<rparr>"

lemma byte_codec_reads_back: "reads_back byte_codec (\<lambda>t. [t]) txs"
  unfolding reads_back_def by (simp add: byte_codec_def getUint32_read [OF refl refl])

lemma demo_block_ok: "block_ok demo_block"
  by (simp add: block_ok_def demo_block_def)

text \<open>
  C29: a block's transactions are recovered exactly or not at all. For every block in the wire format,
  with any number of signer signatures, any signer bitmap and, from header version 1 on, any
  problematic-transaction markers, walking its bytes yields its transactions in order; and the same
  bytes followed by anything more are refused rather than read in part.
\<close>
theorem block_transactions_roundtrip:
  assumes "block_ok b" "reads_back T enc (bkTransactions b)"
  shows "walkNakamotoBlockTransactions T (encode_block enc b @ extra) =
     (if extra = [] then Inr (bkTransactions b) else Inl NotConsumedExactly)"
proof -
  define head where "head = bkVersion b # bkPrefix b @ vector (bkSignatures b) @ bkBitLength b @
     vector (map (\<lambda>x. [x]) (bkBits b)) @ (if hasMarkers (bkVersion b) then vector (bkMarkers b) else [])"
  define n where "n = length (bkTransactions b)"
  define body where "body = concat (map enc (bkTransactions b))"
  have block: "encode_block enc b @ extra = head @ u32_bytes n @ body @ extra"
    by (simp add: encode_block_def head_def n_def body_def vector_def)
  have offset: "transactionArrayOffset (head @ u32_bytes n @ body @ extra) = Inr (length head)"
    using transactionArrayOffset_encoded [OF assms(1), of "u32_bytes n @ body @ extra"]
    unfolding head_def by (simp add: u32_bytes_def)
  have count: "readUInt32BE T (head @ u32_bytes n @ body @ extra) (length head) = Inr (n, length head + 4)"
    using assms by (simp add: reads_back_def block_ok_def n_def)
  have visit: "visit_transactions T (head @ u32_bytes n @ body @ extra) n 0 (length head + 4) =
      Inr (bkTransactions b, length head + 4 + length body)"
    using visit_encoded [OF assms(2) order_refl, of "head @ u32_bytes n" extra 0] by (simp add: n_def body_def)
  show ?thesis
    unfolding block walkNakamotoBlockTransactions_def by (simp add: offset count visit guardr_def)
qed

theorem block_transactions_roundtrip_witness:
  "walkNakamotoBlockTransactions byte_codec (encode_block (\<lambda>t. [t]) demo_block) = Inr [7, 9] \<and>
   walkNakamotoBlockTransactions byte_codec (encode_block (\<lambda>t. [t]) demo_block @ [0]) = Inl NotConsumedExactly"
  using block_transactions_roundtrip [OF demo_block_ok byte_codec_reads_back, of "[]"]
    block_transactions_roundtrip [OF demo_block_ok byte_codec_reads_back, of "[0]"]
  by (simp add: demo_block_def)

end
