(* ===== verification/Transaction_Outcome.thy ===== *)
theory Transaction_Outcome
  imports Run_Tick Nakamoto_Block
begin

text \<open>
  The verified outcome of a submitted transaction: canonical-block proofs from the local node
  (apps/sidekick/src/canonical-node-block.ts), the configured API's execution evidence
  (canonical-api-transaction.ts) and the triage of both (submitted-transaction-outcome.ts).

  Every network read is a field of \<open>node_reads\<close> or \<open>api_reads\<close> and either answers or throws an
  \<open>engine_error\<close>. Where two reads are awaited together and both fail, the model reports the first of
  them; which of the two JavaScript reports depends on their timing. The reader's
  \<open>lookupIndexedTransaction\<close> is the argument \<open>indexed\<close>, \<open>None\<close> when it throws. \<open>allow\<close> is what
  \<open>allowApiEvidence\<close> evaluates to when it is consulted.
\<close>

record node_reads =
  getTenureInfo :: "engine_error + nat \<times> string"
  getNakamotoBlockById :: "string \<Rightarrow> engine_error + bytes"
  getNakamotoBlockAtHeight :: "nat \<Rightarrow> string \<Rightarrow> engine_error + bytes"

subsection \<open>The node's canonical block\<close>

datatype 'tx transaction_proof = Included 'tx | Absent | Reorged

fun block_error_text :: "block_error \<Rightarrow> string" where
  "block_error_text EndedMidHeader = ''Nakamoto block ended mid-header''"
| "block_error_text (ReaderError m) = m"
| "block_error_text (TransactionUndecodable i) =
     ''Nakamoto block transaction '' @ dec_text i @ '' could not be deserialized''"
| "block_error_text NotConsumedExactly = ''Nakamoto block transactions did not consume the block exactly''"

definition sameBytes :: "bytes \<Rightarrow> bytes \<Rightarrow> bool" where
  "sameBytes left right \<longleftrightarrow> length left = length right \<and> left = right"

definition canonicalBlockBytes :: "node_reads \<Rightarrow> nat \<Rightarrow> string \<Rightarrow> engine_error + bytes option" where
  "canonicalBlockBytes node blockHeight indexBlockHash =
     bindr (getTenureInfo node) (\<lambda>(tip_height, tip_block_id).
     bindr (guardr (\<not> tip_height < blockHeight)
       (UpstreamUnavailableError ''Local node has not reached the indexed transaction block'')) (\<lambda>_.
     bindr (getNakamotoBlockById node indexBlockHash) (\<lambda>identified.
     bindr (getNakamotoBlockAtHeight node blockHeight tip_block_id) (\<lambda>canonical.
     Inr (if sameBytes identified canonical then Some identified else None)))))"

definition checkTransactionInCanonicalBlock ::
    "'tx tx_codec \<Rightarrow> node_reads \<Rightarrow> nat \<Rightarrow> string \<Rightarrow> string \<Rightarrow> engine_error + 'tx transaction_proof" where
  "checkTransactionInCanonicalBlock T node blockHeight indexBlockHash txId =
     bindr (canonicalBlockBytes node blockHeight indexBlockHash) (\<lambda>block.
     case block of
       None \<Rightarrow> Inr Reorged
     | Some bytes \<Rightarrow>
         (case findNakamotoBlockTransaction T bytes txId of
            Inl e \<Rightarrow> Inl (OtherError (block_error_text e))
          | Inr (Some tx) \<Rightarrow> Inr (Included tx)
          | Inr None \<Rightarrow> Inr Absent))"

datatype block_check = CanonicalBlock | ReorgedBlock

definition checkCanonicalNodeBlock :: "node_reads \<Rightarrow> nat \<Rightarrow> string \<Rightarrow> engine_error + block_check" where
  "checkCanonicalNodeBlock node blockHeight indexBlockHash =
     bindr (canonicalBlockBytes node blockHeight indexBlockHash) (\<lambda>block.
     Inr (if block \<noteq> None then CanonicalBlock else ReorgedBlock))"

definition proveTransactionInCanonicalBlock ::
    "'tx tx_codec \<Rightarrow> node_reads \<Rightarrow> nat \<Rightarrow> string \<Rightarrow> string \<Rightarrow> engine_error + unit" where
  "proveTransactionInCanonicalBlock T node blockHeight indexBlockHash txId =
     bindr (checkTransactionInCanonicalBlock T node blockHeight indexBlockHash txId) (\<lambda>proof.
     case proof of
       Reorged \<Rightarrow> Inl (OtherError ''Indexed transaction block is not canonical according to the local node'')
     | Absent \<Rightarrow> Inl (OtherError (''Transaction '' @ txId @
         '' is absent from the local node's canonical block at height '' @ dec_text blockHeight))
     | Included _ \<Rightarrow> Inr ())"

subsection \<open>The configured API's evidence\<close>

datatype executed_status = TxSuccess | AbortByResponse | AbortByPostCondition

record executed_detail =
  edStatus :: executed_status
  edResultRepr :: string
  edCanonical :: bool
  edBlockHash :: "string option"
  edBlockHeight :: nat

datatype transaction_detail = Executed (tdTxid: txid) executed_detail | Unexecuted (tdTxid: txid) string

record api_block =
  abCanonical :: bool
  abHeight :: nat
  abHash :: string
  abIndexBlockHash :: string

record api_reads =
  getNodeInfo :: "engine_error + int"
  getTransactionDetails :: "txid \<Rightarrow> engine_error + transaction_detail"
  getBlock :: "string \<Rightarrow> engine_error + api_block"

record api_receipt =
  arTxid :: txid
  arBlockHeight :: nat
  arIndexBlockHash :: string
  arSuccess :: bool
  arResultRepr :: string
  arTransactionHex :: "string option"
  arSource :: execution_source

datatype conflict_reason = ReorgedConflict | AbsentConflict

datatype api_lookup =
    LookupObserved api_receipt
  | LookupNotFound
  | LookupConflict conflict_reason nat string
  | LookupUnavailable string "int option"

definition unavailable :: "engine_error \<Rightarrow> api_lookup" where
  "unavailable e = LookupUnavailable (error_message e)
     (case e of RateLimitedError _ after \<Rightarrow> after | _ \<Rightarrow> None)"

definition api_records ::
    "api_reads \<Rightarrow> int \<Rightarrow> txid \<Rightarrow> api_lookup + transaction_detail" where
  "api_records api chainId txId =
     (case getNodeInfo api of
        Inl e \<Rightarrow> Inl (case e of UpstreamHttpError _ st \<Rightarrow> if st = 404 then LookupNotFound else unavailable e
                             | _ \<Rightarrow> unavailable e)
      | Inr network_id \<Rightarrow>
          if network_id \<noteq> chainId
          then Inl (LookupUnavailable ''Configured API is on a different network'' None)
          else (case getTransactionDetails api txId of
              Inl e \<Rightarrow> Inl (case e of UpstreamHttpError _ st \<Rightarrow> if st = 404 then LookupNotFound else unavailable e
                                   | _ \<Rightarrow> unavailable e)
            | Inr details \<Rightarrow> Inr details))"

definition lookupCanonicalApiTransaction ::
    "'tx tx_codec \<Rightarrow> node_reads \<Rightarrow> api_reads \<Rightarrow> int \<Rightarrow> txid \<Rightarrow> engine_error + bool \<Rightarrow> api_lookup" where
  "lookupCanonicalApiTransaction T node api chainId txId allow =
     (case api_records api chainId txId of
        Inl result \<Rightarrow> result
      | Inr details \<Rightarrow>
          if tdTxid details \<noteq> txId
          then LookupUnavailable ''Configured API returned a different transaction'' None
          else (case details of
            Unexecuted _ _ \<Rightarrow> LookupNotFound
          | Executed tx_id d \<Rightarrow>
              (case (edCanonical d, edBlockHash d) of
                 (True, Some block_hash) \<Rightarrow>
                   (case getBlock api block_hash of
                      Inl e \<Rightarrow> unavailable e
                    | Inr block \<Rightarrow>
                        if \<not> abCanonical block \<or> abHash block \<noteq> block_hash \<or> abHeight block \<noteq> edBlockHeight d
                        then LookupUnavailable
                               ''Configured API transaction and block records are not coherent'' None
                        else
                          let receipt = \<lparr>arTxid = tx_id, arBlockHeight = abHeight block,
                                arIndexBlockHash = abIndexBlockHash block,
                                arSuccess = (edStatus d = TxSuccess), arResultRepr = edResultRepr d,
                                arTransactionHex = None, arSource = ApiSource\<rparr> in
                          (case checkTransactionInCanonicalBlock T node (abHeight block)
                                  (abIndexBlockHash block) txId of
                             Inl e \<Rightarrow>
                               (case allow of
                                  Inl e' \<Rightarrow> unavailable e'
                                | Inr allowed \<Rightarrow> if \<not> allowed then unavailable e else LookupObserved receipt)
                           | Inr Reorged \<Rightarrow>
                               LookupConflict ReorgedConflict (abHeight block) (abIndexBlockHash block)
                           | Inr Absent \<Rightarrow>
                               LookupConflict AbsentConflict (abHeight block) (abIndexBlockHash block)
                           | Inr (Included tx) \<Rightarrow>
                               LookupObserved (receipt\<lparr>arTransactionHex := Some (tcSerialize T tx),
                                 arSource := ApiWithNode\<rparr>)))
               | _ \<Rightarrow> LookupUnavailable ''Configured API has no canonical transaction block'' None)))"

subsection \<open>The outcome\<close>

record indexed_transaction =
  ixBlockHeight :: "int option"
  ixIsCanonical :: bool
  ixResultRepr :: string

datatype indexed_lookup = IndexedObserved indexed_transaction | IndexedUnanswered

datatype submitted_outcome =
    OutcomeConfirmed bool string nat execution_source
  | OutcomeConflict string
  | OutcomePending bool "int option"

definition isSafeInteger :: "int \<Rightarrow> bool" where
  "isSafeInteger n \<longleftrightarrow> \<bar>n\<bar> \<le> 2 ^ 53 - 1"

fun conflict_text :: "conflict_reason \<Rightarrow> string" where
  "conflict_text ReorgedConflict = ''reorged''"
| "conflict_text AbsentConflict = ''absent''"

definition readSubmittedTransactionOutcome ::
    "'tx tx_codec \<Rightarrow> node_reads \<Rightarrow> api_reads \<Rightarrow> int \<Rightarrow> txid \<Rightarrow> engine_error + bool
     \<Rightarrow> indexed_lookup option \<Rightarrow> submitted_outcome" where
  "readSubmittedTransactionOutcome T node api chainId txId allow indexed =
     (case indexed of
        Some (IndexedObserved v) \<Rightarrow>
          if \<not> ixIsCanonical v then OutcomeConflict ''Transaction became noncanonical''
          else (case ixBlockHeight v of
              None \<Rightarrow> OutcomePending False None
            | Some h \<Rightarrow>
                if \<not> isSafeInteger h \<or> h < 0 then OutcomePending True None
                else OutcomeConfirmed (starts_with ''(ok'' (trim (ixResultRepr v))) (ixResultRepr v)
                       (nat h) NodeSource)
      | _ \<Rightarrow>
          (case lookupCanonicalApiTransaction T node api chainId txId allow of
             LookupConflict reason _ _ \<Rightarrow>
               OutcomeConflict (''Canonical transaction conflict: '' @ conflict_text reason)
           | LookupObserved r \<Rightarrow>
               OutcomeConfirmed (arSuccess r) (arResultRepr r) (arBlockHeight r) (arSource r)
           | LookupUnavailable _ after \<Rightarrow> OutcomePending True after
           | LookupNotFound \<Rightarrow> OutcomePending False None))"

subsection \<open>What counts as evidence\<close>

text \<open>The node's index names a canonical block of the transaction.\<close>

definition node_record :: "indexed_lookup option \<Rightarrow> nat \<Rightarrow> string \<Rightarrow> bool" where
  "node_record indexed height repr \<longleftrightarrow>
     (\<exists>v. indexed = Some (IndexedObserved v) \<and> ixIsCanonical v \<and> ixBlockHeight v = Some (int height) \<and>
        int height \<le> 2 ^ 53 - 1 \<and> ixResultRepr v = repr)"

text \<open>
  The configured API, on the right network, reports the transaction executed in a block that it also
  reports canonical, under the same hash and height.
\<close>

definition api_record :: "api_reads \<Rightarrow> int \<Rightarrow> txid \<Rightarrow> executed_detail \<Rightarrow> string \<Rightarrow> bool" where
  "api_record api chainId txId d index_hash \<longleftrightarrow>
     getNodeInfo api = Inr chainId \<and>
     getTransactionDetails api txId = Inr (Executed txId d) \<and> edCanonical d \<and>
     (\<exists>block_hash block. edBlockHash d = Some block_hash \<and> getBlock api block_hash = Inr block \<and>
        abCanonical block \<and> abHash block = block_hash \<and> abHeight block = edBlockHeight d \<and>
        abIndexBlockHash block = index_hash)"

text \<open>
  The node has reached the height, serves the same bytes for the named block and for its canonical
  block at that height, and those bytes decode to transactions among which the transaction is.
\<close>

definition node_includes :: "'tx tx_codec \<Rightarrow> node_reads \<Rightarrow> nat \<Rightarrow> string \<Rightarrow> txid \<Rightarrow> bool" where
  "node_includes T node height index_hash txId \<longleftrightarrow>
     (\<exists>tip_height tip bytes txs. getTenureInfo node = Inr (tip_height, tip) \<and> height \<le> tip_height \<and>
        getNakamotoBlockById node index_hash = Inr bytes \<and>
        getNakamotoBlockAtHeight node height tip = Inr bytes \<and>
        walkNakamotoBlockTransactions T bytes = Inr txs \<and> to_lower txId \<in> set (map (prefixed_txid T) txs))"

text \<open>The node gives no answer about the block: a read fails, it lags, or the bytes do not decode.\<close>

definition node_silent :: "'tx tx_codec \<Rightarrow> node_reads \<Rightarrow> nat \<Rightarrow> string \<Rightarrow> txid \<Rightarrow> bool" where
  "node_silent T node height index_hash txId \<longleftrightarrow>
     (\<exists>e. checkTransactionInCanonicalBlock T node height index_hash txId = Inl e)"

lemma find_Some_iff:
  "(\<exists>tx. findNakamotoBlockTransaction T bytes txId = Inr (Some tx)) \<longleftrightarrow>
     (\<exists>txs. walkNakamotoBlockTransactions T bytes = Inr txs \<and> to_lower txId \<in> set (map (prefixed_txid T) txs))"
proof (cases "walkNakamotoBlockTransactions T bytes")
  case (Inr txs)
  then show ?thesis
    using fold_keep_match_None [of T txId txs]
    by (simp add: findNakamotoBlockTransaction_def del: not_None_eq flip: not_None_eq)
qed (simp add: findNakamotoBlockTransaction_def)

lemma included_iff:
  "(\<exists>tx. checkTransactionInCanonicalBlock T node height hash txId = Inr (Included tx)) \<longleftrightarrow>
     node_includes T node height hash txId"
proof -
  have "(\<exists>tx. checkTransactionInCanonicalBlock T node height hash txId = Inr (Included tx)) \<longleftrightarrow>
      (\<exists>bytes. canonicalBlockBytes node height hash = Inr (Some bytes) \<and>
         (\<exists>tx. findNakamotoBlockTransaction T bytes txId = Inr (Some tx)))"
    by (cases "canonicalBlockBytes node height hash")
      (simp_all add: checkTransactionInCanonicalBlock_def split: option.splits sum.splits)
  also have "\<dots> \<longleftrightarrow> node_includes T node height hash txId"
    unfolding find_Some_iff
    by (auto simp: canonicalBlockBytes_def node_includes_def sameBytes_def not_less)
  finally show ?thesis .
qed

lemma api_records_Inr:
  "api_records api chainId txId = Inr details \<longleftrightarrow>
     getNodeInfo api = Inr chainId \<and> getTransactionDetails api txId = Inr details"
  by (auto simp: api_records_def split: sum.splits)

lemma api_records_unsettled:
  "api_records api chainId txId = Inl r \<Longrightarrow> (\<forall>x. r \<noteq> LookupObserved x) \<and> (\<forall>c h i. r \<noteq> LookupConflict c h i)"
  by (auto simp: api_records_def unavailable_def split: sum.splits if_splits engine_error.splits)

text \<open>With a coherent API record the node's answer about the block decides.\<close>

lemma lookup_coherent:
  assumes "api_record api chainId txId d hash"
  shows "lookupCanonicalApiTransaction T node api chainId txId allow =
     (let receipt = \<lparr>arTxid = txId, arBlockHeight = edBlockHeight d, arIndexBlockHash = hash,
            arSuccess = (edStatus d = TxSuccess), arResultRepr = edResultRepr d,
            arTransactionHex = None, arSource = ApiSource\<rparr> in
      case checkTransactionInCanonicalBlock T node (edBlockHeight d) hash txId of
        Inl e \<Rightarrow> (case allow of Inl e' \<Rightarrow> unavailable e'
                   | Inr allowed \<Rightarrow> if allowed then LookupObserved receipt else unavailable e)
      | Inr Reorged \<Rightarrow> LookupConflict ReorgedConflict (edBlockHeight d) hash
      | Inr Absent \<Rightarrow> LookupConflict AbsentConflict (edBlockHeight d) hash
      | Inr (Included tx) \<Rightarrow> LookupObserved (receipt\<lparr>arTransactionHex := Some (tcSerialize T tx),
          arSource := ApiWithNode\<rparr>))"
proof -
  have "api_records api chainId txId = Inr (Executed txId d)"
    using assms by (simp add: api_records_Inr api_record_def)
  with assms show ?thesis
    by (auto simp: lookupCanonicalApiTransaction_def api_record_def Let_def split: sum.splits transaction_proof.splits)
qed

text \<open>Without one there is neither a receipt nor a conflict.\<close>

lemma lookup_incoherent:
  assumes "\<And>d hash. \<not> api_record api chainId txId d hash"
  shows "lookupCanonicalApiTransaction T node api chainId txId allow \<noteq> LookupObserved r"
    and "lookupCanonicalApiTransaction T node api chainId txId allow \<noteq> LookupConflict c h i"
proof -
  let ?l = "lookupCanonicalApiTransaction T node api chainId txId allow"
  have "?l \<noteq> LookupObserved r \<and> ?l \<noteq> LookupConflict c h i"
  proof (cases "api_records api chainId txId")
    case (Inl x)
    then show ?thesis
      using api_records_unsettled [OF Inl] by (simp add: lookupCanonicalApiTransaction_def)
  next
    case (Inr details)
    then have "getNodeInfo api = Inr chainId" "getTransactionDetails api txId = Inr details"
      by (simp_all add: api_records_Inr)
    then show ?thesis
      using assms unfolding lookupCanonicalApiTransaction_def Inr api_record_def
      by (auto simp: unavailable_def split: transaction_detail.splits bool.splits option.splits sum.splits)
  qed
  then show "?l \<noteq> LookupObserved r" "?l \<noteq> LookupConflict c h i" by simp_all
qed

lemma outcome_api:
  assumes "\<forall>v. indexed \<noteq> Some (IndexedObserved v)"
  shows "readSubmittedTransactionOutcome T node api chainId txId allow indexed =
     (case lookupCanonicalApiTransaction T node api chainId txId allow of
        LookupConflict reason _ _ \<Rightarrow> OutcomeConflict (''Canonical transaction conflict: '' @ conflict_text reason)
      | LookupObserved r \<Rightarrow> OutcomeConfirmed (arSuccess r) (arResultRepr r) (arBlockHeight r) (arSource r)
      | LookupUnavailable _ after \<Rightarrow> OutcomePending True after
      | LookupNotFound \<Rightarrow> OutcomePending False None)"
  using assms by (cases indexed rule: option.exhaust [case_product indexed_lookup.exhaust])
    (auto simp: readSubmittedTransactionOutcome_def split: indexed_lookup.splits)

lemma outcome_node:
  "readSubmittedTransactionOutcome T node api chainId txId allow (Some (IndexedObserved v)) =
     OutcomeConfirmed success repr height source \<longleftrightarrow>
   source = NodeSource \<and> node_record (Some (IndexedObserved v)) height repr \<and>
   success = starts_with ''(ok'' (trim repr)"
  by (auto simp: readSubmittedTransactionOutcome_def node_record_def isSafeInteger_def split: option.splits)

lemma confirmed_iff:
  "readSubmittedTransactionOutcome T node api chainId txId allow indexed =
     OutcomeConfirmed success repr height source \<longleftrightarrow>
   (source = NodeSource \<and> node_record indexed height repr \<and> success = starts_with ''(ok'' (trim repr)) \<or>
   (\<forall>v. indexed \<noteq> Some (IndexedObserved v)) \<and>
   (\<exists>d hash. api_record api chainId txId d hash \<and> success = (edStatus d = TxSuccess) \<and>
      repr = edResultRepr d \<and> height = edBlockHeight d \<and>
      (source = ApiWithNode \<and> node_includes T node height hash txId \<or>
       source = ApiSource \<and> node_silent T node height hash txId \<and> allow = Inr True))"
proof (cases "\<exists>v. indexed = Some (IndexedObserved v)")
  case True
  then show ?thesis by (auto simp: outcome_node)
next
  case unobserved: False
  then have no_record: "\<not> node_record indexed height repr"
    by (simp add: node_record_def)
  show ?thesis
  proof (cases "\<exists>d hash. api_record api chainId txId d hash")
    case False
    then show ?thesis
      using unobserved no_record lookup_incoherent [of api chainId txId T node allow]
      by (auto simp: outcome_api split: api_lookup.splits)
  next
    case True
    then obtain d hash where coherent: "api_record api chainId txId d hash"
      by blast
    have unique: "api_record api chainId txId d' hash' \<longleftrightarrow> d' = d \<and> hash' = hash" for d' hash'
      using coherent by (auto simp: api_record_def)
    show ?thesis
      using unobserved no_record
      by (cases "checkTransactionInCanonicalBlock T node (edBlockHeight d) hash txId")
        (auto simp: outcome_api lookup_coherent [OF coherent] unique node_silent_def Let_def unavailable_def
          simp flip: included_iff split: sum.splits transaction_proof.splits)
  qed
qed

text \<open>
  C25: exactly what a confirmed outcome rests on. A submitted transaction is reported confirmed, with
  its result, height and source, exactly when either the node's own transaction record places it in a
  canonical block, or the node has no such record, the configured API reports it executed in a block
  coherent with that API's own block record, and the local node proves that block canonical and the
  transaction one of those its bytes decode to; or, when the node cannot answer about the block at all,
  the caller allowed API evidence for the transaction.
\<close>
theorem confirmed_exactly_on_evidence:
  "readSubmittedTransactionOutcome T node api chainId txId allow indexed =
     OutcomeConfirmed success repr height source \<longleftrightarrow>
   (source = NodeSource \<and> node_record indexed height repr \<and> success = starts_with ''(ok'' (trim repr)) \<or>
   (\<forall>v. indexed \<noteq> Some (IndexedObserved v)) \<and>
   (\<exists>d hash. api_record api chainId txId d hash \<and> success = (edStatus d = TxSuccess) \<and>
      repr = edResultRepr d \<and> height = edBlockHeight d \<and>
      (source = ApiWithNode \<and> node_includes T node height hash txId \<or>
       source = ApiSource \<and> node_silent T node height hash txId \<and> allow = Inr True))"
  by (rule confirmed_iff)

text \<open>
  A chain that contradicts the transaction is never read as its confirmation. When the node
  answers that the block the API names is not its canonical block, or that the canonical block does
  not hold the transaction, the outcome is a conflict, whatever the caller allows.
\<close>

theorem positive_conflict_wins:
  assumes "\<forall>v. indexed \<noteq> Some (IndexedObserved v)" "api_record api chainId txId d hash"
    and "checkTransactionInCanonicalBlock T node (edBlockHeight d) hash txId = Inr p" "p \<in> {Reorged, Absent}"
  shows "readSubmittedTransactionOutcome T node api chainId txId allow indexed =
     OutcomeConflict (''Canonical transaction conflict: '' @ (if p = Reorged then ''reorged'' else ''absent''))"
  using assms(3,4) by (auto simp: outcome_api [OF assms(1)] lookup_coherent [OF assms(2)] Let_def)

text \<open>A node that serves another block at the height the API names.\<close>

definition demo_api :: api_reads where
  "demo_api = \<lparr>getNodeInfo = Inr 1,
     getTransactionDetails = (\<lambda>t. Inr (Executed t \<lparr>edStatus = TxSuccess, edResultRepr = ''(ok true)'',
       edCanonical = True, edBlockHash = Some ''h'', edBlockHeight = 7\<rparr>)),
     getBlock = (\<lambda>h. Inr \<lparr>abCanonical = True, abHeight = 7, abHash = h, abIndexBlockHash = ''i''\<rparr>)\<rparr>"

definition demo_node :: "bytes \<Rightarrow> bytes \<Rightarrow> node_reads" where
  "demo_node named canonical = \<lparr>getTenureInfo = Inr (9, ''tip''),
     getNakamotoBlockById = (\<lambda>_. Inr named), getNakamotoBlockAtHeight = (\<lambda>_ _. Inr canonical)\<rparr>"

theorem positive_conflict_wins_witness:
  "\<exists>d. api_record demo_api 1 ''0xaa'' d ''i'' \<and>
     readSubmittedTransactionOutcome (byte_codec :: byte tx_codec) (demo_node [1] [2]) demo_api 1 ''0xaa'' (Inr True) None =
       OutcomeConflict ''Canonical transaction conflict: reorged''"
proof -
  let ?d = "\<lparr>edStatus = TxSuccess, edResultRepr = ''(ok true)'', edCanonical = True,
    edBlockHash = Some ''h'', edBlockHeight = 7\<rparr>"
  have coherent: "api_record demo_api 1 ''0xaa'' ?d ''i''"
    by (simp add: api_record_def demo_api_def)
  have reorged: "checkTransactionInCanonicalBlock (byte_codec :: byte tx_codec) (demo_node [1] [2])
      (edBlockHeight ?d) ''i'' ''0xaa'' = Inr Reorged"
    by (simp add: checkTransactionInCanonicalBlock_def canonicalBlockBytes_def demo_node_def sameBytes_def)
  show ?thesis
    using coherent positive_conflict_wins [OF _ coherent reorged, of None "Inr True"] by auto
qed

end
