(* ===== verification/Fee_Policy.thy ===== *)
theory Fee_Policy
  imports Prelude
begin

text \<open>
  The fee a transaction pays (apps/sidekick/src/transaction-engine/fee-policy.ts), and the fee of a
  sweep (\<open>#estimateFee\<close> of apps/sidekick/src/gas-wallet.ts). Amounts are bigints, hence \<open>int\<close>.
\<close>

record fee_policy =
  fpMinimum :: int
  fpStandard :: int
  fpMaximum :: int

datatype fee_basis = EstimateBasis | MinimumBasis | StandardCeiling | DefaultBasis

record fee_selection =
  fsFee :: int
  fsBasis :: fee_basis
  fsEstimate :: "int option"

text \<open>A live observation of the node's fee estimates: the middle one, or a read without a value.\<close>

datatype fee_observation = FeeObserved int | FeeUnobserved

definition selectTransactionFee :: "fee_observation option \<Rightarrow> fee_policy \<Rightarrow> fee_selection" where
  "selectTransactionFee estimate policy =
     (let ceiling = min (fpStandard policy) (fpMaximum policy);
          floor = min (fpMinimum policy) ceiling;
          middle = (case estimate of Some (FeeObserved m) \<Rightarrow> Some m | _ \<Rightarrow> None) in
      case middle of
        None \<Rightarrow> \<lparr>fsFee = floor, fsBasis = DefaultBasis, fsEstimate = None\<rparr>
      | Some m \<Rightarrow>
          if m \<le> 0 then \<lparr>fsFee = floor, fsBasis = DefaultBasis, fsEstimate = None\<rparr>
          else if m > ceiling then \<lparr>fsFee = ceiling, fsBasis = StandardCeiling, fsEstimate = Some m\<rparr>
          else if m < floor then \<lparr>fsFee = floor, fsBasis = MinimumBasis, fsEstimate = Some m\<rparr>
          else \<lparr>fsFee = m, fsBasis = EstimateBasis, fsEstimate = Some m\<rparr>)"

text \<open>The estimate of a sweep: the read may throw (\<open>None\<close>), and the policy is optional.\<close>

definition estimateFee :: "fee_policy option \<Rightarrow> fee_observation option \<Rightarrow> int \<Rightarrow> int" where
  "estimateFee policy estimate cap = (case estimate of
       None \<Rightarrow> (case policy of Some p \<Rightarrow> fsFee (selectTransactionFee None p) | None \<Rightarrow> cap)
     | Some est \<Rightarrow>
         (case policy of Some p \<Rightarrow> fsFee (selectTransactionFee (Some est) p)
          | None \<Rightarrow>
              (case est of FeeUnobserved \<Rightarrow> cap
               | FeeObserved m \<Rightarrow> if m \<le> 0 then cap else if m > cap then cap else m)))"

text \<open>The reference: the standard band of a policy, and clamping into it.\<close>

definition band_ceiling :: "fee_policy \<Rightarrow> int" where
  "band_ceiling p = min (fpStandard p) (fpMaximum p)"

definition band_floor :: "fee_policy \<Rightarrow> int" where
  "band_floor p = min (fpMinimum p) (band_ceiling p)"

definition clamp :: "int \<Rightarrow> int \<Rightarrow> int \<Rightarrow> int" where
  "clamp lo hi x = max lo (min hi x)"

lemma fee_observed:
  "selectTransactionFee (Some (FeeObserved m)) p =
     (if m \<le> 0 then \<lparr>fsFee = band_floor p, fsBasis = DefaultBasis, fsEstimate = None\<rparr>
      else if m > band_ceiling p then \<lparr>fsFee = band_ceiling p, fsBasis = StandardCeiling, fsEstimate = Some m\<rparr>
      else if m < band_floor p then \<lparr>fsFee = band_floor p, fsBasis = MinimumBasis, fsEstimate = Some m\<rparr>
      else \<lparr>fsFee = m, fsBasis = EstimateBasis, fsEstimate = Some m\<rparr>)"
  by (simp add: selectTransactionFee_def Let_def band_floor_def band_ceiling_def)

lemma fee_unobserved:
  "fsFee (selectTransactionFee None p) = band_floor p"
  "fsFee (selectTransactionFee (Some FeeUnobserved) p) = band_floor p"
  by (simp_all add: selectTransactionFee_def Let_def band_floor_def band_ceiling_def)

lemma band_order: "band_floor p \<le> band_ceiling p" "band_ceiling p \<le> fpMaximum p" "band_ceiling p \<le> fpStandard p"
  unfolding band_floor_def band_ceiling_def by linarith+

lemma fee_in_band: "band_floor p \<le> fsFee (selectTransactionFee e p)" "fsFee (selectTransactionFee e p) \<le> band_ceiling p"
proof -
  consider "e = None" | "e = Some FeeUnobserved" | m where "e = Some (FeeObserved m)"
    by (cases e) (use fee_observation.exhaust in blast)+
  then show "band_floor p \<le> fsFee (selectTransactionFee e p)" "fsFee (selectTransactionFee e p) \<le> band_ceiling p"
    using band_order(1)[of p] by (cases; simp add: fee_unobserved fee_observed)+
qed

lemma estimateFee_capped:
  "estimateFee policy estimate cap \<le> (case policy of None \<Rightarrow> cap | Some p \<Rightarrow> fpMaximum p)"
proof -
  have "fsFee (selectTransactionFee e p) \<le> fpMaximum p" for e p
    using fee_in_band(2)[of e p] band_order(2)[of p] by linarith
  then show ?thesis by (simp add: estimateFee_def split: option.split fee_observation.split)
qed

text \<open>
  The fee is the node's estimate clamped into the standard band, and the floor of the band when
  the node has no positive estimate; the band's ceiling is never above the hard cap, so no estimate
  makes a transaction pay more than the cap, and the reported estimate is the observed one.
\<close>
theorem fee_is_clamped_estimate:
  "fsFee (selectTransactionFee (Some (FeeObserved m)) p) =
     (if m \<le> 0 then band_floor p else clamp (band_floor p) (band_ceiling p) m) \<and>
   fsFee (selectTransactionFee None p) = band_floor p \<and>
   fsFee (selectTransactionFee (Some FeeUnobserved) p) = band_floor p \<and>
   fsFee (selectTransactionFee e p) \<le> fpMaximum p \<and> fsFee (selectTransactionFee e p) \<le> fpStandard p \<and>
   band_floor p \<le> fsFee (selectTransactionFee e p) \<and>
   (fsBasis (selectTransactionFee (Some (FeeObserved m)) p) = EstimateBasis \<longleftrightarrow>
      0 < m \<and> band_floor p \<le> m \<and> m \<le> band_ceiling p)"
proof (intro conjI)
  show "fsFee (selectTransactionFee (Some (FeeObserved m)) p) =
     (if m \<le> 0 then band_floor p else clamp (band_floor p) (band_ceiling p) m)"
    using band_order(1)[of p] by (simp add: fee_observed clamp_def)
  show "fsFee (selectTransactionFee e p) \<le> fpMaximum p" "fsFee (selectTransactionFee e p) \<le> fpStandard p"
    using fee_in_band(2)[of e p] band_order(2,3)[of p] by linarith+
  show "fsBasis (selectTransactionFee (Some (FeeObserved m)) p) = EstimateBasis \<longleftrightarrow>
      0 < m \<and> band_floor p \<le> m \<and> m \<le> band_ceiling p"
    by (simp add: fee_observed not_less not_le)
qed (simp_all add: fee_unobserved fee_in_band)

end
