(* ===== verification/Observation_Cadence.thy ===== *)
theory Observation_Cadence
  imports Prelude
begin

text \<open>
  The pacing of reads about submitted transactions (submitted-observation-cadence.ts): a map from an
  id to the time of its next read and the current back-off. Times are milliseconds.
\<close>

definition submittedObservationIntervalMs :: int where
  "submittedObservationIntervalMs = 30000"

definition maximumRetryIntervalMs :: int where
  "maximumRetryIntervalMs = 5 * 60000"

record cadence_item =
  obNextAt :: int
  obRetryDelay :: int

type_synonym cadence = "string \<rightharpoonup> cadence_item"

definition isDue :: "cadence \<Rightarrow> string \<Rightarrow> int \<Rightarrow> bool" where
  "isDue m i now = ((case m i of None \<Rightarrow> 0 | Some c \<Rightarrow> obNextAt c) \<le> now)"

definition resetCadence :: "string \<Rightarrow> cadence \<Rightarrow> cadence" where
  "resetCadence i m = m(i := None)"

definition recordCadence :: "string \<Rightarrow> bool \<Rightarrow> int \<Rightarrow> int option \<Rightarrow> cadence \<Rightarrow> cadence" where
  "recordCadence i retryLater now retryAfterMs m =
     (let retryDelay = (if retryLater
            then min maximumRetryIntervalMs (max submittedObservationIntervalMs
                   ((case m i of None \<Rightarrow> 0 | Some c \<Rightarrow> obRetryDelay c) * 2))
            else 0);
          sourceDelay = (case retryAfterMs of None \<Rightarrow> 0 | Some d \<Rightarrow> min maximumRetryIntervalMs d) in
      m(i \<mapsto> \<lparr>obNextAt = now + max (max submittedObservationIntervalMs retryDelay) sourceDelay,
             obRetryDelay = retryDelay\<rparr>))"

definition retainCadence :: "string list \<Rightarrow> cadence \<Rightarrow> cadence" where
  "retainCadence ids m = (\<lambda>i. if i \<in> set ids then m i else None)"

text \<open>\<open>n\<close> failed reads in a row, at the given times.\<close>

fun failed_reads :: "string \<Rightarrow> int list \<Rightarrow> cadence \<Rightarrow> cadence" where
  "failed_reads i [] m = m"
| "failed_reads i (now # ts) m = failed_reads i ts (recordCadence i True now None m)"

lemma failed_reads_append:
  "failed_reads i (ts @ us) m = failed_reads i us (failed_reads i ts m)"
  by (induction ts arbitrary: m) simp_all

text \<open>
  Reads of one id are paced between thirty seconds and five minutes whatever the sources ask for:
  after a read is recorded the next one is not due for the first interval and is due at the latest
  after the maximum; pacing of other ids is untouched; and the back-off of a run of failures doubles
  from thirty seconds up to the maximum.
\<close>
theorem cadence_paces:
  "(\<forall>t < now + submittedObservationIntervalMs.
        \<not> isDue (recordCadence i retryLater now retryAfterMs m) i t)
    \<and> (\<forall>t \<ge> now + maximumRetryIntervalMs. isDue (recordCadence i retryLater now retryAfterMs m) i t)
    \<and> (\<forall>j. j \<noteq> i \<longrightarrow> recordCadence i retryLater now retryAfterMs m j = m j)
    \<and> (\<forall>ts. ts \<noteq> [] \<longrightarrow> map_option obRetryDelay (failed_reads i ts (resetCadence i m) i) =
         Some (min maximumRetryIntervalMs (submittedObservationIntervalMs * 2 ^ (length ts - 1))))"
proof -
  have delay: "map_option obRetryDelay (failed_reads i (ts @ [t]) (resetCadence i m) i) =
      Some (min maximumRetryIntervalMs (submittedObservationIntervalMs * 2 ^ length ts))" for ts t
  proof (induction ts arbitrary: t rule: rev_induct)
    case Nil
    show ?case by (simp add: recordCadence_def resetCadence_def Let_def maximumRetryIntervalMs_def
          submittedObservationIntervalMs_def)
  next
    case (snoc u us)
    from snoc[of u] obtain c where c: "failed_reads i (us @ [u]) (resetCadence i m) i = Some c"
      "obRetryDelay c = min maximumRetryIntervalMs (submittedObservationIntervalMs * 2 ^ length us)"
      by auto
    have "min 300000 (max 30000 (min 300000 (30000 * n) * 2)) = min 300000 (60000 * n)"
      if "1 \<le> n" for n :: int using that by (simp add: min_def max_def)
    from this[of "2 ^ length us"] c show ?case
      unfolding failed_reads_append[of i "us @ [u]" "[t]"]
      by (simp add: recordCadence_def Let_def maximumRetryIntervalMs_def submittedObservationIntervalMs_def)
  qed
  have "map_option obRetryDelay (failed_reads i ts (resetCadence i m) i) =
      Some (min maximumRetryIntervalMs (submittedObservationIntervalMs * 2 ^ (length ts - 1)))"
    if "ts \<noteq> []" for ts
    using delay[of "butlast ts" "last ts"] that by simp
  then show ?thesis
    by (auto simp: isDue_def recordCadence_def Let_def maximumRetryIntervalMs_def
        submittedObservationIntervalMs_def split: option.splits)
qed

theorem cadence_paces_witness:
  "isDue (recordCadence ''a'' True 1000 None Map.empty) ''a'' 301000 \<and>
   \<not> isDue (recordCadence ''a'' True 1000 None Map.empty) ''a'' 30999"
  using cadence_paces[of 1000 "''a''" True None Map.empty]
  by (simp add: submittedObservationIntervalMs_def maximumRetryIntervalMs_def)

end
