(* ===== verification/Sweep_Service.thy ===== *)
theory Sweep_Service
  imports Sweep_Store Transaction_Outcome Fee_Policy Observation_Cadence
begin

text \<open>
  Gas-wallet sweeps (apps/sidekick/src/gas-wallet.ts): preparing, approving, cancelling, refreshing
  and listing sweeps, and the refusal checks of the wallet.

  As in the model of a tick, an \<open>async\<close> method is one function per stretch between two \<open>await\<close>s
  that touch the store; \<open>sweep_pc\<close> and \<open>refresh_pc\<close> are the suspension points with the local
  variables the rest of the method uses. Awaited values are arguments.
\<close>

subsection \<open>Errors\<close>

datatype gas_wallet_code =
    GasWalletEngineMode | GasWalletExists | GasWalletMissing | GasWalletRefused
  | GasWalletEngineUnavailable | GasWalletSecretUnreadable | InvalidGasWalletRequest
  | SweepBlocked | SweepNotFound | SweepState | SweepExpired | SweepStale | SweepEmpty | SweepFailed
  | SweepUnavailable | InvalidSweepRecipient

text \<open>
  \<open>PlanRefused\<close> is a \<open>GasWalletError\<close> with the message of a plan error, whose text the model leaves to
  its code; \<open>SweepPlanError\<close> is such an error passed through.
\<close>

datatype gas_error =
    GasWalletError gas_wallet_code string
  | PlanRefused gas_wallet_code sweep_error_code
  | SweepPlanError sweep_error_code
  | StoreError engine_error

type_synonym 'a sop = "(store, gas_error, 'a) eng"

text \<open>An exception of the repository passes through.\<close>

definition relay :: "'a op \<Rightarrow> 'a sop" where
  "relay m s = (case m s of (Inl e, t) \<Rightarrow> (Inl (StoreError e), t) | (Inr a, t) \<Rightarrow> (Inr a, t))"

fun sweep_status_text :: "sweep_status \<Rightarrow> string" where
  "sweep_status_text SwPlanned = ''planned''"
| "sweep_status_text SwBroadcast = ''broadcast''"
| "sweep_status_text SwConfirmed = ''confirmed''"
| "sweep_status_text SwFailed = ''failed''"
| "sweep_status_text SwCancelled = ''cancelled''"
| "sweep_status_text SwExpired = ''expired''"

definition shortMessage :: "string \<Rightarrow> string" where
  "shortMessage m = (if length m > 200 then take 197 m @ ''...'' else if m = [] then ''unknown error'' else m)"

fun refusalMessage :: "refusal_reason \<Rightarrow> string" where
  "refusalMessage ManagerAdmin =
     ''The gas wallet is a manager admin; it must be a dedicated key that only pays gas''"
| "refusalMessage SignerKey =
     ''The gas wallet is the pool's signer key; it must be a dedicated key that only pays gas''"
| "refusalMessage ContractPrincipal = ''The gas wallet must be a standard principal, not a contract''"
| "refusalMessage CheckUnavailable =
     ''The manager could not be read to verify the gas wallet; reconnect and retry''"

subsection \<open>Refusal checks\<close>

record refusal =
  rfManagerAdmin :: "bool option"
  rfSignerKey :: "bool option"
  rfContract :: bool
  rfReason :: "refusal_reason option"

text \<open>
  \<open>refusalChecks\<close>: \<open>admin\<close> is the decoded \<open>is-admin\<close> read and \<open>signer\<close> the principal of the pool's
  signer key (\<open>None\<close> when none is registered); an \<open>Inl\<close> is the exception of the read.
\<close>

definition refusalChecks ::
    "bool \<Rightarrow> principal \<Rightarrow> engine_error + bool \<Rightarrow> engine_error + principal option \<Rightarrow> engine_error + refusal" where
  "refusalChecks retryTransient p admin signer =
     (let isContract = (CHR ''.'' \<in> set p);
          isAdmin = (case admin of Inr b \<Rightarrow> Some b | Inl _ \<Rightarrow> None);
          unavailable = (case admin of Inr _ \<Rightarrow> False | Inl _ \<Rightarrow> True);
          isSigner = (case signer of Inr None \<Rightarrow> Some False | Inr (Some q) \<Rightarrow> Some (q = p) | Inl _ \<Rightarrow> None);
          unavailable' = (unavailable \<or> (case signer of Inr _ \<Rightarrow> False | Inl _ \<Rightarrow> True)) in
      bindr (case admin of
          Inl e \<Rightarrow> guardr (\<not> (retryTransient \<and> \<not> isContract \<and> isRetryableChainReadError e)) e
        | Inr _ \<Rightarrow> Inr ()) (\<lambda>_.
      bindr (case signer of
          Inl e \<Rightarrow> guardr (\<not> (retryTransient \<and> \<not> isContract \<and> \<not> unavailable \<and> isAdmin \<noteq> Some True \<and>
                     isRetryableChainReadError e)) e
        | Inr _ \<Rightarrow> Inr ()) (\<lambda>_.
      Inr \<lparr>rfManagerAdmin = isAdmin, rfSignerKey = isSigner, rfContract = isContract,
           rfReason = (if isContract then Some ContractPrincipal
             else if isAdmin = Some True then Some ManagerAdmin
             else if isSigner = Some True then Some SignerKey
             else if unavailable' then Some CheckUnavailable
             else None)\<rparr>)))"

subsection \<open>Shared steps\<close>

definition requireSweep :: "tx_lib \<Rightarrow> string \<Rightarrow> sweep sop" where
  "requireSweep L sid = ebind (relay (getSweep L sid)) (\<lambda>g. case g of
       None \<Rightarrow> ethrow (GasWalletError SweepNotFound (''Sweep '' @ sid @ '' does not exist''))
     | Some g \<Rightarrow> eret g)"

definition resolved_patch :: "sweep_status \<Rightarrow> instant \<Rightarrow> string option \<Rightarrow> sweep_patch" where
  "resolved_patch st now reason = no_sweep_patch\<lparr>gpStatus := Some st, gpResolvedAt := Some (Some now),
     gpFailure := Some reason\<rparr>"

definition resolveSweep :: "tx_lib \<Rightarrow> string \<Rightarrow> sweep_status \<Rightarrow> instant \<Rightarrow> string option \<Rightarrow> sweep sop" where
  "resolveSweep L sid st now reason = relay (updateSweep L sid (resolved_patch st now reason) now)"

definition expirePlannedSweeps :: "tx_lib \<Rightarrow> instant \<Rightarrow> unit sop" where
  "expirePlannedSweeps L now = ebind (relay (activeSweep L)) (\<lambda>g. case g of
       Some g \<Rightarrow> if gsStatus g = SwPlanned \<and> gsExpires g \<le> now
         then ebind (resolveSweep L (gsId g) SwExpired now (Some ''Approval window elapsed'')) (\<lambda>_. eret ())
         else eret ()
     | None \<Rightarrow> eret ())"

definition run_still_executing :: gas_error where
  "run_still_executing = GasWalletError SweepBlocked
     ''A reward run is still executing; wait for it to finish before sweeping''"

definition requireNoActiveWork :: "tx_lib \<Rightarrow> nat \<Rightarrow> instant \<Rightarrow> unit sop" where
  "requireNoActiveWork L jobs now =
     ebind (expirePlannedSweeps L now) (\<lambda>_.
     ebind (relay (activeSweep L)) (\<lambda>g. case g of
         Some g \<Rightarrow> ethrow (GasWalletError SweepBlocked (''Sweep '' @ gsId g @ '' is still '' @
             sweep_status_text (gsStatus g) @ ''; finish or cancel it before preparing another''))
       | None \<Rightarrow> eguard (\<not> 0 < jobs) run_still_executing))"

definition connectedContext :: "string + unit \<Rightarrow> gas_error + unit" where
  "connectedContext c = (case c of Inr _ \<Rightarrow> Inr ()
     | Inl m \<Rightarrow> Inl (GasWalletError SweepUnavailable (''The node connection is not current: '' @ shortMessage m)))"

datatype account_observation = AccountObserved int int | AccountUnread string

definition observed_account :: "account_observation \<Rightarrow> gas_error + int \<times> int" where
  "observed_account a = (case a of AccountObserved balance nonce \<Rightarrow> Inr (balance, nonce)
     | AccountUnread st \<Rightarrow> Inl (GasWalletError SweepUnavailable
         (''The gas wallet account could not be read ('' @ st @ ''); retry once the node is reachable'')))"

subsection \<open>Preparing a sweep\<close>

record sweep_config =
  scSweepLib :: sweep_lib
  scNetwork :: network
  scChainId :: int
  scMaximumFee :: int
  scFeePolicy :: "fee_policy option"
  scApprovalMinutes :: int

record wallet_identity =
  wiPrincipal :: principal
  wiPublicKey :: string

text \<open>\<open>prepareSweep\<close> up to its first read of the chain.\<close>

definition prepareSweep_start ::
    "tx_lib \<Rightarrow> wallet_identity option \<Rightarrow> nat \<Rightarrow> string + unit \<Rightarrow> instant \<Rightarrow> wallet_identity sop" where
  "prepareSweep_start L wallet jobs connection now = (case wallet of
       None \<Rightarrow> ethrow (GasWalletError GasWalletMissing ''No gas wallet is recorded'')
     | Some w \<Rightarrow>
         ebind (requireNoActiveWork L jobs now) (\<lambda>_.
         ebind (elift (connectedContext connection)) (\<lambda>_. eret w)))"

definition sweep_input_of ::
    "sweep_config \<Rightarrow> wallet_identity \<Rightarrow> string \<Rightarrow> string \<Rightarrow> int \<Rightarrow> int \<Rightarrow> int \<Rightarrow> instant \<Rightarrow> sweep_input" where
  "sweep_input_of C w recipient tip balance nonce fee now =
     \<lparr>siNetwork = scNetwork C, siChainId = scChainId C, siSender = wiPrincipal w, siPublicKey = wiPublicKey w,
      siRecipient = recipient, siBalance = balance, siFee = fee, siNonce = nonce, siAnchor = tip,
      siCreatedAt = now, siExpiresAt = now + scApprovalMinutes C * 60 * 1000\<rparr>"

definition plan_error :: "sweep_error_code \<Rightarrow> gas_error" where
  "plan_error e = (case e of
       InsufficientBalance \<Rightarrow> PlanRefused SweepEmpty e
     | InvalidRecipient \<Rightarrow> PlanRefused InvalidSweepRecipient e
     | RecipientIsWallet \<Rightarrow> PlanRefused InvalidSweepRecipient e
     | _ \<Rightarrow> SweepPlanError e)"

text \<open>The draft at the fee cap, and the plan at the estimated fee of the draft's bytes.\<close>

definition sealSweep ::
    "sweep_config \<Rightarrow> wallet_identity \<Rightarrow> string \<Rightarrow> string \<Rightarrow> int \<Rightarrow> int \<Rightarrow> (string \<Rightarrow> fee_observation option)
     \<Rightarrow> instant \<Rightarrow> sweep_error_code + sweep_plan" where
  "sealSweep C w recipient tip balance nonce est now =
     (let plan_at = (\<lambda>fee. planGasWalletSweep (scSweepLib C)
            (sweep_input_of C w recipient tip balance nonce fee now)) in
      bindr (plan_at (scMaximumFee C)) (\<lambda>draft.
      let fee = estimateFee (scFeePolicy C) (est (spHex draft)) (scMaximumFee C) in
      if fee = scMaximumFee C then Inr draft else plan_at fee))"

definition insert_error :: "gas_error \<Rightarrow> gas_error" where
  "insert_error e = (if e = StoreError sweepBusy
     then GasWalletError SweepBlocked ''The gas wallet already has an active reward run or sweep'' else e)"

definition prepareSweep_finish ::
    "tx_lib \<Rightarrow> sweep_config \<Rightarrow> wallet_identity \<Rightarrow> string \<Rightarrow> string \<Rightarrow> string \<Rightarrow> account_observation
     \<Rightarrow> (string \<Rightarrow> fee_observation option) \<Rightarrow> instant \<Rightarrow> sweep sop" where
  "prepareSweep_finish L C w sid recipient tip account est now =
     ebind (elift (observed_account account)) (\<lambda>(balance, nonce).
     ebind (elift (map_sum plan_error id (sealSweep C w recipient tip balance nonce est now))) (\<lambda>plan.
     ecatch (relay (insertSweep L sid (wiPrincipal w) plan now))
       (\<lambda>e. ethrow (insert_error e))))"

subsection \<open>Approving a sweep\<close>

datatype sweep_pc =
    AwaitRefusal sweep instant
  | AwaitAccount sweep sweep_plan instant
  | AwaitSignature sweep_plan instant
  | AwaitBroadcast signed_attempt

definition approveSweep_start ::
    "tx_lib \<Rightarrow> bool \<Rightarrow> bool \<Rightarrow> nat \<Rightarrow> string \<Rightarrow> instant \<Rightarrow> sweep_pc sop" where
  "approveSweep_start L engine ready jobs sid now =
     ebind (eguard engine (GasWalletError GasWalletEngineUnavailable
       ''The transaction engine is unavailable; restart Sidekick and review the startup logs'')) (\<lambda>_.
     ebind (eguard ready (GasWalletError GasWalletEngineUnavailable
       ''The gas wallet signer is not loaded; enable the wallet before approving a sweep'')) (\<lambda>_.
     ebind (requireSweep L sid) (\<lambda>g.
     ebind (eguard (gsStatus g = SwPlanned) (GasWalletError SweepState (''Sweep '' @ sid @ '' is '' @
       sweep_status_text (gsStatus g) @ ''; only a planned sweep can be approved''))) (\<lambda>_.
     if gsExpires g \<le> now
     then ebind (resolveSweep L sid SwExpired now (Some ''Approval window elapsed'')) (\<lambda>_.
          ethrow (GasWalletError SweepExpired ''The sweep approval window elapsed; prepare the sweep again''))
     else ebind (eguard (\<not> 0 < jobs) run_still_executing) (\<lambda>_.
          eret (AwaitRefusal g now))))))"

definition approveSweep_refusal ::
    "string \<Rightarrow> sweep \<Rightarrow> instant \<Rightarrow> refusal_reason option \<Rightarrow> string + unit \<Rightarrow> sweep_pc sop" where
  "approveSweep_refusal sid g now refusal connection =
     ebind (case refusal of None \<Rightarrow> eret () | Some t \<Rightarrow> ethrow (GasWalletError GasWalletRefused (refusalMessage t))) (\<lambda>_.
     ebind (relay (getSweepPlan sid)) (\<lambda>plan. case plan of
         None \<Rightarrow> ethrow (GasWalletError SweepNotFound ''Sweep plan missing'')
       | Some plan \<Rightarrow>
           ebind (elift (connectedContext connection)) (\<lambda>_. eret (AwaitAccount g plan now))))"

definition assertSweepApprovalCurrent :: "tx_lib \<Rightarrow> string \<Rightarrow> instant \<Rightarrow> unit sop" where
  "assertSweepApprovalCurrent L sid at =
     ebind (requireSweep L sid) (\<lambda>g.
     eguard (gsStatus g = SwPlanned \<and> \<not> gsExpires g \<le> at)
       (GasWalletError SweepState ''Sweep approval is no longer current''))"

definition approveSweep_account ::
    "tx_lib \<Rightarrow> string \<Rightarrow> sweep_plan \<Rightarrow> instant \<Rightarrow> instant \<Rightarrow> account_observation \<Rightarrow> sweep_pc sop" where
  "approveSweep_account L sid plan now at account =
     ebind (elift (observed_account account)) (\<lambda>(balance, nonce).
     let m = spMaterial plan in
     if nonce \<noteq> swNonce m \<or> balance < swAmount m + swFee m
     then ebind (resolveSweep L sid SwExpired now (Some (if nonce \<noteq> swNonce m
              then ''Wallet nonce changed after the sweep was planned''
              else ''Wallet balance no longer covers the planned amount and fee''))) (\<lambda>_.
          ethrow (GasWalletError SweepStale
            ''The wallet changed after the sweep was planned; prepare the sweep again''))
     else ebind (assertSweepApprovalCurrent L sid at) (\<lambda>_. eret (AwaitSignature plan now)))"

definition submitted_patch :: "signed_attempt \<Rightarrow> instant \<Rightarrow> sweep_patch" where
  "submitted_patch sg at = no_sweep_patch\<lparr>gpApprovedAt := Some (Some at), gpStatus := Some SwBroadcast,
     gpTxid := Some (Some (sgTxid sg)), gpAmbiguous := Some True, gpBroadcastAt := Some (Some at)\<rparr>"

definition approveSweep_signed ::
    "tx_lib \<Rightarrow> string \<Rightarrow> instant \<Rightarrow> instant \<Rightarrow> string + signed_attempt \<Rightarrow> sweep_pc sop" where
  "approveSweep_signed L sid now at v = (case v of
       Inl m \<Rightarrow>
         ebind (resolveSweep L sid SwFailed now (Some (''Signing failed: '' @ shortMessage m))) (\<lambda>_.
         ethrow (GasWalletError SweepFailed (''The sweep could not be signed: '' @ shortMessage m)))
     | Inr sg \<Rightarrow>
         ebind (assertSweepApprovalCurrent L sid at) (\<lambda>_.
         ebind (relay (updateSweep L sid (submitted_patch sg at) at)) (\<lambda>_.
         eret (AwaitBroadcast sg))))"

text \<open>An exception of the broadcaster is an ambiguous outcome, as the class never throws after posting.\<close>

definition broadcast_outcome :: "signed_attempt \<Rightarrow> string + broadcast_result \<Rightarrow> broadcast_result" where
  "broadcast_outcome sg v = (case v of Inr r \<Rightarrow> r
     | Inl m \<Rightarrow> BAmbiguous (sgTxid sg) None TransportError (Some (shortMessage m)))"

definition rejected_patch :: "signed_attempt \<Rightarrow> instant \<Rightarrow> string option \<Rightarrow> sweep_patch" where
  "rejected_patch sg at msg = no_sweep_patch\<lparr>gpStatus := Some SwFailed, gpTxid := Some (Some (sgTxid sg)),
     gpResolvedAt := Some (Some at), gpFailure := Some (Some (''Node rejected the sweep'' @
       (case msg of Some t \<Rightarrow> (if t = [] then [] else '': '' @ t) | None \<Rightarrow> [])))\<rparr>"

definition accepted_patch :: "signed_attempt \<Rightarrow> bool \<Rightarrow> sweep_patch" where
  "accepted_patch sg amb = no_sweep_patch\<lparr>gpStatus := Some SwBroadcast, gpTxid := Some (Some (sgTxid sg)),
     gpAmbiguous := Some amb\<rparr>"

definition approveSweep_broadcasted ::
    "tx_lib \<Rightarrow> string \<Rightarrow> signed_attempt \<Rightarrow> instant \<Rightarrow> string + broadcast_result \<Rightarrow> sweep sop" where
  "approveSweep_broadcasted L sid sg at v =
     ebind (requireSweep L sid) (\<lambda>current.
     if gsStatus current \<noteq> SwBroadcast \<or> gsFailure current \<noteq> None then eret current
     else case broadcast_outcome sg v of
       BRejected _ _ _ msg \<Rightarrow> relay (updateSweep L sid (rejected_patch sg at msg) at)
     | BAccepted _ _ \<Rightarrow> relay (updateSweep L sid (accepted_patch sg False) at)
     | BAmbiguous _ _ _ _ \<Rightarrow> relay (updateSweep L sid (accepted_patch sg True) at))"

subsection \<open>Cancelling, refreshing and listing\<close>

definition cancelSweep :: "tx_lib \<Rightarrow> string \<Rightarrow> instant \<Rightarrow> sweep sop" where
  "cancelSweep L sid now =
     ebind (requireSweep L sid) (\<lambda>g.
     ebind (eguard (gsStatus g = SwPlanned) (GasWalletError SweepState (''Sweep '' @ sid @ '' is '' @
       sweep_status_text (gsStatus g) @ ''; only a planned sweep can be cancelled''))) (\<lambda>_.
     resolveSweep L sid SwCancelled now None))"

datatype refresh_pc = RefreshDone sweep bool | AwaitOutcome sweep instant

definition refreshSweep_start :: "tx_lib \<Rightarrow> string \<Rightarrow> instant \<Rightarrow> refresh_pc sop" where
  "refreshSweep_start L sid now =
     ebind (requireSweep L sid) (\<lambda>g.
     if gsStatus g = SwPlanned \<and> gsExpires g \<le> now
     then ebind (resolveSweep L sid SwExpired now (Some ''Approval window elapsed'')) (\<lambda>g'.
          eret (RefreshDone g' False))
     else if gsStatus g \<noteq> SwBroadcast \<or> gsTxid g = None then eret (RefreshDone g False)
     else eret (AwaitOutcome g now))"

definition recordSweepConflict :: "tx_lib \<Rightarrow> string \<Rightarrow> string \<Rightarrow> instant \<Rightarrow> sweep sop" where
  "recordSweepConflict L sid reason now =
     ebind (requireSweep L sid) (\<lambda>current.
     if gsStatus current \<noteq> SwBroadcast then eret current
     else relay (updateSweep L sid (no_sweep_patch\<lparr>gpFailure := Some (Some (reason @
            ''. Wallet authorization retained; do not repeat this sweep''))\<rparr>) now))"

definition outcome_patch :: "bool \<Rightarrow> string \<Rightarrow> nat \<Rightarrow> execution_source \<Rightarrow> instant \<Rightarrow> sweep_patch" where
  "outcome_patch success repr height src now = no_sweep_patch\<lparr>
     gpStatus := Some (if success then SwConfirmed else SwFailed), gpResolvedAt := Some (Some now),
     gpBlockHeight := Some (Some height), gpSource := Some (Some src),
     gpFailure := Some (if success then None else Some (''Sweep aborted on chain: '' @ repr))\<rparr>"

text \<open>The result, and whether the next observation waits longer; \<open>seen\<close> is the mempool lookup.\<close>

definition refreshSweep_outcome ::
    "tx_lib \<Rightarrow> string \<Rightarrow> sweep \<Rightarrow> instant \<Rightarrow> submitted_outcome \<Rightarrow> bool \<Rightarrow> (sweep \<times> bool) sop" where
  "refreshSweep_outcome L sid g now outcome seen = (case outcome of
       OutcomeConflict reason \<Rightarrow>
         ebind (recordSweepConflict L sid reason now) (\<lambda>g'. eret (g', False))
     | OutcomeConfirmed success repr height src \<Rightarrow>
         ebind (requireSweep L sid) (\<lambda>current.
         if gsStatus current \<noteq> SwBroadcast then eret (current, False)
         else ebind (relay (updateSweep L sid (outcome_patch success repr height src now) now)) (\<lambda>g'.
              eret (g', False)))
     | OutcomePending _ _ \<Rightarrow>
         ebind (requireSweep L sid) (\<lambda>current.
         if gsStatus current \<noteq> SwBroadcast then eret (current, False)
         else eret (g, \<not> seen)))"

definition listSweepsService :: "tx_lib \<Rightarrow> instant \<Rightarrow> int \<Rightarrow> sweep list sop" where
  "listSweepsService L now limit =
     ebind (expirePlannedSweeps L now) (\<lambda>_. relay (listSweeps L limit))"

text \<open>\<open>#hasLocalSweepBinding\<close>: the stored sweep is still the sealed plan, on this chain.\<close>

definition hasLocalSweepBinding :: "sweep_config \<Rightarrow> sweep \<Rightarrow> store \<Rightarrow> bool" where
  "hasLocalSweepBinding C g s =
     (gsTxid g \<noteq> None \<and> gsApprovedAt g \<noteq> None \<and> gsBroadcastAt g \<noteq> None \<and>
      (case fst (getSweepPlan (gsId g) s) of
         Inr (Some p) \<Rightarrow>
           (case revalidateGasWalletSweepPlan (scSweepLib C) p of
              Inr q \<Rightarrow> spSha256 q = spSha256 (gsPlan g) \<and> swChainId (spMaterial q) = scChainId C \<and>
                swSender (spMaterial q) = gsWallet g \<and> swNonce (spMaterial q) = swNonce (spMaterial (gsPlan g)) \<and>
                swFee (spMaterial q) = swFee (spMaterial (gsPlan g)) \<and>
                swRecipient (spMaterial q) = swRecipient (spMaterial (gsPlan g)) \<and>
                swAmount (spMaterial q) = swAmount (spMaterial (gsPlan g))
            | Inl _ \<Rightarrow> False)
       | _ \<Rightarrow> False))"

end
