(* ===== verification/Run_Service.thy ===== *)
theory Run_Service
  imports Tick_Safety Sweep_Service
begin

text \<open>
  The reward-run service (transaction-engine/reward-run-service.ts): the handlers an operator calls,
  the recovery loop, the FIFO that serializes ticks, and the background preparation of runs.

  The engine record is the service's fields and the store behind it. A handler that does not
  \<open>await\<close> is one function; one that does is one function per stretch, with what it is suspended on in
  a field of the engine (\<open>egTick\<close>, \<open>egRecover\<close>, \<open>egApprovals\<close>, \<open>egPrep\<close>). Chain reads, clocks,
  emergency controls and the signer are arguments, so they may change between any two stretches.
  \<open>egSent\<close> records the transactions handed to the broadcaster; no function reads it.
\<close>

record svc_config =
  cfLib :: tx_lib
  cfMaximumFee :: nat
  cfMaximumTransactions :: nat
  cfApprovalMinutes :: int
  cfMaximumRunHours :: int
  cfSweep :: sweep_config

datatype tick_source = FromOperator | FromRecovery

datatype recover_pc = RecoverNext "run list" | RecoverWait "run list"

record approve_call =
  avRun :: string
  avSha :: string
  avNow :: instant

record prepare_call =
  pcPreparation :: string
  pcRun :: string
  pcRequest :: prepare_request
  pcSha :: string

record sweep_request =
  sqWallet :: wallet_identity
  sqRecipient :: string
  sqNow :: instant

record engine =
  egStore :: store
  egClosed :: bool
  egCadence :: cadence
  egWaiting :: "string \<rightharpoonup> string"
  egTick :: "(string \<times> tick_source \<times> tick_pc) option"
  egQueue :: "(string \<times> tick_source) list"
  egRecover :: "recover_pc option"
  egObserving :: bool
  egNextObservation :: instant
  egApprovals :: "approve_call list"
  egPrepQueue :: "string list"
  egPrep :: "prepare_call option"
  egSent :: "(string \<times> nat \<times> txid) list"
  egSweepPreps :: "sweep_request list"
  egSweepApprovals :: "string \<rightharpoonup> sweep_pc"
  egRefreshes :: "string \<rightharpoonup> sweep \<times> instant"
  egSweepCadence :: cadence
  egSweepSent :: "(string \<times> txid) list"
  egSweepLost :: "(string \<times> txid) list"

type_synonym 'a svc = "(engine, engine_error, 'a) eng"

definition on_store :: "(store, 'e, 'a) eng \<Rightarrow> (engine, 'e, 'a) eng" where
  "on_store m e = (case m (egStore e) of (r, s) \<Rightarrow> (r, e\<lparr>egStore := s\<rparr>))"

definition emodify :: "(engine \<Rightarrow> engine) \<Rightarrow> (engine, 'e, unit) eng" where
  "emodify f e = (Inr (), f e)"

definition error_text :: "engine_error \<Rightarrow> string" where
  "error_text e = (case e of
       RewardRunError _ m \<Rightarrow> ''RewardRunError: '' @ m
     | RepositoryError _ m \<Rightarrow> ''RewardRunRepositoryError: '' @ m
     | UpstreamUnavailableError m \<Rightarrow> ''UpstreamUnavailableError: '' @ m
     | UpstreamHttpError m _ \<Rightarrow> ''UpstreamHttpError: '' @ m
     | RateLimitedError m _ \<Rightarrow> ''RateLimitedError: '' @ m
     | ChainAnchorError m _ \<Rightarrow> ''ChainAnchorError: '' @ m
     | Pox5CalculateRewardsError _ m \<Rightarrow> ''Pox5CalculateRewardsError: '' @ m
     | SqliteError m \<Rightarrow> ''Error: '' @ m
     | OtherError m \<Rightarrow> ''Error: '' @ m)"

subsection \<open>The queue of ticks\<close>

text \<open>\<open>#queue\<close>: nothing is enqueued once the service is closed.\<close>

definition queue_tick :: "string \<Rightarrow> tick_source \<Rightarrow> engine \<Rightarrow> engine" where
  "queue_tick rid src e = (if egClosed e then e else e\<lparr>egQueue := egQueue e @ [(rid, src)]\<rparr>)"

text \<open>A queued operation ended; \<open>ok\<close> is false when it threw, which ends the recovery that awaits it.\<close>

definition release_queue :: "tick_source \<Rightarrow> bool \<Rightarrow> engine \<Rightarrow> engine" where
  "release_queue src ok e = e\<lparr>egTick := None, egRecover :=
     (case (src, egRecover e) of
        (FromRecovery, Some (RecoverWait rs)) \<Rightarrow> if ok then Some (RecoverNext rs) else None
      | _ \<Rightarrow> egRecover e)\<rparr>"

fun sent_by :: "tick_pc \<Rightarrow> (string \<times> nat \<times> txid) list" where
  "sent_by (TickBroadcast r i sg k now) = [(rnId r, i, sgTxid sg)]"
| "sent_by _ = []"

text \<open>
  \<open>#guardedTick\<close> around the result of a stretch: suspend, finish, or handle the exception. The call
  of the broadcaster is made when the tick suspends on its result.
\<close>

definition settle_tick ::
    "svc_config \<Rightarrow> string \<Rightarrow> tick_source \<Rightarrow> instant \<Rightarrow> (engine_error + tick_pc) \<times> engine \<Rightarrow> engine" where
  "settle_tick C rid src at res = (case res of
       (Inr TickDone, e) \<Rightarrow> release_queue src True (e\<lparr>egWaiting := (egWaiting e)(rid := None)\<rparr>)
     | (Inr pc, e) \<Rightarrow> e\<lparr>egTick := Some (rid, src, pc), egSent := egSent e @ sent_by pc\<rparr>
     | (Inl err, e) \<Rightarrow>
         (case on_store (tick_failed (cfLib C) rid err at) e of
            (Inr (Some reason), e') \<Rightarrow>
              release_queue src True (e'\<lparr>egWaiting := (egWaiting e')(rid \<mapsto> reason)\<rparr>)
          | (Inr None, e') \<Rightarrow> release_queue src True (e'\<lparr>egWaiting := (egWaiting e')(rid := None)\<rparr>)
          | (Inl _, e') \<Rightarrow> release_queue src False e'))"

definition run_queue :: "svc_config \<Rightarrow> execution_control \<Rightarrow> instant \<Rightarrow> instant \<Rightarrow> engine \<Rightarrow> engine" where
  "run_queue C ctl now at e = (case (egTick e, egQueue e) of
       (None, (rid, src) # rest) \<Rightarrow>
         let e = e\<lparr>egQueue := rest\<rparr> in
         if egClosed e then release_queue src True e
         else settle_tick C rid src at (on_store (tick_start (cfLib C) (cfMaximumRunHours C) ctl
                (\<lambda>t. isDue (egCadence e) t now) rid now) e)
     | _ \<Rightarrow> e)"

text \<open>The stretches after an \<open>await\<close>: the awaited value or exception arrives at time \<open>at\<close>.\<close>

definition retry_of :: "engine_error + reconciliation \<Rightarrow> bool \<times> int option" where
  "retry_of v = (case v of
       Inl (RateLimitedError _ after) \<Rightarrow> (True, after)
     | Inl _ \<Rightarrow> (True, None)
     | Inr (RecPending later after) \<Rightarrow> (later, after)
     | Inr _ \<Rightarrow> (False, None))"

definition reconcile_arrives :: "svc_config \<Rightarrow> engine_error + reconciliation \<Rightarrow> instant \<Rightarrow> engine \<Rightarrow> engine" where
  "reconcile_arrives C v at e = (case egTick e of
       Some (rid, src, TickReconcile r i p t now) \<Rightarrow>
         let e = e\<lparr>egCadence := recordCadence t (fst (retry_of v)) at (snd (retry_of v)) (egCadence e)\<rparr> in
         settle_tick C rid src at (case v of
             Inl err \<Rightarrow> (Inl err, e)
           | Inr rec \<Rightarrow> on_store (tick_reconciled (cfLib C) r i (rnChildren r ! i) now at rec) e)
     | _ \<Rightarrow> e)"

definition materialize_arrives ::
    "svc_config \<Rightarrow> execution_control \<Rightarrow> engine_error + materialization \<Rightarrow> instant \<Rightarrow> engine \<Rightarrow> engine" where
  "materialize_arrives C ctl v at e = (case egTick e of
       Some (rid, src, TickMaterialize r i now) \<Rightarrow>
         settle_tick C rid src at (case v of
             Inl err \<Rightarrow> (Inl err, e)
           | Inr m \<Rightarrow> on_store (tick_materialized (cfLib C) ctl r i (rnChildren r ! i) now at m) e)
     | _ \<Rightarrow> e)"

definition tick_refusal_arrives ::
    "svc_config \<Rightarrow> execution_control \<Rightarrow> engine_error + refusal_reason option \<Rightarrow> instant \<Rightarrow> engine \<Rightarrow> engine" where
  "tick_refusal_arrives C ctl v at e = (case egTick e of
       Some (rid, src, TickRefusal r i p now) \<Rightarrow>
         settle_tick C rid src at (case v of
             Inl err \<Rightarrow> (Inl err, e)
           | Inr refusal \<Rightarrow> on_store (tick_refusal_checked (cfLib C) ctl (egClosed e) r i
               (chOperation (rnChildren r ! i)) p now at refusal) e)
     | _ \<Rightarrow> e)"

definition signature_arrives ::
    "svc_config \<Rightarrow> engine_error + signed_attempt \<Rightarrow> instant \<Rightarrow> engine \<Rightarrow> engine" where
  "signature_arrives C v at e = (case egTick e of
       Some (rid, src, TickSign r i p now) \<Rightarrow>
         settle_tick C rid src at (case v of
             Inl err \<Rightarrow> (Inl err, e)
           | Inr sg \<Rightarrow> on_store (tick_signed r i p now sg) e)
     | _ \<Rightarrow> e)"

definition broadcast_arrives ::
    "svc_config \<Rightarrow> engine_error + broadcast_result \<Rightarrow> instant \<Rightarrow> engine \<Rightarrow> engine" where
  "broadcast_arrives C v at e = (case egTick e of
       Some (rid, src, TickBroadcast r i sg k now) \<Rightarrow>
         settle_tick C rid src at (case v of
             Inl err \<Rightarrow> (Inl err, e)
           | Inr res \<Rightarrow> on_store (tick_broadcasted (cfLib C) r i sg k at res) e)
     | _ \<Rightarrow> e)"

subsection \<open>Operator handlers\<close>

text \<open>\<open>approve\<close> up to its refusal check: \<open>Inr None\<close> is the suspended call, \<open>Inr (Some run)\<close> an early return.\<close>

definition approve_start :: "tx_lib \<Rightarrow> execution_control \<Rightarrow> string \<Rightarrow> string \<Rightarrow> instant \<Rightarrow> run option op" where
  "approve_start L ctl rid sha now =
     ebind (serviceGet L rid) (\<lambda>r.
     ebind (eguard (rnRecipeSha r = sha)
             (RewardRunError RunInvalid ''Run approval does not match the sealed recipe'')) (\<lambda>_.
     if rnStatus r \<noteq> AwaitingApproval
     then if rnStatus r = Expired
          then ethrow (RewardRunError RunExpired ''The run approval window elapsed'')
          else eret (Some r)
     else
     ebind (elift (assertExecutionAllowed ctl (rpOperations (rnRecipe r)))) (\<lambda>_.
     if rnApprovalExpires r \<le> now
     then ebind (transition L rid [AwaitingApproval] Expired now
                  (expired_patch now ''Approval start window elapsed'')) (\<lambda>_.
          ethrow (RewardRunError RunExpired ''The run approval window elapsed''))
     else eret None)))"

definition approve_checked :: "tx_lib \<Rightarrow> string \<Rightarrow> string \<Rightarrow> instant \<Rightarrow> refusal_reason option \<Rightarrow> (run \<times> bool) op" where
  "approve_checked L rid sha now refusal =
     ebind (elift (assertDedicatedWallet refusal)) (\<lambda>_.
     ecatch
       (ebind (transition L rid [AwaitingApproval] Approved now (no_patch\<lparr>tpApprovedAt := Some now\<rparr>))
         (\<lambda>r. eret (r, True)))
       (\<lambda>err. ebind (serviceGet L rid) (\<lambda>raced.
          if rnStatus raced = Expired
          then ethrow (RewardRunError RunExpired ''The run approval window elapsed'')
          else if rnRecipeSha raced = sha \<and> rnStatus raced \<noteq> AwaitingApproval then eret (raced, False)
          else ethrow (RewardRunError RunConflict (error_text err)))))"

definition approve :: "svc_config \<Rightarrow> execution_control \<Rightarrow> string \<Rightarrow> string \<Rightarrow> instant \<Rightarrow> run option svc" where
  "approve C ctl rid sha now =
     ebind (on_store (approve_start (cfLib C) ctl rid sha now)) (\<lambda>r. case r of
         Some r \<Rightarrow> eret (Some r)
       | None \<Rightarrow> ebind (emodify (\<lambda>e. e\<lparr>egApprovals :=
                   egApprovals e @ [\<lparr>avRun = rid, avSha = sha, avNow = now\<rparr>]\<rparr>)) (\<lambda>_. eret None))"

definition approve_arrives :: "svc_config \<Rightarrow> nat \<Rightarrow> engine_error + refusal_reason option \<Rightarrow> run svc" where
  "approve_arrives C n v = (\<lambda>e. case at_index (egApprovals e) n of
       None \<Rightarrow> (Inl (OtherError ''no call''), e)
     | Some a \<Rightarrow>
         ebind (emodify (\<lambda>e. e\<lparr>egApprovals := take n (egApprovals e) @ drop (Suc n) (egApprovals e)\<rparr>)) (\<lambda>_.
         ebind (elift v) (\<lambda>refusal.
         ebind (on_store (approve_checked (cfLib C) (avRun a) (avSha a) (avNow a) refusal)) (\<lambda>(r, fresh).
         ebind (emodify (if fresh then queue_tick (avRun a) FromOperator else id)) (\<lambda>_. eret r)))) e)"

definition pause :: "tx_lib \<Rightarrow> string \<Rightarrow> instant \<Rightarrow> run op" where
  "pause L rid now =
     ebind (serviceGet L rid) (\<lambda>r.
     ebind (eguard (in_flight r = 0) (RewardRunError RunConflict
             ''A broadcast transaction must resolve before this run can pause'')) (\<lambda>_.
     transition L rid [Running] Paused now no_patch))"

definition cancel :: "tx_lib \<Rightarrow> string \<Rightarrow> instant \<Rightarrow> run op" where
  "cancel L rid now =
     ebind (serviceGet L rid) (\<lambda>r.
     ebind (eguard (in_flight r = 0) (RewardRunError RunConflict
             ''A broadcast transaction must resolve before this run can be cancelled'')) (\<lambda>_.
     transition L rid [AwaitingApproval, Approved, Paused, Halted] Cancelled now
       (no_patch\<lparr>tpCompletedAt := Some now\<rparr>)))"

definition resume_store :: "tx_lib \<Rightarrow> execution_control \<Rightarrow> string \<Rightarrow> instant \<Rightarrow> (run \<times> txid option) op" where
  "resume_store L ctl rid now =
     ebind (serviceGet L rid) (\<lambda>r.
     ebind (elift (assertExecutionAllowed ctl (rpOperations (rnRecipe r)))) (\<lambda>_.
     if runtime_elapsed r now
     then ebind (transition L rid [Paused, Halted] Expired now
                  (expired_patch now ''Maximum run time elapsed'')) (\<lambda>_.
          ethrow (RewardRunError RunExpired ''The maximum run time elapsed''))
     else
     let child = at_index (rnChildren r) (rnCursor r) in
     ebind (if rnStatus r = Halted \<and> map_option chStatus child = Some ChildHalted
            then resetRejectedChild rid (rnCursor r) now else eret ()) (\<lambda>_.
     ebind (transition L rid [Paused, Halted] Running now no_patch) (\<lambda>resumed.
     eret (resumed, (case child of None \<Rightarrow> None | Some c \<Rightarrow> chTxid c))))))"

definition resume :: "svc_config \<Rightarrow> execution_control \<Rightarrow> string \<Rightarrow> instant \<Rightarrow> run svc" where
  "resume C ctl rid now =
     ebind (on_store (resume_store (cfLib C) ctl rid now)) (\<lambda>(r, t).
     ebind (emodify (\<lambda>e. queue_tick rid FromOperator
       (case t of None \<Rightarrow> e | Some t \<Rightarrow> e\<lparr>egCadence := resetCadence t (egCadence e)\<rparr>))) (\<lambda>_. eret r))"

subsection \<open>Recovery\<close>

definition reconciling_txids :: "run list \<Rightarrow> txid list" where
  "reconciling_txids runs = concat (map (\<lambda>r. case at_index (rnChildren r) (rnCursor r) of
       Some c \<Rightarrow> if rnStatus r = Running \<and> chStatus c = Broadcast
                 then (case chTxid c of None \<Rightarrow> [] | Some t \<Rightarrow> [t]) else []
     | None \<Rightarrow> []) runs)"

text \<open>
  \<open>recover\<close>: start the submitted observations when they are due (\<open>observers\<close> says that there are
  any), and the recovery loop unless one is running.
\<close>

definition begin_observation :: "bool \<Rightarrow> instant \<Rightarrow> engine \<Rightarrow> engine" where
  "begin_observation observers now e =
     (if \<not> egObserving e \<and> observers \<and> egNextObservation e \<le> now
      then e\<lparr>egObserving := True, egNextObservation := now + submittedObservationIntervalMs\<rparr> else e)"

definition recover :: "svc_config \<Rightarrow> bool \<Rightarrow> instant \<Rightarrow> unit svc" where
  "recover C observers now = (\<lambda>e.
     if egClosed e then (Inr (), e)
     else
     let e = begin_observation observers now e in
     case egRecover e of
       Some _ \<Rightarrow> (Inr (), e)
     | None \<Rightarrow>
         ebind (on_store (listUnfinished (cfLib C))) (\<lambda>runs.
         emodify (\<lambda>e. e\<lparr>egCadence := retainCadence (reconciling_txids runs) (egCadence e),
                         egRecover := Some (RecoverNext runs)\<rparr>)) e)"

text \<open>One iteration of the loop, on the snapshot \<open>r\<close> of a run.\<close>

definition recover_run :: "tx_lib \<Rightarrow> run \<Rightarrow> instant \<Rightarrow> bool op" where
  "recover_run L r now =
     (if rnStatus r \<in> {Paused, Halted} \<and> runtime_elapsed r now
      then ebind (transition L (rnId r) [rnStatus r] Expired now
                   (expired_patch now ''Maximum run time elapsed'')) (\<lambda>_. eret False)
      else if rnStatus r \<in> {Approved, Running} then eret True
      else if rnStatus r = AwaitingApproval \<and> rnApprovalExpires r \<le> now
      then ebind (transition L (rnId r) [AwaitingApproval] Expired now
                   (expired_patch now ''Approval start window elapsed'')) (\<lambda>_. eret False)
      else eret False)"

definition recover_step :: "svc_config \<Rightarrow> instant \<Rightarrow> engine \<Rightarrow> engine" where
  "recover_step C now e = (case egRecover e of
       Some (RecoverNext []) \<Rightarrow> e\<lparr>egRecover := None\<rparr>
     | Some (RecoverNext (r # rs)) \<Rightarrow>
         (case on_store (recover_run (cfLib C) r now) e of
            (Inl _, e') \<Rightarrow> e'\<lparr>egRecover := None\<rparr>
          | (Inr tick, e') \<Rightarrow>
              if tick \<and> \<not> egClosed e'
              then queue_tick (rnId r) FromRecovery (e'\<lparr>egRecover := Some (RecoverWait rs)\<rparr>)
              else e'\<lparr>egRecover := Some (RecoverNext rs)\<rparr>)
     | _ \<Rightarrow> e)"

definition observation_settles :: "engine \<Rightarrow> engine" where
  "observation_settles e = e\<lparr>egObserving := False\<rparr>"

subsection \<open>Preparation of a run\<close>

definition wallet_not_ready :: engine_error where
  "wallet_not_ready = RewardRunError RunUnavailable
     ''Enable and fund the gas wallet before preparing a reward run''"

definition requested_operations :: "prepare_request \<Rightarrow> operation list" where
  "requested_operations q = (case rqOperations q of None \<Rightarrow> operationOrder | Some ops \<Rightarrow> ops)"

text \<open>\<open>prepare\<close> up to its read of the facts: the existing run, or \<open>None\<close> when the facts are awaited.\<close>

definition prepare_start ::
    "tx_lib \<Rightarrow> execution_control \<Rightarrow> bool \<Rightarrow> string \<Rightarrow> prepare_request \<Rightarrow> run option op" where
  "prepare_start L ctl ready rid q =
     ebind (getRun L rid) (\<lambda>existing. case existing of
         Some r \<Rightarrow>
           ebind (elift (assertSealedRun L r)) (\<lambda>_.
           ebind (eguard (rpPrepareSha (rnRecipe r) = rewardRunPrepareRequestSha256 L q)
             (RewardRunError RunConflict
               ''This reward-run request ID was already used with different preparation inputs'')) (\<lambda>_.
           eret (Some r)))
       | None \<Rightarrow>
           ebind (elift (assertExecutionAllowed ctl (requested_operations q))) (\<lambda>_.
           ebind (eguard ready wallet_not_ready) (\<lambda>_. eret None)))"

definition child_input_of :: "recipe_child \<Rightarrow> child_input" where
  "child_input_of c = \<lparr>ciOperation = rcOperation c, ciAdapterId = rcAdapterId c,
     ciAdapterRevision = rcAdapterRevision c, ciAccountKey = rcAccountKey c, ciMaxAmount = rcMaxAmount c\<rparr>"

definition prepare_facts ::
    "svc_config \<Rightarrow> execution_control \<Rightarrow> string \<Rightarrow> prepare_request \<Rightarrow> draft_facts \<Rightarrow> instant \<Rightarrow> run op" where
  "prepare_facts C ctl rid q f now =
     (let L = cfLib C; sha = rewardRunPrepareRequestSha256 L q in
      ebind (elift (buildRewardRunRecipe L rid f q (cfMaximumFee C) (cfMaximumTransactions C))) (\<lambda>recipe.
      ebind (elift (assertExecutionAllowed ctl (rpOperations recipe))) (\<lambda>_.
      ecatch
        (insertRun L rid (dfWallet f) (rewardRunRecipeSha256 L recipe) recipe
           (now + cfApprovalMinutes C * 60000) (map child_input_of (rpChildren recipe)) now)
        (\<lambda>err. ebind (getRun L rid) (\<lambda>raced.
           case raced of
             Some r \<Rightarrow> if rpPrepareSha (rnRecipe r) = sha then eret r
                       else ethrow (case err of
                           RepositoryError AuthorizationBusy m \<Rightarrow> RewardRunError RunUnavailable m
                         | _ \<Rightarrow> RewardRunError RunConflict (error_text err))
           | None \<Rightarrow> ethrow (case err of
                 RepositoryError AuthorizationBusy m \<Rightarrow> RewardRunError RunUnavailable m
               | _ \<Rightarrow> RewardRunError RunConflict (error_text err)))))))"

definition rewardPreparationFailureCode :: "engine_error \<Rightarrow> failure_code option" where
  "rewardPreparationFailureCode e = (case e of
       RewardRunError RunNoWork _ \<Rightarrow> Some NoWork
     | RewardRunError RunUnavailable _ \<Rightarrow> Some TemporarilyUnavailable
     | _ \<Rightarrow> if isRetryableChainReadError e then Some TemporarilyUnavailable else None)"

definition queue_preparation :: "string \<Rightarrow> engine \<Rightarrow> engine" where
  "queue_preparation pid e = e\<lparr>egPrepQueue := egPrepQueue e @ [pid]\<rparr>"

definition enqueuePreparation ::
    "svc_config \<Rightarrow> execution_control \<Rightarrow> bool \<Rightarrow> string \<Rightarrow> prepare_request \<Rightarrow> instant \<Rightarrow> preparation svc" where
  "enqueuePreparation C ctl ready freshId q now =
     ebind (elift (assertExecutionAllowed ctl (requested_operations q))) (\<lambda>_.
     ebind (eguard ready wallet_not_ready) (\<lambda>_.
     let pid = (case rqRequestId q of None \<Rightarrow> freshId | Some i \<Rightarrow> i);
         q' = q\<lparr>rqRequestId := Some pid\<rparr> in
     ebind (on_store (createPreparation pid (rewardRunPrepareRequestSha256 (cfLib C) q') q' now)) (\<lambda>p.
     ebind (emodify (if ppStatus p = Queued then queue_preparation (ppId p) else id)) (\<lambda>_. eret p))))"

text \<open>
  \<open>#prepareInBackground\<close>: the end of a preparation. An exception after the service was stopped leaves
  the row \<open>preparing\<close>.
\<close>

definition finish_preparation :: "string \<Rightarrow> bool \<Rightarrow> instant \<Rightarrow> run op \<Rightarrow> unit op" where
  "finish_preparation pid aborted now m =
     ecatch (ebind m (\<lambda>r. ebind (completePreparation pid (rnId r) now) (\<lambda>_. eret ())))
       (\<lambda>err. if aborted then eret ()
              else ebind (failPreparation pid (error_message err) now (rewardPreparationFailureCode err))
                     (\<lambda>_. eret ()))"

definition start_preparation ::
    "svc_config \<Rightarrow> execution_control \<Rightarrow> bool \<Rightarrow> string \<Rightarrow> instant \<Rightarrow> engine \<Rightarrow> engine" where
  "start_preparation C ctl ready freshId now e = (case (egPrep e, egPrepQueue e) of
       (None, pid # rest) \<Rightarrow>
         let e = e\<lparr>egPrepQueue := rest\<rparr> in
         if egClosed e then e
         else (case on_store (claimPreparation pid now) e of
             (Inr (Some p), e') \<Rightarrow>
               let q = ppRequest p; rid = (case rqRequestId q of None \<Rightarrow> freshId | Some i \<Rightarrow> i) in
               (case on_store (prepare_start (cfLib C) ctl ready rid q) e' of
                  (Inr None, e'') \<Rightarrow> e''\<lparr>egPrep := Some \<lparr>pcPreparation = pid, pcRun = rid, pcRequest = q,
                      pcSha = rewardRunPrepareRequestSha256 (cfLib C) q\<rparr>\<rparr>
                | (Inr (Some r), e'') \<Rightarrow> snd (on_store (finish_preparation pid False now (eret r)) e'')
                | (Inl err, e'') \<Rightarrow> snd (on_store (finish_preparation pid False now (ethrow err)) e''))
           | (_, e') \<Rightarrow> e')
     | _ \<Rightarrow> e)"

definition facts_arrive ::
    "svc_config \<Rightarrow> execution_control \<Rightarrow> engine_error + draft_facts \<Rightarrow> instant \<Rightarrow> engine \<Rightarrow> engine" where
  "facts_arrive C ctl v now e = (case egPrep e of
       Some p \<Rightarrow> snd (on_store (finish_preparation (pcPreparation p) (egClosed e) now
           (ebind (elift v) (\<lambda>f. prepare_facts C ctl (pcRun p) (pcRequest p) f now))) (e\<lparr>egPrep := None\<rparr>))
     | None \<Rightarrow> e)"

subsection \<open>Reads\<close>

definition serviceGetPreparation :: "string \<Rightarrow> preparation op" where
  "serviceGetPreparation pid = eread (\<lambda>s. case prep_row s pid of
       None \<Rightarrow> Inl (RewardRunError RunNotFound ''Reward-run preparation does not exist'')
     | Some p \<Rightarrow> Inr p)"

definition serviceList :: "tx_lib \<Rightarrow> int \<Rightarrow> run list op" where
  "serviceList L limit = ebind (listRuns L limit) (\<lambda>runs.
     ebind (elift (mapr (assertSealedRun L) runs)) (\<lambda>_. eret runs))"

subsection \<open>Sweeps\<close>

text \<open>
  The sweep handlers of gas-wallet.ts over the same store. A sweep has at most one running approval
  (\<open>#sweepApprovals\<close>) and one running refresh (\<open>#sweepRefreshes\<close>); a second call joins the first.
  \<open>egSweepSent\<close> records the sweeps handed to the broadcaster; no function reads it.
\<close>

definition sweep_prepare ::
    "svc_config \<Rightarrow> wallet_identity option \<Rightarrow> nat \<Rightarrow> string + unit \<Rightarrow> string \<Rightarrow> instant
     \<Rightarrow> (engine, gas_error, unit) eng" where
  "sweep_prepare C wallet jobs connection recipient now =
     ebind (on_store (prepareSweep_start (cfLib C) wallet jobs connection now)) (\<lambda>w.
     emodify (\<lambda>e. e\<lparr>egSweepPreps := egSweepPreps e @ [\<lparr>sqWallet = w, sqRecipient = recipient, sqNow = now\<rparr>]\<rparr>))"

definition sweep_prepare_arrives ::
    "svc_config \<Rightarrow> nat \<Rightarrow> string \<Rightarrow> string \<Rightarrow> account_observation \<Rightarrow> (string \<Rightarrow> fee_observation option)
     \<Rightarrow> engine \<Rightarrow> engine" where
  "sweep_prepare_arrives C n sid tip account est e = (case at_index (egSweepPreps e) n of
       None \<Rightarrow> e
     | Some q \<Rightarrow> snd (on_store (prepareSweep_finish (cfLib C) (cfSweep C) (sqWallet q) sid (sqRecipient q) tip
           account est (sqNow q))
         (e\<lparr>egSweepPreps := take n (egSweepPreps e) @ drop (Suc n) (egSweepPreps e)\<rparr>)))"

fun sweep_sent_by :: "string \<Rightarrow> sweep_pc \<Rightarrow> (string \<times> txid) list" where
  "sweep_sent_by sid (AwaitBroadcast sg) = [(sid, sgTxid sg)]"
| "sweep_sent_by sid _ = []"

text \<open>A stretch of \<open>#approveSweep\<close> ended: suspended again, or rejected with an exception.\<close>

definition settle_approval :: "string \<Rightarrow> (gas_error + sweep_pc) \<times> engine \<Rightarrow> engine" where
  "settle_approval sid res = (case res of
       (Inr pc, e) \<Rightarrow> e\<lparr>egSweepApprovals := (egSweepApprovals e)(sid \<mapsto> pc),
           egSweepSent := egSweepSent e @ sweep_sent_by sid pc\<rparr>
     | (Inl _, e) \<Rightarrow> e\<lparr>egSweepApprovals := (egSweepApprovals e)(sid := None)\<rparr>)"

definition sweep_approve ::
    "svc_config \<Rightarrow> bool \<Rightarrow> bool \<Rightarrow> nat \<Rightarrow> string \<Rightarrow> instant \<Rightarrow> engine \<Rightarrow> engine" where
  "sweep_approve C engine ready jobs sid now e = (case egSweepApprovals e sid of
       Some _ \<Rightarrow> e
     | None \<Rightarrow> settle_approval sid (on_store (approveSweep_start (cfLib C) engine ready jobs sid now) e))"

definition sweep_refusal_arrives ::
    "svc_config \<Rightarrow> string \<Rightarrow> refusal_reason option \<Rightarrow> string + unit \<Rightarrow> engine \<Rightarrow> engine" where
  "sweep_refusal_arrives C sid refusal connection e = (case egSweepApprovals e sid of
       Some (AwaitRefusal g now) \<Rightarrow>
         settle_approval sid (on_store (approveSweep_refusal sid g now refusal connection) e)
     | _ \<Rightarrow> e)"

definition sweep_account_arrives ::
    "svc_config \<Rightarrow> string \<Rightarrow> gas_error + account_observation \<Rightarrow> instant \<Rightarrow> engine \<Rightarrow> engine" where
  "sweep_account_arrives C sid v at e = (case egSweepApprovals e sid of
       Some (AwaitAccount g plan now) \<Rightarrow>
         settle_approval sid (on_store (ebind (elift v) (approveSweep_account (cfLib C) sid plan now at)) e)
     | _ \<Rightarrow> e)"

definition sweep_signature_arrives ::
    "svc_config \<Rightarrow> string \<Rightarrow> string + signed_attempt \<Rightarrow> instant \<Rightarrow> engine \<Rightarrow> engine" where
  "sweep_signature_arrives C sid v at e = (case egSweepApprovals e sid of
       Some (AwaitSignature plan now) \<Rightarrow>
         settle_approval sid (on_store (approveSweep_signed (cfLib C) sid now at v) e)
     | _ \<Rightarrow> e)"

definition sweep_broadcast_arrives ::
    "svc_config \<Rightarrow> string \<Rightarrow> string + broadcast_result \<Rightarrow> instant \<Rightarrow> engine \<Rightarrow> engine" where
  "sweep_broadcast_arrives C sid v at e = (case egSweepApprovals e sid of
       Some (AwaitBroadcast sg) \<Rightarrow>
         snd (on_store (approveSweep_broadcasted (cfLib C) sid sg at v)
           (e\<lparr>egSweepApprovals := (egSweepApprovals e)(sid := None)\<rparr>))
     | _ \<Rightarrow> e)"

definition sweep_cancel :: "svc_config \<Rightarrow> string \<Rightarrow> instant \<Rightarrow> (engine, gas_error, sweep) eng" where
  "sweep_cancel C sid now = on_store (cancelSweep (cfLib C) sid now)"

definition sweep_list :: "svc_config \<Rightarrow> instant \<Rightarrow> int \<Rightarrow> (engine, gas_error, sweep list) eng" where
  "sweep_list C now limit = on_store (listSweepsService (cfLib C) now limit)"

text \<open>\<open>refreshSweep\<close>; the cadence is recorded when it ends, with or without an exception.\<close>

definition settle_refresh :: "string \<Rightarrow> bool \<Rightarrow> instant \<Rightarrow> engine \<Rightarrow> engine" where
  "settle_refresh sid later now e = e\<lparr>egRefreshes := (egRefreshes e)(sid := None),
     egSweepCadence := recordCadence sid later now None (egSweepCadence e)\<rparr>"

definition sweep_refresh :: "svc_config \<Rightarrow> string \<Rightarrow> instant \<Rightarrow> engine \<Rightarrow> engine" where
  "sweep_refresh C sid now e = (case egRefreshes e sid of
       Some _ \<Rightarrow> e
     | None \<Rightarrow> (case on_store (refreshSweep_start (cfLib C) sid now) e of
           (Inr (AwaitOutcome g now'), e') \<Rightarrow> e'\<lparr>egRefreshes := (egRefreshes e')(sid \<mapsto> (g, now'))\<rparr>
         | (Inr (RefreshDone _ later), e') \<Rightarrow> settle_refresh sid later now e'
         | (Inl _, e') \<Rightarrow> settle_refresh sid True now e'))"

definition sweep_outcome_arrives ::
    "svc_config \<Rightarrow> string \<Rightarrow> gas_error + submitted_outcome \<Rightarrow> bool \<Rightarrow> engine \<Rightarrow> engine" where
  "sweep_outcome_arrives C sid v seen e = (case egRefreshes e sid of
       Some (g, now) \<Rightarrow>
         (case on_store (ebind (elift v) (\<lambda>outcome. refreshSweep_outcome (cfLib C) sid g now outcome seen)) e of
            (Inr (_, later), e') \<Rightarrow> settle_refresh sid later now e'
          | (Inl _, e') \<Rightarrow> settle_refresh sid True now e')
     | None \<Rightarrow> e)"

definition sweep_observe :: "svc_config \<Rightarrow> instant \<Rightarrow> engine \<Rightarrow> engine" where
  "sweep_observe C now e = (case on_store (activeSweep (cfLib C)) e of
       (Inl _, e') \<Rightarrow> e'
     | (Inr g, e') \<Rightarrow>
         let live = (case g of Some g \<Rightarrow> if gsStatus g = SwBroadcast then [gsId g] else [] | None \<Rightarrow> []);
             e2 = e'\<lparr>egSweepCadence := retainCadence live (egSweepCadence e')\<rparr> in
         (case live of sid # _ \<Rightarrow> if isDue (egSweepCadence e2) sid now then sweep_refresh C sid now e2 else e2
          | [] \<Rightarrow> e2))"

subsection \<open>Start, stop and restart\<close>

definition stop :: "engine \<Rightarrow> engine" where
  "stop e = e\<lparr>egClosed := True\<rparr>"

text \<open>
  A new process over the same database: every suspended call is gone; \<open>start\<close> re-queues the
  preparations that were interrupted.
\<close>

definition boot :: "store \<Rightarrow> engine" where
  "boot s = \<lparr>egStore = s, egClosed = False, egCadence = Map.empty, egWaiting = Map.empty, egTick = None,
     egQueue = [], egRecover = None, egObserving = False, egNextObservation = 0, egApprovals = [],
     egPrepQueue = [], egPrep = None, egSent = [], egSweepPreps = [], egSweepApprovals = Map.empty,
     egRefreshes = Map.empty, egSweepCadence = Map.empty, egSweepSent = [],
     egSweepLost = []\<rparr>"

definition restart :: "instant \<Rightarrow> engine \<Rightarrow> engine" where
  "restart now e =
     (let e' = snd (on_store (resetInterruptedPreparations now) (boot (egStore e))) in
      e'\<lparr>egPrepQueue := map ppId (pendingPreparations (egStore e')), egSent := egSent e,
          egSweepSent := egSweepSent e, egSweepLost := egSweepLost e\<rparr>)"

text \<open>
  The process dies between the last commit of a stretch and what the stretch does next: the rows
  written so far are those of \<open>e'\<close>, but a transaction the stretch was about to hand over to the
  broadcaster never left. It is not in the logs of submissions; \<open>egSweepLost\<close> records the sweeps this
  happened to, and no function reads it.
\<close>

definition crash :: "instant \<Rightarrow> engine \<Rightarrow> engine \<Rightarrow> engine" where
  "crash now e e' = restart now (e'\<lparr>egSent := egSent e, egSweepSent := egSweepSent e,
     egSweepLost := egSweepLost e @ drop (length (egSweepSent e)) (egSweepSent e')\<rparr>)"

definition empty_store :: store where
  "empty_store = \<lparr>stLeases = [], stRuns = [], stPreps = [], stSweeps = []\<rparr>"

end
