(* ===== verification/Handler_Frames.thy ===== *)
theory Handler_Frames
  imports Run_Service
begin

text \<open>
  What the handlers other than ticks do to the store: each keeps the invariant and changes a run only
  within \<open>run_frame\<close>, so that a tick that is suspended meanwhile still knows what it knew.
\<close>

subsection \<open>Handlers that are not ticks\<close>

definition framed :: "tx_lib \<Rightarrow> store \<Rightarrow> store \<Rightarrow> bool" where
  "framed L s t \<longleftrightarrow> store_inv L t \<and> run_frame s t"

lemma framed_refl: "store_inv L s \<Longrightarrow> framed L s s"
  by (simp add: framed_def)

lemma framed_trans: "framed L s t \<Longrightarrow> framed L t u \<Longrightarrow> framed L s u"
  by (auto simp: framed_def intro: run_frame_trans)

lemma wp_transition_framed:
  assumes "framed L s0 s" and "list_all (\<lambda>x. \<not> terminal_run x) from" and "to \<noteq> Completed"
    and "\<And>r t. framed L s0 t \<Longrightarrow> Q r t" and "\<And>t. framed L s0 t \<Longrightarrow> E t"
  shows "wp (transition L rid from to now p) Q E s"
proof (rule wp_transition)
  show "store_inv L s" using assms(1) by (simp add: framed_def)
  show "Q (apply_patch to now p r) t" if "run_at L rid (apply_patch to now p r) t" "run_frame s t" for r t
    using that framed_trans[OF assms(1), of t] by (intro assms(4)) (simp add: framed_def run_at_def)
qed (use assms in simp_all)

lemma wp_approve_start:
  assumes "store_inv L s"
  shows "wp (approve_start L ctl rid sha now) (\<lambda>_. framed L s) (framed L s) s"
  unfolding approve_start_def wp_ebind
  by (rule wp_serviceGet)
    (auto intro!: wp_transition_framed[OF framed_refl[OF assms]] framed_refl[OF assms]
      simp: terminal_run_def split: sum.splits)

lemma wp_approve_checked:
  assumes "store_inv L s"
  shows "wp (approve_checked L rid sha now refusal) (\<lambda>_. framed L s) (framed L s) s"
proof -
  have "wp (ecatch
       (ebind (transition L rid [AwaitingApproval] Approved now (no_patch\<lparr>tpApprovedAt := Some now\<rparr>))
         (\<lambda>r. eret (r, True)))
       (\<lambda>err. ebind (serviceGet L rid) (\<lambda>raced.
          if rnStatus raced = Expired
          then ethrow (RewardRunError RunExpired ''The run approval window elapsed'')
          else if rnRecipeSha raced = sha \<and> rnStatus raced \<noteq> AwaitingApproval then eret (raced, False)
          else ethrow (RewardRunError RunConflict (error_text err))))) (\<lambda>_. framed L s) (framed L s) s"
    by (rule wp_ecatch[where E' = "framed L s"])
      (auto intro!: wp_transition_framed[OF framed_refl[OF assms]] wp_serviceGet simp: terminal_run_def)
  then show ?thesis
    unfolding approve_checked_def wp_ebind using framed_refl[OF assms] by (simp split: sum.splits)
qed

lemma wp_pause: "store_inv L s \<Longrightarrow> wp (pause L rid now) (\<lambda>_. framed L s) (framed L s) s"
  unfolding pause_def wp_ebind
  by (rule wp_serviceGet) (auto intro!: wp_transition_framed[OF framed_refl] framed_refl simp: terminal_run_def)

lemma wp_cancel: "store_inv L s \<Longrightarrow> wp (cancel L rid now) (\<lambda>_. framed L s) (framed L s) s"
  unfolding cancel_def wp_ebind
  by (rule wp_serviceGet) (auto intro!: wp_transition_framed[OF framed_refl] framed_refl simp: terminal_run_def)

lemma wp_recover_run: "store_inv L s \<Longrightarrow> wp (recover_run L r now) (\<lambda>_. framed L s) (framed L s) s"
  unfolding recover_run_def
  by (auto intro!: wp_transition_framed[OF framed_refl] framed_refl simp: terminal_run_def)

lemma reset_child_inv:
  assumes "child_inv r i c" and "chStatus c = ChildHalted"
  shows "child_inv r i ((unmaterialize now c)\<lparr>chTxid := None, chProvenance := None, chFailure := None, chSource := None\<rparr>)"
  using assms by (auto simp: child_inv_def unmaterialize_def live_def)

lemma wp_resetRejectedChild:
  assumes at: "run_at L rid r s" and appr: "rnApprovedAt r \<noteq> None"
  shows "wp (resetRejectedChild rid (rnCursor r) now) (\<lambda>_. framed L s) (framed L s) s"
proof -
  let ?f = "\<lambda>c. (unmaterialize now c)\<lparr>chTxid := None, chProvenance := None, chFailure := None, chSource := None\<rparr>"
  let ?i = "rnCursor r"
  have inv: "store_inv L s" "run_inv L r" "run_row s rid = Some r" using run_atD[OF at] by simp_all
  have w: "wp (write_child rid ?i ?f) (\<lambda>_. framed L s) (framed L s) s"
    if i: "?i < length (rnChildren r)" and st: "chStatus (rnChildren r ! ?i) = ChildHalted"
  proof (rule wp_write_child[OF at i])
    show "run_inv L (upd_child ?i ?f r)"
      using reset_child_inv[OF run_inv_child[OF inv(2) i] st] inv(2) i appr
      by (intro run_inv_upd_cursor) (simp_all add: same_child_seal_def unmaterialize_def)
    fix t
    assume t: "t = upd_run rid (upd_child ?i ?f) s" and at': "run_at L rid (upd_child ?i ?f r) t"
    have "same_work r (upd_child ?i ?f r)"
      using st i by (auto simp: same_work_def same_seal_def nth_list_update)
    then have "run_frame s t" unfolding t by (intro run_frame_upd) (use inv(3) in simp_all)
    with run_at_inv[OF at'] show "framed L s t" by (simp add: framed_def)
  qed (use framed_refl[OF inv(1)] in \<open>simp_all add: unmaterialize_def\<close>)
  show ?thesis
    unfolding resetRejectedChild_def wp_ebind
    by (rule wp_requireChild[OF at]) (use w framed_refl[OF inv(1)] in auto)
qed

lemma halted_approved: "run_inv L r \<Longrightarrow> rnStatus r = Halted \<Longrightarrow> rnApprovedAt r \<noteq> None"
  using run_inv_checks[of L r] by (auto simp: run_checks_def)

lemma wp_resume_store:
  assumes inv: "store_inv L s"
  shows "wp (resume_store L ctl rid now) (\<lambda>_. framed L s) (framed L s) s"
  unfolding resume_store_def wp_ebind
proof (rule wp_serviceGet)
  fix r
  assume row: "run_row s rid = Some r"
  let ?go = "\<lambda>c. wp (ebind (transition L rid [Paused, Halted] Running now no_patch) (\<lambda>resumed.
     eret (resumed, (case c of None \<Rightarrow> None | Some c \<Rightarrow> chTxid c)))) (\<lambda>_. framed L s) (framed L s)"
  have go: "?go c t" if "framed L s t" for c t
    using wp_transition_framed[OF that] by (simp add: terminal_run_def)
  have reset: "wp (resetRejectedChild rid (rnCursor r) now) (\<lambda>_. ?go c) (framed L s) s"
    if st: "rnStatus r = Halted" for c
  proof -
    have at: "run_at L rid r s" using inv row by (simp add: run_at_def)
    have "rnApprovedAt r \<noteq> None" using halted_approved st run_atD[OF at] by blast
    from wp_resetRejectedChild[OF at this] show ?thesis by (rule wp_mono) (use go in auto)
  qed
  show "wp (elift (assertExecutionAllowed ctl (rpOperations (rnRecipe r)))) (\<lambda>_. wp (
     if runtime_elapsed r now
     then ebind (transition L rid [Paused, Halted] Expired now
                  (expired_patch now ''Maximum run time elapsed'')) (\<lambda>_.
          ethrow (RewardRunError RunExpired ''The maximum run time elapsed''))
     else
     let child = at_index (rnChildren r) (rnCursor r) in
     ebind (if rnStatus r = Halted \<and> map_option chStatus child = Some ChildHalted
            then resetRejectedChild rid (rnCursor r) now else eret ()) (\<lambda>_.
     ebind (transition L rid [Paused, Halted] Running now no_patch) (\<lambda>resumed.
     eret (resumed, (case child of None \<Rightarrow> None | Some c \<Rightarrow> chTxid c)))))
      (\<lambda>_. framed L s) (framed L s)) (framed L s) s"
    using reset go[OF framed_refl[OF inv]] wp_transition_framed[OF framed_refl[OF inv]] framed_refl[OF inv]
    by (auto simp: Let_def terminal_run_def split: sum.splits)
qed (rule framed_refl[OF inv])

subsection \<open>Preparations\<close>

lemma owner_active_cong:
  "stRuns t = stRuns s \<Longrightarrow> stSweeps t = stSweeps s \<Longrightarrow> owner_active t w x = owner_active s w x"
  by (cases "(s, w, x)" rule: owner_active.cases) simp_all

lemma framed_preps:
  assumes "store_inv L s" and "stRuns t = stRuns s" "stSweeps t = stSweeps s" "stLeases t = stLeases s"
  shows "framed L s t"
  using assms
  by (simp add: framed_def store_inv_def lease_inv_def attempt_txids_def run_frame_def run_row_def
      owner_active_cong[OF assms(2,3)])

definition same_work_tables :: "store \<Rightarrow> store \<Rightarrow> bool" where
  "same_work_tables s t \<longleftrightarrow> stRuns t = stRuns s \<and> stSweeps t = stSweeps s \<and> stLeases t = stLeases s"

lemma wp_requirePreparation:
  "same_work_tables s0 s \<Longrightarrow> wp (requirePreparation pid) (\<lambda>_. same_work_tables s0) (same_work_tables s0) s"
  by (simp add: requirePreparation_def split: option.splits)

lemma wp_update_prep:
  "same_work_tables s0 s \<Longrightarrow> wp (update_prep pid st f) (\<lambda>_. same_work_tables s0) (same_work_tables s0) s"
  by (auto simp: wp_def update_prep_def same_work_tables_def split: option.splits)

lemma wp_preparation_ops:
  assumes "same_work_tables s0 s"
  shows "wp (createPreparation pid sha q now) (\<lambda>_. same_work_tables s0) (same_work_tables s0) s"
    and "wp (claimPreparation pid now) (\<lambda>_. same_work_tables s0) (same_work_tables s0) s"
    and "wp (completePreparation pid rid now) (\<lambda>_. same_work_tables s0) (same_work_tables s0) s"
    and "wp (failPreparation pid reason now code) (\<lambda>_. same_work_tables s0) (same_work_tables s0) s"
    and "wp (resetInterruptedPreparations now) (\<lambda>_. same_work_tables s0) (same_work_tables s0) s"
proof -
  let ?P = "same_work_tables s0"
  show "wp (createPreparation pid sha q now) (\<lambda>_. ?P) ?P s"
    using assms by (auto simp: wp_def createPreparation_def Let_def same_work_tables_def split: option.splits)
  show "wp (resetInterruptedPreparations now) (\<lambda>_. ?P) ?P s"
    using assms by (simp add: wp_def resetInterruptedPreparations_def same_work_tables_def)
  show "wp (claimPreparation pid now) (\<lambda>_. ?P) ?P s"
    unfolding claimPreparation_def wp_ebind
    by (rule wp_mono[OF wp_update_prep[OF assms]]) (auto intro: wp_requirePreparation)
  show "wp (completePreparation pid rid now) (\<lambda>_. ?P) ?P s"
    using assms unfolding completePreparation_def wp_ebind wp_eread
    by (auto intro!: wp_mono[OF wp_update_prep[OF assms]] wp_requirePreparation split: sum.splits)
  show "wp (failPreparation pid reason now code) (\<lambda>_. ?P) ?P s"
    unfolding failPreparation_def Let_def wp_ebind
    by (rule wp_mono[OF wp_update_prep[OF assms]]) (auto intro: wp_requirePreparation)
qed

subsection \<open>Inserting a run\<close>

lemma recipe_inv_built:
  assumes "buildRewardRunRecipe L rid f q cap m = Inr R"
  shows "recipe_inv R" and "rpRunId R = rid" and "rpWallet R = dfWallet f"
    and "map rcIndex (rpChildren R) = [0..<length (rpChildren R)]"
proof -
  from assms obtain sel where
    cs: "recipe_children L f sel (rpMaxTransactions R) = Inr (rpChildren R)"
    and bs: "bound_accounts (rpChildren R) [] (sorted_accounts L f) = Inr (rpAccounts R)"
    and n: "rpReviewedTotal R = sum_list (map (\<lambda>b. daMaxGross (abAccount b)) (rpAccounts R))"
      "rpFeeCap R = cap" "rpGasBudget R = cap * length (rpChildren R)"
      "rpRunId R = rid" "rpWallet R = dfWallet f"
    by (rule buildRewardRunRecipe_elim) (rule that)
  have "map (\<lambda>c. the (rcMaxAmount c)) (payments (rpChildren R)) =
      map (\<lambda>b. daMaxGross (abAccount b)) (rpAccounts R)"
    using arg_cong[OF recipe_accounts(1)[OF cs bs], of "map (\<lambda>(_, _, x). the x)"] by (simp add: comp_def)
  with n show "recipe_inv R" by (simp add: recipe_inv_def)
  show "map rcIndex (rpChildren R) = [0..<length (rpChildren R)]" by (rule recipe_index[OF cs])
qed (rule buildRewardRunRecipe_elim[OF assms], assumption)+

lemma fresh_run_inv:
  assumes R: "buildRewardRunRecipe L rid f q cap m = Inr R"
    and r: "r = fresh_run rid (dfWallet f) (rewardRunRecipeSha256 L R) R x (map child_input_of (rpChildren R)) now"
    and ck: "run_checks r"
  shows "run_inv L r"
proof -
  note B = recipe_inv_built[OF R]
  let ?cs = "map (fresh_child now) (map child_input_of (rpChildren R))"
  have idx: "rcIndex (rpChildren R ! i) = i" if "i < length (rpChildren R)" for i
    using arg_cong[OF B(4), of "\<lambda>xs. xs ! i"] that by simp
  have sel: "rnChildren r = ?cs" "rnRecipe r = R" "rnCursor r = 0" "rnGasSpent r = 0"
    "rnStatus r = AwaitingApproval" "rnId r = rid" "rnWallet r = dfWallet f"
    "rnRecipeSha r = rewardRunRecipeSha256 L R"
    by (simp_all add: r fresh_run_def)
  have "recipe_children_match r"
    by (simp add: recipe_children_match_def sel list_all_iff recipe_child_matches_def at_index_def
        idx fresh_child_def child_input_of_def)
  then have "sealed_run L r" using B by (simp add: sealed_run_def sel)
  moreover have "child_inv r i (fresh_child now c)" for i c
    by (simp add: child_inv_def fresh_child_def live_def)
  moreover have "untouched (fresh_child now c)" for c by (simp add: untouched_def fresh_child_def)
  ultimately show ?thesis using B(1) ck by (auto simp: run_inv_def sel)
qed

lemma insert_store_inv:
  assumes inv: "store_inv L s" and r: "run_inv L r" "rnStatus r = AwaitingApproval" "run_txids r = []"
    and new: "run_row s (rnId r) = None"
    and acq: "lease_acquire (rnWallet r) RewardRunKind (rnId r) now (stLeases s) = Some ls"
  shows "framed L s (s\<lparr>stLeases := ls, stRuns := stRuns s @ [r]\<rparr>)" (is "framed L s ?t")
proof -
  have ok: "lease_ok (stLeases s)" and
    own: "\<And>w x. lease_holder (stLeases s) w = Some x \<longleftrightarrow> owner_active s w x"
    using inv unfolding store_inv_def lease_inv_def by blast+
  have ids: "rnId r \<notin> rnId ` set (stRuns s)" using new by (simp add: run_row_def row_find_None_iff)
  have free: "lease_holder (stLeases s) (rnWallet r) = None"
    using leases.acquire_defined[OF ok, of "rnWallet r" RewardRunKind "rnId r" now] acq by simp
  have act: "owner_active ?t w x \<longleftrightarrow> owner_active s w x \<or> (w = rnWallet r \<and> x = (RewardRunKind, rnId r))" for w x
    by (cases "(s, w, x)" rule: owner_active.cases) (auto simp: r(2) terminal_run_def)
  have "lease_holder ls w = Some x \<longleftrightarrow> owner_active ?t w x" for w x
    using own[of w x] own[of "rnWallet r"] free unfolding act leases.holder_acquire[OF ok acq]
    by (auto split: if_splits)
  then have "store_inv L ?t"
    using inv r(1,3) ids leases.invar_acquire[OF ok acq]
    by (simp add: store_inv_def lease_inv_def attempt_txids_runs)
  moreover have "run_frame s ?t"
    by (auto simp: run_frame_def run_row_def row_find_append)
  ultimately show ?thesis by (simp add: framed_def)
qed

lemma wp_insertRun:
  assumes inv: "store_inv L s" and R: "buildRewardRunRecipe L rid f q cap m = Inr R"
  shows "wp (insertRun L rid (dfWallet f) (rewardRunRecipeSha256 L R) R x (map child_input_of (rpChildren R)) now)
    (\<lambda>_. framed L s) (framed L s) s"
proof -
  let ?r = "fresh_run rid (dfWallet f) (rewardRunRecipeSha256 L R) R x (map child_input_of (rpChildren R)) now"
  have sel: "rnId ?r = rid" "rnWallet ?r = dfWallet f" "rnStatus ?r = AwaitingApproval" "run_txids ?r = []"
    by (simp_all add: fresh_run_def run_txids_def fresh_child_def)
  have ins: "framed L s (s\<lparr>stLeases := ls, stRuns := stRuns s @ [?r]\<rparr>)"
    if "lease_acquire (dfWallet f) RewardRunKind rid now (stLeases s) = Some ls" "run_row s rid = None"
      "run_checks ?r" for ls
    using insert_store_inv[OF inv fresh_run_inv[OF R refl that(3)] sel(3,4)] that sel by simp
  have "wp (requireRun L rid) (\<lambda>_. framed L s) (framed L s) t" if "framed L s t" for t
    using that by (intro wp_requireRun)
  then show ?thesis
    using ins framed_refl[OF inv] unfolding insertRun_def wp_ebind wp_eguard wp_eatomic
    by (auto simp: Let_def split: option.splits)
qed

lemma wp_prepare_facts:
  assumes inv: "store_inv (cfLib C) s"
  shows "wp (prepare_facts C ctl rid q f now) (\<lambda>_. framed (cfLib C) s) (framed (cfLib C) s) s"
proof (cases "buildRewardRunRecipe (cfLib C) rid f q (cfMaximumFee C) (cfMaximumTransactions C)")
  case (Inr R)
  have "wp (ecatch (insertRun (cfLib C) rid (dfWallet f) (rewardRunRecipeSha256 (cfLib C) R) R
           (now + cfApprovalMinutes C * 60000) (map child_input_of (rpChildren R)) now) h)
      (\<lambda>_. framed (cfLib C) s) (framed (cfLib C) s) s"
    if "\<And>e t. framed (cfLib C) s t \<Longrightarrow> wp (h e) (\<lambda>_. framed (cfLib C) s) (framed (cfLib C) s) t" for h
    by (rule wp_ecatch[OF wp_insertRun[OF inv Inr]]) (rule that)
  then show ?thesis
    using framed_refl[OF inv] Inr unfolding prepare_facts_def Let_def wp_ebind wp_elift
    by (auto simp: getRun_cases split: sum.splits option.splits)
qed (use framed_refl[OF inv] in \<open>simp add: prepare_facts_def Let_def\<close>)

lemma wp_prepare_start:
  "wp (prepare_start L ctl ready rid q) (\<lambda>_ t. t = s) (\<lambda>t. t = s) s"
  by (auto simp: prepare_start_def getRun_cases split: option.splits sum.splits)

lemma wp_finish_preparation:
  assumes "wp m (\<lambda>_. framed L s) (framed L s) s"
  shows "wp (finish_preparation pid aborted now m) (\<lambda>_. framed L s) (framed L s) s"
proof -
  have tables: "framed L s u" if "framed L s t" "same_work_tables t u" for t u
    using that framed_preps[of L t u] framed_trans[of L s t u] by (auto simp: framed_def same_work_tables_def)
  have c: "wp (completePreparation pid rid now) (\<lambda>_. framed L s) (framed L s) t" if "framed L s t" for t rid
    by (rule wp_mono[OF wp_preparation_ops(3)[of t t]]) (use tables[OF that] in \<open>auto simp: same_work_tables_def\<close>)
  have f: "wp (failPreparation pid reason now code) (\<lambda>_. framed L s) (framed L s) t" if "framed L s t" for t reason code
    by (rule wp_mono[OF wp_preparation_ops(4)[of t t]]) (use tables[OF that] in \<open>auto simp: same_work_tables_def\<close>)
  show ?thesis
    unfolding finish_preparation_def
    by (rule wp_ecatch[where E' = "framed L s"])
      (use c f in \<open>auto intro!: wp_mono[OF assms]\<close>)
qed

subsection \<open>Sweeps\<close>

lemma in_write_sweep:
  assumes "distinct (map gsId (stSweeps s))" and "sweep_row s sid = Some g"
  shows "g' \<in> set (stSweeps (write_sweep sid p now s)) \<longleftrightarrow>
    g' = apply_sweep_patch p now g \<or> (g' \<in> set (stSweeps s) \<and> gsId g' \<noteq> sid)"
  using assms in_row_update_unique[of gsId "stSweeps s" sid g g' "apply_sweep_patch p now"]
  by (simp add: sweep_row_def write_sweep_def)

lemma apply_sweep_patch_fields [simp]:
  "gsId (apply_sweep_patch p now g) = gsId g" "gsWallet (apply_sweep_patch p now g) = gsWallet g"
  "gsStatus (apply_sweep_patch p now g) = patched (gpStatus p) (gsStatus g)"
  by (simp_all add: apply_sweep_patch_def)

lemma write_sweep_fields [simp]:
  "stRuns (write_sweep sid p now s) = stRuns s" "stLeases (write_sweep sid p now s) = stLeases s"
  "map gsId (stSweeps (write_sweep sid p now s)) = map gsId (stSweeps s)"
  by (simp_all add: write_sweep_def row_update_keys)

lemma owner_active_write_sweep:
  assumes d: "distinct (map gsId (stSweeps s))" and keep: "\<forall>g. sweep_row s sid = Some g \<longrightarrow> \<not> revives p g"
  shows "owner_active (write_sweep sid p now s) w x \<longleftrightarrow>
    owner_active s w x \<and> \<not> (patch_terminal p \<and> x = (SweepKind, sid))"
proof (cases "(s, w, x)" rule: owner_active.cases)
  case (2 s' w' i)
  then have x: "x = (SweepKind, i)" by simp
  show ?thesis
  proof (cases "sweep_row s sid")
    case None
    then have "sid \<notin> gsId ` set (stSweeps s)" by (simp add: sweep_row_def row_find_None_iff)
    then show ?thesis by (auto simp: x write_sweep_def row_update_other)
  next
    case (Some g)
    have g: "g \<in> set (stSweeps s)" "gsId g = sid"
      using Some by (auto simp: sweep_row_def dest: row_find_SomeD)
    have u: "g' = g" if "g' \<in> set (stSweeps s)" "gsId g' = sid" for g'
      using row_find_unique[OF d that(1)] that(2) Some by (simp add: sweep_row_def)
    have st: "\<not> sweep_terminal (patched (gpStatus p) (gsStatus g)) \<longleftrightarrow>
        \<not> sweep_terminal (gsStatus g) \<and> \<not> patch_terminal p"
      using keep[rule_format, OF Some]
      by (cases "gpStatus p") (auto simp: revives_def patched_def patch_terminal_def)
    have new: "owner_active (write_sweep sid p now s) w (SweepKind, sid) \<longleftrightarrow>
        gsWallet g = w \<and> \<not> sweep_terminal (patched (gpStatus p) (gsStatus g))"
      unfolding owner_active.simps Bex_def in_write_sweep[OF d Some] using g(2) by auto
    have old: "owner_active s w (SweepKind, sid) \<longleftrightarrow> gsWallet g = w \<and> \<not> sweep_terminal (gsStatus g)"
      unfolding owner_active.simps using g u by blast
    have other: "owner_active (write_sweep sid p now s) w (SweepKind, i) = owner_active s w (SweepKind, i)"
      if "i \<noteq> sid"
      unfolding owner_active.simps Bex_def in_write_sweep[OF d Some] using g(2) that by auto
    show ?thesis using new old other st by (cases "i = sid") (simp_all add: x)
  qed
qed auto

lemma write_sweep_framed:
  assumes inv: "store_inv L s" and keep: "\<forall>g. sweep_row s sid = Some g \<longrightarrow> \<not> revives p g"
  shows "framed L s (if patch_terminal p then release_sweep sid (write_sweep sid p now s)
                     else write_sweep sid p now s)" (is "framed L s ?t")
proof -
  have ok: "lease_ok (stLeases s)" and d: "distinct (map gsId (stSweeps s))" and
    own: "\<And>w x. lease_holder (stLeases s) w = Some x \<longleftrightarrow> owner_active s w x"
    using inv unfolding store_inv_def lease_inv_def by blast+
  have act: "owner_active ?t w x = owner_active (write_sweep sid p now s) w x" for w x
    by (rule owner_active_cong) (simp_all add: release_sweep_def)
  have "lease_holder (stLeases ?t) w = Some x \<longleftrightarrow> owner_active ?t w x" for w x
    using own[of w x] unfolding act owner_active_write_sweep[OF d keep]
    by (auto simp: release_sweep_def leases.holder_release[OF ok])
  moreover have "lease_ok (stLeases ?t)"
    using ok leases.invar_release[OF ok] by (simp add: release_sweep_def)
  moreover have "stRuns ?t = stRuns s" "map gsId (stSweeps ?t) = map gsId (stSweeps s)"
    by (simp_all add: release_sweep_def)
  ultimately show ?thesis
    using inv by (simp add: framed_def store_inv_def lease_inv_def attempt_txids_def run_frame_def run_row_def)
qed

lemma wp_getSweep: "framed L s t \<Longrightarrow> wp (getSweep L sid) (\<lambda>_. framed L s) (framed L s) t"
  by (simp add: getSweep_def split: option.splits)

lemma wp_updateSweep:
  assumes inv: "store_inv L s" and keep: "\<forall>g. sweep_row s sid = Some g \<longrightarrow> \<not> revives p g"
  shows "wp (updateSweep L sid p now) (\<lambda>_. framed L s) (framed L s) s"
proof -
  have get: "wp (getSweep L sid) (\<lambda>g. wp (case g of None \<Rightarrow> ethrow e | Some g \<Rightarrow> eret g)
      (\<lambda>_. framed L s) (framed L s)) (framed L s) t" if "framed L s t" for t e
    by (rule wp_mono[OF wp_getSweep[OF that]]) (auto split: option.splits)
  show ?thesis
    using get[OF write_sweep_framed[OF inv keep]] framed_refl[OF inv]
    unfolding updateSweep_def wp_ebind wp_eatomic by (auto split: if_splits)
qed

lemma wp_insertSweep:
  assumes inv: "store_inv L s"
  shows "wp (insertSweep L sid w p now) (\<lambda>_. framed L s) (framed L s) s"
proof -
  let ?g = "fresh_sweep sid w p now"
  have ok: "lease_ok (stLeases s)" and
    own: "\<And>w x. lease_holder (stLeases s) w = Some x \<longleftrightarrow> owner_active s w x"
    using inv unfolding store_inv_def lease_inv_def by blast+
  have ins: "framed L s (s\<lparr>stLeases := ls, stSweeps := stSweeps s @ [?g]\<rparr>)" (is "framed L s ?t")
    if acq: "lease_acquire w SweepKind sid now (stLeases s) = Some ls" and new: "sweep_row s sid = None" for ls
  proof -
    have ids: "sid \<notin> gsId ` set (stSweeps s)" using new by (simp add: sweep_row_def row_find_None_iff)
    have free: "lease_holder (stLeases s) w = None"
      using leases.acquire_defined[OF ok, of w SweepKind sid now] acq by simp
    have act: "owner_active ?t v x \<longleftrightarrow> owner_active s v x \<or> (v = w \<and> x = (SweepKind, sid))" for v x
      by (cases "(s, v, x)" rule: owner_active.cases) (auto simp: fresh_sweep_def sweep_terminal_def)
    have "lease_holder ls v = Some x \<longleftrightarrow> owner_active ?t v x" for v x
      using own[of v x] own[of w] free unfolding act leases.holder_acquire[OF ok acq]
      by (auto split: if_splits)
    then show ?thesis
      using inv ids leases.invar_acquire[OF ok acq]
      by (simp add: framed_def store_inv_def lease_inv_def attempt_txids_def run_frame_def run_row_def
          fresh_sweep_def)
  qed
  have get: "wp (getSweep L sid) (\<lambda>g. wp (case g of None \<Rightarrow> ethrow e | Some g \<Rightarrow> eret g)
      (\<lambda>_. framed L s) (framed L s)) (framed L s) t" if "framed L s t" for t e
    by (rule wp_mono[OF wp_getSweep[OF that]]) (auto split: option.splits)
  show ?thesis
    unfolding insertSweep_def wp_ebind wp_eguard wp_eatomic
    by (auto intro!: get ins framed_refl[OF inv] split: option.splits)
qed

subsection \<open>Sweep handlers\<close>

text \<open>
  \<open>frames L m\<close>: from any store with the invariant, \<open>m\<close> stays within the frame. A handler that reads
  a sweep before it updates it is framed at that row (\<open>frames_at\<close>): an update must not turn a finished
  sweep back into an active one, which the status it has just read excludes.
\<close>

definition frames :: "tx_lib \<Rightarrow> (store, 'e, 'a) eng \<Rightarrow> bool" where
  "frames L m \<longleftrightarrow> (\<forall>s. store_inv L s \<longrightarrow> framed L s (snd (m s)))"

definition frames_at :: "tx_lib \<Rightarrow> string \<Rightarrow> sweep \<Rightarrow> (store, 'e, 'a) eng \<Rightarrow> bool" where
  "frames_at L sid g m \<longleftrightarrow> (\<forall>s. store_inv L s \<and> sweep_row s sid = Some g \<longrightarrow> framed L s (snd (m s)))"

lemma framesI: "(\<And>s. store_inv L s \<Longrightarrow> framed L s (snd (m s))) \<Longrightarrow> frames L m"
  by (simp add: frames_def)

lemma frames_wp: "(\<And>s. store_inv L s \<Longrightarrow> wp m (\<lambda>_. framed L s) (framed L s) s) \<Longrightarrow> frames L m"
  by (rule framesI, rule wp_final)

lemma wp_frames: "frames L m \<Longrightarrow> store_inv L s \<Longrightarrow> wp m (\<lambda>_. framed L s) (framed L s) s"
  by (auto simp: wp_def frames_def split: prod.splits sum.splits)

lemma frames_unchanged: "(\<And>s. snd (m s) = s) \<Longrightarrow> frames L m"
  by (simp add: frames_def framed_refl)

lemma frames_basic [simp, intro]:
  "frames L (eret a)" "frames L (ethrow e)" "frames L (eguard b e)" "frames L (elift r)" "frames L (eread f)"
  by (rule frames_unchanged, simp add: monad_defs)+

lemma relay_snd [simp]: "snd (relay m s) = snd (m s)"
  by (simp add: relay_def split: prod.splits sum.splits)

lemma frames_relay [simp]: "frames L (relay m) = frames L m" "frames_at L sid g (relay m) = frames_at L sid g m"
  by (simp_all add: frames_def frames_at_def)

lemma frames_ebind:
  assumes "frames L m" and "\<And>a. frames L (f a)" shows "frames L (ebind m f)"
proof (rule framesI)
  fix s assume inv: "store_inv L s"
  obtain x t where m: "m s = (x, t)" by fastforce
  have t: "framed L s t" using assms(1) inv m unfolding frames_def by (metis snd_conv)
  then have "framed L t (snd (f a t))" for a using assms(2) by (simp add: frames_def framed_def)
  with t m show "framed L s (snd (ebind m f s))" by (auto simp: ebind_def intro: framed_trans split: sum.splits)
qed

lemma frames_ecatch_throw: "frames L m \<Longrightarrow> frames L (ecatch m (\<lambda>e. ethrow (h e)))"
  by (auto simp: frames_def ecatch_def ethrow_def split: prod.splits sum.splits)

lemma frames_if: "frames L m \<Longrightarrow> frames L n \<Longrightarrow> frames L (if b then m else n)"
  by simp

lemma frames_option: "frames L m \<Longrightarrow> (\<And>a. frames L (n a)) \<Longrightarrow> frames L (case x of None \<Rightarrow> m | Some a \<Rightarrow> n a)"
  by (cases x) simp_all

lemmas frames_rules = frames_ebind frames_if frames_option frames_basic

lemma frames_sweep_reads [simp, intro]:
  "frames L (getSweep L sid)" "frames L (getSweepPlan sid)" "frames L (activeSweep L)" "frames L (listSweeps L limit)"
  by (simp_all add: getSweep_def getSweepPlan_def activeSweep_def listSweeps_def)

lemma frames_insertSweep [simp, intro]: "frames L (insertSweep L sid w p now)"
  by (rule frames_wp) (rule wp_insertSweep)

lemma frames_updateSweep:
  "(\<And>g. \<not> revives gp g) \<Longrightarrow> frames L (updateSweep L sid gp now)"
  by (rule frames_wp, rule wp_updateSweep) simp_all

lemma frames_at_updateSweep: "\<not> revives gp g \<Longrightarrow> frames_at L sid g (updateSweep L sid gp now)"
  unfolding frames_at_def by (auto intro!: wp_final[OF wp_updateSweep])

lemma frames_at: "frames L m \<Longrightarrow> frames_at L sid g m"
  by (simp add: frames_def frames_at_def)

lemma frames_at_if: "(b \<Longrightarrow> frames_at L sid g m) \<Longrightarrow> (\<not> b \<Longrightarrow> frames_at L sid g n) \<Longrightarrow> frames_at L sid g (if b then m else n)"
  by simp

lemma frames_at_ebind:
  assumes "frames_at L sid g m" and "\<And>a. frames L (f a)" shows "frames_at L sid g (ebind m f)"
proof -
  have "framed L s (snd (ebind m f s))" if inv: "store_inv L s" and g: "sweep_row s sid = Some g" for s
  proof -
    obtain x t where m: "m s = (x, t)" by fastforce
    have t: "framed L s t" using assms(1) inv g m unfolding frames_at_def by (metis snd_conv)
    then have "framed L t (snd (f a t))" for a using assms(2) by (simp add: frames_def framed_def)
    with t m show ?thesis by (auto simp: ebind_def intro: framed_trans split: sum.splits)
  qed
  then show ?thesis by (simp add: frames_at_def)
qed

lemma frames_require:
  assumes "\<And>g. frames_at L sid g (f g)" shows "frames L (ebind (requireSweep L sid) f)"
  using assms framed_refl unfolding frames_def frames_at_def requireSweep_def
  by (auto simp: ebind_def relay_def getSweep_def eread_def eret_def ethrow_def split: option.splits)

lemma frames_requireSweep [simp, intro]: "frames L (requireSweep L sid)"
  unfolding requireSweep_def by (intro frames_ebind frames_option) simp_all

lemma frames_resolveSweep: "sweep_terminal st \<Longrightarrow> frames L (resolveSweep L sid st now reason)"
  unfolding resolveSweep_def frames_relay
  by (rule frames_updateSweep) (simp add: revives_def resolved_patch_def patched_def)

lemma frames_expirePlanned [intro]: "frames L (expirePlannedSweeps L now)"
  unfolding expirePlannedSweeps_def
  by (auto intro!: frames_rules frames_resolveSweep simp: sweep_terminal_def)

lemma frames_prepareSweep:
  "frames L (prepareSweep_start L wallet jobs connection now)"
  "frames L (prepareSweep_finish L C w sid recipient tip account est now)"
proof -
  have "frames L (requireNoActiveWork L jobs now)"
    unfolding requireNoActiveWork_def by (auto intro!: frames_rules)
  then show "frames L (prepareSweep_start L wallet jobs connection now)"
    unfolding prepareSweep_start_def by (auto intro!: frames_rules)
  show "frames L (prepareSweep_finish L C w sid recipient tip account est now)"
    unfolding prepareSweep_finish_def
    by (auto intro!: frames_rules frames_ecatch_throw split: prod.splits)
qed

lemma frames_approveSweep:
  "frames L (approveSweep_start L engine ready jobs sid now)"
  "frames L (approveSweep_refusal sid g now refusal connection)"
  "frames L (approveSweep_account L sid plan now at account)"
proof -
  show "frames L (approveSweep_start L engine ready jobs sid now)"
    unfolding approveSweep_start_def
    by (intro frames_rules frames_requireSweep frames_resolveSweep) (simp add: sweep_terminal_def)
  show "frames L (approveSweep_refusal sid g now refusal connection)"
    unfolding approveSweep_refusal_def by (auto intro!: frames_rules)
  show "frames L (approveSweep_account L sid plan now at account)"
    unfolding approveSweep_account_def Let_def assertSweepApprovalCurrent_def
    by (auto intro!: frames_rules frames_resolveSweep simp: sweep_terminal_def split: prod.splits)
qed

lemma frames_approveSweep_signed: "frames L (approveSweep_signed L sid now at v)"
proof (cases v)
  case (Inl m)
  then show ?thesis
    unfolding approveSweep_signed_def by (auto intro!: frames_rules frames_resolveSweep simp: sweep_terminal_def)
next
  case (Inr sg)
  let ?k = "ebind (relay (updateSweep L sid (submitted_patch sg at) at)) (\<lambda>_. eret (AwaitBroadcast sg))"
  have "ebind (assertSweepApprovalCurrent L sid at) (\<lambda>_. ?k) = ebind (requireSweep L sid) (\<lambda>g.
      ebind (eguard (gsStatus g = SwPlanned \<and> \<not> gsExpires g \<le> at)
        (GasWalletError SweepState ''Sweep approval is no longer current'')) (\<lambda>_. ?k))"
    unfolding assertSweepApprovalCurrent_def
    by (simp add: fun_eq_iff ebind_def split: prod.splits sum.splits)
  moreover have "frames L \<dots>"
  proof (rule frames_require)
    fix g
    have "frames_at L sid g ?k" if "gsStatus g = SwPlanned"
      by (intro frames_at_ebind) (simp_all add: frames_at_updateSweep revives_def that sweep_terminal_def)
    then show "frames_at L sid g (ebind (eguard (gsStatus g = SwPlanned \<and> \<not> gsExpires g \<le> at)
        (GasWalletError SweepState ''Sweep approval is no longer current'')) (\<lambda>_. ?k))"
      by (auto simp: frames_at_def ebind_def eguard_def eret_def ethrow_def framed_refl split: if_splits)
  qed
  ultimately show ?thesis using Inr by (simp add: approveSweep_signed_def)
qed

lemma frames_at_while_broadcast:
  assumes "\<And>g. gsStatus g = SwBroadcast \<Longrightarrow> \<not> revives gp g"
  shows "gsStatus g = SwBroadcast \<Longrightarrow> frames_at L sid g (relay (updateSweep L sid gp now))"
  using assms by (simp add: frames_at_updateSweep)

lemma not_revives_broadcast: "gsStatus g = SwBroadcast \<Longrightarrow> \<not> revives gp g"
  by (simp add: revives_def sweep_terminal_def)

lemma frames_approveSweep_broadcasted: "frames L (approveSweep_broadcasted L sid sg at v)"
  unfolding approveSweep_broadcasted_def
  by (rule frames_require)
    (auto intro!: frames_at_while_broadcast not_revives_broadcast frames_at[OF frames_basic(1)] simp del: frames_relay
      split: broadcast_result.split)

lemma frames_cancelSweep: "frames L (cancelSweep L sid now)"
  unfolding cancelSweep_def by (auto intro!: frames_rules frames_resolveSweep simp: sweep_terminal_def)

lemma frames_refreshSweep:
  "frames L (refreshSweep_start L sid now)" "frames L (refreshSweep_outcome L sid g now outcome seen)"
proof -
  show "frames L (refreshSweep_start L sid now)"
    unfolding refreshSweep_start_def by (auto intro!: frames_rules frames_resolveSweep simp: sweep_terminal_def)
  have conf: "frames L (recordSweepConflict L sid reason now)" for reason
    unfolding recordSweepConflict_def
    by (rule frames_require)
      (auto intro!: frames_at_while_broadcast not_revives_broadcast frames_at[OF frames_basic(1)] simp del: frames_relay)
  show "frames L (refreshSweep_outcome L sid g now outcome seen)"
  proof (cases outcome)
    case (OutcomeConfirmed success repr height src)
    then show ?thesis
      unfolding refreshSweep_outcome_def submitted_outcome.case
      by (simp only: submitted_outcome.case)
        (rule frames_require, auto intro!: frames_at_ebind frames_at_while_broadcast
          not_revives_broadcast frames_at[OF frames_basic(1)] simp del: frames_relay)
  qed (auto simp: refreshSweep_outcome_def intro!: frames_rules conf)
qed

lemma frames_listSweeps: "frames L (listSweepsService L now limit)"
  unfolding listSweepsService_def by (auto intro!: frames_rules)

end
