(* ===== verification/Run_Safety.thy ===== *)
theory Run_Safety
  imports Handler_Frames
begin

text \<open>
  The service as a transition system, with one rule per event: an operator call, the next iteration
  of a loop, the arrival of an awaited value, a stop and a restart of the process. \<open>run_step\<close> has the
  events of the reward-run service, \<open>sweep_step\<close> those of the gas wallet, and \<open>step\<close> interleaves them
  over the one store; its rule \<open>Crashes\<close> lets the process die after the commits of any event, before the
  event hands a transaction over. \<open>reachable\<close> is what can happen from an empty database. Every safety property is an
  invariant of it, proved by rule induction from the handler lemmas.
\<close>

subsection \<open>The transition system\<close>

inductive run_step :: "svc_config \<Rightarrow> engine \<Rightarrow> engine \<Rightarrow> bool" for C where
  Enqueue: "run_step C e (snd (enqueuePreparation C ctl ready freshId q now e))"
| Prepare: "run_step C e (start_preparation C ctl ready freshId now e)"
| Facts: "run_step C e (facts_arrive C ctl v now e)"
| Approve: "run_step C e (snd (approve C ctl rid sha now e))"
| Approved: "run_step C e (snd (approve_arrives C n refusal e))"
| Pause: "run_step C e (snd (on_store (pause (cfLib C) rid now) e))"
| Resume: "run_step C e (snd (resume C ctl rid now e))"
| Cancel: "run_step C e (snd (on_store (cancel (cfLib C) rid now) e))"
| Recover: "run_step C e (snd (recover C observers now e))"
| RecoverStep: "run_step C e (recover_step C now e)"
| Observed: "run_step C e (observation_settles e)"
| Tick: "run_step C e (run_queue C ctl now at e)"
| Reconciled: "run_step C e (reconcile_arrives C rec at e)"
| Materialized: "run_step C e (materialize_arrives C ctl mat at e)"
| Refusal: "run_step C e (tick_refusal_arrives C ctl refusal at e)"
| Signature: "run_step C e (signature_arrives C sg at e)"
| BroadcastResult: "run_step C e (broadcast_arrives C res at e)"
| Stop: "run_step C e (stop e)"
| Restart: "run_step C e (restart now e)"

inductive sweep_step :: "svc_config \<Rightarrow> engine \<Rightarrow> engine \<Rightarrow> bool" for C where
  SweepPrepare: "sweep_step C e (snd (sweep_prepare C wallet jobs connection recipient now e))"
| SweepPrepared: "sweep_step C e (sweep_prepare_arrives C n sid tip account est e)"
| SweepApprove: "sweep_step C e (sweep_approve C engine ready jobs sid now e)"
| SweepRefusal: "sweep_step C e (sweep_refusal_arrives C sid refusal connection e)"
| SweepAccount: "sweep_step C e (sweep_account_arrives C sid acc at e)"
| SweepSignature: "sweep_step C e (sweep_signature_arrives C sid signature at e)"
| SweepBroadcast: "sweep_step C e (sweep_broadcast_arrives C sid res at e)"
| SweepCancel: "sweep_step C e (snd (sweep_cancel C sid now e))"
| SweepList: "sweep_step C e (snd (sweep_list C now limit e))"
| SweepRefresh: "sweep_step C e (sweep_refresh C sid now e)"
| SweepOutcome: "sweep_step C e (sweep_outcome_arrives C sid outcome seen e)"
| SweepObserve: "sweep_step C e (sweep_observe C now e)"

inductive step :: "svc_config \<Rightarrow> engine \<Rightarrow> engine \<Rightarrow> bool" for C where
  Runs: "run_step C e e' \<Longrightarrow> step C e e'"
| Sweeps: "sweep_step C e e' \<Longrightarrow> step C e e'"
| Crashes: "run_step C e e' \<or> sweep_step C e e' \<Longrightarrow> step C e (crash now e e')"

inductive reachable :: "svc_config \<Rightarrow> engine \<Rightarrow> bool" for C where
  init: "reachable C (boot empty_store)"
| step: "reachable C e \<Longrightarrow> step C e e' \<Longrightarrow> reachable C e'"

lemmas reachable_by_run = reachable.step[OF _ step.Runs]
lemmas reachable_by_crash = reachable.step[OF _ step.Crashes]
lemmas reachable_by_sweep = reachable.step[OF _ step.Sweeps]

definition tick_known :: "tx_lib \<Rightarrow> engine \<Rightarrow> bool" where
  "tick_known L e = (case egTick e of None \<Rightarrow> True | Some (_, _, pc) \<Rightarrow> pc_inv L pc (egStore e))"

definition engine_inv :: "svc_config \<Rightarrow> engine \<Rightarrow> bool" where
  "engine_inv C e \<longleftrightarrow> store_inv (cfLib C) (egStore e) \<and> tick_known (cfLib C) e"

text \<open>What a handler other than a tick may do: change the store within the frame, keep the tick.\<close>

definition beside :: "svc_config \<Rightarrow> engine \<Rightarrow> engine \<Rightarrow> bool" where
  "beside C e e' \<longleftrightarrow> framed (cfLib C) (egStore e) (egStore e') \<and> egTick e' = egTick e \<and> egSent e' = egSent e"

lemma engine_inv_beside: "engine_inv C e \<Longrightarrow> beside C e e' \<Longrightarrow> engine_inv C e'"
  by (auto simp: engine_inv_def beside_def framed_def tick_known_def intro: pc_inv_frame
      split: option.splits prod.splits)

lemma beside_refl: "engine_inv C e \<Longrightarrow> beside C e e"
  by (simp add: beside_def engine_inv_def framed_refl)

lemma beside_trans: "beside C e e' \<Longrightarrow> beside C e' e'' \<Longrightarrow> beside C e e''"
  by (auto simp: beside_def intro: framed_trans)

lemma on_store_snd [simp]: "snd (on_store m e) = e\<lparr>egStore := snd (m (egStore e))\<rparr>"
  by (simp add: on_store_def split: prod.splits)

lemma beside_fields [simp]:
  "beside C e (e'\<lparr>egQueue := q\<rparr>) = beside C e e'" "beside C e (e'\<lparr>egRecover := rc\<rparr>) = beside C e e'"
  "beside C e (e'\<lparr>egCadence := cd\<rparr>) = beside C e e'" "beside C e (e'\<lparr>egApprovals := av\<rparr>) = beside C e e'"
  "beside C e (e'\<lparr>egPrepQueue := pq\<rparr>) = beside C e e'" "beside C e (e'\<lparr>egPrep := pr\<rparr>) = beside C e e'"
  "beside C e (e'\<lparr>egObserving := ob\<rparr>) = beside C e e'" "beside C e (e'\<lparr>egClosed := cl\<rparr>) = beside C e e'"
  "beside C e (e'\<lparr>egNextObservation := no\<rparr>) = beside C e e'"
  "beside C e (e'\<lparr>egWaiting := wt\<rparr>) = beside C e e'" "beside C e (e'\<lparr>egSweepPreps := sp\<rparr>) = beside C e e'"
  "beside C e (e'\<lparr>egSweepApprovals := sa\<rparr>) = beside C e e'" "beside C e (e'\<lparr>egRefreshes := sr\<rparr>) = beside C e e'"
  "beside C e (e'\<lparr>egSweepCadence := sc\<rparr>) = beside C e e'" "beside C e (e'\<lparr>egSweepSent := ss\<rparr>) = beside C e e'"
  "beside C e (e'\<lparr>egSweepLost := sl\<rparr>) = beside C e e'"
  by (simp_all add: beside_def)

lemma beside_queue [simp]: "beside C e (queue_tick rid src e') = beside C e e'"
  by (simp add: queue_tick_def)

lemma wp_on_store:
  assumes "wp m (\<lambda>a t. Q a (e\<lparr>egStore := t\<rparr>)) (\<lambda>t. E (e\<lparr>egStore := t\<rparr>)) (egStore e)"
  shows "wp (on_store m) Q E e"
  using assms by (simp add: wp_def on_store_def split: prod.splits sum.splits)

lemma wp_emodify [simp]: "wp (emodify f) Q E e = Q () (f e)"
  by (simp add: wp_def emodify_def)

lemma beside_on_store:
  assumes "wp m (\<lambda>_. framed (cfLib C) (egStore e)) (framed (cfLib C) (egStore e)) (egStore e)"
  shows "beside C e (e\<lparr>egStore := snd (m (egStore e))\<rparr>)"
  using wp_final[OF assms] by (simp add: beside_def)

subsection \<open>Every event keeps the invariant\<close>

lemma engine_store: "engine_inv C e \<Longrightarrow> store_inv (cfLib C) (egStore e)"
  by (simp add: engine_inv_def)

lemma beside_store:
  assumes "engine_inv C e" and "egTick e' = egTick e" "egSent e' = egSent e"
    and "wp m (\<lambda>_. framed (cfLib C) (egStore e)) (framed (cfLib C) (egStore e)) (egStore e)"
    and "egStore e' = egStore e"
  shows "wp (on_store m) (\<lambda>_. beside C e) (beside C e) e'"
  by (rule wp_on_store, rule wp_mono) (use assms in \<open>auto simp: beside_def\<close>)

lemma beside_approve:
  assumes inv: "engine_inv C e" shows "beside C e (snd (approve C ctl rid sha now e))"
proof (rule wp_final)
  show "wp (approve C ctl rid sha now) (\<lambda>_. beside C e) (beside C e) e"
    unfolding approve_def wp_ebind
    by (rule wp_mono[OF beside_store[OF inv refl refl wp_approve_start[OF engine_store[OF inv]] refl]])
      (auto split: option.splits)
qed

lemma beside_approve_arrives:
  assumes inv: "engine_inv C e" shows "beside C e (snd (approve_arrives C n v e))"
proof (cases "at_index (egApprovals e) n")
  case (Some a)
  let ?e1 = "e\<lparr>egApprovals := take n (egApprovals e) @ drop (Suc n) (egApprovals e)\<rparr>"
  have "wp (on_store (approve_checked (cfLib C) (avRun a) (avSha a) (avNow a) refusal))
      (\<lambda>x. wp (case x of (r, fresh) \<Rightarrow>
         ebind (emodify (if fresh then queue_tick (avRun a) FromOperator else id) :: unit svc) (\<lambda>_. eret r))
       (\<lambda>_. beside C e) (beside C e)) (beside C e) ?e1" for refusal
    by (rule wp_mono[OF beside_store[OF inv _ _ wp_approve_checked[OF engine_store[OF inv]]]])
      (auto split: prod.splits)
  then have "wp (ebind (emodify (\<lambda>e. e\<lparr>egApprovals := take n (egApprovals e) @ drop (Suc n) (egApprovals e)\<rparr>)) (\<lambda>_.
         ebind (elift v) (\<lambda>refusal.
         ebind (on_store (approve_checked (cfLib C) (avRun a) (avSha a) (avNow a) refusal)) (\<lambda>(r, fresh).
         ebind (emodify (if fresh then queue_tick (avRun a) FromOperator else id)) (\<lambda>_. eret r)))))
      (\<lambda>_. beside C e) (beside C e) e"
    using beside_refl[OF inv] by (simp split: sum.splits)
  from wp_final[OF this] show ?thesis unfolding approve_arrives_def Some option.case .
next
  case None
  show ?thesis unfolding approve_arrives_def None using beside_refl[OF inv] by simp
qed

lemma beside_resume:
  assumes inv: "engine_inv C e" shows "beside C e (snd (resume C ctl rid now e))"
proof (rule wp_final)
  show "wp (resume C ctl rid now) (\<lambda>_. beside C e) (beside C e) e"
    unfolding resume_def wp_ebind
    by (rule wp_mono[OF beside_store[OF inv refl refl wp_resume_store[OF engine_store[OF inv]] refl]])
      (auto split: prod.splits option.splits)
qed

lemma beside_recover:
  assumes inv: "engine_inv C e" shows "beside C e (snd (recover C observers now e))"
proof -
  let ?e1 = "begin_observation observers now e"
  have e1: "egStore ?e1 = egStore e" "egTick ?e1 = egTick e" "egSent ?e1 = egSent e"
    by (simp_all add: begin_observation_def)
  have ls: "wp (listUnfinished L) (\<lambda>_. framed L s) (framed L s) s" if "store_inv L s" for L s
    using framed_refl[OF that] by (auto simp: listUnfinished_def requireAll_def wp_def elift_def split: sum.splits)
  have "wp (ebind (on_store (listUnfinished (cfLib C))) (\<lambda>runs.
         emodify (\<lambda>e. e\<lparr>egCadence := retainCadence (reconciling_txids runs) (egCadence e),
                         egRecover := Some (RecoverNext runs)\<rparr>))) (\<lambda>_. beside C e) (beside C e) ?e1"
    unfolding wp_ebind
    by (rule wp_mono[OF beside_store[OF inv e1(2,3) ls[OF engine_store[OF inv]] e1(1)]]) auto
  from wp_final[OF this] have r: "beside C e (snd (ebind (on_store (listUnfinished (cfLib C))) (\<lambda>runs.
         emodify (\<lambda>e. e\<lparr>egCadence := retainCadence (reconciling_txids runs) (egCadence e),
                         egRecover := Some (RecoverNext runs)\<rparr>)) ?e1))" .
  have "beside C e ?e1" using e1 beside_refl[OF inv] by (simp add: beside_def)
  with r beside_refl[OF inv] show ?thesis by (simp add: recover_def Let_def split: option.splits)
qed

lemma beside_recover_step:
  assumes inv: "engine_inv C e" shows "beside C e (recover_step C now e)"
proof -
  have b: "beside C e e'" if "on_store (recover_run (cfLib C) r now) e = (x, e')" for r x e'
    using beside_on_store[OF wp_recover_run[OF engine_store[OF inv], of r now]] on_store_snd[of _ e] that
    by (metis snd_conv)
  show ?thesis
    using beside_refl[OF inv]
    by (auto simp: recover_step_def dest!: b split: option.splits recover_pc.splits list.splits prod.splits
        sum.splits)
qed

lemma beside_enqueue:
  assumes inv: "engine_inv C e" shows "beside C e (snd (enqueuePreparation C ctl ready freshId q now e))"
proof (rule wp_final)
  have create: "wp (createPreparation pid sha q' now) (\<lambda>_. framed (cfLib C) (egStore e))
      (framed (cfLib C) (egStore e)) (egStore e)" for pid sha q'
    by (rule wp_mono[OF wp_preparation_ops(1)[of "egStore e"]])
      (use engine_store[OF inv] in \<open>auto simp: same_work_tables_def intro!: framed_preps\<close>)
  show "wp (enqueuePreparation C ctl ready freshId q now) (\<lambda>_. beside C e) (beside C e) e"
    using beside_refl[OF inv] unfolding enqueuePreparation_def Let_def wp_ebind
    by (auto intro!: wp_mono[OF beside_store[OF inv refl refl create refl]]
        simp: queue_preparation_def split: sum.splits)
qed

lemma beside_on_store_trans:
  assumes "engine_inv C e" and b: "beside C e e'"
    and "wp m (\<lambda>_. framed (cfLib C) (egStore e')) (framed (cfLib C) (egStore e')) (egStore e')"
  shows "beside C e (e'\<lparr>egStore := snd (m (egStore e'))\<rparr>)"
  by (rule beside_trans[OF b beside_on_store[OF assms(3)]])

lemma beside_start_preparation:
  assumes inv: "engine_inv C e" shows "beside C e (start_preparation C ctl ready freshId now e)"
proof -
  have claim: "beside C e e'" if "on_store (claimPreparation pid now) e0 = (x, e')"
    and e0: "e0 = e\<lparr>egPrepQueue := q\<rparr>" for pid x e' e0 q
  proof -
    have "wp (claimPreparation pid now) (\<lambda>_. framed (cfLib C) (egStore e)) (framed (cfLib C) (egStore e)) (egStore e)"
      by (rule wp_mono[OF wp_preparation_ops(2)[of "egStore e"]])
        (use engine_store[OF inv] in \<open>auto simp: same_work_tables_def intro!: framed_preps\<close>)
    from beside_store[OF inv _ _ this, of e0] show ?thesis
      using that by (simp add: wp_def split: sum.splits)
  qed
  have start: "e'' = e'" if "on_store (prepare_start L ctl ready rid q) e' = (x, e'')" for L rid q x e' e''
  proof -
    have "snd (prepare_start L ctl ready rid q (egStore e')) = egStore e'"
      using wp_final[OF wp_prepare_start[of L ctl ready rid q "egStore e'"]] .
    with that show ?thesis by (auto simp: on_store_def split: prod.splits)
  qed
  have fin: "beside C e (e'\<lparr>egStore := snd (finish_preparation pid False now m (egStore e'))\<rparr>)"
    if b: "beside C e e'" and m: "m = eret r \<or> m = ethrow err" for e' pid m r err
  proof (rule beside_on_store_trans[OF inv b wp_finish_preparation])
    have "framed (cfLib C) (egStore e') (egStore e')"
      using b by (simp add: beside_def framed_def)
    with m show "wp m (\<lambda>_. framed (cfLib C) (egStore e')) (framed (cfLib C) (egStore e')) (egStore e')" by auto
  qed
  show ?thesis
    using beside_refl[OF inv]
    by (auto simp: start_preparation_def Let_def intro: fin dest!: start claim
        split: option.splits prod.splits sum.splits list.splits)
qed

lemma beside_facts:
  assumes inv: "engine_inv C e" shows "beside C e (facts_arrive C ctl v now e)"
proof (cases "egPrep e")
  case (Some p)
  let ?m = "ebind (elift v) (\<lambda>f. prepare_facts C ctl (pcRun p) (pcRequest p) f now)"
  have "wp ?m (\<lambda>_. framed (cfLib C) (egStore e)) (framed (cfLib C) (egStore e)) (egStore e)"
    using framed_refl[OF engine_store[OF inv]] wp_prepare_facts[OF engine_store[OF inv]]
    by (simp split: sum.splits)
  from wp_finish_preparation[OF this]
  have "wp (on_store (finish_preparation (pcPreparation p) (egClosed e) now ?m))
      (\<lambda>_. beside C e) (beside C e) (e\<lparr>egPrep := None\<rparr>)"
    by (intro beside_store[OF inv]) simp_all
  from wp_final[OF this] show ?thesis using Some by (simp add: facts_arrive_def)
qed (use beside_refl[OF inv] in \<open>simp add: facts_arrive_def\<close>)

lemma beside_frames:
  assumes inv: "engine_inv C e" and m: "frames (cfLib C) m" and e0: "beside C e e0"
  shows "beside C e (e0\<lparr>egStore := snd (m (egStore e0))\<rparr>)"
proof -
  have "store_inv (cfLib C) (egStore e0)" using e0 by (simp add: beside_def framed_def)
  with m have "framed (cfLib C) (egStore e0) (snd (m (egStore e0)))" by (simp add: frames_def)
  with e0 show ?thesis by (auto simp: beside_def intro: framed_trans)
qed

lemma beside_framed:
  assumes "engine_inv C e" and "frames (cfLib C) m" and "on_store m e0 = (v, e')" and "beside C e e0"
  shows "beside C e e'"
  using beside_frames[OF assms(1,2,4)] on_store_snd[of m e0] assms(3) by simp

lemma beside_settle_approval: "beside C e e' \<Longrightarrow> beside C e (settle_approval sid (v, e'))"
  by (simp add: settle_approval_def split: sum.splits)

lemma beside_approval:
  "engine_inv C e \<Longrightarrow> frames (cfLib C) m \<Longrightarrow> beside C e (settle_approval sid (on_store m e))"
  using beside_framed[OF _ _ _ beside_refl] beside_settle_approval by (cases "on_store m e") fastforce

lemma beside_sweep_approvals:
  assumes inv: "engine_inv C e"
  shows "beside C e (sweep_approve C engine ready jobs sid now e)"
    "beside C e (sweep_refusal_arrives C sid refusal connection e)" "beside C e (sweep_account_arrives C sid acc at e)"
    "beside C e (sweep_signature_arrives C sid signature at e)" "beside C e (sweep_broadcast_arrives C sid res at e)"
proof -
  note F = frames_approveSweep frames_approveSweep_signed frames_approveSweep_broadcasted
  show "beside C e (sweep_approve C engine ready jobs sid now e)"
    unfolding sweep_approve_def by (auto intro!: beside_approval F inv beside_refl split: option.split)
  show "beside C e (sweep_refusal_arrives C sid refusal connection e)"
    unfolding sweep_refusal_arrives_def
    by (auto intro!: beside_approval F inv beside_refl split: option.split sweep_pc.split)
  show "beside C e (sweep_account_arrives C sid acc at e)"
    unfolding sweep_account_arrives_def
    by (auto intro!: beside_approval frames_ebind F inv beside_refl split: option.split sweep_pc.split)
  show "beside C e (sweep_signature_arrives C sid signature at e)"
    unfolding sweep_signature_arrives_def
    by (auto intro!: beside_approval F inv beside_refl split: option.split sweep_pc.split)
  have "beside C e (snd (on_store (approveSweep_broadcasted (cfLib C) sid sg at res) (e\<lparr>egSweepApprovals := a\<rparr>)))" for sg a
    unfolding on_store_snd by (rule beside_frames[OF inv F(5)]) (simp add: beside_refl inv)
  then show "beside C e (sweep_broadcast_arrives C sid res at e)"
    using beside_refl[OF inv] unfolding sweep_broadcast_arrives_def
    by (auto simp del: on_store_snd split: option.split sweep_pc.split)
qed

lemma beside_sweep_calls:
  assumes inv: "engine_inv C e"
  shows "beside C e (snd (sweep_prepare C wallet jobs connection recipient now e))"
    "beside C e (sweep_prepare_arrives C n sid tip account est e)"
    "beside C e (snd (sweep_cancel C sid now e))" "beside C e (snd (sweep_list C now limit e))"
proof -
  note r = beside_refl[OF inv]
  show "beside C e (snd (sweep_prepare C wallet jobs connection recipient now e))"
    using beside_framed[OF inv frames_prepareSweep(1) _ r]
    by (auto simp: sweep_prepare_def ebind_def emodify_def split: prod.splits sum.splits)
  have "beside C e (snd (on_store (prepareSweep_finish (cfLib C) Cs w sid recipient tip account est now)
      (e\<lparr>egSweepPreps := q\<rparr>)))" for Cs w recipient now q
    unfolding on_store_snd by (rule beside_frames[OF inv frames_prepareSweep(2)]) (simp add: r)
  then show "beside C e (sweep_prepare_arrives C n sid tip account est e)"
    using r by (auto simp: sweep_prepare_arrives_def simp del: at_index_Some at_index_None on_store_snd split: option.split)
  show "beside C e (snd (sweep_cancel C sid now e))" "beside C e (snd (sweep_list C now limit e))"
    using beside_frames[OF inv frames_cancelSweep r] beside_frames[OF inv frames_listSweeps r]
    by (simp_all add: sweep_cancel_def sweep_list_def)
qed

lemma beside_settle_refresh [simp]: "beside C e (settle_refresh sid later now e') = beside C e e'"
  by (simp add: settle_refresh_def)

lemma beside_sweep_refresh:
  assumes inv: "engine_inv C e" and b: "beside C e e0"
  shows "beside C e (sweep_refresh C sid now e0)"
  using b by (auto simp: sweep_refresh_def dest: beside_framed[OF inv frames_refreshSweep(1) _ b]
      split: option.splits prod.splits sum.splits refresh_pc.splits)

lemma beside_sweep_observe:
  assumes inv: "engine_inv C e" shows "beside C e (sweep_observe C now e)"
proof -
  obtain v e' where a: "on_store (activeSweep (cfLib C)) e = (v, e')" by fastforce
  have b: "beside C e e'" by (rule beside_framed[OF inv _ a beside_refl[OF inv]]) simp
  then show ?thesis
    using beside_sweep_refresh[OF inv] by (auto simp: sweep_observe_def a Let_def split: sum.split option.split)
qed

lemma beside_sweep_outcome:
  assumes inv: "engine_inv C e" shows "beside C e (sweep_outcome_arrives C sid outcome seen e)"
proof -
  have f: "frames (cfLib C) (ebind (elift outcome) (\<lambda>outcome. refreshSweep_outcome (cfLib C) sid g now outcome seen))" for g now
    by (intro frames_ebind frames_refreshSweep frames_basic)
  show ?thesis
    using beside_refl[OF inv]
    by (auto simp: sweep_outcome_arrives_def dest: beside_framed[OF inv f _ beside_refl[OF inv]]
        split: option.splits prod.splits sum.splits)
qed

lemmas beside_sweeps = beside_sweep_approvals beside_sweep_calls
  beside_sweep_refresh[OF _ beside_refl] beside_sweep_outcome beside_sweep_observe

subsection \<open>Ticks\<close>

lemma release_queue_inv: "store_inv (cfLib C) (egStore e) \<Longrightarrow> engine_inv C (release_queue src ok e)"
  by (simp add: release_queue_def engine_inv_def tick_known_def)

lemma settle_tick_inv:
  assumes "wp m (tick_ok (cfLib C)) (store_inv (cfLib C)) (egStore e)"
  shows "engine_inv C (settle_tick C rid src at (on_store m e))"
proof -
  have failed: "engine_inv C (settle_tick C rid src at (Inl err, e'))"
    if "store_inv (cfLib C) (egStore e')" for err e'
  proof -
    obtain x e'' where t: "on_store (tick_failed (cfLib C) rid err at) e' = (x, e'')" by fastforce
    have "store_inv (cfLib C) (egStore e'')"
      using wp_final[OF wp_tick_failed[OF that, of rid err at]] on_store_snd[of "tick_failed (cfLib C) rid err at" e'] t
      by (metis engine.select_convs(1) engine.surjective engine.update_convs(1) snd_conv)
    then show ?thesis
      by (auto simp: settle_tick_def t intro!: release_queue_inv split: sum.splits option.splits)
  qed
  obtain x t where m: "m (egStore e) = (x, t)" by fastforce
  then have os: "on_store m e = (x, e\<lparr>egStore := t\<rparr>)" by (simp add: on_store_def)
  show ?thesis
  proof (cases x)
    case (Inl err)
    with assms m have "store_inv (cfLib C) t" by (simp add: wp_def)
    then show ?thesis unfolding os Inl by (intro failed) simp
  next
    case (Inr pc)
    with assms m have ok: "tick_ok (cfLib C) pc t" by (simp add: wp_def)
    then show ?thesis
      unfolding os Inr settle_tick_def
      by (cases "pc = TickDone")
        (simp add: release_queue_inv, cases pc, simp_all add: tick_ok_def engine_inv_def tick_known_def)
  qed
qed

lemma settle_tick_error:
  "store_inv (cfLib C) (egStore e) \<Longrightarrow> engine_inv C (settle_tick C rid src at (Inl err, e))"
  using settle_tick_inv[of "ethrow err" C e] by (simp add: on_store_def ethrow_def wp_def)

lemma settle_tick_awaited:
  assumes "store_inv (cfLib C) (egStore e)"
    and "\<And>a. v = Inr a \<Longrightarrow> wp (m a) (tick_ok (cfLib C)) (store_inv (cfLib C)) (egStore e)"
  shows "engine_inv C (settle_tick C rid src at (case v of Inl err \<Rightarrow> (Inl err, e) | Inr a \<Rightarrow> on_store (m a) e))"
  using settle_tick_error[OF assms(1)] settle_tick_inv assms(2) by (cases v) auto

lemma tick_resumes:
  assumes "engine_inv C e" and "egTick e = Some (rid, src, pc)"
  shows "store_inv (cfLib C) (egStore e)" and "pc_inv (cfLib C) pc (egStore e)"
  using assms by (simp_all add: engine_inv_def tick_known_def)

lemma run_queue_inv:
  assumes "engine_inv C e" shows "engine_inv C (run_queue C ctl now at e)"
proof -
  have "engine_inv C (release_queue src True (e\<lparr>egQueue := q\<rparr>))" for src q
    using engine_store[OF assms] by (intro release_queue_inv) simp
  moreover have "engine_inv C (settle_tick C rid src at (on_store (tick_start (cfLib C) h ctl due rid now)
      (e\<lparr>egQueue := q\<rparr>)))" for rid src h due q
    by (rule settle_tick_inv) (use wp_tick_start[OF engine_store[OF assms]] in simp)
  ultimately show ?thesis
    using assms by (auto simp: run_queue_def Let_def split: option.splits list.splits prod.splits)
qed

lemma reconcile_arrives_inv:
  assumes "engine_inv C e" shows "engine_inv C (reconcile_arrives C v at e)"
proof (cases "egTick e")
  case (Some x)
  obtain rid src pc where x: "egTick e = Some (rid, src, pc)" using Some by (cases x) auto
  note T = tick_resumes[OF assms x]
  show ?thesis
  proof (cases pc)
    case (TickReconcile r i p t now)
    then obtain r' where "snapshot_of (cfLib C) r i (egStore e) r'" using T by auto
    from wp_tick_reconciled[OF T(1) this] show ?thesis
      unfolding reconcile_arrives_def x TickReconcile option.case prod.case tick_pc.case Let_def
      by (intro settle_tick_awaited) (simp_all add: T(1))
  qed (use assms x in \<open>simp_all add: reconcile_arrives_def\<close>)
qed (use assms in \<open>simp add: reconcile_arrives_def\<close>)

lemma materialize_arrives_inv:
  assumes "engine_inv C e" shows "engine_inv C (materialize_arrives C ctl v at e)"
proof (cases "egTick e")
  case (Some x)
  obtain rid src pc where x: "egTick e = Some (rid, src, pc)" using Some by (cases x) auto
  note T = tick_resumes[OF assms x]
  show ?thesis
  proof (cases pc)
    case (TickMaterialize r i now)
    then obtain r' where "snapshot_of (cfLib C) r i (egStore e) r'" using T by auto
    from wp_tick_materialized[OF T(1) this] show ?thesis
      unfolding materialize_arrives_def x TickMaterialize option.case prod.case tick_pc.case
      by (intro settle_tick_awaited) (simp_all add: T(1))
  qed (use assms x in \<open>simp_all add: materialize_arrives_def\<close>)
qed (use assms in \<open>simp add: materialize_arrives_def\<close>)

lemma tick_refusal_arrives_inv:
  assumes "engine_inv C e" shows "engine_inv C (tick_refusal_arrives C ctl v at e)"
proof (cases "egTick e")
  case (Some x)
  obtain rid src pc where x: "egTick e = Some (rid, src, pc)" using Some by (cases x) auto
  note T = tick_resumes[OF assms x]
  show ?thesis
  proof (cases pc)
    case (TickRefusal r i p now)
    from wp_tick_refusal_checked[OF T(1) T(2)[unfolded TickRefusal]] show ?thesis
      unfolding tick_refusal_arrives_def x TickRefusal option.case prod.case tick_pc.case
      by (intro settle_tick_awaited) (simp_all add: T(1))
  qed (use assms x in \<open>simp_all add: tick_refusal_arrives_def\<close>)
qed (use assms in \<open>simp add: tick_refusal_arrives_def\<close>)

lemma signature_arrives_inv:
  assumes "engine_inv C e" shows "engine_inv C (signature_arrives C v at e)"
proof (cases "egTick e")
  case (Some x)
  obtain rid src pc where x: "egTick e = Some (rid, src, pc)" using Some by (cases x) auto
  note T = tick_resumes[OF assms x]
  show ?thesis
  proof (cases pc)
    case (TickSign r i p now)
    from wp_tick_signed[OF T(1) T(2)[unfolded TickSign]] show ?thesis
      unfolding signature_arrives_def x TickSign option.case prod.case tick_pc.case
      by (intro settle_tick_awaited) (simp_all add: T(1))
  qed (use assms x in \<open>simp_all add: signature_arrives_def\<close>)
qed (use assms in \<open>simp add: signature_arrives_def\<close>)

lemma broadcast_arrives_inv:
  assumes "engine_inv C e" shows "engine_inv C (broadcast_arrives C v at e)"
proof (cases "egTick e")
  case (Some x)
  obtain rid src pc where x: "egTick e = Some (rid, src, pc)" using Some by (cases x) auto
  note T = tick_resumes[OF assms x]
  show ?thesis
  proof (cases pc)
    case (TickBroadcast r i sg k now)
    from wp_tick_broadcasted[OF T(1) T(2)[unfolded TickBroadcast]] show ?thesis
      unfolding broadcast_arrives_def x TickBroadcast option.case prod.case tick_pc.case
      by (intro settle_tick_awaited) (simp_all add: T(1))
  qed (use assms x in \<open>simp_all add: broadcast_arrives_def\<close>)
qed (use assms in \<open>simp add: broadcast_arrives_def\<close>)

lemmas tick_events_inv =
  run_queue_inv reconcile_arrives_inv materialize_arrives_inv tick_refusal_arrives_inv
  signature_arrives_inv broadcast_arrives_inv

lemma restart_inv:
  assumes "engine_inv C e" shows "engine_inv C (restart now e)"
proof -
  have "framed (cfLib C) (egStore e) (snd (resetInterruptedPreparations now (egStore e)))"
    by (rule framed_preps[OF engine_store[OF assms]]) (simp_all add: resetInterruptedPreparations_def)
  then show ?thesis
    by (simp add: restart_def Let_def boot_def engine_inv_def tick_known_def framed_def)
qed

lemma sweep_step_beside: "sweep_step C e e' \<Longrightarrow> engine_inv C e \<Longrightarrow> beside C e e'"
  by (induction rule: sweep_step.induct) (blast intro: beside_sweeps)+

lemma run_step_inv: "run_step C e e' \<Longrightarrow> engine_inv C e \<Longrightarrow> engine_inv C e'"
proof (induction rule: run_step.induct)
  case (Pause e rid now)
  from beside_on_store[OF wp_pause[OF engine_store[OF Pause]]] show ?case
    using engine_inv_beside[OF Pause] by simp
next
  case (Cancel e rid now)
  from beside_on_store[OF wp_cancel[OF engine_store[OF Cancel]]] show ?case
    using engine_inv_beside[OF Cancel] by simp
next
  case (Observed e)
  from engine_inv_beside[OF Observed, of "observation_settles e"] beside_refl[OF Observed] show ?case
    by (simp add: observation_settles_def)
next
  case (Stop e)
  from engine_inv_beside[OF Stop, of "stop e"] beside_refl[OF Stop] show ?case by (simp add: stop_def)
qed (blast intro: tick_events_inv restart_inv engine_inv_beside beside_enqueue beside_start_preparation
    beside_facts beside_approve beside_approve_arrives beside_resume beside_recover beside_recover_step)+

lemma engine_inv_logs [simp]:
  "engine_inv C (e\<lparr>egSent := xs, egSweepSent := ys, egSweepLost := zs\<rparr>) = engine_inv C e"
  by (simp add: engine_inv_def tick_known_def split: option.split)

lemma crash_inv: "engine_inv C e' \<Longrightarrow> engine_inv C (crash now e e')"
  unfolding crash_def by (rule restart_inv) simp

lemma step_inv: "step C e e' \<Longrightarrow> engine_inv C e \<Longrightarrow> engine_inv C e'"
  by (auto elim!: step.cases intro: run_step_inv engine_inv_beside sweep_step_beside crash_inv)

lemma reachable_inv: "reachable C e \<Longrightarrow> engine_inv C e"
proof (induction rule: reachable.induct)
  case init
  show ?case
  proof -
    have "\<not> owner_active empty_store w x" for w x
      by (cases "(empty_store, w, x)" rule: owner_active.cases) (simp_all add: empty_store_def)
    then show ?thesis
      by (simp add: engine_inv_def boot_def tick_known_def store_inv_def lease_inv_def attempt_txids_def)
        (simp add: empty_store_def lease_ok_def lease_holder_def)
  qed
qed (rule step_inv)

end
