(* ===== verification/Store_History.thy ===== *)
theory Store_History
  imports Run_Safety
begin

text \<open>
  What every handler of the service keeps of the store. The locale \<open>run_predicate\<close> is the contract
  between a property of the store and the repository of runs: a property kept by each operation, used
  along the edges of the run lifecycle, is kept by every event of the reward-run service, whatever the
  chain, the operator and the clock do. \<open>store_predicate\<close> extends it to the repository of sweeps and
  the events of the gas wallet.

  The interpretations: the history of a single run and its attempt rows (\<open>descent\<close>, in Submission_Log),
  the table of preparations (\<open>preparations\<close>), the CHECK constraints of the run tables (\<open>constraints\<close>, in
  Progress), and the table of sweeps under the events of the reward-run service (\<open>sweep_table\<close>, in
  Sweep_Safety).
\<close>

subsection \<open>The lifecycle of a run\<close>

fun edge :: "run_status \<Rightarrow> run_status \<Rightarrow> bool" where
  "edge AwaitingApproval to \<longleftrightarrow> to \<in> {Approved, Cancelled, Expired}"
| "edge Approved to \<longleftrightarrow> to \<in> {Running, Cancelled}"
| "edge Running to \<longleftrightarrow> to \<in> {Paused, Halted, Completed, Expired}"
| "edge Paused to \<longleftrightarrow> to \<in> {Running, Cancelled, Expired}"
| "edge Halted to \<longleftrightarrow> to \<in> {Running, Cancelled, Expired}"
| "edge Completed to \<longleftrightarrow> False"
| "edge Cancelled to \<longleftrightarrow> False"
| "edge Expired to \<longleftrightarrow> False"

abbreviation lifecycle :: "run_status \<Rightarrow> run_status \<Rightarrow> bool" where
  "lifecycle \<equiv> edge\<^sup>*\<^sup>*"

lemma edge_terminal: "edge st to \<Longrightarrow> \<not> terminal_run st"
  by (cases st) (simp_all add: terminal_run_def)

lemma lifecycle_terminal:
  assumes "lifecycle st to" and "terminal_run st" shows "to = st"
  using assms by (induction rule: converse_rtranclp_induct) (auto dest: edge_terminal)

subsection \<open>Reads keep everything\<close>

lemma keeps_getRun [intro]: "keeps P (getRun L rid)"
  and keeps_requireRun [intro]: "keeps P (requireRun L rid)"
  and keeps_serviceGet [intro]: "keeps P (serviceGet L rid)"
  and keeps_requireChild [intro]: "keeps P (requireChild rid i)"
  and keeps_childPlan [intro]: "keeps P (childPlan rid i)"
  and keeps_requirePreparation [intro]: "keeps P (requirePreparation pid)"
  and keeps_getSweep [intro]: "keeps P (getSweep L sid)"
  and keeps_listUnfinished [intro]: "keeps P (listUnfinished L)"
proof -
  show g: "keeps P (getRun L rid)" by (auto simp: getRun_def)
  show "keeps P (requireRun L rid)" unfolding requireRun_def
    by (rule keeps_ebind[OF g]) (auto split: option.splits)
  show "keeps P (serviceGet L rid)" unfolding serviceGet_def
    by (rule keeps_ebind[OF g]) (auto split: option.splits)
  show c: "keeps P (requireChild rid i)" by (auto simp: requireChild_def)
  show "keeps P (childPlan rid i)" unfolding childPlan_def by (rule keeps_ebind[OF c]) auto
  show "keeps P (listUnfinished L)" by (simp add: listUnfinished_def requireAll_def keeps_def elift_def)
qed (auto simp: requirePreparation_def getSweep_def)

lemma keeps_ecatch: "keeps P m \<Longrightarrow> (\<And>e. keeps P (h e)) \<Longrightarrow> keeps P (ecatch m h)"
proof (rule keepsI)
  fix s assume m: "keeps P m" and h: "\<And>e. keeps P (h e)" and P: "P s"
  obtain x t where t: "m s = (x, t)" by fastforce
  with keepsD[OF m P] have "P t" by simp
  with t keepsD[OF h] show "P (snd (ecatch m h s))" by (cases x) (simp_all add: ecatch_def)
qed

lemma keeps_relay [simp]: "keeps P (relay m) = keeps P m"
  by (simp add: keeps_def)

lemma keeps_sweep_reads [simp, intro]:
  "keeps P (requireSweep L sid)" "keeps P (activeSweep L)" "keeps P (getSweepPlan sid)" "keeps P (listSweeps L limit)"
proof -
  show "keeps P (requireSweep L sid)"
    unfolding requireSweep_def by (intro keeps_ebind) (auto split: option.split)
qed (simp_all add: activeSweep_def getSweepPlan_def listSweeps_def)

subsection \<open>The contract\<close>

locale run_predicate =
  fixes P :: "store \<Rightarrow> bool"
  assumes transition_keeps: "list_all (\<lambda>st. edge st to) from \<Longrightarrow> keeps P (transition L rid from to now p)"
    and updateChild_keeps: "keeps P (updateChild rid i from' to' now cp)"
    and materializeChild_keeps: "keeps P (materializeChild rid i pl amount now)"
    and resetUnattempted_keeps: "keeps P (resetUnattemptedMaterializedChild rid i now)"
    and resetRejected_keeps: "keeps P (resetRejectedChild rid i now)"
    and updateAttempt_keeps: "keeps P (updateAttempt rid i k st res now)"
    and insertAttempt_keeps: "keeps P (insertAttempt rid i t nonce fee st now)"
    and advanceCursor_keeps: "keeps P (advanceCursor L rid n g now)"
    and insertRun_keeps: "keeps P (insertRun L rid w sha R until cs now)"
    and createPreparation_keeps: "keeps P (createPreparation pid sha q now)"
    and resetInterrupted_keeps: "keeps P (resetInterruptedPreparations now)"
    and claimPreparation_keeps: "keeps P (claimPreparation pid now)"
    and completePreparation_keeps: "keeps P (completePreparation pid rid now)"
    and failPreparation_keeps: "keeps P (failPreparation pid reason now code)"
begin

lemmas operations [intro] =
  updateChild_keeps materializeChild_keeps resetUnattempted_keeps resetRejected_keeps updateAttempt_keeps
  insertAttempt_keeps advanceCursor_keeps insertRun_keeps createPreparation_keeps resetInterrupted_keeps
  claimPreparation_keeps completePreparation_keeps failPreparation_keeps

lemma halt_keeps [intro]: "keeps P (halt L rid reason now)"
  unfolding halt_def by (rule transition_keeps) simp

lemma expire_keeps [intro]: "keeps P (expireRunningRun L r now)"
  unfolding expireRunningRun_def by (intro keeps_rules transition_keeps keeps_eret) simp

lemma tick_child_keeps: "keeps P (tick_child L ctl due r i c now)"
proof -
  have "keeps P (tick_materialized_child L r i now)"
    unfolding tick_materialized_child_def by (rule keeps_select) auto
  moreover have "keeps P (tick_broadcast_child L due r i t now)" for t
    unfolding tick_broadcast_child_def by (auto intro!: keeps_rules)
  ultimately show ?thesis
    unfolding tick_child_def by (auto split: prod.split child_status.split option.split)
qed

lemma tick_start_keeps: "keeps P (tick_start L h ctl due rid now)"
proof -
  have "keeps P (start_running L h rid r now)" for r
    unfolding start_running_def by (intro keeps_rules transition_keeps keeps_eret) simp
  moreover have "keeps P (transition L rid [Running] Completed now p)" for p by (rule transition_keeps) simp
  ultimately show ?thesis
    unfolding tick_start_def by (auto intro!: keeps_rules tick_child_keeps)
qed

lemma record_resolution_keeps [intro]: "keeps P (record_resolution L r i now st src)"
proof -
  have "keeps P (ebind (if b then updateAttempt rid i k AttemptConfirmed None now else eret ()) (\<lambda>_.
       ebind (advanceCursor L (rnId r) (rnCursor r) g now) (\<lambda>_. eret TickDone)))" for b rid k g
    by auto
  then have "keeps P (\<lambda>s. let as = attempts (rnId r) i s;
           paidFee = (case last_opt as of None \<Rightarrow> 0 | Some a \<Rightarrow> atFee a) in
       ebind (if as \<noteq> [] \<and> st = Confirmed
              then updateAttempt (rnId r) i (length as - 1) AttemptConfirmed None now
              else eret ()) (\<lambda>_.
       ebind (advanceCursor L (rnId r) (rnCursor r) (rnGasSpent r + paidFee) now) (\<lambda>_.
       eret TickDone)) s)"
    unfolding keeps_def Let_def by blast
  then show ?thesis unfolding record_resolution_def by auto
qed

lemma awaited_keeps:
  "keeps P (tick_reconciled L r i c now at rec)"
  "keeps P (tick_materialized L ctl r i c now at mat)"
  "keeps P (tick_refusal_checked L ctl closed r i k p now at refusal)"
  "keeps P (tick_broadcasted L r i sg n at res)"
  by (auto simp: tick_reconciled_def tick_materialized_def tick_refusal_checked_def tick_broadcasted_def
      record_submission_def intro!: keeps_rules
      split: reconciliation.splits materialization.splits broadcast_result.splits)

lemma tick_signed_keeps: "keeps P (tick_signed r i p now sg)"
proof -
  have "keeps P (reuseRejectedAttempt rid i k a now)" for rid k a
    by (auto simp: reuseRejectedAttempt_def)
  then have "keeps P (ebind (case y of
              Some k \<Rightarrow> reuseRejectedAttempt (rnId r) i k (as ! k) now
            | None \<Rightarrow> insertAttempt (rnId r) i (sgTxid sg) (sgNonce sg) (sgFee sg) Signed now) (\<lambda>k.
     eret (TickBroadcast r i sg k now)))" for y as
    by (auto split: option.splits)
  then have "keeps P (\<lambda>s. ebind (case attempt_index_of (sgTxid sg) (attempts (rnId r) i s) of
              Some k \<Rightarrow> reuseRejectedAttempt (rnId r) i k (attempts (rnId r) i s ! k) now
            | None \<Rightarrow> insertAttempt (rnId r) i (sgTxid sg) (sgNonce sg) (sgFee sg) Signed now) (\<lambda>k.
     eret (TickBroadcast r i sg k now)) s)"
    unfolding keeps_def by blast
  then show ?thesis unfolding tick_signed_def by auto
qed

lemma tick_failed_keeps: "keeps P (tick_failed L rid err at)"
proof -
  have h: "P (snd (ebind (halt L rid (error_message err) at) (\<lambda>_. eret None) s))" if "P s" for s
    by (rule keepsD[OF keeps_ebind[OF halt_keeps keeps_eret] that])
  show ?thesis
    unfolding tick_failed_def by (intro keeps_ebind[OF keeps_getRun]) (auto simp: keeps_def Let_def h)
qed

lemma operator_keeps:
  "keeps P (approve_start L ctl rid sha now)" "keeps P (approve_checked L rid sha now refusal)"
  "keeps P (pause L rid now)" "keeps P (cancel L rid now)" "keeps P (resume_store L ctl rid now)"
  "keeps P (recover_run L r now)"
proof -
  have t: "keeps P (transition L rid [AwaitingApproval] Expired now p)"
    "keeps P (transition L rid [AwaitingApproval] Approved now p)"
    "keeps P (transition L rid [Running] Paused now p)"
    "keeps P (transition L rid [AwaitingApproval, Approved, Paused, Halted] Cancelled now p)"
    "keeps P (transition L rid [Paused, Halted] Expired now p)"
    "keeps P (transition L rid [Paused, Halted] Running now p)" for rid p
    by (rule transition_keeps, simp)+
  have e: "keeps P (transition L rid [st] Expired now p)" if "st \<in> {Paused, Halted}" for rid st p
    by (rule transition_keeps) (use that in auto)
  show "keeps P (approve_start L ctl rid sha now)"
    unfolding approve_start_def by (auto intro!: keeps_rules t)
  show "keeps P (approve_checked L rid sha now refusal)"
    unfolding approve_checked_def by (auto intro!: keeps_rules keeps_ecatch t)
  show "keeps P (pause L rid now)" "keeps P (cancel L rid now)"
    unfolding pause_def cancel_def by (auto intro!: keeps_rules t)
  show "keeps P (resume_store L ctl rid now)"
    unfolding resume_store_def Let_def by (auto intro!: keeps_rules t)
  show "keeps P (recover_run L r now)"
    unfolding recover_run_def using e[of "rnStatus r" "rnId r"] by (auto intro!: t)
qed

lemma prepare_keeps:
  "keeps P (prepare_start L ctl ready rid q)" "keeps P (prepare_facts C ctl rid q f now)"
proof -
  show "keeps P (prepare_start L ctl ready rid q)"
    unfolding prepare_start_def by (auto intro!: keeps_rules)
  show "keeps P (prepare_facts C ctl rid q f now)"
    unfolding prepare_facts_def Let_def by (auto intro!: keeps_rules keeps_ecatch)
qed

lemma finish_keeps: "keeps P m \<Longrightarrow> keeps P (finish_preparation pid aborted now m)"
  unfolding finish_preparation_def by (rule keeps_ecatch) auto

text \<open>On the engine: what a handler that returns a value keeps.\<close>

abbreviation holds :: "engine \<Rightarrow> bool" where
  "holds e \<equiv> P (egStore e)"

lemma on_store_keeps [intro]: "keeps P m \<Longrightarrow> keeps holds (on_store m)"
  by (simp add: keeps_def)

lemma emodify_keeps [intro]: "(\<And>e. egStore (f e) = egStore e) \<Longrightarrow> keeps holds (emodify f)"
  by (simp add: keeps_def emodify_def)

lemma queue_fields [simp]:
  "egStore (queue_tick rid src e) = egStore e" "egStore (release_queue src ok e) = egStore e"
  "egStore (queue_preparation pid e) = egStore e" "egStore (begin_observation obs now e) = egStore e"
  by (simp_all add: queue_tick_def release_queue_def queue_preparation_def begin_observation_def)

lemma handler_keeps:
  "keeps holds (enqueuePreparation C ctl ready freshId q now)" "keeps holds (approve C ctl rid sha now)"
  "keeps holds (resume C ctl rid now)"
  unfolding enqueuePreparation_def approve_def resume_def Let_def
  by (auto intro!: keeps_ebind keeps_option emodify_keeps on_store_keeps operator_keeps split: prod.splits)
    (auto split: option.splits)

lemma approve_arrives_keeps: "keeps holds (approve_arrives C n v)"
proof -
  have "keeps holds (ebind (emodify (\<lambda>e. e\<lparr>egApprovals := take n (egApprovals e) @ drop (Suc n) (egApprovals e)\<rparr>) :: unit svc) (\<lambda>_.
         ebind (elift v) (\<lambda>refusal.
         ebind (on_store (approve_checked (cfLib C) (avRun a) (avSha a) (avNow a) refusal)) (\<lambda>(r, fresh).
         ebind (emodify (if fresh then queue_tick (avRun a) FromOperator else id)) (\<lambda>_. eret r)))))" for a
    by (auto intro!: keeps_ebind emodify_keeps on_store_keeps operator_keeps split: prod.splits)
  then show ?thesis
    by (auto simp: approve_arrives_def keeps_def simp del: at_index_Some at_index_None split: option.splits)
qed

lemma recover_keeps: "holds e \<Longrightarrow> holds (snd (recover C observers now e))"
proof -
  have "keeps holds (ebind (on_store (listUnfinished (cfLib C))) (\<lambda>runs.
         emodify (\<lambda>e. e\<lparr>egCadence := retainCadence (reconciling_txids runs) (egCadence e),
                         egRecover := Some (RecoverNext runs)\<rparr>)))"
    by (auto intro!: keeps_ebind emodify_keeps on_store_keeps)
  then show "holds e \<Longrightarrow> holds (snd (recover C observers now e))"
    by (simp add: recover_def Let_def keeps_def split: option.splits)
qed

lemma on_store_holds: "keeps P m \<Longrightarrow> on_store m e = (v, e') \<Longrightarrow> holds e \<Longrightarrow> holds e'"
  using keepsD[OF on_store_keeps, of m e] by simp

lemma recover_step_keeps: "holds e \<Longrightarrow> holds (recover_step C now e)"
  by (auto simp: recover_step_def dest: on_store_holds[OF operator_keeps(6)]
      split: option.splits recover_pc.splits list.splits prod.splits sum.splits)

lemma start_preparation_keeps: "holds e \<Longrightarrow> holds (start_preparation C ctl ready freshId now e)"
proof -
  assume h: "holds e"
  have c: "holds e1" if "on_store (claimPreparation pid now) (e\<lparr>egPrepQueue := q\<rparr>) = (v, e1)" for pid q v e1
    using on_store_holds[OF claimPreparation_keeps that] h by simp
  have s: "holds e2" if "on_store (claimPreparation pid now) (e\<lparr>egPrepQueue := q\<rparr>) = (v, e1)"
    "on_store (prepare_start L ctl ready rid rq) e1 = (v', e2)" for pid q v e1 L rid rq v' e2
    using on_store_holds[OF prepare_keeps(1) that(2) c[OF that(1)]] .
  have fin: "P (snd (finish_preparation pid False now m (egStore e2)))" if "holds e2" "keeps P m" for pid m e2
    by (rule keepsD[OF finish_keeps[OF that(2)] that(1)])
  show ?thesis
    by (auto simp: start_preparation_def Let_def h intro!: fin dest: c s
        split: option.splits prod.splits sum.splits list.splits)
qed

lemma facts_keeps: "holds e \<Longrightarrow> holds (facts_arrive C ctl v now e)"
proof (cases "egPrep e")
  case (Some p)
  assume h: "holds e"
  have "keeps P (ebind (elift v) (\<lambda>f. prepare_facts C ctl (pcRun p) (pcRequest p) f now))"
    by (intro keeps_ebind prepare_keeps) simp
  from keepsD[OF finish_keeps[OF this] h] show ?thesis using Some by (simp add: facts_arrive_def)
qed (simp add: facts_arrive_def)

lemma settle_keeps:
  assumes "keeps P m" and "holds e" shows "holds (settle_tick C rid src at (on_store m e))"
proof -
  obtain x e' where m: "on_store m e = (x, e')" by fastforce
  note h = on_store_holds[OF assms(1) m assms(2)]
  obtain y e'' where f: "on_store (tick_failed (cfLib C) rid (projl x) at) e' = (y, e'')" by fastforce
  show ?thesis
    using h on_store_holds[OF tick_failed_keeps f h] f unfolding m settle_tick_def
    by (auto split: sum.splits option.splits tick_pc.splits)
qed

lemma settle_awaited_keeps:
  assumes "\<And>a. keeps P (m a)" and "holds e"
  shows "holds (settle_tick C rid src at (case v of Inl err \<Rightarrow> (Inl err, e) | Inr a \<Rightarrow> on_store (m a) e))"
  using settle_keeps[OF assms] settle_keeps[of "ethrow err" e C rid src at for err] assms(2)
  by (cases v) (auto simp: on_store_def ethrow_def)

lemma tick_events_keep:
  assumes "holds e"
  shows "holds (run_queue C ctl now at e)" "holds (reconcile_arrives C rec at e)"
    "holds (materialize_arrives C ctl mat at e)" "holds (tick_refusal_arrives C ctl refusal at e)"
    "holds (signature_arrives C sg at e)" "holds (broadcast_arrives C res at e)"
proof -
  show "holds (run_queue C ctl now at e)"
    using assms by (auto simp: run_queue_def Let_def intro!: settle_keeps tick_start_keeps
        split: option.splits list.splits prod.splits)
  show "holds (reconcile_arrives C rec at e)"
    using assms by (auto simp: reconcile_arrives_def Let_def intro!: settle_awaited_keeps awaited_keeps
        split: option.splits prod.splits tick_pc.splits)
  show "holds (materialize_arrives C ctl mat at e)"
    using assms by (auto simp: materialize_arrives_def intro!: settle_awaited_keeps awaited_keeps
        split: option.splits prod.splits tick_pc.splits)
  show "holds (tick_refusal_arrives C ctl refusal at e)"
    using assms by (auto simp: tick_refusal_arrives_def intro!: settle_awaited_keeps awaited_keeps
        split: option.splits prod.splits tick_pc.splits)
  show "holds (signature_arrives C sg at e)"
    using assms by (auto simp: signature_arrives_def intro!: settle_awaited_keeps tick_signed_keeps
        split: option.splits prod.splits tick_pc.splits)
  show "holds (broadcast_arrives C res at e)"
    using assms by (auto simp: broadcast_arrives_def intro!: settle_awaited_keeps awaited_keeps
        split: option.splits prod.splits tick_pc.splits)
qed

theorem run_step_keeps: "run_step C e e' \<Longrightarrow> holds e \<Longrightarrow> holds e'"
  by (induction rule: run_step.induct)
    (simp_all add: keepsD[OF handler_keeps(1)] keepsD[OF handler_keeps(2)] keepsD[OF handler_keeps(3)]
      keepsD[OF approve_arrives_keeps] keepsD[OF operator_keeps(3)] keepsD[OF operator_keeps(4)]
      recover_keeps recover_step_keeps
      start_preparation_keeps facts_keeps tick_events_keep observation_settles_def stop_def restart_def
      Let_def boot_def keepsD[OF resetInterrupted_keeps])

end

text \<open>A property that the operations on sweeps keep as well is kept by the gas wallet's events too.\<close>

locale store_predicate = run_predicate +
  assumes insertSweep_keeps [intro]: "keeps P (insertSweep L sid w sp now)"
    and updateSweep_keeps [intro]: "keeps P (updateSweep L sid gp now)"
begin

lemma resolveSweep_keeps [intro]: "keeps P (resolveSweep L sid st now reason)"
  by (simp add: resolveSweep_def updateSweep_keeps)

lemma expirePlanned_keeps [intro]: "keeps P (expirePlannedSweeps L now)"
  unfolding expirePlannedSweeps_def by (auto intro!: keeps_rules)

lemma sweep_preparation_keeps:
  "keeps P (prepareSweep_start L wallet jobs connection now)"
  "keeps P (prepareSweep_finish L C w sid recipient tip account est now)"
proof -
  have "keeps P (requireNoActiveWork L jobs now)"
    unfolding requireNoActiveWork_def by (auto intro!: keeps_rules)
  then show "keeps P (prepareSweep_start L wallet jobs connection now)"
    unfolding prepareSweep_start_def by (auto intro!: keeps_rules)
  show "keeps P (prepareSweep_finish L C w sid recipient tip account est now)"
    unfolding prepareSweep_finish_def by (auto intro!: keeps_rules keeps_ecatch split: prod.split)
qed

lemma sweep_approval_keeps:
  "keeps P (approveSweep_start L engine ready jobs sid now)"
  "keeps P (approveSweep_refusal sid g now refusal connection)"
  "keeps P (approveSweep_account L sid plan now at account)"
  "keeps P (approveSweep_signed L sid now at v)" "keeps P (approveSweep_broadcasted L sid sg at res)"
proof -
  have current: "keeps P (assertSweepApprovalCurrent L sid at)"
    unfolding assertSweepApprovalCurrent_def by auto
  show "keeps P (approveSweep_start L engine ready jobs sid now)"
    unfolding approveSweep_start_def by (auto intro!: keeps_rules)
  show "keeps P (approveSweep_refusal sid g now refusal connection)"
    unfolding approveSweep_refusal_def by (auto intro!: keeps_rules)
  show "keeps P (approveSweep_account L sid plan now at account)"
    unfolding approveSweep_account_def Let_def by (auto intro!: keeps_rules current split: prod.split)
  show "keeps P (approveSweep_signed L sid now at v)"
    unfolding approveSweep_signed_def
    by (auto intro!: keeps_rules current simp: updateSweep_keeps split: sum.split)
  show "keeps P (approveSweep_broadcasted L sid sg at res)"
    unfolding approveSweep_broadcasted_def
    by (auto intro!: keeps_rules simp: updateSweep_keeps split: broadcast_result.split)
qed

lemma sweep_observation_keeps:
  "keeps P (cancelSweep L sid now)" "keeps P (listSweepsService L now limit)"
  "keeps P (refreshSweep_start L sid now)" "keeps P (refreshSweep_outcome L sid g now outcome seen)"
proof -
  show "keeps P (cancelSweep L sid now)" "keeps P (listSweepsService L now limit)"
    "keeps P (refreshSweep_start L sid now)"
    unfolding cancelSweep_def listSweepsService_def refreshSweep_start_def by (auto intro!: keeps_rules)
  have "keeps P (recordSweepConflict L sid reason now)" for reason
    unfolding recordSweepConflict_def by (auto intro!: keeps_rules simp: updateSweep_keeps)
  then show "keeps P (refreshSweep_outcome L sid g now outcome seen)"
    unfolding refreshSweep_outcome_def
    by (auto intro!: keeps_rules simp: updateSweep_keeps split: submitted_outcome.split)
qed

lemma approval_keeps: "keeps P m \<Longrightarrow> holds e \<Longrightarrow> holds (settle_approval sid (on_store m e))"
  by (cases "on_store m e") (auto simp: settle_approval_def dest: on_store_holds split: sum.split)

lemma sweep_calls_keep:
  assumes "holds e"
  shows "holds (snd (sweep_prepare C wallet jobs connection recipient now e))"
    "holds (sweep_prepare_arrives C n sid tip account est e)"
    "holds (sweep_approve C engine ready jobs sid now e)"
    "holds (sweep_refusal_arrives C sid refusal connection e)" "holds (sweep_account_arrives C sid acc at e)"
    "holds (sweep_signature_arrives C sid signature at e)" "holds (sweep_broadcast_arrives C sid res at e)"
    "holds (snd (sweep_cancel C sid now e))" "holds (snd (sweep_list C now limit e))"
proof -
  have "keeps holds (sweep_prepare C wallet jobs connection recipient now)"
    unfolding sweep_prepare_def by (intro keeps_ebind on_store_keeps sweep_preparation_keeps emodify_keeps) simp
  from keepsD[OF this assms] show "holds (snd (sweep_prepare C wallet jobs connection recipient now e))" .
  show "holds (sweep_prepare_arrives C n sid tip account est e)"
    using assms by (auto simp: sweep_prepare_arrives_def keepsD[OF sweep_preparation_keeps(2)]
        simp del: at_index_Some at_index_None split: option.split)
  show "holds (sweep_approve C engine ready jobs sid now e)"
    using assms by (auto simp: sweep_approve_def intro!: approval_keeps sweep_approval_keeps split: option.split)
  show "holds (sweep_refusal_arrives C sid refusal connection e)"
    using assms by (auto simp: sweep_refusal_arrives_def intro!: approval_keeps sweep_approval_keeps
        split: option.split sweep_pc.split)
  show "holds (sweep_account_arrives C sid acc at e)"
    using assms by (auto simp: sweep_account_arrives_def intro!: approval_keeps keeps_ebind sweep_approval_keeps
        split: option.split sweep_pc.split)
  show "holds (sweep_signature_arrives C sid signature at e)"
    using assms by (auto simp: sweep_signature_arrives_def intro!: approval_keeps sweep_approval_keeps
        split: option.split sweep_pc.split)
  show "holds (sweep_broadcast_arrives C sid res at e)"
    using assms by (auto simp: sweep_broadcast_arrives_def keepsD[OF sweep_approval_keeps(5)]
        split: option.split sweep_pc.split)
  show "holds (snd (sweep_cancel C sid now e))" "holds (snd (sweep_list C now limit e))"
    using assms by (simp_all add: sweep_cancel_def sweep_list_def keepsD[OF sweep_observation_keeps(1)]
        keepsD[OF sweep_observation_keeps(2)])
qed

lemma settle_refresh_store [simp]: "egStore (settle_refresh sid later now e) = egStore e"
  by (simp add: settle_refresh_def)

lemma sweep_refresh_keeps: "holds e \<Longrightarrow> holds (sweep_refresh C sid now e)"
  by (auto simp: sweep_refresh_def dest: on_store_holds[OF sweep_observation_keeps(3)]
      split: option.splits prod.splits sum.splits refresh_pc.splits)

lemma sweep_outcome_keeps: "holds e \<Longrightarrow> holds (sweep_outcome_arrives C sid outcome seen e)"
proof -
  have "keeps P (ebind (elift outcome) (\<lambda>outcome. refreshSweep_outcome (cfLib C) sid g now outcome seen))" for g now
    by (intro keeps_ebind sweep_observation_keeps) simp
  then show "holds e \<Longrightarrow> holds (sweep_outcome_arrives C sid outcome seen e)"
    by (auto simp: sweep_outcome_arrives_def dest: on_store_holds split: option.splits prod.splits sum.splits)
qed

lemma sweep_observe_keeps: "holds e \<Longrightarrow> holds (sweep_observe C now e)"
proof -
  assume h: "holds e"
  obtain v e' where a: "on_store (activeSweep (cfLib C)) e = (v, e')" by fastforce
  from on_store_holds[OF keeps_sweep_reads(2) a h] sweep_refresh_keeps show ?thesis
    by (auto simp: sweep_observe_def a Let_def split: sum.split option.split)
qed

lemma sweep_step_keeps: "sweep_step C e e' \<Longrightarrow> holds e \<Longrightarrow> holds e'"
  by (induction rule: sweep_step.induct)
    (simp_all add: sweep_calls_keep sweep_refresh_keeps sweep_outcome_keeps sweep_observe_keeps)

lemma crash_keeps: "holds e' \<Longrightarrow> holds (crash now e e')"
  using run_step_keeps[OF run_step.Restart, of "e'\<lparr>egSent := egSent e, egSweepSent := egSweepSent e,
     egSweepLost := egSweepLost e @ drop (length (egSweepSent e)) (egSweepSent e')\<rparr>"] by (simp add: crash_def)

theorem step_keeps: "step C e e' \<Longrightarrow> holds e \<Longrightarrow> holds e'"
  by (induction rule: step.induct) (auto intro: run_step_keeps sweep_step_keeps crash_keeps)

end

end
