(* ===== verification/Submission_Log.thy ===== *)
theory Submission_Log
  imports Store_History
begin

text \<open>
  How a stored run evolves, as an interpretation of \<open>store_predicate\<close>: it moves along the lifecycle and
  its attempt rows are append-only. With it, and the same for the rows of every run (\<open>step_remembers\<close>),
  every transaction the service ever hands to the broadcaster is in the attempt table: the row is
  written before the submission and no operation removes or renames it.
\<close>

subsection \<open>How a stored run evolves\<close>

definition attempt_key :: "attempt \<Rightarrow> txid \<times> nat \<times> nat" where
  "attempt_key a = (atTxid a, atNonce a, atFee a)"

definition child_grows :: "child \<Rightarrow> child \<Rightarrow> bool" where
  "child_grows c c' \<longleftrightarrow>
     (\<exists>ks. map attempt_key (chAttempts c') = map attempt_key (chAttempts c) @ ks) \<and> same_child_seal c c'"

definition evolves :: "run \<Rightarrow> run \<Rightarrow> bool" where
  "evolves r r' \<longleftrightarrow> same_seal r r' \<and> lifecycle (rnStatus r) (rnStatus r') \<and> rnCursor r \<le> rnCursor r' \<and>
     (rnApprovedAt r \<noteq> None \<longrightarrow> rnApprovedAt r' \<noteq> None) \<and>
     list_all2 child_grows (rnChildren r) (rnChildren r')"

lemma child_grows_refl [simp]: "child_grows c c"
  by (simp add: child_grows_def same_child_seal_def)

lemma child_grows_trans: "child_grows c c' \<Longrightarrow> child_grows c' c'' \<Longrightarrow> child_grows c c''"
  unfolding child_grows_def same_child_seal_def by (metis append.assoc)

lemma evolves_refl [simp]: "evolves r r"
  by (simp add: evolves_def same_seal_def list_all2_refl)

lemma evolves_trans: "evolves r r' \<Longrightarrow> evolves r' r'' \<Longrightarrow> evolves r r''"
  using list_all2_trans[of child_grows child_grows child_grows]
  by (auto simp: evolves_def same_seal_def intro: child_grows_trans)

definition descends :: "string \<Rightarrow> run \<Rightarrow> store \<Rightarrow> bool" where
  "descends rid r0 s \<longleftrightarrow> (\<exists>r. run_row s rid = Some r \<and> evolves r0 r)"

lemma descends_upd:
  assumes "descends rid0 r0 s" and "\<And>r. rnId (f r) = rnId r"
    and "\<And>r. run_row s rid = Some r \<Longrightarrow> evolves r (f r)"
  shows "descends rid0 r0 (upd_run rid f s)"
  using assms(1,3) evolves_trans by (fastforce simp: descends_def run_row_upd[OF assms(2)])

lemma evolves_upd_child:
  assumes "\<And>c. child_grows c (f c)" shows "evolves r (upd_child i f r)"
proof -
  have "child_grows (rnChildren r ! j) ((rnChildren r)[i := f (rnChildren r ! i)] ! j)"
    if "j < length (rnChildren r)" for j
    using that assms by (cases "j = i") simp_all
  then have "list_all2 child_grows (rnChildren r) ((rnChildren r)[i := f (rnChildren r ! i)])"
    by (simp add: list_all2_conv_all_nth)
  then show ?thesis by (simp add: evolves_def same_seal_def)
qed

lemma descends_same_runs: "stRuns t = stRuns s \<Longrightarrow> descends rid r t = descends rid r s"
  by (simp add: descends_def run_row_def)

lemma keeps_same_runs: "(\<And>s. stRuns (snd (m s)) = stRuns s) \<Longrightarrow> keeps (descends rid r) m"
  unfolding keeps_def using descends_same_runs by blast

lemma descends_write_child:
  assumes "\<And>c. child_grows c (f c)" shows "keeps (descends rid0 r0) (write_child rid i f)"
  unfolding write_child_def update_child_row_eq
  by (rule keeps_eatomic)
    (auto intro!: descends_upd evolves_upd_child assms split: option.splits if_splits)

lemma descends_transition:
  assumes "list_all (\<lambda>st. edge st to) from"
  shows "keeps (descends rid0 r0) (transition L rid from to now p)"
  unfolding transition_def
proof (rule keeps_ebind[OF keeps_eatomic])
  fix s t
  assume d: "descends rid0 r0 s"
    and t: "bindr (fst (requireRun L rid s)) (\<lambda>current.
       if rnStatus current \<notin> set from
       then Inl (RepositoryError StateConflict
              (''Reward run is '' @ run_status_text (rnStatus current) @ '', expected '' @
               join '' or '' (map run_status_text from)))
       else if \<not> run_checks (apply_patch to now p current)
       then Inl (SqliteError ''CHECK constraint failed'')
       else if \<not> rewardRunSchema L (apply_patch to now p current) then Inl (OtherError ''ZodError'')
       else (let s1 = s\<lparr>stRuns := row_update rnId rid (apply_patch to now p) (stRuns s)\<rparr> in
             Inr (if terminal_run to then release_run rid s1 else s1))) = Inr t"
  then obtain r where r: "run_row s rid = Some r" and st: "rnStatus r \<in> set from"
    and t: "t = transitioned rid to now p s"
    by (auto simp: transitioned_def upd_run_def Let_def requireRun_fst split: if_splits option.splits)
  have "edge (rnStatus r) to" using assms st by (simp add: list_all_iff)
  then have "evolves r (apply_patch to now p r)"
    by (auto simp: evolves_def same_seal_def apply_patch_def coalesce_def list_all2_refl split: option.splits)
  with r d have "descends rid0 r0 (upd_run rid (apply_patch to now p) s)"
    by (intro descends_upd) (auto simp: apply_patch_def)
  moreover have "descends rid0 r0 (release_run rid u) = descends rid0 r0 u" for u
    by (rule descends_same_runs) (simp add: release_run_def)
  ultimately show "descends rid0 r0 t" unfolding t transitioned_def Let_def by simp
qed auto

lemma attempt_key_update:
  "map attempt_key (as[k := (as ! k)\<lparr>atState := st, atResult := res, atUpdated := now\<rparr>]) = map attempt_key as"
proof (cases "k < length as")
  case True
  then show ?thesis
    by (simp add: map_update attempt_key_def) (metis (no_types, lifting) attempt_key_def list_update_id nth_map)
qed (simp add: list_update_beyond)

lemma descends_updateAttempt: "keeps (descends rid0 r0) (updateAttempt rid i k st res now)"
  unfolding keeps_def updateAttempt_def update_child_row_eq
  by (auto intro!: descends_upd evolves_upd_child simp: child_grows_def same_child_seal_def attempt_key_update)

lemma descends_insertAttempt: "keeps (descends rid0 r0) (insertAttempt rid i t nonce fee st now)"
  unfolding keeps_def insertAttempt_def update_child_row_eq
  by (auto intro!: descends_upd evolves_upd_child simp: child_grows_def same_child_seal_def)

lemma descends_advanceCursor: "keeps (descends rid0 r0) (advanceCursor L rid n g now)"
proof -
  let ?f = "\<lambda>r. r\<lparr>rnCursor := rnCursor r + 1, rnGasSpent := g, rnUpdated := now\<rparr>"
  have "evolves r (?f r)" for r by (simp add: evolves_def same_seal_def list_all2_refl)
  then have "descends rid0 r0 (s\<lparr>stRuns := row_update rnId rid ?f (stRuns s)\<rparr>)" if "descends rid0 r0 s" for s
    using descends_upd[OF that, of ?f rid] by (simp add: upd_run_def)
  then show ?thesis
    unfolding advanceCursor_def
    by (intro keeps_ebind keeps_eatomic) (auto split: option.splits if_splits)
qed

lemma descends_resetUnattempted: "keeps (descends rid0 r0) (resetUnattemptedMaterializedChild rid i now)"
proof -
  have "keeps (descends rid0 r0) (write_child rid i (unmaterialize now))"
    by (rule descends_write_child) (simp add: child_grows_def same_child_seal_def unmaterialize_def)
  then show ?thesis
    by (auto simp: keeps_def resetUnattemptedMaterializedChild_def split: option.splits)
qed

lemma descends_insertRun: "keeps (descends rid0 r0) (insertRun L rid w sha R until cs now)"
  unfolding insertRun_def
  by (intro keeps_ebind keeps_eatomic)
    (auto simp: descends_def run_row_def row_find_append Let_def split: option.splits if_splits)

lemma descends_preparations:
  "keeps (descends rid0 r0) (createPreparation pid sha q now)"
  "keeps (descends rid0 r0) (resetInterruptedPreparations now)"
  "keeps (descends rid0 r0) (claimPreparation pid now)"
  "keeps (descends rid0 r0) (completePreparation pid rid now)"
  "keeps (descends rid0 r0) (failPreparation pid reason now code)"
proof -
  have u: "keeps (descends rid0 r0) (update_prep pid st f)" for st f
    by (rule keeps_same_runs) (simp add: update_prep_def split: option.splits)
  show "keeps (descends rid0 r0) (createPreparation pid sha q now)"
    by (rule keeps_same_runs) (simp add: createPreparation_def Let_def split: option.splits)
  show "keeps (descends rid0 r0) (resetInterruptedPreparations now)"
    by (rule keeps_same_runs) (simp add: resetInterruptedPreparations_def)
  show "keeps (descends rid0 r0) (claimPreparation pid now)" "keeps (descends rid0 r0) (completePreparation pid rid now)"
    "keeps (descends rid0 r0) (failPreparation pid reason now code)"
    unfolding claimPreparation_def completePreparation_def failPreparation_def Let_def
    by (auto intro!: keeps_rules u)
qed

lemma descends_sweeps:
  "keeps (descends rid0 r0) (insertSweep L sid w p now)" "keeps (descends rid0 r0) (updateSweep L sid gp now)"
  unfolding insertSweep_def updateSweep_def
  by (intro keeps_ebind keeps_eatomic;
      auto simp: descends_def run_row_def release_sweep_def write_sweep_def split: option.splits if_splits)+

interpretation descent: store_predicate "descends rid0 r0" for rid0 r0
proof (unfold_locales, goal_cases)
  case (2 rid i st st' now p)
  show ?case unfolding updateChild_def
    by (intro keeps_ebind descends_write_child) (auto simp: child_grows_def same_child_seal_def)
next
  case (3 rid i p a now)
  show ?case unfolding materializeChild_def
    by (intro keeps_ebind descends_write_child) (auto simp: child_grows_def same_child_seal_def)
next
  case (5 rid i now)
  show ?case unfolding resetRejectedChild_def
    by (intro keeps_ebind descends_write_child) (auto simp: child_grows_def same_child_seal_def unmaterialize_def)
qed (simp_all add: descends_transition descends_resetUnattempted descends_updateAttempt descends_insertAttempt
    descends_advanceCursor descends_insertRun descends_preparations descends_sweeps)

lemma step_evolves:
  assumes "step C e e'" and "run_row (egStore e) rid = Some r"
  shows "\<exists>r'. run_row (egStore e') rid = Some r' \<and> evolves r r'"
  using descent.step_keeps[OF assms(1), of rid r] assms(2) by (simp add: descends_def)

subsection \<open>Attempt rows are append-only\<close>

definition recorded_txids :: "store \<Rightarrow> (string \<times> nat \<times> txid) set" where
  "recorded_txids s = {(rid, i, t). \<exists>r. run_row s rid = Some r \<and> i < length (rnChildren r) \<and>
     t \<in> atTxid ` set (chAttempts (rnChildren r ! i))}"

lemma child_grows_txids: "child_grows c c' \<Longrightarrow> atTxid ` set (chAttempts c) \<subseteq> atTxid ` set (chAttempts c')"
proof -
  assume "child_grows c c'"
  then have "set (map attempt_key (chAttempts c)) \<subseteq> set (map attempt_key (chAttempts c'))"
    unfolding child_grows_def by (metis Un_upper1 set_append)
  then have "fst ` set (map attempt_key (chAttempts c)) \<subseteq> fst ` set (map attempt_key (chAttempts c'))" by blast
  then show ?thesis by (simp add: image_image attempt_key_def)
qed

lemma step_remembers:
  assumes "step C e e'" shows "recorded_txids (egStore e) \<subseteq> recorded_txids (egStore e')"
proof
  fix x assume "x \<in> recorded_txids (egStore e)"
  then obtain rid i t r where x: "x = (rid, i, t)" and r: "run_row (egStore e) rid = Some r"
    and i: "i < length (rnChildren r)" and t: "t \<in> atTxid ` set (chAttempts (rnChildren r ! i))"
    by (auto simp: recorded_txids_def)
  from step_evolves[OF assms r] obtain r' where "run_row (egStore e') rid = Some r'" "evolves r r'" by blast
  with i t child_grows_txids[of "rnChildren r ! i" "rnChildren r' ! i"] show "x \<in> recorded_txids (egStore e')"
    by (auto simp: x recorded_txids_def evolves_def list_all2_conv_all_nth)
qed

subsection \<open>The log\<close>

definition log_recorded :: "engine \<Rightarrow> bool" where
  "log_recorded e \<longleftrightarrow> set (egSent e) \<subseteq> recorded_txids (egStore e)"

text \<open>A step submits only by suspending a tick on the broadcaster.\<close>

definition submits_pending :: "engine \<Rightarrow> engine \<Rightarrow> bool" where
  "submits_pending e e' \<longleftrightarrow> egSent e' = egSent e \<or>
     (\<exists>rid src pc. egTick e' = Some (rid, src, pc) \<and> egSent e' = egSent e @ sent_by pc)"

lemma on_store_sent: "on_store m e = (v, e') \<Longrightarrow> egSent e' = egSent e"
  by (auto simp: on_store_def split: prod.splits)

lemma settle_submits:
  assumes "egSent e0 = egSent e" shows "submits_pending e (settle_tick C rid src at (v, e0))"
proof (cases v)
  case (Inl err)
  obtain y e' where f: "on_store (tick_failed (cfLib C) rid err at) e0 = (y, e')" by fastforce
  then show ?thesis
    using on_store_sent[OF f] assms unfolding Inl settle_tick_def
    by (auto simp: submits_pending_def release_queue_def split: sum.splits option.splits)
next
  case (Inr pc)
  then show ?thesis
    using assms by (cases pc) (auto simp: settle_tick_def submits_pending_def release_queue_def)
qed

lemma settle_store_submits:
  "egSent e0 = egSent e \<Longrightarrow> submits_pending e (settle_tick C rid src at (on_store m e0))"
  using settle_submits by (cases "on_store m e0") (auto dest: on_store_sent)

lemma settle_awaited_submits:
  "egSent e0 = egSent e \<Longrightarrow>
   submits_pending e (settle_tick C rid src at (case v of Inl err \<Rightarrow> (Inl err, e0) | Inr a \<Rightarrow> on_store (m a) e0))"
  by (cases v) (simp_all add: settle_submits settle_store_submits)

lemma beside_submits: "beside C e e' \<Longrightarrow> submits_pending e e'"
  by (simp add: beside_def submits_pending_def)

lemma tick_events_submit:
  "submits_pending e (run_queue C ctl now at e)" "submits_pending e (reconcile_arrives C rec at e)"
  "submits_pending e (materialize_arrives C ctl mat at e)" "submits_pending e (tick_refusal_arrives C ctl refusal at e)"
  "submits_pending e (signature_arrives C sg at e)" "submits_pending e (broadcast_arrives C res at e)"
proof -
  have r: "submits_pending e e" by (simp add: submits_pending_def)
  have q: "submits_pending e (release_queue src ok (e\<lparr>egQueue := x\<rparr>))" for src ok x
    by (simp add: submits_pending_def release_queue_def)
  show "submits_pending e (run_queue C ctl now at e)"
    by (auto simp: run_queue_def Let_def r q intro!: settle_store_submits split: option.splits list.splits prod.splits)
  show "submits_pending e (reconcile_arrives C rec at e)"
    by (auto simp: reconcile_arrives_def Let_def r intro!: settle_awaited_submits
        split: option.splits prod.splits tick_pc.splits)
  show "submits_pending e (materialize_arrives C ctl mat at e)"
    by (auto simp: materialize_arrives_def r intro!: settle_awaited_submits
        split: option.splits prod.splits tick_pc.splits)
  show "submits_pending e (tick_refusal_arrives C ctl refusal at e)"
    by (auto simp: tick_refusal_arrives_def r intro!: settle_awaited_submits
        split: option.splits prod.splits tick_pc.splits)
  show "submits_pending e (signature_arrives C sg at e)"
    by (auto simp: signature_arrives_def r intro!: settle_awaited_submits
        split: option.splits prod.splits tick_pc.splits)
  show "submits_pending e (broadcast_arrives C res at e)"
    by (auto simp: broadcast_arrives_def r intro!: settle_awaited_submits
        split: option.splits prod.splits tick_pc.splits)
qed

lemma run_step_submits: "run_step C e e' \<Longrightarrow> engine_inv C e \<Longrightarrow> submits_pending e e'"
proof (induction rule: run_step.induct)
  case (Observed e)
  show ?case by (simp add: observation_settles_def submits_pending_def)
next
  case (Stop e)
  show ?case by (simp add: stop_def submits_pending_def)
next
  case (Restart e now)
  show ?case by (simp add: restart_def Let_def submits_pending_def)
next
  case (Pause e rid now)
  show ?case by (simp add: submits_pending_def)
next
  case (Cancel e rid now)
  show ?case by (simp add: submits_pending_def)
qed (blast intro: tick_events_submit beside_submits beside_enqueue beside_start_preparation
    beside_facts beside_approve beside_approve_arrives beside_resume beside_recover beside_recover_step)+

lemma crash_submits: "submits_pending e (crash now e e')"
  by (simp add: crash_def restart_def Let_def submits_pending_def)

lemma step_submits: "step C e e' \<Longrightarrow> engine_inv C e \<Longrightarrow> submits_pending e e'"
  by (auto elim!: step.cases intro: run_step_submits beside_submits sweep_step_beside crash_submits)

lemma sent_recorded:
  assumes "pc_inv L pc s" shows "set (sent_by pc) \<subseteq> recorded_txids s"
proof (cases pc)
  case (TickBroadcast r i sg k now)
  then obtain r' where sn: "snapshot_of L r i s r'" and rc: "recorded r' i sg k" using assms by auto
  have "sgTxid sg \<in> atTxid ` set (chAttempts (rnChildren r' ! i))"
    using rc by (auto simp: recorded_def Let_def image_iff intro!: bexI[of _ "chAttempts (rnChildren r' ! i) ! k"])
  with sn TickBroadcast show ?thesis by (auto simp: recorded_txids_def snapshot_of_def behind_def)
qed simp_all

lemma step_log:
  assumes "step C e e'" and "engine_inv C e" and "log_recorded e" shows "log_recorded e'"
proof -
  have "set (egSent e) \<subseteq> recorded_txids (egStore e')"
    using assms(3) step_remembers[OF assms(1)] by (simp add: log_recorded_def subset_trans)
  moreover have "set (sent_by pc) \<subseteq> recorded_txids (egStore e')" if "egTick e' = Some (rid, src, pc)" for rid src pc
    using step_inv[OF assms(1,2)] that sent_recorded by (auto simp: engine_inv_def tick_known_def)
  ultimately show ?thesis
    using step_submits[OF assms(1,2)] by (auto simp: submits_pending_def log_recorded_def)
qed

lemma reachable_log: "reachable C e \<Longrightarrow> log_recorded e"
proof (induction rule: reachable.induct)
  case init
  show ?case by (simp add: log_recorded_def boot_def)
next
  case (step e e')
  then show ?case using step_log reachable_inv by blast
qed

end
