(* ===== verification/Run_Guarantees.thy ===== *)
theory Run_Guarantees
  imports Submission_Log
begin

text \<open>
  What the invariants give for a single run: bounds on fees and on payments, the order of execution,
  and the facts at the signature boundary. The properties of the whole service in the root theory are
  these lemmas at the reachable states.
\<close>

subsection \<open>Fees\<close>

text \<open>The most a child can have cost: the highest fee among the transactions ever signed for it.\<close>

definition child_max_fee :: "child \<Rightarrow> nat" where
  "child_max_fee c = Max (insert 0 (atFee ` set (chAttempts c)))"

lemma child_max_fee_cap: "child_inv r i c \<Longrightarrow> child_max_fee c \<le> rpFeeCap (rnRecipe r)"
  by (auto simp: child_max_fee_def child_inv_def)

lemma sealed_length: "sealed_run L r \<Longrightarrow> length (rpChildren (rnRecipe r)) = length (rnChildren r)"
  by (simp add: sealed_run_def recipe_children_match_def)

lemma sum_list_bound: "(\<And>x. x \<in> set xs \<Longrightarrow> f x \<le> (m :: nat)) \<Longrightarrow> sum_list (map f xs) \<le> m * length xs"
  by (induction xs) (auto intro: add_mono)

lemma run_inv_in_child: "run_inv L r \<Longrightarrow> c \<in> set (rnChildren r) \<Longrightarrow> \<exists>i < length (rnChildren r). rnChildren r ! i = c \<and> child_inv r i c"
  by (auto simp: in_set_conv_nth run_inv_child)

lemma run_fees_within_budget:
  assumes "run_inv L r"
  shows "rnGasSpent r \<le> rpGasBudget (rnRecipe r)"
    and "sum_list (map child_max_fee (rnChildren r)) \<le> rpGasBudget (rnRecipe r)"
proof -
  have b: "rpGasBudget (rnRecipe r) = rpFeeCap (rnRecipe r) * length (rnChildren r)"
    using run_inv_recipe[OF assms] sealed_length[OF run_inv_sealed[OF assms]] by (simp add: recipe_inv_def)
  have "rpFeeCap (rnRecipe r) * rnCursor r \<le> rpGasBudget (rnRecipe r)"
    unfolding b using run_inv_cursor[OF assms] by simp
  with run_inv_gas[OF assms] show "rnGasSpent r \<le> rpGasBudget (rnRecipe r)" by (rule order_trans)
  show "sum_list (map child_max_fee (rnChildren r)) \<le> rpGasBudget (rnRecipe r)"
    unfolding b by (rule sum_list_bound) (auto dest: run_inv_in_child[OF assms] child_max_fee_cap)
qed

subsection \<open>Payments\<close>

definition child_amount :: "child \<Rightarrow> nat" where
  "child_amount c = (case chAmount c of None \<Rightarrow> 0 | Some n \<Rightarrow> n)"

definition is_payment :: "child \<Rightarrow> bool" where
  "is_payment c \<longleftrightarrow> chOperation c = ClaimStakerRewards"

lemma child_amount_within:
  assumes "run_inv L r" and i: "i < length (rnChildren r)"
  shows "case chAmount (rnChildren r ! i) of None \<Rightarrow> True
    | Some n \<Rightarrow> \<exists>m. chMaxAmount (rnChildren r ! i) = Some m \<and> n \<le> m"
proof (cases "chAmount (rnChildren r ! i)")
  case (Some n)
  note ci = run_inv_child[OF assms]
  have "chStatus (rnChildren r ! i) \<notin> {Pending, Skipped}" using ci Some by (auto simp: child_inv_def)
  with ci obtain p where "assertPlan r i (rnChildren r ! i) p (Some n) = Inr ()"
    unfolding child_inv_def Some by blast
  then obtain rc where rc: "at_index (rpChildren (rnRecipe r)) i = Some rc"
    and "(rcMaxAmount rc = None) = (Some n = None)" "amount_within rc (Some n)"
    by (rule assertPlan_elim) (rule that)
  then obtain m where "rcMaxAmount rc = Some m" "n \<le> m"
    by (cases "rcMaxAmount rc") (auto simp: amount_within_def)
  with rc sealed_child(3)[OF run_inv_sealed[OF assms(1)] i] show ?thesis using Some by auto
qed simp

lemma payments_total:
  assumes "run_inv L r"
  shows "sum_list (map child_amount (filter is_payment (rnChildren r))) \<le> rpReviewedTotal (rnRecipe r)"
proof -
  let ?cs = "rnChildren r" and ?rcs = "rpChildren (rnRecipe r)"
  note seal = run_inv_sealed[OF assms]
  have len: "length ?rcs = length ?cs" by (rule sealed_length[OF seal])
  have pay: "payments ?rcs = map (\<lambda>i. ?rcs ! i) (filter (\<lambda>i. is_payment (?cs ! i)) [0..<length ?cs])"
  proof -
    have "payments ?rcs = filter (\<lambda>c. rcOperation c = ClaimStakerRewards) (map ((!) ?rcs) [0..<length ?rcs])"
      unfolding payments_def map_nth ..
    also have "\<dots> = map ((!) ?rcs) (filter (\<lambda>i. rcOperation (?rcs ! i) = ClaimStakerRewards) [0..<length ?cs])"
      by (simp add: filter_map comp_def len)
    also have "filter (\<lambda>i. rcOperation (?rcs ! i) = ClaimStakerRewards) [0..<length ?cs] =
        filter (\<lambda>i. is_payment (?cs ! i)) [0..<length ?cs]"
      by (rule filter_cong) (auto simp: is_payment_def sealed_child(2)[OF seal])
    finally show ?thesis .
  qed
  have cs: "filter is_payment ?cs = map ((!) ?cs) (filter (\<lambda>i. is_payment (?cs ! i)) [0..<length ?cs])"
    by (subst (1) map_nth[symmetric]) (simp only: filter_map comp_def)
  have le: "child_amount (?cs ! i) \<le> the (rcMaxAmount (?rcs ! i))" if "i < length ?cs" for i
    using child_amount_within[OF assms that] sealed_child(3)[OF seal that]
    by (auto simp: child_amount_def split: option.splits)
  have "sum_list (map child_amount (filter is_payment ?cs)) \<le> sum_list (map (\<lambda>c. the (rcMaxAmount c)) (payments ?rcs))"
    unfolding cs pay map_map by (rule sum_list_mono) (auto simp: le)
  also have "\<dots> = rpReviewedTotal (rnRecipe r)"
    using run_inv_recipe[OF assms] by (simp add: recipe_inv_def)
  finally show ?thesis .
qed

subsection \<open>Order of execution\<close>

lemma in_flight_at_cursor:
  assumes "run_inv L r" and "i < length (rnChildren r)" and "chStatus (rnChildren r ! i) = Broadcast"
  shows "i = rnCursor r"
proof (rule ccontr)
  assume "i \<noteq> rnCursor r"
  then have "i < rnCursor r \<or> rnCursor r < i" by arith
  with assms run_inv_before[OF assms(1), of i] run_inv_after[OF assms(1,2)] show False
    by (auto simp: child_complete_def untouched_def)
qed

lemma in_flight_le_1:
  assumes "run_inv L r" shows "in_flight r \<le> 1"
proof -
  have "in_flight r = card {i. i < length (rnChildren r) \<and> chStatus (rnChildren r ! i) = Broadcast}"
    unfolding in_flight_def by (rule length_filter_conv_card)
  also have "\<dots> \<le> card {rnCursor r}" using in_flight_at_cursor[OF assms] by (intro card_mono) auto
  finally show ?thesis by simp
qed

lemma live_le_1:
  assumes "run_inv L r" and "c \<in> set (rnChildren r)" and "\<not> child_complete (chStatus c)"
  shows "length (live c) \<le> 1"
proof -
  from run_inv_in_child[OF assms(1,2)] obtain i where "child_inv r i c" by blast
  with assms(3) show ?thesis by (cases "chStatus c") (auto simp: child_inv_def child_complete_def)
qed

subsection \<open>Active owners\<close>

lemma owner_unique:
  assumes "store_inv L s" and "owner_active s w x" and "owner_active s w y"
  shows "x = y"
  using assms leases.exclusive[of "stLeases s" w x y] unfolding store_inv_def lease_inv_def by blast

end
