(* ===== verification/Demo_Trace.thy ===== *)
theory Demo_Trace
  imports Run_Guarantees
begin

text \<open>
  One concrete execution of the service, used by the witnesses of the properties over reachable
  states: a run with a single payment is prepared, approved, started, materialized, checked, signed
  and handed to the broadcaster.
\<close>

definition demo_config :: svc_config where
  "demo_config = \<lparr>cfLib = sample_lib, cfMaximumFee = 3000, cfMaximumTransactions = 200,
     cfApprovalMinutes = 30, cfMaximumRunHours = 6, cfSweep = \<lparr>scSweepLib = sample_sweep_lib,
       scNetwork = Mainnet, scChainId = 1, scMaximumFee = 300, scFeePolicy = None,
       scApprovalMinutes = 10\<rparr>\<rparr>"

definition demo_id :: string where
  "demo_id = replicate 36 (CHR ''r'')"

definition demo_sha :: string where
  "demo_sha = replicate 64 (CHR ''a'')"

definition demo_request :: prepare_request where
  "demo_request = \<lparr>rqRequestId = Some demo_id, rqCycle = 7, rqDistribution = Dist1,
     rqOperations = Some [ClaimStakerRewards], rqMaxTransactions = None\<rparr>"

definition demo_facts :: draft_facts where
  "demo_facts = \<lparr>dfWallet = ''SPW'', dfManager = ''SPM.manager'', dfPox5 = ''SP0.pox-5'',
     dfSbtcToken = ''SPB.sbtc-token'', dfSbtcRegistry = ''SPB.sbtc-registry'', dfNetwork = Mainnet,
     dfChainId = 1, dfCycle = 7, dfDistribution = Dist1, dfAnchor = sample_anchor,
     dfManagerFingerprint = replicate 64 (CHR ''1''), dfPox5Fingerprint = replicate 64 (CHR ''2''),
     dfCalculateRequired = False, dfCollectRequired = False, dfMaximumCollect = None,
     dfEligibleAccounts = 1, dfEligibleAccepted = 0, dfEligibleRejected = 0,
     dfAccounts = [sample_account ''SPA'' None 500], dfWithdrawals = []\<rparr>"

definition demo_recipe :: recipe where
  "demo_recipe = \<lparr>rpRunId = demo_id, rpPrepareSha = demo_sha,
     rpWallet = ''SPW'', rpManager = ''SPM.manager'', rpPox5 = ''SP0.pox-5'',
     rpSbtcToken = ''SPB.sbtc-token'', rpSbtcRegistry = ''SPB.sbtc-registry'',
     rpNetwork = Mainnet, rpChainId = 1, rpCycle = 7, rpDistribution = Dist1,
     rpOperations = [ClaimStakerRewards],
     rpAccounts = [\<lparr>abKey = ''SPA:7:stx'', abAccount = sample_account ''SPA'' None 500\<rparr>],
     rpReviewedTotal = 500, rpReviewedCount = 1, rpMaxTransactions = 200, rpEligible = 1,
     rpTruncated = False, rpRemaining = 0, rpFeeCap = 3000, rpGasBudget = 3000,
     rpManagerFingerprint = replicate 64 (CHR ''1''), rpPox5Fingerprint = replicate 64 (CHR ''2''),
     rpAdapterRevisions = [(''reference-manager-claim-staker-rewards'', 2)],
     rpChildren = [\<lparr>rcIndex = 0, rcOperation = ClaimStakerRewards,
       rcAdapterId = ''reference-manager-claim-staker-rewards'', rcAdapterRevision = 2,
       rcAccountKey = Some ''SPA:7:stx'', rcRequestId = None, rcStaker = Some ''SPA'',
       rcMaxAmount = Some 500, rcWithdrawal = None, rcMaxFee = None\<rparr>],
     rpAnchor = sample_anchor\<rparr>"

lemma demo_digests [simp]:
  "rewardRunRecipeSha256 sample_lib R = demo_sha" "rewardRunPrepareRequestSha256 sample_lib q = demo_sha"
  unfolding rewardRunRecipeSha256_def rewardRunPrepareRequestSha256_def sample_sel demo_sha_def by (rule refl)+

lemma demo_built:
  "buildRewardRunRecipe sample_lib demo_id demo_facts demo_request 3000 200 = Inr demo_recipe"
  by (simp add: buildRewardRunRecipe_def demo_facts_def demo_request_def demo_recipe_def
      uniqueOperations_def operationOrder_def recipe_children_def collect_children_def
      calculate_children_def add_payments_eq add_withdrawals_eq add_child_eq sorted_accounts_def
      sorted_withdrawals_def sample_account_def accountKey_def
      eligible_transactions_def Let_def dec_text.simps digit_char_def mk_child_def payment_detail_def no_detail_def)

definition demo_material :: op_material where
  "demo_material = MClaimStaker ''SPM.manager'' ''SPB.sbtc-token'' ''SPA'' 7 None DirectSbtc 500 20
     (sbtc_transfer ''SPB.sbtc-token'' ''SPM.manager'' ''SPA'' 480)"

definition demo_plan :: plan where
  "demo_plan = \<lparr>planSha256 = replicate 64 (CHR ''a''), unsignedTransactionHex = ''00'',
     unsignedTransactionSha256 = replicate 64 (CHR ''b''),
     planMaterial = \<lparr>matAdapterId = ''reference-manager-claim-staker-rewards'', matAdapterRevision = 2,
       matAuthorization = \<lparr>authRunId = demo_id, authRecipeSha256 = demo_sha\<rparr>,
       matNetwork = \<lparr>netKind = Mainnet, netChainId = 1\<rparr>, matAnchor = sample_anchor,
       matSender = \<lparr>senderPrincipal = ''SPW'', senderPublicKey = ''02'' @ replicate 64 (CHR ''0'')\<rparr>,
       matManagerFingerprint = Some (replicate 64 (CHR ''1'')),
       matTransaction = \<lparr>txNonce = 5, txFeeUstx = 2500, txUnsignedSha256 = replicate 64 (CHR ''b'')\<rparr>,
       matOp = demo_material\<rparr>\<rparr>"

definition demo_txid :: txid where
  "demo_txid = ''0x'' @ replicate 64 (CHR ''b'')"

definition demo_signed :: signed_attempt where
  "demo_signed = \<lparr>sgTxid = demo_txid, sgNonce = 5, sgFee = 2500, sgBytes = ''00''\<rparr>"

definition demo_attempt :: attempt where
  "demo_attempt = \<lparr>atTxid = demo_txid, atNonce = 5, atFee = 2500, atState = Signed, atResult = None,
     atCreated = 5, atUpdated = 5\<rparr>"

text \<open>The run after each event: its status, and the state of its only child.\<close>

definition demo_child :: "child_status \<Rightarrow> plan option \<Rightarrow> attempt list \<Rightarrow> instant \<Rightarrow> child" where
  "demo_child st p as t = \<lparr>chOperation = ClaimStakerRewards,
     chAdapterId = ''reference-manager-claim-staker-rewards'', chAdapterRevision = 2,
     chAccountKey = Some ''SPA:7:stx'', chMaxAmount = Some 500, chStatus = st,
     chAmount = map_option (\<lambda>_. 500) p, chPlan = p, chTxid = None, chProvenance = None, chSource = None,
     chFailure = None, chCreated = 3, chUpdated = t, chAttempts = as\<rparr>"

definition demo_run :: "run_status \<Rightarrow> instant option \<Rightarrow> instant option \<Rightarrow> instant \<Rightarrow> child \<Rightarrow> run" where
  "demo_run st appr start t c = \<lparr>rnId = demo_id, rnStatus = st, rnWallet = ''SPW'', rnRecipeSha = demo_sha,
     rnRecipe = demo_recipe, rnCursor = 0, rnGasSpent = 0, rnApprovalExpires = 1800003,
     rnRuntimeExpires = map_option (\<lambda>s. s + 21600000) start, rnApprovedAt = appr, rnStartedAt = start,
     rnCompletedAt = None, rnFailure = None, rnCreated = 3, rnUpdated = t, rnChildren = [c]\<rparr>"

definition demo_prep :: "prep_status \<Rightarrow> preparation" where
  "demo_prep st = \<lparr>ppId = demo_id, ppStatus = st, ppRequestSha = demo_sha, ppRequest = demo_request,
     ppRunId = (if st = Ready then Some demo_id else None), ppFailure = None, ppFailureCode = None,
     ppCreated = 1, ppStarted = (if st = Queued then None else Some 2),
     ppCompleted = (if st = Ready then Some 3 else None),
     ppUpdated = (if st = Queued then 1 else if st = Preparing then 2 else 3)\<rparr>"

definition demo_engine :: "preparation list \<Rightarrow> run list \<Rightarrow> engine" where
  "demo_engine ps rs = (boot empty_store)\<lparr>egStore := \<lparr>stLeases = map (\<lambda>r. \<lparr>lsWallet = ''SPW'',
     lsKind = RewardRunKind, lsId = demo_id, lsAcquiredAt = 3\<rparr>) (filter (\<lambda>r. \<not> terminal_run (rnStatus r)) rs),
     stRuns = rs, stPreps = ps, stSweeps = []\<rparr>\<rparr>"

definition open_control :: execution_control where
  "open_control = (\<lambda>_. None)"

lemma demo_allowed [simp]: "assertExecutionAllowed open_control ops = Inr ()"
  by (simp add: assertExecutionAllowed_def open_control_def)

lemma demo_cfg [simp]:
  "cfLib demo_config = sample_lib" "cfMaximumFee demo_config = 3000" "cfMaximumTransactions demo_config = 200"
  "cfApprovalMinutes demo_config = 30" "cfMaximumRunHours demo_config = 6"
  by (simp_all add: demo_config_def)

lemma demo_lengths [simp]: "length demo_id = 36" "length demo_sha = 64" "length demo_txid = 66"
  "hashSchema demo_sha" "indexBlockHashSchema demo_txid" "demo_id \<noteq> []"
  by (simp_all add: demo_id_def demo_sha_def demo_txid_def indexBlockHashSchema_def)

lemma demo_recipe_schema [simp]: "rewardRunRecipeSchema sample_lib demo_recipe"
  by (simp add: rewardRunRecipeSchema_def demo_recipe_def nonempty_def accountBoundSchema_def
      recipeChildSchema_def anchorSchema_def sample_anchor_def sample_account_def indexBlockHashSchema_def)

lemma demo_run_schema [simp]:
  assumes "chStatus c \<noteq> Broadcast" and "childSchema c"
  shows "rewardRunSchema sample_lib (demo_run st appr start t c)"
  using assms by (simp add: rewardRunSchema_def demo_run_def in_flight_def)

lemma demo_child_schema [simp]: "childSchema (demo_child st (Some demo_plan) as t)" "childSchema (demo_child st None as t)"
  by (simp_all add: childSchema_def demo_child_def demo_plan_def)

lemma demo_sealed [simp]: "sealed_run sample_lib (demo_run st appr start t (demo_child cs p as u))"
  by (simp add: sealed_run_def demo_run_def demo_child_def demo_recipe_def recipe_children_match_def
      recipe_child_matches_def at_index_def)

lemma demo_run_sel [simp]:
  "rnId (demo_run st appr start t c) = demo_id" "rnStatus (demo_run st appr start t c) = st"
  "rnWallet (demo_run st appr start t c) = ''SPW''" "rnRecipe (demo_run st appr start t c) = demo_recipe"
  "rnRecipeSha (demo_run st appr start t c) = demo_sha" "rnCursor (demo_run st appr start t c) = 0"
  "rnGasSpent (demo_run st appr start t c) = 0" "rnChildren (demo_run st appr start t c) = [c]"
  "rnApprovalExpires (demo_run st appr start t c) = 1800003"
  "rnRuntimeExpires (demo_run st appr start t c) = map_option (\<lambda>s. s + 21600000) start"
  by (simp_all add: demo_run_def)

lemma demo_child_sel [simp]:
  "chStatus (demo_child st p as t) = st" "chPlan (demo_child st p as t) = p"
  "chAttempts (demo_child st p as t) = as" "chOperation (demo_child st p as t) = ClaimStakerRewards"
  "chTxid (demo_child st p as t) = None" "chMaxAmount (demo_child st p as t) = Some 500"
  by (simp_all add: demo_child_def)

lemma demo_row [simp]: "run_row \<lparr>stLeases = ls, stRuns = [demo_run st appr start t c], stPreps = ps, stSweeps = gs\<rparr> demo_id =
    Some (demo_run st appr start t c)"
  by (simp add: run_row_def)

lemma demo_get:
  assumes "chStatus c \<noteq> Broadcast" and "childSchema c"
    and "sealed_run sample_lib (demo_run st appr start t c)"
    and s: "stRuns s = [demo_run st appr start t c]"
  shows "getRun sample_lib demo_id s = (Inr (Some (demo_run st appr start t c)), s)"
    and "serviceGet sample_lib demo_id s = (Inr (demo_run st appr start t c), s)"
    and "requireRun sample_lib demo_id s = (Inr (demo_run st appr start t c), s)"
  using assms demo_run_schema[OF assms(1,2)]
  by (simp_all add: getRun_def serviceGet_def requireRun_def monad_defs run_row_def assertSealedRun_def)

lemma demo_get_row [simp]:
  assumes "chStatus c \<noteq> Broadcast" and "childSchema c"
    and "sealed_run sample_lib (demo_run st appr start t c)"
  defines "s ls ps gs \<equiv> \<lparr>stLeases = ls, stRuns = [demo_run st appr start t c], stPreps = ps, stSweeps = gs\<rparr>"
  shows "getRun sample_lib demo_id (s ls ps gs) = (Inr (Some (demo_run st appr start t c)), s ls ps gs)"
    and "serviceGet sample_lib demo_id (s ls ps gs) = (Inr (demo_run st appr start t c), s ls ps gs)"
    and "requireRun sample_lib demo_id (s ls ps gs) = (Inr (demo_run st appr start t c), s ls ps gs)"
  using demo_get[OF assms(1-3), of "s ls ps gs"] by (simp_all add: s_def)

lemma demo_enqueue:
  "snd (enqueuePreparation demo_config open_control True demo_id demo_request 1 (boot empty_store)) =
     (demo_engine [demo_prep Queued] [])\<lparr>egPrepQueue := [demo_id]\<rparr>"
  by (simp add: enqueuePreparation_def monad_defs on_store_def emodify_def createPreparation_def prep_row_def
      activePreparationForRequest_def prep_checks_def demo_prep_def demo_engine_def boot_def empty_store_def
      Let_def queue_preparation_def) (simp add: demo_request_def)

lemma demo_prepare:
  "start_preparation demo_config open_control True demo_id 2 ((demo_engine [demo_prep Queued] [])\<lparr>egPrepQueue := [demo_id]\<rparr>) =
     (demo_engine [demo_prep Preparing] [])\<lparr>egPrep := Some \<lparr>pcPreparation = demo_id, pcRun = demo_id,
        pcRequest = demo_request, pcSha = demo_sha\<rparr>\<rparr>"
  by (simp add: start_preparation_def monad_defs on_store_def claimPreparation_def update_prep_def
      requirePreparation_def prep_row_def prep_checks_def demo_prep_def demo_engine_def boot_def
      empty_store_def Let_def prepare_start_def getRun_def run_row_def row_update_def)
   (simp add: demo_request_def)

abbreviation demo_waiting :: child where
  "demo_waiting \<equiv> demo_child Pending None [] 3"

lemma demo_insert:
  "insertRun sample_lib demo_id ''SPW'' demo_sha demo_recipe 1800003 (map child_input_of (rpChildren demo_recipe)) 3
     \<lparr>stLeases = [], stRuns = [], stPreps = ps, stSweeps = []\<rparr> =
   (Inr (demo_run AwaitingApproval None None 3 demo_waiting),
    \<lparr>stLeases = [\<lparr>lsWallet = ''SPW'', lsKind = RewardRunKind, lsId = demo_id, lsAcquiredAt = 3\<rparr>],
     stRuns = [demo_run AwaitingApproval None None 3 demo_waiting], stPreps = ps, stSweeps = []\<rparr>)"
proof -
  have fresh: "fresh_run demo_id ''SPW'' demo_sha demo_recipe 1800003 (map child_input_of (rpChildren demo_recipe)) 3 =
      demo_run AwaitingApproval None None 3 demo_waiting"
    by (simp add: fresh_run_def demo_run_def demo_child_def fresh_child_def child_input_of_def)
      (simp add: demo_recipe_def fresh_child_def child_input_of_def)
  have "run_checks (demo_run AwaitingApproval None None 3 demo_waiting)" by (simp add: run_checks_def demo_run_def)
  moreover have "child_checks demo_waiting" by (simp add: child_checks_def demo_child_def)
  ultimately show ?thesis
    unfolding insertRun_def fresh Let_def
    by (simp add: monad_defs lease_acquire_def run_row_def)
qed

lemma demo_facts_arrive:
  "facts_arrive demo_config open_control (Inr demo_facts) 3
     ((demo_engine [demo_prep Preparing] [])\<lparr>egPrep := Some \<lparr>pcPreparation = demo_id, pcRun = demo_id,
        pcRequest = demo_request, pcSha = demo_sha\<rparr>\<rparr>) =
   demo_engine [demo_prep Ready] [demo_run AwaitingApproval None None 3 demo_waiting]"
proof -
  have w: "dfWallet demo_facts = ''SPW''" by (simp add: demo_facts_def)
  have f: "prepare_facts demo_config open_control demo_id demo_request demo_facts 3
      \<lparr>stLeases = [], stRuns = [], stPreps = ps, stSweeps = []\<rparr> = (Inr (demo_run AwaitingApproval None None 3 demo_waiting),
    \<lparr>stLeases = [\<lparr>lsWallet = ''SPW'', lsKind = RewardRunKind, lsId = demo_id, lsAcquiredAt = 3\<rparr>],
     stRuns = [demo_run AwaitingApproval None None 3 demo_waiting], stPreps = ps, stSweeps = []\<rparr>)" for ps
    by (simp add: prepare_facts_def Let_def monad_defs demo_built ecatch_def demo_insert w)
  show ?thesis
    by (simp add: facts_arrive_def demo_engine_def boot_def empty_store_def finish_preparation_def ecatch_def
        ebind_def elift_def f on_store_def completePreparation_def eread_def update_prep_def prep_row_def
        requirePreparation_def prep_checks_def row_update_def terminal_run_def eret_def run_row_def)
      (simp add: demo_prep_def)
qed

lemma demo_approve:
  "snd (approve demo_config open_control demo_id demo_sha 4
     (demo_engine ps [demo_run AwaitingApproval None None 3 demo_waiting])) =
   (demo_engine ps [demo_run AwaitingApproval None None 3 demo_waiting])
     \<lparr>egApprovals := [\<lparr>avRun = demo_id, avSha = demo_sha, avNow = 4\<rparr>]\<rparr>"
  by (simp add: approve_def approve_start_def monad_defs on_store_def emodify_def demo_engine_def boot_def
      empty_store_def terminal_run_def)

lemma demo_transition:
  assumes "chStatus c \<noteq> Broadcast" "childSchema c" "sealed_run sample_lib r" "r = demo_run st appr start t c"
    and "st \<in> set from" and "apply_patch to now p r = demo_run to appr' start' now c"
    and "run_checks (demo_run to appr' start' now c)"
  shows "transition sample_lib demo_id from to now p
      \<lparr>stLeases = ls, stRuns = [r], stPreps = ps, stSweeps = []\<rparr> =
    (Inr (demo_run to appr' start' now c), \<lparr>stLeases = (if terminal_run to
        then lease_release RewardRunKind demo_id ls else ls),
       stRuns = [demo_run to appr' start' now c], stPreps = ps, stSweeps = []\<rparr>)"
proof -
  have seal: "sealed_run sample_lib (demo_run to appr' start' now c)"
    using sealed_run_seal[OF assms(3), of "demo_run to appr' start' now c"] assms(4)
    by (simp add: same_seal_def)
  note get = demo_get(3)[OF assms(1,2)]
  have r: "requireRun sample_lib demo_id s = (Inr r, s)" if "stRuns s = [r]" for s
    using get[of st appr start t s] assms(3,4) that by simp
  have r': "requireRun sample_lib demo_id s = (Inr (demo_run to appr' start' now c), s)"
    if "stRuns s = [demo_run to appr' start' now c]" for s
    using get[of to appr' start' now s] seal that by simp
  have id: "rnId r = demo_id" and st: "rnStatus r = st" using assms(4) by simp_all
  show ?thesis
    unfolding transition_def
    using assms(1,2,5-7) by (simp add: monad_defs r r' row_update_def id st release_run_def Let_def)
qed

lemma demo_approved:
  "snd (approve_arrives demo_config 0 (Inr None)
     ((demo_engine ps [demo_run AwaitingApproval None None 3 demo_waiting])
       \<lparr>egApprovals := [\<lparr>avRun = demo_id, avSha = demo_sha, avNow = 4\<rparr>]\<rparr>)) =
   (demo_engine ps [demo_run Approved (Some 4) None 4 demo_waiting])\<lparr>egQueue := [(demo_id, FromOperator)]\<rparr>"
proof -
  have "transition sample_lib demo_id [AwaitingApproval] Approved 4 (no_patch\<lparr>tpApprovedAt := Some 4\<rparr>)
      \<lparr>stLeases = ls, stRuns = [demo_run AwaitingApproval None None 3 demo_waiting], stPreps = ps, stSweeps = []\<rparr> =
     (Inr (demo_run Approved (Some 4) None 4 demo_waiting), \<lparr>stLeases = (if terminal_run Approved
        then lease_release RewardRunKind demo_id ls else ls),
       stRuns = [demo_run Approved (Some 4) None 4 demo_waiting], stPreps = ps, stSweeps = []\<rparr>)" for ls
    by (rule demo_transition)
      (simp_all add: apply_patch_def no_patch_def run_checks_def, simp_all add: demo_run_def)
  then show ?thesis
    by (simp add: approve_arrives_def monad_defs emodify_def on_store_def approve_checked_def
        assertDedicatedWallet_def ecatch_def demo_engine_def boot_def empty_store_def terminal_run_def
        queue_tick_def at_index_def)
qed

definition demo_ticking :: "tick_pc \<Rightarrow> engine \<Rightarrow> engine" where
  "demo_ticking pc e = e\<lparr>egTick := Some (demo_id, FromOperator, pc), egSent := egSent e @ sent_by pc\<rparr>"

abbreviation demo_started :: "child \<Rightarrow> run" where
  "demo_started c \<equiv> demo_run Running (Some 4) (Some 5) 5 c"

lemma demo_tick:
  "run_queue demo_config open_control 5 5
     ((demo_engine ps [demo_run Approved (Some 4) None 4 demo_waiting])\<lparr>egQueue := [(demo_id, FromOperator)]\<rparr>) =
   demo_ticking (TickMaterialize (demo_started demo_waiting) 0 5) (demo_engine ps [demo_started demo_waiting])"
proof -
  have "transition sample_lib demo_id [Approved] Running 5
      (no_patch\<lparr>tpStartedAt := Some 5, tpRuntimeExpires := Some (5 + 6 * 60 * 60000)\<rparr>)
      \<lparr>stLeases = ls, stRuns = [demo_run Approved (Some 4) None 4 demo_waiting], stPreps = ps, stSweeps = []\<rparr> =
     (Inr (demo_started demo_waiting), \<lparr>stLeases = (if terminal_run Running
        then lease_release RewardRunKind demo_id ls else ls),
       stRuns = [demo_started demo_waiting], stPreps = ps, stSweeps = []\<rparr>)" for ls
    by (rule demo_transition)
      (simp_all add: apply_patch_def no_patch_def run_checks_def, simp_all add: demo_run_def)
  then show ?thesis
    by (simp add: run_queue_def monad_defs tick_start_def start_running_def on_store_def demo_engine_def
        boot_def empty_store_def terminal_run_def settle_tick_def expireRunningRun_def runtime_elapsed_def
        at_index_def tick_child_def child_complete_def demo_ticking_def Let_def)
qed

abbreviation demo_ready :: child where
  "demo_ready \<equiv> demo_child Materialized (Some demo_plan) [] 5"

lemma demo_plan_ok: "assertPlan (demo_started demo_waiting) 0 demo_waiting demo_plan (Some 500) = Inr ()"
  unfolding assertPlan_ok
  by (simp add: demo_recipe_def material_bound_def demo_plan_def demo_material_def amount_within_def
      sample_account_def staker_key_def int_text_def dec_text.simps digit_char_def amount_is_def)

lemma demo_materialized:
  "materialize_arrives demo_config open_control (Inr (MatPlan demo_plan (Some 500))) 5
     (demo_ticking (TickMaterialize (demo_started demo_waiting) 0 5) (demo_engine ps [demo_started demo_waiting])) =
   demo_ticking (TickRefusal (demo_started demo_waiting) 0 demo_plan 5) (demo_engine ps [demo_started demo_ready])"
proof -
  have upd: "demo_started c'\<lparr>rnChildren := [c]\<rparr> = demo_started c" for c c' by (simp add: demo_run_def)
  have mat: "demo_waiting\<lparr>chStatus := Materialized, chPlan := Some demo_plan, chAmount := Some 500, chUpdated := 5\<rparr> = demo_ready"
    by (simp add: demo_child_def)
  have "child_checks demo_ready" by (simp add: child_checks_def demo_child_def)
  moreover have "txFeeUstx (matTransaction (planMaterial demo_plan)) = 2500" by (simp add: demo_plan_def)
  moreover have "rpGasBudget demo_recipe = 3000" by (simp add: demo_recipe_def)
  ultimately show ?thesis
    by (simp add: materialize_arrives_def demo_ticking_def monad_defs on_store_def demo_engine_def boot_def
        empty_store_def terminal_run_def tick_materialized_def demo_plan_ok materializeChild_def requireChild_def
        child_row_def at_index_def write_child_def update_child_row_def row_update_def upd mat settle_tick_def)
qed

lemma demo_refusal:
  "tick_refusal_arrives demo_config open_control (Inr None) 5
     (demo_ticking (TickRefusal (demo_started demo_waiting) 0 demo_plan 5) (demo_engine ps [demo_started demo_ready])) =
   demo_ticking (TickSign (demo_started demo_waiting) 0 demo_plan 5) (demo_engine ps [demo_started demo_ready])"
  by (simp add: tick_refusal_arrives_def demo_ticking_def monad_defs on_store_def demo_engine_def boot_def
      empty_store_def terminal_run_def tick_refusal_checked_def assertDedicatedWallet_def expireRunningRun_def
      runtime_elapsed_def settle_tick_def)

definition demo_sent :: child where
  "demo_sent = demo_child Materialized (Some demo_plan) [demo_attempt] 5"

abbreviation demo_submitting :: tick_pc where
  "demo_submitting \<equiv> TickBroadcast (demo_started demo_waiting) 0 demo_signed 0 5"

lemma demo_signature:
  "signature_arrives demo_config (Inr demo_signed) 5
     (demo_ticking (TickSign (demo_started demo_waiting) 0 demo_plan 5) (demo_engine ps [demo_started demo_ready])) =
   demo_ticking demo_submitting (demo_engine ps [demo_started demo_sent])"
proof -
  have upd: "demo_started c'\<lparr>rnChildren := [c]\<rparr> = demo_started c" for c c' by (simp add: demo_run_def)
  have snt: "demo_ready\<lparr>chAttempts := [\<lparr>atTxid = demo_txid, atNonce = 5, atFee = 2500, atState = Signed,
      atResult = None, atCreated = 5, atUpdated = 5\<rparr>]\<rparr> = demo_sent"
    by (simp add: demo_child_def demo_sent_def demo_attempt_def)
  have "txFeeUstx (matTransaction (planMaterial demo_plan)) = 2500" by (simp add: demo_plan_def)
  moreover have "sgFee demo_signed = 2500" "sgTxid demo_signed = demo_txid" "sgNonce demo_signed = 5"
    by (simp_all add: demo_signed_def)
  ultimately show ?thesis
    by (simp add: signature_arrives_def demo_ticking_def monad_defs on_store_def demo_engine_def boot_def
        empty_store_def terminal_run_def tick_signed_def attempts_def child_row_def at_index_def
        attempt_index_of_def insertAttempt_def attempt_txids_def update_child_row_def row_update_def upd snt
        settle_tick_def)
qed

lemma demo_reachable_signing:
  "reachable demo_config (demo_ticking (TickSign (demo_started demo_waiting) 0 demo_plan 5)
     (demo_engine [demo_prep Ready] [demo_started demo_ready]))"
proof -
  note S = reachable_by_run[where C = demo_config]
  note s1 = S[OF reachable.init run_step.Enqueue, of open_control True demo_id demo_request 1, unfolded demo_enqueue]
  note s2 = S[OF s1 run_step.Prepare, of open_control True demo_id 2, unfolded demo_prepare]
  note s3 = S[OF s2 run_step.Facts, of open_control "Inr demo_facts" 3, unfolded demo_facts_arrive]
  note s4 = S[OF s3 run_step.Approve, of open_control demo_id demo_sha 4, unfolded demo_approve]
  note s5 = S[OF s4 run_step.Approved, of 0 "Inr None", unfolded demo_approved]
  note s6 = S[OF s5 run_step.Tick, of open_control 5 5, unfolded demo_tick]
  note s7 = S[OF s6 run_step.Materialized, of open_control "Inr (MatPlan demo_plan (Some 500))" 5, unfolded demo_materialized]
  show ?thesis by (rule S[OF s7 run_step.Refusal, of open_control "Inr None" 5, unfolded demo_refusal])
qed

lemma demo_reachable_submitting:
  "reachable demo_config (demo_ticking demo_submitting (demo_engine [demo_prep Ready] [demo_started demo_sent]))"
  by (rule reachable_by_run[OF demo_reachable_signing run_step.Signature, of "Inr demo_signed" 5, unfolded demo_signature])

lemma transition_snd:
  assumes "run_row s rid = Some r" "rewardRunSchema L r" "rnStatus r \<in> set from"
    "run_checks (apply_patch to now p r)" "rewardRunSchema L (apply_patch to now p r)"
  shows "snd (transition L rid from to now p s) = transitioned rid to now p s"
proof -
  have "snd (requireRun L rid t) = t" for t
    by (simp add: requireRun_def getRun_def monad_defs split: option.splits)
  then show ?thesis
    using assms by (simp add: transition_def ebind_def eatomic_def requireRun_fst bindr_def Let_def transitioned_def upd_run_def)
qed

text \<open>The state reached: the payment is signed and recorded, and its submission is awaited.\<close>

definition demo_state :: engine where
  "demo_state = demo_ticking demo_submitting (demo_engine [demo_prep Ready] [demo_started demo_sent])"

lemma demo_state_reachable: "reachable demo_config demo_state"
  unfolding demo_state_def by (rule demo_reachable_submitting)

lemma demo_state_sel [simp]:
  "stRuns (egStore demo_state) = [demo_started demo_sent]"
  "stLeases (egStore demo_state) = [\<lparr>lsWallet = ''SPW'', lsKind = RewardRunKind, lsId = demo_id, lsAcquiredAt = 3\<rparr>]"
  "stPreps (egStore demo_state) = [demo_prep Ready]" "stSweeps (egStore demo_state) = []"
  "egTick demo_state = Some (demo_id, FromOperator, demo_submitting)"
  "egSent demo_state = [(demo_id, 0, demo_txid)]" "egClosed demo_state = False"
  by (simp_all add: demo_state_def demo_ticking_def demo_engine_def boot_def terminal_run_def demo_signed_def)

lemma demo_sent_sel [simp]:
  "chStatus demo_sent = Materialized" "chAttempts demo_sent = [demo_attempt]" "chAmount demo_sent = Some 500"
  "chOperation demo_sent = ClaimStakerRewards" "chPlan demo_sent = Some demo_plan" "chMaxAmount demo_sent = Some 500"
  by (simp_all add: demo_sent_def demo_child_def)

lemma demo_attempt_sel [simp]:
  "atTxid demo_attempt = demo_txid" "atFee demo_attempt = 2500" "atState demo_attempt = Signed"
  by (simp_all add: demo_attempt_def)

subsection \<open>The operator pauses and cancels while the submission is awaited\<close>

abbreviation demo_paused :: run where
  "demo_paused \<equiv> demo_run Paused (Some 4) (Some 5) 6 demo_sent"

definition demo_later :: "lease list \<Rightarrow> run \<Rightarrow> engine" where
  "demo_later ls r = demo_state\<lparr>egStore := (egStore demo_state)\<lparr>stLeases := ls, stRuns := [r]\<rparr>\<rparr>"

lemma demo_sent_run:
  shows demo_sent_fits: "rewardRunSchema sample_lib (demo_run st appr start t demo_sent)"
    and demo_sent_free: "in_flight (demo_run st appr start t demo_sent) = 0"
    and demo_sent_get: "stRuns s = [demo_run st appr start t demo_sent] \<Longrightarrow>
      serviceGet sample_lib demo_id s = (Inr (demo_run st appr start t demo_sent), s)"
proof -
  have sch: "childSchema demo_sent" by (simp add: demo_sent_def)
  show "rewardRunSchema sample_lib (demo_run st appr start t demo_sent)" by (simp add: sch)
  show "in_flight (demo_run st appr start t demo_sent) = 0" by (simp add: in_flight_def)
  have "sealed_run sample_lib (demo_run st appr start t demo_sent)" by (simp add: demo_sent_def)
  from demo_get(2)[OF _ sch this] show "stRuns s = [demo_run st appr start t demo_sent] \<Longrightarrow>
      serviceGet sample_lib demo_id s = (Inr (demo_run st appr start t demo_sent), s)" by simp
qed

lemma demo_pause:
  "snd (on_store (pause sample_lib demo_id 6) demo_state) = demo_later (stLeases (egStore demo_state)) demo_paused"
proof -
  have pp: "apply_patch Paused 6 no_patch (demo_started demo_sent) = demo_paused"
    by (simp add: apply_patch_def no_patch_def demo_run_def)
  have chk: "run_checks demo_paused" by (simp add: run_checks_def demo_run_def)
  have "snd (pause sample_lib demo_id 6 (egStore demo_state)) = transitioned demo_id Paused 6 no_patch (egStore demo_state)"
    unfolding pause_def
    by (simp add: ebind_def demo_sent_get demo_sent_free eguard_def eret_def)
      (rule transition_snd[where r = "demo_started demo_sent"], simp_all add: run_row_def demo_sent_fits pp chk)
  then show ?thesis
    by (simp add: demo_later_def transitioned_def upd_run_def terminal_run_def row_update_def pp)
qed

abbreviation demo_cancelled :: run where
  "demo_cancelled \<equiv> apply_patch Cancelled 7 (no_patch\<lparr>tpCompletedAt := Some 7\<rparr>) demo_paused"

lemma demo_cancel:
  "snd (on_store (cancel sample_lib demo_id 7) (demo_later (stLeases (egStore demo_state)) demo_paused)) =
   demo_later [] demo_cancelled"
proof -
  let ?s = "egStore (demo_later (stLeases (egStore demo_state)) demo_paused)"
  have chk: "run_checks demo_cancelled" by (simp add: run_checks_def apply_patch_def demo_run_def)
  have fit: "rewardRunSchema sample_lib demo_cancelled"
    using demo_sent_fits[of Paused "Some 4" "Some 5" 6]
    by (simp add: rewardRunSchema_def apply_patch_def in_flight_def)
  have "snd (cancel sample_lib demo_id 7 ?s) =
      transitioned demo_id Cancelled 7 (no_patch\<lparr>tpCompletedAt := Some 7\<rparr>) ?s"
    unfolding cancel_def
    by (simp add: demo_later_def ebind_def demo_sent_get demo_sent_free eguard_def eret_def)
      (rule transition_snd[where r = demo_paused], simp_all add: run_row_def demo_sent_fits chk fit)
  then show ?thesis
    by (simp add: demo_later_def transitioned_def upd_run_def terminal_run_def row_update_def release_run_def
        lease_release_def Let_def)
qed

end
