(* ===== verification/Sweep_Safety.thy ===== *)
theory Sweep_Safety
  imports Store_History
begin

text \<open>
  What happens to a sweep once its transaction was handed to the broadcaster. \<open>sweep_moves\<close> is the
  relation between the sweep tables before and after a stretch of a handler; \<open>sweep_log\<close> is the
  invariant that ties the table to the submissions (\<open>egSweepSent\<close>, and \<open>egSweepLost\<close> for those a crash cut off) and to
  the running approvals.
\<close>

subsection \<open>How a stored sweep may move\<close>

text \<open>
  \<open>approving\<close> is set for the sweep whose approval is running and not yet submitted: its handler
  resolves the sweep without looking at the status again.
\<close>

definition sweep_goes :: "bool \<Rightarrow> sweep_status \<Rightarrow> sweep_status \<Rightarrow> bool" where
  "sweep_goes approving st st' \<longleftrightarrow> st' = st \<or> (st = SwPlanned \<and> st' \<in> {SwCancelled, SwExpired}) \<or>
     (st = SwBroadcast \<and> st' \<in> {SwConfirmed, SwFailed}) \<or> (approving \<and> st' \<in> {SwExpired, SwFailed})"

fun row_move :: "bool \<Rightarrow> sweep option \<Rightarrow> sweep option \<Rightarrow> bool" where
  "row_move b None None \<longleftrightarrow> True"
| "row_move b None (Some g') \<longleftrightarrow> gsStatus g' \<notin> {SwBroadcast, SwConfirmed}"
| "row_move b (Some g) None \<longleftrightarrow> False"
| "row_move b (Some g) (Some g') \<longleftrightarrow>
     gsId g' = gsId g \<and> gsWallet g' = gsWallet g \<and> gsPlan g' = gsPlan g \<and> gsTxid g' = gsTxid g \<and>
     sweep_goes b (gsStatus g) (gsStatus g')"

abbreviation keyed :: "store \<Rightarrow> bool" where
  "keyed s \<equiv> distinct (map gsId (stSweeps s))"

definition sweep_moves :: "string set \<Rightarrow> store \<Rightarrow> store \<Rightarrow> bool" where
  "sweep_moves A s t \<longleftrightarrow> (keyed s \<longrightarrow> keyed t \<and> (\<forall>sid. row_move (sid \<in> A) (sweep_row s sid) (sweep_row t sid)))"

definition moving :: "string set \<Rightarrow> (store, 'e, 'a) eng \<Rightarrow> bool" where
  "moving A m \<longleftrightarrow> (\<forall>s. sweep_moves A s (snd (m s)))"

lemma sweep_goes_trans: "sweep_goes b st st' \<Longrightarrow> sweep_goes b st' st'' \<Longrightarrow> sweep_goes b st st''"
  by (auto simp: sweep_goes_def)

lemma row_move_refl: "row_move b r r"
  by (cases r) (simp_all add: sweep_goes_def)

lemma row_move_trans: "row_move b r r' \<Longrightarrow> row_move b r' r'' \<Longrightarrow> row_move b r r''"
  by (cases r; cases r'; cases r'') (auto intro: sweep_goes_trans simp: sweep_goes_def)

lemma sweep_moves_trans: "sweep_moves A s t \<Longrightarrow> sweep_moves A t u \<Longrightarrow> sweep_moves A s u"
  unfolding sweep_moves_def by (blast intro: row_move_trans)

lemma sweep_moves_same: "stSweeps t = stSweeps s \<Longrightarrow> sweep_moves A s t"
  by (simp add: sweep_moves_def sweep_row_def row_move_refl)

lemma sweep_moves_mono: "sweep_moves {} s t \<Longrightarrow> sweep_moves A s t"
proof -
  have "row_move False r r' \<Longrightarrow> row_move b r r'" for b r r'
    by (cases r; cases r') (auto simp: sweep_goes_def)
  then show "sweep_moves {} s t \<Longrightarrow> sweep_moves A s t" by (auto simp: sweep_moves_def)
qed

lemma movingI: "(\<And>s. keyed s \<Longrightarrow> sweep_moves A s (snd (m s))) \<Longrightarrow> moving A m"
  by (auto simp: moving_def sweep_moves_def)

lemma movingD: "moving A m \<Longrightarrow> sweep_moves A s (snd (m s))"
  by (simp add: moving_def)

lemma moving_unchanged: "(\<And>s. stSweeps (snd (m s)) = stSweeps s) \<Longrightarrow> moving A m"
  by (simp add: moving_def sweep_moves_same)

lemma moving_basic [simp, intro]:
  "moving A (eret a)" "moving A (ethrow e)" "moving A (eguard b e)" "moving A (elift r)" "moving A (eread f)"
  by (rule moving_unchanged, simp add: monad_defs)+

lemma moving_relay [simp]: "moving A (relay m) = moving A m"
  by (simp add: moving_def)

lemma moving_ebind:
  assumes "moving A m" and "\<And>a. moving A (f a)" shows "moving A (ebind m f)"
proof -
  have "sweep_moves A s (snd (ebind m f s))" for s
  proof -
    obtain x t where m: "m s = (x, t)" by fastforce
    with movingD[OF assms(1), of s] have "sweep_moves A s t" by simp
    then show ?thesis
      using movingD[OF assms(2), of t] m by (auto simp: ebind_def intro: sweep_moves_trans split: sum.split)
  qed
  then show ?thesis by (simp add: moving_def)
qed

lemma moving_if: "moving A m \<Longrightarrow> moving A n \<Longrightarrow> moving A (if b then m else n)"
  by simp

lemma moving_option: "moving A m \<Longrightarrow> (\<And>a. moving A (n a)) \<Longrightarrow> moving A (case x of None \<Rightarrow> m | Some a \<Rightarrow> n a)"
  by (cases x) simp_all

lemma moving_ecatch_throw: "moving A m \<Longrightarrow> moving A (ecatch m (\<lambda>e. ethrow (h e)))"
  unfolding moving_def by (auto simp: ecatch_def ethrow_def split: prod.splits sum.splits) (metis snd_conv)+

lemmas moving_rules = moving_ebind moving_if moving_option moving_ecatch_throw moving_basic

lemma moving_reads [simp, intro]:
  "moving A (getSweep L sid)" "moving A (getSweepPlan sid)" "moving A (activeSweep L)" "moving A (listSweeps L limit)"
  "moving A (requireSweep L sid)"
proof -
  show "moving A (requireSweep L sid)"
    unfolding requireSweep_def getSweep_def by (auto intro!: moving_rules)
qed (simp_all add: getSweep_def getSweepPlan_def activeSweep_def listSweeps_def)

subsection \<open>Operations on the table\<close>

lemma wp_written_back:
  "Q t \<Longrightarrow> wp (getSweep L sid) (\<lambda>g. wp (case g of None \<Rightarrow> ethrow e | Some g \<Rightarrow> eret g) (\<lambda>_. Q) Q) Q t"
  by (auto simp: getSweep_def split: option.splits)

lemma updateSweep_table:
  "stSweeps (snd (updateSweep L sid p now s)) = stSweeps s \<or>
   stSweeps (snd (updateSweep L sid p now s)) = row_update gsId sid (apply_sweep_patch p now) (stSweeps s)"
  (is "?Q (snd (updateSweep L sid p now s))")
proof (rule wp_final[where P = ?Q])
  show "wp (updateSweep L sid p now) (\<lambda>_. ?Q) ?Q s"
    unfolding updateSweep_def wp_ebind wp_eatomic
    by (auto intro!: wp_written_back simp: write_sweep_def release_sweep_def)
qed

lemma sweep_row_update:
  "row_find gsId sid' (row_update gsId sid (apply_sweep_patch p now) gs) =
     (if sid' = sid then map_option (apply_sweep_patch p now) (row_find gsId sid' gs) else row_find gsId sid' gs)"
  by (rule row_find_update) simp

lemma updateSweep_moves:
  assumes "\<And>g. sweep_row s sid = Some g \<Longrightarrow> gpTxid p \<in> {None, Some (gsTxid g)} \<and>
      sweep_goes (sid \<in> A) (gsStatus g) (patched (gpStatus p) (gsStatus g))"
  shows "sweep_moves A s (snd (updateSweep L sid p now s))"
  using updateSweep_table[of L sid p now s]
proof
  assume t: "stSweeps (snd (updateSweep L sid p now s)) = row_update gsId sid (apply_sweep_patch p now) (stSweeps s)"
  have "row_move (sid' \<in> A) (sweep_row s sid') (sweep_row (snd (updateSweep L sid p now s)) sid')" for sid'
    using assms unfolding sweep_row_def t sweep_row_update
    by (cases "row_find gsId sid' (stSweeps s)")
      (auto simp: row_move_refl apply_sweep_patch_def patched_def)
  then show ?thesis by (simp add: sweep_moves_def t row_update_keys)
qed (rule sweep_moves_same)

lemma insertSweep_moving [simp, intro]: "moving A (insertSweep L sid w p now)"
proof (rule movingI)
  fix s assume k: "keyed s"
  let ?t = "snd (insertSweep L sid w p now s)"
  let ?Q = "\<lambda>t. stSweeps t = stSweeps s \<or>
      (sweep_row s sid = None \<and> stSweeps t = stSweeps s @ [fresh_sweep sid w p now])"
  have "wp (insertSweep L sid w p now) (\<lambda>_. ?Q) ?Q s"
    unfolding insertSweep_def wp_ebind wp_eguard wp_eatomic
    by (auto intro!: wp_written_back split: option.split)
  from wp_final[OF this] have "stSweeps ?t = stSweeps s \<or>
      (sweep_row s sid = None \<and> stSweeps ?t = stSweeps s @ [fresh_sweep sid w p now])" .
  then show "sweep_moves A s ?t"
  proof
    assume new: "sweep_row s sid = None \<and> stSweeps ?t = stSweeps s @ [fresh_sweep sid w p now]"
    have "row_move (sid' \<in> A) (sweep_row s sid') (sweep_row ?t sid')" for sid'
      using new by (cases "sweep_row s sid'") (auto simp: sweep_row_def row_find_append fresh_sweep_def row_move_refl)
    moreover have "keyed ?t" using new k by (simp add: sweep_row_def row_find_None_iff fresh_sweep_def)
    ultimately show ?thesis by (simp add: sweep_moves_def)
  qed (rule sweep_moves_same)
qed

text \<open>A handler that reads the row it then updates.\<close>

lemma requireSweep_at:
  "requireSweep L sid s = (case sweep_row s sid of
       None \<Rightarrow> (Inl (GasWalletError SweepNotFound (''Sweep '' @ sid @ '' does not exist'')), s)
     | Some g \<Rightarrow> (if sweepRowSchema L g then Inr g else Inl (StoreError (OtherError ''ZodError'')), s))"
  by (simp add: requireSweep_def ebind_def relay_def getSweep_def eread_def eret_def ethrow_def split: option.split)

lemma moving_require:
  assumes "\<And>g s. sweep_row s sid = Some g \<Longrightarrow> sweep_moves A s (snd (f g s))"
  shows "moving A (ebind (requireSweep L sid) f)"
  using assms by (auto simp: moving_def ebind_def requireSweep_at sweep_moves_same split: option.split)

lemma resolveSweep_moves:
  assumes "\<And>g. sweep_row s sid = Some g \<Longrightarrow> sweep_goes (sid \<in> A) (gsStatus g) st"
  shows "sweep_moves A s (snd (resolveSweep L sid st now reason s))"
  unfolding resolveSweep_def relay_snd
  by (rule updateSweep_moves) (use assms in \<open>auto simp: resolved_patch_def no_sweep_patch_def patched_def\<close>)

lemma resolveSweep_moving [intro]: "sid \<in> A \<Longrightarrow> st \<in> {SwExpired, SwFailed} \<Longrightarrow> moving A (resolveSweep L sid st now reason)"
  by (rule movingI, rule resolveSweep_moves) (simp add: sweep_goes_def)

subsection \<open>The stretches of the handlers\<close>

lemma active_row:
  assumes "keyed s" and "activeSweep L s = (Inr (Some g), t)" shows "sweep_row s (gsId g) = Some g" and "t = s"
proof -
  let ?xs = "filter (\<lambda>g. gsStatus g \<in> {SwPlanned, SwBroadcast}) (stSweeps s)"
  obtain gs where "sort_by (\<lambda>a b. gsCreated b \<le> gsCreated a) ?xs = g # gs"
    using assms(2) by (auto simp: activeSweep_def eread_def read_sweep_def split: list.splits if_splits)
  then have "g \<in> set (sort_by (\<lambda>a b. gsCreated b \<le> gsCreated a) ?xs)" by simp
  then have "g \<in> set (stSweeps s)" by simp
  with assms(1) show "sweep_row s (gsId g) = Some g" by (simp add: sweep_row_def row_find_unique)
  show "t = s" using assms(2) by (simp add: activeSweep_def eread_def)
qed

lemma expirePlanned_moving [intro]: "moving A (expirePlannedSweeps L now)"
proof (rule movingI)
  fix s assume k: "keyed s"
  have e: "sweep_moves A s u"
    if "activeSweep L s = (Inr (Some g), t)" "gsStatus g = SwPlanned"
      "resolveSweep L (gsId g) SwExpired now reason s = (v, u)" for g t v u reason
    using resolveSweep_moves[of s "gsId g" A SwExpired L now reason] active_row[OF k that(1)] that(2,3)
    by (simp add: sweep_goes_def)
  have "t = s" if "activeSweep L s = (v, t)" for v t
    using that by (simp add: activeSweep_def eread_def)
  then show "sweep_moves A s (snd (expirePlannedSweeps L now s))"
    by (cases "activeSweep L s")
      (auto simp: expirePlannedSweeps_def ebind_def relay_def eret_def sweep_moves_same intro: e split: sum.split
        option.split prod.split)
qed

lemma prepareSweep_moving:
  "moving A (prepareSweep_start L wallet jobs connection now)"
  "moving A (prepareSweep_finish L C w sid recipient tip account est now)"
proof -
  have "moving A (requireNoActiveWork L jobs now)"
    unfolding requireNoActiveWork_def by (auto intro!: moving_rules)
  then show "moving A (prepareSweep_start L wallet jobs connection now)"
    unfolding prepareSweep_start_def by (auto intro!: moving_rules)
  show "moving A (prepareSweep_finish L C w sid recipient tip account est now)"
    unfolding prepareSweep_finish_def by (auto intro!: moving_rules split: prod.split)
qed

lemma eguard_moves:
  "(b \<Longrightarrow> sweep_moves A s (snd (m s))) \<Longrightarrow> sweep_moves A s (snd (ebind (eguard b e) (\<lambda>_. m) s))"
  by (simp add: ebind_def eguard_def sweep_moves_same)

lemma then_moves:
  "sweep_moves A s (snd (m s)) \<Longrightarrow> (\<And>a. moving A (f a)) \<Longrightarrow> sweep_moves A s (snd (ebind m f s))"
  by (cases "m s") (auto simp: ebind_def moving_def intro: sweep_moves_trans split: sum.split)

lemma current_moving [intro]: "moving A (assertSweepApprovalCurrent L sid at)"
  unfolding assertSweepApprovalCurrent_def by (auto intro!: moving_rules)

lemma approveSweep_start_moving: "moving A (approveSweep_start L engine ready jobs sid now)"
proof -
  let ?rest = "\<lambda>g. ebind (eguard (gsStatus g = SwPlanned) (GasWalletError SweepState (''Sweep '' @ sid @ '' is '' @
       sweep_status_text (gsStatus g) @ ''; only a planned sweep can be approved''))) (\<lambda>_.
     if gsExpires g \<le> now
     then ebind (resolveSweep L sid SwExpired now (Some ''Approval window elapsed'')) (\<lambda>_.
          ethrow (GasWalletError SweepExpired ''The sweep approval window elapsed; prepare the sweep again''))
     else ebind (eguard (\<not> 0 < jobs) run_still_executing) (\<lambda>_. eret (AwaitRefusal g now)))"
  have r: "moving A (ebind (requireSweep L sid) ?rest)"
  proof (rule moving_require, rule eguard_moves)
    fix g s assume g: "sweep_row s sid = Some g" and p: "gsStatus g = SwPlanned"
    have "sweep_moves A s (snd (ebind (resolveSweep L sid SwExpired now (Some ''Approval window elapsed'')) (\<lambda>_.
        (ethrow (GasWalletError SweepExpired
          ''The sweep approval window elapsed; prepare the sweep again'') :: sweep_pc sop)) s))"
      by (rule then_moves, rule resolveSweep_moves) (use g p in \<open>auto simp: sweep_goes_def\<close>)
    moreover have "sweep_moves A s (snd (ebind (eguard (\<not> 0 < jobs) run_still_executing) (\<lambda>_. eret (AwaitRefusal g now)) s))"
      by (rule eguard_moves) (simp add: eret_def sweep_moves_same)
    ultimately show "sweep_moves A s (snd ((if gsExpires g \<le> now
     then ebind (resolveSweep L sid SwExpired now (Some ''Approval window elapsed'')) (\<lambda>_.
          ethrow (GasWalletError SweepExpired ''The sweep approval window elapsed; prepare the sweep again''))
     else ebind (eguard (\<not> 0 < jobs) run_still_executing) (\<lambda>_. eret (AwaitRefusal g now))) s))" by simp
  qed
  show ?thesis unfolding approveSweep_start_def by (intro moving_ebind[OF moving_basic(3)] r)
qed

lemma approveSweep_moving:
  "moving A (approveSweep_refusal sid g now refusal connection)"
  "sid \<in> A \<Longrightarrow> moving A (approveSweep_account L sid plan now at account)"
proof -
  show "moving A (approveSweep_refusal sid g now refusal connection)"
    unfolding approveSweep_refusal_def by (auto intro!: moving_rules)
  show "sid \<in> A \<Longrightarrow> moving A (approveSweep_account L sid plan now at account)"
    unfolding approveSweep_account_def Let_def by (auto intro!: moving_rules split: prod.split)
qed

lemma cancelSweep_moving: "moving A (cancelSweep L sid now)"
  unfolding cancelSweep_def
  by (rule moving_require, rule eguard_moves, rule resolveSweep_moves) (simp add: sweep_goes_def)

lemma refreshSweep_start_moving: "moving A (refreshSweep_start L sid now)"
  unfolding refreshSweep_start_def
proof (rule moving_require)
  fix g s assume g: "sweep_row s sid = Some g"
  obtain v t where r: "resolveSweep L sid SwExpired now (Some ''Approval window elapsed'') s = (v, t)" by fastforce
  have "sweep_moves A s t" if "gsStatus g = SwPlanned"
    using resolveSweep_moves[of s sid A SwExpired L now "Some ''Approval window elapsed''"] g that r
    by (simp add: sweep_goes_def)
  then show "sweep_moves A s (snd ((if gsStatus g = SwPlanned \<and> gsExpires g \<le> now
       then ebind (resolveSweep L sid SwExpired now (Some ''Approval window elapsed'')) (\<lambda>g'. eret (RefreshDone g' False))
       else if gsStatus g \<noteq> SwBroadcast \<or> gsTxid g = None then eret (RefreshDone g False)
       else eret (AwaitOutcome g now)) s))"
    by (auto simp: ebind_def r eret_def sweep_moves_same split: sum.split)
qed

text \<open>An update of a broadcast sweep that keeps its transaction id and does not end its observation otherwise.\<close>

lemma broadcast_update_moves:
  assumes "sweep_row s sid = Some g" and "gsStatus g = SwBroadcast" and "gpTxid p \<in> {None, Some (gsTxid g)}"
    and "gpStatus p \<in> {None, Some SwBroadcast, Some SwConfirmed, Some SwFailed}"
  shows "sweep_moves A s (snd (relay (updateSweep L sid p now) s))"
  unfolding relay_snd
  by (rule updateSweep_moves) (use assms in \<open>auto simp: sweep_goes_def patched_def\<close>)

lemma refreshSweep_outcome_moving: "moving A (refreshSweep_outcome L sid g now outcome seen)"
proof (cases outcome)
  case (OutcomeConfirmed success repr height src)
  show ?thesis
    unfolding refreshSweep_outcome_def OutcomeConfirmed submitted_outcome.case
  proof (rule moving_require)
    fix g s assume g: "sweep_row s sid = Some g"
    have "sweep_moves A s (snd (ebind (relay (updateSweep L sid (outcome_patch success repr height src now) now)) (\<lambda>g'.
        (eret (g', False) :: (sweep \<times> bool) sop)) s))" if "gsStatus g = SwBroadcast"
      by (rule then_moves, rule broadcast_update_moves[OF g that])
        (auto simp: outcome_patch_def no_sweep_patch_def)
    then show "sweep_moves A s (snd ((if gsStatus g \<noteq> SwBroadcast then eret (g, False)
         else ebind (relay (updateSweep L sid (outcome_patch success repr height src now) now)) (\<lambda>g'.
              eret (g', False))) s))"
      by (simp add: eret_def sweep_moves_same)
  qed
next
  case (OutcomeConflict reason)
  have "moving A (recordSweepConflict L sid reason now)"
    unfolding recordSweepConflict_def
  proof (rule moving_require)
    fix g s assume g: "sweep_row s sid = Some g"
    show "sweep_moves A s (snd ((if gsStatus g \<noteq> SwBroadcast then eret g
       else relay (updateSweep L sid (no_sweep_patch\<lparr>gpFailure := Some (Some (reason @
            ''. Wallet authorization retained; do not repeat this sweep''))\<rparr>) now)) s))"
      using broadcast_update_moves[OF g] by (simp add: eret_def sweep_moves_same no_sweep_patch_def)
  qed
  then show ?thesis unfolding refreshSweep_outcome_def OutcomeConflict by (auto intro!: moving_rules)
next
  case (OutcomePending later after)
  then show ?thesis unfolding refreshSweep_outcome_def by (auto intro!: moving_rules)
qed

lemma approveSweep_broadcasted_moves:
  assumes "\<And>g. sweep_row s sid = Some g \<Longrightarrow> gsTxid g = Some (sgTxid sg)"
  shows "sweep_moves A s (snd (approveSweep_broadcasted L sid sg at v s))"
proof (cases "sweep_row s sid")
  case (Some g)
  let ?out = "\<lambda>r. case r of
       BRejected _ _ _ msg \<Rightarrow> relay (updateSweep L sid (rejected_patch sg at msg) at)
     | BAccepted _ _ \<Rightarrow> relay (updateSweep L sid (accepted_patch sg False) at)
     | BAmbiguous _ _ _ _ \<Rightarrow> relay (updateSweep L sid (accepted_patch sg True) at)"
  have "sweep_moves A s (snd (?out r s))" if "gsStatus g = SwBroadcast" for r
    using broadcast_update_moves[OF Some that] assms[OF Some]
    by (cases r) (auto simp: rejected_patch_def accepted_patch_def no_sweep_patch_def simp del: relay_snd)
  then show ?thesis
    using Some
    by (auto simp: approveSweep_broadcasted_def requireSweep_at ebind_def eret_def sweep_moves_same simp del: relay_snd)
qed (simp add: approveSweep_broadcasted_def requireSweep_at ebind_def sweep_moves_same)

text \<open>
  The stretch that records the transaction before it is submitted. It hands a transaction over only
  after the row was planned, and is broadcast under the transaction's id.
\<close>

definition submitted_row :: "signed_attempt \<Rightarrow> instant \<Rightarrow> sweep \<Rightarrow> sweep" where
  "submitted_row sg at = apply_sweep_patch (submitted_patch sg at) at"

lemma submitted_row_fields [simp]:
  "gsStatus (submitted_row sg at g) = SwBroadcast" "gsTxid (submitted_row sg at g) = Some (sgTxid sg)"
  "gsId (submitted_row sg at g) = gsId g" "gsWallet (submitted_row sg at g) = gsWallet g"
  "gsPlan (submitted_row sg at g) = gsPlan g" "gsApprovedAt (submitted_row sg at g) = Some at"
  by (simp_all add: submitted_row_def apply_sweep_patch_def submitted_patch_def patched_def no_sweep_patch_def)

definition submission_written :: "string \<Rightarrow> signed_attempt \<Rightarrow> instant \<Rightarrow> store \<Rightarrow> store \<Rightarrow> bool" where
  "submission_written sid sg at s t \<longleftrightarrow> stSweeps t = row_update gsId sid (submitted_row sg at) (stSweeps s)"

lemma wp_submit:
  assumes g: "sweep_row s sid = Some g" and m: "sweep_moves {sid} s s"
  shows "wp (relay (updateSweep L sid (submitted_patch sg at) at)) (\<lambda>_. submission_written sid sg at s)
    (\<lambda>t. sweep_moves {sid} s t \<or> (submission_written sid sg at s t \<and> \<not> sweepRowSchema L (submitted_row sg at g))) s"
proof -
  have row: "sweep_row (write_sweep sid (submitted_patch sg at) at s) sid = Some (submitted_row sg at g)"
    using g by (simp add: sweep_row_def write_sweep_def sweep_row_update submitted_row_def)
  have "\<not> patch_terminal (submitted_patch sg at)"
    by (simp add: patch_terminal_def submitted_patch_def no_sweep_patch_def sweep_terminal_def)
  then show ?thesis
    using row m
    by (auto simp: wp_def relay_def updateSweep_def ebind_def eatomic_def getSweep_def eread_def eret_def
        submission_written_def write_sweep_def submitted_row_def)
qed

lemma approveSweep_signed_effect:
  "wp (approveSweep_signed L sid now at v)
     (\<lambda>pc t. \<exists>sg g. v = Inr sg \<and> pc = AwaitBroadcast sg \<and> sweep_row s sid = Some g \<and> gsStatus g = SwPlanned \<and>
        submission_written sid sg at s t)
     (\<lambda>t. sweep_moves {sid} s t \<or> (\<exists>sg g. v = Inr sg \<and> sweep_row s sid = Some g \<and> gsStatus g = SwPlanned \<and>
        submission_written sid sg at s t \<and> \<not> sweepRowSchema L (submitted_row sg at g))) s"
proof (cases v)
  case (Inl m)
  have "sweep_moves {sid} s (snd (resolveSweep L sid SwFailed now reason s))" for reason
    using resolveSweep_moves[of s sid "{sid}" SwFailed] by (simp add: sweep_goes_def)
  then show ?thesis
    unfolding Inl approveSweep_signed_def sum.case
    by (auto simp: wp_def ebind_def ethrow_def split: prod.splits sum.splits) (metis snd_conv)+
next
  case (Inr sg)
  have m: "sweep_moves {sid} s s" by (simp add: sweep_moves_same)
  show ?thesis
  proof (cases "sweep_row s sid")
    case (Some g)
    then show ?thesis
      using m wp_mono[OF wp_submit[OF Some m, of L sg at]]
      unfolding Inr approveSweep_signed_def sum.case assertSweepApprovalCurrent_def
      by (cases "sweepRowSchema L g \<and> gsStatus g = SwPlanned \<and> \<not> gsExpires g \<le> at")
        (auto simp: wp_def ebind_def eguard_def eret_def requireSweep_at split: prod.splits sum.splits)
  qed (use m Inr in \<open>simp add: wp_def approveSweep_signed_def assertSweepApprovalCurrent_def ebind_def requireSweep_at\<close>)
qed

subsection \<open>The log of submissions\<close>

text \<open>The sweeps handed over, and those a crash cut off after their row was written.\<close>

definition submissions :: "engine \<Rightarrow> (string \<times> txid) list" where
  "submissions e = egSweepSent e @ egSweepLost e"

lemma submissions_fields [simp]:
  "submissions (e\<lparr>egStore := s\<rparr>) = submissions e" "submissions (e\<lparr>egSweepApprovals := sa\<rparr>) = submissions e"
  "submissions (e\<lparr>egSweepPreps := sp\<rparr>) = submissions e" "submissions (e\<lparr>egRefreshes := sr\<rparr>) = submissions e"
  "submissions (e\<lparr>egSweepCadence := sc\<rparr>) = submissions e"
  by (simp_all add: submissions_def)

lemma submissions_sent [simp]:
  "set (submissions (e\<lparr>egSweepSent := egSweepSent e @ [x]\<rparr>)) = insert x (set (submissions e))"
  "distinct (map fst (submissions (e\<lparr>egSweepSent := egSweepSent e @ [x]\<rparr>))) \<longleftrightarrow>
     fst x \<notin> fst ` set (submissions e) \<and> distinct (map fst (submissions e))"
  by (auto simp: submissions_def)

definition approval_known :: "(string \<times> txid) list \<Rightarrow> string \<Rightarrow> sweep_pc \<Rightarrow> bool" where
  "approval_known sent sid pc \<longleftrightarrow> (case pc of AwaitBroadcast sg \<Rightarrow> (sid, sgTxid sg) \<in> set sent | _ \<Rightarrow> sid \<notin> fst ` set sent)"

definition submitted_rows :: "(string \<times> txid) list \<Rightarrow> store \<Rightarrow> bool" where
  "submitted_rows sent s \<longleftrightarrow> (\<forall>(sid, t) \<in> set sent. \<exists>g. sweep_row s sid = Some g \<and> gsTxid g = Some t \<and>
     gsStatus g \<in> {SwBroadcast, SwConfirmed, SwFailed})"

definition rows_submitted :: "tx_lib \<Rightarrow> (string \<times> txid) list \<Rightarrow> store \<Rightarrow> bool" where
  "rows_submitted L sent s \<longleftrightarrow> (\<forall>sid g. sweep_row s sid = Some g \<and> sweepRowSchema L g \<and>
     gsStatus g \<in> {SwBroadcast, SwConfirmed} \<longrightarrow> sid \<in> fst ` set sent)"

definition sweep_log :: "tx_lib \<Rightarrow> engine \<Rightarrow> bool" where
  "sweep_log L e \<longleftrightarrow> keyed (egStore e) \<and> distinct (map fst (submissions e)) \<and>
     submitted_rows (submissions e) (egStore e) \<and> rows_submitted L (submissions e) (egStore e) \<and>
     (\<forall>sid pc. egSweepApprovals e sid = Some pc \<longrightarrow> approval_known (submissions e) sid pc)"

lemma row_move_schema:
  "row_move b (Some g) (Some g') \<Longrightarrow> sweepRowSchema L g' = sweepRowSchema L g"
  by (simp add: sweepRowSchema_def)

lemma log_tables:
  assumes "keyed s" and "sweep_moves A s t" and "submitted_rows sent s" and "rows_submitted L sent s"
    and "\<And>sid. sid \<in> A \<Longrightarrow> sid \<notin> fst ` set sent"
  shows "keyed t" and "submitted_rows sent t" and "rows_submitted L sent t"
proof -
  have m: "row_move (sid \<in> A) (sweep_row s sid) (sweep_row t sid)" for sid
    using assms(1,2) by (simp add: sweep_moves_def)
  show "keyed t" using assms(1,2) by (simp add: sweep_moves_def)
  show "submitted_rows sent t"
    unfolding submitted_rows_def
  proof (intro ballI, clarify)
    fix sid x assume x: "(sid, x) \<in> set sent"
    then have "sid \<notin> A" using assms(5) by force
    moreover from x assms(3) obtain g where "sweep_row s sid = Some g" "gsTxid g = Some x"
      "gsStatus g \<in> {SwBroadcast, SwConfirmed, SwFailed}"
      by (auto simp: submitted_rows_def)
    ultimately show "\<exists>g. sweep_row t sid = Some g \<and> gsTxid g = Some x \<and>
        gsStatus g \<in> {SwBroadcast, SwConfirmed, SwFailed}"
      using m[of sid] by (cases "sweep_row t sid") (auto simp: sweep_goes_def)
  qed
  show "rows_submitted L sent t"
    unfolding rows_submitted_def
  proof (intro allI impI, elim conjE)
    fix sid g' assume g': "sweep_row t sid = Some g'" "sweepRowSchema L g'" "gsStatus g' \<in> {SwBroadcast, SwConfirmed}"
    then obtain g where g: "sweep_row s sid = Some g" using m[of sid] by (cases "sweep_row s sid") auto
    have mv: "row_move (sid \<in> A) (Some g) (Some g')" using m[of sid] g g'(1) by simp
    then have "gsStatus g \<in> {SwBroadcast, SwConfirmed}" using g'(3) by (auto simp: sweep_goes_def)
    moreover have "sweepRowSchema L g" using row_move_schema[OF mv] g'(2) by blast
    ultimately show "sid \<in> fst ` set sent" using g assms(4) unfolding rows_submitted_def by blast
  qed
qed

text \<open>An event that submits nothing.\<close>

lemma sweep_log_quiet:
  assumes "sweep_log L e" and "sweep_moves A (egStore e) (egStore e')" and "submissions e' = submissions e"
    and "\<And>sid. sid \<in> A \<Longrightarrow> sid \<notin> fst ` set (submissions e)"
    and "\<And>sid pc. egSweepApprovals e' sid = Some pc \<Longrightarrow> egSweepApprovals e sid = Some pc \<or>
      approval_known (submissions e) sid pc"
  shows "sweep_log L e'"
  using assms log_tables[OF _ assms(2)] unfolding sweep_log_def by simp blast

lemma sweep_log_settle:
  assumes log: "sweep_log L e" and mv: "moving {sid} m"
    and new: "sid \<notin> fst ` set (submissions e)"
    and pc: "\<And>pc sg. fst (m (egStore e)) = Inr pc \<Longrightarrow> pc \<noteq> AwaitBroadcast sg"
  shows "sweep_log L (settle_approval sid (on_store m e))"
proof -
  obtain x t where mx: "m (egStore e) = (x, t)" by fastforce
  note m = movingD[OF mv, of "egStore e"]
  show ?thesis
  proof (cases x)
    case (Inl err)
    then have "settle_approval sid (on_store m e) = e\<lparr>egStore := t, egSweepApprovals := (egSweepApprovals e)(sid := None)\<rparr>"
      by (simp add: settle_approval_def on_store_def mx)
    moreover have "sweep_log L (e\<lparr>egStore := t, egSweepApprovals := (egSweepApprovals e)(sid := None)\<rparr>)"
      by (rule sweep_log_quiet[OF log, of "{sid}"]) (use m mx new in \<open>simp_all split: if_splits\<close>)
    ultimately show ?thesis by simp
  next
    case (Inr pc)
    then have "\<And>sg. pc \<noteq> AwaitBroadcast sg" using assms(4) mx by simp
    then have "sweep_sent_by sid pc = []" and known: "approval_known (submissions e) sid pc"
      using new by (cases pc; simp add: approval_known_def)+
    with Inr have "settle_approval sid (on_store m e) = e\<lparr>egStore := t, egSweepApprovals := (egSweepApprovals e)(sid \<mapsto> pc)\<rparr>"
      by (simp add: settle_approval_def on_store_def mx)
    moreover have "sweep_log L (e\<lparr>egStore := t, egSweepApprovals := (egSweepApprovals e)(sid \<mapsto> pc)\<rparr>)"
      by (rule sweep_log_quiet[OF log, of "{sid}"]) (use m mx new known in \<open>simp_all split: if_splits\<close>)
    ultimately show ?thesis by simp
  qed
qed

lemma planned_unsent: "sweep_log L e \<Longrightarrow> sweep_row (egStore e) sid = Some g \<Longrightarrow> gsStatus g = SwPlanned \<Longrightarrow>
    sid \<notin> fst ` set (submissions e)"
  by (force simp: sweep_log_def submitted_rows_def)

subsection \<open>Every event keeps the log\<close>

lemma sweep_log_fields [simp]:
  "sweep_log L (e\<lparr>egSweepPreps := sp\<rparr>) = sweep_log L e" "sweep_log L (e\<lparr>egRefreshes := sr\<rparr>) = sweep_log L e"
  "sweep_log L (e\<lparr>egSweepCadence := sc\<rparr>) = sweep_log L e" "sweep_log L (settle_refresh sid later now e) = sweep_log L e"
  by (simp_all add: sweep_log_def settle_refresh_def)

lemma sweep_log_store:
  assumes "sweep_log L e" and "moving {} m" and "on_store m e = (v, e')" shows "sweep_log L e'"
proof -
  have e': "e' = e\<lparr>egStore := snd (m (egStore e))\<rparr>" using on_store_snd[of m e] assms(3) by simp
  show ?thesis unfolding e' by (rule sweep_log_quiet[OF assms(1), of "{}"]) (simp_all add: movingD[OF assms(2)])
qed

lemma approve_log: "sweep_log (cfLib C) e \<Longrightarrow> sweep_log (cfLib C) (sweep_approve C engine ready jobs sid now e)"
proof (cases "egSweepApprovals e sid")
  case None
  assume log: "sweep_log (cfLib C) e"
  let ?m = "approveSweep_start (cfLib C) engine ready jobs sid now"
  note m0 = approveSweep_start_moving[of "{}" "cfLib C" engine ready jobs sid now, THEN movingD]
  have new: "\<exists>g. pc = AwaitRefusal g now \<and> sweep_row (egStore e) sid = Some g \<and> gsStatus g = SwPlanned"
    if "fst (?m (egStore e)) = Inr pc" for pc
    using that by (auto simp: approveSweep_start_def ebind_def eguard_def eret_def ethrow_def requireSweep_at
        split: option.splits if_splits sum.splits prod.splits)
  have "sweep_log (cfLib C) (settle_approval sid (on_store ?m e))"
  proof (cases "fst (?m (egStore e))")
    case (Inl err)
    obtain t where t: "?m (egStore e) = (Inl err, t)" using Inl by (metis prod.collapse)
    have "sweep_log (cfLib C) (e\<lparr>egStore := t, egSweepApprovals := (egSweepApprovals e)(sid := None)\<rparr>)"
      by (rule sweep_log_quiet[OF log, of "{}"]) (use m0[of "egStore e"] t in \<open>simp_all split: if_splits\<close>)
    then show ?thesis by (simp add: settle_approval_def on_store_def t)
  next
    case (Inr pc)
    from new[OF Inr] planned_unsent[OF log] have "sid \<notin> fst ` set (submissions e)" by blast
    then show ?thesis by (rule sweep_log_settle[OF log approveSweep_start_moving]) (use new in auto)
  qed
  then show ?thesis by (simp add: sweep_approve_def None)
qed (simp add: sweep_approve_def)

lemma unsent_approval:
  assumes "sweep_log L e" and "egSweepApprovals e sid = Some pc" and "\<And>sg. pc \<noteq> AwaitBroadcast sg"
  shows "sid \<notin> fst ` set (submissions e)"
proof -
  have "approval_known (submissions e) sid pc" using assms(1,2) by (simp add: sweep_log_def)
  then show ?thesis using assms(3) by (cases pc) (auto simp: approval_known_def)
qed

lemma refusal_log: "sweep_log (cfLib C) e \<Longrightarrow> sweep_log (cfLib C) (sweep_refusal_arrives C sid refusal connection e)"
proof -
  assume log: "sweep_log (cfLib C) e"
  have "sweep_log (cfLib C) (settle_approval sid (on_store (approveSweep_refusal sid g now refusal connection) e))"
    if "egSweepApprovals e sid = Some (AwaitRefusal g now)" for g now
    by (rule sweep_log_settle[OF log approveSweep_moving(1) unsent_approval[OF log that]])
      (auto simp: approveSweep_refusal_def ebind_def elift_def eret_def ethrow_def split: option.splits sum.splits prod.splits)
  with log show ?thesis by (auto simp: sweep_refusal_arrives_def split: option.split sweep_pc.split)
qed

lemma account_log: "sweep_log (cfLib C) e \<Longrightarrow> sweep_log (cfLib C) (sweep_account_arrives C sid acc at e)"
proof -
  assume log: "sweep_log (cfLib C) e"
  have "sweep_log (cfLib C) (settle_approval sid (on_store (ebind (elift acc) (approveSweep_account (cfLib C) sid plan now at)) e))"
    if "egSweepApprovals e sid = Some (AwaitAccount g plan now)" for g plan now
    by (rule sweep_log_settle[OF log moving_ebind[OF moving_basic(4) approveSweep_moving(2)]
          unsent_approval[OF log that]])
      (auto simp: approveSweep_account_def Let_def ebind_def elift_def eret_def ethrow_def
        split: option.splits sum.splits prod.splits if_splits)
  with log show ?thesis by (auto simp: sweep_account_arrives_def split: option.split sweep_pc.split)
qed

text \<open>Recording the transaction: the row of the sweep is broadcast under its id, the others are untouched.\<close>

lemma submission_row:
  assumes "submission_written sid sg at s t"
  shows "sweep_row t sid' = (if sid' = sid then map_option (submitted_row sg at) (sweep_row s sid') else sweep_row s sid')"
    and "keyed s \<Longrightarrow> keyed t"
  using assms row_find_update[of gsId "submitted_row sg at" sid' sid "stSweeps s"]
    row_update_keys[of gsId "submitted_row sg at" sid "stSweeps s"]
  by (simp_all add: submission_written_def sweep_row_def)

lemma signature_log: "sweep_log (cfLib C) e \<Longrightarrow> sweep_log (cfLib C) (sweep_signature_arrives C sid v at e)"
proof -
  let ?L = "cfLib C"
  assume log: "sweep_log ?L e"
  have "sweep_log ?L (settle_approval sid (on_store (approveSweep_signed ?L sid now at v) e))"
    if a: "egSweepApprovals e sid = Some (AwaitSignature plan now)" for plan now
  proof -
    obtain x t where m: "approveSweep_signed ?L sid now at v (egStore e) = (x, t)" by fastforce
    note eff = approveSweep_signed_effect[of ?L sid now at v "egStore e", unfolded wp_def m prod.case]
    have new: "sid \<notin> fst ` set (submissions e)" by (rule unsent_approval[OF log a]) simp
    have old: "keyed (egStore e)" "submitted_rows (submissions e) (egStore e)" "rows_submitted ?L (submissions e) (egStore e)"
      using log by (simp_all add: sweep_log_def)
    have rows: "submitted_rows (submissions e) t" if "submission_written sid sg at (egStore e) t" for sg
      unfolding submitted_rows_def submission_row(1)[OF that] using old(2) new by (force simp: submitted_rows_def)
    show ?thesis
    proof (cases x)
      case (Inl err)
      have s: "settle_approval sid (on_store (approveSweep_signed ?L sid now at v) e) =
          e\<lparr>egStore := t, egSweepApprovals := (egSweepApprovals e)(sid := None)\<rparr>"
        by (simp add: settle_approval_def on_store_def m Inl)
      from eff Inl consider "sweep_moves {sid} (egStore e) t"
        | sg g where "sweep_row (egStore e) sid = Some g" "submission_written sid sg at (egStore e) t"
          "\<not> sweepRowSchema ?L (submitted_row sg at g)" by auto
      then show ?thesis
      proof cases
        case 1
        show ?thesis unfolding s
          by (rule sweep_log_quiet[OF log, of "{sid}"]) (use 1 new in \<open>simp_all split: if_splits\<close>)
      next
        case (2 sg g)
        have "rows_submitted ?L (submissions e) t"
          unfolding rows_submitted_def submission_row(1)[OF 2(2)] using 2(1,3) old(3) by (auto simp: rows_submitted_def)
        then show ?thesis unfolding s
          using log rows[OF 2(2)] submission_row(2)[OF 2(2) old(1)] by (auto simp: sweep_log_def split: if_splits)
      qed
    next
      case (Inr pc)
      then obtain sg g where e: "pc = AwaitBroadcast sg" "sweep_row (egStore e) sid = Some g"
        "submission_written sid sg at (egStore e) t" using eff by auto
      let ?e = "e\<lparr>egSweepSent := egSweepSent e @ [(sid, sgTxid sg)]\<rparr>"
      have s: "settle_approval sid (on_store (approveSweep_signed ?L sid now at v) e) =
          ?e\<lparr>egStore := t, egSweepApprovals := (egSweepApprovals e)(sid \<mapsto> pc)\<rparr>"
        by (simp add: settle_approval_def on_store_def m Inr e(1))
      have "submitted_rows (submissions ?e) t"
        using rows[OF e(3)] e(2) submission_row(1)[OF e(3), of sid] by (auto simp: submitted_rows_def)
      moreover have "rows_submitted ?L (submissions ?e) t"
        using old(3) unfolding rows_submitted_def submission_row(1)[OF e(3)] by auto
      moreover have "approval_known (submissions ?e) sid' pc'"
        if "((egSweepApprovals e)(sid \<mapsto> pc)) sid' = Some pc'" for sid' pc'
      proof (cases "sid' = sid")
        case True
        with that e(1) show ?thesis by (auto simp: approval_known_def)
      next
        case False
        with that log have "approval_known (submissions e) sid' pc'" by (simp add: sweep_log_def)
        with False show ?thesis by (cases pc') (simp_all add: approval_known_def)
      qed
      ultimately show ?thesis unfolding s
        using log new submission_row(2)[OF e(3) old(1)] by (simp add: sweep_log_def)
    qed
  qed
  with log show ?thesis by (auto simp: sweep_signature_arrives_def split: option.split sweep_pc.split)
qed

lemma broadcast_log: "sweep_log (cfLib C) e \<Longrightarrow> sweep_log (cfLib C) (sweep_broadcast_arrives C sid v at e)"
proof -
  assume log: "sweep_log (cfLib C) e"
  have "sweep_log (cfLib C) (e\<lparr>egSweepApprovals := (egSweepApprovals e)(sid := None),
      egStore := snd (approveSweep_broadcasted (cfLib C) sid sg at v (egStore e))\<rparr>)"
    if a: "egSweepApprovals e sid = Some (AwaitBroadcast sg)" for sg
  proof -
    have "(sid, sgTxid sg) \<in> set (submissions e)" using log a by (force simp: sweep_log_def approval_known_def)
    then have "gsTxid g = Some (sgTxid sg)" if "sweep_row (egStore e) sid = Some g" for g
      using log that by (force simp: sweep_log_def submitted_rows_def)
    from approveSweep_broadcasted_moves[of "egStore e" sid sg, OF this] show ?thesis
      by (intro sweep_log_quiet[OF log, of "{}"]) (simp_all split: if_splits)
  qed
  with log show ?thesis by (auto simp: sweep_broadcast_arrives_def split: option.split sweep_pc.split)
qed

lemma refresh_log: "sweep_log (cfLib C) e \<Longrightarrow> sweep_log (cfLib C) (sweep_refresh C sid now e)"
  by (auto simp: sweep_refresh_def dest: sweep_log_store[OF _ refreshSweep_start_moving]
      split: option.splits prod.splits sum.splits refresh_pc.splits)

lemma sweep_step_log: "sweep_step C e e' \<Longrightarrow> sweep_log (cfLib C) e \<Longrightarrow> sweep_log (cfLib C) e'"
proof (induction rule: sweep_step.induct)
  case (SweepPrepare e wallet jobs connection recipient now)
  then show ?case
    by (auto simp: sweep_prepare_def ebind_def emodify_def
        dest: sweep_log_store[OF _ prepareSweep_moving(1)] split: prod.splits sum.splits)
next
  case (SweepPrepared e n sid tip account est)
  have "sweep_log (cfLib C) (snd (on_store (prepareSweep_finish (cfLib C) (cfSweep C) w sid r tip account est now)
      (e\<lparr>egSweepPreps := q\<rparr>)))" for w r now q
    by (rule sweep_log_store[OF _ prepareSweep_moving(2) prod.collapse[symmetric]]) (simp add: SweepPrepared)
  then show ?case
    using SweepPrepared
    by (auto simp: sweep_prepare_arrives_def simp del: at_index_Some at_index_None on_store_snd split: option.split)
next
  case (SweepCancel e sid now)
  show ?case unfolding sweep_cancel_def
    by (rule sweep_log_store[OF SweepCancel cancelSweep_moving prod.collapse[symmetric]])
next
  case (SweepList e now limit)
  have "moving {} (listSweepsService (cfLib C) now limit)"
    unfolding listSweepsService_def by (auto intro!: moving_rules)
  from sweep_log_store[OF SweepList this prod.collapse[symmetric]] show ?case unfolding sweep_list_def .
next
  case (SweepRefresh e sid now)
  then show ?case by (rule refresh_log)
next
  case (SweepOutcome e sid outcome seen)
  have "moving {} (ebind (elift outcome) (\<lambda>outcome. refreshSweep_outcome (cfLib C) sid g now outcome seen))" for g now
    by (intro moving_ebind moving_basic refreshSweep_outcome_moving)
  then show ?case
    using SweepOutcome
    by (auto simp: sweep_outcome_arrives_def dest: sweep_log_store split: option.splits prod.splits sum.splits)
next
  case (SweepObserve e now)
  obtain v e1 where a: "on_store (activeSweep (cfLib C)) e = (v, e1)" by fastforce
  from sweep_log_store[OF SweepObserve _ a] show ?case
    by (auto simp: sweep_observe_def a Let_def intro!: refresh_log split: sum.split option.split)
qed (rule approve_log refusal_log account_log signature_log broadcast_log, assumption)+

subsection \<open>Events of the reward-run service\<close>

lemma sweeps_untouched:
  "keeps (\<lambda>s. stSweeps s = G) (transition L rid sts st now tp)" "keeps (\<lambda>s. stSweeps s = G) (write_child rid i f)"
  "keeps (\<lambda>s. stSweeps s = G) (updateAttempt rid i k ast res now)"
  "keeps (\<lambda>s. stSweeps s = G) (insertAttempt rid i t nonce fee ast now)"
  "keeps (\<lambda>s. stSweeps s = G) (advanceCursor L rid n g now)"
  "keeps (\<lambda>s. stSweeps s = G) (insertRun L rid w sha R until cs now)"
  "keeps (\<lambda>s. stSweeps s = G) (update_prep pid pst pf)"
proof -
  let ?P = "\<lambda>s. stSweeps s = G"
  show "keeps ?P (transition L rid sts st now tp)" unfolding transition_def
    by (intro keeps_ebind keeps_eatomic)
      (auto simp: requireRun_fst release_run_def Let_def split: option.splits if_splits)
  show "keeps ?P (write_child rid i f)" unfolding write_child_def
    by (rule keeps_eatomic) (auto simp: update_child_row_def split: option.splits if_splits)
  show "keeps ?P (updateAttempt rid i k ast res now)"
    by (simp add: keeps_def updateAttempt_def update_child_row_def)
  show "keeps ?P (insertAttempt rid i t nonce fee ast now)"
    by (simp add: keeps_def insertAttempt_def update_child_row_def)
  show "keeps ?P (advanceCursor L rid n g now)" unfolding advanceCursor_def
    by (intro keeps_ebind keeps_eatomic) (auto split: option.splits if_splits)
  show "keeps ?P (insertRun L rid w sha R until cs now)" unfolding insertRun_def
    by (intro keeps_ebind keeps_eatomic) (auto simp: Let_def split: option.splits if_splits)
  show "keeps ?P (update_prep pid pst pf)"
    by (simp add: keeps_def update_prep_def split: option.splits)
qed

interpretation sweep_table: run_predicate "\<lambda>s. stSweeps s = G" for G
proof (unfold_locales, goal_cases)
  case (4 rid i now)
  then show ?case using sweeps_untouched(2)[of G]
    by (auto simp: keeps_def resetUnattemptedMaterializedChild_def split: option.splits)
next
  case (10 pid sha q now)
  then show ?case by (simp add: keeps_def createPreparation_def Let_def split: option.splits)
next
  case (11 now)
  then show ?case by (simp add: keeps_def resetInterruptedPreparations_def)
qed (auto simp: updateChild_def materializeChild_def resetRejectedChild_def claimPreparation_def
    completePreparation_def failPreparation_def Let_def intro!: keeps_rules sweeps_untouched)

text \<open>They leave the approvals and submissions of sweeps alone; a restart forgets the running approvals.\<close>

definition aside :: "engine \<Rightarrow> engine \<Rightarrow> bool" where
  "aside e0 e \<longleftrightarrow> egSweepSent e = egSweepSent e0 \<and> egSweepLost e = egSweepLost e0 \<and>
     egSweepApprovals e = egSweepApprovals e0"

lemma aside_fields [simp]:
  "aside e0 e0" "aside e0 (e\<lparr>egStore := s\<rparr>) = aside e0 e" "aside e0 (e\<lparr>egQueue := q\<rparr>) = aside e0 e"
  "aside e0 (e\<lparr>egRecover := rc\<rparr>) = aside e0 e" "aside e0 (e\<lparr>egCadence := cd\<rparr>) = aside e0 e"
  "aside e0 (e\<lparr>egApprovals := av\<rparr>) = aside e0 e" "aside e0 (e\<lparr>egPrepQueue := pq\<rparr>) = aside e0 e"
  "aside e0 (e\<lparr>egPrep := pr\<rparr>) = aside e0 e" "aside e0 (e\<lparr>egObserving := ob\<rparr>) = aside e0 e"
  "aside e0 (e\<lparr>egClosed := cl\<rparr>) = aside e0 e" "aside e0 (e\<lparr>egNextObservation := no\<rparr>) = aside e0 e"
  "aside e0 (e\<lparr>egWaiting := wt\<rparr>) = aside e0 e" "aside e0 (e\<lparr>egTick := tk\<rparr>) = aside e0 e"
  "aside e0 (e\<lparr>egSent := st\<rparr>) = aside e0 e"
  by (simp_all add: aside_def)

lemma aside_queue [simp]:
  "aside e0 (queue_tick rid src e) = aside e0 e" "aside e0 (release_queue src ok e) = aside e0 e"
  "aside e0 (queue_preparation pid e) = aside e0 e" "aside e0 (begin_observation obs now e) = aside e0 e"
  by (simp_all add: queue_tick_def release_queue_def queue_preparation_def begin_observation_def)

lemma on_store_aside: "on_store m e = (v, e') \<Longrightarrow> aside e0 e' = aside e0 e"
  using on_store_snd[of m e] by simp

lemma keeps_aside [simp, intro]:
  "keeps (aside e0) (on_store m)" "(\<And>e. aside e0 (f e) = aside e0 e) \<Longrightarrow> keeps (aside e0) (emodify f)"
  by (simp_all add: keeps_def emodify_def)

lemma settle_aside: "aside e0 (settle_tick C rid src at (v, e)) = aside e0 e"
  by (auto simp: settle_tick_def dest!: on_store_aside[where ?e0.0 = e0] split: prod.splits sum.splits option.splits tick_pc.splits)

lemma settle_on_store_aside [simp]: "aside e0 (settle_tick C rid src at (on_store m e)) = aside e0 e"
  using on_store_aside[of m e] settle_aside by (cases "on_store m e") simp

lemma settle_awaited_aside [simp]:
  "aside e0 (settle_tick C rid src at (case v of Inl err \<Rightarrow> (Inl err, e) | Inr a \<Rightarrow> on_store (m a) e)) = aside e0 e"
  by (cases v) (simp_all add: settle_aside)

lemma tick_events_aside:
  "aside e (run_queue C ctl now at e)" "aside e (reconcile_arrives C rec at e)"
  "aside e (materialize_arrives C ctl mat at e)" "aside e (tick_refusal_arrives C ctl refusal at e)"
  "aside e (signature_arrives C sg at e)" "aside e (broadcast_arrives C res at e)"
  unfolding run_queue_def reconcile_arrives_def materialize_arrives_def tick_refusal_arrives_def signature_arrives_def
    broadcast_arrives_def Let_def
  by (simp_all split: option.split prod.split tick_pc.split list.split)

lemma handlers_aside:
  "keeps (aside e0) (enqueuePreparation C ctl ready freshId q now)" "keeps (aside e0) (approve C ctl rid sha now)"
  "keeps (aside e0) (resume C ctl rid now)"
  unfolding enqueuePreparation_def approve_def resume_def Let_def
  by (auto intro!: keeps_ebind keeps_option keeps_aside split: prod.split option.splits if_splits)

lemma loops_aside:
  "aside e (snd (approve_arrives C n refusal e))" "aside e (snd (recover C observers now e))"
  "aside e (recover_step C now e)" "aside e (start_preparation C ctl ready freshId now e)"
  "aside e (facts_arrive C ctl v now e)"
proof -
  show "aside e (snd (approve_arrives C n refusal e))"
    by (auto simp: approve_arrives_def ebind_def emodify_def elift_def eret_def simp del: at_index_Some at_index_None
        dest!: on_store_aside[where ?e0.0 = e] split: option.split prod.split sum.split)
  show "aside e (snd (recover C observers now e))"
    by (auto simp: recover_def Let_def ebind_def emodify_def
        dest!: on_store_aside[where ?e0.0 = e] split: option.split prod.split sum.split)
  show "aside e (recover_step C now e)"
    by (auto simp: recover_step_def dest!: on_store_aside[where ?e0.0 = e]
        split: option.split recover_pc.split list.split prod.split sum.split)
  show "aside e (start_preparation C ctl ready freshId now e)"
    by (auto simp: start_preparation_def Let_def dest!: on_store_aside[where ?e0.0 = e]
        split: option.split prod.split sum.split list.split)
  show "aside e (facts_arrive C ctl v now e)"
    by (simp add: facts_arrive_def split: option.split)
qed

lemma run_step_aside:
  "run_step C e e' \<Longrightarrow> aside e e' \<or>
     (egSweepSent e' = egSweepSent e \<and> egSweepLost e' = egSweepLost e \<and> egSweepApprovals e' = Map.empty)"
  by (induction rule: run_step.induct)
    (simp_all add: keepsD[OF handlers_aside(1)] keepsD[OF handlers_aside(2)] keepsD[OF handlers_aside(3)]
      tick_events_aside loops_aside stop_def observation_settles_def restart_def Let_def boot_def)

text \<open>The logs only grow, and only by what a signature submits.\<close>

definition appends :: "engine \<Rightarrow> engine \<Rightarrow> bool" where
  "appends e e' \<longleftrightarrow> (\<exists>xs. egSweepSent e' = egSweepSent e @ xs) \<and> egSweepLost e' = egSweepLost e"

lemma appends_fields [simp]:
  "appends e e" "appends e (e'\<lparr>egStore := s\<rparr>) = appends e e'" "appends e (e'\<lparr>egSweepPreps := sp\<rparr>) = appends e e'"
  "appends e (e'\<lparr>egSweepApprovals := sa\<rparr>) = appends e e'" "appends e (e'\<lparr>egRefreshes := sr\<rparr>) = appends e e'"
  "appends e (e'\<lparr>egSweepCadence := sc\<rparr>) = appends e e'" "appends e (settle_refresh sid later now e') = appends e e'"
  by (simp_all add: appends_def settle_refresh_def)

lemma on_store_appends: "on_store m e0 = (v, e') \<Longrightarrow> appends e e' = appends e e0"
  using on_store_snd[of m e0] by simp

lemma settle_approval_appends [simp]: "appends e (settle_approval sid (on_store m e))"
  using on_store_snd[of m e] by (cases "on_store m e") (auto simp: settle_approval_def appends_def split: sum.split)

lemma refresh_appends: "appends e e0 \<Longrightarrow> appends e (sweep_refresh C sid now e0)"
  by (auto simp: sweep_refresh_def dest!: on_store_appends[where e = e]
      split: option.splits prod.splits sum.splits refresh_pc.splits)

lemma sweep_step_appends: "sweep_step C e e' \<Longrightarrow> appends e e'"
proof (induction rule: sweep_step.induct)
  case (SweepPrepare e wallet jobs connection recipient now)
  show ?case by (auto simp: sweep_prepare_def ebind_def emodify_def dest!: on_store_appends[where e = e]
        split: prod.splits sum.splits)
next
  case (SweepOutcome e sid outcome seen)
  show ?case by (auto simp: sweep_outcome_arrives_def dest!: on_store_appends[where e = e]
        split: option.splits prod.splits sum.splits)
next
  case (SweepObserve e now)
  show ?case by (auto simp: sweep_observe_def Let_def dest!: on_store_appends[where e = e] intro!: refresh_appends
        split: option.splits prod.splits sum.splits)
qed (simp_all add: sweep_prepare_arrives_def sweep_approve_def sweep_refusal_arrives_def sweep_account_arrives_def
    sweep_signature_arrives_def sweep_broadcast_arrives_def sweep_cancel_def sweep_list_def refresh_appends
    del: at_index_Some at_index_None split: option.split sweep_pc.split)

text \<open>A crash keeps the rows of the event and moves what it would have submitted to the lost ones.\<close>

lemma crash_log:
  assumes "sweep_log (cfLib C) e'" and "appends e e'" shows "sweep_log (cfLib C) (crash now e e')"
proof -
  obtain xs where x: "egSweepSent e' = egSweepSent e @ xs" "egSweepLost e' = egSweepLost e"
    using assms(2) by (auto simp: appends_def)
  have c: "submissions (crash now e e') = egSweepSent e @ egSweepLost e @ xs" "egSweepApprovals (crash now e e') = Map.empty"
    "stSweeps (egStore (crash now e e')) = stSweeps (egStore e')"
    by (simp_all add: submissions_def crash_def restart_def Let_def boot_def x resetInterruptedPreparations_def)
  have "set (submissions (crash now e e')) = set (submissions e')" unfolding c(1) by (auto simp: submissions_def x)
  moreover have "distinct (map fst (submissions (crash now e e'))) = distinct (map fst (submissions e'))"
    unfolding c(1) unfolding submissions_def x by auto
  moreover have "sweep_row (egStore (crash now e e')) = sweep_row (egStore e')" by (intro ext) (simp add: sweep_row_def c(3))
  ultimately show ?thesis
    using assms(1) unfolding sweep_log_def submitted_rows_def rows_submitted_def c(2,3) by simp
qed

lemma run_step_log:
  assumes "run_step C e e'" and "sweep_log (cfLib C) e" shows "sweep_log (cfLib C) e'" "appends e e'"
proof -
  have "stSweeps (egStore e') = stSweeps (egStore e)" using sweep_table.run_step_keeps[OF assms(1) refl] .
  then have "sweep_moves {} (egStore e) (egStore e')" by (rule sweep_moves_same)
  then show "sweep_log (cfLib C) e'"
    using run_step_aside[OF assms(1)] by (intro sweep_log_quiet[OF assms(2)]) (auto simp: aside_def submissions_def)
  show "appends e e'" using run_step_aside[OF assms(1)] by (auto simp: aside_def appends_def)
qed

theorem reachable_sweep_log: "reachable C e \<Longrightarrow> sweep_log (cfLib C) e"
proof (induction rule: reachable.induct)
  case init
  show ?case by (simp add: boot_def empty_store_def sweep_log_def submitted_rows_def rows_submitted_def
      sweep_row_def submissions_def)
next
  case (step e e')
  from step.hyps(2) show ?case
    by cases (auto intro: crash_log run_step_log[OF _ step.IH] sweep_step_log[OF _ step.IH] sweep_step_appends)
qed

end
