(* ===== verification/Sweep_Demo.thy ===== *)
theory Sweep_Demo
  imports Demo_Trace Sweep_Safety
begin

text \<open>A sweep from its preparation to the broadcaster, as a concrete run of the gas wallet's handlers.\<close>

definition sweep_wallet :: wallet_identity where
  "sweep_wallet = \<lparr>wiPrincipal = ''SPW'', wiPublicKey = ''02'' @ replicate 64 (CHR ''c'')\<rparr>"

definition sweep_prepared :: engine where
  "sweep_prepared = sweep_prepare_arrives demo_config 0 demo_id (''0x'' @ replicate 64 (CHR ''0''))
     (AccountObserved 1000 4) (\<lambda>_. None)
     (snd (sweep_prepare demo_config (Some sweep_wallet) 0 (Inr ()) '' SPX '' 0 (boot empty_store)))"

definition sweep_approving :: engine where
  "sweep_approving = sweep_account_arrives demo_config demo_id (Inr (AccountObserved 1000 4)) 2
     (sweep_refusal_arrives demo_config demo_id None (Inr ())
       (sweep_approve demo_config True True 0 demo_id 1 sweep_prepared))"

definition sweep_submitted :: engine where
  "sweep_submitted = sweep_signature_arrives demo_config demo_id (Inr demo_signed) 3 sweep_approving"

text \<open>The process dies after the row was written and before the transaction left.\<close>

definition sweep_crashed :: engine where
  "sweep_crashed = crash 4 sweep_approving sweep_submitted"

lemma sweep_demo_reachable:
  "reachable demo_config sweep_approving" "reachable demo_config sweep_submitted"
  "reachable demo_config sweep_crashed"
proof -
  have p: "reachable demo_config sweep_prepared"
    unfolding sweep_prepared_def by (intro reachable_by_sweep[OF _ SweepPrepared] reachable_by_sweep[OF _ SweepPrepare] init)
  show a: "reachable demo_config sweep_approving"
    unfolding sweep_approving_def
    by (intro reachable_by_sweep[OF _ SweepAccount] reachable_by_sweep[OF _ SweepRefusal] reachable_by_sweep[OF _ SweepApprove] p)
  show "reachable demo_config sweep_submitted"
    unfolding sweep_submitted_def by (rule reachable_by_sweep[OF a SweepSignature])
  show "reachable demo_config sweep_crashed"
    unfolding sweep_crashed_def sweep_submitted_def
    by (rule reachable_by_crash[OF a disjI2[OF SweepSignature]])
qed

lemma sweep_demo_sent: "egSweepSent sweep_submitted = [(demo_id, demo_txid)]"
  by code_simp

lemma sweep_demo_crashed:
  "egSweepSent sweep_crashed = []" "egSweepLost sweep_crashed = [(demo_id, demo_txid)]"
  by code_simp+

end
