(* ===== verification/Preparations.thy ===== *)
theory Preparations
  imports Store_History
begin

text \<open>
  Background preparations (\<open>reward_run_preparations\<close>): the table keeps its constraints, and a request
  has at most one preparation that is queued or running. The unique index
  \<open>reward_run_preparations_active_request\<close> of storage/migrations.ts therefore never rejects a write of
  the repository.
\<close>

definition prep_inv :: "store \<Rightarrow> bool" where
  "prep_inv s \<longleftrightarrow> distinct (map ppId (stPreps s)) \<and> (\<forall>p \<in> set (stPreps s). prep_checks p) \<and>
     distinct (map ppRequestSha (filter prep_active (stPreps s)))"

subsection \<open>Operations on other tables\<close>

lemma preps_untouched:
  "keeps (\<lambda>s. Q (stPreps s)) (transition L rid sts st now tp)" "keeps (\<lambda>s. Q (stPreps s)) (write_child rid i f)"
  "keeps (\<lambda>s. Q (stPreps s)) (updateAttempt rid i k ast res now)"
  "keeps (\<lambda>s. Q (stPreps s)) (insertAttempt rid i t nonce fee ast now)"
  "keeps (\<lambda>s. Q (stPreps s)) (advanceCursor L rid n g now)"
  "keeps (\<lambda>s. Q (stPreps s)) (insertRun L rid w sha R until cs now)"
  "keeps (\<lambda>s. Q (stPreps s)) (insertSweep L sid w sp now)" "keeps (\<lambda>s. Q (stPreps s)) (updateSweep L sid gp now)"
proof -
  let ?P = "\<lambda>s. Q (stPreps s)"
  show "keeps ?P (transition L rid sts st now tp)" unfolding transition_def
    by (intro keeps_ebind keeps_eatomic)
      (auto simp: requireRun_fst release_run_def Let_def split: option.splits if_splits)
  show "keeps ?P (write_child rid i f)" unfolding write_child_def
    by (rule keeps_eatomic) (auto simp: update_child_row_def split: option.splits if_splits)
  show "keeps ?P (updateAttempt rid i k ast res now)"
    by (simp add: keeps_def updateAttempt_def update_child_row_def)
  show "keeps ?P (insertAttempt rid i t nonce fee ast now)"
    by (simp add: keeps_def insertAttempt_def update_child_row_def)
  show "keeps ?P (advanceCursor L rid n g now)" unfolding advanceCursor_def
    by (intro keeps_ebind keeps_eatomic) (auto split: option.splits if_splits)
  show "keeps ?P (insertRun L rid w sha R until cs now)" unfolding insertRun_def
    by (intro keeps_ebind keeps_eatomic) (auto simp: Let_def split: option.splits if_splits)
  show "keeps ?P (insertSweep L sid w sp now)" unfolding insertSweep_def
    by (intro keeps_ebind keeps_eatomic) (auto split: option.splits if_splits)
  show "keeps ?P (updateSweep L sid gp now)" unfolding updateSweep_def
    by (intro keeps_ebind keeps_eatomic) (auto simp: write_sweep_def release_sweep_def split: option.splits if_splits)
qed

lemma prep_inv_untouched: "(\<And>Q. keeps (\<lambda>s. Q (stPreps s)) m) \<Longrightarrow> keeps prep_inv m"
  unfolding prep_inv_def[abs_def] .

lemmas prep_inv_other = preps_untouched[THEN prep_inv_untouched]

subsection \<open>Operations on preparations\<close>

text \<open>An update that keeps the identity of the row, and makes no finished preparation active.\<close>

lemma prep_inv_update:
  assumes "prep_inv s" and "\<And>p. ppId (f p) = ppId p" and "\<And>p. ppRequestSha (f p) = ppRequestSha p"
    and "\<And>p. p \<in> set (stPreps s) \<Longrightarrow> g p \<Longrightarrow> prep_checks (f p)"
    and "\<And>p. p \<in> set (stPreps s) \<Longrightarrow> g p \<Longrightarrow> prep_active (f p) \<Longrightarrow> prep_active p"
  shows "prep_inv (s\<lparr>stPreps := map (\<lambda>p. if g p then f p else p) (stPreps s)\<rparr>)"
proof -
  let ?h = "\<lambda>p. if g p then f p else p"
  have "distinct (map ppRequestSha (filter prep_active (map ?h ps)))"
    if "distinct (map ppRequestSha (filter prep_active ps))" "set ps \<subseteq> set (stPreps s)" for ps
    using that
  proof (induction ps)
    case (Cons p ps)
    have "ppRequestSha ` {x \<in> set (map ?h ps). prep_active x} \<subseteq> ppRequestSha ` {x \<in> set ps. prep_active x}"
      using Cons.prems(2) assms(3,5) by (fastforce split: if_splits)
    moreover have "ppRequestSha (?h p) = ppRequestSha p" using assms(3) by simp
    moreover have "prep_active p" if "prep_active (?h p)" using that assms(5)[of p] Cons.prems(2) by (auto split: if_splits)
    ultimately show ?case using Cons by (auto split: if_splits)
  qed simp
  moreover have "map ppId (map ?h (stPreps s)) = map ppId (stPreps s)" using assms(2) by simp
  ultimately show ?thesis using assms(1,4) by (auto simp: prep_inv_def simp del: map_map)
qed

lemma prep_inv_update_prep:
  assumes "\<And>p. ppId (f p) = ppId p" and "\<And>p. ppRequestSha (f p) = ppRequestSha p"
    and "st \<in> {Queued, Preparing}"
  shows "keeps prep_inv (update_prep pid st f)"
proof (rule keepsI)
  fix s assume inv: "prep_inv s"
  show "prep_inv (snd (update_prep pid st f s))"
  proof (cases "prep_row s pid")
    case (Some p)
    have p: "q = p" if "q \<in> set (stPreps s)" "ppId q = pid" for q
      using inv that Some row_find_unique[of ppId "stPreps s" q] by (auto simp: prep_inv_def prep_row_def)
    have "prep_inv (s\<lparr>stPreps := map (\<lambda>p. if ppId p = pid then f p else p) (stPreps s)\<rparr>)"
      if "ppStatus p = st" "prep_checks (f p)"
      using that assms(3) by (intro prep_inv_update[OF inv assms(1,2)]) (auto dest: p simp: prep_active_def)
    then show ?thesis using inv Some by (simp add: update_prep_def row_update_def)
  qed (simp add: update_prep_def inv)
qed

lemma idle_request:
  assumes "activePreparationForRequest s sha = None"
  shows "sha \<notin> ppRequestSha ` set (filter prep_active (stPreps s))"
proof -
  let ?xs = "filter (\<lambda>p. ppRequestSha p = sha \<and> prep_active p) (stPreps s)"
  have "sort_by (\<lambda>a b. ppCreated a \<le> ppCreated b) ?xs = []"
    using assms unfolding activePreparationForRequest_def by (simp split: list.splits)
  then have "set (sort_by (\<lambda>a b. ppCreated a \<le> ppCreated b) ?xs) = {}" by (simp only: list.set)
  then have "set ?xs = {}" by (simp only: set_sort_by)
  then show ?thesis by auto
qed

lemma prep_inv_append:
  assumes "prep_inv s" and "ppId p \<notin> ppId ` set (stPreps s)" and "prep_checks p"
    and "ppRequestSha p \<notin> ppRequestSha ` set (filter prep_active (stPreps s))"
  shows "prep_inv (s\<lparr>stPreps := stPreps s @ [p]\<rparr>)"
  using assms by (cases "prep_active p") (simp_all add: prep_inv_def)

lemma prep_inv_create: "keeps prep_inv (createPreparation pid sha q now)"
proof (rule keepsI)
  fix s assume inv: "prep_inv s"
  show "prep_inv (snd (createPreparation pid sha q now s))"
  proof (cases "prep_row s pid")
    case None
    then have new: "pid \<notin> ppId ` set (stPreps s)" by (simp add: prep_row_def row_find_None_iff)
    show ?thesis
    proof (cases "activePreparationForRequest s sha")
      case idle: None
      show ?thesis
        using None idle inv prep_inv_append[OF inv] new idle_request[OF idle]
        by (simp add: createPreparation_def Let_def)
    qed (simp add: createPreparation_def None inv)
  qed (simp add: createPreparation_def inv)
qed

lemma prep_inv_reset: "keeps prep_inv (resetInterruptedPreparations now)"
proof (rule keepsI)
  fix s assume inv: "prep_inv s"
  have "prep_inv (s\<lparr>stPreps := map (\<lambda>p. if ppStatus p = Preparing
      then p\<lparr>ppStatus := Queued, ppStarted := None, ppUpdated := now\<rparr> else p) (stPreps s)\<rparr>)"
  proof (rule prep_inv_update[OF inv])
    fix p assume "p \<in> set (stPreps s)" "ppStatus p = Preparing"
    then show "prep_checks (p\<lparr>ppStatus := Queued, ppStarted := None, ppUpdated := now\<rparr>)"
      using inv by (force simp: prep_inv_def prep_checks_def)
  qed (simp_all add: prep_active_def)
  then show "prep_inv (snd (resetInterruptedPreparations now s))" by (simp add: resetInterruptedPreparations_def)
qed

interpretation preparations: store_predicate prep_inv
proof (unfold_locales, goal_cases)
  case (2 rid i st st' now p)
  show ?case unfolding updateChild_def
    by (intro keeps_ebind prep_inv_other(2)) auto
next
  case (3 rid i p a now)
  show ?case unfolding materializeChild_def
    by (intro keeps_ebind prep_inv_other(2)) auto
next
  case (4 rid i now)
  have "keeps prep_inv (write_child rid i (unmaterialize now))" by (rule prep_inv_other(2))
  then show ?case by (auto simp: keeps_def resetUnattemptedMaterializedChild_def split: option.splits)
next
  case (5 rid i now)
  show ?case unfolding resetRejectedChild_def
    by (intro keeps_ebind prep_inv_other(2)) auto
next
  case (12 pid now)
  show ?case unfolding claimPreparation_def by (intro keeps_rules prep_inv_update_prep) auto
next
  case (13 pid rid now)
  show ?case unfolding completePreparation_def by (intro keeps_rules prep_inv_update_prep) auto
next
  case (14 pid reason now code)
  show ?case unfolding failPreparation_def Let_def by (intro keeps_rules prep_inv_update_prep) auto
qed (rule prep_inv_create prep_inv_reset prep_inv_other)+

lemma reachable_prep_inv: "reachable C e \<Longrightarrow> prep_inv (egStore e)"
proof (induction rule: reachable.induct)
  case init
  show ?case by (simp add: boot_def empty_store_def prep_inv_def)
next
  case (step e e')
  then show ?case using preparations.step_keeps by blast
qed

end
