(* ===== verification/Progress.thy ===== *)
theory Progress
  imports Store_History
begin

text \<open>
  Progress of a run. The rows of the run tables satisfy their CHECK constraints in every reachable
  state, so a constraint never rejects the bookkeeping of a tick; a resolved child therefore advances
  the cursor, and a run without children left completes.
\<close>

subsection \<open>Table constraints\<close>

definition row_ok :: "run \<Rightarrow> bool" where
  "row_ok r \<longleftrightarrow> run_checks r \<and> list_all child_checks (rnChildren r)"

definition rows_checked :: "store \<Rightarrow> bool" where
  "rows_checked s \<longleftrightarrow> distinct (map rnId (stRuns s)) \<and> (\<forall>r \<in> set (stRuns s). row_ok r)"

lemma rows_checked_row: "rows_checked s \<Longrightarrow> run_row s rid = Some r \<Longrightarrow> row_ok r"
  by (auto simp: rows_checked_def run_row_def dest: row_find_SomeD)

lemma rows_checked_upd:
  assumes "rows_checked s" and "\<And>r. run_row s rid = Some r \<Longrightarrow> row_ok (f r)" and "\<And>r. rnId (f r) = rnId r"
  shows "rows_checked (upd_run rid f s)"
proof (cases "run_row s rid")
  case None
  then have "row_update rnId rid f (stRuns s) = stRuns s"
    by (intro row_update_other) (simp add: run_row_def row_find_None_iff)
  with assms(1) show ?thesis by (simp add: rows_checked_def)
next
  case (Some r)
  have "row_ok x" if "x \<in> set (row_update rnId rid f (stRuns s))" for x
    using in_row_update_unique[of rnId "stRuns s" rid r x f] assms(1,2) Some that
    by (auto simp: rows_checked_def run_row_def)
  with assms(1,3) show ?thesis by (simp add: rows_checked_def row_update_keys)
qed

lemma rows_checked_same: "stRuns t = stRuns s \<Longrightarrow> rows_checked t = rows_checked s"
  by (simp add: rows_checked_def)

lemma row_ok_child:
  assumes "row_ok r" and "i < length (rnChildren r) \<Longrightarrow> child_checks (f (rnChildren r ! i))"
  shows "row_ok (upd_child i f r)"
  using assms by (cases "i < length (rnChildren r)")
    (auto simp: row_ok_def upd_child_def run_checks_def list_all_iff list_update_beyond dest!: set_update_subset_insert[THEN subsetD])

lemma checked_write_child: "keeps rows_checked (write_child rid i f)"
  unfolding write_child_def update_child_row_eq
proof (rule keeps_eatomic)
  fix s t assume s: "rows_checked s" and w: "(case child_row s rid i of None \<Rightarrow> Inr s
     | Some c \<Rightarrow> if child_checks (f c) then Inr (upd_run rid (upd_child i f) s)
                 else Inl (SqliteError ''CHECK constraint failed'')) = Inr t"
  show "rows_checked t"
  proof (cases "child_row s rid i")
    case (Some c)
    then have "child_checks (f c)" "t = upd_run rid (upd_child i f) s" using w by (auto split: if_splits)
    with Some s show ?thesis
      by (auto intro!: rows_checked_upd row_ok_child dest: rows_checked_row simp: child_row_def at_index_def
          split: option.splits if_splits)
  qed (use s w in auto)
qed

lemma child_checks_attempts [simp]: "child_checks (c\<lparr>chAttempts := as\<rparr>) = child_checks c"
  by (simp add: child_checks_def)

lemma checked_attempts:
  "keeps rows_checked (updateAttempt rid i k st res now)" "keeps rows_checked (insertAttempt rid i t nonce fee st now)"
proof -
  have "rows_checked (upd_run rid (upd_child i (\<lambda>c. c\<lparr>chAttempts := g c\<rparr>)) s)" if "rows_checked s" for s g
    using that by (intro rows_checked_upd row_ok_child)
      (auto simp: row_ok_def list_all_length dest: rows_checked_row)
  then show "keeps rows_checked (updateAttempt rid i k st res now)"
    "keeps rows_checked (insertAttempt rid i t nonce fee st now)"
    by (simp_all add: keeps_def updateAttempt_def insertAttempt_def update_child_row_eq)
qed

lemma checked_transition: "keeps rows_checked (transition L rid sts to now p)"
  unfolding transition_def
proof (intro keeps_ebind keeps_eatomic)
  fix s t assume s: "rows_checked s" and "bindr (fst (requireRun L rid s)) (\<lambda>current.
       if rnStatus current \<notin> set sts
       then Inl (RepositoryError StateConflict
              (''Reward run is '' @ run_status_text (rnStatus current) @ '', expected '' @
               join '' or '' (map run_status_text sts)))
       else if \<not> run_checks (apply_patch to now p current)
       then Inl (SqliteError ''CHECK constraint failed'')
       else if \<not> rewardRunSchema L (apply_patch to now p current) then Inl (OtherError ''ZodError'')
       else (let s1 = s\<lparr>stRuns := row_update rnId rid (apply_patch to now p) (stRuns s)\<rparr> in
             Inr (if terminal_run to then release_run rid s1 else s1))) = Inr t"
  then obtain r where r: "run_row s rid = Some r" "run_checks (apply_patch to now p r)"
    and t: "stRuns t = stRuns (upd_run rid (apply_patch to now p) s)"
    by (auto simp: Let_def requireRun_fst release_run_def split: if_splits option.splits)
  have "row_ok (apply_patch to now p r)"
    using r rows_checked_row[OF s r(1)] by (simp add: row_ok_def apply_patch_def)
  then have "rows_checked (upd_run rid (apply_patch to now p) s)"
    by (intro rows_checked_upd[OF s]) (auto simp: r(1) apply_patch_def)
  then show "rows_checked t" using rows_checked_same[OF t] by simp
qed auto

lemma checked_advance: "keeps rows_checked (advanceCursor L rid n g now)"
proof -
  let ?f = "\<lambda>r. r\<lparr>rnCursor := rnCursor r + 1, rnGasSpent := g, rnUpdated := now\<rparr>"
  have "rows_checked (s\<lparr>stRuns := row_update rnId rid ?f (stRuns s)\<rparr>)" if "rows_checked s" for s
    using rows_checked_upd[OF that, of rid ?f] rows_checked_row[OF that, of rid]
    by (simp add: upd_run_def row_ok_def run_checks_def)
  then show ?thesis
    unfolding advanceCursor_def by (intro keeps_ebind keeps_eatomic) (auto split: option.splits if_splits)
qed

lemma checked_insertRun: "keeps rows_checked (insertRun L rid w sha R until cs now)"
  unfolding insertRun_def
  by (intro keeps_ebind keeps_eatomic)
    (auto simp: Let_def rows_checked_def row_ok_def run_row_def row_find_None_iff fresh_run_def
      split: option.splits if_splits)

lemma checked_preparations: "keeps rows_checked (update_prep pid st f)"
  by (simp add: keeps_def update_prep_def rows_checked_def split: option.split)

lemma checked_sweeps:
  "keeps rows_checked (insertSweep L sid w p now)" "keeps rows_checked (updateSweep L sid gp now)"
  unfolding insertSweep_def updateSweep_def
  by (intro keeps_ebind keeps_eatomic;
      auto simp: rows_checked_def release_sweep_def write_sweep_def split: option.splits if_splits)+

interpretation constraints: store_predicate rows_checked
proof (unfold_locales, goal_cases)
  case (4 rid i now)
  then show ?case using checked_write_child
    by (auto simp: keeps_def resetUnattemptedMaterializedChild_def split: option.splits)
next
  case (10 pid sha q now)
  then show ?case by (simp add: keeps_def createPreparation_def Let_def rows_checked_def split: option.split)
next
  case (11 now)
  then show ?case by (simp add: keeps_def resetInterruptedPreparations_def rows_checked_def)
qed (auto simp: updateChild_def materializeChild_def resetRejectedChild_def claimPreparation_def
    completePreparation_def failPreparation_def Let_def intro!: keeps_rules checked_write_child checked_attempts
    checked_transition checked_advance checked_insertRun checked_preparations checked_sweeps)

lemma reachable_checked: "reachable C e \<Longrightarrow> rows_checked (egStore e)"
proof (induction rule: reachable.induct)
  case init
  show ?case by (simp add: boot_def empty_store_def rows_checked_def)
next
  case (step e e')
  then show ?case using constraints.step_keeps by blast
qed

subsection \<open>A resolved child advances the run\<close>

abbreviation last_fee :: "child \<Rightarrow> nat" where
  "last_fee c \<equiv> (case last_opt (chAttempts c) of None \<Rightarrow> 0 | Some a \<Rightarrow> atFee a)"

lemma row_after: "run_row (upd_run rid f s) rid = map_option f (run_row s rid)" if "\<And>r. rnId (f r) = rnId r" for f
  using row_find_update[of rnId f rid rid "stRuns s"] that by (simp add: run_row_def upd_run_def)

lemma updateChild_runs:
  assumes r: "run_row s rid = Some r" and i: "i < length (rnChildren r)" and st: "chStatus (rnChildren r ! i) \<in> set sts"
    and ok: "child_checks (patched_child to now p (rnChildren r ! i))"
  shows "\<exists>t c. updateChild rid i sts to now p s = (Inr c, t) \<and>
    run_row t rid = Some (upd_child i (patched_child to now p) r)"
proof -
  let ?f = "\<lambda>c. c\<lparr>chStatus := to, chTxid := coalesce (cpTxid p) (chTxid c), chProvenance := cpProvenance p,
     chFailure := cpFailure p, chSource := coalesce (cpSource p) (chSource (rnChildren r ! i)), chUpdated := now\<rparr>"
  let ?t = "upd_run rid (upd_child i ?f) s"
  have c: "child_row s rid i = Some (rnChildren r ! i)" using r i by (simp add: child_row_def at_index_def)
  have f: "?f (rnChildren r ! i) = patched_child to now p (rnChildren r ! i)" by (simp add: patched_child_def)
  have t: "run_row ?t rid = Some (upd_child i ?f r)" using r by (simp add: row_after)
  then have c': "child_row ?t rid i = Some (?f (rnChildren r ! i))" 
    using i unfolding child_row_def by (simp only: option.case) (simp add: at_index_def)
  have "updateChild rid i sts to now p s = (Inr (?f (rnChildren r ! i)), ?t)"
    using st ok c c' f unfolding updateChild_def requireChild_def write_child_def update_child_row_eq
    by (simp add: ebind_def eread_def eguard_def eatomic_def)
  moreover have "upd_child i ?f r = upd_child i (patched_child to now p) r" by (simp add: upd_child_def patched_child_def)
  ultimately show ?thesis using t by auto
qed

lemma advanceCursor_runs:
  assumes "run_row s rid = Some r" and "rnCursor r = n" and "rewardRunSchema L r"
  shows "\<exists>t r'. advanceCursor L rid n g now s = (Inr r', t) \<and>
    run_row t rid = Some (r\<lparr>rnCursor := Suc n, rnGasSpent := g, rnUpdated := now\<rparr>)"
proof -
  let ?f = "\<lambda>r. r\<lparr>rnCursor := rnCursor r + 1, rnGasSpent := g, rnUpdated := now\<rparr>"
  let ?t = "s\<lparr>stRuns := row_update rnId rid ?f (stRuns s)\<rparr>"
  have t: "run_row ?t rid = Some (?f r)" using row_after[of ?f rid s] assms(1) by (simp add: upd_run_def)
  have "rewardRunSchema L (?f r)" using assms(3) by (simp add: rewardRunSchema_def in_flight_def)
  with t assms have "advanceCursor L rid n g now s = (Inr (?f r), ?t)"
    by (simp add: advanceCursor_def ebind_def eatomic_def requireRun_def getRun_def eread_def eret_def)
  with t assms(2) show ?thesis by auto
qed

lemma schema_upd_child:
  assumes "rewardRunSchema L r" and "i < length (rnChildren r)" and "childSchema (f (rnChildren r ! i))"
    and "chStatus (f (rnChildren r ! i)) \<noteq> Broadcast"
  shows "rewardRunSchema L (upd_child i f r)"
proof -
  have "length (filter P (xs[i := x])) \<le> length (filter P xs)" if "\<not> P x" for P x and xs :: "child list"
    using that by (induction xs arbitrary: i) (auto split: nat.split simp: le_SucI)
  from this[of "\<lambda>c. chStatus c = Broadcast" "f (rnChildren r ! i)" "rnChildren r"] show ?thesis
    using assms by (auto simp: rewardRunSchema_def in_flight_def upd_child_def list_all_iff
        dest!: set_update_subset_insert[THEN subsetD])
qed

lemma record_resolution_runs:
  assumes r': "run_row s (rnId r) = Some r'" and cur: "rnCursor r' = rnCursor r" and i: "i < length (rnChildren r')"
    and st: "chStatus (rnChildren r' ! i) = Broadcast" and ok: "row_ok r'" and sch: "rewardRunSchema L r'"
    and to: "to \<noteq> Broadcast"
  shows "\<exists>t r''. record_resolution L r i now to src s = (Inr TickDone, t) \<and> run_row t (rnId r) = Some r'' \<and>
    rnCursor r'' = Suc (rnCursor r) \<and> rnStatus r'' = rnStatus r' \<and> chStatus (rnChildren r'' ! i) = to \<and>
    rnGasSpent r'' = rnGasSpent r + last_fee (rnChildren r' ! i)"
proof -
  let ?p = "no_child_patch\<lparr>cpProvenance := Some (if to = Confirmed then You else AnotherCaller), cpSource := src\<rparr>"
  let ?c = "rnChildren r' ! i" and ?f = "patched_child to now
      (no_child_patch\<lparr>cpProvenance := Some (if to = Confirmed then You else AnotherCaller), cpSource := src\<rparr>)"
  have keep: "chTxid (?f c) = chTxid c" "chPlan (?f c) = chPlan c" "chAttempts (?f c) = chAttempts c" "chStatus (?f c) = to" for c
    by (simp_all add: patched_child_def no_child_patch_def coalesce_def)
  have cc: "child_checks (?f ?c)"
    using ok i by (auto simp: row_ok_def list_all_length child_checks_def patched_child_def no_child_patch_def coalesce_def)
  have cs: "childSchema (?f ?c)"
    using sch i keep by (auto simp: rewardRunSchema_def list_all_length childSchema_def)
  obtain t1 c1 where t1: "updateChild (rnId r) i [Broadcast] to now ?p s = (Inr c1, t1)"
    and r1: "run_row t1 (rnId r) = Some (upd_child i ?f r')"
    using updateChild_runs[OF r' i _ cc, of "[Broadcast]"] st by auto
  have as: "attempts (rnId r) i t1 = chAttempts ?c"
    using r1 i keep by (simp add: attempts_def child_row_def at_index_def)
  let ?as = "chAttempts ?c"
  let ?g = "set_attempt (length ?as - 1) AttemptConfirmed None now"
  define h where "h = (if ?as \<noteq> [] \<and> to = Confirmed then ?g else id)"
  define t2 where "t2 = (if ?as \<noteq> [] \<and> to = Confirmed then upd_run (rnId r) (upd_child i ?g) t1 else t1)"
  have t2: "(if ?as \<noteq> [] \<and> to = Confirmed then updateAttempt (rnId r) i (length ?as - 1) AttemptConfirmed None now
      else eret ()) t1 = (Inr (), t2)"
    by (simp add: t2_def updateAttempt_def update_child_row_eq set_attempt_def[abs_def] eret_def)
  have r2: "run_row t2 (rnId r) = Some (upd_child i (h \<circ> ?f) r')"
    using r1 i by (auto simp: t2_def h_def row_after upd_child_def)
  have h: "chStatus (h c) = chStatus c" "chPlan (h c) = chPlan c" "chTxid (h c) = chTxid c" for c
    by (simp_all add: h_def set_attempt_def)
  have "rewardRunSchema L (upd_child i (h \<circ> ?f) r')"
    by (rule schema_upd_child[OF sch i]) (use cs h keep to in \<open>simp_all add: childSchema_def\<close>)
  moreover have "rnCursor (upd_child i (h \<circ> ?f) r') = rnCursor r" using cur by (simp add: upd_child_def)
  ultimately obtain t3 r3 where t3: "advanceCursor L (rnId r) (rnCursor r) (rnGasSpent r + last_fee ?c) now t2 = (Inr r3, t3)"
    and r3: "run_row t3 (rnId r) = Some ((upd_child i (h \<circ> ?f) r')\<lparr>rnCursor := Suc (rnCursor r),
        rnGasSpent := rnGasSpent r + last_fee ?c, rnUpdated := now\<rparr>)"
    using advanceCursor_runs[OF r2, of "rnCursor r" L "rnGasSpent r + last_fee ?c" now] by auto
  have "record_resolution L r i now to src s = (Inr TickDone, t3)"
    unfolding record_resolution_def ebind_def t1 prod.case sum.case Let_def as t2 t3 eret_def ..
  moreover have "chStatus (rnChildren (upd_child i (h \<circ> ?f) r') ! i) = to"
    using i h keep by (simp add: upd_child_def)
  ultimately show ?thesis using r3 by (auto simp: upd_child_def)
qed

lemma complete_runs:
  assumes inv: "store_inv L s" and r: "run_row s rid = Some r" and run: "rnStatus r = Running"
    and sch: "rewardRunSchema L r" and last: "rnCursor r = length (rnChildren r)" and live: "\<not> runtime_elapsed r now"
  shows "\<exists>t r'. tick_start L h ctl due rid now s = (Inr TickDone, t) \<and> run_row t rid = Some r' \<and>
    rnStatus r' = Completed \<and> rnCompletedAt r' = Some now \<and> lease_holder (stLeases t) (rnWallet r) = None"
proof -
  let ?p = "no_patch\<lparr>tpCompletedAt := Some now\<rparr>"
  let ?f = "apply_patch Completed now ?p"
  have ri: "run_inv L r" "rnId r = rid" using store_inv_run[OF inv r] by simp_all
  have seal: "assertSealedRun L r = Inr ()" using run_inv_sealed[OF ri(1)] by (simp add: assertSealedRun_def)
  have chk: "run_checks (?f r)" using run_inv_checks[OF ri(1)] run by (simp add: run_checks_def apply_patch_def no_patch_def coalesce_def)
  have sch': "rewardRunSchema L (?f r)" using sch by (simp add: rewardRunSchema_def apply_patch_def in_flight_def)
  let ?t = "release_run rid (upd_run rid ?f s)"
  have t: "run_row ?t rid = Some (?f r)"
    using r by (simp add: run_row_def release_run_def row_find_update apply_patch_def)
  have "transition L rid [Running] Completed now ?p s = (Inr (?f r), ?t)"
    using r run sch chk sch' t
    by (simp add: transition_def ebind_def eatomic_def requireRun_fst Let_def requireRun_def getRun_def eread_def eret_def
        upd_run_def terminal_run_def)
  then have "tick_start L h ctl due rid now s = (Inr TickDone, ?t)"
    using r run sch seal last live
    by (simp add: tick_start_def serviceGet_def getRun_def start_running_def expireRunningRun_def ebind_def eread_def
        eret_def elift_def at_index_def)
  moreover have "lease_holder (stLeases ?t) (rnWallet r) = None"
  proof -
    have ok: "lease_ok (stLeases s)" and own: "lease_holder (stLeases s) (rnWallet r) = Some (RewardRunKind, rid) \<longleftrightarrow>
        owner_active s (rnWallet r) (RewardRunKind, rid)"
      using inv unfolding store_inv_def lease_inv_def by blast+
    have "owner_active s (rnWallet r) (RewardRunKind, rid)"
      using store_inv_run[OF inv r] run by (auto simp: terminal_run_def)
    with own ok show ?thesis by (simp add: release_run_def leases.holder_release)
  qed
  ultimately show ?thesis using t by (auto simp: apply_patch_def no_patch_def coalesce_def)
qed

end
