(* ===== verification/Demo_Completion.thy ===== *)
theory Demo_Completion
  imports Demo_Trace Progress
begin

text \<open>The demonstration run goes on: its transaction is accepted, observed and confirmed.\<close>

definition demo_live :: child where
  "demo_live = (demo_child Broadcast (Some demo_plan) [demo_attempt\<lparr>atState := AttemptAccepted,
     atResult := Some (BAccepted demo_txid 200), atUpdated := 6\<rparr>] 6)\<lparr>chTxid := Some demo_txid, chProvenance := Some You\<rparr>"

definition demo_observing :: "(string \<times> tick_source) list \<Rightarrow> recover_pc option \<Rightarrow> (string \<times> tick_source \<times> tick_pc) option \<Rightarrow> engine" where
  "demo_observing q rc tk = (demo_engine [demo_prep Ready] [demo_started demo_live])\<lparr>
     egSent := [(demo_id, 0, demo_txid)], egQueue := q, egRecover := rc, egTick := tk\<rparr>"

lemma demo_live_sel [simp]:
  "chStatus demo_live = Broadcast" "chTxid demo_live = Some demo_txid" "chPlan demo_live = Some demo_plan"
  "chOperation demo_live = ClaimStakerRewards"
  by (simp_all add: demo_live_def)

lemma demo_live_fits [simp]:
  "childSchema demo_live" "child_checks demo_live" "rewardRunSchema sample_lib (demo_run st appr start t demo_live)"
  "sealed_run sample_lib (demo_run st appr start t demo_live)"
proof -
  show c: "childSchema demo_live" using demo_child_schema(1) by (simp add: childSchema_def demo_live_def)
  show "child_checks demo_live" by (simp add: demo_live_def demo_child_def child_checks_def)
  show "rewardRunSchema sample_lib (demo_run st appr start t demo_live)"
    using c by (simp add: rewardRunSchema_def demo_run_def in_flight_def)
  show "sealed_run sample_lib (demo_run st appr start t demo_live)"
    by (simp add: sealed_run_def demo_run_def demo_live_def demo_child_def demo_recipe_def recipe_children_match_def
      recipe_child_matches_def at_index_def)
qed

definition demo_logged :: child where
  "demo_logged = demo_sent\<lparr>chAttempts := [demo_attempt\<lparr>atState := AttemptAccepted,
     atResult := Some (BAccepted demo_txid 200), atUpdated := 6\<rparr>]\<rparr>"

lemma demo_logged_sel [simp]:
  "chStatus demo_logged = Materialized" "chSource demo_logged = None" "chTxid demo_logged = None"
  by (simp_all add: demo_logged_def demo_sent_def demo_child_def)

lemma demo_logged_live:
  "demo_logged\<lparr>chStatus := Broadcast, chTxid := Some demo_txid, chProvenance := Some You, chFailure := None,
     chSource := None, chUpdated := 6\<rparr> = demo_live"
  by (simp add: demo_live_def demo_logged_def demo_sent_def demo_child_def)

lemma demo_upd: "demo_run st appr start t c'\<lparr>rnChildren := [c]\<rparr> = demo_run st appr start t c"
  by (simp add: demo_run_def)

lemma demo_recorded:
  "record_submission (demo_started demo_waiting) 0 0 AttemptAccepted demo_txid (BAccepted demo_txid 200) 6
     \<lparr>stLeases = ls, stRuns = [demo_started demo_sent], stPreps = ps, stSweeps = []\<rparr> =
   (Inr (), \<lparr>stLeases = ls, stRuns = [demo_started demo_live], stPreps = ps, stSweeps = []\<rparr>)"
proof -
  have a: "updateAttempt demo_id 0 0 AttemptAccepted (Some (BAccepted demo_txid 200)) 6
     \<lparr>stLeases = ls, stRuns = [demo_started demo_sent], stPreps = ps, stSweeps = []\<rparr> =
     (Inr (), \<lparr>stLeases = ls, stRuns = [demo_started demo_logged], stPreps = ps, stSweeps = []\<rparr>)"
    by (simp add: updateAttempt_def update_child_row_def row_update_def demo_upd demo_logged_def)
  show ?thesis
    by (simp add: record_submission_def ebind_def a updateChild_def requireChild_def child_row_def at_index_def
        write_child_def update_child_row_def row_update_def demo_upd eread_def eguard_def eatomic_def eret_def
        no_child_patch_def coalesce_def demo_logged_live)
qed

lemma demo_accepted:
  "broadcast_arrives demo_config (Inr (BAccepted demo_txid 200)) 6 demo_state = demo_observing [] None None"
  by (simp add: broadcast_arrives_def demo_state_def demo_ticking_def demo_observing_def demo_engine_def boot_def
      on_store_def tick_broadcasted_def ebind_def eret_def demo_recorded terminal_run_def
      settle_tick_def release_queue_def empty_store_def demo_signed_def)

lemma demo_get_live [simp]:
  "run_row \<lparr>stLeases = ls, stRuns = [demo_run st appr start t demo_live], stPreps = ps, stSweeps = gs\<rparr> demo_id =
     Some (demo_run st appr start t demo_live)"
  by simp

lemma demo_recover:
  "snd (recover demo_config False 40000 (demo_observing [] None None)) =
     demo_observing [] (Some (RecoverNext [demo_started demo_live])) None"
proof -
  have "retainCadence ids (\<lambda>x. None) = (\<lambda>x. None)" for ids by (simp add: retainCadence_def)
  then show ?thesis
    by (simp add: recover_def begin_observation_def demo_observing_def demo_engine_def boot_def Let_def ebind_def
        on_store_def listUnfinished_def requireAll_def requireRun_def getRun_def eread_def eret_def elift_def
        emodify_def)
qed

lemma demo_requeue:
  "recover_step demo_config 40000 (demo_observing [] (Some (RecoverNext [demo_started demo_live])) None) =
     demo_observing [(demo_id, FromRecovery)] (Some (RecoverWait [])) None"
  by (simp add: recover_step_def demo_observing_def demo_engine_def boot_def on_store_def recover_run_def eret_def
      queue_tick_def)

lemma demo_due:
  "run_queue demo_config open_control 40000 40000 (demo_observing [(demo_id, FromRecovery)] (Some (RecoverWait [])) None) =
     demo_observing [] (Some (RecoverWait []))
       (Some (demo_id, FromRecovery, TickReconcile (demo_started demo_live) 0 demo_plan demo_txid 40000))"
  by (simp add: run_queue_def demo_observing_def demo_engine_def boot_def Let_def on_store_def tick_start_def
      serviceGet_def getRun_def ebind_def eread_def eret_def elift_def assertSealedRun_def start_running_def
      expireRunningRun_def runtime_elapsed_def at_index_def tick_child_def tick_broadcast_child_def childPlan_def
      requireChild_def child_row_def isDue_def settle_tick_def)

text \<open>The state in which the recovery loop awaits the outcome of the submitted transaction.\<close>

definition demo_waiting_receipt :: engine where
  "demo_waiting_receipt = demo_observing [] (Some (RecoverWait []))
     (Some (demo_id, FromRecovery, TickReconcile (demo_started demo_live) 0 demo_plan demo_txid 40000))"

lemma demo_receipt_reachable: "reachable demo_config demo_waiting_receipt"
proof -
  note S = reachable_by_run[where C = demo_config]
  note s1 = S[OF demo_state_reachable run_step.BroadcastResult, of "Inr (BAccepted demo_txid 200)" 6, unfolded demo_accepted]
  note s2 = S[OF s1 run_step.Recover, of False 40000, unfolded demo_recover]
  note s3 = S[OF s2 run_step.RecoverStep, of 40000, unfolded demo_requeue]
  show ?thesis unfolding demo_waiting_receipt_def by (rule S[OF s3 run_step.Tick, of open_control 40000 40000, unfolded demo_due])
qed

lemma demo_receipt_sel [simp]:
  "egTick demo_waiting_receipt = Some (demo_id, FromRecovery,
     TickReconcile (demo_started demo_live) 0 demo_plan demo_txid 40000)"
  "last_opt (chAttempts demo_live) = Some (demo_attempt\<lparr>atState := AttemptAccepted,
     atResult := Some (BAccepted demo_txid 200), atUpdated := 6\<rparr>)"
  "run_row (egStore demo_waiting_receipt) demo_id = Some (demo_started demo_live)"
  by (simp_all add: demo_waiting_receipt_def demo_observing_def demo_engine_def run_row_def demo_live_def last_opt_def)

subsection \<open>The outcome arrives\<close>

definition demo_confirmed :: child where
  "demo_confirmed = (demo_child Confirmed (Some demo_plan) [demo_attempt\<lparr>atState := AttemptConfirmed,
     atResult := None, atUpdated := 40000\<rparr>] 40000)\<lparr>chTxid := Some demo_txid, chProvenance := Some You\<rparr>"

definition demo_resolved :: child where
  "demo_resolved = demo_live\<lparr>chStatus := Confirmed, chProvenance := Some You, chFailure := None, chSource := None,
     chUpdated := 40000\<rparr>"

definition demo_finished :: run where
  "demo_finished = (demo_started demo_confirmed)\<lparr>rnCursor := 1, rnGasSpent := 2500, rnUpdated := 40000\<rparr>"

definition demo_finishing :: "(string \<times> tick_source) list \<Rightarrow> recover_pc option \<Rightarrow> engine" where
  "demo_finishing q rc = (demo_engine [demo_prep Ready] [demo_finished])\<lparr>
     egSent := [(demo_id, 0, demo_txid)], egQueue := q, egRecover := rc,
     egCadence := recordCadence demo_txid False 40001 None Map.empty\<rparr>"

lemma demo_resolved_sel [simp]:
  "chAttempts demo_resolved = chAttempts demo_live" "child_checks demo_resolved" "childSchema demo_resolved"
  "chStatus demo_resolved = Confirmed"
  using demo_live_fits(1) by (simp_all add: demo_resolved_def demo_live_def demo_child_def child_checks_def childSchema_def)

lemma demo_resolves:
  "demo_resolved\<lparr>chAttempts := [demo_attempt\<lparr>atState := AttemptConfirmed, atResult := None, atUpdated := 40000\<rparr>]\<rparr> = demo_confirmed"
  "chSource demo_live = None"
  by (simp_all add: demo_resolved_def demo_live_def demo_child_def demo_confirmed_def)

lemma demo_finished_sel [simp]:
  "rnId demo_finished = demo_id" "rnStatus demo_finished = Running" "rnCursor demo_finished = 1"
  "rnChildren demo_finished = [demo_confirmed]" "rnWallet demo_finished = ''SPW''"
  "rnRuntimeExpires demo_finished = Some 21600005"
  by (simp_all add: demo_finished_def)

lemma demo_finished_fits [simp]: "rewardRunSchema sample_lib demo_finished"
proof -
  have "childSchema demo_confirmed" "chStatus demo_confirmed \<noteq> Broadcast"
    using demo_live_fits(1) by (simp_all add: childSchema_def demo_live_def demo_confirmed_def)
  from demo_run_schema[OF this(2,1), of Running "Some 4" "Some 5" 5] show ?thesis
    by (simp add: rewardRunSchema_def demo_finished_def in_flight_def)
qed

lemma demo_confirm:
  "reconcile_arrives demo_config (Inr (RecConfirmed None)) 40001 demo_waiting_receipt =
     demo_finishing [] (Some (RecoverNext []))"
proof -
  have u: "updateChild demo_id 0 [Broadcast] Confirmed 40000 (no_child_patch\<lparr>cpProvenance := Some You, cpSource := None\<rparr>)
      \<lparr>stLeases = ls, stRuns = [demo_started demo_live], stPreps = ps, stSweeps = []\<rparr> =
     (Inr demo_resolved, \<lparr>stLeases = ls, stRuns = [demo_started demo_resolved], stPreps = ps, stSweeps = []\<rparr>)" for ls ps
    by (simp add: updateChild_def requireChild_def child_row_def at_index_def write_child_def update_child_row_def
        row_update_def demo_upd eread_def eguard_def eatomic_def ebind_def no_child_patch_def coalesce_def
        demo_resolves(2) flip: demo_resolved_def)
  have a: "updateAttempt demo_id 0 0 AttemptConfirmed None 40000
      \<lparr>stLeases = ls, stRuns = [demo_started demo_resolved], stPreps = ps, stSweeps = []\<rparr> =
     (Inr (), \<lparr>stLeases = ls, stRuns = [demo_started demo_confirmed], stPreps = ps, stSweeps = []\<rparr>)" for ls ps
    using demo_resolves(1)
    by (simp add: updateAttempt_def update_child_row_def row_update_def demo_upd demo_live_def)
  have c: "advanceCursor sample_lib demo_id 0 2500 40000
      \<lparr>stLeases = ls, stRuns = [demo_started demo_confirmed], stPreps = ps, stSweeps = []\<rparr> =
     (Inr demo_finished, \<lparr>stLeases = ls, stRuns = [demo_finished], stPreps = ps, stSweeps = []\<rparr>)" for ls ps
    using demo_finished_fits
    by (simp add: advanceCursor_def ebind_def eatomic_def requireRun_def getRun_def eread_def eret_def row_update_def
        run_row_def flip: demo_finished_def[simplified])
  have as: "attempts demo_id 0 \<lparr>stLeases = ls, stRuns = [demo_started demo_resolved], stPreps = ps, stSweeps = []\<rparr> =
      [demo_attempt\<lparr>atState := AttemptAccepted, atResult := Some (BAccepted demo_txid 200), atUpdated := 6\<rparr>]" for ls ps
    by (simp add: attempts_def child_row_def at_index_def demo_live_def)
  have r: "record_resolution sample_lib (demo_started demo_live) 0 40000 Confirmed None
      \<lparr>stLeases = ls, stRuns = [demo_started demo_live], stPreps = ps, stSweeps = []\<rparr> =
     (Inr TickDone, \<lparr>stLeases = ls, stRuns = [demo_finished], stPreps = ps, stSweeps = []\<rparr>)" for ls ps
    by (simp add: record_resolution_def ebind_def u a c as Let_def last_opt_def eret_def)
  show ?thesis
    by (simp add: reconcile_arrives_def demo_waiting_receipt_def demo_observing_def demo_engine_def boot_def Let_def
        tick_reconciled_def on_store_def r settle_tick_def release_queue_def demo_finishing_def retry_of_def
        terminal_run_def)
qed

text \<open>The next round of the recovery loop queues the run without children left.\<close>

definition demo_last :: engine where
  "demo_last = recover_step demo_config 80000 (snd (recover demo_config False 80000 (recover_step demo_config 40001
     (demo_finishing [] (Some (RecoverNext []))))))"

lemma demo_last_reachable: "reachable demo_config demo_last"
proof -
  note S = reachable_by_run[where C = demo_config]
  note s1 = S[OF demo_receipt_reachable run_step.Reconciled, of "Inr (RecConfirmed None)" 40001, unfolded demo_confirm]
  show ?thesis unfolding demo_last_def
    by (rule S[OF S[OF S[OF s1 run_step.RecoverStep] run_step.Recover] run_step.RecoverStep])
qed

lemma demo_last_sel [simp]:
  "egTick demo_last = None" "egQueue demo_last = [(demo_id, FromRecovery)]" "\<not> egClosed demo_last"
  "run_row (egStore demo_last) demo_id = Some demo_finished"
  by (simp_all add: demo_last_def recover_step_def recover_def begin_observation_def demo_finishing_def demo_engine_def
      boot_def Let_def ebind_def on_store_def listUnfinished_def requireAll_def requireRun_def getRun_def eread_def
      eret_def elift_def emodify_def run_row_def recover_run_def queue_tick_def reconciling_txids_def at_index_def)

end
