(* ===== verification/Mempool_Enumeration.thy ===== *)
theory Mempool_Enumeration
  imports Run_Tick
begin

text \<open>
  The bounded scan of the global mempool that finds every nonce in flight for a gas wallet
  (\<open>enumerateGasPayerMempoolActivity\<close>, apps/sidekick/src/chain-clients.ts).

  \<open>fetch n cursor\<close> is what the \<open>n\<close>-th page request of a scan answers, counted from 0: a page that
  passed the response schema, or an exception. Answers may depend on \<open>n\<close>, so the mempool may change
  between requests. \<open>JSON.stringify\<close> of the plain snapshot rows is compared as the rows themselves;
  \<open>le\<close> is \<open>localeCompare\<close> on transaction ids.
\<close>

subsection \<open>Pages and results\<close>

record participant =
  paAddress :: principal
  paNonce :: nat

record mempool_transaction =
  mtTxId :: txid
  mtSender :: participant
  mtSponsor :: "participant option"

record mempool_page =
  mpTotal :: nat
  mpLimit :: nat
  mpNext :: "string option"
  mpCurrent :: "string option"
  mpResults :: "mempool_transaction list"

datatype incomplete_reason =
    TransactionLimit | PageLimit | PageSizeMismatch | TotalChanged | CursorCycle | CursorMismatch
  | DuplicateTransaction | SnapshotChanged | CountMismatch

record enumeration =
  enReason :: "incomplete_reason option"
  enTransactions :: "mempool_transaction list"
  enPagesRead :: nat
  enObservedTransactionCount :: nat
  enReportedTotal :: nat

text \<open>\<open>enReason\<close> is \<open>None\<close> exactly when the status is \<open>complete\<close>.\<close>

record scan_options =
  soPageSize :: "nat option"
  soMaxPages :: "nat option"
  soMaxTransactions :: "nat option"

subsection \<open>One scan\<close>

text \<open>The rows of a page: added one by one until an id was seen before.\<close>

fun add_rows :: "mempool_transaction list \<Rightarrow> mempool_transaction list \<Rightarrow> bool \<times> mempool_transaction list" where
  "add_rows [] transactions = (True, transactions)"
| "add_rows (t # rows) transactions =
     (if mtTxId t \<in> mtTxId ` set transactions then (False, transactions)
      else add_rows rows (transactions @ [t]))"

definition scan_result ::
    "incomplete_reason option \<Rightarrow> mempool_transaction list \<Rightarrow> nat \<Rightarrow> nat option \<Rightarrow> enumeration" where
  "scan_result reason transactions pagesRead reportedTotal =
     \<lparr>enReason = reason, enTransactions = transactions, enPagesRead = pagesRead,
      enObservedTransactionCount = card (mtTxId ` set transactions),
      enReportedTotal = (case reportedTotal of None \<Rightarrow> 0 | Some n \<Rightarrow> n)\<rparr>"

text \<open>
  One page, of the scan state given: the scan's result, or the rows so far, the next cursor and the
  total_rows. \<open>pagesRead\<close> counts this page.
\<close>

definition scan_page ::
    "nat \<Rightarrow> nat \<Rightarrow> mempool_transaction list \<Rightarrow> string list \<Rightarrow> string option \<Rightarrow> nat \<Rightarrow> nat option \<Rightarrow> mempool_page
     \<Rightarrow> enumeration + (mempool_transaction list \<times> string \<times> nat)" where
  "scan_page pageSize maxTransactions transactions requestedCursors cursor pagesRead reportedTotal page =
     (if mpLimit page \<noteq> pageSize \<or> length (mpResults page) > mpLimit page
      then Inl (scan_result (Some PageSizeMismatch) transactions pagesRead reportedTotal)
      else if cursor \<noteq> None \<and> mpCurrent page \<noteq> cursor
      then Inl (scan_result (Some CursorMismatch) transactions pagesRead reportedTotal)
      else
        let total_rows = (case reportedTotal of None \<Rightarrow> mpTotal page | Some n \<Rightarrow> n) in
        if mpTotal page \<noteq> total_rows
        then Inl (scan_result (Some TotalChanged) transactions pagesRead reportedTotal)
        else
          let (fresh, transactions) = add_rows (mpResults page) transactions;
              observed = card (mtTxId ` set transactions) in
          if \<not> fresh
          then Inl (scan_result (Some DuplicateTransaction) transactions pagesRead (Some total_rows))
          else if total_rows > maxTransactions \<or> observed > maxTransactions
          then Inl (scan_result (Some TransactionLimit) transactions pagesRead (Some total_rows))
          else (case mpNext page of
              None \<Rightarrow> Inl (scan_result (if observed = total_rows then None else Some CountMismatch)
                        transactions pagesRead (Some total_rows))
            | Some next_cursor \<Rightarrow>
                if observed \<ge> total_rows
                then Inl (scan_result (Some CountMismatch) transactions pagesRead (Some total_rows))
                else if next_cursor \<in> set requestedCursors
                then Inl (scan_result (Some CursorCycle) transactions pagesRead (Some total_rows))
                else Inr (transactions, next_cursor, total_rows)))"

function scan_loop ::
    "(nat \<Rightarrow> string option \<Rightarrow> engine_error + mempool_page) \<Rightarrow> nat \<Rightarrow> nat \<Rightarrow> nat \<Rightarrow> mempool_transaction list
     \<Rightarrow> string list \<Rightarrow> string option \<Rightarrow> nat \<Rightarrow> nat option \<Rightarrow> engine_error + enumeration" where
  "scan_loop fetch pageSize maxPages maxTransactions transactions requestedCursors cursor pagesRead reportedTotal =
     (case fetch pagesRead cursor of
        Inl e \<Rightarrow> Inl e
      | Inr page \<Rightarrow>
          (case scan_page pageSize maxTransactions transactions requestedCursors cursor (pagesRead + 1)
                  reportedTotal page of
             Inl result \<Rightarrow> Inr result
           | Inr (transactions, next_cursor, total_rows) \<Rightarrow>
               if pagesRead + 1 \<ge> maxPages
               then Inr (scan_result (Some PageLimit) transactions (pagesRead + 1) (Some total_rows))
               else scan_loop fetch pageSize maxPages maxTransactions transactions
                      (next_cursor # requestedCursors) (Some next_cursor) (pagesRead + 1) (Some total_rows)))"
  by pat_completeness auto
termination
  by (relation "measure (\<lambda>(_, _, maxPages, _, _, _, _, pagesRead, _). maxPages - pagesRead)") auto

declare scan_loop.simps [simp del]

definition bounded_option :: "nat option \<Rightarrow> nat \<Rightarrow> nat \<Rightarrow> engine_error + nat" where
  "bounded_option v def limit =
     (let n = (case v of None \<Rightarrow> def | Some n \<Rightarrow> n) in
      if 1 \<le> n \<and> n \<le> limit then Inr n else Inl (OtherError ''ZodError''))"

definition enumerateMempoolEndpoint ::
    "(nat \<Rightarrow> string option \<Rightarrow> engine_error + mempool_page) \<Rightarrow> scan_options \<Rightarrow> engine_error + enumeration" where
  "enumerateMempoolEndpoint fetch options =
     bindr (bounded_option (soPageSize options) 50 50) (\<lambda>pageSize.
     bindr (bounded_option (soMaxPages options) 20 100) (\<lambda>maxPages.
     bindr (bounded_option (soMaxTransactions options) 1000 5000) (\<lambda>maxTransactions.
     scan_loop fetch pageSize maxPages maxTransactions [] [] None 0 None)))"

subsection \<open>The activity of one gas payer\<close>

definition canonicalMempoolSnapshot ::
    "(txid \<Rightarrow> txid \<Rightarrow> bool) \<Rightarrow> mempool_transaction list \<Rightarrow> mempool_transaction list" where
  "canonicalMempoolSnapshot le transactions = sort_by (\<lambda>a b. le (mtTxId a) (mtTxId b)) transactions"

datatype nonce_role = OriginRole | SponsorRole

record nonce_activity =
  naTxid :: txid
  naPrincipal :: principal
  naNonce :: nat
  naRole :: nonce_role
  naOrigin :: participant
  naSponsor :: "participant option"

definition nonce_activities :: "principal \<Rightarrow> mempool_transaction \<Rightarrow> nonce_activity list" where
  "nonce_activities p t =
     (let activity = (\<lambda>n role. \<lparr>naTxid = mtTxId t, naPrincipal = p, naNonce = n, naRole = role,
            naOrigin = mtSender t, naSponsor = mtSponsor t\<rparr>) in
      (if paAddress (mtSender t) = p then [activity (paNonce (mtSender t)) OriginRole] else []) @
      (case mtSponsor t of
         Some s \<Rightarrow> if paAddress s = p then [activity (paNonce s) SponsorRole] else []
       | None \<Rightarrow> []))"

record activity_result =
  acReason :: "incomplete_reason option"
  acPrincipal :: principal
  acNonceActivities :: "nonce_activity list"
  acPagesRead :: nat
  acObservedTransactionCount :: nat
  acReportedTotal :: nat

text \<open>\<open>fetch1\<close> and \<open>fetch2\<close> answer the first and the second scan.\<close>

definition enumerateGasPayerMempoolActivity ::
    "(principal \<Rightarrow> bool) \<Rightarrow> (txid \<Rightarrow> txid \<Rightarrow> bool)
     \<Rightarrow> (nat \<Rightarrow> string option \<Rightarrow> engine_error + mempool_page) \<Rightarrow> (nat \<Rightarrow> string option \<Rightarrow> engine_error + mempool_page)
     \<Rightarrow> principal \<Rightarrow> scan_options \<Rightarrow> engine_error + activity_result" where
  "enumerateGasPayerMempoolActivity standardPrincipal le fetch1 fetch2 p options =
     bindr (guardr (standardPrincipal p) (OtherError ''ZodError'')) (\<lambda>_.
     bindr (enumerateMempoolEndpoint fetch1 options) (\<lambda>firstEnumeration.
     bindr (if enReason firstEnumeration = None
            then bindr (enumerateMempoolEndpoint fetch2 options) (\<lambda>secondEnumeration.
              Inr (if enReason secondEnumeration = None \<and>
                      (enReportedTotal secondEnumeration \<noteq> enReportedTotal firstEnumeration \<or>
                       canonicalMempoolSnapshot le (enTransactions secondEnumeration) \<noteq>
                         canonicalMempoolSnapshot le (enTransactions firstEnumeration))
                   then secondEnumeration\<lparr>enReason := Some SnapshotChanged\<rparr> else secondEnumeration,
                   enPagesRead firstEnumeration + enPagesRead secondEnumeration))
            else Inr (firstEnumeration, enPagesRead firstEnumeration)) (\<lambda>(enumeration, pagesRead).
     Inr \<lparr>acReason = enReason enumeration, acPrincipal = p,
       acNonceActivities = concat (map (nonce_activities p) (enTransactions enumeration)),
       acPagesRead = pagesRead,
       acObservedTransactionCount = enObservedTransactionCount enumeration,
       acReportedTotal = enReportedTotal enumeration\<rparr>)))"

subsection \<open>A scan is bounded\<close>

lemma scan_page_count:
  "scan_page ps mt txs seen c n rt page = Inl r \<Longrightarrow> enPagesRead r = n"
  by (auto simp: scan_page_def scan_result_def Let_def split: if_splits option.splits prod.splits)

lemma scan_loop_bounded:
  assumes "pagesRead < maxPages"
  shows "case scan_loop fetch pageSize maxPages maxTx txs seen cursor pagesRead rt of
      Inr r \<Rightarrow> pagesRead < enPagesRead r \<and> enPagesRead r \<le> maxPages
    | Inl e \<Rightarrow> \<exists>n c. n < maxPages \<and> fetch n c = Inl e"
  using assms
proof (induction fetch pageSize maxPages maxTx txs seen cursor pagesRead rt rule: scan_loop.induct)
  case (1 fetch pageSize maxPages maxTx txs seen cursor pagesRead rt)
  show ?case
  proof (cases "fetch pagesRead cursor")
    case (Inl e)
    then show ?thesis
      using 1(2) by (auto simp: scan_loop.simps [of fetch pageSize])
  next
    case page: (Inr page)
    show ?thesis
    proof (cases "scan_page pageSize maxTx txs seen cursor (pagesRead + 1) rt page")
      case (Inl r)
      then show ?thesis
        using page 1(2) scan_page_count [OF Inl] by (simp add: scan_loop.simps [of fetch pageSize])
    next
      case (Inr next')
      obtain txs' c tot where n: "next' = (txs', c, tot)"
        by (cases next')
      show ?thesis
        using page Inr n 1(2) 1(1) [OF page Inr n [symmetric] refl]
        by (auto simp: scan_loop.simps [of fetch pageSize maxPages maxTx txs] scan_result_def split: sum.splits)
    qed
  qed
qed

lemma scan_loop_local:
  assumes "pagesRead < maxPages" "\<And>n c. n < maxPages \<Longrightarrow> fetch n c = fetch' n c"
  shows "scan_loop fetch pageSize maxPages maxTx txs seen cursor pagesRead rt =
     scan_loop fetch' pageSize maxPages maxTx txs seen cursor pagesRead rt"
  using assms
proof (induction fetch pageSize maxPages maxTx txs seen cursor pagesRead rt rule: scan_loop.induct)
  case (1 fetch pageSize maxPages maxTx txs seen cursor pagesRead rt)
  then show ?case
    by (subst (1 2) scan_loop.simps) (auto split: sum.splits prod.splits)
qed

subsection \<open>A complete scan is a complete list\<close>

lemma add_rows_distinct:
  "add_rows rows txs = (ok, txs') \<Longrightarrow> distinct (map mtTxId txs) \<Longrightarrow>
     distinct (map mtTxId txs') \<and> (ok \<longrightarrow> txs' = txs @ rows)"
  by (induction rows txs rule: add_rows.induct) (auto split: if_splits)

text \<open>Pages linked by their cursors, answered in order from the \<open>n\<close>-th request on, to the last one.\<close>

fun linked :: "(nat \<Rightarrow> string option \<Rightarrow> engine_error + mempool_page) \<Rightarrow> nat \<Rightarrow> string option \<Rightarrow> mempool_page list \<Rightarrow> bool" where
  "linked fetch n cursor [] \<longleftrightarrow> False"
| "linked fetch n cursor (p # ps) \<longleftrightarrow> fetch n cursor = Inr p \<and>
     (case mpNext p of None \<Rightarrow> ps = [] | Some c \<Rightarrow> linked fetch (n + 1) (Some c) ps)"

lemma card_ids: "distinct (map mtTxId txs) \<Longrightarrow> card (mtTxId ` set txs) = length txs"
  by (metis distinct_card length_map set_map)

lemma scan_page_complete:
  assumes "scan_page ps mt txs seen c n rt page = Inl r" "enReason r = None" "distinct (map mtTxId txs)"
  shows "mpNext page = None \<and> enTransactions r = txs @ mpResults page \<and> distinct (map mtTxId (enTransactions r)) \<and>
     enReportedTotal r = length (enTransactions r) \<and> enObservedTransactionCount r = length (enTransactions r) \<and>
     mpTotal page = enReportedTotal r \<and> enReportedTotal r \<le> mt \<and> (\<forall>m. rt = Some m \<longrightarrow> enReportedTotal r = m)"
proof -
  obtain ok txs' where rows: "add_rows (mpResults page) txs = (ok, txs')"
    by fastforce
  note d = add_rows_distinct [OF rows assms(3)]
  have "card (mtTxId ` set txs') = length txs'"
    using d by (intro card_ids) simp
  then have "ok \<and> mpNext page = None \<and> enTransactions r = txs' \<and> enReportedTotal r = length txs' \<and>
      enObservedTransactionCount r = length txs' \<and> mpTotal page = length txs' \<and> length txs' \<le> mt \<and>
      (\<forall>m. rt = Some m \<longrightarrow> length txs' = m)"
    using assms(1,2) by (auto simp: scan_page_def scan_result_def Let_def rows split: if_splits option.splits)
  then show ?thesis
    using d by metis
qed

lemma scan_page_goes_on:
  assumes "scan_page ps mt txs seen c n rt page = Inr (txs', c', tot)" "distinct (map mtTxId txs)"
  shows "mpNext page = Some c' \<and> txs' = txs @ mpResults page \<and> distinct (map mtTxId txs') \<and>
     mpTotal page = tot \<and> (\<forall>m. rt = Some m \<longrightarrow> tot = m)"
proof -
  obtain ok txs'' where rows: "add_rows (mpResults page) txs = (ok, txs'')"
    by fastforce
  note d = add_rows_distinct [OF rows assms(2)]
  show ?thesis
    using assms(1) d
    by (auto simp: scan_page_def Let_def rows split: if_splits option.splits)
qed

lemma scan_loop_complete:
  assumes "scan_loop fetch pageSize maxPages maxTx txs seen cursor pagesRead rt = Inr r" "enReason r = None"
    "distinct (map mtTxId txs)"
  shows "\<exists>pages. linked fetch pagesRead cursor pages \<and> enPagesRead r = pagesRead + length pages \<and>
     enTransactions r = txs @ concat (map mpResults pages) \<and> distinct (map mtTxId (enTransactions r)) \<and>
     enReportedTotal r = length (enTransactions r) \<and> enObservedTransactionCount r = length (enTransactions r) \<and>
     (\<forall>p \<in> set pages. mpTotal p = enReportedTotal r) \<and> enReportedTotal r \<le> maxTx \<and>
     (\<forall>m. rt = Some m \<longrightarrow> enReportedTotal r = m)"
  using assms
proof (induction fetch pageSize maxPages maxTx txs seen cursor pagesRead rt rule: scan_loop.induct)
  case (1 fetch pageSize maxPages maxTx txs seen cursor pagesRead rt)
  obtain page where page: "fetch pagesRead cursor = Inr page"
    using 1(2) by (auto simp: scan_loop.simps [of fetch pageSize] split: sum.splits)
  show ?case
  proof (cases "scan_page pageSize maxTx txs seen cursor (pagesRead + 1) rt page")
    case (Inl r')
    then have "r' = r"
      using 1(2) page by (simp add: scan_loop.simps [of fetch pageSize])
    then have "scan_page pageSize maxTx txs seen cursor (pagesRead + 1) rt page = Inl r"
      using Inl by simp
    note c = scan_page_complete [OF this 1(3,4)] and k = scan_page_count [OF this]
    show ?thesis
    proof (intro exI [of _ "[page]"] conjI)
      show "linked fetch pagesRead cursor [page]"
        using c by (simp add: page)
      show "enPagesRead r = pagesRead + length [page]"
        using k by simp
      show "enTransactions r = txs @ concat (map mpResults [page])"
        using c by simp
      show "\<forall>p \<in> set [page]. mpTotal p = enReportedTotal r"
        using c by simp
    qed (use c in blast)+
  next
    case (Inr next')
    obtain txs' c tot where n: "next' = (txs', c, tot)"
      by (cases next')
    note s = scan_page_goes_on [OF Inr [unfolded n] 1(4)]
    have step: "(if pagesRead + 1 \<ge> maxPages then Inr (scan_result (Some PageLimit) txs' (pagesRead + 1) (Some tot))
        else scan_loop fetch pageSize maxPages maxTx txs' (c # seen) (Some c) (pagesRead + 1) (Some tot)) = Inr r"
      using 1(2) unfolding scan_loop.simps [of fetch pageSize maxPages maxTx txs seen cursor pagesRead rt]
      by (simp only: page Inr n sum.case prod.case)
    have more: "\<not> maxPages \<le> pagesRead + 1"
      and rest: "scan_loop fetch pageSize maxPages maxTx txs' (c # seen) (Some c) (pagesRead + 1) (Some tot) = Inr r"
      using step 1(3) by (auto simp: scan_result_def split: if_splits)
    obtain pages where "linked fetch (pagesRead + 1) (Some c) pages"
      "enPagesRead r = pagesRead + 1 + length pages" "enTransactions r = txs' @ concat (map mpResults pages)"
      "distinct (map mtTxId (enTransactions r))" "enReportedTotal r = length (enTransactions r)"
      "enObservedTransactionCount r = length (enTransactions r)"
      "\<forall>p \<in> set pages. mpTotal p = enReportedTotal r" "enReportedTotal r \<le> maxTx" "enReportedTotal r = tot"
      using 1(1) [OF page Inr n [symmetric] refl more rest 1(3)] s by blast
    then show ?thesis
      using s page by (intro exI [of _ "page # pages"]) auto
  qed
qed

lemma bounded_option_cases:
  "bounded_option v d m = Inl (OtherError ''ZodError'') \<or> (\<exists>n. bounded_option v d m = Inr n)"
  by (simp add: bounded_option_def Let_def)

definition page_limit :: "scan_options \<Rightarrow> nat" where
  "page_limit options = (case soMaxPages options of None \<Rightarrow> 20 | Some n \<Rightarrow> n)"

text \<open>
  The mempool scan always ends. Whatever the API answers, a scan issues at most the configured
  number of page requests, at most a hundred: it either stops on a result after that many pages or
  fewer, or on the exception of one of those requests, and no later answer can change what it returns.
\<close>
theorem mempool_scan_ends:
  "(case enumerateMempoolEndpoint fetch options of
      Inr r \<Rightarrow> 1 \<le> enPagesRead r \<and> enPagesRead r \<le> page_limit options \<and> page_limit options \<le> 100
    | Inl e \<Rightarrow> e = OtherError ''ZodError'' \<or> (\<exists>n c. n < page_limit options \<and> fetch n c = Inl e)) \<and>
   ((\<forall>n c. n < page_limit options \<longrightarrow> fetch n c = fetch' n c) \<longrightarrow>
      enumerateMempoolEndpoint fetch options = enumerateMempoolEndpoint fetch' options)"
proof -
  obtain ps where ps: "bounded_option (soPageSize options) 50 50 = Inl (OtherError ''ZodError'') \<or>
      bounded_option (soPageSize options) 50 50 = Inr ps"
    using bounded_option_cases by blast
  have pages: "bounded_option (soMaxPages options) 20 100 =
      (if 1 \<le> page_limit options \<and> page_limit options \<le> 100 then Inr (page_limit options) else Inl (OtherError ''ZodError''))"
    by (simp add: bounded_option_def page_limit_def Let_def)
  obtain mt where mt: "bounded_option (soMaxTransactions options) 1000 5000 = Inl (OtherError ''ZodError'') \<or>
      bounded_option (soMaxTransactions options) 1000 5000 = Inr mt"
    using bounded_option_cases by blast
  show ?thesis
    using ps pages mt scan_loop_bounded [of 0 "page_limit options" fetch ps mt "[]" "[]" None None]
      scan_loop_local [of 0 "page_limit options" fetch fetch' ps mt "[]" "[]" None None]
    by (auto simp: enumerateMempoolEndpoint_def split: sum.splits if_splits)
qed

definition transaction_limit :: "scan_options \<Rightarrow> nat" where
  "transaction_limit options = (case soMaxTransactions options of None \<Rightarrow> 1000 | Some n \<Rightarrow> n)"

lemma enumerate_loop:
  assumes "enumerateMempoolEndpoint fetch options = Inr r"
  obtains ps where "scan_loop fetch ps (page_limit options) (transaction_limit options) [] [] None 0 None = Inr r"
    "1 \<le> page_limit options"
  using assms
  by (auto simp: enumerateMempoolEndpoint_def bounded_option_def page_limit_def transaction_limit_def Let_def
      split: if_splits)

text \<open>
  A scan reported complete is a complete list of the mempool as it was served. Its transactions are
  those of a chain of pages, each fetched under the cursor its predecessor named and the last naming
  none; no transaction occurs twice; and every page of the chain reported the same total, which is the
  number of transactions collected and within the configured limit.
\<close>
theorem complete_scan_is_whole:
  assumes "enumerateMempoolEndpoint fetch options = Inr r" "enReason r = None"
  shows "\<exists>pages. linked fetch 0 None pages \<and> length pages = enPagesRead r \<and>
     enTransactions r = concat (map mpResults pages) \<and> distinct (map mtTxId (enTransactions r)) \<and>
     (\<forall>p \<in> set pages. mpTotal p = length (enTransactions r)) \<and>
     length (enTransactions r) \<le> transaction_limit options"
proof -
  obtain ps where "scan_loop fetch ps (page_limit options) (transaction_limit options) [] [] None 0 None = Inr r"
    using assms(1) by (rule enumerate_loop)
  from scan_loop_complete [OF this assms(2)] show ?thesis
    by fastforce
qed

subsection \<open>A mempool that stands still\<close>

text \<open>
  A server of a fixed list of rows in pages of \<open>psize\<close> rows; \<open>name i\<close> is the cursor it gives to the page
  that starts at row \<open>i\<close>.
\<close>

definition serve ::
    "(nat \<Rightarrow> string) \<Rightarrow> (string \<Rightarrow> nat) \<Rightarrow> mempool_transaction list \<Rightarrow> nat \<Rightarrow> string option \<Rightarrow> mempool_page" where
  "serve name offset rows psize cursor =
     (let i = (case cursor of None \<Rightarrow> 0 | Some c \<Rightarrow> offset c) in
      \<lparr>mpTotal = length rows, mpLimit = psize,
       mpNext = (if i + psize < length rows then Some (name (i + psize)) else None),
       mpCurrent = Some (name i), mpResults = take psize (drop i rows)\<rparr>)"

lemma add_rows_fresh:
  "distinct (map mtTxId (txs @ rows)) \<Longrightarrow> add_rows rows txs = (True, txs @ rows)"
  by (induction rows arbitrary: txs) auto

lemma scan_served_page:
  assumes "\<And>i. offset (name i) = i" "distinct (map mtTxId rows)" "length rows \<le> mt" "0 < psize"
    and cursor: "cursor = (if n = 0 then None else Some (name (n * psize)))"
    and rt: "rt = (if n = 0 then None else Some (length rows))"
    and seen: "seen = map (\<lambda>k. name (k * psize)) (rev [1..<Suc n])" and "n * psize \<le> length rows"
  shows "scan_page psize mt (take (n * psize) rows) seen cursor m rt (serve name offset rows psize cursor) =
     (if Suc n * psize < length rows then Inr (take (Suc n * psize) rows, name (Suc n * psize), length rows)
      else Inl (scan_result None rows m (Some (length rows))))"
proof -
  have inj: "name i = name j \<longleftrightarrow> i = j" for i j
    by (metis assms(1))
  have at: "(case cursor of None \<Rightarrow> 0 | Some c \<Rightarrow> offset c) = n * psize"
    by (simp add: cursor assms(1))
  have rows: "take (n * psize) rows @ take psize (drop (n * psize) rows) = take (Suc n * psize) rows"
    by (simp add: take_add [symmetric] add.commute)
  have "distinct (map mtTxId (take (Suc n * psize) rows))"
    using assms(2) by (metis distinct_take take_map)
  then have add: "add_rows (take psize (drop (n * psize) rows)) (take (n * psize) rows) = (True, take (Suc n * psize) rows)"
    using add_rows_fresh [of "take (n * psize) rows" "take psize (drop (n * psize) rows)"] by (simp only: rows)
  have count: "card (mtTxId ` set (take (Suc n * psize) rows)) = min (length rows) (Suc n * psize)"
    using card_ids \<open>distinct (map mtTxId (take (Suc n * psize) rows))\<close> by (metis length_take)
  have new: "name (Suc n * psize) \<notin> set seen"
    using assms(4) by (auto simp: seen inj simp del: mult_Suc)
  show ?thesis
    using assms(3,4) add count new unfolding scan_page_def serve_def at Let_def
    by (auto simp: rt cursor min_def add.commute)
qed

lemma scan_served:
  assumes "\<And>i. offset (name i) = i" "distinct (map mtTxId rows)" "length rows \<le> mt" "0 < psize"
    "length rows \<le> maxPages * psize" "n * psize \<le> length rows" "n < maxPages"
  shows "\<exists>k. scan_loop (\<lambda>_ c. Inr (serve name offset rows psize c)) psize maxPages mt (take (n * psize) rows)
     (map (\<lambda>k. name (k * psize)) (rev [1..<Suc n])) (if n = 0 then None else Some (name (n * psize))) n
     (if n = 0 then None else Some (length rows)) = Inr (scan_result None rows k (Some (length rows)))"
  using assms(6,7)
proof (induction "maxPages - n" arbitrary: n)
  case (Suc d)
  let ?fetch = "\<lambda>_ c. Inr (serve name offset rows psize c)"
  let ?seen = "map (\<lambda>k. name (k * psize)) (rev [1..<Suc n])"
  let ?cursor = "if n = 0 then None else Some (name (n * psize))"
  let ?rt = "if n = 0 then None else Some (length rows)"
  note page = scan_served_page [OF assms(1-4) refl refl refl Suc.prems(1), of "n + 1"]
  show ?case
  proof (cases "Suc n * psize < length rows")
    case True
    then have "Suc n * psize < maxPages * psize"
      using assms(5) by linarith
    then have more: "Suc n < maxPages"
      by (simp only: mult_less_cancel2)
    then have more': "(maxPages \<le> n + 1) = False"
      by simp
    have seen: "map (\<lambda>k. name (k * psize)) (rev [1..<Suc (Suc n)]) = name (Suc n * psize) # ?seen"
      by simp
    have "\<exists>k. scan_loop ?fetch psize maxPages mt (take (Suc n * psize) rows) (name (Suc n * psize) # ?seen)
        (Some (name (Suc n * psize))) (n + 1) (Some (length rows)) = Inr (scan_result None rows k (Some (length rows)))"
      using Suc.hyps(1) [of "Suc n"] Suc.hyps(2) True more by (simp only: seen) simp
    moreover have "scan_loop ?fetch psize maxPages mt (take (n * psize) rows) ?seen ?cursor n ?rt =
        scan_loop ?fetch psize maxPages mt (take (Suc n * psize) rows) (name (Suc n * psize) # ?seen)
        (Some (name (Suc n * psize))) (n + 1) (Some (length rows))"
      by (subst scan_loop.simps) (simp only: sum.case page True more' if_True if_False prod.case)
    ultimately show ?thesis by (simp only:)
  next
    case False
    then show ?thesis
      by (subst scan_loop.simps) (simp only: sum.case page if_False; blast)
  qed
qed simp

text \<open>
  A mempool that stands still is always found complete. If the API serves a fixed list of
  transactions, without repeated ids, in linked pages of the requested size, and the list fits the
  configured limits, the scan is complete and returns exactly that list, in order.
\<close>

theorem still_mempool_scanned:
  assumes "\<And>i. offset (name i) = i" "distinct (map mtTxId rows)"
    and "soPageSize options = Some psize" "1 \<le> psize" "psize \<le> 50"
    and "1 \<le> page_limit options" "page_limit options \<le> 100"
    and "1 \<le> transaction_limit options" "transaction_limit options \<le> 5000"
    and "length rows \<le> transaction_limit options" "length rows \<le> page_limit options * psize"
  shows "\<exists>r. enumerateMempoolEndpoint (\<lambda>_ c. Inr (serve name offset rows psize c)) options = Inr r \<and>
     enReason r = None \<and> enTransactions r = rows \<and> enReportedTotal r = length rows"
proof -
  have "enumerateMempoolEndpoint fetch options =
      scan_loop fetch psize (page_limit options) (transaction_limit options) [] [] None 0 None" for fetch
    using assms(3-9) unfolding page_limit_def transaction_limit_def
    by (simp add: enumerateMempoolEndpoint_def bounded_option_def)
  moreover obtain k where "scan_loop (\<lambda>_ c. Inr (serve name offset rows psize c)) psize (page_limit options)
      (transaction_limit options) [] [] None 0 None = Inr (scan_result None rows k (Some (length rows)))"
    using scan_served [OF assms(1,2,10) _ assms(11), of 0] assms(4,6) by auto
  ultimately show ?thesis
    by (simp add: scan_result_def)
qed

text \<open>
  C33: no nonce in flight is missed. When the activity of a gas payer is reported complete, two
  consecutive scans were complete and saw the same transactions, and the reported activities are
  exactly the nonces this principal uses in them, as the sender or as the sponsor: each such use is
  reported, and each report is such a use.
\<close>
theorem gas_payer_activity_complete:
  assumes "enumerateGasPayerMempoolActivity standardPrincipal le fetch1 fetch2 p options = Inr a"
    "acReason a = None"
  shows "\<exists>r1 r2. enumerateMempoolEndpoint fetch1 options = Inr r1 \<and> enReason r1 = None \<and>
     enumerateMempoolEndpoint fetch2 options = Inr r2 \<and> enReason r2 = None \<and>
     set (enTransactions r1) = set (enTransactions r2) \<and>
     (\<lambda>x. (naTxid x, naRole x, naNonce x)) ` set (acNonceActivities a) =
       {(mtTxId t, OriginRole, paNonce (mtSender t)) | t. t \<in> set (enTransactions r2) \<and> paAddress (mtSender t) = p} \<union>
       {(mtTxId t, SponsorRole, paNonce s) | t s. t \<in> set (enTransactions r2) \<and> mtSponsor t = Some s \<and> paAddress s = p}"
proof -
  obtain r1 r2 where scans: "enumerateMempoolEndpoint fetch1 options = Inr r1" "enReason r1 = None"
    "enumerateMempoolEndpoint fetch2 options = Inr r2" "enReason r2 = None"
    and same: "canonicalMempoolSnapshot le (enTransactions r2) = canonicalMempoolSnapshot le (enTransactions r1)"
    and acts: "acNonceActivities a = concat (map (nonce_activities p) (enTransactions r2))"
  proof -
    obtain r1 where r1: "enumerateMempoolEndpoint fetch1 options = Inr r1"
      using assms(1) by (cases "enumerateMempoolEndpoint fetch1 options")
        (simp_all add: enumerateGasPayerMempoolActivity_def)
    have first: "enReason r1 = None"
    proof (rule ccontr)
      assume "enReason r1 \<noteq> None"
      then have "acReason a = enReason r1"
        using assms(1) r1 by (auto simp: enumerateGasPayerMempoolActivity_def)
      then show False
        using assms(2) \<open>enReason r1 \<noteq> None\<close> by simp
    qed
    obtain r2 where r2: "enumerateMempoolEndpoint fetch2 options = Inr r2"
      using assms(1) r1 first by (cases "enumerateMempoolEndpoint fetch2 options")
        (simp_all add: enumerateGasPayerMempoolActivity_def)
    let ?changed = "enReason r2 = None \<and> (enReportedTotal r2 \<noteq> enReportedTotal r1 \<or>
        canonicalMempoolSnapshot le (enTransactions r2) \<noteq> canonicalMempoolSnapshot le (enTransactions r1))"
    have "acReason a = (if ?changed then Some SnapshotChanged else enReason r2)"
      "acNonceActivities a = concat (map (nonce_activities p) (enTransactions r2))"
      using assms(1) r1 r2 first by (simp_all add: enumerateGasPayerMempoolActivity_def) (auto split: if_splits)
    then show ?thesis
      using that r1 first r2 assms(2) by (simp split: if_splits)
  qed
  have "set (enTransactions r1) = set (enTransactions r2)"
    using same unfolding canonicalMempoolSnapshot_def by (metis set_sort_by)
  moreover have "(\<lambda>x. (naTxid x, naRole x, naNonce x)) ` set (nonce_activities p t) =
      (if paAddress (mtSender t) = p then {(mtTxId t, OriginRole, paNonce (mtSender t))} else {}) \<union>
      {(mtTxId t, SponsorRole, paNonce s) | s. mtSponsor t = Some s \<and> paAddress s = p}" for t
    by (auto simp: nonce_activities_def Let_def split: option.splits)
  note use = this
  have "(\<lambda>x. (naTxid x, naRole x, naNonce x)) ` set (acNonceActivities a) =
      (\<Union>t \<in> set (enTransactions r2). (\<lambda>x. (naTxid x, naRole x, naNonce x)) ` set (nonce_activities p t))"
    unfolding acts by (simp add: image_UN)
  then have "(\<lambda>x. (naTxid x, naRole x, naNonce x)) ` set (acNonceActivities a) =
       {(mtTxId t, OriginRole, paNonce (mtSender t)) | t. t \<in> set (enTransactions r2) \<and> paAddress (mtSender t) = p} \<union>
       {(mtTxId t, SponsorRole, paNonce s) | t s. t \<in> set (enTransactions r2) \<and> mtSponsor t = Some s \<and> paAddress s = p}"
    unfolding use by (auto split: if_splits)
  ultimately show ?thesis
    using scans by blast
qed

subsection \<open>A concrete mempool\<close>

definition demo_tx :: "nat \<Rightarrow> principal \<Rightarrow> principal option \<Rightarrow> mempool_transaction" where
  "demo_tx n sender sponsor = \<lparr>mtTxId = replicate n CHR ''x'', mtSender = \<lparr>paAddress = sender, paNonce = n\<rparr>,
     mtSponsor = map_option (\<lambda>a. \<lparr>paAddress = a, paNonce = n + 10\<rparr>) sponsor\<rparr>"

definition demo_rows :: "mempool_transaction list" where
  "demo_rows = [demo_tx 1 ''W'' None, demo_tx 2 ''A'' (Some ''W''), demo_tx 3 ''A'' None]"

definition demo_options :: scan_options where
  "demo_options = \<lparr>soPageSize = Some 2, soMaxPages = None, soMaxTransactions = None\<rparr>"

abbreviation demo_fetch :: "nat \<Rightarrow> string option \<Rightarrow> engine_error + mempool_page" where
  "demo_fetch \<equiv> (\<lambda>_ c. Inr (serve (\<lambda>i. replicate i CHR ''c'') length demo_rows 2 c))"

lemma demo_rows_distinct: "distinct (map mtTxId demo_rows)"
  by code_simp

lemma demo_limits: "page_limit demo_options = 20" "transaction_limit demo_options = 1000"
  "soPageSize demo_options = Some 2" "length demo_rows = 3"
  by (simp_all add: page_limit_def transaction_limit_def demo_options_def demo_rows_def)

lemma demo_scan:
  obtains r where "enumerateMempoolEndpoint demo_fetch demo_options = Inr r" "enReason r = None"
    "enTransactions r = demo_rows"
proof -
  have "case enumerateMempoolEndpoint demo_fetch demo_options of
      Inr r \<Rightarrow> enReason r = None \<and> enTransactions r = demo_rows | Inl _ \<Rightarrow> False"
    by code_simp
  then show ?thesis
    using that by (auto split: sum.splits)
qed

theorem still_mempool_scanned_witness:
  "\<exists>r. enumerateMempoolEndpoint demo_fetch demo_options = Inr r \<and> enReason r = None \<and> enTransactions r = demo_rows"
  using still_mempool_scanned [of length "\<lambda>i. replicate i CHR ''c''" demo_rows demo_options 2]
    demo_limits demo_rows_distinct by auto

theorem complete_scan_is_whole_witness:
  "\<exists>r pages. enumerateMempoolEndpoint demo_fetch demo_options = Inr r \<and> linked demo_fetch 0 None pages \<and>
     enTransactions r = concat (map mpResults pages)"
proof -
  obtain r where "enumerateMempoolEndpoint demo_fetch demo_options = Inr r" "enReason r = None"
    by (rule demo_scan)
  with complete_scan_is_whole [OF this] show ?thesis
    by blast
qed

theorem mempool_scan_ends_witness:
  "(\<exists>r. enumerateMempoolEndpoint demo_fetch demo_options = Inr r \<and> enPagesRead r \<le> 20) \<and>
   enumerateMempoolEndpoint (\<lambda>n c. if n < 20 then demo_fetch n c else Inl (OtherError ''late'')) demo_options =
     enumerateMempoolEndpoint demo_fetch demo_options"
proof -
  obtain r where r: "enumerateMempoolEndpoint demo_fetch demo_options = Inr r"
    by (rule demo_scan)
  show ?thesis
    using mempool_scan_ends [of demo_options demo_fetch demo_fetch] r
      mempool_scan_ends [of demo_options "\<lambda>n c. if n < 20 then demo_fetch n c else Inl (OtherError ''late'')" demo_fetch]
    by (simp add: demo_limits)
qed

theorem gas_payer_activity_complete_witness:
  "\<exists>a. enumerateGasPayerMempoolActivity (\<lambda>_. True) (\<le>) demo_fetch demo_fetch ''W'' demo_options = Inr a \<and>
     (''xx'', SponsorRole, 12) \<in> (\<lambda>x. (naTxid x, naRole x, naNonce x)) ` set (acNonceActivities a)"
proof -
  have "case enumerateGasPayerMempoolActivity (\<lambda>_. True) (\<le>) demo_fetch demo_fetch ''W'' demo_options of
      Inr a \<Rightarrow> acReason a = None | Inl _ \<Rightarrow> False"
    by code_simp
  then obtain a where a: "enumerateGasPayerMempoolActivity (\<lambda>_. True) (\<le>) demo_fetch demo_fetch ''W'' demo_options = Inr a"
    "acReason a = None"
    by (auto split: sum.splits)
  obtain r where r: "enumerateMempoolEndpoint demo_fetch demo_options = Inr r" "enTransactions r = demo_rows"
    by (rule demo_scan)
  have "demo_tx 2 ''A'' (Some ''W'') \<in> set demo_rows"
    by (simp add: demo_rows_def)
  moreover have "mtTxId (demo_tx 2 ''A'' (Some ''W'')) = ''xx''"
    "mtSponsor (demo_tx 2 ''A'' (Some ''W'')) = Some \<lparr>paAddress = ''W'', paNonce = 12\<rparr>"
    by (simp_all add: demo_tx_def numeral_2_eq_2)
  ultimately have "(''xx'', SponsorRole, 12) \<in> (\<lambda>x. (naTxid x, naRole x, naNonce x)) ` set (acNonceActivities a)"
  proof -
    assume "demo_tx 2 ''A'' (Some ''W'') \<in> set demo_rows" "mtTxId (demo_tx 2 ''A'' (Some ''W'')) = ''xx''"
      "mtSponsor (demo_tx 2 ''A'' (Some ''W'')) = Some \<lparr>paAddress = ''W'', paNonce = 12\<rparr>"
    then have "(''xx'', SponsorRole, 12) \<in> {(mtTxId t, SponsorRole, paNonce s) | t s.
        t \<in> set (enTransactions r) \<and> mtSponsor t = Some s \<and> paAddress s = ''W''}"
      unfolding r(2) mem_Collect_eq
      by (intro exI [of _ "demo_tx 2 ''A'' (Some ''W'')"] exI [of _ "\<lparr>paAddress = ''W'', paNonce = 12\<rparr>"]) simp
    then show ?thesis
      using gas_payer_activity_complete [OF a] r(1) by (elim exE conjE) simp
  qed
  then show ?thesis
    using a(1) by blast
qed

end
