(* ===== verification/Chain_Anchor.thy ===== *)
theory Chain_Anchor
  imports Run_Tick Broadcaster
begin

text \<open>
  Chain anchors (apps/sidekick/src/chain-anchor.ts), their capture from the node and the API
  (apps/sidekick/src/chain-clients.ts) and the binding of a calculation receipt to its checkpoint
  (apps/sidekick/src/calculation-receipt.ts).

  Heights, cycles and positions are integers the response schemas keep in JavaScript's safe range.
  One attempt of a capture is a record of what its reads answer or throw; a capture is a function of
  the attempts in order.
\<close>

subsection \<open>Anchors\<close>

datatype anchor_phase = RewardPhase | PreparePhase

record chain_anchor =
  anStacksBlockHeight :: int
  anIndexBlockHash :: string
  anBurnBlockHeight :: int
  anRewardCycle :: int
  anRewardCycleLength :: int
  anPrepareCycleLength :: int
  anCyclePosition :: int
  anPhase :: anchor_phase
  anCheckpoint :: checkpoint

definition expected_phase :: "int \<Rightarrow> int \<Rightarrow> int \<Rightarrow> anchor_phase" where
  "expected_phase position cycleLength prepareLength =
     (if position \<ge> cycleLength - prepareLength then PreparePhase else RewardPhase)"

definition expected_checkpoint :: "int \<Rightarrow> int \<Rightarrow> checkpoint" where
  "expected_checkpoint position cycleLength = (if position < cycleLength div 2 then FirstHalf else SecondHalf)"

definition is_hex :: "char \<Rightarrow> bool" where
  "is_hex c \<longleftrightarrow> c \<in> set ''0123456789abcdefABCDEF''"

definition chainAnchorSchema :: "chain_anchor \<Rightarrow> bool" where
  "chainAnchorSchema a \<longleftrightarrow>
     0 \<le> anStacksBlockHeight a \<and>
     (take 2 (anIndexBlockHash a) = ''0x'' \<and> length (anIndexBlockHash a) = 66 \<and>
      list_all is_hex (drop 2 (anIndexBlockHash a))) \<and>
     0 \<le> anBurnBlockHeight a \<and> 0 \<le> anRewardCycle a \<and> 0 < anRewardCycleLength a \<and>
     0 \<le> anPrepareCycleLength a \<and> 0 \<le> anCyclePosition a \<and>
     \<not> anPrepareCycleLength a > anRewardCycleLength a \<and>
     \<not> anCyclePosition a \<ge> anRewardCycleLength a \<and>
     anPhase a = expected_phase (anCyclePosition a) (anRewardCycleLength a) (anPrepareCycleLength a) \<and>
     anCheckpoint a = expected_checkpoint (anCyclePosition a) (anRewardCycleLength a)"

text \<open>Parsing also brings the hash to lower case.\<close>

definition parseChainAnchor :: "chain_anchor \<Rightarrow> engine_error + chain_anchor" where
  "parseChainAnchor a =
     (if chainAnchorSchema a then Inr (a\<lparr>anIndexBlockHash := to_lower (anIndexBlockHash a)\<rparr>)
      else Inl (OtherError ''ZodError''))"

lemma is_hex_lower_char: "is_hex c \<Longrightarrow> is_hex (lower_char c)"
proof -
  have "\<forall>c \<in> set ''0123456789abcdefABCDEF''. is_hex (lower_char c)"
    by code_simp
  then show "is_hex c \<Longrightarrow> is_hex (lower_char c)"
    unfolding is_hex_def by blast
qed

lemma parsed_anchor_valid: "parseChainAnchor a = Inr b \<Longrightarrow> chainAnchorSchema b"
proof -
  have lower: "take 2 (to_lower s) = ''0x''" "drop 2 (to_lower s) = to_lower (drop 2 s)" if "take 2 s = ''0x''" for s
    using that by (simp_all add: to_lower_def take_map drop_map) (simp add: lower_char_def)
  assume "parseChainAnchor a = Inr b"
  then show "chainAnchorSchema b"
    by (auto simp: parseChainAnchor_def chainAnchorSchema_def lower split: if_splits)
      (auto simp: to_lower_def list_all_iff is_hex_lower_char)
qed

definition chainAnchorsEqual :: "chain_anchor \<Rightarrow> chain_anchor \<Rightarrow> bool" where
  "chainAnchorsEqual left right \<longleftrightarrow>
     anStacksBlockHeight left = anStacksBlockHeight right \<and> anIndexBlockHash left = anIndexBlockHash right \<and>
     anBurnBlockHeight left = anBurnBlockHeight right \<and> anRewardCycle left = anRewardCycle right \<and>
     anRewardCycleLength left = anRewardCycleLength right \<and>
     anPrepareCycleLength left = anPrepareCycleLength right \<and>
     anCyclePosition left = anCyclePosition right \<and> anPhase left = anPhase right \<and>
     anCheckpoint left = anCheckpoint right"

lemma chainAnchorsEqual_eq: "chainAnchorsEqual a b \<longleftrightarrow> a = (b :: chain_anchor)"
  by (cases a; cases b) (auto simp: chainAnchorsEqual_def)

subsection \<open>The calculation an anchor completes\<close>

datatype target_reason =
    OddRewardCycleLength | NoPreviousRewardCycle | InvalidCycleStart | BeforeFirstRewardCycle

record calculation_target =
  ctRewardCycle :: int
  ctCheckpoint :: checkpoint
  ctHeight :: int

definition isSafe :: "int \<Rightarrow> bool" where
  "isSafe n \<longleftrightarrow> \<bar>n\<bar> \<le> 2 ^ 53 - 1"

definition deriveRewardCalculationTarget ::
    "chain_anchor \<Rightarrow> int option \<Rightarrow> target_reason + calculation_target" where
  "deriveRewardCalculationTarget anchor firstRewardCycleId =
     (if anRewardCycleLength anchor mod 2 \<noteq> 0 then Inl OddRewardCycleLength
      else if (case firstRewardCycleId of None \<Rightarrow> False | Some f \<Rightarrow> \<not> isSafe f \<or> f < 0)
      then Inl BeforeFirstRewardCycle
      else
        let cycleStart = anBurnBlockHeight anchor - anCyclePosition anchor in
        if \<not> isSafe cycleStart \<or> cycleStart < 0 then Inl InvalidCycleStart
        else if (case firstRewardCycleId of None \<Rightarrow> False | Some f \<Rightarrow> anRewardCycle anchor < f)
        then Inl BeforeFirstRewardCycle
        else if anCheckpoint anchor = SecondHalf \<or> firstRewardCycleId = Some (anRewardCycle anchor)
        then Inr \<lparr>ctRewardCycle = anRewardCycle anchor, ctCheckpoint = FirstHalf,
               ctHeight = cycleStart + anRewardCycleLength anchor div 2 - 1\<rparr>
        else if anRewardCycle anchor = 0 \<or> cycleStart = 0 then Inl NoPreviousRewardCycle
        else Inr \<lparr>ctRewardCycle = anRewardCycle anchor - 1, ctCheckpoint = SecondHalf,
               ctHeight = cycleStart - 1\<rparr>)"

text \<open>The first burn block of a cycle, counted from the anchor, and the last one of its half.\<close>

definition cycle_start :: "chain_anchor \<Rightarrow> int \<Rightarrow> int" where
  "cycle_start a c = anBurnBlockHeight a - anCyclePosition a + (c - anRewardCycle a) * anRewardCycleLength a"

definition half_end :: "chain_anchor \<Rightarrow> int \<Rightarrow> checkpoint \<Rightarrow> int" where
  "half_end a c k = cycle_start a c + (if k = FirstHalf then anRewardCycleLength a div 2 else anRewardCycleLength a) - 1"

text \<open>The halves of all cycles end one half length apart, counted from the start of the anchor's cycle.\<close>

definition half_number :: "chain_anchor \<Rightarrow> int \<Rightarrow> checkpoint \<Rightarrow> int" where
  "half_number a c k = 2 * (c - anRewardCycle a) + (if k = FirstHalf then 1 else 2)"

lemma half_end_number:
  "anRewardCycleLength a = 2 * half \<Longrightarrow>
     half_end a c k = anBurnBlockHeight a - anCyclePosition a + half_number a c k * half - 1"
  by (simp add: half_end_def cycle_start_def half_number_def algebra_simps)

lemma halves_ended:
  assumes "n * half - 1 < pos" "pos < (m + 1) * half" "0 < half" shows "n * half \<le> m * (half :: int)"
proof -
  have "n * half < (m + 1) * half" using assms(1,2) by linarith
  then have "n < m + 1" using assms(3) by (simp add: mult_less_cancel_right)
  then show ?thesis using assms(3) by (simp add: mult_right_mono)
qed

text \<open>
  C32: which reward calculation an anchor targets. A target derived from a valid anchor is the last burn block
  of a half of a cycle that is not before the first reward cycle. Except in the first half of the first
  reward cycle it is the last half completed before the anchor's burn block, whatever the cycle: every
  half that has ended by then has ended by the target. In the first half of the first reward cycle no
  half of a reward cycle has ended, and the target is the earliest one still to come, the end of that half.
\<close>
theorem calculation_target_latest:
  assumes "chainAnchorSchema a" "deriveRewardCalculationTarget a first = Inr t"
  shows "ctHeight t = half_end a (ctRewardCycle t) (ctCheckpoint t) \<and>
     0 \<le> ctRewardCycle t \<and> (\<forall>f. first = Some f \<longrightarrow> f \<le> ctRewardCycle t) \<and>
     (if first = Some (anRewardCycle a) \<and> anCheckpoint a = FirstHalf
      then anBurnBlockHeight a \<le> ctHeight t \<and> ctRewardCycle t = anRewardCycle a \<and> ctCheckpoint t = FirstHalf \<and>
        (\<forall>c k. anRewardCycle a \<le> c \<longrightarrow> anBurnBlockHeight a \<le> half_end a c k \<and> ctHeight t \<le> half_end a c k)
      else ctHeight t < anBurnBlockHeight a \<and>
        (\<forall>c k. half_end a c k < anBurnBlockHeight a \<longrightarrow> half_end a c k \<le> ctHeight t))"
proof -
  define half where "half = anRewardCycleLength a div 2"
  have len: "anRewardCycleLength a = 2 * half"
    using assms(2) by (simp add: deriveRewardCalculationTarget_def half_def split: if_splits) presburger
  have pos: "0 < half" "0 \<le> anCyclePosition a" "anCyclePosition a < 2 * half"
    "anCheckpoint a = (if anCyclePosition a < half then FirstHalf else SecondHalf)"
    using assms(1) by (auto simp: chainAnchorSchema_def expected_checkpoint_def len)
  have place: "ctHeight t = half_end a (ctRewardCycle t) (ctCheckpoint t)" "0 \<le> ctRewardCycle t"
    "\<forall>f. first = Some f \<longrightarrow> f \<le> ctRewardCycle t"
    using assms unfolding half_end_def cycle_start_def len
    by (auto simp: deriveRewardCalculationTarget_def chainAnchorSchema_def Let_def len algebra_simps
        split: if_splits option.splits)
  show ?thesis
  proof (cases "first = Some (anRewardCycle a) \<and> anCheckpoint a = FirstHalf")
    case True
    then have t: "ctRewardCycle t = anRewardCycle a" "ctCheckpoint t = FirstHalf"
      using assms(2) by (auto simp: deriveRewardCalculationTarget_def Let_def split: if_splits)
    have "half_end a (anRewardCycle a) FirstHalf \<le> half_end a c k" if "anRewardCycle a \<le> c" for c k
    proof -
      have "1 * half \<le> half_number a c k * half"
        using that pos(1) by (intro mult_right_mono) (auto simp: half_number_def)
      then show ?thesis unfolding half_end_number[OF len] by (simp add: half_number_def)
    qed
    moreover have "anBurnBlockHeight a \<le> half_end a (anRewardCycle a) FirstHalf"
      unfolding half_end_number[OF len] using True pos by (simp add: half_number_def split: if_splits)
    ultimately show ?thesis using True place t by (auto intro: order_trans)
  next
    case False
    define m where "m = half_number a (ctRewardCycle t) (ctCheckpoint t)"
    have m: "m = (if anCheckpoint a = SecondHalf then 1 else 0)"
      using assms(2) False pos(4)
      by (auto simp: deriveRewardCalculationTarget_def Let_def m_def half_number_def split: if_splits)
    then have near: "m * half \<le> anCyclePosition a" "anCyclePosition a < (m + 1) * half"
      using pos by (auto split: if_splits)
    have "half_end a c k \<le> ctHeight t" if "half_end a c k < anBurnBlockHeight a" for c k
      using that halves_ended[of "half_number a c k" half "anCyclePosition a" m] near(2) pos(1)
      unfolding place(1) half_end_number[OF len] m_def[symmetric] by linarith
    moreover have "ctHeight t < anBurnBlockHeight a"
      using near(1) unfolding place(1) half_end_number[OF len] m_def[symmetric] by linarith
    ultimately show ?thesis using False place by auto
  qed
qed

text \<open>Without a first reward cycle to respect, only the very first half has no completed calculation.\<close>

lemma calculation_target_total:
  assumes "chainAnchorSchema a" "anRewardCycleLength a mod 2 = 0" "isSafe (anBurnBlockHeight a)"
    and "anCyclePosition a < anBurnBlockHeight a" "0 < anRewardCycle a"
  shows "\<exists>t. deriveRewardCalculationTarget a None = Inr t"
  using assms by (auto simp: deriveRewardCalculationTarget_def chainAnchorSchema_def isSafe_def Let_def)

text \<open>The first half of the second reward cycle, with cycles of 200 burn blocks.\<close>

definition demo_anchor :: chain_anchor where
  "demo_anchor = \<lparr>anStacksBlockHeight = 50, anIndexBlockHash = ''0x'' @ replicate 64 CHR ''a'',
     anBurnBlockHeight = 1230, anRewardCycle = 6, anRewardCycleLength = 200, anPrepareCycleLength = 10,
     anCyclePosition = 30, anPhase = RewardPhase, anCheckpoint = FirstHalf\<rparr>"

theorem calculation_target_latest_witness:
  "chainAnchorSchema demo_anchor \<and>
   deriveRewardCalculationTarget demo_anchor (Some 5) =
     Inr \<lparr>ctRewardCycle = 5, ctCheckpoint = SecondHalf, ctHeight = 1199\<rparr> \<and>
   half_end demo_anchor 5 SecondHalf = 1199 \<and> half_end demo_anchor 5 FirstHalf \<le> 1199 \<and>
   deriveRewardCalculationTarget demo_anchor (Some 6) =
     Inr \<lparr>ctRewardCycle = 6, ctCheckpoint = FirstHalf, ctHeight = 1299\<rparr> \<and>
   1299 \<le> half_end demo_anchor 7 SecondHalf"
proof -
  have valid: "chainAnchorSchema demo_anchor"
    by code_simp
  have target: "deriveRewardCalculationTarget demo_anchor (Some 5) =
      Inr \<lparr>ctRewardCycle = 5, ctCheckpoint = SecondHalf, ctHeight = 1199\<rparr>"
    by (simp add: deriveRewardCalculationTarget_def demo_anchor_def isSafe_def)
  have first: "deriveRewardCalculationTarget demo_anchor (Some 6) =
      Inr \<lparr>ctRewardCycle = 6, ctCheckpoint = FirstHalf, ctHeight = 1299\<rparr>"
    by (simp add: deriveRewardCalculationTarget_def demo_anchor_def isSafe_def)
  have half: "half_end demo_anchor 5 FirstHalf < anBurnBlockHeight demo_anchor"
    "anRewardCycle demo_anchor = 6" "anCheckpoint demo_anchor = FirstHalf"
    by (simp_all add: half_end_def cycle_start_def demo_anchor_def)
  show ?thesis
    using valid target first half calculation_target_latest [OF valid target] calculation_target_latest [OF valid first]
    by auto
qed

subsection \<open>Capturing an anchor\<close>

record node_info =
  niBurnBlockHeight :: int
  niStacksTipHeight :: int
  niStacksTip :: "string option"

record tenure_info =
  tiTipHeight :: int
  tiTipBlockId :: string
  tiRewardCycle :: int

record pox_info =
  pxCurrentBurnchainBlockHeight :: int
  pxRewardCycleId :: int
  pxRewardCycleLength :: int
  pxPrepareCycleLength :: int
  pxNextCycle :: "(int \<times> int) option"

record api_tip =
  atBlockHeight :: int
  atBlockHash :: string
  atIndexBlockHash :: string
  atBurnBlockHeight :: int

record block_summary =
  bsCanonical :: bool
  bsHeight :: int
  bsHash :: string
  bsIndexBlockHash :: string
  bsBurnBlockHeight :: int

text \<open>\<open>pxNextCycle\<close> is the next cycle's id and the burn height at which its reward phase starts.\<close>

definition createChainAnchor :: "node_info \<Rightarrow> api_tip \<Rightarrow> pox_info \<Rightarrow> engine_error + chain_anchor" where
  "createChainAnchor nodeInfo apiTip poxInfo =
     (let nodeBurnLag = niBurnBlockHeight nodeInfo - atBurnBlockHeight apiTip in
      if niStacksTipHeight nodeInfo < atBlockHeight apiTip \<or> nodeBurnLag < 0 \<or>
         pxCurrentBurnchainBlockHeight poxInfo \<noteq> niBurnBlockHeight nodeInfo
      then Inl (ChainAnchorError ''Node, API, and PoX tips do not describe one chain position'' True)
      else (case pxNextCycle poxInfo of
          None \<Rightarrow> Inl (ChainAnchorError ''PoX response does not expose the next-cycle boundary'' False)
        | Some (nextId, rewardPhaseStart) \<Rightarrow>
            if nextId \<noteq> pxRewardCycleId poxInfo + 1
            then Inl (ChainAnchorError ''PoX response does not expose the next-cycle boundary'' False)
            else
              let cycleLength = pxRewardCycleLength poxInfo;
                  currentCycleStart = rewardPhaseStart - cycleLength;
                  anchorCycleOffset = (atBurnBlockHeight apiTip - currentCycleStart) div cycleLength;
                  rewardCycle = pxRewardCycleId poxInfo + anchorCycleOffset;
                  cyclePosition = atBurnBlockHeight apiTip - (currentCycleStart + anchorCycleOffset * cycleLength) in
              if rewardCycle < 0 \<or> \<not> isSafe rewardCycle \<or> cyclePosition < 0 \<or> cyclePosition \<ge> cycleLength
              then Inl (ChainAnchorError
                     ''PoX cycle boundary is inconsistent with the current Bitcoin block'' False)
              else parseChainAnchor \<lparr>anStacksBlockHeight = atBlockHeight apiTip,
                     anIndexBlockHash = atIndexBlockHash apiTip, anBurnBlockHeight = atBurnBlockHeight apiTip,
                     anRewardCycle = rewardCycle, anRewardCycleLength = cycleLength,
                     anPrepareCycleLength = pxPrepareCycleLength poxInfo, anCyclePosition = cyclePosition,
                     anPhase = expected_phase cyclePosition cycleLength (pxPrepareCycleLength poxInfo),
                     anCheckpoint = expected_checkpoint cyclePosition cycleLength\<rparr>))"

definition createNodeChainAnchor :: "node_info \<Rightarrow> tenure_info \<Rightarrow> pox_info \<Rightarrow> engine_error + chain_anchor" where
  "createNodeChainAnchor nodeInfo tenureInfo poxInfo =
     (if niStacksTipHeight nodeInfo \<noteq> tiTipHeight tenureInfo \<or>
         niBurnBlockHeight nodeInfo \<noteq> pxCurrentBurnchainBlockHeight poxInfo
      then Inl (ChainAnchorError ''Node and PoX tips do not describe one chain position'' True)
      else bindr (createChainAnchor nodeInfo \<lparr>atBlockHeight = tiTipHeight tenureInfo,
               atBlockHash = tiTipBlockId tenureInfo, atIndexBlockHash = tiTipBlockId tenureInfo,
               atBurnBlockHeight = niBurnBlockHeight nodeInfo\<rparr> poxInfo) (\<lambda>anchor.
           if anRewardCycle anchor \<noteq> tiRewardCycle tenureInfo
           then Inl (ChainAnchorError ''Node tenure and PoX reward-cycle facts disagree'' True)
           else Inr anchor))"

definition sameNodeTip :: "node_info \<Rightarrow> tenure_info \<Rightarrow> node_info \<Rightarrow> tenure_info \<Rightarrow> bool" where
  "sameNodeTip leftInfo leftTenure rightInfo rightTenure \<longleftrightarrow>
     niStacksTipHeight leftInfo = niStacksTipHeight rightInfo \<and>
     niBurnBlockHeight leftInfo = niBurnBlockHeight rightInfo \<and>
     tiTipHeight leftTenure = tiTipHeight rightTenure \<and>
     tiTipBlockId leftTenure = tiTipBlockId rightTenure \<and>
     tiRewardCycle leftTenure = tiRewardCycle rightTenure"

text \<open>\<open>retryChainAnchorCapture\<close>: \<open>capture n\<close> is what the \<open>n\<close>-th attempt does.\<close>

function capture_loop ::
    "(nat \<Rightarrow> engine_error + 'a) \<Rightarrow> string \<Rightarrow> nat \<Rightarrow> engine_error option \<Rightarrow> engine_error + 'a" where
  "capture_loop capture failureMessage attempt lastError =
     (if attempt \<le> 3
      then (case capture attempt of
          Inr a \<Rightarrow> Inr a
        | Inl error \<Rightarrow>
            (case error of
               ChainAnchorError m retryable \<Rightarrow>
                 if \<not> retryable \<or> attempt = 3 then Inl error
                 else capture_loop capture failureMessage (attempt + 1) (Some error)
             | _ \<Rightarrow> Inl error))
      else Inl (case lastError of Some e \<Rightarrow> e | None \<Rightarrow> ChainAnchorError failureMessage False))"
  by pat_completeness auto
termination
  by (relation "measure (\<lambda>(_, _, attempt, _). 4 - attempt)") auto

declare capture_loop.simps [simp del]

definition retryChainAnchorCapture :: "(nat \<Rightarrow> engine_error + 'a) \<Rightarrow> string \<Rightarrow> engine_error + 'a" where
  "retryChainAnchorCapture capture failureMessage = capture_loop capture failureMessage 1 None"

text \<open>What the reads of one attempt answer; the PoX read is pinned to a tip.\<close>

record node_attempt =
  naInfo :: "engine_error + node_info"
  naTenure :: "engine_error + tenure_info"
  naPox :: "string \<Rightarrow> engine_error + pox_info"
  naInfoAfter :: "engine_error + node_info"
  naTenureAfter :: "engine_error + tenure_info"

definition capture_node :: "node_attempt \<Rightarrow> engine_error + chain_anchor" where
  "capture_node n =
     bindr (naInfo n) (\<lambda>beforeInfo.
     bindr (naTenure n) (\<lambda>beforeTenure.
     bindr (naPox n (tiTipBlockId beforeTenure)) (\<lambda>poxInfo.
     bindr (naInfoAfter n) (\<lambda>afterInfo.
     bindr (naTenureAfter n) (\<lambda>afterTenure.
     if \<not> sameNodeTip beforeInfo beforeTenure afterInfo afterTenure
     then Inl (ChainAnchorError ''Node tip moved while the anchor was being captured'' True)
     else createNodeChainAnchor beforeInfo beforeTenure poxInfo)))))"

definition captureNodeChainAnchor :: "(nat \<Rightarrow> node_attempt) \<Rightarrow> engine_error + chain_anchor" where
  "captureNodeChainAnchor tries =
     retryChainAnchorCapture (\<lambda>n. capture_node (tries n)) ''Unable to capture a stable local node anchor''"

text \<open>The shared anchor of the node and the API.\<close>

definition sameApiTip :: "api_tip \<Rightarrow> api_tip \<Rightarrow> bool" where
  "sameApiTip left right \<longleftrightarrow>
     atBlockHeight left = atBlockHeight right \<and>
     to_lower (atIndexBlockHash left) = to_lower (atIndexBlockHash right) \<and>
     atBurnBlockHeight left = atBurnBlockHeight right"

definition apiStatusAtNodeTip :: "node_info \<Rightarrow> block_summary \<Rightarrow> engine_error + api_tip" where
  "apiStatusAtNodeTip nodeInfo block =
     (if niStacksTip nodeInfo = None \<or> \<not> bsCanonical block \<or> bsHeight block \<noteq> niStacksTipHeight nodeInfo \<or>
         Some (bsHash block) \<noteq> niStacksTip nodeInfo
      then Inl (ChainAnchorError ''API could not prove the node tip is canonical'' True)
      else Inr \<lparr>atBlockHeight = bsHeight block, atBlockHash = bsHash block,
             atIndexBlockHash = bsIndexBlockHash block, atBurnBlockHeight = bsBurnBlockHeight block\<rparr>)"

definition sharedApiStatus ::
    "api_tip \<Rightarrow> node_info \<Rightarrow> (string \<Rightarrow> engine_error + block_summary) \<Rightarrow> engine_error + api_tip" where
  "sharedApiStatus apiStatus nodeInfo blockOf =
     (if niStacksTipHeight nodeInfo = atBlockHeight apiStatus then Inr apiStatus
      else (case niStacksTip nodeInfo of
          Some tip \<Rightarrow>
            if atBlockHeight apiStatus = niStacksTipHeight nodeInfo + 1
            then bindr (blockOf tip) (\<lambda>block. apiStatusAtNodeTip nodeInfo block)
            else Inr apiStatus
        | None \<Rightarrow> Inr apiStatus))"

record shared_attempt =
  saStatus :: "engine_error + api_tip"
  saInfo :: "engine_error + node_info"
  saBlock :: "string \<Rightarrow> engine_error + block_summary"
  saPox :: "string \<Rightarrow> engine_error + pox_info"
  saStatusAfter :: "engine_error + api_tip"

definition capture_shared :: "shared_attempt \<Rightarrow> engine_error + chain_anchor" where
  "capture_shared n =
     bindr (saStatus n) (\<lambda>before.
     bindr (saInfo n) (\<lambda>nodeInfo.
     bindr (sharedApiStatus before nodeInfo (saBlock n)) (\<lambda>sharedStatus.
     bindr (case saPox n (atIndexBlockHash sharedStatus) of
          Inl (UpstreamHttpError m st) \<Rightarrow>
            Inl (if st = 404
                 then ChainAnchorError ''The shared API anchor is not yet readable from the node'' True
                 else UpstreamHttpError m st)
        | r \<Rightarrow> r) (\<lambda>poxInfo.
     bindr (saStatusAfter n) (\<lambda>after.
     if \<not> sameApiTip before after
     then Inl (ChainAnchorError ''Chain tip moved while the anchor was being captured'' True)
     else createChainAnchor nodeInfo sharedStatus poxInfo)))))"

definition captureChainAnchor :: "(nat \<Rightarrow> shared_attempt) \<Rightarrow> engine_error + chain_anchor" where
  "captureChainAnchor tries =
     retryChainAnchorCapture (\<lambda>n. capture_shared (tries n)) ''Unable to capture a stable shared chain anchor''"

subsection \<open>What a captured anchor stands for\<close>

text \<open>An attempt that settles the capture: an anchor, or an error that is not worth another read.\<close>

definition settles :: "engine_error + 'a \<Rightarrow> bool" where
  "settles r \<longleftrightarrow> (\<forall>m. r \<noteq> Inl (ChainAnchorError m True))"

lemma capture_loop_step:
  "capture_loop c msg n e =
     (if n \<le> 3 then if settles (c n) \<or> n = 3 then c n else capture_loop c msg (n + 1) (case c n of Inl err \<Rightarrow> Some err | _ \<Rightarrow> None)
      else Inl (case e of Some err \<Rightarrow> err | None \<Rightarrow> ChainAnchorError msg False))"
  by (auto simp: capture_loop.simps [of c msg n e] settles_def split: sum.splits engine_error.splits)

lemma retryChainAnchorCapture_eq:
  "retryChainAnchorCapture c msg = (if settles (c 1) then c 1 else if settles (c 2) then c 2 else c 3)"
proof -
  have "capture_loop c msg 3 e = c 3" "capture_loop c msg 2 e = (if settles (c 2) then c 2 else c 3)" for e
    by (subst capture_loop_step, simp add: capture_loop_step [of c msg 3])+
  then show ?thesis
    by (subst retryChainAnchorCapture_def, subst capture_loop_step) (simp add: numeral_2_eq_2 [symmetric])
qed

definition one_position :: "node_info \<Rightarrow> tenure_info \<Rightarrow> pox_info \<Rightarrow> chain_anchor \<Rightarrow> bool" where
  "one_position info tenure pox a \<longleftrightarrow>
     anStacksBlockHeight a = niStacksTipHeight info \<and> anStacksBlockHeight a = tiTipHeight tenure \<and>
     anIndexBlockHash a = to_lower (tiTipBlockId tenure) \<and>
     anBurnBlockHeight a = niBurnBlockHeight info \<and> anBurnBlockHeight a = pxCurrentBurnchainBlockHeight pox \<and>
     anRewardCycle a = tiRewardCycle tenure \<and> anRewardCycleLength a = pxRewardCycleLength pox \<and>
     (\<exists>start. pxNextCycle pox = Some (pxRewardCycleId pox + 1, start) \<and>
        anCyclePosition a = (anBurnBlockHeight a - start) mod anRewardCycleLength a \<and>
        cycle_start a (pxRewardCycleId pox + 1) = start)"

lemma createNodeChainAnchor_position:
  assumes "createNodeChainAnchor info tenure pox = Inr a"
  shows "chainAnchorSchema a \<and> one_position info tenure pox a"
proof -
  obtain start where next': "pxNextCycle pox = Some (pxRewardCycleId pox + 1, start)"
    using assms by (auto simp: createNodeChainAnchor_def createChainAnchor_def Let_def split: if_splits option.splits)
  define L where "L = pxRewardCycleLength pox"
  define off where "off = (niBurnBlockHeight info - (start - L)) div L"
  define pos where "pos = niBurnBlockHeight info - (start - L + off * L)"
  define a0 where "a0 = \<lparr>anStacksBlockHeight = tiTipHeight tenure, anIndexBlockHash = tiTipBlockId tenure,
       anBurnBlockHeight = niBurnBlockHeight info, anRewardCycle = pxRewardCycleId pox + off,
       anRewardCycleLength = L, anPrepareCycleLength = pxPrepareCycleLength pox, anCyclePosition = pos,
       anPhase = expected_phase pos L (pxPrepareCycleLength pox), anCheckpoint = expected_checkpoint pos L\<rparr>"
  have parsed: "parseChainAnchor a0 = Inr a"
    and tips: "niStacksTipHeight info = tiTipHeight tenure" "niBurnBlockHeight info = pxCurrentBurnchainBlockHeight pox"
      "anRewardCycle a = tiRewardCycle tenure"
    using assms unfolding a0_def pos_def off_def L_def
    by (auto simp: createNodeChainAnchor_def createChainAnchor_def Let_def next' split: if_splits)
  have a: "a = a0\<lparr>anIndexBlockHash := to_lower (tiTipBlockId tenure)\<rparr>"
    using parsed by (auto simp: parseChainAnchor_def a0_def split: if_splits)
  have "niBurnBlockHeight info - (start - L) = (niBurnBlockHeight info - start) + L"
    by simp
  then have "(niBurnBlockHeight info - (start - L)) mod L = (niBurnBlockHeight info - start) mod L"
    by (simp only: mod_add_self2)
  then have "pos = (niBurnBlockHeight info - start) mod L"
    using div_mult_mod_eq [of "niBurnBlockHeight info - (start - L)" L] unfolding pos_def off_def by linarith
  moreover have "pxRewardCycleId pox + 1 - tiRewardCycle tenure = 1 - off"
    using tips(3) by (simp add: a a0_def)
  moreover have "niBurnBlockHeight info - pos + (1 - off) * L = start"
    by (simp add: pos_def algebra_simps)
  ultimately show ?thesis
    using parsed_anchor_valid [OF parsed] tips next'
    by (simp add: one_position_def a a0_def cycle_start_def flip: L_def)
qed

text \<open>
  A captured node anchor describes one position of one chain. The capture takes at most three
  attempts and retries only an error marked retryable; when it returns an anchor, one attempt read
  every fact without the node's tip moving meanwhile, the anchor is valid, it carries that attempt's
  heights and tip, its cycle is the one the tenure reports, and its position is the distance from the
  cycle boundary the PoX response states, that boundary being the start of the next cycle.
\<close>
theorem captured_anchor_coherent:
  assumes "captureNodeChainAnchor tries = Inr a"
  shows "chainAnchorSchema a \<and>
     (\<exists>n \<in> {1, 2, 3}. (\<forall>k \<in> {1..<n}. \<exists>m. capture_node (tries k) = Inl (ChainAnchorError m True)) \<and>
       (\<exists>info tenure pox info' tenure'. naInfo (tries n) = Inr info \<and> naTenure (tries n) = Inr tenure \<and>
          naPox (tries n) (tiTipBlockId tenure) = Inr pox \<and> naInfoAfter (tries n) = Inr info' \<and>
          naTenureAfter (tries n) = Inr tenure' \<and> sameNodeTip info tenure info' tenure' \<and>
          one_position info tenure pox a))"
proof -
  let ?c = "\<lambda>n. capture_node (tries n)"
  define n :: nat where "n = (if settles (?c 1) then 1 else if settles (?c 2) then 2 else 3)"
  have n: "n \<in> {1, 2, 3}" "?c n = Inr a"
    using assms unfolding captureNodeChainAnchor_def retryChainAnchorCapture_eq n_def by (auto split: if_splits)
  have earlier: "\<not> settles (?c k)" if "k \<in> {1..<n}" for k
  proof -
    have "k = 1 \<and> n \<noteq> 1 \<or> k = 2 \<and> n = 3"
      using that n(1) by auto
    then show ?thesis
      unfolding n_def by (auto split: if_splits)
  qed
  from n(2) obtain info tenure pox info' tenure' where reads: "naInfo (tries n) = Inr info" "naTenure (tries n) = Inr tenure"
    "naPox (tries n) (tiTipBlockId tenure) = Inr pox" "naInfoAfter (tries n) = Inr info'"
    "naTenureAfter (tries n) = Inr tenure'" "sameNodeTip info tenure info' tenure'"
    "createNodeChainAnchor info tenure pox = Inr a"
    by (auto simp: capture_node_def split: if_splits)
  with n(1) earlier createNodeChainAnchor_position [OF reads(7)] show ?thesis
    unfolding settles_def by blast
qed

text \<open>The first attempt sees the tip move, the second one is stable.\<close>

definition demo_try :: "nat \<Rightarrow> node_attempt" where
  "demo_try n =
     (let info = \<lparr>niBurnBlockHeight = 1230, niStacksTipHeight = 50, niStacksTip = None\<rparr>;
          tenure = \<lparr>tiTipHeight = 50, tiTipBlockId = ''0x'' @ replicate 64 CHR ''A'', tiRewardCycle = 6\<rparr> in
      \<lparr>naInfo = Inr info, naTenure = Inr tenure,
       naPox = (\<lambda>_. Inr \<lparr>pxCurrentBurnchainBlockHeight = 1230, pxRewardCycleId = 6, pxRewardCycleLength = 200,
         pxPrepareCycleLength = 10, pxNextCycle = Some (7, 1400)\<rparr>),
       naInfoAfter = Inr (if n = 1 then info\<lparr>niStacksTipHeight := 51\<rparr> else info), naTenureAfter = Inr tenure\<rparr>)"

theorem captured_anchor_coherent_witness:
  "captureNodeChainAnchor demo_try = Inr demo_anchor \<and> chainAnchorSchema demo_anchor \<and>
   (\<exists>m. capture_node (demo_try 1) = Inl (ChainAnchorError m True))"
proof -
  have first: "capture_node (demo_try 1) = Inl (ChainAnchorError ''Node tip moved while the anchor was being captured'' True)"
    by (simp add: capture_node_def demo_try_def Let_def sameNodeTip_def)
  have second: "capture_node (demo_try 2) = Inr demo_anchor"
    by code_simp
  have "captureNodeChainAnchor demo_try = Inr demo_anchor"
    unfolding captureNodeChainAnchor_def retryChainAnchorCapture_eq first second by (simp add: settles_def)
  with captured_anchor_coherent [OF this] first show ?thesis
    by blast
qed

end
