(* ===== verification/Pox5_Bonds.thy ===== *)
theory Pox5_Bonds
  imports Run_Recipe
begin

text \<open>
  Protocol-bond periods and the canonical order of bonds (packages/protocol/src/pox5-bonds.ts and the
  first half of packages/protocol/src/pox5-calculate-rewards.ts).

  \<open>bigint\<close>s are \<open>int\<close>; exceptions of the package are \<open>OtherError\<close> with the package's message.
  \<open>Array.prototype.sort\<close> is \<open>sort_by\<close> with the comparison of the source.
\<close>

subsection \<open>Bond periods of a reward cycle\<close>

definition BOND_LENGTH_CYCLES :: int where "BOND_LENGTH_CYCLES = 12"
definition BOND_GAP_CYCLES :: int where "BOND_GAP_CYCLES = 2"
definition MAX_BOND_PERIODS_PER_CYCLE :: nat where "MAX_BOND_PERIODS_PER_CYCLE = 6"

text \<open>Division of \<open>bigint\<close>s truncates towards zero.\<close>

definition bigint_div :: "int \<Rightarrow> int \<Rightarrow> int" where
  "bigint_div a b = sgn a * sgn b * (\<bar>a\<bar> div \<bar>b\<bar>)"

lemma bigint_div_nonneg [simp]: "0 \<le> a \<Longrightarrow> 0 < b \<Longrightarrow> bigint_div a b = a div b"
  by (cases "a = 0") (auto simp: bigint_div_def sgn_if)

definition bondPeriodFirstRewardCycle :: "int \<Rightarrow> int \<Rightarrow> engine_error + int" where
  "bondPeriodFirstRewardCycle bondIndex firstBondPeriodCycle =
     bindr (guardr (\<not> bondIndex < 0) (OtherError ''bond index cannot be negative'')) (\<lambda>_.
     bindr (guardr (\<not> firstBondPeriodCycle < 0) (OtherError ''first bond cycle cannot be negative'')) (\<lambda>_.
     Inr (firstBondPeriodCycle + bondIndex * BOND_GAP_CYCLES)))"

function bond_period_loop :: "int \<Rightarrow> int \<Rightarrow> int \<Rightarrow> int \<Rightarrow> int list \<Rightarrow> engine_error + int list" where
  "bond_period_loop index latest rewardCycle firstBondPeriodCycle periods =
     (if index \<le> latest
      then bindr (bondPeriodFirstRewardCycle index firstBondPeriodCycle) (\<lambda>firstCycle.
           bond_period_loop (index + 1) latest rewardCycle firstBondPeriodCycle
             (if firstCycle \<le> rewardCycle \<and> rewardCycle < firstCycle + BOND_LENGTH_CYCLES
              then periods @ [index] else periods))
      else Inr periods)"
  by pat_completeness auto
termination
  by (relation "measure (\<lambda>(index, latest, _). nat (latest + 1 - index))") auto

declare bond_period_loop.simps [simp del]

definition bondPeriodsForRewardCycle :: "int \<Rightarrow> int \<Rightarrow> engine_error + int list" where
  "bondPeriodsForRewardCycle rewardCycle firstBondPeriodCycle =
     bindr (guardr (\<not> rewardCycle < 0) (OtherError ''reward cycle cannot be negative'')) (\<lambda>_.
     bindr (guardr (\<not> firstBondPeriodCycle < 0) (OtherError ''first bond cycle cannot be negative'')) (\<lambda>_.
     if rewardCycle < firstBondPeriodCycle then Inr []
     else
       let latest = bigint_div (rewardCycle - firstBondPeriodCycle) BOND_GAP_CYCLES in
       bindr (bond_period_loop (if latest \<ge> 5 then latest - 5 else 0) latest rewardCycle
                firstBondPeriodCycle []) (\<lambda>periods.
       bindr (guardr (\<not> MAX_BOND_PERIODS_PER_CYCLE < length periods)
         (OtherError (''derived '' @ dec_text (length periods) @ '' bond periods for cycle '' @
            int_text rewardCycle @ ''; PoX-5 allows at most '' @ dec_text MAX_BOND_PERIODS_PER_CYCLE))) (\<lambda>_.
       Inr periods))))"

text \<open>The term of a bond period: it holds shares for the cycle.\<close>

definition holds_shares :: "int \<Rightarrow> int \<Rightarrow> int \<Rightarrow> bool" where
  "holds_shares first c i \<longleftrightarrow> first + i * 2 \<le> c \<and> c < first + i * 2 + 12"

lemma bond_period_loop_eq:
  "0 \<le> index \<Longrightarrow> 0 \<le> first \<Longrightarrow>
     bond_period_loop index latest c first periods = Inr (periods @ filter (holds_shares first c) [index..latest])"
proof (induction index latest c first periods rule: bond_period_loop.induct)
  case (1 index latest c first periods)
  show ?case
    using 1 by (simp add: bond_period_loop.simps [of index] bondPeriodFirstRewardCycle_def
        BOND_GAP_CYCLES_def BOND_LENGTH_CYCLES_def holds_shares_def upto_rec1 [of index])
qed

lemma holds_shares_window:
  assumes "0 \<le> first" "first \<le> c"
  defines "latest \<equiv> (c - first) div 2"
  defines "start \<equiv> (if latest \<ge> 5 then latest - 5 else 0)"
  shows "filter (holds_shares first c) [0..c] = filter (holds_shares first c) [start..latest]"
proof -
  have range: "0 \<le> start" "start \<le> latest" "latest \<le> c"
    using assms(1,2) unfolding latest_def start_def by auto
  have "[0..c] = [0..start - 1] @ [start..latest] @ [latest + 1..c]"
    using range upto_split1 [of 0 start c] upto_split2 [of start latest c] by simp
  moreover have "filter (holds_shares first c) [0..start - 1] = []"
    by (auto simp: filter_empty_conv holds_shares_def start_def latest_def)
  moreover have "filter (holds_shares first c) [latest + 1..c] = []"
    by (auto simp: filter_empty_conv holds_shares_def latest_def)
  ultimately show ?thesis by simp
qed

text \<open>
  The bond periods derived for a reward cycle, with an arithmetic window of at most six
  candidates, are exactly those a scan over every period would select: the indexes, ascending, whose
  twelve-cycle term covers the cycle. Only a negative argument is refused; the overflow of the
  contract's list bound, which the function guards, cannot occur.
\<close>
theorem bond_periods_exact:
  "bondPeriodsForRewardCycle c first =
     (if c < 0 then Inl (OtherError ''reward cycle cannot be negative'')
      else if first < 0 then Inl (OtherError ''first bond cycle cannot be negative'')
      else Inr (filter (holds_shares first c) [0..c]))"
proof (cases "0 \<le> first \<and> first \<le> c")
  case True
  let ?latest = "(c - first) div 2"
  let ?start = "if ?latest \<ge> 5 then ?latest - 5 else 0"
  have "length (filter (holds_shares first c) [?start..?latest]) \<le> 6"
    using length_filter_le [of "holds_shares first c" "[?start..?latest]"] by (auto split: if_splits)
  then show ?thesis
    using True holds_shares_window [of first c]
    by (simp add: bondPeriodsForRewardCycle_def BOND_GAP_CYCLES_def MAX_BOND_PERIODS_PER_CYCLE_def
        bond_period_loop_eq guardr_def Let_def)
next
  case False
  then show ?thesis
    by (auto simp: bondPeriodsForRewardCycle_def guardr_def filter_empty_conv holds_shares_def)
qed

subsection \<open>The canonical order of bonds\<close>

definition UINT128_MAX :: int where "UINT128_MAX = 2 ^ 128 - 1"

definition uint128Schema :: "int \<Rightarrow> bool" where
  "uint128Schema n \<longleftrightarrow> 0 \<le> n \<and> n \<le> UINT128_MAX"

record calculation_bond =
  cbBondIndex :: int
  cbTargetRateBips :: int
  cbStxValueRatio :: int
  cbMinUstxRatioBips :: int

definition pox5CalculationBondSchema :: "calculation_bond \<Rightarrow> bool" where
  "pox5CalculationBondSchema b \<longleftrightarrow>
     uint128Schema (cbBondIndex b) \<and> uint128Schema (cbTargetRateBips b) \<and>
     uint128Schema (cbStxValueRatio b) \<and> uint128Schema (cbMinUstxRatioBips b)"

definition pox5CalculationBondsSchema :: "calculation_bond list \<Rightarrow> bool" where
  "pox5CalculationBondsSchema bonds \<longleftrightarrow>
     list_all pox5CalculationBondSchema bonds \<and> length bonds \<le> MAX_BOND_PERIODS_PER_CYCLE \<and>
     distinct (map cbBondIndex bonds)"

text \<open>The sign of the comparison, on the ratio and the index of each bond.\<close>

definition comparePox5CalculationBondOrder :: "int \<times> int \<Rightarrow> int \<times> int \<Rightarrow> int" where
  "comparePox5CalculationBondOrder left right =
     (let (leftRatio, leftIndex) = left; (rightRatio, rightIndex) = right in
      if leftRatio \<noteq> rightRatio then (if leftRatio > rightRatio then -1 else 1)
      else if leftIndex = rightIndex then 0
      else if leftIndex < rightIndex then -1 else 1)"

definition bond_le :: "('b \<Rightarrow> int \<times> int) \<Rightarrow> 'b \<Rightarrow> 'b \<Rightarrow> bool" where
  "bond_le key a b \<longleftrightarrow> comparePox5CalculationBondOrder (key a) (key b) \<le> 0"

definition bond_key :: "calculation_bond \<Rightarrow> int \<times> int" where
  "bond_key b = (cbStxValueRatio b, cbBondIndex b)"

definition orderPox5CalculationBonds ::
    "calculation_bond list \<Rightarrow> engine_error + calculation_bond list" where
  "orderPox5CalculationBonds bonds =
     (if pox5CalculationBondsSchema bonds then Inr (sort_by (bond_le bond_key) bonds)
      else Inl (OtherError ''ZodError''))"

lemma bond_le_alt:
  "bond_le key a b \<longleftrightarrow> fst (key b) < fst (key a) \<or> fst (key a) = fst (key b) \<and> snd (key a) \<le> snd (key b)"
  by (auto simp: bond_le_def comparePox5CalculationBondOrder_def Let_def split: prod.splits if_splits)

lemma bond_le_total: "bond_le key a b \<or> bond_le key b a"
  by (auto simp: bond_le_alt)

lemma bond_le_trans: "bond_le key a b \<Longrightarrow> bond_le key b c \<Longrightarrow> bond_le key a c"
  by (auto simp: bond_le_alt)

lemma bond_le_antisym: "bond_le key a b \<Longrightarrow> bond_le key b a \<Longrightarrow> key a = key b"
  by (auto simp: bond_le_alt prod_eq_iff)

text \<open>Two sorted arrangements of the same elements agree when the order separates them.\<close>

lemma sorted_wrt_unique:
  assumes "\<And>a b. a \<in> set xs \<Longrightarrow> b \<in> set xs \<Longrightarrow> le a b \<Longrightarrow> le b a \<Longrightarrow> a = b"
    and "sorted_wrt le xs" "sorted_wrt le ys" "distinct xs" "distinct ys" "set xs = set ys"
  shows "xs = ys"
  using assms
proof (induction xs arbitrary: ys)
  case (Cons x xs)
  obtain y zs where ys: "ys = y # zs"
    using Cons.prems(6) by (cases ys) auto
  have "x = y"
  proof (rule ccontr)
    assume "x \<noteq> y"
    then have "x \<in> set zs" "y \<in> set xs"
      using Cons.prems(6) ys by auto
    then have "le x y" "le y x"
      using Cons.prems(2,3) ys by auto
    then show False
      using Cons.prems(1) [of x y] \<open>x \<noteq> y\<close> \<open>y \<in> set xs\<close> by simp
  qed
  moreover have "xs = zs"
  proof (rule Cons.IH)
    show "set xs = set zs"
      using Cons.prems(4-6) ys \<open>x = y\<close> by auto
  qed (use Cons.prems ys in auto)
  ultimately show ?case using ys by simp
qed simp

lemma sorted_wrt_distinct:
  "sorted_wrt le xs \<Longrightarrow> distinct xs \<Longrightarrow> sorted_wrt (\<lambda>a b. le a b \<and> a \<noteq> b) xs"
  by (induction xs) auto

text \<open>
  The argument list of a reward calculation does not depend on how the bonds were read. For a
  valid set of bonds, every arrangement of it is ordered into the same list, which holds exactly those
  bonds, from the highest STX-value ratio down and, among equal ratios, from the earliest period up.
\<close>

theorem bond_order_canonical:
  assumes "pox5CalculationBondsSchema bonds" "distinct bonds'" "set bonds' = set bonds"
  shows "\<exists>ordered. orderPox5CalculationBonds bonds = Inr ordered \<and> orderPox5CalculationBonds bonds' = Inr ordered \<and>
     set ordered = set bonds \<and> length ordered = length bonds \<and>
     sorted_wrt (\<lambda>a b. cbStxValueRatio b < cbStxValueRatio a \<or>
       cbStxValueRatio a = cbStxValueRatio b \<and> cbBondIndex a < cbBondIndex b) ordered"
proof -
  let ?le = "bond_le bond_key"
  have inj: "inj_on cbBondIndex (set bonds)" and dist: "distinct bonds"
    using assms(1) by (auto simp: pox5CalculationBondsSchema_def distinct_map)
  have len: "length bonds' = length bonds"
    using assms(2,3) dist distinct_card by metis
  have valid: "pox5CalculationBondsSchema bonds'"
    using assms len inj by (simp add: pox5CalculationBondsSchema_def distinct_map list_all_iff)
  have sorted: "sorted_wrt ?le (sort_by ?le xs)" for xs
    using bond_le_total bond_le_trans by (rule sorted_sort_by)
  have same: "sort_by ?le bonds = sort_by ?le bonds'"
  proof (rule sorted_wrt_unique)
    fix a b assume "a \<in> set (sort_by ?le bonds)" "b \<in> set (sort_by ?le bonds)" "?le a b" "?le b a"
    then show "a = b"
      using inj bond_le_antisym [of bond_key a b] by (auto simp: bond_key_def inj_on_def)
  qed (use sorted assms dist in auto)
  have "sorted_wrt (\<lambda>a b. cbStxValueRatio b < cbStxValueRatio a \<or>
      cbStxValueRatio a = cbStxValueRatio b \<and> cbBondIndex a < cbBondIndex b) (sort_by ?le bonds)"
  proof (rule sorted_wrt_mono_rel)
    show "sorted_wrt (\<lambda>a b. ?le a b \<and> a \<noteq> b) (sort_by ?le bonds)"
      using sorted dist by (simp add: sorted_wrt_distinct)
  next
    fix a b assume "a \<in> set (sort_by ?le bonds)" "b \<in> set (sort_by ?le bonds)" "?le a b \<and> a \<noteq> b"
    then show "cbStxValueRatio b < cbStxValueRatio a \<or>
        cbStxValueRatio a = cbStxValueRatio b \<and> cbBondIndex a < cbBondIndex b"
      using inj by (auto simp: bond_le_alt bond_key_def inj_on_def less_le)
  qed
  then show ?thesis
    using assms(1,3) len valid same by (intro exI [of _ "sort_by ?le bonds"]) (simp add: orderPox5CalculationBonds_def)
qed

definition demo_bond :: "int \<Rightarrow> int \<Rightarrow> calculation_bond" where
  "demo_bond i ratio = \<lparr>cbBondIndex = i, cbTargetRateBips = 500, cbStxValueRatio = ratio, cbMinUstxRatioBips = 1\<rparr>"

theorem bond_order_canonical_witness:
  "\<exists>ordered. orderPox5CalculationBonds [demo_bond 4 10, demo_bond 3 10, demo_bond 5 70] = Inr ordered \<and>
     orderPox5CalculationBonds [demo_bond 5 70, demo_bond 4 10, demo_bond 3 10] = Inr ordered"
  using bond_order_canonical [of "[demo_bond 4 10, demo_bond 3 10, demo_bond 5 70]"
      "[demo_bond 5 70, demo_bond 4 10, demo_bond 3 10]"]
  by (auto simp: demo_bond_def pox5CalculationBondsSchema_def pox5CalculationBondSchema_def
      uint128Schema_def UINT128_MAX_def MAX_BOND_PERIODS_PER_CYCLE_def insert_commute)

end
