(* ===== verification/Reward_Simulation.thy ===== *)
theory Reward_Simulation
  imports Pox5_Bonds
begin

text \<open>
  The replay of PoX-5 \<open>calculate-rewards\<close> (\<open>simulatePox5CalculateRewards\<close>,
  packages/protocol/src/pox5-calculate-rewards.ts), with its checked 128-bit arithmetic, the sharing
  of the accrued rewards between the bonds, the reserve and the STX stakers, and the manager's part.
\<close>

subsection \<open>Checked arithmetic\<close>

definition POX5_REWARD_PRECISION :: int where "POX5_REWARD_PRECISION = 10 ^ 18"
definition POX5_REWARD_RESERVE_RATIO_BIPS :: int where "POX5_REWARD_RESERVE_RATIO_BIPS = 1500"

definition checkedUint :: "int \<Rightarrow> string \<Rightarrow> engine_error + int" where
  "checkedUint v label =
     (if v < 0 \<or> v > UINT128_MAX then Inl (OtherError (label @ '' exceeds Clarity uint bounds'')) else Inr v)"

definition checkedAdd :: "int \<Rightarrow> int \<Rightarrow> string \<Rightarrow> engine_error + int" where
  "checkedAdd left right label = checkedUint (left + right) label"

definition checkedMultiply :: "int \<Rightarrow> int \<Rightarrow> string \<Rightarrow> engine_error + int" where
  "checkedMultiply left right label = checkedUint (left * right) label"

definition integerDivide :: "int \<Rightarrow> int \<Rightarrow> string \<Rightarrow> engine_error + int" where
  "integerDivide numerator denominator label =
     (if denominator = 0 then Inl (OtherError (label @ '' divides by zero''))
      else Inr (bigint_div numerator denominator))"

lemma checkedUint_Inr [simp]: "checkedUint v l = Inr w \<longleftrightarrow> w = v \<and> 0 \<le> v \<and> v \<le> UINT128_MAX"
  by (auto simp: checkedUint_def)

lemma checkedAdd_Inr [simp]: "checkedAdd a b l = Inr w \<longleftrightarrow> w = a + b \<and> 0 \<le> a + b \<and> a + b \<le> UINT128_MAX"
  by (simp add: checkedAdd_def)

lemma checkedMultiply_Inr [simp]:
  "checkedMultiply a b l = Inr w \<longleftrightarrow> w = a * b \<and> 0 \<le> a * b \<and> a * b \<le> UINT128_MAX"
  by (simp add: checkedMultiply_def)

lemma integerDivide_Inr [simp]:
  "integerDivide a b l = Inr w \<longleftrightarrow> b \<noteq> 0 \<and> w = bigint_div a b"
  by (auto simp: integerDivide_def)

subsection \<open>Inputs and results\<close>

record simulation_bond =
  sbBondIndex :: int
  sbTargetRateBips :: int
  sbStxValueRatio :: int
  sbTotalSharesSats :: int
  sbCurrentRewardsPerSat :: int
  sbManagerSharesSats :: "int option"

record simulation_input =
  siGrossAccruedRewardsSats :: int
  siCurrentReserveBalanceSats :: int
  siCycleStakedUstx :: int
  siCurrentRewardsPerUstx :: int
  siManagerStxSharesUstx :: "int option"
  siBonds :: "simulation_bond list"

definition optional_uint :: "int option \<Rightarrow> int \<Rightarrow> bool" where
  "optional_uint v bound \<longleftrightarrow> (case v of None \<Rightarrow> True | Some n \<Rightarrow> uint128Schema n \<and> n \<le> bound)"

definition pox5RewardSimulationBondSchema :: "simulation_bond \<Rightarrow> bool" where
  "pox5RewardSimulationBondSchema b \<longleftrightarrow>
     uint128Schema (sbBondIndex b) \<and> uint128Schema (sbTargetRateBips b) \<and>
     uint128Schema (sbStxValueRatio b) \<and> uint128Schema (sbTotalSharesSats b) \<and>
     uint128Schema (sbCurrentRewardsPerSat b) \<and>
     optional_uint (sbManagerSharesSats b) (sbTotalSharesSats b)"

definition pox5RewardSimulationInputSchema :: "simulation_input \<Rightarrow> bool" where
  "pox5RewardSimulationInputSchema i \<longleftrightarrow>
     uint128Schema (siGrossAccruedRewardsSats i) \<and> uint128Schema (siCurrentReserveBalanceSats i) \<and>
     uint128Schema (siCycleStakedUstx i) \<and> uint128Schema (siCurrentRewardsPerUstx i) \<and>
     optional_uint (siManagerStxSharesUstx i) (siCycleStakedUstx i) \<and>
     list_all pox5RewardSimulationBondSchema (siBonds i) \<and>
     length (siBonds i) \<le> MAX_BOND_PERIODS_PER_CYCLE"

record bond_result =
  brBondIndex :: int
  brTargetYieldSats :: int
  brBondRewardSats :: int
  brBondStakedSats :: int
  brAccruedRewardsPerSat :: int
  brCumulativeRewardsPerSat :: int
  brManagerSharesSats :: "int option"
  brManagerRewardSats :: "int option"

record manager_result =
  mrStxRewardSats :: int
  mrBondRewardSats :: int
  mrGrossRewardSats :: int

record simulation =
  smGrossAccruedRewardsSats :: int
  smTotalBondRewardsSats :: int
  smRemainingRewardsAfterBondsSats :: int
  smReserveDepositSats :: int
  smReserveBalanceSats :: int
  smTotalStxStakerRewardsSats :: int
  smCycleStakedUstx :: int
  smAccruedRewardsPerUstx :: int
  smCumulativeRewardsPerUstx :: int
  smAccountedRewardsDeltaSats :: int
  smBonds :: "bond_result list"
  smManager :: "manager_result option"

subsection \<open>The replay\<close>

text \<open>Rewards per share at the contract's precision; nothing accrues to an empty bucket.\<close>

definition rewards_per_share :: "int \<Rightarrow> int \<Rightarrow> string \<Rightarrow> string \<Rightarrow> engine_error + int" where
  "rewards_per_share rewards shares product division =
     (if shares = 0 then Inr 0
      else bindr (checkedMultiply rewards POX5_REWARD_PRECISION product) (\<lambda>n.
           integerDivide n shares division))"

text \<open>The manager's part of a bucket, when the manager's shares are known.\<close>

definition manager_part :: "int option \<Rightarrow> int \<Rightarrow> string \<Rightarrow> string \<Rightarrow> engine_error + int option" where
  "manager_part shares per_share product division = (case shares of
       None \<Rightarrow> Inr None
     | Some n \<Rightarrow> bindr (checkedMultiply n per_share product) (\<lambda>m.
         bindr (integerDivide m POX5_REWARD_PRECISION division) (\<lambda>r. Inr (Some r))))"

definition bond_label :: "simulation_bond \<Rightarrow> string \<Rightarrow> string" where
  "bond_label b what = ''bond '' @ int_text (sbBondIndex b) @ '' '' @ what"

definition simulate_bond :: "simulation_bond \<Rightarrow> int \<Rightarrow> engine_error + bond_result" where
  "simulate_bond bond availableRewards =
     bindr (checkedMultiply (sbTotalSharesSats bond) (sbTargetRateBips bond)
       (bond_label bond ''target-yield product'')) (\<lambda>p.
     bindr (integerDivide p 10000 (bond_label bond ''target-yield basis-points division'')) (\<lambda>q.
     bindr (integerDivide q 50 (bond_label bond ''target-yield distribution division'')) (\<lambda>targetYieldSats.
     let bondRewardSats = (if availableRewards \<ge> targetYieldSats then targetYieldSats else availableRewards) in
     bindr (rewards_per_share bondRewardSats (sbTotalSharesSats bond)
       (bond_label bond ''rewards-per-sat product'') (bond_label bond ''rewards-per-sat division''))
       (\<lambda>accruedRewardsPerSat.
     bindr (manager_part (sbManagerSharesSats bond) accruedRewardsPerSat
       (bond_label bond ''manager reward product'') (bond_label bond ''manager reward division''))
       (\<lambda>managerRewardSats.
     bindr (checkedAdd (sbCurrentRewardsPerSat bond) accruedRewardsPerSat
       (bond_label bond ''cumulative rewards per sat'')) (\<lambda>cumulative.
     Inr \<lparr>brBondIndex = sbBondIndex bond, brTargetYieldSats = targetYieldSats,
       brBondRewardSats = bondRewardSats, brBondStakedSats = sbTotalSharesSats bond,
       brAccruedRewardsPerSat = accruedRewardsPerSat, brCumulativeRewardsPerSat = cumulative,
       brManagerSharesSats = sbManagerSharesSats bond, brManagerRewardSats = managerRewardSats\<rparr>))))))"

text \<open>The loop over the ordered bonds; \<open>stateOf\<close> is \<open>bondStateByIndex.get\<close>.\<close>

fun simulate_bonds ::
    "(int \<Rightarrow> simulation_bond option) \<Rightarrow> simulation_bond list \<Rightarrow> int \<Rightarrow> engine_error + bond_result list \<times> int" where
  "simulate_bonds stateOf [] availableRewards = Inr ([], availableRewards)"
| "simulate_bonds stateOf (orderedBond # rest) availableRewards =
     (case stateOf (sbBondIndex orderedBond) of
        None \<Rightarrow> Inl (OtherError (''missing simulation state for bond '' @ int_text (sbBondIndex orderedBond)))
      | Some bond \<Rightarrow>
          bindr (simulate_bond bond availableRewards) (\<lambda>b.
          bindr (simulate_bonds stateOf rest (availableRewards - brBondRewardSats b)) (\<lambda>(bs, remaining).
          Inr (b # bs, remaining))))"

definition simulation_key :: "simulation_bond \<Rightarrow> int \<times> int" where
  "simulation_key b = (sbStxValueRatio b, sbBondIndex b)"

definition bondStateByIndex :: "simulation_bond list \<Rightarrow> int \<Rightarrow> simulation_bond option" where
  "bondStateByIndex bonds = map_of (rev (map (\<lambda>b. (sbBondIndex b, b)) bonds))"

definition manager_total ::
    "int option \<Rightarrow> int option list \<Rightarrow> engine_error + manager_result option" where
  "manager_total managerStxRewardSats managerBondRewards =
     (case managerStxRewardSats of
        Some stx \<Rightarrow>
          if list_all (\<lambda>r. r \<noteq> None) managerBondRewards
          then let bond = foldl (\<lambda>total reward. total + (case reward of None \<Rightarrow> 0 | Some r \<Rightarrow> r)) 0 managerBondRewards in
               bindr (checkedAdd stx bond ''manager gross reward'') (\<lambda>gross.
               Inr (Some \<lparr>mrStxRewardSats = stx, mrBondRewardSats = bond, mrGrossRewardSats = gross\<rparr>))
          else Inr None
      | None \<Rightarrow> Inr None)"

definition simulatePox5CalculateRewards :: "simulation_input \<Rightarrow> engine_error + simulation" where
  "simulatePox5CalculateRewards input =
     bindr (guardr (pox5RewardSimulationInputSchema input) (OtherError ''ZodError'')) (\<lambda>_.
     bindr (simulate_bonds (bondStateByIndex (siBonds input))
              (sort_by (bond_le simulation_key) (siBonds input)) (siGrossAccruedRewardsSats input))
       (\<lambda>(bonds, availableRewards).
     bindr (checkedMultiply availableRewards POX5_REWARD_RESERVE_RATIO_BIPS ''reserve-cut product'') (\<lambda>cut.
     bindr (integerDivide cut 10000 ''reserve-cut division'') (\<lambda>reserveDepositBaseSats.
     let totalStxStakerRewardsSats = availableRewards - reserveDepositBaseSats;
         noStxStakers = (siCycleStakedUstx input = 0) in
     bindr (rewards_per_share totalStxStakerRewardsSats (siCycleStakedUstx input)
       ''STX rewards-per-ustx product'' ''STX rewards-per-ustx division'') (\<lambda>accruedRewardsPerUstx.
     bindr (if noStxStakers
            then checkedAdd reserveDepositBaseSats totalStxStakerRewardsSats ''unallocated STX reserve deposit''
            else Inr reserveDepositBaseSats) (\<lambda>reserveDepositSats.
     bindr (manager_part (siManagerStxSharesUstx input) accruedRewardsPerUstx
       ''manager STX reward product'' ''manager STX reward division'') (\<lambda>managerStxRewardSats.
     bindr (manager_total managerStxRewardSats (map brManagerRewardSats bonds)) (\<lambda>manager.
     bindr (checkedAdd (siCurrentReserveBalanceSats input) reserveDepositSats ''reserve balance'')
       (\<lambda>reserveBalance.
     bindr (checkedAdd (siCurrentRewardsPerUstx input) accruedRewardsPerUstx ''cumulative rewards per ustx'')
       (\<lambda>cumulative.
     Inr \<lparr>smGrossAccruedRewardsSats = siGrossAccruedRewardsSats input,
       smTotalBondRewardsSats = siGrossAccruedRewardsSats input - availableRewards,
       smRemainingRewardsAfterBondsSats = availableRewards, smReserveDepositSats = reserveDepositSats,
       smReserveBalanceSats = reserveBalance, smTotalStxStakerRewardsSats = totalStxStakerRewardsSats,
       smCycleStakedUstx = siCycleStakedUstx input, smAccruedRewardsPerUstx = accruedRewardsPerUstx,
       smCumulativeRewardsPerUstx = cumulative,
       smAccountedRewardsDeltaSats = siGrossAccruedRewardsSats input - reserveDepositSats,
       smBonds = bonds, smManager = manager\<rparr>))))))))))"

subsection \<open>Soundness of one bond's step\<close>

lemma uint128_nonneg: "uint128Schema n \<Longrightarrow> 0 \<le> n"
  by (simp add: uint128Schema_def)

lemma PRECISION_pos [simp]: "0 < POX5_REWARD_PRECISION" "POX5_REWARD_PRECISION \<noteq> 0"
  by (simp_all add: POX5_REWARD_PRECISION_def)

lemma div_mult_below:
  assumes "0 < (d :: int)"
  shows "x div d * d \<le> x"
proof -
  have "x div d * d + x mod d = x" "0 \<le> x mod d"
    using assms by simp_all
  then show ?thesis by linarith
qed

lemma rewards_per_share_bounds:
  assumes "rewards_per_share r shares p d = Inr a" "0 \<le> r" "0 \<le> shares"
  shows "0 \<le> a \<and> a * shares \<le> r * POX5_REWARD_PRECISION"
proof (cases "shares = 0")
  case True
  then show ?thesis
    using assms by (auto simp: rewards_per_share_def less_imp_le)
next
  case False
  then have "a = (r * POX5_REWARD_PRECISION) div shares" "0 \<le> r * POX5_REWARD_PRECISION" "0 < shares"
    using assms by (auto simp: rewards_per_share_def)
  then show ?thesis
    using div_mult_below [of shares "r * POX5_REWARD_PRECISION"] by (simp add: pos_imp_zdiv_nonneg_iff)
qed

lemma manager_part_bounds:
  assumes "manager_part (Some n) a p d = Inr m" "0 \<le> n" "n \<le> shares" "0 \<le> a" "0 \<le> r"
    and "a * shares \<le> r * POX5_REWARD_PRECISION"
  shows "\<exists>v. m = Some v \<and> 0 \<le> v \<and> v \<le> r"
proof -
  have m: "m = Some (n * a div POX5_REWARD_PRECISION)" "0 \<le> n * a"
    using assms(1,2,4) by (auto simp: manager_part_def)
  have "n * a \<le> shares * a"
    using assms(3,4) by (rule mult_right_mono)
  also have "\<dots> \<le> r * POX5_REWARD_PRECISION"
    using assms(6) by (simp add: mult.commute)
  finally have "n * a div POX5_REWARD_PRECISION \<le> r"
    using zdiv_mono1 [of "n * a" "r * POX5_REWARD_PRECISION" POX5_REWARD_PRECISION] by simp
  then show ?thesis
    using m by (simp add: pos_imp_zdiv_nonneg_iff)
qed

lemma manager_part_None [simp]: "manager_part None a p d = Inr m \<longleftrightarrow> m = None"
  by (auto simp: manager_part_def)

definition bond_sound :: "int \<Rightarrow> simulation_bond \<Rightarrow> bond_result \<Rightarrow> bool" where
  "bond_sound available b r \<longleftrightarrow>
     brBondIndex r = sbBondIndex b \<and> brBondStakedSats r = sbTotalSharesSats b \<and>
     brTargetYieldSats r = sbTotalSharesSats b * sbTargetRateBips b div 500000 \<and> 0 \<le> brTargetYieldSats r \<and>
     brBondRewardSats r = min (brTargetYieldSats r) available \<and> 0 \<le> brAccruedRewardsPerSat r \<and>
     brAccruedRewardsPerSat r * sbTotalSharesSats b \<le> brBondRewardSats r * POX5_REWARD_PRECISION \<and>
     (brManagerRewardSats r = None \<longleftrightarrow> sbManagerSharesSats b = None) \<and>
     (\<forall>m. brManagerRewardSats r = Some m \<longrightarrow> 0 \<le> m \<and> m \<le> brBondRewardSats r)"

lemma simulate_bond_sound:
  assumes "simulate_bond b available = Inr r" "pox5RewardSimulationBondSchema b" "0 \<le> available"
  shows "bond_sound available b r"
proof -
  let ?t = "sbTotalSharesSats b * sbTargetRateBips b div 500000"
  let ?rew = "if available \<ge> ?t then ?t else available"
  have shares: "0 \<le> sbTotalSharesSats b" "0 \<le> sbTargetRateBips b"
    and mine: "optional_uint (sbManagerSharesSats b) (sbTotalSharesSats b)"
    using assms(2) by (simp_all add: pox5RewardSimulationBondSchema_def uint128_nonneg)
  have yield: "sbTotalSharesSats b * sbTargetRateBips b div 10000 div 50 = ?t" "0 \<le> ?t"
    using shares by (simp_all add: zdiv_zmult2_eq [symmetric] pos_imp_zdiv_nonneg_iff)
  obtain a m where a: "rewards_per_share ?rew (sbTotalSharesSats b) (bond_label b ''rewards-per-sat product'')
        (bond_label b ''rewards-per-sat division'') = Inr a"
    and m: "manager_part (sbManagerSharesSats b) a (bond_label b ''manager reward product'')
        (bond_label b ''manager reward division'') = Inr m"
    and r: "brBondIndex r = sbBondIndex b" "brBondStakedSats r = sbTotalSharesSats b"
      "brTargetYieldSats r = ?t" "brBondRewardSats r = ?rew" "brAccruedRewardsPerSat r = a" "brManagerRewardSats r = m"
    using assms(1) shares yield
    by (auto simp: simulate_bond_def Let_def pos_imp_zdiv_nonneg_iff split: if_splits)
  have share: "0 \<le> a" "a * sbTotalSharesSats b \<le> ?rew * POX5_REWARD_PRECISION"
    using rewards_per_share_bounds [OF a] shares yield(2) assms(3) by (simp_all split: if_splits)
  have "(m = None \<longleftrightarrow> sbManagerSharesSats b = None) \<and> (\<forall>v. m = Some v \<longrightarrow> 0 \<le> v \<and> v \<le> ?rew)"
  proof (cases "sbManagerSharesSats b")
    case (Some n)
    then have "\<exists>v. m = Some v \<and> 0 \<le> v \<and> v \<le> ?rew"
      using mine share yield(2) assms(3) m
      by (intro manager_part_bounds [where n = n and a = a and shares = "sbTotalSharesSats b"])
        (auto simp: optional_uint_def uint128_nonneg split: if_splits)
    then show ?thesis using Some by auto
  qed (use m in auto)
  then show ?thesis
    using r share yield(2) by (auto simp: bond_sound_def min_def)
qed

text \<open>The waterfall: what is left for each bond is what the ones before it did not take.\<close>

fun waterfall :: "int \<Rightarrow> simulation_bond list \<Rightarrow> bond_result list \<Rightarrow> bool" where
  "waterfall available [] rs \<longleftrightarrow> rs = []"
| "waterfall available (b # bs) rs \<longleftrightarrow>
     (case rs of [] \<Rightarrow> False
      | r # rest \<Rightarrow> bond_sound available b r \<and> waterfall (available - brBondRewardSats r) bs rest)"

lemma simulate_bonds_waterfall:
  assumes "simulate_bonds stateOf bs available = Inr (rs, remaining)" "0 \<le> available"
    and "\<And>i b. stateOf i = Some b \<Longrightarrow> pox5RewardSimulationBondSchema b"
  shows "waterfall available (map (\<lambda>b. the (stateOf (sbBondIndex b))) bs) rs \<and>
     remaining = available - (\<Sum>r\<leftarrow>rs. brBondRewardSats r) \<and> 0 \<le> remaining"
  using assms(1,2)
proof (induction bs arbitrary: available rs)
  case (Cons b bs)
  obtain s r rest where step: "stateOf (sbBondIndex b) = Some s" "simulate_bond s available = Inr r"
    "simulate_bonds stateOf bs (available - brBondRewardSats r) = Inr (rest, remaining)" "rs = r # rest"
    using Cons.prems(1) by (auto split: option.splits)
  have sound: "bond_sound available s r"
    using simulate_bond_sound [OF step(2) assms(3) [OF step(1)] Cons.prems(2)] .
  then have "0 \<le> available - brBondRewardSats r"
    by (auto simp: bond_sound_def)
  from Cons.IH [OF step(3) this] show ?case
    using step sound by simp
qed simp

lemma waterfall_parts:
  assumes "waterfall available bs rs" "0 \<le> available"
  shows "(\<forall>r \<in> set rs. 0 \<le> brBondRewardSats r \<and> brBondRewardSats r \<le> brTargetYieldSats r) \<and>
     (\<Sum>r\<leftarrow>rs. case brManagerRewardSats r of None \<Rightarrow> 0 | Some m \<Rightarrow> m) \<le> (\<Sum>r\<leftarrow>rs. brBondRewardSats r) \<and>
     0 \<le> (\<Sum>r\<leftarrow>rs. case brManagerRewardSats r of None \<Rightarrow> 0 | Some m \<Rightarrow> m)"
  using assms
proof (induction available bs rs rule: waterfall.induct)
  case (2 available b bs rs)
  then obtain r rest where rs: "rs = r # rest" "bond_sound available b r"
    "waterfall (available - brBondRewardSats r) bs rest"
    by (auto split: list.splits)
  have "0 \<le> available - brBondRewardSats r" "0 \<le> brBondRewardSats r"
    "(case brManagerRewardSats r of None \<Rightarrow> 0 | Some m \<Rightarrow> m) \<le> brBondRewardSats r"
    "0 \<le> (case brManagerRewardSats r of None \<Rightarrow> 0 | Some m \<Rightarrow> m)"
    using rs(2) 2(3) by (auto simp: bond_sound_def split: option.splits)
  then show ?case
    using 2(1) [OF rs(1) rs(3)] rs by (auto simp: bond_sound_def)
qed simp

lemma foldl_plus: "foldl (\<lambda>t x. t + f x) (a :: int) xs = a + (\<Sum>x\<leftarrow>xs. f x)"
  by (induction xs arbitrary: a) auto

lemma bondStateByIndex_in: "bondStateByIndex bonds i = Some b \<Longrightarrow> b \<in> set bonds \<and> sbBondIndex b = i"
  unfolding bondStateByIndex_def by (auto dest!: map_of_SomeD)

lemma bondStateByIndex_distinct:
  "distinct (map sbBondIndex bonds) \<Longrightarrow> b \<in> set bonds \<Longrightarrow> bondStateByIndex bonds (sbBondIndex b) = Some b"
  unfolding bondStateByIndex_def by (rule map_of_is_SomeI) (auto simp: rev_map o_def distinct_map)

text \<open>A successful replay, taken apart.\<close>

definition replay_bonds :: "simulation_input \<Rightarrow> simulation_bond list" where
  "replay_bonds i = map (\<lambda>b. the (bondStateByIndex (siBonds i) (sbBondIndex b)))
     (sort_by (bond_le simulation_key) (siBonds i))"

lemma replay_bonds_distinct:
  assumes "distinct (map sbBondIndex (siBonds i))"
  shows "replay_bonds i = sort_by (bond_le simulation_key) (siBonds i)"
  unfolding replay_bonds_def
  by (rule map_idI) (simp add: bondStateByIndex_distinct [OF assms])

lemma simulation_elim:
  assumes "simulatePox5CalculateRewards i = Inr s"
  defines "left \<equiv> siGrossAccruedRewardsSats i - (\<Sum>r\<leftarrow>smBonds s. brBondRewardSats r)"
  defines "reserved \<equiv> left * 1500 div 10000"
  obtains a m where "pox5RewardSimulationInputSchema i"
    "waterfall (siGrossAccruedRewardsSats i) (replay_bonds i) (smBonds s)" "0 \<le> left"
    "smGrossAccruedRewardsSats s = siGrossAccruedRewardsSats i" "smRemainingRewardsAfterBondsSats s = left"
    "smTotalStxStakerRewardsSats s = left - reserved" "smCycleStakedUstx s = siCycleStakedUstx i"
    "smReserveDepositSats s = (if siCycleStakedUstx i = 0 then left else reserved)"
    "smAccountedRewardsDeltaSats s = siGrossAccruedRewardsSats i - smReserveDepositSats s"
    "smTotalBondRewardsSats s = siGrossAccruedRewardsSats i - left" "smAccruedRewardsPerUstx s = a"
    "rewards_per_share (left - reserved) (siCycleStakedUstx i) ''STX rewards-per-ustx product''
       ''STX rewards-per-ustx division'' = Inr a"
    "manager_part (siManagerStxSharesUstx i) a ''manager STX reward product'' ''manager STX reward division'' = Inr m"
    "manager_total m (map brManagerRewardSats (smBonds s)) = Inr (smManager s)"
proof -
  have schema: "pox5RewardSimulationInputSchema i"
    using assms(1) by (auto simp: simulatePox5CalculateRewards_def)
  obtain bs rem where loop: "simulate_bonds (bondStateByIndex (siBonds i))
      (sort_by (bond_le simulation_key) (siBonds i)) (siGrossAccruedRewardsSats i) = Inr (bs, rem)"
    and bonds: "smBonds s = bs"
    using assms(1) by (auto simp: simulatePox5CalculateRewards_def Let_def)
  have gross: "0 \<le> siGrossAccruedRewardsSats i"
    and each: "\<And>k b. bondStateByIndex (siBonds i) k = Some b \<Longrightarrow> pox5RewardSimulationBondSchema b"
    using schema by (auto simp: pox5RewardSimulationInputSchema_def uint128_nonneg list_all_iff dest: bondStateByIndex_in)
  have "waterfall (siGrossAccruedRewardsSats i) (replay_bonds i) bs \<and>
      rem = siGrossAccruedRewardsSats i - (\<Sum>r\<leftarrow>bs. brBondRewardSats r) \<and> 0 \<le> rem"
    unfolding replay_bonds_def by (rule simulate_bonds_waterfall [OF loop gross]) (rule each)
  then have fall: "waterfall (siGrossAccruedRewardsSats i) (replay_bonds i) bs" "rem = left" "0 \<le> left"
    unfolding left_def bonds by simp_all
  have reserved: "bigint_div (left * POX5_REWARD_RESERVE_RATIO_BIPS) 10000 = reserved"
    using fall(3) unfolding reserved_def POX5_REWARD_RESERVE_RATIO_BIPS_def by (subst bigint_div_nonneg) simp_all
  obtain a m where parts:
    "rewards_per_share (left - reserved) (siCycleStakedUstx i) ''STX rewards-per-ustx product''
       ''STX rewards-per-ustx division'' = Inr a"
    "manager_part (siManagerStxSharesUstx i) a ''manager STX reward product'' ''manager STX reward division'' = Inr m"
    "manager_total m (map brManagerRewardSats bs) = Inr (smManager s)"
    and fields: "smGrossAccruedRewardsSats s = siGrossAccruedRewardsSats i"
    "smRemainingRewardsAfterBondsSats s = left" "smTotalStxStakerRewardsSats s = left - reserved"
    "smCycleStakedUstx s = siCycleStakedUstx i"
    "smReserveDepositSats s = (if siCycleStakedUstx i = 0 then left else reserved)"
    "smAccountedRewardsDeltaSats s = siGrossAccruedRewardsSats i - smReserveDepositSats s"
    "smTotalBondRewardsSats s = siGrossAccruedRewardsSats i - left" "smAccruedRewardsPerUstx s = a"
    using assms(1) loop fall(2) schema
    by (auto simp: simulatePox5CalculateRewards_def Let_def reserved split: if_splits)
  show ?thesis
    by (rule that [OF schema]) (use fall bonds parts fields in simp_all)
qed

lemma manager_total_elim:
  assumes "manager_total m rs = Inr (Some r)"
  obtains stx where "m = Some stx" "mrStxRewardSats r = stx" "mrGrossRewardSats r = stx + mrBondRewardSats r"
    "mrBondRewardSats r = (\<Sum>x\<leftarrow>rs. case x of None \<Rightarrow> 0 | Some v \<Rightarrow> v)"
  using assms by (auto simp: manager_total_def Let_def foldl_plus split: option.splits if_splits intro: that)

text \<open>Two bonds and a manager holding half of everything; the gross rewards run out at the second bond.\<close>

definition demo_simulation_bond :: "int \<Rightarrow> int \<Rightarrow> int \<Rightarrow> simulation_bond" where
  "demo_simulation_bond i ratio shares = \<lparr>sbBondIndex = i, sbTargetRateBips = 500, sbStxValueRatio = ratio,
     sbTotalSharesSats = shares, sbCurrentRewardsPerSat = 0, sbManagerSharesSats = Some (shares div 2)\<rparr>"

definition demo_simulation_input :: "int \<Rightarrow> simulation_input" where
  "demo_simulation_input gross = \<lparr>siGrossAccruedRewardsSats = gross, siCurrentReserveBalanceSats = 7,
     siCycleStakedUstx = 4000, siCurrentRewardsPerUstx = 0, siManagerStxSharesUstx = Some 2000,
     siBonds = [demo_simulation_bond 3 10 100000000, demo_simulation_bond 5 70 1000000000]\<rparr>"

lemma demo_simulation_schema: "pox5RewardSimulationInputSchema (demo_simulation_input 2000000)"
  by code_simp

lemma demo_simulation_runs: "\<exists>s. simulatePox5CalculateRewards (demo_simulation_input 1050000) = Inr s \<and>
    map brBondRewardSats (smBonds s) = [1000000, 50000] \<and> map_option mrGrossRewardSats (smManager s) = Some 525000"
proof -
  have "case simulatePox5CalculateRewards (demo_simulation_input 1050000) of Inl _ \<Rightarrow> False
     | Inr s \<Rightarrow> map brBondRewardSats (smBonds s) = [1000000, 50000] \<and>
         map_option mrGrossRewardSats (smManager s) = Some 525000"
    by code_simp
  then show ?thesis
    by (simp split: sum.splits)
qed

text \<open>
  C30: the replay of a calculation distributes exactly the accrued rewards. Whenever it succeeds, what
  the bonds, the reserve and the STX stakers receive adds up to the gross accrued rewards, no part is
  negative, no bond gets more than its target, and the STX reward per share never promises more than
  the stakers' part. The manager's estimate never exceeds what the bonds and the stakers were given.
\<close>
theorem simulation_conserves:
  assumes "simulatePox5CalculateRewards i = Inr s"
  defines "stakers \<equiv> (if siCycleStakedUstx i = 0 then 0 else smTotalStxStakerRewardsSats s)"
  shows "(\<Sum>r\<leftarrow>smBonds s. brBondRewardSats r) + smReserveDepositSats s + stakers = siGrossAccruedRewardsSats i \<and>
     smAccountedRewardsDeltaSats s = (\<Sum>r\<leftarrow>smBonds s. brBondRewardSats r) + stakers \<and>
     0 \<le> smReserveDepositSats s \<and> 0 \<le> stakers \<and>
     (\<forall>r \<in> set (smBonds s). 0 \<le> brBondRewardSats r \<and> brBondRewardSats r \<le> brTargetYieldSats r) \<and>
     smAccruedRewardsPerUstx s * siCycleStakedUstx i \<le> stakers * POX5_REWARD_PRECISION \<and>
     (\<forall>m. smManager s = Some m \<longrightarrow> 0 \<le> mrStxRewardSats m \<and> 0 \<le> mrBondRewardSats m \<and>
        mrGrossRewardSats m = mrStxRewardSats m + mrBondRewardSats m \<and>
        mrGrossRewardSats m \<le> (\<Sum>r\<leftarrow>smBonds s. brBondRewardSats r) + stakers)"
proof -
  define bonds where "bonds = (\<Sum>r\<leftarrow>smBonds s. brBondRewardSats r)"
  define left where "left = siGrossAccruedRewardsSats i - bonds"
  define reserved where "reserved = left * 1500 div 10000"
  obtain a m where e: "pox5RewardSimulationInputSchema i"
    "waterfall (siGrossAccruedRewardsSats i) (replay_bonds i) (smBonds s)" "0 \<le> left"
    "smTotalStxStakerRewardsSats s = left - reserved" "smAccruedRewardsPerUstx s = a"
    "smReserveDepositSats s = (if siCycleStakedUstx i = 0 then left else reserved)"
    "smAccountedRewardsDeltaSats s = siGrossAccruedRewardsSats i - smReserveDepositSats s"
    "rewards_per_share (left - reserved) (siCycleStakedUstx i) ''STX rewards-per-ustx product''
       ''STX rewards-per-ustx division'' = Inr a"
    "manager_part (siManagerStxSharesUstx i) a ''manager STX reward product'' ''manager STX reward division'' = Inr m"
    "manager_total m (map brManagerRewardSats (smBonds s)) = Inr (smManager s)"
    using simulation_elim [OF assms(1)] unfolding reserved_def left_def bonds_def by metis
  have reserved: "0 \<le> reserved" "reserved \<le> left"
    using e(3) by (auto simp: reserved_def)
  have staked: "0 \<le> siCycleStakedUstx i" "0 \<le> siGrossAccruedRewardsSats i"
    and mine: "optional_uint (siManagerStxSharesUstx i) (siCycleStakedUstx i)"
    using e(1) by (simp_all add: pox5RewardSimulationInputSchema_def uint128_nonneg)
  have stakers: "stakers = (if siCycleStakedUstx i = 0 then 0 else left - reserved)" "0 \<le> stakers"
    using e(4) reserved by (auto simp: stakers_def)
  have share: "0 \<le> a" "a * siCycleStakedUstx i \<le> stakers * POX5_REWARD_PRECISION"
    using rewards_per_share_bounds [OF e(8)] reserved staked stakers by auto
  note parts = waterfall_parts [OF e(2) staked(2)]
  have manager: "0 \<le> mrStxRewardSats r \<and> 0 \<le> mrBondRewardSats r \<and>
      mrGrossRewardSats r = mrStxRewardSats r + mrBondRewardSats r \<and> mrGrossRewardSats r \<le> bonds + stakers"
    if "smManager s = Some r" for r
  proof -
    have "manager_total m (map brManagerRewardSats (smBonds s)) = Inr (Some r)"
      using e(10) that by simp
    then obtain stx where r: "m = Some stx" "mrStxRewardSats r = stx" "mrGrossRewardSats r = stx + mrBondRewardSats r"
      "mrBondRewardSats r = (\<Sum>x\<leftarrow>map brManagerRewardSats (smBonds s). case x of None \<Rightarrow> 0 | Some v \<Rightarrow> v)"
      by (rule manager_total_elim)
    obtain n where n: "siManagerStxSharesUstx i = Some n" "0 \<le> n" "n \<le> siCycleStakedUstx i"
      using e(9) r(1) mine by (cases "siManagerStxSharesUstx i") (auto simp: optional_uint_def uint128_nonneg)
    have "0 \<le> stx" "stx \<le> stakers"
      using manager_part_bounds [of n a _ _ m "siCycleStakedUstx i" stakers] e(9) n share stakers(2) r(1) by auto
    then show ?thesis
      using r parts by (simp add: bonds_def o_def)
  qed
  have "bonds + smReserveDepositSats s + stakers = siGrossAccruedRewardsSats i"
    "0 \<le> smReserveDepositSats s"
    using e(3,6) reserved stakers(1) left_def by simp_all
  moreover have "\<forall>m. smManager s = Some m \<longrightarrow> 0 \<le> mrStxRewardSats m \<and> 0 \<le> mrBondRewardSats m \<and>
      mrGrossRewardSats m = mrStxRewardSats m + mrBondRewardSats m \<and> mrGrossRewardSats m \<le> bonds + stakers"
    using manager by blast
  ultimately show ?thesis
    using parts share stakers(2) e(5,7) unfolding bonds_def [symmetric]
    by (intro conjI) (assumption | simp)+
qed

theorem simulation_conserves_witness:
  "\<exists>s. simulatePox5CalculateRewards (demo_simulation_input 1050000) = Inr s \<and>
     (\<Sum>r\<leftarrow>smBonds s. brBondRewardSats r) + smReserveDepositSats s + smTotalStxStakerRewardsSats s = 1050000"
  using demo_simulation_runs simulation_conserves [of "demo_simulation_input 1050000"]
  by (auto simp: demo_simulation_input_def)

text \<open>
  Bonds are served as a waterfall in the contract's order. In a successful replay of a bond set
  without duplicates there is one result per bond, in canonical order, and each bond receives the
  smaller of its target for the distribution, a fiftieth of its yearly basis-point yield, and what
  the bonds before it left of the gross rewards.
\<close>
theorem simulation_waterfall:
  assumes "simulatePox5CalculateRewards i = Inr s" "distinct (map sbBondIndex (siBonds i))"
  defines "bonds \<equiv> sort_by (bond_le simulation_key) (siBonds i)"
  assumes "k < length bonds"
  shows "length (smBonds s) = length bonds \<and> brBondIndex (smBonds s ! k) = sbBondIndex (bonds ! k) \<and>
     brBondRewardSats (smBonds s ! k) =
       min (sbTotalSharesSats (bonds ! k) * sbTargetRateBips (bonds ! k) div 500000)
         (siGrossAccruedRewardsSats i - (\<Sum>r\<leftarrow>take k (smBonds s). brBondRewardSats r))"
proof -
  have "length rs = length bs \<and> (k < length bs \<longrightarrow>
      bond_sound (available - (\<Sum>r\<leftarrow>take k rs. brBondRewardSats r)) (bs ! k) (rs ! k))"
    if "waterfall available bs rs" for available bs rs
    using that
  proof (induction available bs rs arbitrary: k rule: waterfall.induct)
    case (2 available b bs rs)
    then obtain r rest where rs: "rs = r # rest" "bond_sound available b r"
      "waterfall (available - brBondRewardSats r) bs rest"
      by (auto split: list.splits)
    show ?case
      using 2(1) [OF rs(1) rs(3), of "k - 1"] rs by (cases k) (auto simp: algebra_simps)
  qed simp
  moreover have "waterfall (siGrossAccruedRewardsSats i) bonds (smBonds s)"
    using simulation_elim [OF assms(1)] replay_bonds_distinct [OF assms(2)] unfolding bonds_def by metis
  ultimately have "length (smBonds s) = length bonds"
    "bond_sound (siGrossAccruedRewardsSats i - (\<Sum>r\<leftarrow>take k (smBonds s). brBondRewardSats r)) (bonds ! k) (smBonds s ! k)"
    using assms(4) by blast+
  then show ?thesis
    by (simp add: bond_sound_def)
qed

theorem simulation_waterfall_witness:
  "\<exists>s. simulatePox5CalculateRewards (demo_simulation_input 1050000) = Inr s \<and>
     brBondRewardSats (smBonds s ! 1) = min 100000 (1050000 - (\<Sum>r\<leftarrow>take 1 (smBonds s). brBondRewardSats r))"
proof -
  obtain s where s: "simulatePox5CalculateRewards (demo_simulation_input 1050000) = Inr s"
    using demo_simulation_runs by blast
  have ordered: "sort_by (bond_le simulation_key) (siBonds (demo_simulation_input 1050000)) =
      [demo_simulation_bond 5 70 1000000000, demo_simulation_bond 3 10 100000000]"
    by code_simp
  have "distinct (map sbBondIndex (siBonds (demo_simulation_input 1050000)))"
    by code_simp
  from simulation_waterfall [OF s this, of 1] show ?thesis
    unfolding ordered using s by (simp add: demo_simulation_bond_def demo_simulation_input_def)
qed

subsection \<open>No overflow\<close>

text \<open>Inputs on which no product or sum of the replay leaves the contract's 128 bits.\<close>

definition replay_fits :: "simulation_input \<Rightarrow> bool" where
  "replay_fits i \<longleftrightarrow>
     siGrossAccruedRewardsSats i * POX5_REWARD_PRECISION \<le> UINT128_MAX \<and>
     siCurrentRewardsPerUstx i + siGrossAccruedRewardsSats i * POX5_REWARD_PRECISION \<le> UINT128_MAX \<and>
     siCurrentReserveBalanceSats i + siGrossAccruedRewardsSats i \<le> UINT128_MAX \<and>
     list_all (\<lambda>b. sbTotalSharesSats b * sbTargetRateBips b \<le> UINT128_MAX \<and>
       sbCurrentRewardsPerSat b + siGrossAccruedRewardsSats i * POX5_REWARD_PRECISION \<le> UINT128_MAX) (siBonds i)"

lemmas checked_Inr = checkedUint_Inr checkedAdd_Inr checkedMultiply_Inr integerDivide_Inr

lemma rewards_per_share_ok:
  assumes "0 \<le> r" "0 \<le> shares" "r * POX5_REWARD_PRECISION \<le> UINT128_MAX"
  obtains a where "rewards_per_share r shares p d = Inr a" "0 \<le> a" "a \<le> r * POX5_REWARD_PRECISION"
    "a * shares \<le> r * POX5_REWARD_PRECISION"
proof -
  have nonneg: "0 \<le> r * POX5_REWARD_PRECISION"
    using assms(1) by (simp add: less_imp_le)
  have "checkedMultiply r POX5_REWARD_PRECISION p = Inr (r * POX5_REWARD_PRECISION)"
    using assms(3) nonneg by simp
  then have "\<exists>a. rewards_per_share r shares p d = Inr a"
    by (cases "shares = 0") (simp_all add: rewards_per_share_def)
  then obtain a where a: "rewards_per_share r shares p d = Inr a"
    by blast
  note b = rewards_per_share_bounds [OF a assms(1,2)]
  have "a \<le> r * POX5_REWARD_PRECISION"
  proof (cases "shares = 0")
    case True
    then show ?thesis using a nonneg by (simp add: rewards_per_share_def)
  next
    case False
    then have "a * 1 \<le> a * shares"
      using b assms(2) by (intro mult_left_mono) auto
    then show ?thesis using b by linarith
  qed
  then show ?thesis using that a b by blast
qed

lemma manager_part_ok:
  assumes "optional_uint n shares" "0 \<le> a" "a * shares \<le> r * POX5_REWARD_PRECISION"
    "r * POX5_REWARD_PRECISION \<le> UINT128_MAX"
  shows "\<exists>m. manager_part n a p d = Inr m"
proof (cases n)
  case (Some k)
  then have "0 \<le> k" "k \<le> shares"
    using assms(1) by (auto simp: optional_uint_def uint128_nonneg)
  then have "0 \<le> k * a" "k * a \<le> UINT128_MAX"
    using assms(2-4) mult_right_mono [of k shares a] by (auto simp: mult.commute)
  then show ?thesis
    using Some by (simp add: manager_part_def checkedMultiply_def checkedUint_def integerDivide_def)
qed simp

lemma simulate_bond_ok:
  assumes "pox5RewardSimulationBondSchema b" "0 \<le> available" "available \<le> gross"
    "gross * POX5_REWARD_PRECISION \<le> UINT128_MAX" "sbTotalSharesSats b * sbTargetRateBips b \<le> UINT128_MAX"
    "sbCurrentRewardsPerSat b + gross * POX5_REWARD_PRECISION \<le> UINT128_MAX"
  shows "\<exists>r. simulate_bond b available = Inr r"
proof -
  let ?p = "sbTotalSharesSats b * sbTargetRateBips b"
  let ?t = "?p div 10000 div 50"
  let ?rew = "if available \<ge> ?t then ?t else available"
  have shares: "0 \<le> sbTotalSharesSats b" "0 \<le> ?p" "0 \<le> sbCurrentRewardsPerSat b"
    and mine: "optional_uint (sbManagerSharesSats b) (sbTotalSharesSats b)"
    using assms(1) by (simp_all add: pox5RewardSimulationBondSchema_def uint128_nonneg)
  have "0 \<le> ?rew" "?rew \<le> gross"
    using shares(2) assms(2,3) by (auto simp: pos_imp_zdiv_nonneg_iff)
  then have rew: "0 \<le> ?rew" "?rew * POX5_REWARD_PRECISION \<le> gross * POX5_REWARD_PRECISION"
    by (simp_all only: mult_right_mono [OF _ less_imp_le [OF PRECISION_pos(1)]])
  obtain a where a: "rewards_per_share ?rew (sbTotalSharesSats b) (bond_label b ''rewards-per-sat product'')
        (bond_label b ''rewards-per-sat division'') = Inr a"
    and ab: "0 \<le> a" "a \<le> ?rew * POX5_REWARD_PRECISION"
      "a * sbTotalSharesSats b \<le> ?rew * POX5_REWARD_PRECISION"
    using rewards_per_share_ok [OF rew(1) shares(1) order_trans [OF rew(2) assms(4)]] by blast
  obtain m where m: "manager_part (sbManagerSharesSats b) a (bond_label b ''manager reward product'')
        (bond_label b ''manager reward division'') = Inr m"
    using manager_part_ok [OF mine ab(1) ab(3) order_trans [OF rew(2) assms(4)]] by blast
  have "checkedMultiply (sbTotalSharesSats b) (sbTargetRateBips b) l = Inr ?p" for l
    using shares(2) assms(5) by simp
  moreover have "integerDivide ?p 10000 l = Inr (?p div 10000)" "integerDivide (?p div 10000) 50 l = Inr ?t" for l
    using shares(2) by (simp_all add: pos_imp_zdiv_nonneg_iff)
  moreover have "checkedAdd (sbCurrentRewardsPerSat b) a l = Inr (sbCurrentRewardsPerSat b + a)" for l
    using ab(1,2) shares(3) rew(2) assms(6) unfolding checkedAdd_Inr by linarith
  ultimately show ?thesis
    using a m by (simp add: simulate_bond_def Let_def del: bindr_eq_Inr checked_Inr)
qed

lemma bond_sound_reward:
  "bond_sound available b r \<Longrightarrow> 0 \<le> available \<Longrightarrow> 0 \<le> brBondRewardSats r \<and> brBondRewardSats r \<le> available"
  by (auto simp: bond_sound_def min_def)

lemma simulate_bonds_ok:
  assumes "0 \<le> available" "available \<le> gross"
    and "\<And>b. b \<in> set bs \<Longrightarrow> \<exists>s. stateOf (sbBondIndex b) = Some s \<and> pox5RewardSimulationBondSchema s \<and>
      sbTotalSharesSats s * sbTargetRateBips s \<le> UINT128_MAX \<and>
      sbCurrentRewardsPerSat s + gross * POX5_REWARD_PRECISION \<le> UINT128_MAX"
    and "gross * POX5_REWARD_PRECISION \<le> UINT128_MAX"
  shows "\<exists>rs left. simulate_bonds stateOf bs available = Inr (rs, left)"
  using assms(1-3)
proof (induction bs arbitrary: available)
  case (Cons b bs)
  obtain s where s: "stateOf (sbBondIndex b) = Some s" "pox5RewardSimulationBondSchema s"
    "sbTotalSharesSats s * sbTargetRateBips s \<le> UINT128_MAX"
    "sbCurrentRewardsPerSat s + gross * POX5_REWARD_PRECISION \<le> UINT128_MAX"
    using Cons.prems(3) [of b] by auto
  obtain r where r: "simulate_bond s available = Inr r"
    using simulate_bond_ok [OF s(2) Cons.prems(1,2) assms(4) s(3,4)] by blast
  have "0 \<le> available - brBondRewardSats r" "available - brBondRewardSats r \<le> gross"
    using bond_sound_reward [OF simulate_bond_sound [OF r s(2) Cons.prems(1)] Cons.prems(1)] Cons.prems(2)
    by linarith+
  then obtain rs left where "simulate_bonds stateOf bs (available - brBondRewardSats r) = Inr (rs, left)"
    using Cons.IH Cons.prems(3) by (metis list.set_intros(2))
  then show ?case using s(1) r by simp
qed simp

lemma manager_total_ok:
  assumes "\<And>v. m = Some v \<Longrightarrow> 0 \<le> v \<and> v + (\<Sum>x\<leftarrow>rs. case x of None \<Rightarrow> 0 | Some w \<Rightarrow> w) \<le> UINT128_MAX"
    and "0 \<le> (\<Sum>x\<leftarrow>rs. case x of None \<Rightarrow> 0 | Some w \<Rightarrow> w)"
  shows "\<exists>r. manager_total m rs = Inr r"
  using assms by (auto simp: manager_total_def Let_def foldl_plus checkedAdd_def checkedUint_def split: option.splits)

lemma bondStateByIndex_some: "b \<in> set bonds \<Longrightarrow> \<exists>s. bondStateByIndex bonds (sbBondIndex b) = Some s"
  unfolding bondStateByIndex_def
  by (cases "map_of (rev (map (\<lambda>b. (sbBondIndex b, b)) bonds)) (sbBondIndex b)")
    (auto simp: map_of_eq_None_iff rev_map image_iff)

text \<open>
  C31: the replay never fails on inputs the contract's integers can carry. If the gross rewards at the
  contract's precision, added to each running reward-per-share, fit 128 bits, and so do each bond's
  yield product and the reserve, every checked operation succeeds and the replay returns a result.
\<close>
theorem replay_never_overflows:
  assumes "pox5RewardSimulationInputSchema i" "replay_fits i"
  shows "\<exists>s. simulatePox5CalculateRewards i = Inr s"
proof -
  let ?gross = "siGrossAccruedRewardsSats i"
  let ?ordered = "sort_by (bond_le simulation_key) (siBonds i)"
  have nonneg: "0 \<le> ?gross" "0 \<le> siCycleStakedUstx i" "0 \<le> siCurrentReserveBalanceSats i" "0 \<le> siCurrentRewardsPerUstx i"
    and each: "\<And>b. b \<in> set (siBonds i) \<Longrightarrow> pox5RewardSimulationBondSchema b"
    and mine: "optional_uint (siManagerStxSharesUstx i) (siCycleStakedUstx i)"
    using assms(1) by (auto simp: pox5RewardSimulationInputSchema_def uint128_nonneg list_all_iff)
  have fits: "?gross * POX5_REWARD_PRECISION \<le> UINT128_MAX"
    "siCurrentRewardsPerUstx i + ?gross * POX5_REWARD_PRECISION \<le> UINT128_MAX"
    "siCurrentReserveBalanceSats i + ?gross \<le> UINT128_MAX"
    using assms(2) by (simp_all add: replay_fits_def)
  have "\<exists>s. bondStateByIndex (siBonds i) (sbBondIndex b) = Some s \<and> pox5RewardSimulationBondSchema s \<and>
      sbTotalSharesSats s * sbTargetRateBips s \<le> UINT128_MAX \<and>
      sbCurrentRewardsPerSat s + ?gross * POX5_REWARD_PRECISION \<le> UINT128_MAX" if "b \<in> set ?ordered" for b
    using bondStateByIndex_some [of b "siBonds i"] bondStateByIndex_in that each assms(2)
    by (fastforce simp: replay_fits_def list_all_iff)
  then obtain rs left where loop:
    "simulate_bonds (bondStateByIndex (siBonds i)) ?ordered ?gross = Inr (rs, left)"
    using simulate_bonds_ok [OF nonneg(1) order_refl _ fits(1)] by blast
  have "waterfall ?gross (replay_bonds i) rs \<and> left = ?gross - (\<Sum>r\<leftarrow>rs. brBondRewardSats r) \<and> 0 \<le> left"
    unfolding replay_bonds_def
    by (rule simulate_bonds_waterfall [OF loop nonneg(1)]) (use each bondStateByIndex_in in blast)
  then have fall: "waterfall ?gross (replay_bonds i) rs" "left = ?gross - (\<Sum>r\<leftarrow>rs. brBondRewardSats r)" "0 \<le> left"
    by simp_all
  note parts = waterfall_parts [OF fall(1) nonneg(1)]
  have sums: "0 \<le> (\<Sum>r\<leftarrow>rs. brBondRewardSats r)"
    using parts by (intro sum_list_nonneg) auto
  define c where "c = left * 1500"
  define reserved where "reserved = c div 10000"
  define stakers where "stakers = left - reserved"
  have stakers: "0 \<le> stakers" "stakers \<le> left" "0 \<le> reserved"
    using fall(3) by (auto simp: stakers_def reserved_def c_def)
  have prec: "c \<le> left * POX5_REWARD_PRECISION" "left * POX5_REWARD_PRECISION \<le> ?gross * POX5_REWARD_PRECISION"
    "stakers * POX5_REWARD_PRECISION \<le> ?gross * POX5_REWARD_PRECISION" "?gross \<le> ?gross * POX5_REWARD_PRECISION"
    using fall sums stakers nonneg(1) by (simp_all add: POX5_REWARD_PRECISION_def c_def)
  have cut: "c \<le> UINT128_MAX"
    using prec(1,2) fits(1) by linarith
  have product: "checkedMultiply left POX5_REWARD_RESERVE_RATIO_BIPS l = Inr (c)"
    "integerDivide (c) 10000 l = Inr (reserved)" for l
    using fall(3) cut by (simp_all add: POX5_REWARD_RESERVE_RATIO_BIPS_def reserved_def c_def)
  obtain a where a: "rewards_per_share stakers (siCycleStakedUstx i) ''STX rewards-per-ustx product''
       ''STX rewards-per-ustx division'' = Inr a"
    and ab: "0 \<le> a" "a \<le> stakers * POX5_REWARD_PRECISION" "a * siCycleStakedUstx i \<le> stakers * POX5_REWARD_PRECISION"
    using rewards_per_share_ok [OF stakers(1) nonneg(2) order_trans [OF prec(3) fits(1)]] by blast
  obtain m where m: "manager_part (siManagerStxSharesUstx i) a ''manager STX reward product''
       ''manager STX reward division'' = Inr m"
    using manager_part_ok [OF mine ab(1) ab(3) order_trans [OF prec(3) fits(1)]] by blast
  have mine_le: "0 \<le> v \<and> v \<le> stakers" if v: "m = Some v" for v
  proof -
    obtain n where "siManagerStxSharesUstx i = Some n" "0 \<le> n" "n \<le> siCycleStakedUstx i"
      using m v mine by (cases "siManagerStxSharesUstx i") (auto simp: optional_uint_def uint128_nonneg)
    then show ?thesis
      using manager_part_bounds [of n a _ _ m "siCycleStakedUstx i" stakers] m ab stakers(1) v by auto
  qed
  have "\<exists>mt. manager_total m (map brManagerRewardSats rs) = Inr mt"
  proof (rule manager_total_ok)
    fix v assume "m = Some v"
    then show "0 \<le> v \<and> v + (\<Sum>x\<leftarrow>map brManagerRewardSats rs. case x of None \<Rightarrow> 0 | Some w \<Rightarrow> w) \<le> UINT128_MAX"
      using mine_le [of v] parts stakers(2) fall(2) prec(4) fits(1) unfolding map_map o_def by linarith
  qed (use parts in \<open>simp add: o_def\<close>)
  then obtain mt where mt: "manager_total m (map brManagerRewardSats rs) = Inr mt"
    by blast
  have left: "reserved + stakers = left" "left \<le> ?gross"
    using fall(2) sums by (simp_all add: stakers_def)
  have add: "checkedAdd (reserved) stakers l = Inr left"
    "checkedAdd (siCurrentReserveBalanceSats i) left l = Inr (siCurrentReserveBalanceSats i + left)"
    "checkedAdd (siCurrentReserveBalanceSats i) (reserved) l =
       Inr (siCurrentReserveBalanceSats i + reserved)"
    "checkedAdd (siCurrentRewardsPerUstx i) a l = Inr (siCurrentRewardsPerUstx i + a)" for l
    unfolding checkedAdd_Inr using left fall(3) stakers ab(1,2) prec(3,4) fits nonneg(3,4) by linarith+
  show ?thesis
    using loop a m mt assms(1) product
    by (simp add: simulatePox5CalculateRewards_def Let_def stakers_def [symmetric] add
        if_distrib [of "\<lambda>x. bindr x _"] del: bindr_eq_Inr checked_Inr)
qed

theorem replay_never_overflows_witness: "\<exists>s. simulatePox5CalculateRewards (demo_simulation_input 2000000) = Inr s"
proof (rule replay_never_overflows [OF demo_simulation_schema])
  show "replay_fits (demo_simulation_input 2000000)"
    by code_simp
qed

end
