(* ===== verification/Calculation_Read.thy ===== *)
theory Calculation_Read
  imports Chain_Anchor Reward_Simulation
begin

text \<open>
  Reading the inputs of a reward calculation at one node anchor
  (apps/sidekick/src/pox5-calculate-rewards.ts) and checking its receipt
  (apps/sidekick/src/calculation-receipt.ts).

  A read-only contract call answers a Clarity value of some type \<open>'v\<close> or throws; the decoders of
  packages/protocol/src/clarity-codecs.ts are the fields of \<open>clarity_codec\<close>. Call arguments are the
  structured values whose hexadecimal encoding the code sends. Where several reads are awaited together
  the first failing one in the order of the source is reported.
\<close>

subsection \<open>The node\<close>

record 'v read_node =
  callReadOnly :: "principal \<Rightarrow> string \<Rightarrow> principal \<Rightarrow> clarity_arg list \<Rightarrow> string \<Rightarrow> engine_error + 'v"
  getMapEntry :: "principal \<Rightarrow> string \<Rightarrow> (string \<times> clarity_arg) list \<Rightarrow> string \<Rightarrow> engine_error + 'v"

record protocol_bond =
  pbTargetRate :: int
  pbStxValueRatio :: int
  pbMinUstxRatio :: int

record 'v clarity_codec =
  decodeUInt :: "'v \<Rightarrow> engine_error + int"
  decodeBoolean :: "'v \<Rightarrow> engine_error + bool"
  decodeOptionalUInt :: "'v \<Rightarrow> engine_error + int option"
  decodeOptionalPrincipal :: "'v \<Rightarrow> engine_error + principal option"
  decodePox5ProtocolBond :: "'v \<Rightarrow> engine_error + protocol_bond option"
  decodeEarnedStakerRewards :: "'v \<Rightarrow> engine_error + int \<times> int"
  decodePoxAddressPreference :: "'v \<Rightarrow> engine_error + int option"

text \<open>\<open>decodeEarnedStakerRewards\<close> yields the earned and the fee sats, \<open>decodePoxAddressPreference\<close> the
  maximum fee of a Bitcoin payout preference.\<close>

definition optional_uint_arg :: "int option \<Rightarrow> clarity_arg" where
  "optional_uint_arg n = (case n of None \<Rightarrow> ANone | Some i \<Rightarrow> ASome (AUint i))"

subsection \<open>The active bonds\<close>

definition read_candidate_bond ::
    "'v read_node \<Rightarrow> 'v clarity_codec \<Rightarrow> principal \<Rightarrow> principal \<Rightarrow> int \<Rightarrow> string \<Rightarrow> int
     \<Rightarrow> engine_error + calculation_bond option" where
  "read_candidate_bond N D pox5 sender burnHeight tip bondIndex =
     bindr (callReadOnly N pox5 ''get-protocol-bond'' sender [AUint bondIndex] tip) (\<lambda>bondValue.
     bindr (callReadOnly N pox5 ''is-bond-active-at-height'' sender [AUint bondIndex, AUint burnHeight] tip)
       (\<lambda>activeValue.
     bindr (decodePox5ProtocolBond D bondValue) (\<lambda>bond.
     bindr (decodeBoolean D activeValue) (\<lambda>active.
     case bond of
       None \<Rightarrow>
         if active
         then Inl (Pox5CalculateRewardsError IncompleteBondState (''PoX-5 reported bond period '' @
                int_text bondIndex @ '' active without returning its definition''))
         else Inr None
     | Some b \<Rightarrow>
         if \<not> active then Inr None
         else Inr (Some \<lparr>cbBondIndex = bondIndex, cbTargetRateBips = pbTargetRate b,
                cbStxValueRatio = pbStxValueRatio b, cbMinUstxRatioBips = pbMinUstxRatio b\<rparr>)))))"

definition readActiveCalculationBonds ::
    "'v read_node \<Rightarrow> 'v clarity_codec \<Rightarrow> principal \<Rightarrow> principal \<Rightarrow> int \<Rightarrow> int \<Rightarrow> int \<Rightarrow> string
     \<Rightarrow> engine_error + calculation_bond list" where
  "readActiveCalculationBonds N D pox5 sender rewardCycle burnHeight firstBondPeriodCycle tip =
     bindr (bondPeriodsForRewardCycle rewardCycle firstBondPeriodCycle) (\<lambda>periods.
     bindr (mapr (read_candidate_bond N D pox5 sender burnHeight tip) periods) (\<lambda>candidates.
     orderPox5CalculationBonds (List.map_filter id candidates)))"

subsection \<open>The calculation observed at an anchor\<close>

record calculation_observation =
  coTargetRewardCycle :: int
  coTargetCheckpoint :: checkpoint
  coExpectedHeight :: int
  coObservedHeight :: int
  coGrossAccruedRewardsSats :: int
  coActiveBonds :: "calculation_bond list"
  coFunctionArgs :: "clarity_arg list"

fun target_reason_text :: "target_reason \<Rightarrow> string" where
  "target_reason_text OddRewardCycleLength = ''odd-reward-cycle-length''"
| "target_reason_text NoPreviousRewardCycle = ''no-previous-reward-cycle''"
| "target_reason_text InvalidCycleStart = ''invalid-cycle-start''"
| "target_reason_text BeforeFirstRewardCycle = ''before-first-reward-cycle''"

definition encodePox5CalculateRewardsArguments :: "calculation_bond list \<Rightarrow> engine_error + clarity_arg list" where
  "encodePox5CalculateRewardsArguments bonds =
     bindr (orderPox5CalculationBonds bonds) (\<lambda>ordered. Inr [AList (map (\<lambda>b. AUint (cbBondIndex b)) ordered)])"

definition readPox5CalculateRewardsObservation ::
    "'v read_node \<Rightarrow> 'v clarity_codec \<Rightarrow> principal \<Rightarrow> principal \<Rightarrow> chain_anchor \<Rightarrow> int option
     \<Rightarrow> engine_error + calculation_observation" where
  "readPox5CalculateRewardsObservation N D pox5 sender anchor firstRewardCycleId =
     (case deriveRewardCalculationTarget anchor firstRewardCycleId of
        Inl reason \<Rightarrow> Inl (Pox5CalculateRewardsError InvalidTarget
          (''The current chain anchor has no valid PoX-5 reward-calculation target ('' @
           target_reason_text reason @ '')''))
      | Inr target \<Rightarrow>
          let tip = anIndexBlockHash anchor in
          bindr (callReadOnly N pox5 ''get-last-reward-compute-height'' sender [] tip) (\<lambda>lastComputeValue.
          bindr (callReadOnly N pox5 ''get-new-rewards'' sender [] tip) (\<lambda>accruedValue.
          bindr (callReadOnly N pox5 ''bond-period-to-reward-cycle'' sender [AUint 0] tip) (\<lambda>firstBondCycleValue.
          bindr (decodeUInt D lastComputeValue) (\<lambda>observed.
          if observed \<ge> ctHeight target
          then Inl (Pox5CalculateRewardsError AlreadyComputed
                 (''PoX-5 reward calculation already reached Bitcoin block '' @ int_text observed))
          else
            bindr (decodeUInt D firstBondCycleValue) (\<lambda>firstBondPeriodCycle.
            bindr (readActiveCalculationBonds N D pox5 sender (ctRewardCycle target) (ctHeight target)
                     firstBondPeriodCycle tip) (\<lambda>activeBonds.
            bindr (decodeUInt D accruedValue) (\<lambda>gross.
            bindr (encodePox5CalculateRewardsArguments activeBonds) (\<lambda>functionArgs.
            Inr \<lparr>coTargetRewardCycle = ctRewardCycle target, coTargetCheckpoint = ctCheckpoint target,
              coExpectedHeight = ctHeight target, coObservedHeight = observed,
              coGrossAccruedRewardsSats = gross, coActiveBonds = activeBonds,
              coFunctionArgs = functionArgs\<rparr>)))))))))"

subsection \<open>The pool estimate\<close>

record pool_estimate =
  peTargetRewardCycle :: int
  peTargetCheckpoint :: checkpoint
  peCalculationBurnHeight :: int
  peGrossSats :: int
  peStxSats :: int
  peBondSats :: int
  peGlobalStxShares :: int
  peManagerStxShares :: int
  peActiveBonds :: "(int \<times> int \<times> int \<times> int) list"

definition simulateManagerPoolEstimate ::
    "simulation_input \<Rightarrow> int \<Rightarrow> int \<Rightarrow> checkpoint \<Rightarrow> int \<Rightarrow> engine_error + pool_estimate" where
  "simulateManagerPoolEstimate input gross targetRewardCycle targetCheckpoint calculationBurnHeight =
     bindr (simulatePox5CalculateRewards (input\<lparr>siGrossAccruedRewardsSats := gross\<rparr>)) (\<lambda>simulation.
     case smManager simulation of
       None \<Rightarrow> Inl (OtherError ''manager shares are incomplete at the selected anchor'')
     | Some manager \<Rightarrow>
         (case siManagerStxSharesUstx input of
            None \<Rightarrow> Inl (OtherError ''manager STX shares are missing at the selected anchor'')
          | Some shares \<Rightarrow>
              bindr (mapr (\<lambda>bond. case sbManagerSharesSats bond of
                  None \<Rightarrow> Inl (OtherError (''manager shares are missing for bond '' @ int_text (sbBondIndex bond)))
                | Some mine \<Rightarrow> Inr (sbBondIndex bond, sbTargetRateBips bond, sbTotalSharesSats bond, mine))
                (siBonds input)) (\<lambda>bonds.
              Inr \<lparr>peTargetRewardCycle = targetRewardCycle, peTargetCheckpoint = targetCheckpoint,
                peCalculationBurnHeight = calculationBurnHeight, peGrossSats = mrGrossRewardSats manager,
                peStxSats = mrStxRewardSats manager, peBondSats = mrBondRewardSats manager,
                peGlobalStxShares = smCycleStakedUstx simulation, peManagerStxShares = shares,
                peActiveBonds = bonds\<rparr>)))"

definition read_simulation_bond ::
    "'v read_node \<Rightarrow> 'v clarity_codec \<Rightarrow> principal \<Rightarrow> principal \<Rightarrow> int \<Rightarrow> string \<Rightarrow> calculation_bond
     \<Rightarrow> engine_error + simulation_bond" where
  "read_simulation_bond N D pox5 manager cyc tip bond =
     (let cycleArg = AUint cyc; bondArg = optional_uint_arg (Some (cbBondIndex bond)) in
      bindr (callReadOnly N pox5 ''get-total-shares-staked-for-cycle'' manager [cycleArg, bondArg] tip) (\<lambda>totalShares.
      bindr (callReadOnly N pox5 ''get-rewards-per-token-for-cycle'' manager [cycleArg, bondArg] tip) (\<lambda>currentRpt.
      bindr (callReadOnly N pox5 ''get-signer-shares-staked-for-cycle'' manager
               [APrincipal manager, cycleArg, bondArg] tip) (\<lambda>managerShares.
      bindr (decodeUInt D totalShares) (\<lambda>totalSharesSats.
      bindr (decodeUInt D currentRpt) (\<lambda>currentRewardsPerSat.
      bindr (decodeUInt D managerShares) (\<lambda>managerSharesSats.
      Inr \<lparr>sbBondIndex = cbBondIndex bond, sbTargetRateBips = cbTargetRateBips bond,
        sbStxValueRatio = cbStxValueRatio bond, sbTotalSharesSats = totalSharesSats,
        sbCurrentRewardsPerSat = currentRewardsPerSat, sbManagerSharesSats = Some managerSharesSats\<rparr>)))))))"

definition readPox5PoolSimulationSnapshot ::
    "'v read_node \<Rightarrow> 'v clarity_codec \<Rightarrow> principal \<Rightarrow> principal \<Rightarrow> chain_anchor \<Rightarrow> int \<Rightarrow> checkpoint \<Rightarrow> int \<Rightarrow> int
     \<Rightarrow> engine_error + pool_estimate \<times> simulation_input" where
  "readPox5PoolSimulationSnapshot N D pox5 manager anchor targetRewardCycle targetCheckpoint
       calculationBurnHeight gross =
     (let tip = anIndexBlockHash anchor; cycleArg = AUint targetRewardCycle; stxBucket = ANone;
          read = (\<lambda>f args. callReadOnly N pox5 f manager args tip) in
      bindr (read ''bond-period-to-reward-cycle'' [AUint 0]) (\<lambda>firstBondCycleValue.
      bindr (read ''get-reserve-balance'' []) (\<lambda>reserveValue.
      bindr (read ''get-total-shares-staked-for-cycle'' [cycleArg, stxBucket]) (\<lambda>totalStxValue.
      bindr (read ''get-rewards-per-token-for-cycle'' [cycleArg, stxBucket]) (\<lambda>currentStxRptValue.
      bindr (read ''get-signer-shares-staked-for-cycle'' [APrincipal manager, cycleArg, stxBucket])
        (\<lambda>managerStxValue.
      bindr (decodeUInt D firstBondCycleValue) (\<lambda>firstBondPeriodCycle.
      bindr (readActiveCalculationBonds N D pox5 manager targetRewardCycle calculationBurnHeight
               firstBondPeriodCycle tip) (\<lambda>activeBonds.
      bindr (mapr (read_simulation_bond N D pox5 manager targetRewardCycle tip) activeBonds) (\<lambda>simulationBonds.
      bindr (decodeUInt D reserveValue) (\<lambda>reserve.
      bindr (decodeUInt D totalStxValue) (\<lambda>totalStx.
      bindr (decodeUInt D currentStxRptValue) (\<lambda>currentRpt.
      bindr (decodeUInt D managerStxValue) (\<lambda>managerStx.
      let input = \<lparr>siGrossAccruedRewardsSats = gross, siCurrentReserveBalanceSats = reserve,
            siCycleStakedUstx = totalStx, siCurrentRewardsPerUstx = currentRpt,
            siManagerStxSharesUstx = Some managerStx, siBonds = simulationBonds\<rparr> in
      bindr (simulateManagerPoolEstimate input gross targetRewardCycle targetCheckpoint calculationBurnHeight)
        (\<lambda>currentEstimate. Inr (currentEstimate, input)))))))))))))))"

definition simulatePox5PoolEstimateAtGross ::
    "pool_estimate \<times> simulation_input \<Rightarrow> int \<Rightarrow> engine_error + pool_estimate" where
  "simulatePox5PoolEstimateAtGross snapshot gross =
     (let (current, input) = snapshot in
      simulateManagerPoolEstimate input gross (peTargetRewardCycle current) (peTargetCheckpoint current)
        (peCalculationBurnHeight current))"

subsection \<open>The receipt of a calculation\<close>

text \<open>The digits of the first \<open>(label uN)\<close> in a text.\<close>

fun find_uint :: "string \<Rightarrow> string \<Rightarrow> string option" where
  "find_uint label [] = None"
| "find_uint label (c # cs) =
     (let opening = ''('' @ label @ '' u''; s = c # cs in
      if starts_with opening s
      then let rest = drop (length opening) s; digits = takeWhile is_digit rest;
               after = dropWhile is_digit rest in
           if digits \<noteq> [] \<and> starts_with '')'' after then Some digits else find_uint label cs
      else find_uint label cs)"

definition ends_with :: "string \<Rightarrow> string \<Rightarrow> bool" where
  "ends_with p s \<longleftrightarrow> starts_with (rev p) (rev s)"

text \<open>The tuple of an \<open>(ok (tuple ...))\<close> text.\<close>

definition ok_tuple :: "string \<Rightarrow> string option" where
  "ok_tuple s =
     (if starts_with ''(ok (tuple '' s \<and> ends_with ''))'' (drop (length ''(ok (tuple '') s)
      then Some (butlast (drop (length ''(ok '') s)) else None)"

definition calculationResultMatchesTarget :: "string \<Rightarrow> string \<Rightarrow> int \<Rightarrow> bool" where
  "calculationResultMatchesTarget resultRepr targetRewardCycle expectedHeight =
     (case ok_tuple (trim resultRepr) of
        None \<Rightarrow> False
      | Some result \<Rightarrow>
          find_uint ''stx-cycle'' result = Some targetRewardCycle \<and>
          find_uint ''calculation-height'' result = Some (int_text expectedHeight))"

lemma calculation_receipt_example:
  "calculationResultMatchesTarget ''(ok (tuple (calculation-height u1199) (stx-cycle u5)))'' ''5'' 1199"
  "\<not> calculationResultMatchesTarget ''(ok (tuple (calculation-height u1199) (stx-cycle u5)))'' ''5'' 1099"
  "\<not> calculationResultMatchesTarget ''(err u7)'' ''5'' 1199"
  by code_simp+

end
