(* ===== verification/Claim_Discovery.thy ===== *)
theory Claim_Discovery
  imports Calculation_Read
begin

text \<open>
  The staker claims of a cycle: what the manager owes a staker in each bucket and why a claim is
  blocked (\<open>readStakerReward\<close>, \<open>discoverStakerClaims\<close>), the manager's own buckets
  (\<open>readRewardBucket\<close>, \<open>readBondBuckets\<close>) and the state of the cycle's calculation
  (\<open>rewardCalculationStatus\<close>) in apps/sidekick/src/reward-status.ts, and the page of claims the
  operator service makes of them (\<open>stakerClaims\<close> in apps/sidekick/src/operator-service.ts).

  Reads are those pinned to an anchor: \<open>tip\<close> is its block hash. Of a Bitcoin payout preference only
  the maximum fee is kept, as everywhere in this model. Stakers are read in batches of eight; a batch
  only bounds the concurrency, so the model reads them one after the other.
\<close>

subsection \<open>One staker\<close>

definition sbtcWithdrawalDustLimit :: int where "sbtcWithdrawalDustLimit = 546"

definition maxStakerClaimPage :: nat where "maxStakerClaimPage = 100"

datatype blocked_reason = NothingSettled | ManagerHasNotClaimed | L1BelowMaxFee | L1BelowDustLimit

record staker_claim =
  clBondIndex :: "int option"
  clEarned :: int
  clFee :: int
  clGross :: int
  clClaimable :: bool
  clBlocked :: "blocked_reason option"

record staker_status =
  ssStaker :: principal
  ssRewardCycle :: int
  ssPayoutRoute :: payout_route
  ssMaxFee :: "int option"
  ssEarned :: int
  ssFees :: int
  ssGross :: int
  ssClaimableByPolicy :: bool
  ssClaims :: "staker_claim list"

definition bucketKey :: "int option \<Rightarrow> string" where
  "bucketKey bondIndex = (case bondIndex of None \<Rightarrow> ''stx'' | Some b \<Rightarrow> int_text b)"

definition blockedReason ::
    "int option \<Rightarrow> bool \<Rightarrow> int \<Rightarrow> int \<Rightarrow> int \<Rightarrow> blocked_reason option" where
  "blockedReason payout claimed managerUnclaimedSats earned gross =
     (if earned = 0 then Some NothingSettled
      else if \<not> claimed then Some ManagerHasNotClaimed
      else if managerUnclaimedSats < gross then Some ManagerHasNotClaimed
      else (case payout of
          None \<Rightarrow> None
        | Some maxFee \<Rightarrow>
            if earned < maxFee then Some L1BelowMaxFee
            else if earned - maxFee \<le> sbtcWithdrawalDustLimit then Some L1BelowDustLimit
            else None))"

definition read_claim ::
    "'v clarity_codec \<Rightarrow> int option \<Rightarrow> string list \<Rightarrow> int \<Rightarrow> int option \<times> 'v \<Rightarrow> engine_error + staker_claim" where
  "read_claim D payout claimedBuckets managerUnclaimedSats = (\<lambda>(bondIndex, v).
     bindr (decodeEarnedStakerRewards D v) (\<lambda>(earned, fees).
     let gross = earned + fees;
         blocked = blockedReason payout (bucketKey bondIndex \<in> set claimedBuckets)
           managerUnclaimedSats earned gross in
     Inr \<lparr>clBondIndex = bondIndex, clEarned = earned, clFee = fees, clGross = gross,
       clClaimable = (blocked = None), clBlocked = blocked\<rparr>))"

definition readStakerReward ::
    "'v read_node \<Rightarrow> 'v clarity_codec \<Rightarrow> principal \<Rightarrow> principal \<Rightarrow> int \<Rightarrow> int option list
     \<Rightarrow> string list \<Rightarrow> int \<Rightarrow> string \<Rightarrow> engine_error + staker_status" where
  "readStakerReward N D manager staker rewardCycle bondIndices claimedBuckets managerUnclaimedSats tip =
     bindr (callReadOnly N manager ''get-pox-addr'' manager [APrincipal staker] tip) (\<lambda>payoutValue.
     bindr (mapr (\<lambda>bondIndex. callReadOnly N manager ''get-earned-staker-rewards'' manager
         [APrincipal staker, AUint rewardCycle, optional_uint_arg bondIndex] tip) bondIndices) (\<lambda>rewardValues.
     bindr (decodePoxAddressPreference D payoutValue) (\<lambda>payout.
     bindr (mapr (read_claim D payout claimedBuckets managerUnclaimedSats) (zip bondIndices rewardValues)) (\<lambda>claims.
     let earned = sum_list (map clEarned claims); fees = sum_list (map clFee claims) in
     Inr \<lparr>ssStaker = staker, ssRewardCycle = rewardCycle,
       ssPayoutRoute = (if payout \<noteq> None then BitcoinL1 else DirectSbtc), ssMaxFee = payout,
       ssEarned = earned, ssFees = fees, ssGross = earned + fees,
       ssClaimableByPolicy = list_ex clClaimable claims, ssClaims = claims\<rparr>))))"

subsection \<open>A page of stakers\<close>

record settlement_summary =
  suStakersScanned :: nat
  suOutstandingClaims :: nat
  suTransactionCount :: nat
  suTotalNetSats :: int
  suBlockedClaims :: nat

record claim_discovery =
  cdRewardCycle :: int
  cdStakers :: "staker_status list"
  cdSettlement :: settlement_summary

definition settlement_of :: "staker_status list \<Rightarrow> settlement_summary" where
  "settlement_of stakers =
     (let claims = concat (map ssClaims stakers); outstanding = filter clClaimable claims in
      \<lparr>suStakersScanned = length stakers, suOutstandingClaims = length outstanding,
       suTransactionCount = length outstanding, suTotalNetSats = sum_list (map clEarned outstanding),
       suBlockedClaims = length (filter (\<lambda>c. clBlocked c \<noteq> None \<and> clBlocked c \<noteq> Some NothingSettled) claims)\<rparr>)"

definition read_claimed_buckets ::
    "'v read_node \<Rightarrow> 'v clarity_codec \<Rightarrow> principal \<Rightarrow> int \<Rightarrow> int option list \<Rightarrow> string
     \<Rightarrow> engine_error + int \<times> string list" where
  "read_claimed_buckets N D manager rewardCycle bondIndices tip =
     bindr (callReadOnly N manager ''get-unclaimed-staker-rewards'' manager [] tip) (\<lambda>unclaimedValue.
     bindr (mapr (\<lambda>bondIndex. getMapEntry N manager ''fee-bips-for-cycle''
         [(''reward-cycle'', AUint rewardCycle), (''bond-index'', optional_uint_arg bondIndex)] tip) bondIndices)
       (\<lambda>feeSnapshotValues.
     bindr (decodeUInt D unclaimedValue) (\<lambda>managerUnclaimedSats.
     bindr (mapr (decodeOptionalUInt D) feeSnapshotValues) (\<lambda>snapshots.
     Inr (managerUnclaimedSats, map (\<lambda>(b, _). bucketKey b)
       (filter (\<lambda>(_, bips). bips \<noteq> None) (zip bondIndices snapshots)))))))"

definition discoverStakerClaims ::
    "'v read_node \<Rightarrow> 'v clarity_codec \<Rightarrow> principal \<Rightarrow> int \<Rightarrow> principal list \<Rightarrow> int list \<Rightarrow> string
     \<Rightarrow> engine_error + claim_discovery" where
  "discoverStakerClaims N D manager rewardCycle stakerPrincipals bonds tip =
     bindr (guardr (isSafe rewardCycle \<and> \<not> rewardCycle < 0)
       (OtherError ''rewardCycle must be a non-negative safe integer'')) (\<lambda>_.
     bindr (guardr (\<not> length stakerPrincipals > maxStakerClaimPage)
       (OtherError ''Staker claim discovery accepts at most 100 stakers per page; page the roster instead'')) (\<lambda>_.
     bindr (guardr (distinct (map int_text bonds)) (OtherError ''Bond indices must be unique'')) (\<lambda>_.
     let bondIndices = None # map Some bonds in
     bindr (read_claimed_buckets N D manager rewardCycle bondIndices tip)
       (\<lambda>(managerUnclaimedSats, claimedBuckets).
     bindr (mapr (\<lambda>staker. readStakerReward N D manager staker rewardCycle bondIndices claimedBuckets
         managerUnclaimedSats tip) stakerPrincipals) (\<lambda>stakers.
     Inr \<lparr>cdRewardCycle = rewardCycle, cdStakers = stakers, cdSettlement = settlement_of stakers\<rparr>)))))"

subsection \<open>The page the operator service serves\<close>

record roster_row =
  rrStaker :: principal
  rrLastSeenRun :: string
  rrBond :: bool
  rrPosition :: bool
  rrStxNodeVerified :: "bool option"

record reward_buckets =
  rbRewardCycle :: int
  rbBuckets :: "(int option \<times> bool) list"

record claim_candidate =
  caStaker :: principal
  caBondIndex :: "int option"
  caRoute :: payout_route
  caMaxFee :: "int option"
  caEarned :: int
  caFee :: int
  caGross :: int
  caClaimable :: bool
  caBlocked :: "blocked_reason option"

record claims_page =
  cpRewardCycle :: int
  cpStakers :: "principal list"
  cpOffset :: nat
  cpLimit :: nat
  cpStakersTotal :: nat
  cpNextCursor :: "nat option"
  cpSettlement :: settlement_summary
  cpCandidates :: "claim_candidate list"

text \<open>The roster that a reconciled staker run vouches for, and the candidates of one staker.\<close>

definition reconciled_roster :: "string \<Rightarrow> roster_row list \<Rightarrow> principal list" where
  "reconciled_roster runId rows = map rrStaker (filter (\<lambda>r. rrLastSeenRun r = runId \<and>
     (rrBond r \<or> rrPosition r \<or> rrStxNodeVerified r = Some True)) rows)"

definition staker_candidates :: "staker_status \<Rightarrow> claim_candidate list" where
  "staker_candidates s = map (\<lambda>c. \<lparr>caStaker = ssStaker s, caBondIndex = clBondIndex c,
     caRoute = ssPayoutRoute s, caMaxFee = ssMaxFee s, caEarned = clEarned c, caFee = clFee c,
     caGross = clGross c, caClaimable = clClaimable c, caBlocked = clBlocked c\<rparr>) (ssClaims s)"

text \<open>
  \<open>rewards\<close> is the reward status of the operator snapshot, \<open>completedRun\<close> the latest completed staker
  run with whether it reconciled, and \<open>rows\<close> the active rows of the staker roster.
\<close>

definition stakerClaims ::
    "'v read_node \<Rightarrow> 'v clarity_codec \<Rightarrow> principal \<Rightarrow> engine_error + reward_buckets option
     \<Rightarrow> (string \<times> bool) option \<Rightarrow> roster_row list
     \<Rightarrow> nat option \<Rightarrow> nat option \<Rightarrow> int option \<Rightarrow> int list option \<Rightarrow> string \<Rightarrow> engine_error + claims_page" where
  "stakerClaims N D manager snapshot completedRun rows optOffset optLimit optCycle optBonds tip =
     bindr snapshot (\<lambda>rewards.
     bindr (guardr (\<not> (rewards = None \<and> optCycle = None)) (OtherError ''Reward status is unavailable'')) (\<lambda>_.
     let offset = (case optOffset of None \<Rightarrow> 0 | Some n \<Rightarrow> n);
         limit = min (case optLimit of None \<Rightarrow> 25 | Some n \<Rightarrow> n) 100 in
     case completedRun of
       Some (runId, True) \<Rightarrow>
         let principals = reconciled_roster runId rows;
             page = take limit (drop offset principals);
             bonds = (case optBonds of Some bs \<Rightarrow> bs
               | None \<Rightarrow> List.map_filter (\<lambda>(b, participating). if participating then b else None)
                   (case rewards of None \<Rightarrow> [] | Some r \<Rightarrow> rbBuckets r)) in
         bindr (discoverStakerClaims N D manager
             (case (optCycle, rewards) of (Some c, _) \<Rightarrow> c | (None, Some r) \<Rightarrow> rbRewardCycle r | _ \<Rightarrow> 0)
             page bonds tip) (\<lambda>discovery.
         Inr \<lparr>cpRewardCycle = cdRewardCycle discovery, cpStakers = page, cpOffset = offset, cpLimit = limit,
           cpStakersTotal = length principals,
           cpNextCursor = (if offset + limit < length principals then Some (offset + limit) else None),
           cpSettlement = cdSettlement discovery,
           cpCandidates = concat (map staker_candidates (cdStakers discovery))\<rparr>)
     | _ \<Rightarrow> Inl (OtherError ''Signer-staker reconciliation must complete before settling staker rewards'')))"

subsection \<open>The manager's own buckets\<close>

record reward_bucket =
  buBondIndex :: "int option"
  buManagerShares :: int
  buSignerEarned :: int
  buRewardsPerToken :: int
  buFeeSnapshotBips :: "int option"
  buParticipating :: bool

definition readRewardBucket ::
    "'v read_node \<Rightarrow> 'v clarity_codec \<Rightarrow> principal \<Rightarrow> principal \<Rightarrow> int \<Rightarrow> string \<Rightarrow> int option
     \<Rightarrow> engine_error + reward_bucket" where
  "readRewardBucket N D manager pox5 rewardCycle tip bondIndex =
     (let cycleArgs = [AUint rewardCycle, optional_uint_arg bondIndex];
          signerCycleArgs = APrincipal manager # cycleArgs in
      bindr (callReadOnly N pox5 ''get-signer-shares-staked-for-cycle'' manager signerCycleArgs tip) (\<lambda>sharesValue.
      bindr (callReadOnly N pox5 ''get-earned'' manager signerCycleArgs tip) (\<lambda>earnedValue.
      bindr (callReadOnly N pox5 ''get-rewards-per-token-for-cycle'' manager cycleArgs tip) (\<lambda>rptValue.
      bindr (getMapEntry N manager ''fee-bips-for-cycle''
        [(''reward-cycle'', AUint rewardCycle), (''bond-index'', optional_uint_arg bondIndex)] tip) (\<lambda>feeValue.
      bindr (decodeUInt D sharesValue) (\<lambda>managerShares.
      bindr (decodeUInt D earnedValue) (\<lambda>earned.
      bindr (decodeUInt D rptValue) (\<lambda>rewardsPerToken.
      bindr (decodeOptionalUInt D feeValue) (\<lambda>feeBips.
      Inr \<lparr>buBondIndex = bondIndex, buManagerShares = managerShares, buSignerEarned = earned,
        buRewardsPerToken = rewardsPerToken, buFeeSnapshotBips = feeBips,
        buParticipating = (managerShares > 0 \<or> earned > 0)\<rparr>)))))))))"

definition readBondBuckets ::
    "'v read_node \<Rightarrow> 'v clarity_codec \<Rightarrow> principal \<Rightarrow> principal \<Rightarrow> int \<Rightarrow> string
     \<Rightarrow> engine_error + reward_bucket list" where
  "readBondBuckets N D manager pox5 rewardCycle tip =
     bindr (callReadOnly N pox5 ''bond-period-to-reward-cycle'' manager [AUint 0] tip) (\<lambda>first.
     bindr (decodeUInt D first) (\<lambda>firstBondPeriodCycle.
     bindr (bondPeriodsForRewardCycle rewardCycle firstBondPeriodCycle) (\<lambda>bondPeriods.
     mapr (\<lambda>b. readRewardBucket N D manager pox5 rewardCycle tip (Some b)) bondPeriods)))"

subsection \<open>The state of the calculation\<close>

datatype calculation_state = CalcPending | CalcCompleted | CalcAhead | CalcUnknown

record next_calculation =
  ncDue :: bool
  ncRewardCycle :: int
  ncCheckpoint :: checkpoint
  ncCalculationHeight :: int
  ncEligibleHeight :: int
  ncBlocksRemaining :: int

record calculation_status =
  csObservedHeight :: int
  csState :: calculation_state
  csTarget :: "(int \<times> checkpoint \<times> int) option"
  csNext :: "next_calculation option"

definition next_calculation_at :: "chain_anchor \<Rightarrow> int \<Rightarrow> checkpoint \<Rightarrow> int \<Rightarrow> next_calculation" where
  "next_calculation_at anchor rewardCycle chk calculationBurnHeight =
     (let eligible = calculationBurnHeight + 1; remaining = max 0 (eligible - anBurnBlockHeight anchor) in
      \<lparr>ncDue = (remaining = 0), ncRewardCycle = rewardCycle, ncCheckpoint = chk,
       ncCalculationHeight = calculationBurnHeight, ncEligibleHeight = eligible, ncBlocksRemaining = remaining\<rparr>)"

text \<open>Half a cycle is a JavaScript division; \<open>deriveRewardCalculationTarget\<close> has refused odd lengths.\<close>

definition rewardCalculationStatus :: "int \<Rightarrow> chain_anchor option \<Rightarrow> int option \<Rightarrow> calculation_status" where
  "rewardCalculationStatus observedHeight chainAnchor firstRewardCycleId =
     (case chainAnchor of
        None \<Rightarrow> \<lparr>csObservedHeight = observedHeight, csState = CalcUnknown, csTarget = None, csNext = None\<rparr>
      | Some anchor \<Rightarrow>
          (case deriveRewardCalculationTarget anchor firstRewardCycleId of
             Inl _ \<Rightarrow> \<lparr>csObservedHeight = observedHeight, csState = CalcUnknown, csTarget = None, csNext = None\<rparr>
           | Inr target \<Rightarrow>
               let expected = ctHeight target;
                   state = (if observedHeight = expected then CalcCompleted
                            else if observedHeight < expected then CalcPending else CalcAhead);
                   next = (if state = CalcPending
                     then Some (next_calculation_at anchor (ctRewardCycle target) (ctCheckpoint target) expected)
                     else if state = CalcCompleted
                     then (let cycleStart = anBurnBlockHeight anchor - anCyclePosition anchor;
                               firstHalf = anCheckpoint anchor = FirstHalf in
                           Some (next_calculation_at anchor (anRewardCycle anchor)
                             (if firstHalf then FirstHalf else SecondHalf)
                             (if firstHalf then cycleStart + anRewardCycleLength anchor div 2 - 1
                              else cycleStart + anRewardCycleLength anchor - 1)))
                     else None) in
               \<lparr>csObservedHeight = observedHeight, csState = state,
                csTarget = Some (ctRewardCycle target, ctCheckpoint target, expected), csNext = next\<rparr>))"

end
