(* ===== verification/Reward_Driver.thy ===== *)
theory Reward_Driver
  imports Calculation_Read Transaction_Outcome Fee_Policy
begin

text \<open>
  The live driver of a reward run (apps/sidekick/src/transaction-engine/live-reward-run.ts): what one
  child of a run is turned into at the current anchor (\<open>materialize\<close>), and what became of its submitted
  transaction (\<open>reconcile\<close>).

  Everything read while a call runs is a field of \<open>driver_env\<close>. The fee policy is read twice, before the
  draft and after the estimate, so it is two fields. \<open>lookupIndexedTransaction\<close> and the API are
  arguments of \<open>reconcile\<close>; \<open>estimateUnsignedTransactionFee\<close> is \<open>None\<close> when it throws.
\<close>

subsection \<open>The environment\<close>

datatype account_read =
    AccountSeen int int
  | AccountUnavailable "nat option" string
  | AccountSchemaInvalid

datatype registry_status = RegistryAccepted | RegistryRejected | RegistryOther string

record 'v driver_env =
  deContext :: "engine_error + unit"
  deBlocks :: node_reads
  deAnchor :: "nat \<Rightarrow> node_attempt"
  deNode :: "'v read_node"
  deCodec :: "'v clarity_codec"
  deWallet :: "plan_sender option"
  deAccount :: "principal \<Rightarrow> string \<Rightarrow> engine_error + account_read"
  deEstimate :: "string \<Rightarrow> fee_observation option"
  dePolicyDraft :: fee_policy
  dePolicy :: fee_policy
  deFirstRewardCycle :: "engine_error + int option"
  deWithdrawalStatus :: "principal \<Rightarrow> nat \<Rightarrow> string \<Rightarrow> engine_error + registry_status"

text \<open>A materialization either stops with a result of its own or goes on with a value.\<close>

type_synonym 'a verdict = "engine_error + (materialization + 'a)"

definition stops :: "materialization \<Rightarrow> 'a verdict" where
  "stops m = Inr (Inl m)"

definition goes_on :: "'a \<Rightarrow> 'a verdict" where
  "goes_on x = Inr (Inr x)"

definition another_caller :: "string \<Rightarrow> materialization" where
  "another_caller reason = MatSkip reason AnotherCaller"

fun checkpointDistribution :: "checkpoint \<Rightarrow> distribution" where
  "checkpointDistribution FirstHalf = Dist1"
| "checkpointDistribution SecondHalf = Dist2"

definition SBTC_WITHDRAWAL_DUST_LIMIT :: int where "SBTC_WITHDRAWAL_DUST_LIMIT = 546"

definition plan_result :: "plan_error + 'a \<Rightarrow> engine_error + 'a" where
  "plan_result r = (case r of Inr a \<Rightarrow> Inr a
     | Inl (PlanError m) \<Rightarrow> Inl (OtherError m) | Inl (SchemaError m) \<Rightarrow> Inl (OtherError m))"

subsection \<open>The manager's collectable rewards\<close>

definition managerCollectAtAnchor ::
    "'v read_node \<Rightarrow> 'v clarity_codec \<Rightarrow> principal \<Rightarrow> principal \<Rightarrow> int \<Rightarrow> string
     \<Rightarrow> engine_error + int list \<times> int" where
  "managerCollectAtAnchor N D pox5 manager rewardCycle tip =
     bindr (callReadOnly N pox5 ''bond-period-to-reward-cycle'' manager [AUint 0] tip) (\<lambda>first.
     bindr (decodeUInt D first) (\<lambda>firstBondCycle.
     bindr (bondPeriodsForRewardCycle rewardCycle firstBondCycle) (\<lambda>bondPeriods.
     bindr (mapr (\<lambda>bondIndex.
         bindr (callReadOnly N pox5 ''get-earned'' manager
                  [APrincipal manager, AUint rewardCycle, optional_uint_arg bondIndex] tip) (\<lambda>v.
         decodeUInt D v)) (None # map Some bondPeriods)) (\<lambda>earned.
     Inr (bondPeriods, sum_list earned)))))"

subsection \<open>The input of each kind of plan\<close>

definition calculate_input ::
    "'v driver_env \<Rightarrow> recipe \<Rightarrow> principal \<Rightarrow> chain_anchor \<Rightarrow> (op_request \<times> nat option) verdict" where
  "calculate_input E R wallet anchor =
     (case bindr (deFirstRewardCycle E) (\<lambda>firstRewardCycleId.
             readPox5CalculateRewardsObservation (deNode E) (deCodec E) (rpPox5 R) wallet anchor
               firstRewardCycleId) of
        Inl e \<Rightarrow> (case e of
            Pox5CalculateRewardsError AlreadyComputed _ \<Rightarrow>
              stops (another_caller ''Another caller completed the calculation'')
          | _ \<Rightarrow> Inl e)
      | Inr calculation \<Rightarrow>
          if coTargetRewardCycle calculation \<noteq> int (rpCycle R) \<or>
             checkpointDistribution (coTargetCheckpoint calculation) \<noteq> rpDistribution R
          then stops (MatHalt ''The reward-calculation target changed'')
          else goes_on (ICalculate (rpPox5 R) (map cbBondIndex (coActiveBonds calculation))
                 (coTargetRewardCycle calculation) (coTargetCheckpoint calculation)
                 (coExpectedHeight calculation), None))"

definition claim_input ::
    "'v driver_env \<Rightarrow> recipe \<Rightarrow> chain_anchor \<Rightarrow> (op_request \<times> nat option) verdict" where
  "claim_input E R anchor =
     bindr (managerCollectAtAnchor (deNode E) (deCodec E) (rpPox5 R) (rpManager R) (int (rpCycle R))
              (anIndexBlockHash anchor)) (\<lambda>(bondPeriods, totalSats).
     if totalSats = 0
     then stops (another_caller ''Manager rewards are already collected or no longer claimable'')
     else goes_on (IClaim (rpManager R) (rpPox5 R) (rpSbtcToken R) (int (rpCycle R)) bondPeriods totalSats,
            Some (nat totalSats)))"

definition claim_staker_input ::
    "'v driver_env \<Rightarrow> recipe \<Rightarrow> recipe_child \<Rightarrow> principal \<Rightarrow> chain_anchor
     \<Rightarrow> (op_request \<times> nat option) verdict" where
  "claim_staker_input E R rc wallet anchor =
     (if rcStaker rc \<in> {None, Some []} \<or> rcAccountKey rc = None
      then stops (MatHalt ''Payment recipe identity is missing'')
      else (case find (\<lambda>b. Some (abKey b) = rcAccountKey rc) (rpAccounts R) of
          None \<Rightarrow> stops (MatHalt ''Payment account is not in the recipe'')
        | Some bound \<Rightarrow>
            let accountBound = abAccount bound;
                bondIndex = map_option int (daBond accountBound);
                tip = anIndexBlockHash anchor; N = deNode E; D = deCodec E;
                args = [APrincipal (daStaker accountBound), AUint (int (daCycle accountBound)),
                        optional_uint_arg bondIndex] in
            bindr (callReadOnly N (rpManager R) ''get-earned-staker-rewards'' wallet args tip) (\<lambda>earnedValue.
            bindr (callReadOnly N (rpManager R) ''get-pox-addr'' wallet [APrincipal (daStaker accountBound)] tip)
              (\<lambda>payoutValue.
            bindr (getMapEntry N (rpManager R) ''fee-bips-for-cycle''
                     [(''reward-cycle'', AUint (int (daCycle accountBound))),
                      (''bond-index'', optional_uint_arg bondIndex)] tip) (\<lambda>feeValue.
            bindr (callReadOnly N (rpManager R) ''get-unclaimed-staker-rewards'' wallet [] tip)
              (\<lambda>unclaimedValue.
            bindr (decodeEarnedStakerRewards D earnedValue) (\<lambda>(earned, fees).
            if earned = 0 then stops (another_caller ''Another caller paid this reward account'')
            else
              bindr (decodeOptionalUInt D feeValue) (\<lambda>feeBips.
              bindr (decodeUInt D unclaimedValue) (\<lambda>unclaimed.
              bindr (decodePoxAddressPreference D payoutValue) (\<lambda>payout.
              let payoutRoute = (if payout \<noteq> None then BitcoinL1 else DirectSbtc);
                  gross = earned + fees in
              if feeBips = None \<or> unclaimed < gross
              then stops (MatHalt ''The manager fee is not locked for this reward account'')
              else if gross > int (daMaxGross accountBound)
              then stops (MatHalt ''Current entitlement exceeds the approved recipe bound'')
              else if payoutRoute \<noteq> daRoute accountBound
              then stops (MatHalt ''The approved staker payout route changed'')
              else if (case payout of None \<Rightarrow> False
                       | Some maxFee \<Rightarrow> earned < maxFee \<or> earned - maxFee \<le> SBTC_WITHDRAWAL_DUST_LIMIT)
              then stops (MatSkip ''Bitcoin payout is below its configured fee budget'' PolicyException)
              else goes_on (IClaimStaker (rpManager R) (rpSbtcToken R) (daStaker accountBound)
                     (int (daCycle accountBound)) bondIndex payoutRoute gross fees earned,
                     Some (nat gross))))))))))))"

definition withdrawal_input ::
    "'v driver_env \<Rightarrow> recipe \<Rightarrow> recipe_child \<Rightarrow> bool \<Rightarrow> principal \<Rightarrow> chain_anchor
     \<Rightarrow> (op_request \<times> nat option) verdict" where
  "withdrawal_input E R rc settle wallet anchor =
     (case (rcRequestId rc, rcStaker rc) of
        (Some requestId, Some (c # cs)) \<Rightarrow>
          let staker = c # cs in
          bindr (callReadOnly (deNode E) (rpManager R) ''get-withdrawal-request-staker'' wallet
                   [AUint (int requestId)] (anIndexBlockHash anchor)) (\<lambda>v.
          bindr (decodeOptionalPrincipal (deCodec E) v) (\<lambda>mappedStaker.
          case mappedStaker of
            None \<Rightarrow> stops (another_caller ''Another caller already finished this Bitcoin withdrawal'')
          | Some mapped \<Rightarrow>
              if mapped \<noteq> staker then stops (MatHalt ''Withdrawal recipient changed'')
              else
                bindr (deWithdrawalStatus E (rpSbtcRegistry R) requestId (anIndexBlockHash anchor)) (\<lambda>state.
                if settle \<and> state \<noteq> RegistryAccepted \<or> \<not> settle \<and> state \<noteq> RegistryRejected
                then stops (MatHalt (''Withdrawal registry state is '' @ (case state of
                       RegistryAccepted \<Rightarrow> ''accepted'' | RegistryRejected \<Rightarrow> ''rejected''
                     | RegistryOther s \<Rightarrow> s)))
                else goes_on (if settle then ISettle (rpManager R) (int requestId) staker
                       else IReclaim (rpManager R) (rpSbtcToken R) (int requestId) staker
                         (case rcWithdrawal rc of None \<Rightarrow> 0 | Some n \<Rightarrow> int n)
                         (case rcMaxFee rc of None \<Rightarrow> 0 | Some n \<Rightarrow> int n), rcMaxAmount rc))))
      | _ \<Rightarrow> stops (MatHalt ''Withdrawal recipe identity is missing''))"

definition plan_input ::
    "'v driver_env \<Rightarrow> recipe \<Rightarrow> recipe_child \<Rightarrow> operation \<Rightarrow> principal \<Rightarrow> chain_anchor
     \<Rightarrow> (op_request \<times> nat option) verdict" where
  "plan_input E R rc k wallet anchor = (case k of
       CalculateRewards \<Rightarrow> calculate_input E R wallet anchor
     | ClaimRewards \<Rightarrow> claim_input E R anchor
     | ClaimStakerRewards \<Rightarrow> claim_staker_input E R rc wallet anchor
     | SettleAcceptedWithdrawal \<Rightarrow> withdrawal_input E R rc True wallet anchor
     | ReclaimFailedWithdrawal \<Rightarrow> withdrawal_input E R rc False wallet anchor)"

subsection \<open>Materializing a child\<close>

definition retryable_account :: "nat option \<Rightarrow> string \<Rightarrow> bool" where
  "retryable_account httpStatus reason \<longleftrightarrow>
     reason = ''response-read-error'' \<or>
     (case httpStatus of None \<Rightarrow> True | Some n \<Rightarrow> n = 408 \<or> n = 429 \<or> n \<ge> 500)"

definition observed_balance :: "account_read \<Rightarrow> (int \<times> int) verdict" where
  "observed_balance account = (case account of
       AccountSeen balance nonce \<Rightarrow> goes_on (balance, nonce)
     | AccountUnavailable httpStatus reason \<Rightarrow>
         if retryable_account httpStatus reason
         then Inl (UpstreamUnavailableError
                (''The gas wallet account read is unavailable ('' @ reason @ '')''))
         else stops (MatHalt ''The gas wallet account read is unavailable'')
     | AccountSchemaInvalid \<Rightarrow> stops (MatHalt ''The gas wallet account read is schema-invalid''))"

definition then_verdict :: "'a verdict \<Rightarrow> ('a \<Rightarrow> engine_error + materialization) \<Rightarrow> engine_error + materialization" where
  "then_verdict v f = bindr v (\<lambda>x. case x of Inl m \<Rightarrow> Inr m | Inr a \<Rightarrow> f a)"

definition common_input :: "run \<Rightarrow> chain_anchor \<Rightarrow> plan_sender \<Rightarrow> int \<Rightarrow> int \<Rightarrow> op_common" where
  "common_input r anchor wallet nonce fee =
     \<lparr>inAuthorization = \<lparr>authRunId = rnId r, authRecipeSha256 = rnRecipeSha r\<rparr>,
      inNetwork = \<lparr>netKind = rpNetwork (rnRecipe r), netChainId = int (rpChainId (rnRecipe r))\<rparr>,
      inAnchor = \<lparr>ancStacksHeight = anStacksBlockHeight anchor, ancBurnHeight = anBurnBlockHeight anchor,
        ancIndexHash = anIndexBlockHash anchor\<rparr>,
      inSender = wallet, inManagerFingerprint = Some (rpManagerFingerprint (rnRecipe r)),
      inNonce = nonce, inFeeUstx = fee\<rparr>"

definition materialize ::
    "tx_lib \<Rightarrow> 'v driver_env \<Rightarrow> run \<Rightarrow> nat \<Rightarrow> operation \<Rightarrow> engine_error + materialization" where
  "materialize L E r i k =
     (let R = rnRecipe r in
      bindr (deContext E) (\<lambda>_.
      bindr (checkCanonicalNodeBlock (deBlocks E) (nat (ancStacksHeight (rpAnchor R)))
               (ancIndexHash (rpAnchor R))) (\<lambda>preparation.
      if preparation = ReorgedBlock
      then Inr (MatHalt ''The reward run preparation anchor became noncanonical'')
      else (case deWallet E of
          None \<Rightarrow> Inr (MatHalt ''The loaded gas wallet identity changed'')
        | Some wallet \<Rightarrow>
            if senderPrincipal wallet \<noteq> rnWallet r
            then Inr (MatHalt ''The loaded gas wallet identity changed'')
            else
              bindr (captureNodeChainAnchor (deAnchor E)) (\<lambda>anchor.
              bindr (deAccount E (senderPrincipal wallet) (anIndexBlockHash anchor)) (\<lambda>account.
              then_verdict (observed_balance account) (\<lambda>(balance, nonce).
              case at_index (rpChildren R) i of
                None \<Rightarrow> Inr (MatHalt ''Recipe child is missing'')
              | Some recipeChild \<Rightarrow>
                  then_verdict (plan_input E R recipeChild k (senderPrincipal wallet) anchor)
                    (\<lambda>(planInput, amountSats).
                  let common = common_input r anchor wallet nonce (fpMaximum (dePolicyDraft E)) in
                  bindr (plan_result (planRewardOperation L common planInput)) (\<lambda>draft.
                  let fee = fsFee (selectTransactionFee (deEstimate E (unsignedTransactionHex draft))
                        (dePolicy E)) in
                  if balance < fee
                  then Inr (MatHalt ''The gas wallet does not cover the next transaction fee'')
                  else
                    bindr (if fee = fpMaximum (dePolicy E) then Inr draft
                           else plan_result (planRewardOperation L (common\<lparr>inFeeUstx := fee\<rparr>) planInput))
                      (\<lambda>plan. Inr (MatPlan plan amountSats)))))))))))"

subsection \<open>Reconciling a submitted child\<close>





subsection \<open>What a sealed recipe says of a child\<close>

definition child_shape :: "recipe \<Rightarrow> recipe_child \<Rightarrow> bool" where
  "child_shape R rc \<longleftrightarrow>
     rcAdapterId rc = adapter_id (rcOperation rc) \<and> rcAdapterRevision rc = adapter_revision (rcOperation rc) \<and>
     (case rcOperation rc of
        CalculateRewards \<Rightarrow> rcMaxAmount rc = None
      | ClaimRewards \<Rightarrow> rcMaxAmount rc \<noteq> None
      | ClaimStakerRewards \<Rightarrow> \<exists>b \<in> set (rpAccounts R). rcAccountKey rc = Some (abKey b) \<and>
          abKey b = accountKey (abAccount b) \<and> rcStaker rc = Some (daStaker (abAccount b)) \<and>
          rcMaxAmount rc = Some (daMaxGross (abAccount b))
      | SettleAcceptedWithdrawal \<Rightarrow> rcMaxAmount rc = None
      | ReclaimFailedWithdrawal \<Rightarrow> \<exists>m f. rcWithdrawal rc = Some m \<and> rcMaxFee rc = Some f \<and>
          rcMaxAmount rc = Some (m + f))"

lemma collect_children_cases:
  assumes "collect_children f sel m (calculate_children f sel m) = Inr h" "rc \<in> set h"
  shows "(\<exists>i. rc = mk_child i CalculateRewards no_detail) \<or>
     (\<exists>i. rc = mk_child i ClaimRewards (no_detail\<lparr>cdMaxAmount := dfMaximumCollect f\<rparr>) \<and> dfMaximumCollect f \<noteq> None)"
  using assms
  by (auto simp: collect_children_def calculate_children_def add_child_eq split: if_splits)

lemma built_recipe_shape:
  assumes "buildRewardRunRecipe L runId f q feeCap maxTx = Inr R" "rc \<in> set (rpChildren R)"
    and "\<And>w. w \<in> set (dfWithdrawals f) \<Longrightarrow> dwMaxAmount w = dwAmount w + dwMaxFee w"
  shows "child_shape R rc \<and> distinct (map abKey (rpAccounts R))"
proof -
  obtain sel where children: "recipe_children L f sel (rpMaxTransactions R) = Inr (rpChildren R)"
    and bounds: "bound_accounts (rpChildren R) [] (sorted_accounts L f) = Inr (rpAccounts R)"
    by (rule buildRewardRunRecipe_elim [OF assms(1)])
  note accounts = recipe_accounts [OF children bounds]
  obtain h as ws where cs: "rpChildren R = h @ built (length h) (\<lambda>_. ClaimStakerRewards) payment_detail as
            @ built (length h + length as) withdrawal_operation withdrawal_detail ws"
    and h: "collect_children f sel (rpMaxTransactions R) (calculate_children f sel (rpMaxTransactions R)) = Inr h"
    and ws: "set ws \<subseteq> set (dfWithdrawals f)"
    by (rule recipe_children_shape [OF children]) (rule that)
  consider (head) "rc \<in> set h" | (payment) i x where "rc = mk_child i ClaimStakerRewards (payment_detail x)"
    | (withdrawal) i w where "w \<in> set ws" "rc = mk_child i (withdrawal_operation w) (withdrawal_detail w)"
    using assms(2) unfolding cs by (auto dest!: in_built)
  then have "child_shape R rc"
  proof cases
    case head
    then show ?thesis
      using collect_children_cases [OF h] by (fastforce simp: child_shape_def no_detail_def)
  next
    case payment
    then have "rc \<in> set (payments (rpChildren R))"
      using assms(2) by (simp add: payments_def)
    then have "(rcAccountKey rc, rcStaker rc, rcMaxAmount rc) \<in>
        set (map (\<lambda>c. (rcAccountKey c, rcStaker c, rcMaxAmount c)) (payments (rpChildren R)))"
      by auto
    then obtain b where "b \<in> set (rpAccounts R)" "rcAccountKey rc = Some (abKey b)"
      "rcStaker rc = Some (daStaker (abAccount b))" "rcMaxAmount rc = Some (daMaxGross (abAccount b))"
      unfolding accounts(1) by auto
    then show ?thesis
      using payment accounts(4) by (auto simp: child_shape_def)
  next
    case withdrawal
    then show ?thesis
      using ws assms(3) [of w]
      by (auto simp: child_shape_def withdrawal_detail_def withdrawal_operation_def)
  qed
  then show ?thesis
    using accounts(2) by simp
qed

subsection \<open>The plan of a materialized child\<close>

lemma then_verdict_plan:
  "then_verdict v f = Inr (MatPlan p a) \<longleftrightarrow>
     (v = Inr (Inl (MatPlan p a)) \<or> (\<exists>x. v = Inr (Inr x) \<and> f x = Inr (MatPlan p a)))"
proof (cases v)
  case (Inr x)
  then show ?thesis
    by (cases x) (simp_all add: then_verdict_def)
qed (simp add: then_verdict_def)

lemma observed_balance_seen: "observed_balance acc = Inr (Inr x) \<longleftrightarrow> acc = AccountSeen (fst x) (snd x)"
  by (cases acc) (auto simp: observed_balance_def goes_on_def stops_def prod_eq_iff)

lemma observed_balance_stops: "observed_balance acc \<noteq> Inr (Inl (MatPlan p a))"
  by (cases acc) (auto simp: observed_balance_def goes_on_def stops_def)

lemma plan_result_Inr [simp]: "plan_result x = Inr p \<longleftrightarrow> x = Inr p"
  by (auto simp: plan_result_def split: sum.splits plan_error.splits)

lemmas input_defs = calculate_input_def claim_input_def claim_staker_input_def withdrawal_input_def

lemma calculate_input_elim:
  assumes "calculate_input E R w anchor = Inr (Inr (q, a))"
  obtains periods chk hgt where "q = ICalculate (rpPox5 R) periods (int (rpCycle R)) chk hgt"
    "checkpointDistribution chk = rpDistribution R" "a = None"
  using assms
  by (auto simp: calculate_input_def goes_on_def stops_def split: sum.splits if_splits engine_error.splits
      calculate_error_code.splits)

lemma claim_input_elim:
  assumes "claim_input E R anchor = Inr (Inr (q, a))"
  obtains periods n where "q = IClaim (rpManager R) (rpPox5 R) (rpSbtcToken R) (int (rpCycle R)) periods n"
    "a = Some (nat n)"
  using assms by (auto simp: claim_input_def goes_on_def stops_def split: if_splits)

lemma claim_staker_input_elim:
  assumes "claim_staker_input E R rc w anchor = Inr (Inr (q, a))"
  obtains b gross fees earned where "find (\<lambda>b. Some (abKey b) = rcAccountKey rc) (rpAccounts R) = Some b"
    "q = IClaimStaker (rpManager R) (rpSbtcToken R) (daStaker (abAccount b)) (int (daCycle (abAccount b)))
       (map_option int (daBond (abAccount b))) (daRoute (abAccount b)) gross fees earned"
    "gross \<le> int (daMaxGross (abAccount b))" "a = Some (nat gross)" "gross = earned + fees"
  using assms
  by (auto simp: claim_staker_input_def goes_on_def stops_def Let_def split: if_splits option.splits)

lemma withdrawal_input_elim:
  assumes "withdrawal_input E R rc settle w anchor = Inr (Inr (q, a))"
  obtains n staker where "rcRequestId rc = Some n" "rcStaker rc = Some staker" "a = rcMaxAmount rc"
    "q = (if settle then ISettle (rpManager R) (int n) staker
       else IReclaim (rpManager R) (rpSbtcToken R) (int n) staker
         (case rcWithdrawal rc of None \<Rightarrow> 0 | Some n \<Rightarrow> int n) (case rcMaxFee rc of None \<Rightarrow> 0 | Some n \<Rightarrow> int n))"
  using assms
  by (auto simp: withdrawal_input_def goes_on_def stops_def Let_def split: if_splits option.splits list.splits)

lemma input_never_stops_with_plan: "plan_input E R rc k w anchor \<noteq> Inr (Inl (MatPlan p a))"
  by (cases k) (auto simp: plan_input_def input_defs goes_on_def stops_def another_caller_def Let_def
      split: sum.splits if_splits engine_error.splits calculate_error_code.splits option.splits list.splits)

lemma materialize_elim:
  assumes "materialize L E r i k = Inr (MatPlan p a)"
  obtains wallet anchor rc q balance nonce fee where
    "deWallet E = Some wallet" "senderPrincipal wallet = rnWallet r"
    "checkCanonicalNodeBlock (deBlocks E) (nat (ancStacksHeight (rpAnchor (rnRecipe r))))
       (ancIndexHash (rpAnchor (rnRecipe r))) = Inr CanonicalBlock"
    "captureNodeChainAnchor (deAnchor E) = Inr anchor"
    "deAccount E (senderPrincipal wallet) (anIndexBlockHash anchor) = Inr (AccountSeen balance nonce)"
    "at_index (rpChildren (rnRecipe r)) i = Some rc"
    "plan_input E (rnRecipe r) rc k (senderPrincipal wallet) anchor = Inr (Inr (q, a))"
    "planRewardOperation L (common_input r anchor wallet nonce fee) q = Inr p"
    "\<exists>est. let f = fsFee (selectTransactionFee est (dePolicy E)) in
       f \<le> balance \<and> fee = (if f = fpMaximum (dePolicy E) then fpMaximum (dePolicyDraft E) else f)"
proof -
  have block: "x = CanonicalBlock" if "x \<noteq> ReorgedBlock" for x
    using that by (cases x) simp_all
  obtain wallet where wallet: "deWallet E = Some wallet" "senderPrincipal wallet = rnWallet r"
    and head: "checkCanonicalNodeBlock (deBlocks E) (nat (ancStacksHeight (rpAnchor (rnRecipe r))))
       (ancIndexHash (rpAnchor (rnRecipe r))) = Inr CanonicalBlock"
    using assms by (auto simp: materialize_def Let_def dest: block split: if_splits option.splits)
  obtain anchor account where anchor: "captureNodeChainAnchor (deAnchor E) = Inr anchor"
    and account: "deAccount E (senderPrincipal wallet) (anIndexBlockHash anchor) = Inr account"
    using assms wallet head by (auto simp: materialize_def Let_def split: if_splits)
  obtain balance nonce where seen: "account = AccountSeen balance nonce"
    using assms wallet head anchor account
    by (auto simp: materialize_def Let_def then_verdict_plan observed_balance_seen observed_balance_stops)
  obtain rc where rc: "at_index (rpChildren (rnRecipe r)) i = Some rc"
    using assms wallet head anchor account seen
    by (auto simp: materialize_def Let_def then_verdict_def observed_balance_def goes_on_def
        simp del: at_index_Some split: option.splits)
  have "then_verdict (plan_input E (rnRecipe r) rc k (senderPrincipal wallet) anchor) (\<lambda>(planInput, amountSats).
      let common = common_input r anchor wallet nonce (fpMaximum (dePolicyDraft E)) in
      bindr (plan_result (planRewardOperation L common planInput)) (\<lambda>draft.
      let fee = fsFee (selectTransactionFee (deEstimate E (unsignedTransactionHex draft)) (dePolicy E)) in
      if balance < fee
      then Inr (MatHalt ''The gas wallet does not cover the next transaction fee'')
      else bindr (if fee = fpMaximum (dePolicy E) then Inr draft
             else plan_result (planRewardOperation L (common\<lparr>inFeeUstx := fee\<rparr>) planInput))
        (\<lambda>plan. Inr (MatPlan plan amountSats)))) = Inr (MatPlan p a)"
    using assms wallet head anchor account seen rc
    by (simp add: materialize_def Let_def then_verdict_def observed_balance_def goes_on_def del: at_index_Some)
  then obtain q draft where q: "plan_input E (rnRecipe r) rc k (senderPrincipal wallet) anchor = Inr (Inr (q, a))"
    and draft: "planRewardOperation L (common_input r anchor wallet nonce (fpMaximum (dePolicyDraft E))) q = Inr draft"
    and rest: "(let fee = fsFee (selectTransactionFee (deEstimate E (unsignedTransactionHex draft)) (dePolicy E)) in
      if balance < fee then Inr (MatHalt ''The gas wallet does not cover the next transaction fee'')
      else bindr (if fee = fpMaximum (dePolicy E) then Inr draft
             else plan_result (planRewardOperation L ((common_input r anchor wallet nonce
               (fpMaximum (dePolicyDraft E)))\<lparr>inFeeUstx := fee\<rparr>) q))
        (\<lambda>plan. Inr (MatPlan plan a))) = Inr (MatPlan p a)"
    unfolding then_verdict_plan by (auto simp: input_never_stops_with_plan Let_def split: if_splits)
  define f where "f = fsFee (selectTransactionFee (deEstimate E (unsignedTransactionHex draft)) (dePolicy E))"
  have common: "(common_input r anchor wallet nonce x)\<lparr>inFeeUstx := y\<rparr> = common_input r anchor wallet nonce y" for x y
    by (simp add: common_input_def)
  have "f \<le> balance" and "planRewardOperation L (common_input r anchor wallet nonce
      (if f = fpMaximum (dePolicy E) then fpMaximum (dePolicyDraft E) else f)) q = Inr p"
    using rest draft unfolding Let_def f_def [symmetric] common by (auto split: if_splits)
  then show ?thesis
    using that [OF wallet head anchor account [unfolded seen] rc q] unfolding f_def Let_def by blast
qed

lemma checkpoint_target: "checkpointDistribution chk = d \<longleftrightarrow> chk = target_checkpoint d"
  by (cases chk; cases d) (simp_all add: target_checkpoint_def)

lemma staker_key_accountKey: "staker_key (daStaker x) (int (daCycle x)) (map_option int (daBond x)) = accountKey x"
  by (simp add: staker_key_def accountKey_def int_text_def split: option.splits)

lemma find_distinct:
  "distinct (map abKey bs) \<Longrightarrow> b \<in> set bs \<Longrightarrow> find (\<lambda>x. Some (abKey x) = Some (abKey b)) bs = Some b"
  by (induction bs) auto

lemma planned_in_recipe:
  assumes input: "plan_input E R rc (rcOperation rc) w anchor = Inr (Inr (q, a))"
    and shape: "child_shape R rc" "distinct (map abKey (rpAccounts R))"
    and call: "contractCall q = Inr cc" and schema: "opMaterialSchema L (ccMaterial cc)"
  shows "op_in_recipe R rc a (ccMaterial cc) \<and> request_kind q = rcOperation rc \<and>
     material_kind (ccMaterial cc) = rcOperation rc \<and> (rcMaxAmount rc = None) = (a = None) \<and>
     (rcOperation rc \<noteq> ClaimRewards \<longrightarrow> amount_within rc a)"
proof (cases "rcOperation rc")
  case CalculateRewards
  then show ?thesis
    using input shape(1) call
    by (auto simp: plan_input_def child_shape_def checkpoint_target amount_within_def request_kind_def elim!: calculate_input_elim)
next
  case ClaimRewards
  then show ?thesis
    using input shape(1) call
    by (auto simp: plan_input_def child_shape_def amount_is_def sbtc_transfer_def request_kind_def elim!: claim_input_elim split: if_splits)
next
  case ClaimStakerRewards
  then obtain b gross fees earned where b: "find (\<lambda>b. Some (abKey b) = rcAccountKey rc) (rpAccounts R) = Some b"
    and q: "q = IClaimStaker (rpManager R) (rpSbtcToken R) (daStaker (abAccount b)) (int (daCycle (abAccount b)))
       (map_option int (daBond (abAccount b))) (daRoute (abAccount b)) gross fees earned"
    and a: "gross \<le> int (daMaxGross (abAccount b))" "a = Some (nat gross)"
    using input by (auto simp: plan_input_def elim!: claim_staker_input_elim)
  obtain b' where b': "b' \<in> set (rpAccounts R)" "rcAccountKey rc = Some (abKey b')"
    "abKey b' = accountKey (abAccount b')" "rcStaker rc = Some (daStaker (abAccount b'))"
    "rcMaxAmount rc = Some (daMaxGross (abAccount b'))"
    using shape(1) ClaimStakerRewards by (auto simp: child_shape_def)
  have "b' = b"
    using find_distinct [OF shape(2) b'(1)] b b'(2) by simp
  moreover have "0 \<le> gross"
    using call schema by (auto simp: q uintText_def split: if_splits)
  ultimately show ?thesis
    using b b' q a call ClaimStakerRewards
    by (auto simp: amount_is_def amount_within_def staker_key_accountKey sbtc_transfer_def request_kind_def split: if_splits)
next
  case SettleAcceptedWithdrawal
  then show ?thesis
    using input shape(1) call
    by (auto simp: plan_input_def child_shape_def amount_within_def request_kind_def elim!: withdrawal_input_elim)
next
  case ReclaimFailedWithdrawal
  then show ?thesis
    using input shape(1) call
    by (auto simp: plan_input_def child_shape_def amount_within_def amount_is_def sbtc_transfer_def Let_def request_kind_def
        elim!: withdrawal_input_elim split: if_splits)
qed

text \<open>
  C23: the driver only makes plans that its coordinator accepts. For a run whose recipe was built from
  reviewed facts and a child of its own kind, a plan the driver materializes revalidates, and passes
  \<open>assertPlan\<close> exactly when the three things the driver does not compare itself hold: the anchor is not
  behind the preparation anchor, the fee is within the recipe's cap, and a manager collect is not
  larger than the one approved.
\<close>
theorem driver_plans_accepted:
  assumes "buildRewardRunRecipe L rid f request feeCap maxTx = Inr (rnRecipe r)"
    and "\<And>w. w \<in> set (dfWithdrawals f) \<Longrightarrow> dwMaxAmount w = dwAmount w + dwMaxFee w"
    and "map_option rcOperation (at_index (rpChildren (rnRecipe r)) i) = Some (chOperation c)"
    and "materialize L E r i (chOperation c) = Inr (MatPlan p a)"
  shows "revalidateRewardOperationPlan L p = Inr p \<and>
     (assertPlan r i c p a = Inr () \<longleftrightarrow>
        ancStacksHeight (rpAnchor (rnRecipe r)) \<le> ancStacksHeight (matAnchor (planMaterial p)) \<and>
        ancBurnHeight (rpAnchor (rnRecipe r)) \<le> ancBurnHeight (matAnchor (planMaterial p)) \<and>
        txFeeUstx (matTransaction (planMaterial p)) \<le> int (rpFeeCap (rnRecipe r)) \<and>
        (chOperation c = ClaimRewards \<longrightarrow> amount_within (rpChildren (rnRecipe r) ! i) a))"
proof -
  let ?R = "rnRecipe r"
  obtain wallet anchor rc q balance nonce fee where
    wallet: "senderPrincipal wallet = rnWallet r" and rc: "at_index (rpChildren ?R) i = Some rc"
    and input: "plan_input E ?R rc (chOperation c) (senderPrincipal wallet) anchor = Inr (Inr (q, a))"
    and plan: "planRewardOperation L (common_input r anchor wallet nonce fee) q = Inr p"
    by (rule materialize_elim [OF assms(4)]) (rule that)
  have kind: "rcOperation rc = chOperation c" and nth: "rpChildren ?R ! i = rc" and "rc \<in> set (rpChildren ?R)"
    using assms(3) rc by (auto simp: at_index_def split: if_splits)
  then have shape: "child_shape ?R rc" "distinct (map abKey (rpAccounts ?R))"
    using built_recipe_shape [OF assms(1) _ assms(2)] by blast+
  obtain cc where call: "contractCall q = Inr cc" and schema: "rewardOperationPlanSchema L p"
    and material: "planMaterial p = plan_material (common_input r anchor wallet nonce fee) q cc (unsignedTransactionSha256 p)"
    by (rule planRewardOperation_elim [OF plan]) (rule that)
  have "opMaterialSchema L (ccMaterial cc)"
    using schema material by (simp add: rewardOperationPlanSchema_def operationMaterialSchema_def plan_material_def)
  from planned_in_recipe [OF _ shape call this] input kind
  have fits: "op_in_recipe ?R rc a (ccMaterial cc)" "request_kind q = chOperation c"
    "material_kind (ccMaterial cc) = chOperation c" "(rcMaxAmount rc = None) = (a = None)"
    "chOperation c \<noteq> ClaimRewards \<longrightarrow> amount_within rc a"
    by auto
  have "revalidateRewardOperationPlan L p = Inr p"
    using plan plan_rebuild [OF plan] by (simp add: revalidate_iff)
  moreover have "assertPlan r i c p a = Inr () \<longleftrightarrow>
      material_bound (rnId r) (rnWallet r) (rnRecipeSha r) ?R (chOperation c) (Some rc) (planMaterial p) \<and>
      amount_within rc a"
    unfolding assertPlan_ok rc using fits by (auto simp: material plan_material_def)
  moreover have "material_bound (rnId r) (rnWallet r) (rnRecipeSha r) ?R (chOperation c) (Some rc) (planMaterial p) \<longleftrightarrow>
        ancStacksHeight (rpAnchor ?R) \<le> ancStacksHeight (matAnchor (planMaterial p)) \<and>
        ancBurnHeight (rpAnchor ?R) \<le> ancBurnHeight (matAnchor (planMaterial p)) \<and>
        txFeeUstx (matTransaction (planMaterial p)) \<le> int (rpFeeCap ?R)"
    using fits(2,3) wallet shape(1) kind
    by (auto simp: material_bound_def material plan_material_def common_input_def child_shape_def)
  ultimately show ?thesis
    using fits(5) nth by auto
qed




end
