(* ===== verification/Run_Facts.thy ===== *)
theory Run_Facts
  imports Claim_Discovery Reward_Driver
begin

text \<open>
  The facts a reward run is prepared from (\<open>createLiveRewardRunFacts\<close> and \<open>factReadsForOperations\<close> in
  apps/sidekick/src/transaction-engine/live-reward-run.ts): the universe of accounts and withdrawals,
  read from the chain at one anchor.

  Both pagers are loops that nothing in the function bounds, so they are partial functions into
  \<open>option\<close>: \<open>None\<close> is a preparation that never ends. The claims pager is called with the number of
  the call and the offset, so it may answer differently when it is asked twice; the pending
  withdrawals of the store are read by offset and call number alike.
\<close>

subsection \<open>Which reads a request needs\<close>

record fact_reads =
  frCalculate :: bool
  frCollect :: bool
  frAccounts :: bool
  frWithdrawals :: bool

definition factReadsForOperations :: "operation list option \<Rightarrow> fact_reads" where
  "factReadsForOperations operations =
     (let selected = set (case operations of None \<Rightarrow> operationOrder | Some ops \<Rightarrow> ops) in
      \<lparr>frCalculate = CalculateRewards \<in> selected,
       frCollect = (ClaimRewards \<in> selected \<or> ClaimStakerRewards \<in> selected),
       frAccounts = ClaimStakerRewards \<in> selected,
       frWithdrawals = (SettleAcceptedWithdrawal \<in> selected \<or> ReclaimFailedWithdrawal \<in> selected)\<rparr>)"

text \<open>
  What an action of the dashboard or of the schedule asks for (\<open>operationsForKind\<close> in
  packages/api-contracts/src/reward-actions.ts).
\<close>

datatype reward_run_kind = CollectAndDistribute | Distribute | Collect | Calculate | FinishBitcoinPayouts

fun operationsForKind :: "reward_run_kind \<Rightarrow> operation list" where
  "operationsForKind CollectAndDistribute = [ClaimRewards, ClaimStakerRewards]"
| "operationsForKind Distribute = [ClaimStakerRewards]"
| "operationsForKind Collect = [ClaimRewards]"
| "operationsForKind Calculate = [CalculateRewards]"
| "operationsForKind FinishBitcoinPayouts = [SettleAcceptedWithdrawal, ReclaimFailedWithdrawal]"

definition MANAGER_OPERATIONS :: "operation list" where
  "MANAGER_OPERATIONS = [ClaimRewards, ClaimStakerRewards, SettleAcceptedWithdrawal, ReclaimFailedWithdrawal]"

text \<open>The reward-claims capability of a manager: whether it may be executed and the reviewed source.\<close>

record claims_capability =
  ccExecutionAvailable :: bool
  ccReviewedSource :: "string option"

definition reviewedRewardManagerAvailable :: "claims_capability \<Rightarrow> string \<Rightarrow> bool" where
  "reviewedRewardManagerAvailable capability sourceSha256 \<longleftrightarrow>
     ccExecutionAvailable capability \<and> ccReviewedSource capability = Some sourceSha256"

subsection \<open>The environment of a preparation\<close>

record reward_setup =
  suPox5 :: "principal option"
  suSbtcToken :: "principal option"
  suSbtcRegistry :: "principal option"
  suPox5Source :: "string option"
  suManagerSource :: "string option"
  suCapability :: claims_capability
  suFirstRewardCycle :: "int option"
  suMainnet :: bool
  suNetworkId :: nat

record pending_withdrawal =
  pwRequestId :: nat
  pwStaker :: principal
  pwAmount :: nat
  pwMaxFee :: nat

record withdrawals_page =
  wpItems :: "pending_withdrawal list"
  wpTotal :: nat

record 'v facts_env =
  feObservation :: "engine_error + reward_setup"
  feWallet :: "principal option"
  feManager :: principal
  feContext :: "engine_error + unit"
  feAnchor :: "nat \<Rightarrow> node_attempt"
  feNode :: "'v read_node"
  feCodec :: "'v clarity_codec"
  feClaims :: "int list \<Rightarrow> chain_anchor \<Rightarrow> nat \<Rightarrow> nat \<Rightarrow> engine_error + claims_page"
  feWithdrawals :: "nat \<Rightarrow> nat \<Rightarrow> engine_error + withdrawals_page"
  feRegistryStatus :: "principal \<Rightarrow> nat \<Rightarrow> string \<Rightarrow> engine_error + registry_status"
  feMaximumAccounts :: "nat option"

subsection \<open>The accounts\<close>

text \<open>Every candidate with a gross entitlement is counted; those within the maximum are kept.\<close>

definition draft_of :: "int \<Rightarrow> claim_candidate \<Rightarrow> draft_account" where
  "draft_of rewardCycle c = \<lparr>daStaker = caStaker c, daCycle = nat rewardCycle,
     daBond = map_option nat (caBondIndex c), daMaxGross = nat (caGross c), daRoute = caRoute c\<rparr>"

definition add_candidate ::
    "nat \<Rightarrow> int \<Rightarrow> claim_candidate \<Rightarrow> nat \<times> draft_account list \<Rightarrow> nat \<times> draft_account list" where
  "add_candidate maximumAccounts rewardCycle c = (\<lambda>(eligible, accounts).
     if caGross c = 0 then (eligible, accounts)
     else (eligible + 1, if length accounts < maximumAccounts then accounts @ [draft_of rewardCycle c] else accounts))"

partial_function (option) claims_loop ::
    "(nat \<Rightarrow> nat \<Rightarrow> engine_error + claims_page) \<Rightarrow> nat \<Rightarrow> nat \<Rightarrow> nat \<Rightarrow> nat \<Rightarrow> nat \<times> draft_account list
     \<Rightarrow> (engine_error + nat \<times> draft_account list) option" where
  "claims_loop pages cycle maximumAccounts call offset acc =
     (case pages call offset of
        Inl e \<Rightarrow> Some (Inl e)
      | Inr page \<Rightarrow>
          if cpRewardCycle page \<noteq> int cycle
          then Some (Inl (OtherError ''Reward claim discovery changed cycles while sealing the recipe''))
          else
            let acc' = fold (add_candidate maximumAccounts (cpRewardCycle page)) (cpCandidates page) acc in
            (case cpNextCursor page of
               None \<Rightarrow> Some (Inr acc')
             | Some cursor \<Rightarrow> claims_loop pages cycle maximumAccounts (call + 1) cursor acc'))"

subsection \<open>The withdrawals\<close>

definition withdrawal_of :: "pending_withdrawal \<Rightarrow> withdrawal_state \<Rightarrow> draft_withdrawal" where
  "withdrawal_of w st = \<lparr>dwRequestId = pwRequestId w, dwStaker = pwStaker w, dwState = st,
     dwMaxAmount = pwAmount w + pwMaxFee w, dwAmount = pwAmount w, dwMaxFee = pwMaxFee w\<rparr>"

definition add_withdrawal ::
    "nat \<Rightarrow> pending_withdrawal \<times> registry_status \<Rightarrow> nat \<times> nat \<times> draft_withdrawal list
     \<Rightarrow> nat \<times> nat \<times> draft_withdrawal list" where
  "add_withdrawal maximumAccounts = (\<lambda>(w, state) (accepted, rejected, withdrawals).
     (case state of
        RegistryOther _ \<Rightarrow> (accepted, rejected, withdrawals)
      | RegistryAccepted \<Rightarrow> (accepted + 1, rejected,
          if length withdrawals < maximumAccounts then withdrawals @ [withdrawal_of w Accepted] else withdrawals)
      | RegistryRejected \<Rightarrow> (accepted, rejected + 1,
          if length withdrawals < maximumAccounts then withdrawals @ [withdrawal_of w Rejected] else withdrawals)))"

partial_function (option) withdrawals_loop ::
    "(nat \<Rightarrow> nat \<Rightarrow> engine_error + withdrawals_page) \<Rightarrow> (nat \<Rightarrow> engine_error + registry_status) \<Rightarrow> nat
     \<Rightarrow> nat \<Rightarrow> nat \<Rightarrow> nat \<times> nat \<times> draft_withdrawal list
     \<Rightarrow> (engine_error + nat \<times> nat \<times> draft_withdrawal list) option" where
  "withdrawals_loop pages status maximumAccounts call offset acc =
     (case pages call offset of
        Inl e \<Rightarrow> Some (Inl e)
      | Inr page \<Rightarrow>
          (case mapr (\<lambda>w. status (pwRequestId w)) (wpItems page) of
             Inl e \<Rightarrow> Some (Inl e)
           | Inr states \<Rightarrow>
               let acc' = fold (add_withdrawal maximumAccounts) (zip (wpItems page) states) acc;
                   next = offset + length (wpItems page) in
               if next \<ge> wpTotal page \<or> wpItems page = [] then Some (Inr acc')
               else withdrawals_loop pages status maximumAccounts (call + 1) next acc'))"

declare claims_loop.simps [code] withdrawals_loop.simps [code]

subsection \<open>The facts\<close>

definition obindr :: "('e + 'a) option \<Rightarrow> ('a \<Rightarrow> ('e + 'b) option) \<Rightarrow> ('e + 'b) option" where
  "obindr x f = (case x of None \<Rightarrow> None | Some (Inl e) \<Rightarrow> Some (Inl e) | Some (Inr a) \<Rightarrow> f a)"

definition calculate_required ::
    "'v facts_env \<Rightarrow> principal \<Rightarrow> principal \<Rightarrow> chain_anchor \<Rightarrow> int option \<Rightarrow> prepare_request
     \<Rightarrow> engine_error + bool" where
  "calculate_required E pox5 wallet anchor firstRewardCycle request =
     (case readPox5CalculateRewardsObservation (feNode E) (feCodec E) pox5 wallet anchor firstRewardCycle of
        Inr calculation \<Rightarrow> Inr (coTargetRewardCycle calculation = int (rqCycle request) \<and>
          checkpointDistribution (coTargetCheckpoint calculation) = rqDistribution request)
      | Inl (Pox5CalculateRewardsError AlreadyComputed m) \<Rightarrow> Inr False
      | Inl e \<Rightarrow> Inl e)"

definition reviewed_bindings ::
    "reward_setup \<Rightarrow> (principal \<times> principal \<times> principal \<times> string \<times> string) option" where
  "reviewed_bindings s = (case (suPox5 s, suSbtcToken s, suSbtcRegistry s, suPox5Source s, suManagerSource s) of
       (Some (a # p), Some (b # t), Some (c # r), Some (d # ps), Some (e # ms)) \<Rightarrow>
         Some (a # p, b # t, c # r, d # ps, e # ms)
     | _ \<Rightarrow> None)"

text \<open>The reads of the collect, of the accounts and of the withdrawals, each made only when selected.\<close>

definition maximum_accounts :: "'v facts_env \<Rightarrow> nat" where
  "maximum_accounts E = (case feMaximumAccounts E of None \<Rightarrow> 200 | Some n \<Rightarrow> n)"

definition read_collect ::
    "'v facts_env \<Rightarrow> prepare_request \<Rightarrow> principal \<Rightarrow> chain_anchor \<Rightarrow> engine_error + int list \<times> int" where
  "read_collect E q pox5 anchor =
     (if frCollect (factReadsForOperations (rqOperations q))
      then managerCollectAtAnchor (feNode E) (feCodec E) pox5 (feManager E) (int (rqCycle q)) (anIndexBlockHash anchor)
      else Inr ([], 0))"

definition read_accounts ::
    "'v facts_env \<Rightarrow> prepare_request \<Rightarrow> int list \<Rightarrow> chain_anchor
     \<Rightarrow> (engine_error + nat \<times> draft_account list) option" where
  "read_accounts E q bondPeriods anchor =
     (if frAccounts (factReadsForOperations (rqOperations q))
      then claims_loop (feClaims E bondPeriods anchor) (rqCycle q) (maximum_accounts E) 0 0 (0, [])
      else Some (Inr (0, [])))"

definition read_withdrawals ::
    "'v facts_env \<Rightarrow> prepare_request \<Rightarrow> principal \<Rightarrow> chain_anchor
     \<Rightarrow> (engine_error + nat \<times> nat \<times> draft_withdrawal list) option" where
  "read_withdrawals E q sbtcRegistry anchor =
     (if frWithdrawals (factReadsForOperations (rqOperations q))
      then withdrawals_loop (feWithdrawals E)
        (\<lambda>requestId. feRegistryStatus E sbtcRegistry requestId (anIndexBlockHash anchor))
        (maximum_accounts E) 0 0 (0, 0, [])
      else Some (Inr (0, 0, [])))"

definition createLiveRewardRunFacts ::
    "'v facts_env \<Rightarrow> prepare_request \<Rightarrow> (engine_error + draft_facts) option" where
  "createLiveRewardRunFacts E request =
     (let requestedOperations = (case rqOperations request of None \<Rightarrow> operationOrder | Some ops \<Rightarrow> ops) in
      obindr (Some (feObservation E)) (\<lambda>st.
      case feWallet E of
        None \<Rightarrow> Some (Inl (OtherError ''No active gas wallet identity''))
      | Some wallet \<Rightarrow>
      (case reviewed_bindings st of
        None \<Rightarrow> Some (Inl (OtherError
          ''Reviewed PoX-5 and manager source bindings are required for operator-run''))
      | Some (pox5, sbtcToken, sbtcRegistry, pox5Source, managerSource) \<Rightarrow>
      if list_ex (\<lambda>p. p \<in> set MANAGER_OPERATIONS) requestedOperations \<and>
         \<not> reviewedRewardManagerAvailable (suCapability st) managerSource
      then Some (Inl (OtherError ''Manager reward execution requires a reviewed compatible adapter''))
      else
      obindr (Some (feContext E)) (\<lambda>_.
      obindr (Some (captureNodeChainAnchor (feAnchor E))) (\<lambda>anchor.
      obindr (Some (if frCalculate (factReadsForOperations (rqOperations request))
          then calculate_required E pox5 wallet anchor (suFirstRewardCycle st) request
          else Inr False)) (\<lambda>calculateRequired.
      obindr (Some (read_collect E request pox5 anchor)) (\<lambda>(bondPeriods, totalSats).
      let collectRequired = totalSats > 0 in
      obindr (read_accounts E request bondPeriods anchor) (\<lambda>(eligibleAccounts, accounts).
      obindr (read_withdrawals E request sbtcRegistry anchor) (\<lambda>(accepted, rejected, withdrawals).
      Some (Inr \<lparr>dfWallet = wallet, dfManager = feManager E, dfPox5 = pox5, dfSbtcToken = sbtcToken,
        dfSbtcRegistry = sbtcRegistry, dfNetwork = (if suMainnet st then Mainnet else Testnet),
        dfChainId = suNetworkId st, dfCycle = rqCycle request, dfDistribution = rqDistribution request,
        dfAnchor = \<lparr>ancStacksHeight = anStacksBlockHeight anchor, ancBurnHeight = anBurnBlockHeight anchor,
          ancIndexHash = anIndexBlockHash anchor\<rparr>,
        dfManagerFingerprint = managerSource, dfPox5Fingerprint = pox5Source,
        dfCalculateRequired = calculateRequired, dfCollectRequired = collectRequired,
        dfMaximumCollect = (if collectRequired then Some (nat totalSats) else None),
        dfEligibleAccounts = eligibleAccounts, dfEligibleAccepted = accepted, dfEligibleRejected = rejected,
        dfAccounts = accounts, dfWithdrawals = withdrawals\<rparr>))))))))))"


subsection \<open>The pagers over a stable store\<close>

text \<open>The claims owed to the stakers of a roster, in its order.\<close>

definition owed_claims ::
    "'v read_node \<Rightarrow> 'v clarity_codec \<Rightarrow> principal \<Rightarrow> int \<Rightarrow> principal list \<Rightarrow> int list \<Rightarrow> string
     \<Rightarrow> engine_error + claim_candidate list" where
  "owed_claims N D manager cycle roster bonds tip =
     bindr (read_claimed_buckets N D manager cycle (None # map Some bonds) tip) (\<lambda>(unclaimed, claimed).
     bindr (mapr (\<lambda>staker. readStakerReward N D manager staker cycle (None # map Some bonds) claimed unclaimed tip)
       roster) (\<lambda>stakers.
     Inr (filter (\<lambda>c. caGross c \<noteq> 0) (concat (map staker_candidates stakers)))))"

lemma add_candidate_step:
  "add_candidate m cycle c (n, accounts) =
     (if caGross c = 0 then (n, accounts)
      else (n + 1, accounts @ take (m - length accounts) [draft_of cycle c]))"
  by (auto simp: add_candidate_def)

lemma add_candidates:
  "fold (add_candidate m cycle) cs (n, accounts) =
     (n + length (filter (\<lambda>c. caGross c \<noteq> 0) cs),
      accounts @ take (m - length accounts) (map (draft_of cycle) (filter (\<lambda>c. caGross c \<noteq> 0) cs)))"
proof (induction cs arbitrary: n accounts)
  case (Cons c cs)
  have "m - Suc (length accounts) = k" if "m - length accounts = Suc k" for k
    using that by simp
  with Cons show ?case
    by (cases "m - length accounts") (simp_all add: add_candidate_step)
qed simp

lemma mapr_append: "mapr f (xs @ ys) = bindr (mapr f xs) (\<lambda>us. bindr (mapr f ys) (\<lambda>vs. Inr (us @ vs)))"
  by (induction xs) (auto simp: bindr_def split: sum.splits)

lemma mapr_split:
  "mapr f xs = bindr (mapr f (take n xs)) (\<lambda>us. bindr (mapr f (drop n xs)) (\<lambda>vs. Inr (us @ vs)))"
  by (metis append_take_drop_id mapr_append)

text \<open>The page of the operator service for a reconciled roster, as one read of the buckets and of the page.\<close>

lemma stakerClaims_page:
  assumes "isSafe cycle" "0 \<le> cycle" "distinct (map int_text bonds)"
  shows "stakerClaims N D manager (Inr rewards) (Some (runId, True)) rows (Some offset) (Some 100) (Some cycle)
       (Some bonds) tip =
     bindr (read_claimed_buckets N D manager cycle (None # map Some bonds) tip) (\<lambda>(unclaimed, claimed).
     bindr (mapr (\<lambda>staker. readStakerReward N D manager staker cycle (None # map Some bonds) claimed unclaimed tip)
       (take 100 (drop offset (reconciled_roster runId rows)))) (\<lambda>stakers.
     Inr \<lparr>cpRewardCycle = cycle, cpStakers = take 100 (drop offset (reconciled_roster runId rows)),
       cpOffset = offset, cpLimit = 100, cpStakersTotal = length (reconciled_roster runId rows),
       cpNextCursor = (if offset + 100 < length (reconciled_roster runId rows) then Some (offset + 100) else None),
       cpSettlement = settlement_of stakers, cpCandidates = concat (map staker_candidates stakers)\<rparr>))"
  using assms
  by (simp add: stakerClaims_def discoverStakerClaims_def maxStakerClaimPage_def Let_def bindr_def split: sum.splits)

lemma claims_loop_roster:
  assumes "isSafe (int cycle)" "distinct (map int_text bonds)"
    and "pages = (\<lambda>_ offset. stakerClaims N D manager (Inr rewards) (Some (runId, True)) rows (Some offset) (Some 100)
       (Some (int cycle)) (Some bonds) tip)"
    and "read_claimed_buckets N D manager (int cycle) (None # map Some bonds) tip = Inr (unclaimed, claimed)"
  shows "claims_loop pages cycle m call offset acc =
     Some (bindr (mapr (\<lambda>staker. readStakerReward N D manager staker (int cycle) (None # map Some bonds) claimed
         unclaimed tip) (drop offset (reconciled_roster runId rows))) (\<lambda>stakers.
       Inr (fold (add_candidate m (int cycle)) (concat (map staker_candidates stakers)) acc)))"
proof (induction "length (reconciled_roster runId rows) - offset" arbitrary: call offset acc rule: less_induct)
  case less
  let ?roster = "reconciled_roster runId rows"
  let ?read = "\<lambda>staker. readStakerReward N D manager staker (int cycle) (None # map Some bonds) claimed unclaimed tip"
  have served: "pages call offset = bindr (mapr ?read (take 100 (drop offset ?roster))) (\<lambda>stakers.
      Inr \<lparr>cpRewardCycle = int cycle, cpStakers = take 100 (drop offset ?roster),
        cpOffset = offset, cpLimit = 100, cpStakersTotal = length ?roster,
        cpNextCursor = (if offset + 100 < length ?roster then Some (offset + 100) else None),
        cpSettlement = settlement_of stakers, cpCandidates = concat (map staker_candidates stakers)\<rparr>)"
    unfolding assms(3) stakerClaims_page [OF assms(1) of_nat_0_le_iff assms(2)] assms(4) bindr_Inr prod.case
    by (rule refl)
  note unfold = claims_loop.simps [of pages cycle m call offset acc] served
    mapr_split [of ?read "drop offset ?roster" 100]
  show ?case
  proof (cases "mapr ?read (take 100 (drop offset ?roster))")
    case (Inl e)
    then show ?thesis
      unfolding unfold by simp
  next
    case (Inr stakers)
    show ?thesis
    proof (cases "offset + 100 < length ?roster")
      case True
      then have "length ?roster - (offset + 100) < length ?roster - offset"
        by simp
      from less.hyps [OF this] show ?thesis
        unfolding unfold using True Inr by (simp add: bindr_def add.commute split: sum.splits)
    next
      case False
      then have "drop (100 + offset) ?roster = []" by simp
      then show ?thesis
        unfolding unfold using False Inr by (simp add: add.commute)
    qed
  qed
qed


text \<open>The withdrawals the registry has resolved, in the order of the store.\<close>

definition resolved_withdrawals :: "(pending_withdrawal \<times> registry_status) list \<Rightarrow> draft_withdrawal list" where
  "resolved_withdrawals = List.map_filter (\<lambda>(w, state). case state of
     RegistryAccepted \<Rightarrow> Some (withdrawal_of w Accepted)
   | RegistryRejected \<Rightarrow> Some (withdrawal_of w Rejected)
   | RegistryOther _ \<Rightarrow> None)"

abbreviation in_state :: "withdrawal_state \<Rightarrow> draft_withdrawal list \<Rightarrow> draft_withdrawal list" where
  "in_state st \<equiv> filter (\<lambda>w. dwState w = st)"

lemma resolved_simps [simp]:
  "resolved_withdrawals [] = []"
  "resolved_withdrawals ((w, RegistryAccepted) # ps) = withdrawal_of w Accepted # resolved_withdrawals ps"
  "resolved_withdrawals ((w, RegistryRejected) # ps) = withdrawal_of w Rejected # resolved_withdrawals ps"
  "resolved_withdrawals ((w, RegistryOther x) # ps) = resolved_withdrawals ps"
  by (simp_all add: resolved_withdrawals_def)

lemma add_withdrawal_step:
  "add_withdrawal m (w, RegistryAccepted) (a, r, ws) = (a + 1, r, ws @ take (m - length ws) [withdrawal_of w Accepted])"
  "add_withdrawal m (w, RegistryRejected) (a, r, ws) = (a, r + 1, ws @ take (m - length ws) [withdrawal_of w Rejected])"
  "add_withdrawal m (w, RegistryOther x) (a, r, ws) = (a, r, ws)"
  by (auto simp: add_withdrawal_def)

lemma withdrawal_of_state [simp]: "dwState (withdrawal_of w st) = st"
  by (simp add: withdrawal_of_def)

lemma add_withdrawals:
  "fold (add_withdrawal m) ps (a, r, ws) =
     (a + length (in_state Accepted (resolved_withdrawals ps)), r + length (in_state Rejected (resolved_withdrawals ps)),
      ws @ take (m - length ws) (resolved_withdrawals ps))"
proof (induction ps arbitrary: a r ws)
  case (Cons p ps)
  have "m - Suc (length ws) = k" if "m - length ws = Suc k" for k
    using that by simp
  moreover obtain w state where "p = (w, state)" by force
  ultimately show ?case
    using Cons by (cases state; cases "m - length ws") (simp_all add: add_withdrawal_step)
qed simp

lemma withdrawals_loop_store:
  assumes "pages = (\<lambda>_ offset. Inr \<lparr>wpItems = take 200 (drop offset W), wpTotal = length W\<rparr>)"
  shows "withdrawals_loop pages status m call offset acc =
     Some (bindr (mapr (\<lambda>w. status (pwRequestId w)) (drop offset W)) (\<lambda>states.
       Inr (fold (add_withdrawal m) (zip (drop offset W) states) acc)))"
proof (induction "length W - offset" arbitrary: call offset acc rule: less_induct)
  case less
  let ?read = "\<lambda>w. status (pwRequestId w)"
  let ?page = "take 200 (drop offset W)"
  have served: "pages call offset = Inr \<lparr>wpItems = ?page, wpTotal = length W\<rparr>"
    by (simp add: assms)
  note unfold = withdrawals_loop.simps [of pages status m call offset acc] served
    mapr_split [of ?read "drop offset W" 200]
  show ?case
  proof (cases "mapr ?read ?page")
    case (Inl e)
    then show ?thesis
      unfolding unfold by simp
  next
    case (Inr states)
    show ?thesis
    proof (cases "offset + 200 < length W")
      case True
      then have shorter: "length W - (offset + 200) < length W - offset" and size: "length ?page = 200"
        by simp_all
      have len: "length states = 200"
        using mapr_length [OF Inr] size by simp
      have more: "\<not> length W \<le> offset + length ?page" "?page \<noteq> []"
        using True size by auto
      have split: "zip (drop offset W) (states @ vs) = zip ?page states @ zip (drop (offset + 200) W) vs" for vs
        using zip_append2 [of "drop offset W" states vs] len by (simp add: add.commute)
      show ?thesis
        unfolding unfold using True more size Inr less.hyps [OF shorter]
        by (simp add: bindr_def Let_def split add.commute split: sum.splits)
    next
      case False
      then have "drop (200 + offset) W = []" "?page = drop offset W" "length W \<le> offset + length ?page"
        by simp_all
      then show ?thesis
        unfolding unfold using Inr by (simp add: add.commute)
    qed
  qed
qed


subsection \<open>What the facts hold\<close>

lemma obindr_Inr [simp]: "obindr x f = Some (Inr b) \<longleftrightarrow> (\<exists>a. x = Some (Inr a) \<and> f a = Some (Inr b))"
  by (auto simp: obindr_def split: option.splits sum.splits)

lemma obindr_simps: "obindr (Some (Inr a)) f = f a" "obindr (Some (Inl e)) f = Some (Inl e)" "obindr None f = None"
  by (simp_all add: obindr_def)

lemma obindr_ends: "x \<noteq> None \<Longrightarrow> (\<And>a. f a \<noteq> None) \<Longrightarrow> obindr x f \<noteq> None"
  by (auto simp: obindr_def split: option.splits sum.splits)

lemma case_ends:
  "(\<And>a. x = Some a \<Longrightarrow> h a \<noteq> None) \<Longrightarrow> (case x of None \<Rightarrow> Some e | Some a \<Rightarrow> h a) \<noteq> None"
  "(\<And>a b. g a b \<noteq> None) \<Longrightarrow> (case p of (a, b) \<Rightarrow> g a b) \<noteq> None"
  "v \<noteq> None \<Longrightarrow> w \<noteq> None \<Longrightarrow> (if P then v else w) \<noteq> None"
  by (simp_all split: option.splits prod.splits)

lemma facts_elim:
  assumes "createLiveRewardRunFacts E q = Some (Inr f)"
  obtains st pox5 sbtcToken sbtcRegistry pox5Source managerSource anchor bonds totalSats eligible accounts
      accepted rejected withdrawals where
    "feObservation E = Inr st"
    "reviewed_bindings st = Some (pox5, sbtcToken, sbtcRegistry, pox5Source, managerSource)"
    "captureNodeChainAnchor (feAnchor E) = Inr anchor"
    "read_collect E q pox5 anchor = Inr (bonds, totalSats)"
    "read_accounts E q bonds anchor = Some (Inr (eligible, accounts))"
    "read_withdrawals E q sbtcRegistry anchor = Some (Inr (accepted, rejected, withdrawals))"
    "dfPox5 f = pox5" "dfSbtcRegistry f = sbtcRegistry" "dfManager f = feManager E"
    "dfAnchor f = \<lparr>ancStacksHeight = anStacksBlockHeight anchor, ancBurnHeight = anBurnBlockHeight anchor,
       ancIndexHash = anIndexBlockHash anchor\<rparr>"
    "dfEligibleAccounts f = eligible" "dfAccounts f = accounts"
    "dfEligibleAccepted f = accepted" "dfEligibleRejected f = rejected" "dfWithdrawals f = withdrawals"
    "dfCollectRequired f = (totalSats > 0)" "dfMaximumCollect f = (if totalSats > 0 then Some (nat totalSats) else None)"
proof -
  obtain st where st: "feObservation E = Inr st"
    using assms by (auto simp: createLiveRewardRunFacts_def obindr_def split: sum.splits)
  obtain wallet where wallet: "feWallet E = Some wallet"
    using assms st by (auto simp: createLiveRewardRunFacts_def obindr_def split: option.splits)
  obtain pox5 sbtcToken sbtcRegistry pox5Source managerSource where
    bindings: "reviewed_bindings st = Some (pox5, sbtcToken, sbtcRegistry, pox5Source, managerSource)"
    using assms st wallet by (auto simp: createLiveRewardRunFacts_def obindr_def split: option.splits)
  note step = assms [unfolded createLiveRewardRunFacts_def Let_def] st wallet bindings
  obtain anchor where anchor: "captureNodeChainAnchor (feAnchor E) = Inr anchor"
    using step by (cases "feContext E"; cases "captureNodeChainAnchor (feAnchor E)") (auto simp: obindr_simps split: if_splits)
  obtain calc where calc: "(if frCalculate (factReadsForOperations (rqOperations q))
      then calculate_required E pox5 wallet anchor (suFirstRewardCycle st) q else Inr False) = Inr calc" (is "?calc = _")
    using step anchor by (cases "feContext E"; cases ?calc) (auto simp: obindr_simps split: if_splits)
  obtain bonds totalSats where collect: "read_collect E q pox5 anchor = Inr (bonds, totalSats)"
    using step anchor calc by (cases "feContext E"; cases "read_collect E q pox5 anchor") (auto simp: obindr_simps split: if_splits)
  obtain eligible accounts where accounts: "read_accounts E q bonds anchor = Some (Inr (eligible, accounts))"
    using step anchor calc collect
    by (cases "feContext E"; cases "read_accounts E q bonds anchor" rule: option.exhaust [case_product sum.exhaust])
      (auto simp: obindr_simps split: if_splits)
  obtain accepted rejected withdrawals where
    withdrawals: "read_withdrawals E q sbtcRegistry anchor = Some (Inr (accepted, rejected, withdrawals))"
    using step anchor calc collect accounts
    by (cases "feContext E"; cases "read_withdrawals E q sbtcRegistry anchor" rule: option.exhaust [case_product sum.exhaust])
      (auto simp: obindr_simps split: if_splits)
  have "f = \<lparr>dfWallet = wallet, dfManager = feManager E, dfPox5 = pox5, dfSbtcToken = sbtcToken,
        dfSbtcRegistry = sbtcRegistry, dfNetwork = (if suMainnet st then Mainnet else Testnet),
        dfChainId = suNetworkId st, dfCycle = rqCycle q, dfDistribution = rqDistribution q,
        dfAnchor = \<lparr>ancStacksHeight = anStacksBlockHeight anchor, ancBurnHeight = anBurnBlockHeight anchor,
          ancIndexHash = anIndexBlockHash anchor\<rparr>,
        dfManagerFingerprint = managerSource, dfPox5Fingerprint = pox5Source,
        dfCalculateRequired = calc, dfCollectRequired = (totalSats > 0),
        dfMaximumCollect = (if totalSats > 0 then Some (nat totalSats) else None),
        dfEligibleAccounts = eligible, dfEligibleAccepted = accepted, dfEligibleRejected = rejected,
        dfAccounts = accounts, dfWithdrawals = withdrawals\<rparr>"
    using step anchor calc collect accounts withdrawals
    by (cases "feContext E") (simp_all add: obindr_simps split: if_splits)
  then show ?thesis
    using that [OF st bindings anchor collect accounts withdrawals] by simp
qed


text \<open>
  A store that does not change while a preparation pages through it: the operator service answers each
  offset from one roster and one anchor, and the pending withdrawals are one list.
\<close>

definition stable_claims ::
    "'v facts_env \<Rightarrow> nat \<Rightarrow> engine_error + reward_buckets option \<Rightarrow> (string \<times> bool) option \<Rightarrow> roster_row list \<Rightarrow> bool" where
  "stable_claims E cycle snapshot completedRun rows \<longleftrightarrow>
     feClaims E = (\<lambda>bonds anchor _ offset. stakerClaims (feNode E) (feCodec E) (feManager E) snapshot completedRun rows
       (Some offset) (Some 100) (Some (int cycle)) (Some bonds) (anIndexBlockHash anchor))"

definition stable_withdrawals :: "'v facts_env \<Rightarrow> pending_withdrawal list \<Rightarrow> bool" where
  "stable_withdrawals E W \<longleftrightarrow>
     feWithdrawals E = (\<lambda>_ offset. Inr \<lparr>wpItems = take 200 (drop offset W), wpTotal = length W\<rparr>)"

lemma stable_pager:
  assumes "pages = (\<lambda>_ offset. stakerClaims N D manager snapshot completedRun rows (Some offset) (Some 100)
       (Some (int cycle)) (Some bonds) tip)"
  shows "(\<exists>e. claims_loop pages cycle m 0 0 (0, []) = Some (Inl e)) \<or>
     (\<exists>runId owed. completedRun = Some (runId, True) \<and>
        owed_claims N D manager (int cycle) (reconciled_roster runId rows) bonds tip = Inr owed \<and>
        claims_loop pages cycle m 0 0 (0, []) = Some (Inr (length owed, take m (map (draft_of (int cycle)) owed))))"
proof (cases "pages 0 0")
  case (Inl e)
  then show ?thesis
    by (simp add: claims_loop.simps [of pages cycle m 0 0])
next
  case (Inr page)
  then obtain rewards runId where stable: "snapshot = Inr rewards" "completedRun = Some (runId, True)"
    and ok: "isSafe (int cycle)" "distinct (map int_text bonds)"
    unfolding assms
    by (auto simp: stakerClaims_def discoverStakerClaims_def Let_def split: option.splits prod.splits bool.splits)
  let ?buckets = "read_claimed_buckets N D manager (int cycle) (None # map Some bonds) tip"
  obtain unclaimed claimed where buckets: "?buckets = Inr (unclaimed, claimed)"
    using Inr unfolding assms stable stakerClaims_page [OF ok(1) of_nat_0_le_iff ok(2)] by (cases ?buckets) auto
  from claims_loop_roster [OF ok assms [unfolded stable] buckets, of m 0 0 "(0, [])"] show ?thesis
    using stable(2)
    by (auto simp: owed_claims_def buckets bindr_def add_candidates split: sum.splits)
qed

text \<open>
  C27: preparing a run ends. When the roster and the pending withdrawals do not change while they are
  paged through, collecting the facts of a run returns facts or an error, whatever the chain answers.
\<close>
theorem preparation_ends:
  assumes "stable_claims E (rqCycle q) snapshot completedRun rows" "stable_withdrawals E W"
  shows "\<exists>r. createLiveRewardRunFacts E q = Some r"
proof -
  have "read_accounts E q bonds anchor \<noteq> None" for bonds anchor
    using stable_pager [of "feClaims E bonds anchor" "feNode E" "feCodec E" "feManager E" snapshot completedRun rows
        "rqCycle q" bonds "anIndexBlockHash anchor" "maximum_accounts E"] assms(1)
    by (auto simp: read_accounts_def stable_claims_def)
  moreover have "read_withdrawals E q registry anchor \<noteq> None" for registry anchor
    using assms(2) by (simp add: read_withdrawals_def stable_withdrawals_def withdrawals_loop_store)
  ultimately have "createLiveRewardRunFacts E q \<noteq> None"
    unfolding createLiveRewardRunFacts_def Let_def
    by (intro obindr_ends case_ends option.distinct) (assumption | simp)+
  then show ?thesis by blast
qed

definition selected_operations :: "prepare_request \<Rightarrow> operation set" where
  "selected_operations q = set (case rqOperations q of None \<Rightarrow> operationOrder | Some ops \<Rightarrow> ops)"

lemma selected_reads:
  "frCollect (factReadsForOperations (rqOperations q)) \<longleftrightarrow>
     ClaimRewards \<in> selected_operations q \<or> ClaimStakerRewards \<in> selected_operations q"
  "frAccounts (factReadsForOperations (rqOperations q)) \<longleftrightarrow> ClaimStakerRewards \<in> selected_operations q"
  "frWithdrawals (factReadsForOperations (rqOperations q)) \<longleftrightarrow>
     SettleAcceptedWithdrawal \<in> selected_operations q \<or> ReclaimFailedWithdrawal \<in> selected_operations q"
  by (simp_all add: Let_def factReadsForOperations_def selected_operations_def)

text \<open>
  C26: the sealed universe is complete for what the request selects. When the roster and the pending
  withdrawals do not change while they are paged through, then, if payments to stakers are selected, the
  facts count every claim with a gross entitlement that the manager's contract reports at the anchor for a
  staker of the reconciled roster, in any bucket of the cycle, and list the first of them up to the
  maximum with the amounts read at that anchor; if settling or reclaiming withdrawals is selected, they
  count every pending withdrawal the registry has accepted or rejected and list the first of them; if
  collecting or paying is selected, the amount to collect is what the manager is owed at that anchor. What
  is not selected is empty. \<open>operationsForKind\<close> gives the selections of the dashboard's actions; a request
  without a selection selects everything.
\<close>
theorem prepared_facts_complete:
  assumes "createLiveRewardRunFacts E q = Some (Inr f)"
    and "stable_claims E (rqCycle q) snapshot completedRun rows" "stable_withdrawals E W"
  shows "\<exists>anchor. captureNodeChainAnchor (feAnchor E) = Inr anchor \<and> ancIndexHash (dfAnchor f) = anIndexBlockHash anchor \<and>
     (if ClaimStakerRewards \<in> selected_operations q then
        (\<exists>bonds totalSats runId owed.
           managerCollectAtAnchor (feNode E) (feCodec E) (dfPox5 f) (feManager E) (int (rqCycle q)) (anIndexBlockHash anchor) =
             Inr (bonds, totalSats) \<and>
           completedRun = Some (runId, True) \<and>
           owed_claims (feNode E) (feCodec E) (feManager E) (int (rqCycle q)) (reconciled_roster runId rows) bonds
             (anIndexBlockHash anchor) = Inr owed \<and>
           dfEligibleAccounts f = length owed \<and>
           dfAccounts f = take (maximum_accounts E) (map (draft_of (int (rqCycle q))) owed))
      else dfEligibleAccounts f = 0 \<and> dfAccounts f = []) \<and>
     (if SettleAcceptedWithdrawal \<in> selected_operations q \<or> ReclaimFailedWithdrawal \<in> selected_operations q then
        (\<exists>states resolved.
           mapr (\<lambda>w. feRegistryStatus E (dfSbtcRegistry f) (pwRequestId w) (anIndexBlockHash anchor)) W = Inr states \<and>
           resolved = resolved_withdrawals (zip W states) \<and>
           dfEligibleAccepted f = length (in_state Accepted resolved) \<and>
           dfEligibleRejected f = length (in_state Rejected resolved) \<and>
           dfWithdrawals f = take (maximum_accounts E) resolved)
      else dfEligibleAccepted f = 0 \<and> dfEligibleRejected f = 0 \<and> dfWithdrawals f = []) \<and>
     (if ClaimRewards \<in> selected_operations q \<or> ClaimStakerRewards \<in> selected_operations q then
        (\<exists>bonds totalSats.
           managerCollectAtAnchor (feNode E) (feCodec E) (dfPox5 f) (feManager E) (int (rqCycle q)) (anIndexBlockHash anchor) =
             Inr (bonds, totalSats) \<and>
           dfCollectRequired f = (0 < totalSats) \<and>
           dfMaximumCollect f = (if 0 < totalSats then Some (nat totalSats) else None))
      else \<not> dfCollectRequired f \<and> dfMaximumCollect f = None)"
proof -
  obtain anchor bonds totalSats eligible accounts accepted rejected withdrawals where
    anchor: "captureNodeChainAnchor (feAnchor E) = Inr anchor" "ancIndexHash (dfAnchor f) = anIndexBlockHash anchor"
    and collect: "read_collect E q (dfPox5 f) anchor = Inr (bonds, totalSats)"
    and accounts: "read_accounts E q bonds anchor = Some (Inr (eligible, accounts))"
    and withdrawals: "read_withdrawals E q (dfSbtcRegistry f) anchor = Some (Inr (accepted, rejected, withdrawals))"
    and f: "dfEligibleAccounts f = eligible" "dfAccounts f = accounts" "dfEligibleAccepted f = accepted"
      "dfEligibleRejected f = rejected" "dfWithdrawals f = withdrawals" "dfCollectRequired f = (totalSats > 0)"
      "dfMaximumCollect f = (if totalSats > 0 then Some (nat totalSats) else None)"
    by (rule facts_elim [OF assms(1)]) (use that in simp)
  have pager: "feClaims E bonds anchor = (\<lambda>_ offset. stakerClaims (feNode E) (feCodec E) (feManager E) snapshot
      completedRun rows (Some offset) (Some 100) (Some (int (rqCycle q))) (Some bonds) (anIndexBlockHash anchor))"
    using assms(2) by (simp add: stable_claims_def)
  note reads = read_collect_def read_accounts_def read_withdrawals_def selected_reads
  show ?thesis
    using anchor collect accounts withdrawals stable_pager [OF pager, of "maximum_accounts E"] assms(3) unfolding f
    by (intro exI [of _ anchor] conjI)
      (auto simp: reads stable_withdrawals_def withdrawals_loop_store add_withdrawals split: if_splits)
qed

subsection \<open>Discovery and the driver\<close>

lemma dec_text_plain: "CHR ''-'' \<notin> set (dec_text n)" "CHR ''s'' \<notin> set (dec_text n)"
  using dec_text_digits [of n] by auto

lemma dec_text_head: "dec_text n \<noteq> CHR ''-'' # s" "dec_text n \<noteq> CHR ''s'' # s"
  using dec_text_plain [of n] by (metis list.set_intros(1))+

lemma int_text_inject [simp]: "int_text m = int_text n \<longleftrightarrow> m = n"
  using dec_text_head(1) [of "nat m"] dec_text_head(1) [of "nat n", symmetric]
  by (cases "m < 0"; cases "n < 0") (auto simp: int_text_def eq_nat_nat_iff)

lemma bucketKey_inject [simp]: "bucketKey a = bucketKey b \<longleftrightarrow> a = b"
proof -
  have stx: "int_text n \<noteq> ''stx''" "''stx'' \<noteq> int_text n" for n
    using dec_text_head(2) [of _ "''tx''"] dec_text_head(2) [of _ "''tx''", symmetric] by (simp_all add: int_text_def)
  show ?thesis
    using stx by (cases a; cases b) (simp_all add: bucketKey_def)
qed

lemma mapr_Inr_nth: "mapr f xs = Inr ys \<Longrightarrow> i < length xs \<Longrightarrow> f (xs ! i) = Inr (ys ! i)"
  by (induction xs arbitrary: ys i) (auto simp: nth_Cons split: nat.splits)

text \<open>A bucket counts as claimed exactly when the manager has a fee snapshot for it.\<close>

lemma read_claimed_buckets_elim:
  assumes "read_claimed_buckets N D manager cycle bonds tip = Inr (unclaimed, claimed)" "b \<in> set bonds"
  obtains v w bips where
    "callReadOnly N manager ''get-unclaimed-staker-rewards'' manager [] tip = Inr v" "decodeUInt D v = Inr unclaimed"
    "getMapEntry N manager ''fee-bips-for-cycle''
       [(''reward-cycle'', AUint cycle), (''bond-index'', optional_uint_arg b)] tip = Inr w"
    "decodeOptionalUInt D w = Inr bips" "bucketKey b \<in> set claimed \<longleftrightarrow> bips \<noteq> None"
proof -
  let ?snapshot = "\<lambda>bondIndex. getMapEntry N manager ''fee-bips-for-cycle''
    [(''reward-cycle'', AUint cycle), (''bond-index'', optional_uint_arg bondIndex)] tip"
  obtain v ws bs where v: "callReadOnly N manager ''get-unclaimed-staker-rewards'' manager [] tip = Inr v"
      "decodeUInt D v = Inr unclaimed"
    and ws: "mapr ?snapshot bonds = Inr ws" and bs: "mapr (decodeOptionalUInt D) ws = Inr bs"
    and claimed: "claimed = map (\<lambda>(b, _). bucketKey b) (filter (\<lambda>(_, bips). bips \<noteq> None) (zip bonds bs))"
    using assms(1) by (auto simp: read_claimed_buckets_def)
  note len = mapr_length [OF ws] mapr_length [OF bs]
  obtain i where i: "i < length bonds" "bonds ! i = b"
    using assms(2) by (auto simp: in_set_conv_nth)
  have read: "?snapshot (bonds ! j) = Inr (ws ! j)" "decodeOptionalUInt D (ws ! j) = Inr (bs ! j)"
    if "j < length bonds" for j
    using that mapr_Inr_nth [OF ws] mapr_Inr_nth [OF bs] len by simp_all
  have same: "bs ! j = bs ! i" if "j < length bonds" "bonds ! j = b" for j
    using read [OF that(1)] read [OF i(1)] that(2) i(2) by simp
  have "bucketKey b \<in> set claimed \<longleftrightarrow> (\<exists>j < length bonds. bonds ! j = b \<and> bs ! j \<noteq> None)"
  proof
    assume "bucketKey b \<in> set claimed"
    then obtain b' y where "(b', y) \<in> set (zip bonds bs)" "y \<noteq> None" "bucketKey b = bucketKey b'"
      by (auto simp only: claimed set_map set_filter prod.case mem_Collect_eq elim!: imageE)
    moreover from this obtain j where "j < length bonds" "bonds ! j = b'" "bs ! j = y"
      by (auto simp: set_zip)
    ultimately show "\<exists>j < length bonds. bonds ! j = b \<and> bs ! j \<noteq> None"
      unfolding bucketKey_inject by metis
  next
    assume "\<exists>j < length bonds. bonds ! j = b \<and> bs ! j \<noteq> None"
    then obtain j where "(b, bs ! j) \<in> set (zip bonds bs)" "bs ! j \<noteq> None"
      using len by (auto simp: set_zip)
    then have "(b, bs ! j) \<in> set (filter (\<lambda>(_, bips). bips \<noteq> None) (zip bonds bs))"
      by simp
    from imageI [OF this, of "\<lambda>(b, _). bucketKey b"] show "bucketKey b \<in> set claimed"
      unfolding claimed set_map by simp
  qed
  then have "bucketKey b \<in> set claimed \<longleftrightarrow> bs ! i \<noteq> None"
    using i same by metis
  from that [OF v read [OF i(1), unfolded i(2)] this] show ?thesis .
qed

lemma readStakerReward_elim:
  assumes "readStakerReward N D manager staker cycle bonds claimed unclaimed tip = Inr s" "c \<in> set (ssClaims s)"
  obtains v payout r where
    "callReadOnly N manager ''get-pox-addr'' manager [APrincipal staker] tip = Inr v"
    "decodePoxAddressPreference D v = Inr payout" "ssStaker s = staker" "ssMaxFee s = payout"
    "ssPayoutRoute s = (if payout \<noteq> None then BitcoinL1 else DirectSbtc)"
    "callReadOnly N manager ''get-earned-staker-rewards'' manager
       [APrincipal staker, AUint cycle, optional_uint_arg (clBondIndex c)] tip = Inr r"
    "decodeEarnedStakerRewards D r = Inr (clEarned c, clFee c)" "clGross c = clEarned c + clFee c"
    "clBlocked c = blockedReason payout (bucketKey (clBondIndex c) \<in> set claimed) unclaimed (clEarned c) (clGross c)"
    "clBondIndex c \<in> set bonds"
proof -
  let ?earned = "\<lambda>bondIndex. callReadOnly N manager ''get-earned-staker-rewards'' manager
    [APrincipal staker, AUint cycle, optional_uint_arg bondIndex] tip"
  obtain v payout rs where v: "callReadOnly N manager ''get-pox-addr'' manager [APrincipal staker] tip = Inr v"
      "decodePoxAddressPreference D v = Inr payout"
    and rs: "mapr ?earned bonds = Inr rs"
    and claims: "mapr (read_claim D payout claimed unclaimed) (zip bonds rs) = Inr (ssClaims s)"
    and s: "ssStaker s = staker" "ssMaxFee s = payout" "ssPayoutRoute s = (if payout \<noteq> None then BitcoinL1 else DirectSbtc)"
    using assms(1) by (auto simp: readStakerReward_def Let_def)
  note len = mapr_length [OF rs] mapr_length [OF claims]
  obtain i where i: "i < length bonds" "ssClaims s ! i = c"
    using assms(2) len by (auto simp: in_set_conv_nth)
  have "?earned (bonds ! i) = Inr (rs ! i)"
    using mapr_Inr_nth [OF rs i(1)] .
  moreover have "read_claim D payout claimed unclaimed (bonds ! i, rs ! i) = Inr c"
    using mapr_Inr_nth [OF claims, of i] i len by simp
  ultimately show ?thesis
    using that [OF v s, of "rs ! i"] i(1) by (auto simp: read_claim_def Let_def)
qed

text \<open>
  C28: what discovery says of a claim is what the driver does with it. Take a claim discovery reports at
  an anchor and the payment account sealed from it. Materializing that payment at the same anchor
  plans exactly the discovered amounts when the claim is reported claimable, and otherwise ends in the
  outcome of the reported reason: skipped as already paid, halted as not yet collected by the manager,
  or skipped by policy because a Bitcoin payout is too small; provided the manager's read-only
  functions answer the same whoever asks.
\<close>
theorem discovery_agrees_with_driver:
  assumes "read_claimed_buckets (deNode E) (deCodec E) (rpManager R) cycle bonds (anIndexBlockHash anchor) =
      Inr (unclaimed, claimed)"
    and "readStakerReward (deNode E) (deCodec E) (rpManager R) staker cycle bonds claimed unclaimed
      (anIndexBlockHash anchor) = Inr s"
    and "k \<in> set (staker_candidates s)" "0 \<le> cycle" "\<And>b. Some b \<in> set bonds \<Longrightarrow> 0 \<le> b"
    and "find (\<lambda>b. Some (abKey b) = rcAccountKey rc) (rpAccounts R) = Some bound" "abAccount bound = draft_of cycle k"
    and "rcStaker rc = Some staker" "staker \<noteq> []" "rcAccountKey rc \<noteq> None"
    and "\<And>f args. callReadOnly (deNode E) (rpManager R) f wallet args (anIndexBlockHash anchor) =
      callReadOnly (deNode E) (rpManager R) f (rpManager R) args (anIndexBlockHash anchor)"
  shows "claim_staker_input E R rc wallet anchor = (case caBlocked k of
       None \<Rightarrow> goes_on (IClaimStaker (rpManager R) (rpSbtcToken R) staker cycle (caBondIndex k) (caRoute k) (caGross k)
         (caFee k) (caEarned k), Some (nat (caGross k)))
     | Some NothingSettled \<Rightarrow> stops (another_caller ''Another caller paid this reward account'')
     | Some ManagerHasNotClaimed \<Rightarrow> stops (MatHalt ''The manager fee is not locked for this reward account'')
     | Some _ \<Rightarrow> stops (MatSkip ''Bitcoin payout is below its configured fee budget'' PolicyException))"
proof -
  obtain c where c: "c \<in> set (ssClaims s)" and k: "k = \<lparr>caStaker = ssStaker s, caBondIndex = clBondIndex c,
     caRoute = ssPayoutRoute s, caMaxFee = ssMaxFee s, caEarned = clEarned c, caFee = clFee c,
     caGross = clGross c, caClaimable = clClaimable c, caBlocked = clBlocked c\<rparr>"
    using assms(3) by (auto simp: staker_candidates_def)
  obtain v payout r where pay: "callReadOnly (deNode E) (rpManager R) ''get-pox-addr'' (rpManager R) [APrincipal staker]
      (anIndexBlockHash anchor) = Inr v" "decodePoxAddressPreference (deCodec E) v = Inr payout"
    and s: "ssStaker s = staker" "ssMaxFee s = payout" "ssPayoutRoute s = (if payout \<noteq> None then BitcoinL1 else DirectSbtc)"
    and earned: "callReadOnly (deNode E) (rpManager R) ''get-earned-staker-rewards'' (rpManager R)
       [APrincipal staker, AUint cycle, optional_uint_arg (clBondIndex c)] (anIndexBlockHash anchor) = Inr r"
      "decodeEarnedStakerRewards (deCodec E) r = Inr (clEarned c, clFee c)" "clGross c = clEarned c + clFee c"
    and blocked: "clBlocked c = blockedReason payout (bucketKey (clBondIndex c) \<in> set claimed) unclaimed (clEarned c) (clGross c)"
    and bond: "clBondIndex c \<in> set bonds"
    by (rule readStakerReward_elim [OF assms(2) c]) (rule that)
  obtain u w bips where bucket: "callReadOnly (deNode E) (rpManager R) ''get-unclaimed-staker-rewards'' (rpManager R) []
      (anIndexBlockHash anchor) = Inr u" "decodeUInt (deCodec E) u = Inr unclaimed"
    "getMapEntry (deNode E) (rpManager R) ''fee-bips-for-cycle''
       [(''reward-cycle'', AUint cycle), (''bond-index'', optional_uint_arg (clBondIndex c))] (anIndexBlockHash anchor) = Inr w"
    "decodeOptionalUInt (deCodec E) w = Inr bips" "bucketKey (clBondIndex c) \<in> set claimed \<longleftrightarrow> bips \<noteq> None"
    by (rule read_claimed_buckets_elim [OF assms(1) bond]) (rule that)
  have account: "daStaker (abAccount bound) = staker" "int (daCycle (abAccount bound)) = cycle"
    "map_option int (daBond (abAccount bound)) = clBondIndex c" "daRoute (abAccount bound) = ssPayoutRoute s"
    "clGross c \<le> int (daMaxGross (abAccount bound))"
    using assms(4,5,7) bond s(1) by (auto simp: k draft_of_def option.map_comp comp_def intro: option.map_ident_strong)
  obtain key where key: "rcAccountKey rc = Some key"
    using assms(10) by blast
  show ?thesis
    using key assms(6) [unfolded key] assms(8,9) account pay s earned bucket
    by (simp add: claim_staker_input_def Let_def assms(11) k blocked blockedReason_def sbtcWithdrawalDustLimit_def
        SBTC_WITHDRAWAL_DUST_LIMIT_def stops_def goes_on_def split: option.splits)
qed

end
