(* ===== verification/Driver_Demo.thy ===== *)
theory Driver_Demo
  imports Run_Facts Demo_Trace
begin

text \<open>
  The driver on a concrete run: one payment is materialized from the answers of a node, and its
  transaction is confirmed by the node's index.
\<close>

definition driver_try :: "nat \<Rightarrow> node_attempt" where
  "driver_try n =
     (let info = \<lparr>niBurnBlockHeight = 1230, niStacksTipHeight = 150, niStacksTip = None\<rparr>;
          tenure = \<lparr>tiTipHeight = 150, tiTipBlockId = ''0x'' @ replicate 64 CHR ''A'', tiRewardCycle = 6\<rparr> in
      \<lparr>naInfo = Inr info, naTenure = Inr tenure,
       naPox = (\<lambda>_. Inr \<lparr>pxCurrentBurnchainBlockHeight = 1230, pxRewardCycleId = 6, pxRewardCycleLength = 200,
         pxPrepareCycleLength = 10, pxNextCycle = Some (7, 1400)\<rparr>),
       naInfoAfter = Inr info, naTenureAfter = Inr tenure\<rparr>)"

definition driver_anchor :: chain_anchor where
  "driver_anchor = demo_anchor\<lparr>anStacksBlockHeight := 150\<rparr>"

lemma driver_captured: "captureNodeChainAnchor driver_try = Inr driver_anchor"
proof -
  have first: "capture_node (driver_try 1) = Inr driver_anchor"
    by code_simp
  show ?thesis
    unfolding captureNodeChainAnchor_def retryChainAnchorCapture_eq first by (simp add: settles_def)
qed

definition driver_wallet :: plan_sender where
  "driver_wallet = \<lparr>senderPrincipal = ''SPW'', senderPublicKey = ''02'' @ replicate 64 (CHR ''0'')\<rparr>"

text \<open>The manager owes 480 sats after a fee of 20, and holds 1000; the wallet has 9000 microstacks.\<close>

definition driver_demo :: "unit driver_env" where
  "driver_demo = \<lparr>deContext = Inr (), deBlocks = demo_node [1] [1] \<lparr>getTenureInfo := Inr (150, ''tip'')\<rparr>,
     deAnchor = driver_try,
     deNode = \<lparr>callReadOnly = (\<lambda>_ _ _ _ _. Inr ()), getMapEntry = (\<lambda>_ _ _ _. Inr ())\<rparr>,
     deCodec = \<lparr>decodeUInt = (\<lambda>_. Inr 1000), decodeBoolean = (\<lambda>_. Inr True),
       decodeOptionalUInt = (\<lambda>_. Inr (Some 400)), decodeOptionalPrincipal = (\<lambda>_. Inr None),
       decodePox5ProtocolBond = (\<lambda>_. Inr None), decodeEarnedStakerRewards = (\<lambda>_. Inr (480, 20)),
       decodePoxAddressPreference = (\<lambda>_. Inr None)\<rparr>,
     deWallet = Some driver_wallet,
     deAccount = (\<lambda>_ _. Inr (AccountSeen 9000 5)),
     deEstimate = (\<lambda>_. Some (FeeObserved 2500)),
     dePolicyDraft = \<lparr>fpMinimum = 200, fpStandard = 2800, fpMaximum = 3000\<rparr>,
     dePolicy = \<lparr>fpMinimum = 200, fpStandard = 2800, fpMaximum = 3000\<rparr>,
     deFirstRewardCycle = Inr None, deWithdrawalStatus = (\<lambda>_ _ _. Inr RegistryAccepted)\<rparr>"

definition driver_request :: op_request where
  "driver_request = IClaimStaker ''SPM.manager'' ''SPB.sbtc-token'' ''SPA'' 7 None DirectSbtc 500 20 480"

definition driver_call :: contract_call where
  "driver_call = \<lparr>ccContract = ''SPM.manager'', ccFunction = ''claim-staker-rewards'',
     ccArgs = [APrincipal ''SPA'', AUint 7, ANone],
     ccPostConditions = [will_send_eq ''SPM.manager'' 480 ''SPB.sbtc-token''], ccMaterial = demo_material\<rparr>"

definition driver_common :: "int \<Rightarrow> op_common" where
  "driver_common fee = common_input (demo_started demo_waiting) driver_anchor
     driver_wallet 5 fee"

definition driver_plan :: "int \<Rightarrow> plan" where
  "driver_plan fee = \<lparr>planSha256 = replicate 64 (CHR ''a''), unsignedTransactionHex = ''00'',
     unsignedTransactionSha256 = replicate 64 (CHR ''b''),
     planMaterial = plan_material (driver_common fee) driver_request driver_call (replicate 64 (CHR ''b''))\<rparr>"

lemma driver_plan_built:
  assumes "0 \<le> fee" shows "planRewardOperation sample_lib (driver_common fee) driver_request = Inr (driver_plan fee)"
proof -
  have common: "assertCommon sample_lib (driver_common fee) = Inr ()"
    using assms
    by (simp add: assertCommon_def driver_wallet_def driver_common_def common_input_def authorizationSchema_def networkSchema_def
        anchorSchema_def driver_anchor_def demo_anchor_def demo_run_def demo_recipe_def indexBlockHashSchema_def senderSchema_def
        standardPrincipalSchema_def validatePrincipal_def publicKeySchema_def)
  have call: "contractCall driver_request = Inr driver_call"
    by (simp add: driver_request_def driver_call_def demo_material_def)
  have schema: "operationMaterialSchema sample_lib
      (plan_material (driver_common fee) driver_request driver_call (replicate 64 (CHR ''b'')))"
    using assms
    by (simp add: operationMaterialSchema_def driver_wallet_def plan_material_def driver_call_def driver_common_def driver_request_def
        common_input_def request_kind_def authorizationSchema_def networkSchema_def
        anchorSchema_def driver_anchor_def demo_anchor_def demo_run_def demo_recipe_def indexBlockHashSchema_def
        senderSchema_def standardPrincipalSchema_def validatePrincipal_def publicKeySchema_def uintText_def
        contractPrincipalSchema_def effectSchema_def sbtc_transfer_def demo_material_def demo_id_def demo_sha_def)
  have plan: "rewardOperationPlanSchema sample_lib (driver_plan fee)"
    using schema by (simp add: rewardOperationPlanSchema_def driver_plan_def)
  have net: "netKind (inNetwork (driver_common fee)) = Mainnet"
    by (simp add: driver_common_def common_input_def demo_run_def demo_recipe_def)
  have parts: "parseContractPrincipal (validateStacksAddress sample_lib) (ccContract driver_call) =
      Inr \<lparr>address = ''SPM'', contractName = ''manager'', partsNetwork = Mainnet\<rparr>"
    by (simp only: driver_call_def contract_call.simps sample_contracts)
  show ?thesis
    unfolding planRewardOperation_def Let_def common call parts bindr_Inr net sample_sel
      contract_parts.simps sample_digest guardr_def
    by (simp only: schema plan [unfolded driver_plan_def] driver_plan_def sample_sel simp_thms if_True bindr_Inr)
qed

lemma driver_materialized:
  "materialize sample_lib driver_demo (demo_started demo_waiting) 0 ClaimStakerRewards =
     Inr (MatPlan (driver_plan 2500) (Some 500))"
proof -
  have node: "checkCanonicalNodeBlock (deBlocks driver_demo) 100 h = Inr CanonicalBlock" for h
    by (simp add: checkCanonicalNodeBlock_def canonicalBlockBytes_def driver_demo_def demo_node_def sameBytes_def)
  have fee: "fsFee (selectTransactionFee (Some (FeeObserved 2500)) \<lparr>fpMinimum = 200, fpStandard = 2800, fpMaximum = 3000\<rparr>) = 2500"
    by (simp add: selectTransactionFee_def)
  have input: "plan_input driver_demo demo_recipe (hd (rpChildren demo_recipe)) ClaimStakerRewards ''SPW'' driver_anchor =
      Inr (Inr (driver_request, Some 500))"
    by (simp add: plan_input_def claim_staker_input_def driver_demo_def demo_recipe_def sample_account_def
        goes_on_def driver_request_def Let_def)
  have common: "common_input (demo_started demo_waiting) driver_anchor
     driver_wallet 5 f = driver_common f"
     "plan_result (Inr p :: plan_error + plan) = Inr p"
     "(driver_common f)\<lparr>inFeeUstx := g\<rparr> = driver_common g" for f g and p :: plan
    by (simp_all add: driver_common_def common_input_def)
  have run: "rnRecipe (demo_started demo_waiting) = demo_recipe" "rnWallet (demo_started demo_waiting) = ''SPW''" "senderPrincipal driver_wallet = ''SPW''"
     "rpAnchor demo_recipe = sample_anchor" "ancStacksHeight sample_anchor = 100"
     "at_index (rpChildren demo_recipe) 0 = Some (hd (rpChildren demo_recipe))"
    by (simp_all add: demo_run_def demo_recipe_def sample_anchor_def at_index_def driver_wallet_def)
  have env: "deContext driver_demo = Inr ()" "deAnchor driver_demo = driver_try"
     "deWallet driver_demo = Some driver_wallet"
     "deAccount driver_demo w h = Inr (AccountSeen 9000 5)" "deEstimate driver_demo x = Some (FeeObserved 2500)"
     "dePolicyDraft driver_demo = \<lparr>fpMinimum = 200, fpStandard = 2800, fpMaximum = 3000\<rparr>"
     "dePolicy driver_demo = \<lparr>fpMinimum = 200, fpStandard = 2800, fpMaximum = 3000\<rparr>" for w h x
    by (simp_all add: driver_demo_def)
  show ?thesis
    unfolding materialize_def Let_def run env
    by (simp add: node driver_captured then_verdict_def observed_balance_def goes_on_def input common
        driver_plan_built fee run(3) del: plan_result_Inr)
qed

theorem driver_plans_accepted_witness:
  "materialize sample_lib driver_demo (demo_started demo_waiting) 0 (chOperation demo_waiting) =
     Inr (MatPlan (driver_plan 2500) (Some 500)) \<and>
   assertPlan (demo_started demo_waiting) 0 demo_waiting (driver_plan 2500) (Some 500) = Inr ()"
proof -
  have built: "buildRewardRunRecipe sample_lib demo_id demo_facts demo_request 3000 200 =
      Inr (rnRecipe (demo_started demo_waiting))"
    by (simp add: demo_built demo_run_def)
  have none: "dwMaxAmount w = dwAmount w + dwMaxFee w" if "w \<in> set (dfWithdrawals demo_facts)" for w
    using that by (simp add: demo_facts_def)
  have kind: "map_option rcOperation (at_index (rpChildren (rnRecipe (demo_started demo_waiting))) 0) =
      Some (chOperation demo_waiting)"
    by (simp add: demo_run_def demo_recipe_def demo_child_def at_index_def)
  have mat: "materialize sample_lib driver_demo (demo_started demo_waiting) 0 (chOperation demo_waiting) =
      Inr (MatPlan (driver_plan 2500) (Some 500))"
    using driver_materialized by (simp add: demo_child_def)
  from driver_plans_accepted [OF built none kind mat]
  have "assertPlan (demo_started demo_waiting) 0 demo_waiting (driver_plan 2500) (Some 500) = Inr ()"
    by (simp add: driver_plan_def plan_material_def driver_common_def common_input_def demo_run_def
        demo_recipe_def sample_anchor_def driver_anchor_def demo_anchor_def demo_child_def)
  with mat show ?thesis by simp
qed




definition driver_material :: material where
  "driver_material = plan_material (driver_common 2500) driver_request driver_call (replicate 64 (CHR ''b''))"




subsection \<open>Preparing facts\<close>

text \<open>Two stakers of a reconciled roster are owed 500 sats each in the STX bucket; of two pending withdrawals one is accepted.\<close>

definition demo_roster :: "roster_row list" where
  "demo_roster = map (\<lambda>s. \<lparr>rrStaker = s, rrLastSeenRun = ''sync'', rrBond = False, rrPosition = True,
     rrStxNodeVerified = None\<rparr>) [''SPA'', ''SPB'']"

definition demo_pending :: "pending_withdrawal list" where
  "demo_pending = [\<lparr>pwRequestId = 3, pwStaker = ''SPA'', pwAmount = 700, pwMaxFee = 80\<rparr>,
     \<lparr>pwRequestId = 4, pwStaker = ''SPB'', pwAmount = 900, pwMaxFee = 80\<rparr>]"

definition demo_facts_env :: "unit facts_env" where
  "demo_facts_env = \<lparr>feObservation = Inr \<lparr>suPox5 = Some ''SP0.pox-5'', suSbtcToken = Some ''SPB.sbtc-token'',
       suSbtcRegistry = Some ''SPB.sbtc-registry'', suPox5Source = Some ''p'', suManagerSource = Some ''m'',
       suCapability = \<lparr>ccExecutionAvailable = True, ccReviewedSource = Some ''m''\<rparr>,
       suFirstRewardCycle = None, suMainnet = True, suNetworkId = 1\<rparr>,
     feWallet = Some ''SPW'', feManager = ''SPM.manager'', feContext = Inr (), feAnchor = driver_try,
     feNode = deNode driver_demo, feCodec = deCodec driver_demo,
     feClaims = (\<lambda>bonds anchor _ offset. stakerClaims (deNode driver_demo) (deCodec driver_demo) ''SPM.manager''
       (Inr None) (Some (''sync'', True)) demo_roster (Some offset) (Some 100) (Some 5) (Some bonds)
       (anIndexBlockHash anchor)),
     feWithdrawals = (\<lambda>_ offset. Inr \<lparr>wpItems = take 200 (drop offset demo_pending), wpTotal = length demo_pending\<rparr>),
     feRegistryStatus = (\<lambda>_ n _. Inr (if n = 3 then RegistryAccepted else RegistryOther ''pending'')),
     feMaximumAccounts = Some 1\<rparr>"

definition demo_all_request :: prepare_request where
  "demo_all_request = \<lparr>rqRequestId = None, rqCycle = 5, rqDistribution = Dist2, rqOperations = None,
     rqMaxTransactions = None\<rparr>"

lemma demo_facts_stable:
  "stable_claims demo_facts_env (rqCycle demo_all_request) (Inr None) (Some (''sync'', True)) demo_roster"
  "stable_withdrawals demo_facts_env demo_pending"
  by (simp_all add: stable_claims_def stable_withdrawals_def demo_facts_env_def demo_all_request_def)

theorem preparation_ends_witness: "\<exists>r. createLiveRewardRunFacts demo_facts_env demo_all_request = Some r"
  by (rule preparation_ends [OF demo_facts_stable])

text \<open>The same request without a selection, for a distribution of payments, and to finish Bitcoin payouts.\<close>

definition demo_selecting :: "reward_run_kind \<Rightarrow> prepare_request" where
  "demo_selecting kind = demo_all_request\<lparr>rqOperations := Some (operationsForKind kind)\<rparr>"

lemma demo_selecting_stable:
  "stable_claims demo_facts_env (rqCycle (demo_selecting kind)) (Inr None) (Some (''sync'', True)) demo_roster"
  "rqCycle (demo_selecting kind) = 5"
  "selected_operations (demo_selecting kind) = set (operationsForKind kind)"
  using demo_facts_stable(1) by (simp_all add: demo_selecting_def demo_all_request_def selected_operations_def)

theorem prepared_facts_complete_witness:
  "\<exists>f g. createLiveRewardRunFacts demo_facts_env demo_all_request = Some (Inr f) \<and>
     dfEligibleAccounts f = 2 \<and> map dwRequestId (dfWithdrawals f) = [3] \<and>
     createLiveRewardRunFacts demo_facts_env (demo_selecting Distribute) = Some (Inr g) \<and>
     map daStaker (dfAccounts g) = [''SPA''] \<and> dfWithdrawals g = [] \<and>
     (\<exists>anchor owed. captureNodeChainAnchor driver_try = Inr anchor \<and>
        owed_claims (deNode driver_demo) (deCodec driver_demo) ''SPM.manager'' 5 [''SPA'', ''SPB''] []
          (anIndexBlockHash anchor) = Inr owed \<and> length owed = 2 \<and> dfAccounts g = take 1 (map (draft_of 5) owed))"
proof -
  have "case createLiveRewardRunFacts demo_facts_env demo_all_request of
      Some (Inr f) \<Rightarrow> dfEligibleAccounts f = 2 \<and> map dwRequestId (dfWithdrawals f) = [3] | _ \<Rightarrow> False"
    by code_simp
  then obtain f where f: "createLiveRewardRunFacts demo_facts_env demo_all_request = Some (Inr f)"
    "dfEligibleAccounts f = 2" "map dwRequestId (dfWithdrawals f) = [3]"
    by (auto split: option.splits sum.splits)
  have "case createLiveRewardRunFacts demo_facts_env (demo_selecting Distribute) of
      Some (Inr g) \<Rightarrow> dfEligibleAccounts g = 2 \<and> map daStaker (dfAccounts g) = [''SPA''] \<and> dfPox5 g = ''SP0.pox-5''
    | _ \<Rightarrow> False"
    by code_simp
  then obtain g where g: "createLiveRewardRunFacts demo_facts_env (demo_selecting Distribute) = Some (Inr g)"
    "dfEligibleAccounts g = 2" "map daStaker (dfAccounts g) = [''SPA'']" "dfPox5 g = ''SP0.pox-5''"
    by (auto split: option.splits sum.splits)
  have env: "feAnchor demo_facts_env = driver_try" "feNode demo_facts_env = deNode driver_demo"
    "feCodec demo_facts_env = deCodec driver_demo" "feManager demo_facts_env = ''SPM.manager''"
    "maximum_accounts demo_facts_env = 1"
    by (simp_all add: demo_facts_env_def maximum_accounts_def)
  have roster: "reconciled_roster ''sync'' demo_roster = [''SPA'', ''SPB'']"
    by (simp add: reconciled_roster_def demo_roster_def)
  have none: "b = []" if "managerCollectAtAnchor (deNode driver_demo) (deCodec driver_demo) ''SP0.pox-5'' ''SPM.manager'' 5 h =
      Inr (b, t)" for b t h
  proof -
    have "bondPeriodsForRewardCycle 5 1000 = Inr []"
      by code_simp
    then show ?thesis
      using that by (auto simp: managerCollectAtAnchor_def driver_demo_def)
  qed
  have ops: "ClaimStakerRewards \<in> selected_operations (demo_selecting Distribute)"
    "SettleAcceptedWithdrawal \<notin> selected_operations (demo_selecting Distribute)"
    "ReclaimFailedWithdrawal \<notin> selected_operations (demo_selecting Distribute)"
    by (simp_all add: demo_selecting_stable)
  from prepared_facts_complete [OF g(1) demo_selecting_stable(1) demo_facts_stable(2)] ops
  obtain anchor bonds totalSats runId owed where owed: "captureNodeChainAnchor driver_try = Inr anchor"
    "managerCollectAtAnchor (deNode driver_demo) (deCodec driver_demo) ''SP0.pox-5'' ''SPM.manager'' (int 5)
       (anIndexBlockHash anchor) = Inr (bonds, totalSats)" "Some (''sync'', True) = Some (runId, True)"
    "owed_claims (deNode driver_demo) (deCodec driver_demo) ''SPM.manager'' (int 5) (reconciled_roster runId demo_roster) bonds
       (anIndexBlockHash anchor) = Inr owed" "dfEligibleAccounts g = length owed"
    "dfAccounts g = take 1 (map (draft_of (int 5)) owed)" and rest: "dfWithdrawals g = []"
    unfolding env g(4) demo_selecting_stable(2) by auto
  moreover have "runId = ''sync''" "bonds = []"
    using owed(3) none [OF owed(2) [unfolded of_nat_numeral]] by simp_all
  ultimately show ?thesis
    using f g(1-3) by (simp add: roster)
qed

text \<open>The claim of the demonstrated payment, as discovery reports it.\<close>

definition driver_status :: staker_status where
  "driver_status = \<lparr>ssStaker = ''SPA'', ssRewardCycle = 7, ssPayoutRoute = DirectSbtc, ssMaxFee = None,
     ssEarned = 480, ssFees = 20, ssGross = 500, ssClaimableByPolicy = True,
     ssClaims = [\<lparr>clBondIndex = None, clEarned = 480, clFee = 20, clGross = 500, clClaimable = True, clBlocked = None\<rparr>]\<rparr>"

theorem discovery_agrees_with_driver_witness:
  "\<exists>k \<in> set (staker_candidates driver_status). caClaimable k \<and>
     claim_staker_input driver_demo demo_recipe (hd (rpChildren demo_recipe)) ''SPW'' driver_anchor =
       goes_on (IClaimStaker ''SPM.manager'' ''SPB.sbtc-token'' ''SPA'' 7 None DirectSbtc 500 20 480, Some 500)"
proof -
  have buckets: "read_claimed_buckets (deNode driver_demo) (deCodec driver_demo) (rpManager demo_recipe) 7 [None] h =
      Inr (1000, [''stx''])" for h
    by (simp add: read_claimed_buckets_def driver_demo_def bucketKey_def)
  have status: "readStakerReward (deNode driver_demo) (deCodec driver_demo) (rpManager demo_recipe) ''SPA'' 7 [None] [''stx''] 1000 h =
      Inr driver_status" for h
    by (simp add: readStakerReward_def driver_demo_def read_claim_def blockedReason_def bucketKey_def driver_status_def)
  let ?k = "hd (staker_candidates driver_status)"
  have k: "?k \<in> set (staker_candidates driver_status)" "caClaimable ?k" "caBlocked ?k = None"
    by (simp_all add: staker_candidates_def driver_status_def)
  have found: "find (\<lambda>b. Some (abKey b) = rcAccountKey (hd (rpChildren demo_recipe))) (rpAccounts demo_recipe) =
      Some (hd (rpAccounts demo_recipe))"
    by (simp add: demo_recipe_def)
  have same: "abAccount (hd (rpAccounts demo_recipe)) = draft_of 7 ?k"
    by (simp add: demo_recipe_def sample_account_def draft_of_def staker_candidates_def driver_status_def)
  have child: "rcStaker (hd (rpChildren demo_recipe)) = Some ''SPA''" "rcAccountKey (hd (rpChildren demo_recipe)) \<noteq> None"
    by (simp_all add: demo_recipe_def)
  have answers: "callReadOnly (deNode driver_demo) c f w args t = callReadOnly (deNode driver_demo) c f w2 args t" for c f w w2 args t
    by (simp add: driver_demo_def)
  have "claim_staker_input driver_demo demo_recipe (hd (rpChildren demo_recipe)) ''SPW'' driver_anchor =
       goes_on (IClaimStaker (rpManager demo_recipe) (rpSbtcToken demo_recipe) ''SPA'' 7 (caBondIndex ?k) (caRoute ?k)
         (caGross ?k) (caFee ?k) (caEarned ?k), Some (nat (caGross ?k)))"
    using discovery_agrees_with_driver [where anchor = driver_anchor and wallet = "''SPW''", OF buckets status k(1) _ _ found
        same child(1) _ child(2)] k(3) answers [of "rpManager demo_recipe" _ "''SPW''" _ _ "rpManager demo_recipe"] by simp
  with k(1,2) show ?thesis
    by (intro bexI [of _ ?k]) (simp_all add: staker_candidates_def driver_status_def demo_recipe_def)
qed

end
