(* ===== verification/Intent_Store.thy ===== *)
theory Intent_Store
  imports Broadcaster
begin

text \<open>
  Durable browser-wallet intents (storage/wallet-intent-repository.ts over the tables of
  storage/migrations.ts): what an operator asked a browser wallet to sign, the transaction the wallet
  answered with, and what was later observed of it.

  The two tables are row lists in insertion order. A manifest or evidence column holds the canonical
  text of a JSON value; the model keeps the value, and compares, measures and hashes its text. Every
  public method runs in one \<open>BEGIN IMMEDIATE\<close> transaction (\<open>immediate\<close>): what it throws undoes its
  writes. The statements check the constraints of both tables as SQLite does (\<open>intent_checks\<close>,
  \<open>intents_unique\<close>, \<open>intent_frozen\<close>; \<open>observation_checks\<close>, the primary and the foreign key). Keys are sorted by code unit, the order of \<open>string\<close>; instants
  are milliseconds, whose order is that of the stored ISO texts.
\<close>

datatype intent_action =
  RegisterSelf | AddAdmin | RemoveAdmin | UpdateFees | WithdrawFees | SweepFeeRefunds
  | ClaimRewardsAction | ClaimStakerRewardsAction | CalculateRewardsAction

datatype intent_state =
  IPrepared | ISubmitted | IMempool | IConfirmed | IComplete | IExpired | ISuperseded | IFailed
  | IReobserve

datatype wallet_network = NetMainnet | NetTestnet | NetDevnet | NetRegtest

datatype intent_error_code =
  WiNotFound | WiAlreadySubmitted | WiDuplicateTxid | WiActiveConflict | WiStateConflict
  | WiManifestMismatch | WiObservationConflict | WiEvidenceRejected

datatype wallet_error_code =
  IntentNotFound | IntentInvalid | IntentConflict | TransactionMismatch

text \<open>Errors of the repository, and of the service over it (\<open>WiService\<close>).\<close>

datatype intent_error =
    WiError intent_error_code
  | WiService wallet_error_code
  | WiZod
  | WiTypeError
  | WiPersisted
  | WiConstraint string

record intent =
  wiId :: string
  wiAction :: intent_action
  wiScope :: string
  wiFactsSha :: string
  wiManifestSha :: string
  wiManifest :: json
  wiSender :: principal
  wiNetwork :: wallet_network
  wiChainId :: int
  wiState :: intent_state
  wiVersion :: nat
  wiTxid :: "txid option"
  wiCreated :: instant
  wiExpires :: instant
  wiSubmitted :: "instant option"
  wiUpdated :: instant

record observation =
  woId :: string
  woIntent :: string
  woOutcome :: string
  woCanonical :: "bool option"
  woHeight :: "nat option"
  woIndexHash :: "string option"
  woEvidence :: json
  woObserved :: instant

record intent_store =
  isRows :: "intent list"
  isObs :: "observation list"

type_synonym 'a intent_op = "(intent_store, intent_error, 'a) eng"

definition immediate :: "('s, 'e, 'a) eng \<Rightarrow> ('s, 'e, 'a) eng" where
  "immediate m s = (case m s of (Inl e, t) \<Rightarrow> (Inl e, s) | (Inr a, t) \<Rightarrow> (Inr a, t))"

subsection \<open>Documents\<close>

fun json_deep :: "nat \<Rightarrow> json \<Rightarrow> bool" where
  "json_deep d (JArr vs) \<longleftrightarrow> 50 < d \<or> list_ex (json_deep (Suc d)) vs"
| "json_deep d (JObj kvs) \<longleftrightarrow> 50 < d \<or> list_ex (\<lambda>(k, v). json_deep (Suc d) v) kvs"
| "json_deep d v \<longleftrightarrow> 50 < d"

definition documentText :: "json \<Rightarrow> string" where
  "documentText v = canonicalJson (\<le>) v"

definition utf8_length :: "string \<Rightarrow> nat" where
  "utf8_length s = sum_list (map (\<lambda>c. if of_char c < (128 :: nat) then 1 else 2) s)"

definition canonicalDocument :: "json \<Rightarrow> nat \<Rightarrow> intent_error + string" where
  "canonicalDocument v maximumBytes = (case v of
       JObj kvs \<Rightarrow>
         if json_deep 0 v then Inl WiTypeError
         else if maximumBytes < utf8_length (documentText v) then Inl WiTypeError
         else Inr (documentText v)
     | _ \<Rightarrow> Inl WiTypeError)"

definition canonicalJsonSha256 :: "tx_lib \<Rightarrow> json \<Rightarrow> intent_error + string" where
  "canonicalJsonSha256 L v =
     (if json_deep 0 v then Inl WiTypeError else Inr (sha256Text L (documentText v)))"

definition raw_hex :: "string \<Rightarrow> bool" where
  "raw_hex s = (let body = (if take 2 (to_lower s) = ''0x'' then drop 2 s else s) in
     256 \<le> length body \<and> list_all is_hex_lower (to_lower body))"

definition raw_key :: "string \<Rightarrow> bool" where
  "raw_key k \<longleftrightarrow> to_lower k \<in> {''rawtransaction'', ''rawtx'', ''signedtransaction'', ''signedtx'',
     ''transactionhex'', ''txhex''}"

fun raw_evidence :: "nat \<Rightarrow> json \<Rightarrow> bool" where
  "raw_evidence d (JStr s) \<longleftrightarrow> 50 < d \<or> raw_hex s"
| "raw_evidence d (JArr vs) \<longleftrightarrow> 50 < d \<or> list_ex (raw_evidence (Suc d)) vs"
| "raw_evidence d (JObj kvs) \<longleftrightarrow>
     50 < d \<or> list_ex (\<lambda>(k, v). raw_key k \<or> raw_evidence (Suc d) v) kvs"
| "raw_evidence d v \<longleftrightarrow> 50 < d"

definition assertNoRawTransactionEvidence :: "json \<Rightarrow> intent_error + unit" where
  "assertNoRawTransactionEvidence v = guardr (\<not> raw_evidence 0 v) (WiError WiEvidenceRejected)"

subsection \<open>Rows\<close>

definition identifierSchema :: "string \<Rightarrow> bool" where
  "identifierSchema s \<longleftrightarrow> 1 \<le> length s \<and> length s \<le> 500"

definition principalSchema :: "tx_lib \<Rightarrow> principal \<Rightarrow> bool" where
  "principalSchema L p \<longleftrightarrow> length p \<le> 500 \<and> validatePrincipal (validateStacksAddress L) p"

text \<open>\<open>[a-z0-9]+(-[a-z0-9]+)*\<close>: words of lower-case letters and digits joined by single hyphens.\<close>

definition is_outcome_char :: "char \<Rightarrow> bool" where
  "is_outcome_char c \<longleftrightarrow> is_digit c \<or> (CHR ''a'' \<le> c \<and> c \<le> CHR ''z'')"

fun outcome_words :: "string \<Rightarrow> bool" where
  "outcome_words [] \<longleftrightarrow> False"
| "outcome_words [c] \<longleftrightarrow> is_outcome_char c"
| "outcome_words (c # d # s) \<longleftrightarrow> is_outcome_char c \<and>
     (if d = CHR ''-'' then outcome_words s else outcome_words (d # s))"

definition outcomeSchema :: "string \<Rightarrow> bool" where
  "outcomeSchema s \<longleftrightarrow> 1 \<le> length s \<and> length s \<le> 100 \<and> outcome_words s"

definition walletIntentRowSchema :: "tx_lib \<Rightarrow> intent \<Rightarrow> bool" where
  "walletIntentRowSchema L r \<longleftrightarrow> isUuid L (wiId r) \<and> identifierSchema (wiScope r) \<and>
     hashSchema (wiFactsSha r) \<and> hashSchema (wiManifestSha r) \<and> principalSchema L (wiSender r) \<and>
     0 \<le> wiChainId r \<and> wiChainId r \<le> 0xffffffff \<and>
     (case wiTxid r of None \<Rightarrow> True | Some t \<Rightarrow> indexBlockHashSchema t)"

definition parseIntentRow :: "tx_lib \<Rightarrow> intent \<Rightarrow> intent_error + intent" where
  "parseIntentRow L r = (if walletIntentRowSchema L r then Inr r else Inl WiZod)"

definition mapIntent :: "tx_lib \<Rightarrow> intent \<Rightarrow> intent_error + intent" where
  "mapIntent L r =
     bindr (parseIntentRow L r) (\<lambda>r.
     bindr (canonicalDocument (wiManifest r) 262144) (\<lambda>_.
     bindr (canonicalJsonSha256 L (wiManifest r)) (\<lambda>d.
     if d = wiManifestSha r then Inr r else Inl WiPersisted)))"

definition observationRowSchema :: "tx_lib \<Rightarrow> observation \<Rightarrow> bool" where
  "observationRowSchema L w \<longleftrightarrow> isUuid L (woId w) \<and> isUuid L (woIntent w) \<and>
     outcomeSchema (woOutcome w) \<and>
     (case woIndexHash w of None \<Rightarrow> True | Some h \<Rightarrow> indexBlockHashSchema h)"

definition mapObservation :: "tx_lib \<Rightarrow> observation \<Rightarrow> intent_error + observation" where
  "mapObservation L w =
     bindr (if observationRowSchema L w then Inr () else Inl WiZod) (\<lambda>_.
     bindr (canonicalDocument (woEvidence w) 32768) (\<lambda>_.
     bindr (assertNoRawTransactionEvidence (woEvidence w)) (\<lambda>_. Inr w)))"

subsection \<open>The tables\<close>

definition activeStates :: "intent_state list" where
  "activeStates = [IPrepared, ISubmitted, IMempool, IConfirmed, IComplete, IReobserve]"

abbreviation intent_active :: "intent_state \<Rightarrow> bool" where
  "intent_active st \<equiv> st \<in> set activeStates"

definition intent_checks :: "intent \<Rightarrow> bool" where
  "intent_checks r \<longleftrightarrow>
     1 \<le> length (wiScope r) \<and> length (wiScope r) \<le> 500 \<and>
     hashSchema (wiFactsSha r) \<and> hashSchema (wiManifestSha r) \<and>
     2 \<le> length (documentText (wiManifest r)) \<and> length (documentText (wiManifest r)) \<le> 262144 \<and>
     1 \<le> length (wiSender r) \<and> length (wiSender r) \<le> 500 \<and>
     0 \<le> wiChainId r \<and> wiChainId r \<le> 4294967295 \<and>
     (case wiTxid r of None \<Rightarrow> True | Some t \<Rightarrow> indexBlockHashSchema t) \<and>
     wiCreated r < wiExpires r \<and>
     (wiTxid r = None) = (wiSubmitted r = None) \<and>
     (wiState r \<in> {ISubmitted, IMempool, IConfirmed, IComplete, IReobserve} \<longrightarrow> wiTxid r \<noteq> None) \<and>
     (wiState r \<in> {IPrepared, IExpired} \<longrightarrow> wiTxid r = None)"

definition scope_key :: "intent \<Rightarrow> intent_action \<times> string" where
  "scope_key r = (wiAction r, wiScope r)"

definition intents_unique :: "intent list \<Rightarrow> bool" where
  "intents_unique rs \<longleftrightarrow> distinct (map wiId rs) \<and> distinct (List.map_filter wiTxid rs) \<and>
     distinct (map scope_key (filter (\<lambda>r. intent_active (wiState r)) rs))"

definition intent_binding ::
  "intent \<Rightarrow> string \<times> intent_action \<times> string \<times> string \<times> string \<times> json \<times> principal \<times> wallet_network \<times>
    int \<times> instant \<times> instant" where
  "intent_binding r = (wiId r, wiAction r, wiScope r, wiFactsSha r, wiManifestSha r, wiManifest r,
     wiSender r, wiNetwork r, wiChainId r, wiCreated r, wiExpires r)"

text \<open>The two \<open>BEFORE UPDATE\<close> triggers.\<close>

definition intent_frozen :: "intent \<Rightarrow> intent \<Rightarrow> bool" where
  "intent_frozen old new \<longleftrightarrow> intent_binding new = intent_binding old \<and>
     (wiTxid old \<noteq> None \<longrightarrow> wiTxid new = wiTxid old) \<and>
     (wiSubmitted old \<noteq> None \<longrightarrow> wiSubmitted new = wiSubmitted old)"

text \<open>\<open>UPDATE \<dots> SET f WHERE p\<close>, answering the number of changed rows, and \<open>INSERT\<close>.\<close>

definition updateWhere :: "(intent \<Rightarrow> bool) \<Rightarrow> (intent \<Rightarrow> intent) \<Rightarrow> nat intent_op" where
  "updateWhere p f s = (let rs = map (\<lambda>r. if p r then f r else r) (isRows s) in
     if \<not> list_all (\<lambda>r. p r \<longrightarrow> intent_frozen r (f r)) (isRows s)
     then (Inl (WiConstraint ''browser wallet intent is immutable''), s)
     else if \<not> list_all (\<lambda>r. p r \<longrightarrow> intent_checks (f r)) (isRows s)
     then (Inl (WiConstraint ''CHECK constraint failed''), s)
     else if \<not> intents_unique rs then (Inl (WiConstraint ''UNIQUE constraint failed''), s)
     else (Inr (length (filter p (isRows s))), s\<lparr>isRows := rs\<rparr>))"

definition insertIntent :: "intent \<Rightarrow> unit intent_op" where
  "insertIntent r s =
     (if \<not> intent_checks r then (Inl (WiConstraint ''CHECK constraint failed''), s)
      else if \<not> intents_unique (isRows s @ [r]) then (Inl (WiConstraint ''UNIQUE constraint failed''), s)
      else (Inr (), s\<lparr>isRows := isRows s @ [r]\<rparr>))"

text \<open>The constraints of \<open>browser_wallet_intent_observations\<close>, its primary key and its reference to an intent.\<close>

definition observation_checks :: "observation \<Rightarrow> bool" where
  "observation_checks w \<longleftrightarrow>
     1 \<le> length (woOutcome w) \<and> length (woOutcome w) \<le> 100 \<and>
     list_all (\<lambda>c. is_outcome_char c \<or> c = CHR ''-'') (woOutcome w) \<and>
     (case woIndexHash w of None \<Rightarrow> True | Some h \<Rightarrow> indexBlockHashSchema h) \<and>
     2 \<le> length (documentText (woEvidence w)) \<and> length (documentText (woEvidence w)) \<le> 32768 \<and>
     (woHeight w = None) = (woIndexHash w = None)"

definition insertObservation :: "observation \<Rightarrow> unit intent_op" where
  "insertObservation w s =
     (if \<not> observation_checks w then (Inl (WiConstraint ''CHECK constraint failed''), s)
      else if row_find woId (woId w) (isObs s) \<noteq> None then (Inl (WiConstraint ''UNIQUE constraint failed''), s)
      else if row_find wiId (woIntent w) (isRows s) = None
      then (Inl (WiConstraint ''FOREIGN KEY constraint failed''), s)
      else (Inr (), s\<lparr>isObs := isObs s @ [w]\<rparr>))"

definition moved :: "intent_state \<Rightarrow> instant \<Rightarrow> intent \<Rightarrow> intent" where
  "moved st now r = r\<lparr>wiState := st, wiVersion := Suc (wiVersion r), wiUpdated := now\<rparr>"

definition intentRow :: "tx_lib \<Rightarrow> string \<Rightarrow> intent option intent_op" where
  "intentRow L i = eread (\<lambda>s.
     if \<not> isUuid L i then Inl WiZod
     else (case row_find wiId i (isRows s) of None \<Rightarrow> Inr None
           | Some r \<Rightarrow> bindr (parseIntentRow L r) (\<lambda>r. Inr (Some r))))"

text \<open>\<open>ORDER BY created_at DESC, intent_id DESC\<close>.\<close>

definition later_first :: "intent \<Rightarrow> intent \<Rightarrow> bool" where
  "later_first a b \<longleftrightarrow>
     wiCreated b < wiCreated a \<or> (wiCreated a = wiCreated b \<and> wiId b \<le> wiId a)"

definition active_of :: "intent_action \<Rightarrow> string \<Rightarrow> intent list \<Rightarrow> intent option" where
  "active_of act sc rs = (case sort_by later_first
       (filter (\<lambda>r. wiAction r = act \<and> wiScope r = sc \<and> intent_active (wiState r)) rs) of
     [] \<Rightarrow> None | r # _ \<Rightarrow> Some r)"

definition expirePrepared :: "intent_action \<Rightarrow> string \<Rightarrow> instant \<Rightarrow> nat intent_op" where
  "expirePrepared act sc now = updateWhere
     (\<lambda>r. wiAction r = act \<and> wiScope r = sc \<and> wiState r = IPrepared \<and> wiExpires r \<le> now)
     (moved IExpired now)"

subsection \<open>Reads\<close>

definition findActiveScope :: "tx_lib \<Rightarrow> intent_action \<Rightarrow> string \<Rightarrow> instant \<Rightarrow> intent option intent_op" where
  "findActiveScope L act sc now =
     ebind (eguard (identifierSchema sc) WiZod) (\<lambda>_. immediate (
     ebind (expirePrepared act sc now) (\<lambda>_.
     eread (\<lambda>s. case active_of act sc (isRows s) of None \<Rightarrow> Inr None
       | Some r \<Rightarrow> bindr (mapIntent L r) (\<lambda>r. Inr (Some r))))))"

definition getIntent :: "tx_lib \<Rightarrow> string \<Rightarrow> intent option intent_op" where
  "getIntent L i = ebind (intentRow L i) (\<lambda>r. case r of None \<Rightarrow> eret None
     | Some r \<Rightarrow> elift (bindr (mapIntent L r) (\<lambda>r. Inr (Some r))))"

definition getIntentByTxid :: "tx_lib \<Rightarrow> txid \<Rightarrow> intent option intent_op" where
  "getIntentByTxid L t = eread (\<lambda>s. if \<not> indexBlockHashSchema t then Inl WiZod
     else (case row_find wiTxid (Some t) (isRows s) of None \<Rightarrow> Inr None
           | Some r \<Rightarrow> bindr (mapIntent L r) (\<lambda>r. Inr (Some r))))"

definition listOwnedIntentTransactionIds :: "intent_store \<Rightarrow> txid list" where
  "listOwnedIntentTransactionIds s = remdups (List.map_filter wiTxid (isRows s))"

text \<open>\<open>ORDER BY observed_at DESC, rowid DESC LIMIT 1\<close>.\<close>

definition newest_observation :: "(observation \<Rightarrow> bool) \<Rightarrow> observation list \<Rightarrow> observation option" where
  "newest_observation p ws = foldl (\<lambda>newest w. case newest of None \<Rightarrow> Some w
       | Some v \<Rightarrow> if woObserved v \<le> woObserved w then Some w else newest) None (filter p ws)"

definition latestObservation ::
  "tx_lib \<Rightarrow> string list \<Rightarrow> string list \<Rightarrow> string \<Rightarrow> observation option intent_op" where
  "latestObservation L excludeOutcomes outcomes i = eread (\<lambda>s.
     if \<not> (list_all outcomeSchema excludeOutcomes \<and> list_all outcomeSchema outcomes \<and> isUuid L i)
     then Inl WiZod
     else (case newest_observation (\<lambda>w. woIntent w = i \<and> woOutcome w \<notin> set excludeOutcomes \<and>
              (outcomes = [] \<or> woOutcome w \<in> set outcomes)) (isObs s) of
         None \<Rightarrow> Inr None
       | Some w \<Rightarrow> bindr (mapObservation L w) (\<lambda>w. Inr (Some w))))"

definition listObservations :: "tx_lib \<Rightarrow> string \<Rightarrow> observation list intent_op" where
  "listObservations L i = eread (\<lambda>s. if \<not> isUuid L i then Inl WiZod
     else mapr (mapObservation L) (sort_key woObserved (filter (\<lambda>w. woIntent w = i) (isObs s))))"

definition listLatestObservationsForActivity ::
  "tx_lib \<Rightarrow> string list \<Rightarrow> observation list intent_op" where
  "listLatestObservationsForActivity L ids = eread (\<lambda>s. if \<not> list_all (isUuid L) ids then Inl WiZod
     else mapr (mapObservation L)
       (List.map_filter (\<lambda>i. newest_observation (\<lambda>w. woIntent w = i) (isObs s)) (remdups ids)))"

definition awaits_observation :: "observation list \<Rightarrow> intent \<Rightarrow> bool" where
  "awaits_observation ws r \<longleftrightarrow> wiTxid r \<noteq> None \<and>
     (wiState r \<in> {ISubmitted, IMempool, IConfirmed, IReobserve} \<or>
      wiState r = ISuperseded \<and>
        (case newest_observation (\<lambda>w. woIntent w = wiId r \<and> woOutcome w \<noteq> ''unavailable'' \<and>
              (woOutcome w \<noteq> ''superseded'' \<or> woCanonical w = Some True)) ws of
           None \<Rightarrow> ''submitted'' | Some w \<Rightarrow> woOutcome w)
        \<notin> {''complete'', ''canonical-success'', ''abort'', ''mismatch'', ''superseded''})"

text \<open>An awaiting row has its submission time; SQLite would sort a missing one first.\<close>

definition submitted_first :: "intent \<Rightarrow> intent \<Rightarrow> bool" where
  "submitted_first a b \<longleftrightarrow> (case (wiSubmitted a, wiSubmitted b) of
       (None, None) \<Rightarrow> wiId a \<le> wiId b
     | (None, Some _) \<Rightarrow> True
     | (Some _, None) \<Rightarrow> False
     | (Some t, Some u) \<Rightarrow> t < u \<or> t = u \<and> wiId a \<le> wiId b)"

definition awaitingObservation :: "intent_store \<Rightarrow> intent list" where
  "awaitingObservation s = sort_by submitted_first (filter (awaits_observation (isObs s)) (isRows s))"

definition listAwaitingObservation :: "tx_lib \<Rightarrow> intent list intent_op" where
  "listAwaitingObservation L = eread (\<lambda>s. mapr (mapIntent L) (awaitingObservation s))"

definition listAwaitingObservationIds :: "intent_store \<Rightarrow> string list" where
  "listAwaitingObservationIds s = map wiId (awaitingObservation s)"

definition earlier_first :: "intent \<Rightarrow> intent \<Rightarrow> bool" where
  "earlier_first a b \<longleftrightarrow>
     wiCreated a < wiCreated b \<or> (wiCreated a = wiCreated b \<and> wiId a \<le> wiId b)"

definition listSubmittedEquivalent ::
  "tx_lib \<Rightarrow> intent_action \<Rightarrow> string \<Rightarrow> string \<Rightarrow> intent list intent_op" where
  "listSubmittedEquivalent L act sc facts = eread (\<lambda>s.
     if \<not> (identifierSchema sc \<and> hashSchema facts) then Inl WiZod
     else mapr (mapIntent L) (sort_by earlier_first (filter
       (\<lambda>r. wiAction r = act \<and> wiScope r = sc \<and> wiFactsSha r = facts \<and> wiTxid r \<noteq> None) (isRows s))))"

definition listSubmittedScope :: "tx_lib \<Rightarrow> intent_action \<Rightarrow> string \<Rightarrow> intent list intent_op" where
  "listSubmittedScope L act sc = eread (\<lambda>s. if \<not> identifierSchema sc then Inl WiZod
     else mapr (mapIntent L) (sort_by earlier_first (filter
       (\<lambda>r. wiAction r = act \<and> wiScope r = sc \<and> wiTxid r \<noteq> None) (isRows s))))"

text \<open>The intents just before and after one in the history of its scope.\<close>

definition scope_neighbors ::
  "intent list \<Rightarrow> intent \<Rightarrow> (string \<times> intent_state) option \<times> (string \<times> intent_state) option" where
  "scope_neighbors rs r =
     (let same = filter (\<lambda>x. scope_key x = scope_key r \<and> wiId x \<noteq> wiId r) rs;
          hd_opt = (\<lambda>xs. case xs of [] \<Rightarrow> None | x # _ \<Rightarrow> Some (wiId x, wiState x)) in
      (hd_opt (sort_by later_first (filter (\<lambda>x. earlier_first x r) same)),
       hd_opt (sort_by earlier_first (filter (\<lambda>x. earlier_first r x) same))))"

definition listActivityScopeNeighbors ::
  "tx_lib \<Rightarrow> string list \<Rightarrow>
     (string \<rightharpoonup> (string \<times> intent_state) option \<times> (string \<times> intent_state) option) intent_op" where
  "listActivityScopeNeighbors L ids = eread (\<lambda>s. if \<not> list_all (isUuid L) ids then Inl WiZod
     else Inr (map_of (map (\<lambda>r. (wiId r, scope_neighbors (isRows s) r))
       (filter (\<lambda>r. wiId r \<in> set ids) (isRows s)))))"

subsection \<open>Writes\<close>

record create_intent =
  ciId :: "string option"
  ciAction :: intent_action
  ciScope :: string
  ciFactsSha :: string
  ciManifestSha :: string
  ciManifest :: json
  ciSender :: principal
  ciNetwork :: wallet_network
  ciChainId :: int
  ciCreated :: instant
  ciExpires :: instant

definition createInputSchema :: "tx_lib \<Rightarrow> create_intent \<Rightarrow> bool" where
  "createInputSchema L v \<longleftrightarrow> (case ciId v of None \<Rightarrow> True | Some i \<Rightarrow> isUuid L i) \<and>
     identifierSchema (ciScope v) \<and> hashSchema (ciFactsSha v) \<and> hashSchema (ciManifestSha v) \<and>
     principalSchema L (ciSender v) \<and> 0 \<le> ciChainId v \<and> ciChainId v \<le> 0xffffffff \<and>
     ciCreated v < ciExpires v"

definition intentMatchesCreate :: "intent \<Rightarrow> create_intent \<Rightarrow> bool" where
  "intentMatchesCreate r v \<longleftrightarrow> wiAction r = ciAction v \<and> wiScope r = ciScope v \<and>
     wiFactsSha r = ciFactsSha v \<and> wiManifestSha r = ciManifestSha v \<and> wiSender r = ciSender v \<and>
     wiNetwork r = ciNetwork v \<and> wiChainId r = ciChainId v"

definition fresh_intent :: "string \<Rightarrow> create_intent \<Rightarrow> intent" where
  "fresh_intent i v = \<lparr>wiId = i, wiAction = ciAction v, wiScope = ciScope v,
     wiFactsSha = ciFactsSha v, wiManifestSha = ciManifestSha v, wiManifest = ciManifest v,
     wiSender = ciSender v, wiNetwork = ciNetwork v, wiChainId = ciChainId v, wiState = IPrepared,
     wiVersion = 0, wiTxid = None, wiCreated = ciCreated v, wiExpires = ciExpires v,
     wiSubmitted = None, wiUpdated = ciCreated v\<rparr>"

definition insert_created :: "tx_lib \<Rightarrow> string \<Rightarrow> create_intent \<Rightarrow> (intent \<times> bool) intent_op" where
  "insert_created L i v =
     ebind (insertIntent (fresh_intent i v)) (\<lambda>_.
     ebind (intentRow L i) (\<lambda>r. case r of None \<Rightarrow> ethrow WiPersisted
       | Some r \<Rightarrow> elift (bindr (mapIntent L r) (\<lambda>r. Inr (r, True)))))"

text \<open>What an existing active intent means for a new request of its scope.\<close>

definition replace_active ::
  "tx_lib \<Rightarrow> string \<Rightarrow> create_intent \<Rightarrow> string \<Rightarrow> intent \<Rightarrow> (intent \<times> bool) intent_op" where
  "replace_active L i v manifestJson r =
     (if intentMatchesCreate r v \<and> documentText (wiManifest r) = manifestJson
      then elift (bindr (mapIntent L r) (\<lambda>r. Inr (r, False)))
      else if wiState r \<noteq> IPrepared then ethrow (WiError WiActiveConflict)
      else ebind (updateWhere
             (\<lambda>x. wiId x = wiId r \<and> wiState x = IPrepared \<and> wiVersion x = wiVersion r)
             (moved ISuperseded (ciCreated v))) (\<lambda>changes.
           ebind (eguard (changes = 1) (WiError WiStateConflict)) (\<lambda>_.
           insert_created L i v)))"

definition createIntent :: "tx_lib \<Rightarrow> string \<Rightarrow> create_intent \<Rightarrow> (intent \<times> bool) intent_op" where
  "createIntent L randomUUID v =
     ebind (eguard (createInputSchema L v) WiZod) (\<lambda>_.
     let i = (case ciId v of None \<Rightarrow> randomUUID | Some i \<Rightarrow> i) in
     ebind (elift (canonicalDocument (ciManifest v) 262144)) (\<lambda>manifestJson.
     ebind (elift (canonicalJsonSha256 L (ciManifest v))) (\<lambda>computed.
     ebind (eguard (computed = ciManifestSha v) (WiError WiManifestMismatch)) (\<lambda>_. immediate (
     ebind (expirePrepared (ciAction v) (ciScope v) (ciCreated v)) (\<lambda>_.
     ebind (intentRow L i) (\<lambda>sameId. case sameId of
         Some r \<Rightarrow>
           if intentMatchesCreate r v \<and> documentText (wiManifest r) = manifestJson
           then elift (bindr (mapIntent L r) (\<lambda>r. Inr (r, False)))
           else ethrow (WiError WiActiveConflict)
       | None \<Rightarrow>
           ebind (eread (\<lambda>s. Inr (active_of (ciAction v) (ciScope v) (isRows s)))) (\<lambda>active.
           case active of
             None \<Rightarrow> insert_created L i v
           | Some r \<Rightarrow> ebind (elift (parseIntentRow L r)) (\<lambda>r. replace_active L i v manifestJson r)))))))))"

definition equivalent_to :: "intent \<Rightarrow> intent \<Rightarrow> bool" where
  "equivalent_to winner r \<longleftrightarrow> wiId r \<noteq> wiId winner \<and> wiAction r = wiAction winner \<and>
     wiScope r = wiScope winner \<and> wiFactsSha r = wiFactsSha winner \<and>
     wiState r \<in> {IPrepared, ISubmitted, IMempool, IConfirmed, IReobserve}"

fun supersede_each :: "tx_lib \<Rightarrow> instant \<Rightarrow> intent list \<Rightarrow> unit intent_op" where
  "supersede_each L now [] = eret ()"
| "supersede_each L now (r # rs) =
     ebind (elift (parseIntentRow L r)) (\<lambda>r.
     ebind (updateWhere (\<lambda>x. wiId x = wiId r \<and> wiState x = wiState r \<and> wiVersion x = wiVersion r)
       (moved ISuperseded now)) (\<lambda>changes.
     ebind (eguard (changes = 1) (WiError WiStateConflict)) (\<lambda>_.
     supersede_each L now rs)))"

fun reread_each :: "tx_lib \<Rightarrow> intent list \<Rightarrow> intent list intent_op" where
  "reread_each L [] = eret []"
| "reread_each L (r # rs) =
     ebind (intentRow L (wiId r)) (\<lambda>x. case x of
         None \<Rightarrow> ethrow WiPersisted
       | Some x \<Rightarrow> ebind (elift (mapIntent L x)) (\<lambda>x.
           ebind (reread_each L rs) (\<lambda>xs. eret (x # xs))))"

definition supersedeActiveEquivalent :: "tx_lib \<Rightarrow> string \<Rightarrow> instant \<Rightarrow> intent list intent_op" where
  "supersedeActiveEquivalent L winnerId now = immediate (
     ebind (intentRow L winnerId) (\<lambda>w. case w of
         None \<Rightarrow> ethrow (WiError WiNotFound)
       | Some winner \<Rightarrow>
           if wiTxid winner = None then ethrow (WiError WiStateConflict)
           else ebind (eread (\<lambda>s. Inr (sort_by earlier_first
                    (filter (equivalent_to winner) (isRows s))))) (\<lambda>rs.
                ebind (supersede_each L now rs) (\<lambda>_. reread_each L rs))))"

text \<open>
  Submission answers its refusals as values, so that the transaction commits what was written before
  a refusal; they are thrown after it (\<open>submitIntent\<close>).
\<close>

definition broadcastStates :: "intent_state set" where
  "broadcastStates = {ISubmitted, IMempool, IConfirmed, IComplete, IReobserve}"

definition competing :: "intent \<Rightarrow> intent list \<Rightarrow> intent list" where
  "competing r rs = filter (\<lambda>x. wiId x \<noteq> wiId r \<and> wiAction x = wiAction r \<and> wiScope x = wiScope r \<and>
     intent_active (wiState x)) rs"

definition claim_scope :: "intent \<Rightarrow> instant \<Rightarrow> intent_state intent_op" where
  "claim_scope r now s =
     (if wiState r \<in> {IExpired, ISuperseded} then
        if list_ex (\<lambda>x. wiState x \<noteq> IPrepared) (competing r (isRows s)) then (Inr ISuperseded, s)
        else ebind (updateWhere (\<lambda>x. wiId x \<noteq> wiId r \<and> wiAction x = wiAction r \<and>
                 wiScope x = wiScope r \<and> wiState x = IPrepared) (moved ISuperseded now))
               (\<lambda>_. eret ISubmitted) s
      else (Inr ISubmitted, s))"

definition bind_txid :: "tx_lib \<Rightarrow> intent \<Rightarrow> txid \<Rightarrow> instant \<Rightarrow> (intent_error + intent) intent_op" where
  "bind_txid L r t now =
     ebind (claim_scope r now) (\<lambda>st.
     ebind (updateWhere (\<lambda>x. wiId x = wiId r \<and> wiState x \<in> {IPrepared, IExpired, ISuperseded} \<and>
         wiVersion x = wiVersion r \<and> wiTxid x = None)
       (\<lambda>x. moved st now x\<lparr>wiTxid := Some t, wiSubmitted := Some now\<rparr>)) (\<lambda>changes.
     if changes \<noteq> 1 then eret (Inl (WiError WiStateConflict))
     else ebind (intentRow L (wiId r)) (\<lambda>x. case x of
         None \<Rightarrow> ethrow WiPersisted
       | Some x \<Rightarrow> ebind (elift (mapIntent L x)) (\<lambda>x. eret (Inr x)))))"

definition submit_once :: "tx_lib \<Rightarrow> string \<Rightarrow> txid \<Rightarrow> instant \<Rightarrow> (intent_error + intent) intent_op" where
  "submit_once L i t now =
     ebind (intentRow L i) (\<lambda>r. case r of
         None \<Rightarrow> eret (Inl (WiError WiNotFound))
       | Some r \<Rightarrow>
           if wiTxid r \<noteq> None then
             (if wiTxid r = Some t then ebind (elift (mapIntent L r)) (\<lambda>r. eret (Inr r))
              else eret (Inl (WiError WiAlreadySubmitted)))
           else if wiState r \<notin> {IPrepared, IExpired, ISuperseded}
           then eret (Inl (WiError WiStateConflict))
           else (\<lambda>s. if row_find wiTxid (Some t) (isRows s) \<noteq> None
             then (Inr (Inl (WiError WiDuplicateTxid)), s)
             else bind_txid L r t now s))"

definition submitIntent :: "tx_lib \<Rightarrow> string \<Rightarrow> txid \<Rightarrow> instant \<Rightarrow> intent intent_op" where
  "submitIntent L i t now =
     ebind (eguard (isUuid L i \<and> indexBlockHashSchema t) WiZod) (\<lambda>_.
     ebind (immediate (submit_once L i t now)) (\<lambda>r. elift r))"

definition transitions :: "intent_state \<Rightarrow> intent_state set" where
  "transitions st = (case st of
       IPrepared \<Rightarrow> {IExpired, ISuperseded, IFailed}
     | ISubmitted \<Rightarrow> {IMempool, IConfirmed, IFailed, IReobserve, ISuperseded}
     | IMempool \<Rightarrow> {IConfirmed, IFailed, IReobserve, ISuperseded}
     | IConfirmed \<Rightarrow> {IComplete, IFailed, IReobserve, ISuperseded}
     | IComplete \<Rightarrow> {IReobserve, ISuperseded}
     | IExpired \<Rightarrow> {}
     | ISuperseded \<Rightarrow> {}
     | IFailed \<Rightarrow> {IReobserve, ISuperseded}
     | IReobserve \<Rightarrow> {ISubmitted, IMempool, IConfirmed, IComplete, IFailed, ISuperseded})"

definition transitionIntent ::
  "tx_lib \<Rightarrow> string \<Rightarrow> intent_state list \<Rightarrow> intent_state \<Rightarrow> instant \<Rightarrow> intent intent_op" where
  "transitionIntent L i fromStates toState now =
     ebind (eguard (isUuid L i \<and> fromStates \<noteq> []) WiZod) (\<lambda>_. immediate (
     ebind (intentRow L i) (\<lambda>r. case r of
         None \<Rightarrow> ethrow (WiError WiNotFound)
       | Some r \<Rightarrow>
           if wiState r = toState then elift (mapIntent L r)
           else if wiState r \<notin> set fromStates then ethrow (WiError WiStateConflict)
           else if toState \<notin> transitions (wiState r) then ethrow (WiError WiStateConflict)
           else ebind (updateWhere (\<lambda>x. wiId x = i \<and> wiVersion x = wiVersion r \<and>
                    wiState x \<in> set fromStates) (moved toState now)) (\<lambda>changes.
                ebind (eguard (changes = 1) (WiError WiStateConflict)) (\<lambda>_.
                ebind (intentRow L i) (\<lambda>x. case x of
                    None \<Rightarrow> ethrow WiPersisted
                  | Some x \<Rightarrow> elift (mapIntent L x)))))))"

record append_observation =
  aoId :: "string option"
  aoIntent :: string
  aoOutcome :: string
  aoCanonical :: "bool option"
  aoHeight :: "nat option"
  aoIndexHash :: "string option"
  aoEvidence :: json
  aoObserved :: instant

definition appendObservationInputSchema :: "tx_lib \<Rightarrow> append_observation \<Rightarrow> bool" where
  "appendObservationInputSchema L v \<longleftrightarrow> (case aoId v of None \<Rightarrow> True | Some i \<Rightarrow> isUuid L i) \<and>
     isUuid L (aoIntent v) \<and> outcomeSchema (aoOutcome v) \<and>
     (case aoIndexHash v of None \<Rightarrow> True | Some h \<Rightarrow> indexBlockHashSchema h) \<and>
     (aoHeight v = None) = (aoIndexHash v = None)"

definition observation_of :: "string \<Rightarrow> append_observation \<Rightarrow> observation" where
  "observation_of i v = \<lparr>woId = i, woIntent = aoIntent v, woOutcome = aoOutcome v,
     woCanonical = aoCanonical v, woHeight = aoHeight v, woIndexHash = aoIndexHash v,
     woEvidence = aoEvidence v, woObserved = aoObserved v\<rparr>"

definition appendObservation :: "tx_lib \<Rightarrow> string \<Rightarrow> append_observation \<Rightarrow> observation intent_op" where
  "appendObservation L randomUUID v =
     ebind (eguard (appendObservationInputSchema L v) WiZod) (\<lambda>_.
     let i = (case aoId v of None \<Rightarrow> randomUUID | Some i \<Rightarrow> i) in
     ebind (elift (assertNoRawTransactionEvidence (aoEvidence v))) (\<lambda>_.
     ebind (elift (canonicalDocument (aoEvidence v) 32768)) (\<lambda>_. immediate (
     ebind (intentRow L (aoIntent v)) (\<lambda>r.
     ebind (eguard (r \<noteq> None) (WiError WiNotFound)) (\<lambda>_.
     ebind (eread (\<lambda>s. if row_find woId i (isObs s) \<noteq> None then Inl (WiError WiObservationConflict) else Inr ())) (\<lambda>_.
     ebind (insertObservation (observation_of i v)) (\<lambda>_.
     eread (\<lambda>s. case row_find woId i (isObs s) of
         None \<Rightarrow> Inl WiPersisted
       | Some w \<Rightarrow> mapObservation L w)))))))))"

end
