(* ===== verification/Intent_Tables.thy ===== *)
theory Intent_Tables
  imports Intent_Store
begin

text \<open>
  The tables of wallet intents: the lifecycle of a stored intent (\<open>intent_step\<close>), the invariant of
  the tables (\<open>intents_ok\<close>), and what the statements and the operations that only retire intents do
  to them. Results are stated by \<open>wpe\<close> over \<open>preserves\<close>: the operation ends in a store that satisfies
  the invariant and has grown along the lifecycle, and what it throws is not a table constraint.
\<close>

subsection \<open>Outcomes of an operation\<close>

text \<open>
  \<open>wpe m Q F s\<close>: started in \<open>s\<close>, \<open>m\<close> returns some \<open>a\<close> in a store \<open>t\<close> with \<open>Q a t\<close>, or throws an
  error \<open>e\<close> with \<open>F e\<close>.
\<close>

definition wpe :: "('s, 'e, 'a) eng \<Rightarrow> ('a \<Rightarrow> 's \<Rightarrow> bool) \<Rightarrow> ('e \<Rightarrow> bool) \<Rightarrow> 's \<Rightarrow> bool" where
  "wpe m Q F s = (case m s of (Inl e, t) \<Rightarrow> F e | (Inr a, t) \<Rightarrow> Q a t)"

lemma wpe_basic [simp]:
  "wpe (eret a) Q F s = Q a s"
  "wpe (ethrow e) Q F s = F e"
  "wpe (elift r) Q F s = (case r of Inl e \<Rightarrow> F e | Inr a \<Rightarrow> Q a s)"
  "wpe (eread f) Q F s = (case f s of Inl e \<Rightarrow> F e | Inr a \<Rightarrow> Q a s)"
  "wpe (immediate m) Q F s = wpe m Q F s"
  by (auto simp: wpe_def monad_defs immediate_def split: sum.splits prod.splits)

lemma wpe_eret [simp]: "wpe (eret a) Q F = Q a"
  by (simp add: fun_eq_iff)

lemma wpe_eguard [simp]: "wpe (eguard b e) Q F = (\<lambda>s. if b then Q () s else F e)"
  by (simp add: fun_eq_iff wpe_def monad_defs)

lemma wpe_ebind [simp]: "wpe (ebind m g) Q F = wpe m (\<lambda>a. wpe (g a) Q F) F"
  by (auto simp: fun_eq_iff wpe_def monad_defs split: sum.splits prod.splits)

lemma wpe_mono:
  "wpe m Q F s \<Longrightarrow> (\<And>a t. Q a t \<Longrightarrow> Q' a t) \<Longrightarrow> (\<And>e. F e \<Longrightarrow> F' e) \<Longrightarrow> wpe m Q' F' s"
  by (auto simp: wpe_def split: sum.splits prod.splits)

lemma wpe_total: "wpe m Q (\<lambda>_. False) s \<Longrightarrow> \<exists>a t. m s = (Inr a, t) \<and> Q a t"
  by (cases "m s"; cases "fst (m s)") (auto simp: wpe_def)

text \<open>A transaction keeps what its successful end has, because a failed one changes nothing.\<close>

lemma immediate_settles: "wpe m (\<lambda>_. P) F s \<Longrightarrow> P s \<Longrightarrow> P (snd (immediate m s))"
  by (auto simp: wpe_def immediate_def split: prod.splits sum.splits)

subsection \<open>The lifecycle of an intent\<close>

inductive intent_step :: "intent \<Rightarrow> intent \<Rightarrow> bool" where
  transits: "intent_binding r' = intent_binding r \<Longrightarrow> wiVersion r' = Suc (wiVersion r) \<Longrightarrow>
     wiState r' \<in> transitions (wiState r) \<Longrightarrow> wiTxid r' = wiTxid r \<Longrightarrow>
     wiSubmitted r' = wiSubmitted r \<Longrightarrow> intent_step r r'"
| submits: "intent_binding r' = intent_binding r \<Longrightarrow> wiVersion r' = Suc (wiVersion r) \<Longrightarrow>
     wiState r \<in> {IPrepared, IExpired, ISuperseded} \<Longrightarrow> wiState r' \<in> {ISubmitted, ISuperseded} \<Longrightarrow>
     wiTxid r = None \<Longrightarrow> wiTxid r' = Some t \<Longrightarrow> wiSubmitted r' = Some now \<Longrightarrow> intent_step r r'"

inductive_cases intent_stepE: "intent_step r r'"

abbreviation intent_path :: "intent \<Rightarrow> intent \<Rightarrow> bool" where
  "intent_path \<equiv> intent_step\<^sup>*\<^sup>*"

lemma intent_path_binding: "intent_path r r' \<Longrightarrow> intent_binding r' = intent_binding r"
  by (induction rule: rtranclp_induct) (auto elim: intent_stepE)

lemma intent_path_id: "intent_path r r' \<Longrightarrow> wiId r' = wiId r"
  using intent_path_binding by (simp add: intent_binding_def)

lemma intent_path_txid: "intent_path r r' \<Longrightarrow> wiTxid r = Some t \<Longrightarrow> wiTxid r' = Some t"
  by (induction rule: rtranclp_induct) (auto elim: intent_stepE)

lemma intent_path_version: "intent_path r r' \<Longrightarrow> wiVersion r \<le> wiVersion r' \<and> (wiVersion r = wiVersion r' \<longrightarrow> r = r')"
  by (induction rule: rtranclp_induct) (fastforce elim: intent_stepE)+

text \<open>
  How a store may develop: rows keep their place and follow the lifecycle, new rows come in as
  prepared ones, observations are only appended.
\<close>

definition grows :: "intent_store \<Rightarrow> intent_store \<Rightarrow> bool" where
  "grows s t \<longleftrightarrow>
     (\<exists>old new. isRows t = old @ new \<and> list_all2 intent_path (isRows s) old \<and>
        (\<forall>r \<in> set new. \<exists>i v. intent_path (fresh_intent i v) r)) \<and>
     (\<exists>ws. isObs t = isObs s @ ws)"

lemma grows_map_rows:
  assumes "isRows t = map f (isRows s)" and "\<And>r. r \<in> set (isRows s) \<Longrightarrow> intent_path r (f r)"
    and "isObs t = isObs s @ ws"
  shows "grows s t"
  unfolding grows_def using assms
  by (intro conjI exI [of _ "isRows t"] exI [of _ "[]"] exI [of _ ws])
     (simp_all add: list_all2_map2 list_all2_same)

lemma grows_refl [simp, intro]: "grows s s"
  by (rule grows_map_rows [of _ "\<lambda>r. r" _ "[]"]) simp_all

lemma grows_trans: "grows s t \<Longrightarrow> grows t u \<Longrightarrow> grows s u"
proof -
  assume "grows s t" "grows t u"
  then obtain old new old' new' where rows: "isRows t = old @ new" "isRows u = old' @ new'"
      "list_all2 intent_path (isRows s) old" "list_all2 intent_path (old @ new) old'"
    and fresh: "\<forall>r \<in> set new. \<exists>i v. intent_path (fresh_intent i v) r"
      "\<forall>r \<in> set new'. \<exists>i v. intent_path (fresh_intent i v) r"
    and obs: "\<exists>ws. isObs u = isObs s @ ws"
    by (auto simp: grows_def)
  from rows(4) obtain a b where ab: "old' = a @ b" "list_all2 intent_path old a" "list_all2 intent_path new b"
    by (auto simp: list_all2_append1)
  have "list_all2 intent_path (isRows s) a"
    using rows(3) ab(2) by (rule list_all2_trans [rotated]) (rule rtranclp_trans)
  moreover have "\<forall>r \<in> set b. \<exists>i v. intent_path (fresh_intent i v) r"
  proof
    fix r assume "r \<in> set b"
    with ab(3) obtain q where "q \<in> set new" "intent_path q r" 
      by (metis in_set_conv_nth list_all2_conv_all_nth)
    with fresh(1) show "\<exists>i v. intent_path (fresh_intent i v) r" by (meson rtranclp_trans)
  qed
  ultimately show "grows s u"
    unfolding grows_def using rows(2) ab(1) fresh(2) obs
    by (intro conjI exI [of _ a] exI [of _ "b @ new'"]) auto
qed

lemma grows_map:
  assumes "\<And>r. r \<in> set (isRows s) \<Longrightarrow> p r \<Longrightarrow> intent_step r (f r)"
  shows "grows s (s\<lparr>isRows := map (\<lambda>r. if p r then f r else r) (isRows s)\<rparr>)"
  by (rule grows_map_rows [of _ "\<lambda>r. if p r then f r else r" _ "[]"]) (use assms in auto)

subsection \<open>The invariant of the tables\<close>

definition readable :: "tx_lib \<Rightarrow> intent \<Rightarrow> bool" where
  "readable L r \<longleftrightarrow> mapIntent L r = Inr r"

definition readable_observation :: "tx_lib \<Rightarrow> observation \<Rightarrow> bool" where
  "readable_observation L w \<longleftrightarrow> mapObservation L w = Inr w"

lemma mapIntent_Inr [simp]: "mapIntent L r = Inr q \<longleftrightarrow> q = r \<and> readable L r"
  by (auto simp: readable_def mapIntent_def parseIntentRow_def split: if_splits)

lemma mapObservation_Inr [simp]: "mapObservation L w = Inr q \<longleftrightarrow> q = w \<and> readable_observation L w"
  by (auto simp: readable_observation_def mapObservation_def split: if_splits)

lemma readable_row: "readable L r \<Longrightarrow> walletIntentRowSchema L r"
  by (auto simp: readable_def mapIntent_def parseIntentRow_def split: if_splits)

lemma parse_readable [simp]: "readable L r \<Longrightarrow> parseIntentRow L r = Inr r"
  by (simp add: parseIntentRow_def readable_row)

lemma map_readable [simp]: "readable L r \<Longrightarrow> mapIntent L r = Inr r"
  by simp

definition intents_ok :: "tx_lib \<Rightarrow> intent_store \<Rightarrow> bool" where
  "intents_ok L s \<longleftrightarrow> (\<forall>r \<in> set (isRows s). intent_checks r \<and> readable L r) \<and>
     intents_unique (isRows s) \<and> distinct (map woId (isObs s)) \<and>
     (\<forall>w \<in> set (isObs s). woIntent w \<in> wiId ` set (isRows s) \<and> observation_checks w \<and> readable_observation L w)"

definition no_intents :: intent_store where
  "no_intents = \<lparr>isRows = [], isObs = []\<rparr>"

lemma no_intents_ok: "intents_ok L no_intents"
  by (simp add: intents_ok_def no_intents_def intents_unique_def List.map_filter_def)

lemma distinct_by_key:
  assumes "distinct (map key rs)"
  shows "distinct (map g (filter P rs)) \<longleftrightarrow>
    (\<forall>x \<in> set rs. \<forall>y \<in> set rs. P x \<longrightarrow> P y \<longrightarrow> g x = g y \<longrightarrow> key x = key y)"
proof -
  have "distinct rs" and "inj_on key (set rs)" using assms by (auto simp: distinct_map)
  then show ?thesis by (auto simp: distinct_map inj_on_def)
qed

text \<open>Uniqueness, row by row.\<close>

definition txids_unique :: "intent set \<Rightarrow> bool" where
  "txids_unique R \<longleftrightarrow>
     (\<forall>x \<in> R. \<forall>y \<in> R. wiTxid x \<noteq> None \<longrightarrow> wiTxid x = wiTxid y \<longrightarrow> wiId x = wiId y)"

definition scopes_unique :: "intent set \<Rightarrow> bool" where
  "scopes_unique R \<longleftrightarrow> (\<forall>x \<in> R. \<forall>y \<in> R. intent_active (wiState x) \<longrightarrow> intent_active (wiState y) \<longrightarrow>
        scope_key x = scope_key y \<longrightarrow> wiId x = wiId y)"

lemma intents_unique_iff:
  "intents_unique rs \<longleftrightarrow>
     distinct (map wiId rs) \<and> txids_unique (set rs) \<and> scopes_unique (set rs)"
proof (cases "distinct (map wiId rs)")
  case True
  have "distinct (List.map_filter wiTxid rs) \<longleftrightarrow> txids_unique (set rs)"
    unfolding List.map_filter_def distinct_by_key [OF True] txids_unique_def
    by (intro ball_cong refl) auto
  then show ?thesis
    unfolding intents_unique_def distinct_by_key [OF True] scopes_unique_def by blast
qed (simp add: intents_unique_def)

lemma moved_simps [simp]:
  "wiId (moved st now r) = wiId r" "wiState (moved st now r) = st" "wiTxid (moved st now r) = wiTxid r"
  "wiAction (moved st now r) = wiAction r" "wiScope (moved st now r) = wiScope r"
  "wiVersion (moved st now r) = Suc (wiVersion r)" "wiSubmitted (moved st now r) = wiSubmitted r"
  "wiFactsSha (moved st now r) = wiFactsSha r"
  "scope_key (moved st now r) = scope_key r" "intent_binding (moved st now r) = intent_binding r"
  by (simp_all add: moved_def scope_key_def intent_binding_def)

lemma moved_readable [simp]: "readable L (moved st now r) \<longleftrightarrow> readable L r"
  by (auto simp: readable_def mapIntent_def parseIntentRow_def moved_def walletIntentRowSchema_def)

definition state_fits :: "intent_state \<Rightarrow> txid option \<Rightarrow> bool" where
  "state_fits st t \<longleftrightarrow> (st \<in> {ISubmitted, IMempool, IConfirmed, IComplete, IReobserve} \<longrightarrow> t \<noteq> None) \<and>
     (st \<in> {IPrepared, IExpired} \<longrightarrow> t = None)"

lemma checks_state: "intent_checks r \<Longrightarrow> state_fits (wiState r) (wiTxid r)"
  unfolding intent_checks_def state_fits_def by blast

lemma moved_checks: "intent_checks r \<Longrightarrow> intent_checks (moved st now r) \<longleftrightarrow> state_fits st (wiTxid r)"
  by (simp add: intent_checks_def moved_def state_fits_def)

lemma transition_fits:
  assumes "state_fits st t" and "st' \<in> transitions st" and "st = IFailed \<longrightarrow> st' \<noteq> IReobserve"
  shows "state_fits st' t" and "intent_active st' \<longrightarrow> intent_active st"
  using assms by (auto simp: state_fits_def transitions_def activeStates_def split: intent_state.splits)

subsection \<open>Statements\<close>

lemma updateWhere_ok:
  assumes "intents_ok L s"
    and rows: "\<And>r. r \<in> set (isRows s) \<Longrightarrow> p r \<Longrightarrow>
      intent_frozen r (f r) \<and> intent_checks (f r) \<and> readable L (f r) \<and> intent_step r (f r)"
    and unique: "txids_unique ((\<lambda>r. if p r then f r else r) ` set (isRows s))"
      "scopes_unique ((\<lambda>r. if p r then f r else r) ` set (isRows s))"
    and next_ok: "\<And>t. intents_ok L t \<Longrightarrow> grows s t \<Longrightarrow> t = s\<lparr>isRows := map (\<lambda>r. if p r then f r else r) (isRows s)\<rparr> \<Longrightarrow>
      Q (length (filter p (isRows s))) t"
  shows "wpe (updateWhere p f) Q F s"
proof -
  let ?g = "\<lambda>r. if p r then f r else r" and ?t = "s\<lparr>isRows := map (\<lambda>r. if p r then f r else r) (isRows s)\<rparr>"
  have f: "wiId (?g r) = wiId r" if "r \<in> set (isRows s)" for r
    using that rows by (auto simp: intent_frozen_def intent_binding_def)
  then have ids: "map wiId (map ?g (isRows s)) = map wiId (isRows s)" by simp
  then have ids': "wiId ` ?g ` set (isRows s) = wiId ` set (isRows s)" by (metis list.set_map)
  have u: "intents_unique (map ?g (isRows s))"
  proof -
    from assms(1) have "distinct (map wiId (isRows s))" by (simp add: intents_ok_def intents_unique_iff)
    with ids have "distinct (map wiId (map ?g (isRows s)))" by argo
    with unique show ?thesis unfolding intents_unique_iff list.set_map by blast
  qed
  then have "updateWhere p f s = (Inr (length (filter p (isRows s))), ?t)"
    using rows by (auto simp: updateWhere_def Let_def list_all_iff)
  moreover have "grows s ?t" by (rule grows_map) (use rows in blast)
  moreover have "intents_ok L ?t"
    using assms(1) rows u ids' by (auto simp: intents_ok_def)
  ultimately show ?thesis using next_ok by (simp add: wpe_def)
qed

text \<open>Moving rows along the lifecycle; the one move that activates a scope is not among them.\<close>

lemma move_ok:
  assumes "intents_ok L s"
    and rows: "\<And>r. r \<in> set (isRows s) \<Longrightarrow> p r \<Longrightarrow>
      st \<in> transitions (wiState r) \<and> (wiState r = IFailed \<longrightarrow> st \<noteq> IReobserve)"
    and next_ok: "\<And>t. intents_ok L t \<Longrightarrow> grows s t \<Longrightarrow>
      t = s\<lparr>isRows := map (\<lambda>r. if p r then moved st now r else r) (isRows s)\<rparr> \<Longrightarrow>
      Q (length (filter p (isRows s))) t"
  shows "wpe (updateWhere p (moved st now)) Q F s"
proof (rule updateWhere_ok [OF assms(1)])
  fix r assume r: "r \<in> set (isRows s)" "p r"
  then have "intent_checks r" "readable L r" using assms(1) by (auto simp: intents_ok_def)
  then show "intent_frozen r (moved st now r) \<and> intent_checks (moved st now r) \<and>
      readable L (moved st now r) \<and> intent_step r (moved st now r)"
    using rows [OF r] transition_fits(1)
    by (auto simp: intent_frozen_def moved_checks moved_readable intro!: transits dest: checks_state)
next
  let ?g = "\<lambda>r. if p r then moved st now r else r"
  have same: "wiId (?g r) = wiId r" "wiTxid (?g r) = wiTxid r" "scope_key (?g r) = scope_key r" for r by simp_all
  have "intent_active (wiState (?g r)) \<longrightarrow> intent_active (wiState r)" if "r \<in> set (isRows s)" for r
    using that rows [OF that] transition_fits(2) [OF checks_state] assms(1)
    by (auto simp: intents_ok_def)
  then show "scopes_unique (?g ` set (isRows s))"
    using assms(1) unfolding intents_ok_def intents_unique_iff scopes_unique_def ball_simps same by blast
  show "txids_unique (?g ` set (isRows s))"
    using assms(1) unfolding intents_ok_def intents_unique_iff txids_unique_def ball_simps same by blast
qed (rule next_ok)

lemma intentRow_ok:
  assumes "intents_ok L s" and "\<not> isUuid L i \<Longrightarrow> F WiZod"
    and "isUuid L i \<Longrightarrow> i \<notin> wiId ` set (isRows s) \<Longrightarrow> Q None s"
    and "\<And>r. isUuid L i \<Longrightarrow> r \<in> set (isRows s) \<Longrightarrow> wiId r = i \<Longrightarrow> row_find wiId i (isRows s) = Some r \<Longrightarrow>
      intent_checks r \<Longrightarrow> readable L r \<Longrightarrow> Q (Some r) s"
  shows "wpe (intentRow L i) Q F s"
proof (cases "row_find wiId i (isRows s)")
  case None
  then have "i \<notin> wiId ` set (isRows s)" by (simp add: row_find_None_iff)
  with None assms(2,3) show ?thesis by (cases "isUuid L i") (simp_all add: intentRow_def)
next
  case (Some r)
  then have r: "r \<in> set (isRows s)" "wiId r = i" using row_find_SomeD by fast+
  with assms(1) have "intent_checks r" "readable L r" by (auto simp: intents_ok_def)
  with Some r assms(2,4) show ?thesis
    by (cases "isUuid L i") (simp_all add: intentRow_def)
qed

text \<open>An update addressed by id, version and state hits exactly the row it was read from.\<close>

lemma one_row:
  assumes "distinct (map wiId rs)" and "r \<in> set rs" and "P r"
  shows "length (filter (\<lambda>x. wiId x = wiId r \<and> P x) rs) = 1"
proof -
  have "filter (\<lambda>x. wiId x = wiId r) rs = [r]"
    using assms(1,2) by (induction rs) (auto simp: filter_empty_conv rev_image_eqI)
  then have "filter P (filter (\<lambda>x. wiId x = wiId r) rs) = [r]" using assms(3) by simp
  then show ?thesis by (simp add: conj_commute)
qed

subsection \<open>Operations\<close>

text \<open>
  What every operation does when it returns, and that what it throws is never a table constraint
  (with one exception each, stated where it occurs).
\<close>

definition preserves :: "tx_lib \<Rightarrow> intent_store \<Rightarrow> intent_store \<Rightarrow> bool" where
  "preserves L s t \<longleftrightarrow> intents_ok L t \<and> grows s t"

lemma preserves_refl: "intents_ok L s \<Longrightarrow> preserves L s s"
  by (simp add: preserves_def)

lemma preserves_trans: "preserves L s t \<Longrightarrow> preserves L t u \<Longrightarrow> preserves L s u"
  using grows_trans by (auto simp: preserves_def)

definition unconstrained :: "intent_error \<Rightarrow> bool" where
  "unconstrained e \<longleftrightarrow> (\<forall>c. e \<noteq> WiConstraint c)"

lemma unconstrained_simps [simp]:
  "unconstrained WiZod" "unconstrained WiTypeError" "unconstrained WiPersisted" "unconstrained (WiError c)"
  "unconstrained (WiService w)"
  by (simp_all add: unconstrained_def)

lemma mapIntent_error: "mapIntent L r = Inl e \<Longrightarrow> unconstrained e"
  by (auto simp: mapIntent_def parseIntentRow_def bindr_def canonicalDocument_def canonicalJsonSha256_def
      split: if_splits sum.splits json.splits)

lemma mapIntent_unconstrained [simp]:
  "(case mapIntent L r of Inl e \<Rightarrow> unconstrained e | Inr q \<Rightarrow> P q) \<longleftrightarrow> (readable L r \<longrightarrow> P r)"
  by (auto dest: mapIntent_error split: sum.split)

text \<open>\<open>preserves\<close> is the shape of every result below.\<close>

lemma move_settles:
  assumes "preserves L s0 s"
    and "\<And>r. r \<in> set (isRows s) \<Longrightarrow> p r \<Longrightarrow>
      st \<in> transitions (wiState r) \<and> (wiState r = IFailed \<longrightarrow> st \<noteq> IReobserve)"
    and "\<And>t. preserves L s0 t \<Longrightarrow> t = s\<lparr>isRows := map (\<lambda>r. if p r then moved st now r else r) (isRows s)\<rparr> \<Longrightarrow>
      Q (length (filter p (isRows s))) t"
  shows "wpe (updateWhere p (moved st now)) Q F s"
  by (rule move_ok [of L]) (use assms grows_trans in \<open>auto simp: preserves_def\<close>)

lemma expire_settles:
  assumes "preserves L s0 s" and "\<And>n t. preserves L s0 t \<Longrightarrow> Q n t"
  shows "wpe (expirePrepared act sc now) Q F s"
  unfolding expirePrepared_def
  by (rule move_settles [OF assms(1)]) (auto simp: transitions_def intro: assms(2))

lemma row_settles:
  assumes "preserves L s0 s" and "\<not> isUuid L i \<Longrightarrow> F WiZod"
    and "i \<notin> wiId ` set (isRows s) \<Longrightarrow> isUuid L i \<Longrightarrow> Q None s"
    and "\<And>r. r \<in> set (isRows s) \<Longrightarrow> wiId r = i \<Longrightarrow> intent_checks r \<Longrightarrow> readable L r \<Longrightarrow> Q (Some r) s"
  shows "wpe (intentRow L i) Q F s"
  by (rule intentRow_ok [of L]) (use assms in \<open>auto simp: preserves_def\<close>)

lemma row_count:
  "preserves L s0 s \<Longrightarrow> r \<in> set (isRows s) \<Longrightarrow> P r \<Longrightarrow>
     length (filter (\<lambda>x. wiId x = wiId r \<and> P x) (isRows s)) = 1"
  by (rule one_row) (auto simp: preserves_def intents_ok_def intents_unique_iff)

lemma active_of_cases:
  "(case active_of act sc rs of
      None \<Rightarrow> \<forall>x \<in> set rs. wiAction x = act \<longrightarrow> wiScope x = sc \<longrightarrow> \<not> intent_active (wiState x)
    | Some r \<Rightarrow> r \<in> set rs \<and> wiAction r = act \<and> wiScope r = sc \<and> intent_active (wiState r))"
proof -
  let ?xs = "filter (\<lambda>r. wiAction r = act \<and> wiScope r = sc \<and> intent_active (wiState r)) rs"
  have "set (sort_by later_first ?xs) = set ?xs" by simp
  then show ?thesis
    unfolding active_of_def by (cases "sort_by later_first ?xs") (auto simp: filter_empty_conv)
qed

lemma text_length:
  assumes "canonicalDocument v n = Inr t"
  shows "t = documentText v" and "2 \<le> length t" and "length t \<le> n"
proof -
  from assms obtain kvs where v: "v = JObj kvs" and t: "t = documentText v" and n: "utf8_length t \<le> n"
    by (auto simp: canonicalDocument_def split: json.splits if_splits)
  then show "t = documentText v" and "2 \<le> length t" by (simp_all add: documentText_def)
  have "length t \<le> utf8_length t" for t by (induction t) (auto simp: utf8_length_def)
  with n show "length t \<le> n" by (meson order_trans)
qed

lemma insert_settles:
  assumes s: "preserves L s0 s" and v: "createInputSchema L v" and doc: "canonicalDocument (ciManifest v) 262144 = Inr m"
    and id: "i \<notin> wiId ` set (isRows s)"
    and free: "\<And>x. x \<in> set (isRows s) \<Longrightarrow> wiAction x = ciAction v \<Longrightarrow> wiScope x = ciScope v \<Longrightarrow> \<not> intent_active (wiState x)"
    and F: "\<And>e. unconstrained e \<Longrightarrow> F e" "validateStacksAddress L [] \<Longrightarrow> F (WiConstraint ''CHECK constraint failed'')"
    and Q: "\<And>t. preserves L s0 t \<Longrightarrow> isRows t = isRows s @ [fresh_intent i v] \<Longrightarrow> Q (fresh_intent i v, True) t"
  shows "wpe (insert_created L i v) Q F s"
proof (cases "intent_checks (fresh_intent i v)")
  case False
  have "validateStacksAddress L []"
  proof (rule ccontr)
    assume "\<not> validateStacksAddress L []"
    with v have sender: "1 \<le> length (ciSender v)" "length (ciSender v) \<le> 500"
      by (cases "ciSender v"; auto simp: createInputSchema_def principalSchema_def validatePrincipal_def)+
    from text_length [OF doc] have "2 \<le> length (documentText (ciManifest v))" "length (documentText (ciManifest v)) \<le> 262144"
      by blast+
    with sender v have "intent_checks (fresh_intent i v)"
      unfolding intent_checks_def createInputSchema_def identifierSchema_def
      by (intro conjI) (simp_all add: fresh_intent_def)
    with False show False by simp
  qed
  with False F show ?thesis by (simp add: insert_created_def insertIntent_def wpe_def ebind_def)
next
  case True
  let ?r = "fresh_intent i v" and ?t = "s\<lparr>isRows := isRows s @ [fresh_intent i v]\<rparr>"
  have fields: "wiId ?r = i" "wiTxid ?r = None" "scope_key ?r = (ciAction v, ciScope v)"
    by (simp_all add: fresh_intent_def scope_key_def)
  have ok: "intents_ok L s" using s by (simp add: preserves_def)
  from ok have old: "txids_unique (set (isRows s))" "scopes_unique (set (isRows s))" "distinct (map wiId (isRows s))"
    by (simp_all add: intents_ok_def intents_unique_iff)
  from old(1) have "txids_unique (insert ?r (set (isRows s)))"
    unfolding txids_unique_def by (metis fields(2) insertE)
  moreover have "scopes_unique (insert ?r (set (isRows s)))"
    using old(2) free fields(3) unfolding scopes_unique_def by (metis insertE fst_conv snd_conv scope_key_def)
  ultimately have unique: "intents_unique (isRows s @ [?r])"
    using old(3) id fields(1) by (simp add: intents_unique_iff)
  then have "insertIntent ?r s = (Inr (), ?t)" using True by (simp add: insertIntent_def)
  moreover have "row_find wiId i (isRows ?t) = Some ?r"
    using id fields by (simp add: row_find_append row_find_None_iff [THEN iffD2])
  moreover have "preserves L s0 ?t" if "readable L ?r"
  proof -
    have "grows s ?t" unfolding grows_def
      by (intro conjI exI [of _ "isRows s"] exI [of _ "[fresh_intent i v]"] exI [of _ "[]"])
         (auto simp: list_all2_same)
    moreover have "intents_ok L ?t" using ok unique True that by (auto simp: intents_ok_def)
    ultimately show ?thesis using s grows_trans by (auto simp: preserves_def)
  qed
  moreover have "F e" if "mapIntent L ?r = Inl e" for e
    using F(1) mapIntent_error [OF that] .
  ultimately show ?thesis
    using F(1) Q
    by (auto simp: insert_created_def wpe_def ebind_def intentRow_def eread_def parseIntentRow_def elift_def
        bindr_def split: sum.split)
qed

lemma one_active:
  assumes "intents_ok L s" and "x \<in> set (isRows s)" "y \<in> set (isRows s)"
    and "intent_active (wiState x)" "intent_active (wiState y)"
    and "wiAction x = wiAction y" "wiScope x = wiScope y"
  shows "wiId x = wiId y"
proof -
  have "scopes_unique (set (isRows s))" using assms(1) by (simp add: intents_ok_def intents_unique_iff)
  with assms show ?thesis unfolding scopes_unique_def scope_key_def by blast
qed

lemma same_row:
  assumes "intents_ok L s" and "x \<in> set (isRows s)" "y \<in> set (isRows s)" and "wiId x = wiId y"
  shows "x = y"
proof -
  have "distinct (map wiId (isRows s))" using assms(1) by (simp add: intents_ok_def intents_unique_iff)
  with assms(2-4) show ?thesis by (auto simp: distinct_map dest: inj_onD)
qed

definition create_error :: "tx_lib \<Rightarrow> intent_error \<Rightarrow> bool" where
  "create_error L e \<longleftrightarrow> unconstrained e \<or> validateStacksAddress L []"

lemma document_error: "canonicalDocument v n = Inl e \<Longrightarrow> unconstrained e"
  and digest_error: "canonicalJsonSha256 L v = Inl e \<Longrightarrow> unconstrained e"
  by (auto simp: canonicalDocument_def canonicalJsonSha256_def split: json.splits if_splits)

lemma replace_settles:
  assumes s: "preserves L s0 s" and v: "createInputSchema L v" and doc: "canonicalDocument (ciManifest v) 262144 = Inr m"
    and id: "i \<notin> wiId ` set (isRows s)"
    and r: "r \<in> set (isRows s)" "wiAction r = ciAction v" "wiScope r = ciScope v" "intent_active (wiState r)"
  shows "wpe (replace_active L i v m r) (\<lambda>_. preserves L s0) (create_error L) s"
proof -
  have ok: "intents_ok L s" using s by (simp add: preserves_def)
  let ?p = "\<lambda>x. wiId x = wiId r \<and> wiState x = IPrepared \<and> wiVersion x = wiVersion r"
  have "wpe (updateWhere ?p (moved ISuperseded (ciCreated v)))
      (\<lambda>n. wpe (ebind (eguard (n = 1) (WiError WiStateConflict)) (\<lambda>_. insert_created L i v)) (\<lambda>_. preserves L s0) (create_error L))
      (create_error L) s" if prepared: "wiState r = IPrepared"
  proof (rule move_settles [OF s])
    fix t
    assume t: "preserves L s0 t" "t = s\<lparr>isRows := map (\<lambda>x. if ?p x then moved ISuperseded (ciCreated v) x else x) (isRows s)\<rparr>"
    have "length (filter ?p (isRows s)) = 1"
      using row_count [OF s r(1), of "\<lambda>x. wiState x = IPrepared \<and> wiVersion x = wiVersion r"] prepared by simp
    moreover have "i \<notin> wiId ` set (isRows t)" using id t(2) by (auto simp: rev_image_eqI)
    moreover have "\<not> intent_active (wiState y)"
      if "y \<in> set (isRows t)" "wiAction y = ciAction v" "wiScope y = ciScope v" for y
    proof
      assume active: "intent_active (wiState y)"
      from that(1) obtain x where x: "x \<in> set (isRows s)" "y = (if ?p x then moved ISuperseded (ciCreated v) x else x)"
        unfolding t(2) by auto
      with active have "y = x" by (auto simp: activeStates_def split: if_splits)
      with x that active r have "wiId x = wiId r" by (intro one_active [OF ok]) simp_all
      then have "x = r" using same_row [OF ok x(1) r(1)] by simp
      with x(2) prepared have "wiState y = ISuperseded" by simp
      with active show False by (simp add: activeStates_def)
    qed
    ultimately show "wpe (ebind (eguard (length (filter ?p (isRows s)) = 1) (WiError WiStateConflict))
        (\<lambda>_. insert_created L i v)) (\<lambda>_. preserves L s0) (create_error L) t"
      using insert_settles [OF t(1) v doc] by (auto simp: create_error_def)
  qed (simp add: transitions_def)
  then show ?thesis
    using s unfolding replace_active_def
    by (auto simp: create_error_def bindr_def dest: mapIntent_error split: sum.split)
qed

lemma create_settles:
  assumes "intents_ok L s"
  shows "wpe (createIntent L u v) (\<lambda>_. preserves L s) (create_error L) s"
proof (cases "createInputSchema L v")
  case True
  let ?i = "case ciId v of None \<Rightarrow> u | Some i \<Rightarrow> i"
  have "wpe (expirePrepared (ciAction v) (ciScope v) (ciCreated v))
     (\<lambda>_. wpe (ebind (intentRow L ?i) (\<lambda>sameId. case sameId of
         Some r \<Rightarrow>
           if intentMatchesCreate r v \<and> documentText (wiManifest r) = m
           then elift (bindr (mapIntent L r) (\<lambda>r. Inr (r, False)))
           else ethrow (WiError WiActiveConflict)
       | None \<Rightarrow>
           ebind (eread (\<lambda>s. Inr (active_of (ciAction v) (ciScope v) (isRows s)))) (\<lambda>active.
           case active of
             None \<Rightarrow> insert_created L ?i v
           | Some r \<Rightarrow> ebind (elift (parseIntentRow L r)) (\<lambda>r. replace_active L ?i v m r))))
       (\<lambda>_. preserves L s) (create_error L)) (create_error L) s"
    if doc: "canonicalDocument (ciManifest v) 262144 = Inr m" for m
  proof (rule expire_settles [OF preserves_refl [OF assms]])
    fix n t assume t: "preserves L s t"
    have new: "wpe (ebind (eread (\<lambda>s. Inr (active_of (ciAction v) (ciScope v) (isRows s)))) (\<lambda>active.
           case active of
             None \<Rightarrow> insert_created L ?i v
           | Some r \<Rightarrow> ebind (elift (parseIntentRow L r)) (\<lambda>r. replace_active L ?i v m r)))
         (\<lambda>_. preserves L s) (create_error L) t" if id: "?i \<notin> wiId ` set (isRows t)"
    proof (cases "active_of (ciAction v) (ciScope v) (isRows t)")
      case None
      with active_of_cases [where act = "ciAction v" and sc = "ciScope v" and rs = "isRows t"]
      show ?thesis by (auto intro!: insert_settles [OF t True doc id] simp: create_error_def)
    next
      case (Some r)
      with active_of_cases [where act = "ciAction v" and sc = "ciScope v" and rs = "isRows t"]
      have r: "r \<in> set (isRows t)" "wiAction r = ciAction v" "wiScope r = ciScope v" "intent_active (wiState r)"
        by simp_all
      then have "readable L r" using t by (auto simp: preserves_def intents_ok_def)
      with Some replace_settles [OF t True doc id r] show ?thesis by simp
    qed
    show "wpe (ebind (intentRow L ?i) (\<lambda>sameId. case sameId of
         Some r \<Rightarrow>
           if intentMatchesCreate r v \<and> documentText (wiManifest r) = m
           then elift (bindr (mapIntent L r) (\<lambda>r. Inr (r, False)))
           else ethrow (WiError WiActiveConflict)
       | None \<Rightarrow>
           ebind (eread (\<lambda>s. Inr (active_of (ciAction v) (ciScope v) (isRows s)))) (\<lambda>active.
           case active of
             None \<Rightarrow> insert_created L ?i v
           | Some r \<Rightarrow> ebind (elift (parseIntentRow L r)) (\<lambda>r. replace_active L ?i v m r))))
       (\<lambda>_. preserves L s) (create_error L) t"
      unfolding wpe_ebind by (rule row_settles [OF t]) (use new t in \<open>auto simp: create_error_def\<close>)
  qed
  with True show ?thesis
    unfolding createIntent_def Let_def
    by (auto simp: create_error_def document_error digest_error split: sum.split)
qed (simp add: createIntent_def create_error_def)

lemma supersede_each_settles:
  assumes "preserves L s0 s" and "distinct (map wiId rs)"
    and "\<And>r. r \<in> set rs \<Longrightarrow> r \<in> set (isRows s) \<and>
      wiState r \<in> {IPrepared, ISubmitted, IMempool, IConfirmed, IReobserve}"
    and "\<And>t. preserves L s0 t \<Longrightarrow> Q () t"
  shows "wpe (supersede_each L now rs) Q F s"
  using assms(1-3)
proof (induction rs arbitrary: s)
  case Nil
  then show ?case using assms(4) by simp
next
  case (Cons r rs)
  have r: "r \<in> set (isRows s)" "wiState r \<in> {IPrepared, ISubmitted, IMempool, IConfirmed, IReobserve}"
    using Cons.prems(3) by simp_all
  then have "readable L r" using Cons.prems(1) by (auto simp: preserves_def intents_ok_def)
  let ?p = "\<lambda>x. wiId x = wiId r \<and> wiState x = wiState r \<and> wiVersion x = wiVersion r"
  have "wpe (updateWhere ?p (moved ISuperseded now))
     (\<lambda>n. wpe (ebind (eguard (n = 1) (WiError WiStateConflict)) (\<lambda>_. supersede_each L now rs)) Q F) F s"
  proof (rule move_settles [OF Cons.prems(1)])
    fix t assume t: "preserves L s0 t" "t = s\<lparr>isRows := map (\<lambda>x. if ?p x then moved ISuperseded now x else x) (isRows s)\<rparr>"
    have "length (filter ?p (isRows s)) = 1"
      using row_count [OF Cons.prems(1) r(1), of "\<lambda>x. wiState x = wiState r \<and> wiVersion x = wiVersion r"] by simp
    moreover have "wpe (supersede_each L now rs) Q F t"
    proof (rule Cons.IH [OF t(1)])
      fix q assume q: "q \<in> set rs"
      then have "wiId q \<noteq> wiId r" using Cons.prems(2) by (auto simp: rev_image_eqI)
      then show "q \<in> set (isRows t) \<and> wiState q \<in> {IPrepared, ISubmitted, IMempool, IConfirmed, IReobserve}"
        using Cons.prems(3) [of q] q unfolding t(2) by (auto intro!: rev_image_eqI [of q])
    qed (use Cons.prems(2) in simp)
    ultimately show "wpe (ebind (eguard (length (filter ?p (isRows s)) = 1) (WiError WiStateConflict))
        (\<lambda>_. supersede_each L now rs)) Q F t" by simp
  qed (use r(2) in \<open>auto simp: transitions_def\<close>)
  with \<open>readable L r\<close> show ?case by simp
qed

lemma reread_settles:
  assumes "preserves L s0 s" and "\<And>e. unconstrained e \<Longrightarrow> F e" and "\<And>xs. Q xs s"
  shows "wpe (reread_each L rs) Q F s"
  using assms(3)
proof (induction rs arbitrary: Q)
  case (Cons r rs)
  show ?case unfolding reread_each.simps wpe_ebind
    by (rule row_settles [OF assms(1)]) (use Cons assms(2) in auto)
qed simp

lemma supersede_settles:
  assumes "intents_ok L s"
  shows "wpe (supersedeActiveEquivalent L i now) (\<lambda>_. preserves L s) unconstrained s"
proof -
  have same: "preserves L s s" using assms by (rule preserves_refl)
  have "wpe (ebind (supersede_each L now rs) (\<lambda>_. reread_each L rs)) (\<lambda>_. preserves L s) unconstrained s"
    if rs: "rs = sort_by earlier_first (filter (equivalent_to w) (isRows s))" for rs w
  proof -
    have "distinct (map wiId (isRows s))" using assms by (simp add: intents_ok_def intents_unique_iff)
    then have "distinct (map wiId rs)" unfolding rs by (simp add: distinct_map_filter)
    then show ?thesis unfolding wpe_ebind
      by (intro supersede_each_settles [OF same] reread_settles) (auto simp: rs equivalent_to_def)
  qed
  then show ?thesis unfolding supersedeActiveEquivalent_def wpe_basic wpe_ebind
    by (intro row_settles [OF same]) auto
qed

lemma find_settles:
  assumes "intents_ok L s"
  shows "wpe (findActiveScope L act sc now) (\<lambda>_. preserves L s) unconstrained s"
proof -
  have "wpe (expirePrepared act sc now) (\<lambda>_. wpe (eread (\<lambda>s. case active_of act sc (isRows s) of None \<Rightarrow> Inr None
       | Some r \<Rightarrow> bindr (mapIntent L r) (\<lambda>r. Inr (Some r)))) (\<lambda>_. preserves L s) unconstrained) unconstrained s"
    by (rule expire_settles [OF preserves_refl [OF assms]])
       (auto simp: bindr_def dest: mapIntent_error split: option.split sum.split)
  then show ?thesis by (simp add: findActiveScope_def)
qed

end
