(* ===== verification/Intent_Safety.thy ===== *)
theory Intent_Safety
  imports Intent_Tables
begin

text \<open>
  What the repository of wallet intents guarantees, whatever sequence of operations is run on it: one
  active intent per action and scope, one intent per transaction, rows that can be read back and follow
  the lifecycle; which operations can meet a table constraint; and what a late submission does.
\<close>

subsection \<open>Submission\<close>

definition bound :: "intent_state \<Rightarrow> txid \<Rightarrow> instant \<Rightarrow> intent \<Rightarrow> intent" where
  "bound st t now r = moved st now r\<lparr>wiTxid := Some t, wiSubmitted := Some now\<rparr>"

lemma bound_simps [simp]:
  "wiId (bound st t now r) = wiId r" "wiState (bound st t now r) = st" "wiTxid (bound st t now r) = Some t"
  "wiSubmitted (bound st t now r) = Some now" "scope_key (bound st t now r) = scope_key r"
  "intent_binding (bound st t now r) = intent_binding r" "wiVersion (bound st t now r) = Suc (wiVersion r)"
  by (simp_all add: bound_def scope_key_def intent_binding_def moved_def)

lemma bound_row:
  assumes "intent_checks r" "readable L r" "wiTxid r = None" "indexBlockHashSchema t"
    and "wiState r \<in> {IPrepared, IExpired, ISuperseded}" "st \<in> {ISubmitted, ISuperseded}"
  shows "intent_frozen r (bound st t now r)" "intent_checks (bound st t now r)"
    "readable L (bound st t now r)" "intent_step r (bound st t now r)"
proof -
  have "wiSubmitted r = None" using assms(1,3) by (auto simp: intent_checks_def)
  with assms(3) show "intent_frozen r (bound st t now r)" by (simp add: intent_frozen_def)
  show "intent_checks (bound st t now r)"
    using assms(1,4,6) unfolding intent_checks_def by (auto simp: bound_def moved_def)
  show "readable L (bound st t now r)"
    using assms(2,4) unfolding readable_def mapIntent_def parseIntentRow_def walletIntentRowSchema_def
    by (auto simp: bound_def moved_def split: if_splits)
  show "intent_step r (bound st t now r)" using assms(3,5,6) by (intro submits) auto
qed

text \<open>Taking the scope: afterwards no other intent of it is active, unless one is already broadcast.\<close>

definition scope_free :: "intent \<Rightarrow> intent_store \<Rightarrow> bool" where
  "scope_free r s \<longleftrightarrow> (\<forall>x \<in> set (isRows s). wiId x \<noteq> wiId r \<longrightarrow> scope_key x = scope_key r \<longrightarrow>
     \<not> intent_active (wiState x))"

definition scope_broadcast :: "intent \<Rightarrow> intent_store \<Rightarrow> bool" where
  "scope_broadcast r s \<longleftrightarrow> (\<exists>x \<in> set (isRows s). wiId x \<noteq> wiId r \<and> scope_key x = scope_key r \<and>
     wiState x \<in> broadcastStates)"

lemma active_states: "intent_active st \<longleftrightarrow> st = IPrepared \<or> st \<in> broadcastStates"
  by (cases st) (simp_all add: activeStates_def broadcastStates_def)

lemma claim_settles:
  assumes s: "preserves L s0 s" and r: "r \<in> set (isRows s)" "wiState r \<in> {IPrepared, IExpired, ISuperseded}"
    and Q: "\<And>st t. preserves L s0 t \<Longrightarrow> r \<in> set (isRows t) \<Longrightarrow> map wiTxid (isRows t) = map wiTxid (isRows s) \<Longrightarrow>
      st = (if scope_broadcast r s then ISuperseded else ISubmitted) \<Longrightarrow>
      (\<not> scope_broadcast r s \<longrightarrow> scope_free r t) \<Longrightarrow> Q st t"
  shows "wpe (claim_scope r now) Q F s"
proof -
  have ok: "intents_ok L s" using s by (simp add: preserves_def)
  have broadcast: "list_ex (\<lambda>x. wiState x \<noteq> IPrepared) (competing r (isRows s)) \<longleftrightarrow> scope_broadcast r s"
    by (auto simp: list_ex_iff competing_def scope_broadcast_def active_states scope_key_def broadcastStates_def)
  have alone: "scope_free r s \<and> \<not> scope_broadcast r s" if "wiState r = IPrepared"
  proof -
    have "wiId x = wiId r" if "x \<in> set (isRows s)" "intent_active (wiState x)" "scope_key x = scope_key r" for x
      using that r(1) \<open>wiState r = IPrepared\<close> by (intro one_active [OF ok]) (auto simp: scope_key_def activeStates_def)
    then show ?thesis by (auto simp: scope_free_def scope_broadcast_def active_states)
  qed
  let ?p = "\<lambda>x. wiId x \<noteq> wiId r \<and> wiAction x = wiAction r \<and> wiScope x = wiScope r \<and> wiState x = IPrepared"
  have "wpe (updateWhere ?p (moved ISuperseded now)) (\<lambda>_. Q ISubmitted) F s"
    if "wiState r \<noteq> IPrepared" and none: "\<not> scope_broadcast r s"
  proof (rule move_settles [OF s])
    fix t assume t: "preserves L s0 t" "t = s\<lparr>isRows := map (\<lambda>x. if ?p x then moved ISuperseded now x else x) (isRows s)\<rparr>"
    have "scope_free r t"
      unfolding scope_free_def t(2)
      using none by (auto simp: scope_broadcast_def active_states scope_key_def broadcastStates_def)
    moreover have "r \<in> set (isRows t)" using r(1) unfolding t(2) by (auto intro!: rev_image_eqI [of r])
    moreover have "map wiTxid (isRows t) = map wiTxid (isRows s)" unfolding t(2) by simp
    ultimately show "Q ISubmitted t" using t(1) none by (intro Q) simp_all
  qed (simp add: transitions_def)
  then have "wpe (ebind (updateWhere ?p (moved ISuperseded now)) (\<lambda>_. eret ISubmitted)) Q F s"
    if "wiState r \<noteq> IPrepared" "\<not> scope_broadcast r s" using that by simp
  moreover have "Q ISuperseded s" if "scope_broadcast r s" using that s r(1) by (intro Q) simp_all
  moreover have "Q ISubmitted s" if "wiState r = IPrepared" using alone [OF that] s r(1) by (intro Q) simp_all
  ultimately show ?thesis
    using r(2) alone unfolding wpe_def claim_scope_def broadcast by auto
qed

text \<open>Changing the single row \<open>r\<close> keeps uniqueness when its new transaction is new and its scope free.\<close>

lemma row_unique:
  assumes ok: "intents_ok L s" and hit: "\<And>x. x \<in> set (isRows s) \<Longrightarrow> p x \<Longrightarrow> x = r"
    and same: "wiId (f r) = wiId r" "scope_key (f r) = scope_key r"
    and fresh: "wiTxid (f r) = wiTxid r \<or> (\<forall>x \<in> set (isRows s). wiTxid x \<noteq> wiTxid (f r))"
    and free: "intent_active (wiState (f r)) \<Longrightarrow> scope_free r s"
  shows "txids_unique ((\<lambda>x. if p x then f x else x) ` set (isRows s))"
    and "scopes_unique ((\<lambda>x. if p x then f x else x) ` set (isRows s))"
proof -
  let ?g = "\<lambda>x. if p x then f x else x"
  have unique: "txids_unique (set (isRows s))" "scopes_unique (set (isRows s))"
    using ok by (simp_all add: intents_ok_def intents_unique_iff)
  have new: "?g x = (if p x then f r else x)" if "x \<in> set (isRows s)" for x using hit [OF that] by simp
  have ids: "wiId (?g x) = wiId x" if "x \<in> set (isRows s)" for x using hit [OF that] same(1) by auto
  show "txids_unique (?g ` set (isRows s))"
    unfolding txids_unique_def ball_simps
  proof (intro ballI impI)
    fix x y assume x: "x \<in> set (isRows s)" "y \<in> set (isRows s)"
      and eq: "wiTxid (?g x) \<noteq> None" "wiTxid (?g x) = wiTxid (?g y)"
    have old: "wiId x = wiId y" if "wiTxid x \<noteq> None" "wiTxid x = wiTxid y"
      using unique(1) x that unfolding txids_unique_def by blast
    have "wiId x = wiId y"
    proof (cases "p x"; cases "p y")
      assume p: "p x" "p y"
      with hit [OF x(1)] hit [OF x(2)] show ?thesis by simp
    next
      assume p: "p x" "\<not> p y"
      with eq hit [OF x(1)] fresh x(2) have "wiTxid x \<noteq> None \<and> wiTxid x = wiTxid y" by auto
      with old show ?thesis by blast
    next
      assume p: "\<not> p x" "p y"
      with eq hit [OF x(2)] fresh x(1) have "wiTxid x \<noteq> None \<and> wiTxid x = wiTxid y" by auto
      with old show ?thesis by blast
    next
      assume "\<not> p x" "\<not> p y"
      with eq have "wiTxid x \<noteq> None \<and> wiTxid x = wiTxid y" by simp
      with old show ?thesis by blast
    qed
    with ids x show "wiId (?g x) = wiId (?g y)" by simp
  qed
  show "scopes_unique (?g ` set (isRows s))"
    unfolding scopes_unique_def ball_simps
  proof (intro ballI impI)
    fix x y assume x: "x \<in> set (isRows s)" "y \<in> set (isRows s)"
      and eq: "intent_active (wiState (?g x))" "intent_active (wiState (?g y))" "scope_key (?g x) = scope_key (?g y)"
    have other: "wiId q = wiId r"
      if "intent_active (wiState (f r))" "q \<in> set (isRows s)" "intent_active (wiState q)" "scope_key q = scope_key r" for q
      using that free [OF that(1)] by (auto simp: scope_free_def)
    have "wiId x = wiId y"
    proof (cases "p x"; cases "p y")
      assume p: "p x" "p y"
      with hit [OF x(1)] hit [OF x(2)] show ?thesis by simp
    next
      assume p: "p x" "\<not> p y"
      with eq x hit [OF x(1)] other [of y] same(2) show ?thesis by auto
    next
      assume p: "\<not> p x" "p y"
      with eq x hit [OF x(2)] other [of x] same(2) show ?thesis by auto
    next
      assume p: "\<not> p x" "\<not> p y"
      with eq have "intent_active (wiState x)" "intent_active (wiState y)" "scope_key x = scope_key y" by simp_all
      with x unique(2) show ?thesis unfolding scopes_unique_def by blast
    qed
    with ids x show "wiId (?g x) = wiId (?g y)" by simp
  qed
qed

lemma bind_settles:
  assumes s: "preserves L s0 s" and r: "r \<in> set (isRows s)" "wiState r \<in> {IPrepared, IExpired, ISuperseded}"
    and t: "wiTxid r = None" "indexBlockHashSchema t" "Some t \<notin> wiTxid ` set (isRows s)"
    and Q: "\<And>u. preserves L s0 u \<Longrightarrow> bound (if scope_broadcast r s then ISuperseded else ISubmitted) t now r \<in> set (isRows u) \<Longrightarrow>
      (\<not> scope_broadcast r s \<longrightarrow> scope_free r u) \<Longrightarrow>
      Q (Inr (bound (if scope_broadcast r s then ISuperseded else ISubmitted) t now r)) u"
  shows "wpe (bind_txid L r t now) Q F s"
  unfolding bind_txid_def wpe_ebind
proof (rule claim_settles [OF s r])
  fix st s1
  assume s1: "preserves L s0 s1" "r \<in> set (isRows s1)" "map wiTxid (isRows s1) = map wiTxid (isRows s)"
    and st: "st = (if scope_broadcast r s then ISuperseded else ISubmitted)"
    and free: "\<not> scope_broadcast r s \<longrightarrow> scope_free r s1"
  have ok: "intents_ok L s1" using s1(1) by (simp add: preserves_def)
  let ?p = "\<lambda>x. wiId x = wiId r \<and> wiState x \<in> {IPrepared, IExpired, ISuperseded} \<and>
         wiVersion x = wiVersion r \<and> wiTxid x = None"
  let ?g = "\<lambda>x. if ?p x then bound st t now x else x"
  have hit: "x = r" if "x \<in> set (isRows s1)" "?p x" for x
    using same_row [OF ok that(1) s1(2)] that(2) by simp
  have fresh: "wiTxid x \<noteq> Some t" if "x \<in> set (isRows s1)" for x
    using that t(3) arg_cong [OF s1(3), of set] by (auto simp: rev_image_eqI)
  have "wpe (updateWhere ?p (bound st t now))
     (\<lambda>n. wpe (if n \<noteq> 1 then eret (Inl (WiError WiStateConflict))
       else ebind (intentRow L (wiId r)) (\<lambda>x. case x of None \<Rightarrow> ethrow WiPersisted
       | Some x \<Rightarrow> ebind (elift (mapIntent L x)) (\<lambda>x. eret (Inr x)))) Q F) F s1"
  proof (rule updateWhere_ok [OF ok])
    fix x assume "x \<in> set (isRows s1)" "?p x"
    then have "x = r" by (rule hit)
    moreover have "intent_checks r" "readable L r" using ok s1(2) by (auto simp: intents_ok_def)
    ultimately show "intent_frozen x (bound st t now x) \<and> intent_checks (bound st t now x) \<and>
        readable L (bound st t now x) \<and> intent_step x (bound st t now x)"
      using bound_row [of r L t st now] t r(2) st by auto
  next
    have taken: "scope_free r s1" if "intent_active st"
      using that free st by (auto simp: activeStates_def split: if_splits)
    show "txids_unique (?g ` set (isRows s1))" and "scopes_unique (?g ` set (isRows s1))"
      by (rule row_unique [OF ok hit]; use fresh taken in simp)+
  next
    fix u
    assume u: "intents_ok L u" "grows s1 u" "u = s1\<lparr>isRows := map ?g (isRows s1)\<rparr>"
    then have settled: "preserves L s0 u" using s1(1) grows_trans by (auto simp: preserves_def)
    have count: "length (filter ?p (isRows s1)) = 1"
      using row_count [OF s1(1,2), of "\<lambda>x. wiState x \<in> {IPrepared, IExpired, ISuperseded} \<and> wiVersion x = wiVersion r \<and> wiTxid x = None"] r(2) t(1)
      by simp
    have b: "bound st t now r \<in> set (isRows u)"
      using s1(2) r(2) t(1) unfolding u(3) by (auto intro!: rev_image_eqI [of r])
    have f: "scope_free r u" if "\<not> scope_broadcast r s"
      using free that unfolding u(3) scope_free_def by auto
    have "wpe (intentRow L (wiId r)) (\<lambda>x. wpe (case x of None \<Rightarrow> ethrow WiPersisted
       | Some x \<Rightarrow> ebind (elift (mapIntent L x)) (\<lambda>x. eret (Inr x))) Q F) F u"
    proof (rule row_settles [OF settled])
      fix q assume q: "q \<in> set (isRows u)" "wiId q = wiId r" "readable L q"
      then have "q = bound st t now r" using same_row [OF u(1) _ b] by simp
      then show "wpe (case Some q of None \<Rightarrow> ethrow WiPersisted
       | Some x \<Rightarrow> ebind (elift (mapIntent L x)) (\<lambda>x. eret (Inr x))) Q F u"
        using q(3) b f Q [OF settled] unfolding st by simp
    next
      assume "\<not> isUuid L (wiId r)"
      moreover have "readable L r" using ok s1(2) by (auto simp: intents_ok_def)
      ultimately show "F WiZod" using readable_row by (auto simp: walletIntentRowSchema_def)
    next
      assume "wiId r \<notin> wiId ` set (isRows u)"
      moreover have "wiId r \<in> wiId ` set (isRows u)" using imageI [OF b, of wiId] by simp
      ultimately show "wpe (case None of None \<Rightarrow> ethrow WiPersisted
       | Some x \<Rightarrow> ebind (elift (mapIntent L x)) (\<lambda>x. eret (Inr x))) Q F u" by contradiction
    qed
    then show "wpe (if length (filter ?p (isRows s1)) \<noteq> 1 then eret (Inl (WiError WiStateConflict))
       else ebind (intentRow L (wiId r)) (\<lambda>x. case x of None \<Rightarrow> ethrow WiPersisted
       | Some x \<Rightarrow> ebind (elift (mapIntent L x)) (\<lambda>x. eret (Inr x)))) Q F u"
      using count by simp
  qed
  then show "wpe (updateWhere ?p (\<lambda>x. moved st now x\<lparr>wiTxid := Some t, wiSubmitted := Some now\<rparr>))
     (\<lambda>n. wpe (if n \<noteq> 1 then eret (Inl (WiError WiStateConflict))
       else ebind (intentRow L (wiId r)) (\<lambda>x. case x of None \<Rightarrow> ethrow WiPersisted
       | Some x \<Rightarrow> ebind (elift (mapIntent L x)) (\<lambda>x. eret (Inr x)))) Q F) F s1"
    unfolding bound_def .
qed

lemma submit_once_settles:
  assumes "intents_ok L s" and "indexBlockHashSchema t"
  shows "wpe (submit_once L i t now) (\<lambda>x u. preserves L s u \<and> (\<forall>e. x = Inl e \<longrightarrow> u = s \<and> unconstrained e)) unconstrained s"
proof -
  have same: "preserves L s s" using assms(1) by (rule preserves_refl)
  have "wpe (\<lambda>s. if row_find wiTxid (Some t) (isRows s) \<noteq> None
             then (Inr (Inl (WiError WiDuplicateTxid)), s) else bind_txid L r t now s)
          (\<lambda>x u. preserves L s u \<and> (\<forall>e. x = Inl e \<longrightarrow> u = s \<and> unconstrained e)) unconstrained s"
    if "r \<in> set (isRows s)" "wiState r \<in> {IPrepared, IExpired, ISuperseded}" "wiTxid r = None" for r
  proof (cases "row_find wiTxid (Some t) (isRows s)")
    case None
    then have "Some t \<notin> wiTxid ` set (isRows s)" by (simp add: row_find_None_iff)
    then have "wpe (bind_txid L r t now)
        (\<lambda>x u. preserves L s u \<and> (\<forall>e. x = Inl e \<longrightarrow> u = s \<and> unconstrained e)) unconstrained s"
      by (intro bind_settles [OF same that(1,2,3) assms(2)]) simp_all
    with None show ?thesis by (simp add: wpe_def)
  qed (use same in \<open>simp add: wpe_def\<close>)
  then show ?thesis unfolding submit_once_def wpe_ebind
    by (intro row_settles [OF same]) (use same in \<open>auto\<close>)
qed

lemma submit_settles:
  assumes "intents_ok L s"
  shows "preserves L s (snd (submitIntent L i t now s)) \<and>
    (\<forall>e. fst (submitIntent L i t now s) = Inl e \<longrightarrow> unconstrained e)"
  using submit_once_settles [OF assms, of t i now] preserves_refl [OF assms]
  by (auto simp: submitIntent_def wpe_def monad_defs immediate_def split: sum.splits prod.splits if_splits)

subsection \<open>Transitions and observations\<close>

text \<open>
  The transition table lets a failed intent be observed again, although that activates it: it is the
  one operation that can meet a constraint, when the intent was never submitted or its scope has
  another active intent.
\<close>

definition reobserve_blocked :: "string \<Rightarrow> intent_store \<Rightarrow> bool" where
  "reobserve_blocked i s \<longleftrightarrow> (\<exists>r \<in> set (isRows s). wiId r = i \<and> wiState r = IFailed \<and>
     (wiTxid r = None \<or> \<not> scope_free r s))"

lemma moved_fits:
  assumes "intent_checks r" "readable L r" "st \<in> transitions (wiState r)" "state_fits st (wiTxid r)"
  shows "intent_frozen r (moved st now r) \<and> intent_checks (moved st now r) \<and>
    readable L (moved st now r) \<and> intent_step r (moved st now r)"
  using assms by (auto simp: intent_frozen_def moved_checks intro!: transits)

text \<open>The rows of all other intents.\<close>

definition other_rows :: "string \<Rightarrow> intent_store \<Rightarrow> intent list" where
  "other_rows i s = filter (\<lambda>x. wiId x \<noteq> i) (isRows s)"

lemma other_rows_updated:
  "(\<And>x. p x \<Longrightarrow> wiId x = i) \<Longrightarrow> (\<And>x. wiId (f x) = wiId x) \<Longrightarrow>
    other_rows i (s\<lparr>isRows := map (\<lambda>x. if p x then f x else x) (isRows s)\<rparr>) = other_rows i s"
proof -
  assume p: "\<And>x. p x \<Longrightarrow> wiId x = i" "\<And>x. wiId (f x) = wiId x"
  have "filter (\<lambda>x. wiId x \<noteq> i) (map (\<lambda>x. if p x then f x else x) xs) = filter (\<lambda>x. wiId x \<noteq> i) xs" for xs
    using p by (induction xs) auto
  then show ?thesis by (simp add: other_rows_def)
qed

lemma transition_update:
  assumes ok: "intents_ok L s" and r: "r \<in> set (isRows s)" "wiState r \<in> set from" "to \<in> transitions (wiState r)"
    and unblocked: "\<not> (to = IReobserve \<and> reobserve_blocked (wiId r) s)"
    and Q: "\<And>u. preserves L s u \<Longrightarrow> moved to now r \<in> set (isRows u) \<Longrightarrow>
      other_rows (wiId r) u = other_rows (wiId r) s \<Longrightarrow> Q 1 u"
  shows "wpe (updateWhere (\<lambda>x. wiId x = wiId r \<and> wiVersion x = wiVersion r \<and> wiState x \<in> set from)
     (moved to now)) Q F s"
proof (rule updateWhere_ok [OF ok])
  let ?p = "\<lambda>x. wiId x = wiId r \<and> wiVersion x = wiVersion r \<and> wiState x \<in> set from"
  have row: "intent_checks r" "readable L r" using ok r(1) by (auto simp: intents_ok_def)
  have hit: "x = r" if "x \<in> set (isRows s)" "?p x" for x using same_row [OF ok that(1) r(1)] that(2) by simp
  have reopened: "wiTxid r \<noteq> None \<and> scope_free r s" if "wiState r = IFailed" "to = IReobserve"
    using unblocked r(1) that by (auto simp: reobserve_blocked_def)
  have fits: "state_fits to (wiTxid r)"
    using transition_fits(1) [OF checks_state [OF row(1)] r(3)] reopened by (auto simp: state_fits_def)
  show "intent_frozen x (moved to now x) \<and> intent_checks (moved to now x) \<and>
      readable L (moved to now x) \<and> intent_step x (moved to now x)"
    if "x \<in> set (isRows s)" "?p x" for x
    using hit [OF that] moved_fits [OF row r(3) fits] by simp
  have alone: "scope_free r s" if "intent_active (wiState r)"
    using one_active [OF ok _ r(1) _ that] by (auto simp: scope_free_def scope_key_def)
  have free: "scope_free r s" if "intent_active to"
  proof (cases "wiState r = IFailed \<and> to = IReobserve")
    case False
    then show ?thesis using transition_fits(2) [OF checks_state [OF row(1)] r(3)] alone that by blast
  qed (use reopened in blast)
  show "txids_unique ((\<lambda>x. if ?p x then moved to now x else x) ` set (isRows s))"
    and "scopes_unique ((\<lambda>x. if ?p x then moved to now x else x) ` set (isRows s))"
    by (rule row_unique [OF ok hit]; use free in simp)+
  fix u assume u: "intents_ok L u" "grows s u" "u = s\<lparr>isRows := map (\<lambda>x. if ?p x then moved to now x else x) (isRows s)\<rparr>"
  have "length (filter ?p (isRows s)) = 1"
    using row_count [OF preserves_refl [OF ok] r(1), of "\<lambda>x. wiVersion x = wiVersion r \<and> wiState x \<in> set from"] r(2)
    by simp
  moreover have "moved to now r \<in> set (isRows u)"
    using r(1,2) unfolding u(3) by (auto intro!: rev_image_eqI [of r])
  moreover have "other_rows (wiId r) u = other_rows (wiId r) s"
    unfolding u(3) by (rule other_rows_updated) simp_all
  ultimately show "Q (length (filter ?p (isRows s))) u" using Q u by (simp add: preserves_def)
qed

lemma transition_settles:
  assumes ok: "intents_ok L s" and unblocked: "\<not> (to = IReobserve \<and> IFailed \<in> set from \<and> reobserve_blocked i s)"
  shows "wpe (transitionIntent L i from to now) (\<lambda>_. preserves L s) unconstrained s"
proof -
  have same: "preserves L s s" using ok by (rule preserves_refl)
  have "wpe (updateWhere (\<lambda>x. wiId x = i \<and> wiVersion x = wiVersion r \<and> wiState x \<in> set from) (moved to now))
     (\<lambda>n. wpe (ebind (eguard (n = 1) (WiError WiStateConflict)) (\<lambda>_.
                ebind (intentRow L i) (\<lambda>x. case x of
                    None \<Rightarrow> ethrow WiPersisted
                  | Some x \<Rightarrow> elift (mapIntent L x)))) (\<lambda>_. preserves L s) unconstrained) unconstrained s"
    if r: "r \<in> set (isRows s)" "wiId r = i" "wiState r \<in> set from" "to \<in> transitions (wiState r)" for r
    unfolding r(2) [symmetric]
  proof (rule transition_update [OF ok r(1,3,4)])
    show "\<not> (to = IReobserve \<and> reobserve_blocked (wiId r) s)"
    proof
      assume blocked: "to = IReobserve \<and> reobserve_blocked (wiId r) s"
      then have "wiState r = IFailed" using same_row [OF ok _ r(1)] unfolding reobserve_blocked_def by metis
      with blocked unblocked r(2,3) show False by simp
    qed
    fix u assume "preserves L s u"
    then show "wpe (ebind (eguard (1 = 1) (WiError WiStateConflict)) (\<lambda>_.
                ebind (intentRow L (wiId r)) (\<lambda>x. case x of
                    None \<Rightarrow> ethrow WiPersisted
                  | Some x \<Rightarrow> elift (mapIntent L x)))) (\<lambda>_. preserves L s) unconstrained u"
      unfolding wpe_ebind wpe_eguard by (auto intro: row_settles)
  qed
  then show ?thesis unfolding transitionIntent_def wpe_ebind wpe_eguard wpe_basic
    by (auto intro!: row_settles [OF same] simp: same)
qed

lemma transition_blocked:
  assumes ok: "intents_ok L s" and "isUuid L i" "IFailed \<in> set from" and blocked: "reobserve_blocked i s"
  shows "\<exists>c. transitionIntent L i from IReobserve now s = (Inl (WiConstraint c), s)"
proof -
  from blocked obtain r where r: "r \<in> set (isRows s)" "wiId r = i" "wiState r = IFailed"
      "wiTxid r = None \<or> \<not> scope_free r s"
    unfolding reobserve_blocked_def by blast
  have row: "intent_checks r" "readable L r" using ok r(1) by (auto simp: intents_ok_def)
  have distinct: "distinct (map wiId (isRows s))" using ok by (simp add: intents_ok_def intents_unique_iff)
  let ?p = "\<lambda>x. wiId x = i \<and> wiVersion x = wiVersion r \<and> wiState x \<in> set from"
  let ?g = "\<lambda>x. if ?p x then moved IReobserve now x else x"
  have p: "?p r" using r assms(3) by simp
  have "\<not> intents_unique (map ?g (isRows s))" if "wiTxid r \<noteq> None"
  proof -
    from that r(4) obtain x where x: "x \<in> set (isRows s)" "wiId x \<noteq> wiId r" "scope_key x = scope_key r"
        "intent_active (wiState x)"
      by (auto simp: scope_free_def)
    then have gx: "?g x = x" and gr: "?g r = moved IReobserve now r" using r(2) p by simp_all
    have "?g x \<in> ?g ` set (isRows s)" by (rule imageI [OF x(1)])
    then have "x \<in> ?g ` set (isRows s)" unfolding gx .
    moreover have "?g r \<in> ?g ` set (isRows s)" by (rule imageI [OF r(1)])
    then have "moved IReobserve now r \<in> ?g ` set (isRows s)" unfolding gr .
    moreover have "intent_active (wiState (moved IReobserve now r))" by (simp add: activeStates_def)
    moreover have "scope_key x = scope_key (moved IReobserve now r)" "wiId x \<noteq> wiId (moved IReobserve now r)"
      using x(2,3) by simp_all
    ultimately have "\<not> scopes_unique (?g ` set (isRows s))"
      using x(4) unfolding scopes_unique_def by blast
    then have "\<not> scopes_unique (set (map ?g (isRows s)))" unfolding list.set_map .
    then show ?thesis unfolding intents_unique_iff by blast
  qed
  moreover have "\<not> intent_checks (moved IReobserve now r)" if "wiTxid r = None"
    using that row(1) by (simp add: moved_checks state_fits_def)
  ultimately have "\<exists>c. updateWhere ?p (moved IReobserve now) s = (Inl (WiConstraint c), s)"
    using p r(1) unfolding updateWhere_def Let_def list_all_iff by (cases "wiTxid r = None") auto
  moreover have "row_find wiId i (isRows s) = Some r"
    using row_find_unique [OF distinct r(1)] r(2) by simp
  ultimately show ?thesis
    using assms(2,3) r(3) row(2)
    by (auto simp: transitionIntent_def monad_defs immediate_def intentRow_def transitions_def)
qed

text \<open>
  The input schema and the size limits of the evidence make the constraints of the observation table
  redundant; the row they admit can be read back.
\<close>

lemma outcome_words_chars: "outcome_words s \<Longrightarrow> list_all (\<lambda>c. is_outcome_char c \<or> c = CHR ''-'') s"
  by (induction s rule: outcome_words.induct) (auto split: if_splits)

lemma observation_admitted:
  assumes v: "appendObservationInputSchema L v" and "\<not> raw_evidence 0 (aoEvidence v)"
    and doc: "canonicalDocument (aoEvidence v) 32768 = Inr t"
  shows "observation_checks (observation_of i v)" and "isUuid L i \<Longrightarrow> readable_observation L (observation_of i v)"
proof -
  from text_length [OF doc] have "2 \<le> length (documentText (aoEvidence v))" "length (documentText (aoEvidence v)) \<le> 32768"
    by blast+
  with v show "observation_checks (observation_of i v)"
    using outcome_words_chars [of "aoOutcome v"]
    unfolding observation_checks_def appendObservationInputSchema_def outcomeSchema_def
    by (intro conjI) (simp_all add: observation_of_def)
  show "readable_observation L (observation_of i v)" if "isUuid L i"
    using that assms(1,2) doc unfolding readable_observation_def mapObservation_def observationRowSchema_def
      appendObservationInputSchema_def assertNoRawTransactionEvidence_def
    by (simp add: observation_of_def)
qed

lemma append_settles:
  assumes ok: "intents_ok L s"
  shows "preserves L s (snd (appendObservation L u v s)) \<and>
    (\<forall>e. fst (appendObservation L u v s) = Inl e \<longrightarrow> unconstrained e)"
proof (cases "appendObservationInputSchema L v \<and> \<not> raw_evidence 0 (aoEvidence v)")
  case False
  then show ?thesis
    using preserves_refl [OF ok]
    by (auto simp: appendObservation_def Let_def monad_defs assertNoRawTransactionEvidence_def guardr_def)
next
  case input: True
  note same = preserves_refl [OF ok]
  define i where "i = (case aoId v of None \<Rightarrow> u | Some i \<Rightarrow> i)"
  let ?w = "observation_of i v"
  have member: "aoIntent v \<in> wiId ` set (isRows s)" if "row_find wiId (aoIntent v) (isRows s) \<noteq> None"
    using that by (auto simp: row_find_None_iff)
  have step: "preserves L s (s\<lparr>isObs := isObs s @ [?w]\<rparr>)"
    if "canonicalDocument (aoEvidence v) 32768 = Inr t" "row_find wiId (aoIntent v) (isRows s) \<noteq> None"
      "row_find woId i (isObs s) = None" "readable_observation L ?w" for t
    using ok that member observation_admitted(1) [OF conjunct1 [OF input] conjunct2 [OF input] that(1), of i]
    by (auto simp: preserves_def intents_ok_def observation_of_def row_find_None_iff intro!: grows_map_rows [of _ "\<lambda>r. r"])
  have unread: "unconstrained e" if "mapObservation L w = Inl e" for w e
    using that document_error
    by (auto simp: mapObservation_def bindr_def assertNoRawTransactionEvidence_def guardr_def split: if_splits sum.splits)
  have row: "(\<exists>e. intentRow L (aoIntent v) s = (Inl e, s) \<and> unconstrained e) \<or>
      (\<exists>r. intentRow L (aoIntent v) s = (Inr r, s) \<and> (r \<noteq> None \<longrightarrow> row_find wiId (aoIntent v) (isRows s) \<noteq> None))"
    by (auto simp: intentRow_def eread_def parseIntentRow_def bindr_def split: option.splits sum.splits if_splits)
  have found: "row_find woId i (isObs s @ [?w]) = Some ?w" if "row_find woId i (isObs s) = None"
    using that by (simp add: row_find_append observation_of_def)
  show ?thesis
  proof (cases "canonicalDocument (aoEvidence v) 32768")
    case (Inl e)
    then show ?thesis
      using input same document_error [of "aoEvidence v"]
      by (auto simp: appendObservation_def Let_def monad_defs assertNoRawTransactionEvidence_def guardr_def)
  next
    case (Inr t)
    note checks = observation_admitted(1) [OF conjunct1 [OF input] conjunct2 [OF input] Inr, of i]
    have ins: "insertObservation ?w s = (Inr (), s\<lparr>isObs := isObs s @ [?w]\<rparr>)"
      if "row_find woId i (isObs s) = None" "row_find wiId (aoIntent v) (isRows s) \<noteq> None"
      using that checks unfolding insertObservation_def by (simp add: observation_of_def)
    show ?thesis
      using row same
      by (auto simp: appendObservation_def Let_def i_def [symmetric] input Inr ebind_def eguard_def elift_def eread_def
          immediate_def assertNoRawTransactionEvidence_def ins found unread
          intro!: step [OF Inr] split: sum.splits prod.splits option.splits if_splits)
  qed
qed

subsection \<open>Events\<close>

datatype intent_event =
    FindEvent intent_action string instant
  | CreateEvent string create_intent
  | SupersedeEvent string instant
  | SubmitEvent string txid instant
  | TransitionEvent string "intent_state list" intent_state instant
  | ObserveEvent string append_observation

fun intent_apply :: "tx_lib \<Rightarrow> intent_event \<Rightarrow> unit intent_op" where
  "intent_apply L (FindEvent act sc now) = ebind (findActiveScope L act sc now) (\<lambda>_. eret ())"
| "intent_apply L (CreateEvent u v) = ebind (createIntent L u v) (\<lambda>_. eret ())"
| "intent_apply L (SupersedeEvent i now) = ebind (supersedeActiveEquivalent L i now) (\<lambda>_. eret ())"
| "intent_apply L (SubmitEvent i t now) = ebind (submitIntent L i t now) (\<lambda>_. eret ())"
| "intent_apply L (TransitionEvent i from to now) = ebind (transitionIntent L i from to now) (\<lambda>_. eret ())"
| "intent_apply L (ObserveEvent u v) = ebind (appendObservation L u v) (\<lambda>_. eret ())"

definition intent_trace :: "tx_lib \<Rightarrow> intent_event list \<Rightarrow> intent_store \<Rightarrow> intent_store" where
  "intent_trace L es s = foldl (\<lambda>s e. snd (intent_apply L e s)) s es"

text \<open>A throwing operation that is a check followed by a transaction leaves the store alone.\<close>

definition undone :: "('s, 'e, 'a) eng \<Rightarrow> bool" where
  "undone m \<longleftrightarrow> (\<forall>s e t. m s = (Inl e, t) \<longrightarrow> t = s)"

lemma undone_intros [intro]:
  "undone (immediate m)"
  "(\<And>a. undone (f a)) \<Longrightarrow> undone (ebind (eguard b e) f)"
  by (auto simp: undone_def immediate_def ebind_def eguard_def split: prod.splits sum.splits if_splits)

lemma undone_elift [intro]: "(\<And>a. undone (f a)) \<Longrightarrow> undone (ebind (elift r) f)"
  by (auto simp: undone_def ebind_def elift_def split: sum.splits)

lemma undone_operations:
  "undone (findActiveScope L act sc now)" "undone (createIntent L u v)"
  "undone (supersedeActiveEquivalent L i now)" "undone (transitionIntent L i from to now)"
  unfolding findActiveScope_def createIntent_def supersedeActiveEquivalent_def transitionIntent_def Let_def
  by (intro undone_intros undone_elift)+

lemma undone_settles:
  assumes "wpe m (\<lambda>_. preserves L s) E s" and "undone m" and "intents_ok L s"
  shows "preserves L s (snd (m s)) \<and> (\<forall>e. fst (m s) = Inl e \<longrightarrow> E e)"
proof (cases "m s")
  case (Pair x t)
  with assms preserves_refl [OF assms(3)] show ?thesis
    by (cases x) (auto simp: wpe_def undone_def)
qed

lemma ebind_unit [simp]:
  "snd (ebind m (\<lambda>_. eret ()) s) = snd (m s)"
  "fst (ebind m (\<lambda>_. eret ()) s) = Inl e \<longleftrightarrow> fst (m s) = Inl e"
  by (auto simp: ebind_def eret_def split: prod.splits sum.splits)

text \<open>When an event can meet a constraint of the tables.\<close>

fun constrained_event :: "tx_lib \<Rightarrow> intent_event \<Rightarrow> intent_store \<Rightarrow> bool" where
  "constrained_event L (TransitionEvent i from to now) s \<longleftrightarrow>
     isUuid L i \<and> to = IReobserve \<and> IFailed \<in> set from \<and> reobserve_blocked i s"
| "constrained_event L e s \<longleftrightarrow> False"

lemma event_settles:
  assumes ok: "intents_ok L s" and "\<not> constrained_event L e s"
  shows "preserves L s (snd (intent_apply L e s)) \<and>
    (\<forall>x. fst (intent_apply L e s) = Inl x \<longrightarrow> unconstrained x \<or> validateStacksAddress L [])"
proof (cases e)
  case (TransitionEvent i froms to now)
  show ?thesis
  proof (cases "isUuid L i")
    case True
    with assms(2) TransitionEvent have "\<not> (to = IReobserve \<and> IFailed \<in> set froms \<and> reobserve_blocked i s)" by simp
    from undone_settles [OF transition_settles [OF ok this] undone_operations(4) ok] TransitionEvent
    show ?thesis by auto
  qed (use ok in \<open>simp add: TransitionEvent transitionIntent_def monad_defs preserves_refl\<close>)
qed (use undone_settles [OF find_settles [OF ok] undone_operations(1) ok]
    undone_settles [OF create_settles [OF ok] undone_operations(2) ok]
    undone_settles [OF supersede_settles [OF ok] undone_operations(3) ok]
    submit_settles [OF ok] append_settles [OF ok] in \<open>auto simp: create_error_def\<close>)

lemma event_keeps:
  assumes ok: "intents_ok L s"
  shows "preserves L s (snd (intent_apply L e s))"
proof (cases "constrained_event L e s")
  case True
  then obtain i froms now where e: "e = TransitionEvent i froms IReobserve now" "isUuid L i" "IFailed \<in> set froms"
      "reobserve_blocked i s"
    by (cases e) auto
  from transition_blocked [OF ok e(2-4), of now] show ?thesis
    using preserves_refl [OF ok] unfolding e(1) by auto
qed (use event_settles [OF ok] in blast)

lemma trace_settles: "intents_ok L s \<Longrightarrow> preserves L s (intent_trace L es s)"
proof (induction es arbitrary: s)
  case (Cons e es)
  have s: "preserves L s (snd (intent_apply L e s))" by (rule event_keeps [OF Cons.prems])
  then have "preserves L (snd (intent_apply L e s)) (intent_trace L es (snd (intent_apply L e s)))"
    by (intro Cons.IH) (simp add: preserves_def)
  with s show ?case using preserves_trans by (auto simp: intent_trace_def)
qed (simp add: intent_trace_def preserves_refl)

lemma trace_ok: "intents_ok L (intent_trace L es no_intents)"
  using trace_settles [OF no_intents_ok] by (simp add: preserves_def)

subsection \<open>Guarantees\<close>

text \<open>
  Whatever operations ran on the repository, two stored intents of the same action and scope are
  never both active, a transaction belongs to one intent, an intent has a transaction in every state
  after submission and none before, every stored intent reads back with its manifest matching its
  digest, and no stored observation contains raw transaction bytes.
\<close>
theorem intents_invariant:
  assumes "s = intent_trace L es no_intents"
  shows "(\<forall>x \<in> set (isRows s). \<forall>y \<in> set (isRows s). intent_active (wiState x) \<longrightarrow> intent_active (wiState y) \<longrightarrow>
      wiAction x = wiAction y \<longrightarrow> wiScope x = wiScope y \<longrightarrow> x = y) \<and>
    (\<forall>x \<in> set (isRows s). \<forall>y \<in> set (isRows s). wiTxid x \<noteq> None \<longrightarrow> wiTxid x = wiTxid y \<longrightarrow> x = y) \<and>
    (\<forall>r \<in> set (isRows s). state_fits (wiState r) (wiTxid r) \<and> mapIntent L r = Inr r) \<and>
    (\<forall>w \<in> set (isObs s). mapObservation L w = Inr w \<and> \<not> raw_evidence 0 (woEvidence w))"
proof -
  have ok: "intents_ok L s" using trace_ok assms by simp
  have rows: "\<forall>r \<in> set (isRows s). intent_checks r \<and> readable L r" "txids_unique (set (isRows s))"
    and obs: "\<forall>w \<in> set (isObs s). readable_observation L w"
    using ok by (simp_all add: intents_ok_def intents_unique_iff)
  have "\<not> raw_evidence 0 (woEvidence w)" if "readable_observation L w" for w
    using that unfolding readable_observation_def mapObservation_def assertNoRawTransactionEvidence_def by auto
  then have "\<forall>w \<in> set (isObs s). mapObservation L w = Inr w \<and> \<not> raw_evidence 0 (woEvidence w)"
    using obs by simp
  moreover have "\<forall>r \<in> set (isRows s). state_fits (wiState r) (wiTxid r) \<and> mapIntent L r = Inr r"
    using rows(1) checks_state by simp
  moreover have "x = y" if "x \<in> set (isRows s)" "y \<in> set (isRows s)" "wiTxid x \<noteq> None" "wiTxid x = wiTxid y" for x y
    using that same_row [OF ok] rows(2) unfolding txids_unique_def by blast
  moreover have "x = y" if "x \<in> set (isRows s)" "y \<in> set (isRows s)" "intent_active (wiState x)"
      "intent_active (wiState y)" "wiAction x = wiAction y" "wiScope x = wiScope y" for x y
    using that same_row [OF ok] one_active [OF ok] by blast
  ultimately show ?thesis by blast
qed

text \<open>
  C34: the repository refines the abstract lifecycle of an intent: whatever operations run later, a
  stored intent keeps its place, what it binds and its transaction, moves only along the transition
  table or by a first submission, and has changed if and only if its version has; observations are only
  appended and new intents start prepared.
\<close>
theorem intents_refine:
  assumes "s = intent_trace L es no_intents" and "t = intent_trace L (es @ fs) no_intents"
  shows "grows s t \<and> (\<forall>k < length (isRows s).
     intent_path (isRows s ! k) (isRows t ! k) \<and>
     intent_binding (isRows t ! k) = intent_binding (isRows s ! k) \<and>
     (wiTxid (isRows s ! k) \<noteq> None \<longrightarrow> wiTxid (isRows t ! k) = wiTxid (isRows s ! k)) \<and>
     (wiVersion (isRows t ! k) = wiVersion (isRows s ! k) \<longleftrightarrow> isRows t ! k = isRows s ! k))"
proof -
  have t: "t = intent_trace L fs s" using assms by (simp add: intent_trace_def)
  have grows: "grows s t" using trace_settles [OF trace_ok, of L es fs] assms t by (simp add: preserves_def)
  then have "intent_path (isRows s ! k) (isRows t ! k)" if "k < length (isRows s)" for k
    using that by (auto simp: grows_def nth_append list_all2_conv_all_nth)
  then show ?thesis
    using grows intent_path_binding intent_path_txid intent_path_version by (metis not_None_eq)
qed

text \<open>
  C36: the repository's own checks make the constraints of its two tables redundant: where an empty text
  is no address, an operation is refused by SQLite exactly when it moves a failed intent back under
  observation although that intent was never submitted or its scope has another active intent.
\<close>
theorem constraint_only_on_reobserve:
  assumes "\<not> validateStacksAddress L []" and "s = intent_trace L es no_intents"
  shows "(\<exists>c. fst (intent_apply L e s) = Inl (WiConstraint c)) \<longleftrightarrow> constrained_event L e s"
proof -
  have ok: "intents_ok L s" using trace_ok assms(2) by simp
  have "\<exists>c. fst (intent_apply L e s) = Inl (WiConstraint c)" if "constrained_event L e s"
  proof -
    from that obtain i froms now where e: "e = TransitionEvent i froms IReobserve now" "isUuid L i" "IFailed \<in> set froms"
        "reobserve_blocked i s" by (cases e) auto
    from transition_blocked [OF ok e(2-4), of now] show ?thesis unfolding e(1) by auto
  qed
  with event_settles [OF ok, of e] assms(1) show ?thesis by (auto simp: unconstrained_def)
qed

text \<open>
  C35: a transaction signed late is never lost. Submitting a new transaction id for a prepared, expired
  or superseded intent always succeeds and binds it; the intent becomes submitted, and then no other
  intent of its scope stays active, unless another one is already broadcast, when it is recorded as
  superseded.
\<close>
theorem late_submission_recorded:
  assumes "s = intent_trace L es no_intents" and r: "r \<in> set (isRows s)" "wiTxid r = None"
    and "wiState r \<in> {IPrepared, IExpired, ISuperseded}"
    and "indexBlockHashSchema t" and "\<forall>x \<in> set (isRows s). wiTxid x \<noteq> Some t"
  shows "\<exists>u. submitIntent L (wiId r) t now s =
      (Inr (bound (if scope_broadcast r s then ISuperseded else ISubmitted) t now r), u) \<and>
    bound (if scope_broadcast r s then ISuperseded else ISubmitted) t now r \<in> set (isRows u) \<and>
    (\<not> scope_broadcast r s \<longrightarrow> scope_free r u)"
proof -
  have ok: "intents_ok L s" using trace_ok assms(1) by simp
  let ?b = "bound (if scope_broadcast r s then ISuperseded else ISubmitted) t now r"
  have fresh: "Some t \<notin> wiTxid ` set (isRows s)" using assms(6) by auto
  have "wpe (bind_txid L r t now) (\<lambda>x u. x = Inr ?b \<and> ?b \<in> set (isRows u) \<and> (\<not> scope_broadcast r s \<longrightarrow> scope_free r u))
      (\<lambda>_. False) s"
    by (rule bind_settles [OF preserves_refl [OF ok] r(1) assms(4) r(2) assms(5) fresh]) simp_all
  then obtain u where u: "bind_txid L r t now s = (Inr (Inr ?b), u)" "?b \<in> set (isRows u)"
      "\<not> scope_broadcast r s \<longrightarrow> scope_free r u"
    by (blast dest: wpe_total)
  have row: "walletIntentRowSchema L r" "row_find wiId (wiId r) (isRows s) = Some r"
    using ok r(1) row_find_unique [of wiId "isRows s" r] readable_row by (auto simp: intents_ok_def intents_unique_iff)
  then have "intentRow L (wiId r) s = (Inr (Some r), s)"
    by (simp add: intentRow_def eread_def parseIntentRow_def walletIntentRowSchema_def)
  moreover have "row_find wiTxid (Some t) (isRows s) = None" using fresh by (simp add: row_find_None_iff)
  ultimately have "submit_once L (wiId r) t now s = (Inr (Inr ?b), u)"
    using assms(3,4) u(1) by (simp add: submit_once_def ebind_def)
  with assms(5) row(1) have "submitIntent L (wiId r) t now s = (Inr ?b, u)"
    by (simp add: submitIntent_def ebind_def eguard_def immediate_def elift_def walletIntentRowSchema_def)
  with u(2,3) show ?thesis by blast
qed

subsection \<open>An intent superseded, signed late, and failed\<close>

definition browser_sha :: string where
  "browser_sha = replicate 64 (CHR ''a'')"

definition browser_txid :: txid where
  "browser_txid = ''0x'' @ replicate 64 (CHR ''1'')"

definition intent_lib :: tx_lib where
  "intent_lib = sample_lib\<lparr>sha256Text := \<lambda>_. browser_sha\<rparr>"

lemma browser_texts [simp]:
  "hashSchema browser_sha" "indexBlockHashSchema browser_txid" "isUuid intent_lib i"
  "sha256Text intent_lib t = browser_sha" "validateStacksAddress intent_lib p \<longleftrightarrow> p \<noteq> []"
  by (simp_all add: browser_sha_def browser_txid_def indexBlockHashSchema_def intent_lib_def)

definition browser_request :: "string \<Rightarrow> instant \<Rightarrow> create_intent" where
  "browser_request i now = \<lparr>ciId = Some i, ciAction = UpdateFees, ciScope = ''m'', ciFactsSha = browser_sha,
     ciManifestSha = browser_sha, ciManifest = JObj [(''id'', JStr i)], ciSender = ''SPW'',
     ciNetwork = NetMainnet, ciChainId = 1, ciCreated = now, ciExpires = now + 10\<rparr>"

lemma browser_documents [simp]:
  "canonicalDocument (JObj [(''id'', JStr ''a'')]) 262144 = Inr (documentText (JObj [(''id'', JStr ''a'')]))"
  "canonicalDocument (JObj [(''id'', JStr ''b'')]) 262144 = Inr (documentText (JObj [(''id'', JStr ''b'')]))"
  "json_deep 0 (JObj [(''id'', JStr ''a'')]) = False"
  "json_deep 0 (JObj [(''id'', JStr ''b'')]) = False"
  by (simp_all add: canonicalDocument_def documentText_def utf8_length_def json_quote_def json_escape_def)

lemmas browser_lengths [simp] =
  text_length(2,3) [OF browser_documents(1), simplified] text_length(2,3) [OF browser_documents(2), simplified]

lemmas intent_code =
  intent_trace_def createIntent_def createInputSchema_def identifierSchema_def principalSchema_def
  validatePrincipal_def canonicalJsonSha256_def immediate_def expirePrepared_def updateWhere_def
  intentRow_def parseIntentRow_def walletIntentRowSchema_def mapIntent_def active_of_def insert_created_def
  insertIntent_def fresh_intent_def intent_checks_def intents_unique_def List.map_filter_def
  scope_key_def moved_def intent_frozen_def intent_binding_def no_intents_def monad_defs
  activeStates_def intentMatchesCreate_def replace_active_def submitIntent_def submit_once_def
  bind_txid_def claim_scope_def competing_def transitionIntent_def transitions_def

lemma browser_first:
  "intent_apply intent_lib (CreateEvent ''u'' (browser_request ''a'' 0)) no_intents =
     (Inr (), \<lparr>isRows = [fresh_intent ''a'' (browser_request ''a'' 0)], isObs = []\<rparr>)"
  by (simp add: intent_code browser_request_def Let_def)

definition browser_intents :: "intent_event list" where
  "browser_intents = [CreateEvent ''u'' (browser_request ''a'' 0), CreateEvent ''u'' (browser_request ''b'' 20)]"

lemma browser_second:
  "intent_trace intent_lib browser_intents no_intents =
     \<lparr>isRows = [moved IExpired 20 (fresh_intent ''a'' (browser_request ''a'' 0)), fresh_intent ''b'' (browser_request ''b'' 20)],
      isObs = []\<rparr>"
  unfolding intent_trace_def browser_intents_def foldl.simps browser_first snd_conv
  by (simp add: intent_code browser_request_def Let_def) auto

lemma browser_rows:
  "map (\<lambda>r. (wiId r, wiState r, wiTxid r)) (isRows (intent_trace intent_lib browser_intents no_intents)) =
     [(''a'', IExpired, None), (''b'', IPrepared, None)]"
  unfolding browser_second by (simp add: fresh_intent_def)

theorem intents_invariant_witness:
  "let s = intent_trace intent_lib browser_intents no_intents in
    length (isRows s) = 2 \<and>
    (\<forall>x \<in> set (isRows s). \<forall>y \<in> set (isRows s). intent_active (wiState x) \<longrightarrow> intent_active (wiState y) \<longrightarrow>
      wiAction x = wiAction y \<longrightarrow> wiScope x = wiScope y \<longrightarrow> x = y)"
  using intents_invariant [OF refl, of intent_lib browser_intents] browser_rows
  by (simp add: Let_def browser_second)

lemma browser_failed:
  "intent_trace intent_lib [CreateEvent ''u'' (browser_request ''a'' 0), TransitionEvent ''a'' [IPrepared] IFailed 1] no_intents =
     \<lparr>isRows = [moved IFailed 1 (fresh_intent ''a'' (browser_request ''a'' 0))], isObs = []\<rparr>"
  unfolding intent_trace_def foldl.simps browser_first snd_conv
  by (simp add: intent_code browser_request_def Let_def)

theorem constraint_only_on_reobserve_witness:
  "\<exists>c. fst (intent_apply intent_lib (TransitionEvent ''a'' [IFailed] IReobserve 2) (intent_trace intent_lib
      [CreateEvent ''u'' (browser_request ''a'' 0), TransitionEvent ''a'' [IPrepared] IFailed 1] no_intents)) = Inl (WiConstraint c)"
proof -
  have "constrained_event intent_lib (TransitionEvent ''a'' [IFailed] IReobserve 2) (intent_trace intent_lib
      [CreateEvent ''u'' (browser_request ''a'' 0), TransitionEvent ''a'' [IPrepared] IFailed 1] no_intents)"
    unfolding browser_failed by (simp add: reobserve_blocked_def fresh_intent_def)
  then show ?thesis by (subst constraint_only_on_reobserve [OF _ refl]) simp_all
qed

theorem late_submission_recorded_witness:
  "\<exists>r u. wiState r = IExpired \<and>
    submitIntent intent_lib ''a'' browser_txid 30 (intent_trace intent_lib browser_intents no_intents) =
      (Inr (bound ISubmitted browser_txid 30 r), u) \<and> scope_free r u"
proof -
  let ?s = "intent_trace intent_lib browser_intents no_intents"
  let ?r = "moved IExpired 20 (fresh_intent ''a'' (browser_request ''a'' 0))"
  have r: "?r \<in> set (isRows ?s)" "wiTxid ?r = None" "wiState ?r \<in> {IPrepared, IExpired, ISuperseded}"
    "\<forall>x \<in> set (isRows ?s). wiTxid x \<noteq> Some browser_txid" "wiId ?r = ''a''" "\<not> scope_broadcast ?r ?s"
    unfolding browser_second by (simp_all add: fresh_intent_def scope_broadcast_def broadcastStates_def)
  from late_submission_recorded [OF refl r(1-3) browser_texts(2) r(4), of 30] obtain u where
    "submitIntent intent_lib (wiId ?r) browser_txid 30 ?s = (Inr (bound ISubmitted browser_txid 30 ?r), u)" "scope_free ?r u"
    using r(6) by auto
  then show ?thesis unfolding r(5) by (intro exI [of _ ?r] exI [of _ u]) simp
qed

theorem intents_refine_witness:
  "let s = intent_trace intent_lib browser_intents no_intents;
       t = intent_trace intent_lib (browser_intents @ [SubmitEvent ''a'' browser_txid 30]) no_intents in
   length (isRows s) = 2 \<and> grows s t \<and> (\<forall>k < 2. intent_path (isRows s ! k) (isRows t ! k))"
  using intents_refine [OF refl refl, of intent_lib browser_intents "[SubmitEvent ''a'' browser_txid 30]"]
  by (simp add: Let_def browser_second)

end
