(* ===== verification/Wallet_Verification.thy ===== *)
theory Wallet_Verification
  imports Intent_Store
begin

text \<open>
  The comparison of a transaction found on the network with the request a browser wallet was given
  (apps/sidekick/src/wallet-transaction-verification.ts).

  The transaction library is the argument \<open>K\<close>: it reads bytes (as lower-case hex) into a transaction,
  writes them back, checks the origin signature, and turns conditions, arguments and addresses into
  text. \<open>'c\<close> and \<open>'v\<close> are its post-conditions and Clarity values. \<open>JSON.stringify\<close> of two arrays of
  strings is compared as the arrays themselves.
\<close>

record wallet_binding =
  wbNetwork :: wallet_network
  wbChainId :: int
  wbVersion :: int

definition mainnetTransactionVersion :: int where "mainnetTransactionVersion = 0"
definition testnetTransactionVersion :: int where "testnetTransactionVersion = 128"
definition mainnetChainId :: int where "mainnetChainId = 1"
definition testnetChainId :: int where "testnetChainId = 0x80000000"

definition mainnetWalletNetwork :: wallet_binding where
  "mainnetWalletNetwork = \<lparr>wbNetwork = NetMainnet, wbChainId = mainnetChainId,
     wbVersion = mainnetTransactionVersion\<rparr>"

definition createWalletTransactionNetworkBinding :: "wallet_network \<Rightarrow> int \<Rightarrow> string + wallet_binding" where
  "createWalletTransactionNetworkBinding network chainId =
     (if chainId < 0 \<or> 0xffffffff < chainId then Inl ''Wallet transaction chain ID must be a uint32''
      else if network = NetMainnet \<and> chainId \<noteq> mainnetChainId
      then Inl ''Mainnet wallet transactions require chain ID 1''
      else if network = NetTestnet \<and> chainId \<noteq> testnetChainId
      then Inl ''Testnet wallet transactions require chain ID 0x80000000''
      else Inr \<lparr>wbNetwork = network, wbChainId = chainId,
        wbVersion = (if network = NetMainnet then mainnetTransactionVersion else testnetTransactionVersion)\<rparr>)"

record wallet_request =
  wrContract :: string
  wrFunction :: string
  wrArgs :: "string list"
  wrNetwork :: wallet_network
  wrAddress :: principal
  wrPostConditions :: "string list"

datatype hash_mode = P2PKH | P2SH | P2WPKH | P2WSH | P2SHNonSequential | P2WSHNonSequential

datatype address_version =
  MainnetSingleSig | MainnetMultiSig | TestnetSingleSig | TestnetMultiSig

text \<open>A contract call: address, contract name, function name, arguments.\<close>

datatype 'v wire_payload = ContractCall string string string "'v list" | OtherPayload

record ('c, 'v) wire =
  wtVersion :: int
  wtChainId :: int
  wtStandardAuth :: bool
  wtAnchorAny :: bool
  wtDeny :: bool
  wtConditions :: "'c list"
  wtHashMode :: hash_mode
  wtSigner :: string
  wtPayload :: "'v wire_payload"

record ('c, 'v) wire_codec =
  wkDeserialize :: "string \<Rightarrow> ('c, 'v) wire option"
  wkSerialize :: "('c, 'v) wire \<Rightarrow> string"
  wkVerifyOrigin :: "('c, 'v) wire \<Rightarrow> bool"
  wkTxid :: "string \<Rightarrow> string"
  wkAddress :: "address_version \<Rightarrow> string \<Rightarrow> principal"
  wkCondition :: "'c \<Rightarrow> string"
  wkValue :: "'v \<Rightarrow> string"
  wkBuffer :: "'v \<Rightarrow> string option"

record verified_transaction =
  vwTxid :: txid
  vwSender :: principal
  vwChainId :: int
  vwVersion :: int
  vwConditionCount :: int
  vwContract :: string
  vwFunction :: string
  vwArgumentsSha :: string
  vwSignerKey :: "string option"

definition walletFunctions :: "string list" where
  "walletFunctions = [''register-self'', ''update-admin'', ''update-fees'', ''withdraw-fees'',
     ''sweep-fee-refunds'', ''claim-staker-rewards'', ''claim-rewards'', ''calculate-rewards'']"

definition signerKeyPattern :: "string \<Rightarrow> bool" where
  "signerKeyPattern k \<longleftrightarrow> take 2 k \<in> {''02'', ''03''} \<and> hashSchema (drop 2 k)"

definition argumentsSha :: "tx_lib \<Rightarrow> string list \<Rightarrow> string" where
  "argumentsSha L args = sha256Text L (documentText (JArr (map JStr args)))"

subsection \<open>The retained record\<close>

text \<open>What the service writes down of a verified transaction, and the strict schema it is read with.\<close>

definition verified_json :: "verified_transaction \<Rightarrow> json" where
  "verified_json v = JObj [(''txid'', JStr (vwTxid v)), (''sender'', JStr (vwSender v)),
     (''chainId'', JNum (vwChainId v)), (''transactionVersion'', JNum (vwVersion v)),
     (''sponsored'', JBool False), (''anchorMode'', JStr ''any''), (''postConditionMode'', JStr ''deny''),
     (''postConditionCount'', JNum (vwConditionCount v)),
     (''payload'', JObj [(''kind'', JStr ''call-contract''), (''contract'', JStr (vwContract v)),
        (''functionName'', JStr (vwFunction v)), (''argumentsSha256'', JStr (vwArgumentsSha v)),
        (''signerKeyHex'', json_opt JStr (vwSignerKey v))])]"

definition strict_keys :: "string list \<Rightarrow> (string \<times> json) list \<Rightarrow> bool" where
  "strict_keys keys kvs \<longleftrightarrow> list_all (\<lambda>(k, v). k \<in> set keys) kvs"

definition key_nat :: "string \<Rightarrow> (string \<times> json) list \<Rightarrow> int option" where
  "key_nat k kvs = (case obj_get k kvs of Some (JNum n) \<Rightarrow> if 0 \<le> n then Some n else None | _ \<Rightarrow> None)"

definition key_nullable :: "string \<Rightarrow> (string \<times> json) list \<Rightarrow> string option option" where
  "key_nullable k kvs = (case obj_get k kvs of Some JNull \<Rightarrow> Some None | Some (JStr s) \<Rightarrow> Some (Some s)
     | _ \<Rightarrow> None)"

definition verified_payload :: "(string \<times> json) list \<Rightarrow> (string \<times> string \<times> string \<times> string option) option" where
  "verified_payload kvs =
     (if \<not> strict_keys [''kind'', ''contract'', ''functionName'', ''argumentsSha256'', ''signerKeyHex''] kvs \<or>
         string_field kvs ''kind'' \<noteq> Some ''call-contract'' then None
      else Option.bind (string_field kvs ''contract'') (\<lambda>contract.
           Option.bind (string_field kvs ''functionName'') (\<lambda>f.
           Option.bind (string_field kvs ''argumentsSha256'') (\<lambda>sha.
           Option.bind (key_nullable ''signerKeyHex'' kvs) (\<lambda>key.
           if f \<in> set walletFunctions \<and> hashSchema sha \<and>
              (case key of None \<Rightarrow> True | Some k \<Rightarrow> signerKeyPattern k)
           then Some (contract, f, sha, key) else None)))))"

definition verifiedWalletTransactionSchema :: "json \<Rightarrow> verified_transaction option" where
  "verifiedWalletTransactionSchema v = (case v of
       JObj kvs \<Rightarrow>
         (if \<not> strict_keys [''txid'', ''sender'', ''chainId'', ''transactionVersion'', ''sponsored'',
                ''anchorMode'', ''postConditionMode'', ''postConditionCount'', ''payload''] kvs \<or>
             obj_get ''sponsored'' kvs \<noteq> Some (JBool False) \<or> string_field kvs ''anchorMode'' \<noteq> Some ''any'' \<or>
             string_field kvs ''postConditionMode'' \<noteq> Some ''deny'' then None
          else Option.bind (string_field kvs ''txid'') (\<lambda>t.
               Option.bind (string_field kvs ''sender'') (\<lambda>sender.
               Option.bind (key_nat ''chainId'' kvs) (\<lambda>chain.
               Option.bind (key_nat ''transactionVersion'' kvs) (\<lambda>version.
               Option.bind (key_nat ''postConditionCount'' kvs) (\<lambda>count.
               Option.bind (case obj_get ''payload'' kvs of Some (JObj ps) \<Rightarrow> verified_payload ps | _ \<Rightarrow> None)
                 (\<lambda>(contract, f, sha, key).
               if indexBlockHashSchema t then
                 Some \<lparr>vwTxid = t, vwSender = sender, vwChainId = chain, vwVersion = version,
                   vwConditionCount = count, vwContract = contract, vwFunction = f,
                   vwArgumentsSha = sha, vwSignerKey = key\<rparr>
               else None)))))))
     | _ \<Rightarrow> None)"

definition readPersistedWalletVerification ::
  "tx_lib \<Rightarrow> json \<Rightarrow> txid \<Rightarrow> principal \<Rightarrow> wallet_request \<Rightarrow> wallet_binding \<Rightarrow> verified_transaction option" where
  "readPersistedWalletVerification L decoded expectedTxid requiredSender request net =
     (case verifiedWalletTransactionSchema decoded of
        None \<Rightarrow> None
      | Some v \<Rightarrow>
          if vwTxid v = expectedTxid \<and> vwSender v = requiredSender \<and>
             wrAddress request = requiredSender \<and> vwChainId v = wbChainId net \<and>
             vwVersion v = wbVersion net \<and> wrNetwork request = wbNetwork net \<and>
             vwConditionCount v = int (length (wrPostConditions request)) \<and>
             vwContract v = wrContract request \<and> vwFunction v = wrFunction request \<and>
             vwArgumentsSha v = argumentsSha L (wrArgs request)
          then Some v else None)"

subsection \<open>The verification of bytes\<close>

definition senderAddress :: "('c, 'v) wire_codec \<Rightarrow> hash_mode \<Rightarrow> string \<Rightarrow> int \<Rightarrow> principal" where
  "senderAddress K mode signer version =
     (let singleSig = (mode = P2PKH \<or> mode = P2WPKH); mainnet = (version = mainnetTransactionVersion) in
      wkAddress K (if singleSig then (if mainnet then MainnetSingleSig else TestnetSingleSig)
                   else (if mainnet then MainnetMultiSig else TestnetMultiSig)) signer)"

definition canonicalWireHex :: "string \<Rightarrow> string" where
  "canonicalWireHex s = to_lower (if to_lower (take 2 s) = ''0x'' then drop 2 s else s)"

definition transactionHexPattern :: "string \<Rightarrow> bool" where
  "transactionHexPattern h \<longleftrightarrow> h \<noteq> [] \<and> even (length h) \<and> list_all is_hex_lower (to_lower h)"

text \<open>The signed bytes as a transaction, or the reason they are none.\<close>

definition readSigned :: "('c, 'v) wire_codec \<Rightarrow> string \<Rightarrow> string + ('c, 'v) wire" where
  "readSigned K h = (case wkDeserialize K (to_lower h) of
       None \<Rightarrow> Inl ''invalid origin signature or transaction encoding''
     | Some w \<Rightarrow>
         if wkSerialize K w \<noteq> to_lower h then Inl ''non-canonical transaction encoding''
         else if \<not> wkVerifyOrigin K w then Inl ''invalid origin signature or transaction encoding''
         else Inr w)"

definition signer_key_argument :: "('c, 'v) wire_codec \<Rightarrow> wallet_request \<Rightarrow> 'v list \<Rightarrow> string option" where
  "signer_key_argument K request args =
     (if wrFunction request = ''register-self''
      then Option.bind (at_index args 1) (wkBuffer K) else None)"

definition verify_call ::
  "('c, 'v) wire_codec \<Rightarrow> tx_lib \<Rightarrow> txid \<Rightarrow> wallet_request \<Rightarrow> ('c, 'v) wire \<Rightarrow> principal \<Rightarrow>
    string + verified_transaction" where
  "verify_call K L expectedTxid request w sender =
     (case wtPayload w of
        OtherPayload \<Rightarrow> Inl ''contract-call payload''
      | ContractCall addr cname f args \<Rightarrow>
          let contract = addr @ ''.'' @ cname in
          bindr (guardr (contract = wrContract request) ''contract principal'') (\<lambda>_.
          bindr (guardr (f = wrFunction request) ''function name'') (\<lambda>_.
          bindr (guardr (map (wkValue K) args = wrArgs request) ''function arguments'') (\<lambda>_.
          bindr (guardr (wrFunction request = ''register-self'' \<longrightarrow>
                   (case signer_key_argument K request args of
                      None \<Rightarrow> False | Some k \<Rightarrow> signerKeyPattern k)) ''signer key argument'') (\<lambda>_.
          Inr \<lparr>vwTxid = expectedTxid, vwSender = sender, vwChainId = wtChainId w,
            vwVersion = wtVersion w, vwConditionCount = int (length (wtConditions w)),
            vwContract = contract, vwFunction = wrFunction request,
            vwArgumentsSha = argumentsSha L (map (wkValue K) args),
            vwSignerKey = signer_key_argument K request args\<rparr>)))))"

definition verifyWalletTransactionHex ::
  "('c, 'v) wire_codec \<Rightarrow> tx_lib \<Rightarrow> txid \<Rightarrow> principal \<Rightarrow> wallet_request \<Rightarrow> string \<Rightarrow> wallet_binding option \<Rightarrow>
    string + verified_transaction" where
  "verifyWalletTransactionHex K L txid0 requiredSender request h binding =
     (let net = (case binding of None \<Rightarrow> mainnetWalletNetwork | Some b \<Rightarrow> b);
          expectedTxid = to_lower txid0 in
      bindr (guardr (indexBlockHashSchema expectedTxid) ''invalid transaction ID'') (\<lambda>_.
      bindr (guardr (transactionHexPattern h) ''invalid transaction encoding'') (\<lambda>_.
      bindr (readSigned K h) (\<lambda>w.
      bindr (guardr (''0x'' @ wkTxid K (to_lower h) = expectedTxid) ''transaction ID'') (\<lambda>_.
      bindr (guardr (wtVersion w = wbVersion net) ''network version'') (\<lambda>_.
      bindr (guardr (wtChainId w = wbChainId net) ''chain ID'') (\<lambda>_.
      bindr (guardr (wrNetwork request = wbNetwork net) ''request network'') (\<lambda>_.
      bindr (guardr (wtStandardAuth w) ''sponsored authorization'') (\<lambda>_.
      bindr (guardr (wtAnchorAny w) ''anchor mode'') (\<lambda>_.
      bindr (guardr (wtDeny w) ''post-condition mode'') (\<lambda>_.
      bindr (guardr (map (\<lambda>c. canonicalWireHex (wkCondition K c)) (wtConditions w) =
               map canonicalWireHex (wrPostConditions request)) ''post-conditions'') (\<lambda>_.
      let sender = senderAddress K (wtHashMode w) (wtSigner w) (wtVersion w) in
      bindr (guardr (sender = requiredSender \<and> wrAddress request = requiredSender) ''origin sender'') (\<lambda>_.
      verify_call K L expectedTxid request w sender)))))))))))))"

subsection \<open>What a verified transaction is\<close>

text \<open>
  The specification speaks of bytes, not of texts: two texts write the same bytes when their characters
  stand for the same hexadecimal digits.
\<close>

definition hex_value :: "char \<Rightarrow> nat option" where
  "hex_value c = (let n = of_char c :: nat in
     if 48 \<le> n \<and> n \<le> 57 then Some (n - 48)
     else if 65 \<le> n \<and> n \<le> 70 then Some (n - 55)
     else if 97 \<le> n \<and> n \<le> 102 then Some (n - 87)
     else None)"

definition writes_bytes :: "string \<Rightarrow> string \<Rightarrow> bool" where
  "writes_bytes h b \<longleftrightarrow> map hex_value h = map hex_value b"

lemma lower_char_code: "of_char (lower_char c) = (let n = of_char c :: nat in if 65 \<le> n \<and> n \<le> 90 then n + 32 else n)"
  by (simp add: lower_char_def less_eq_char_def Let_def)

lemma hex_lower_code: "is_hex_lower c \<longleftrightarrow> (let n = of_char c :: nat in 48 \<le> n \<and> n \<le> 57 \<or> 97 \<le> n \<and> n \<le> 102)"
  by (simp add: is_hex_lower_def is_digit_def less_eq_char_def Let_def)

lemma hex_value_lower: "is_hex_lower d \<Longrightarrow> hex_value c = hex_value d \<longleftrightarrow> lower_char c = d"
proof -
  assume d: "is_hex_lower d"
  define n m where "n = (of_char c :: nat)" and "m = (of_char d :: nat)"
  have "lower_char c = d \<longleftrightarrow> (of_char (lower_char c) :: nat) = of_char d" by simp
  then have lower: "lower_char c = d \<longleftrightarrow> (if 65 \<le> n \<and> n \<le> 90 then n + 32 else n) = m"
    unfolding lower_char_code n_def m_def Let_def .
  from d show ?thesis unfolding lower hex_lower_code hex_value_def Let_def n_def [symmetric] m_def [symmetric] by auto
qed

lemma writes_lower: "list_all is_hex_lower b \<Longrightarrow> writes_bytes h b \<longleftrightarrow> to_lower h = b"
  unfolding writes_bytes_def to_lower_def
proof (induction b arbitrary: h)
  case (Cons d b)
  then show ?case by (cases h) (auto simp: hex_value_lower)
qed auto

text \<open>A post-condition of a request may carry the prefix \<open>0x\<close> or \<open>0X\<close>.\<close>

definition writes_condition :: "string \<Rightarrow> string \<Rightarrow> bool" where
  "writes_condition c p \<longleftrightarrow> (\<exists>d. (p = d \<or> p = ''0x'' @ d \<or> p = ''0X'' @ d) \<and> writes_bytes d c)"

lemma hex_no_prefix: "list_all is_hex_lower c \<Longrightarrow> canonicalWireHex c = c \<and> take 2 c \<noteq> ''0x''"
proof -
  assume c: "list_all is_hex_lower c"
  have "to_lower c = c" using writes_lower [OF c, of c] by (simp add: writes_bytes_def)
  moreover from this have "to_lower (take 2 c) = take 2 c" by (simp add: to_lower_def take_map [symmetric])
  moreover have "list_all is_hex_lower (take 2 c)" using c by (auto simp: list_all_iff dest: in_set_takeD)
  then have "take 2 c \<noteq> ''0x''" by (auto simp: is_hex_lower_def is_digit_def less_eq_char_def)
  ultimately show ?thesis by (simp add: canonicalWireHex_def)
qed

lemma canonical_condition:
  assumes c: "list_all is_hex_lower c"
  shows "canonicalWireHex c = canonicalWireHex p \<longleftrightarrow> writes_condition c p"
proof -
  note w = writes_lower [OF c]
  have prefix: "to_lower (take 2 p) = ''0x'' \<longleftrightarrow> (\<exists>d. p = ''0x'' @ d \<or> p = ''0X'' @ d)"
  proof
    assume l: "to_lower (take 2 p) = ''0x''"
    then obtain a b d where p: "p = a # b # d" by (cases p; cases "tl p") (auto simp: to_lower_def)
    with l have "(of_char (lower_char a) :: nat) = 48" "(of_char (lower_char b) :: nat) = 120"
      by (simp_all add: to_lower_def)
    then have "(of_char a :: nat) = 48" "(of_char b :: nat) = 120 \<or> (of_char b :: nat) = 88"
      unfolding lower_char_code Let_def by (auto split: if_splits)
    then have "a = CHR ''0''" "b = CHR ''x'' \<or> b = CHR ''X''"
      using of_char_eq_iff [where 'a = nat, of a "CHR ''0''"] of_char_eq_iff [where 'a = nat, of b "CHR ''x''"]
        of_char_eq_iff [where 'a = nat, of b "CHR ''X''"] by simp_all
    with p show "\<exists>d. p = ''0x'' @ d \<or> p = ''0X'' @ d" by auto
  next
    have "lower_char (CHR ''X'') = CHR ''x''" "lower_char (CHR ''x'') = CHR ''x''" "lower_char (CHR ''0'') = CHR ''0''" by code_simp+
    then show "\<exists>d. p = ''0x'' @ d \<or> p = ''0X'' @ d \<Longrightarrow> to_lower (take 2 p) = ''0x''" by (auto simp: to_lower_def)
  qed
  show ?thesis
  proof (cases "to_lower (take 2 p) = ''0x''")
    case True
    then obtain d where p: "p = ''0x'' @ d \<or> p = ''0X'' @ d" using prefix by blast
    then have "canonicalWireHex p = to_lower d" using True by (auto simp: canonicalWireHex_def)
    moreover have "\<not> writes_bytes p c" using hex_no_prefix [OF c] True w [of p] by (auto simp: to_lower_def take_map [symmetric])
    ultimately show ?thesis using p w hex_no_prefix [OF c] by (auto simp: writes_condition_def)
  next
    case False
    with prefix w hex_no_prefix [OF c] show ?thesis by (auto simp: writes_condition_def canonicalWireHex_def)
  qed
qed

fun address_kind :: "wallet_network \<Rightarrow> hash_mode \<Rightarrow> address_version" where
  "address_kind NetMainnet P2PKH = MainnetSingleSig"
| "address_kind NetMainnet P2WPKH = MainnetSingleSig"
| "address_kind NetMainnet _ = MainnetMultiSig"
| "address_kind _ P2PKH = TestnetSingleSig"
| "address_kind _ P2WPKH = TestnetSingleSig"
| "address_kind _ _ = TestnetMultiSig"

text \<open>
  The transaction the operator was asked for: an unsponsored, any-mode, deny-mode contract call of the
  requested function, on the configured network, by an origin whose address of that network and hash
  mode is the required sender, with the requested arguments and post-conditions. \<open>key\<close> is the signer key a
  registration names.
\<close>

definition requested_wire ::
  "('c, 'v) wire_codec \<Rightarrow> wallet_network \<Rightarrow> int \<Rightarrow> principal \<Rightarrow> wallet_request \<Rightarrow>
    ('c, 'v) wire \<Rightarrow> 'v list \<Rightarrow> string option \<Rightarrow> bool" where
  "requested_wire K network chainId sender request w args key \<longleftrightarrow>
     (\<exists>mode origin conditions addr cname.
        w = \<lparr>wtVersion = (if network = NetMainnet then 0 else 128), wtChainId = chainId, wtStandardAuth = True,
          wtAnchorAny = True, wtDeny = True, wtConditions = conditions, wtHashMode = mode, wtSigner = origin,
          wtPayload = ContractCall addr cname (wrFunction request) args\<rparr> \<and>
        wkAddress K (address_kind network mode) origin = sender \<and>
        list_all2 writes_condition (map (wkCondition K) conditions) (wrPostConditions request) \<and>
        wrContract request = addr @ ''.'' @ cname) \<and>
     map (wkValue K) args = wrArgs request \<and> wrNetwork request = network \<and> wrAddress request = sender \<and>
     (if wrFunction request = ''register-self''
      then 1 < length args \<and> (\<exists>k d. key = Some k \<and> wkBuffer K (args ! 1) = Some k \<and>
        (k = ''02'' @ d \<or> k = ''03'' @ d) \<and> hashSchema d)
      else key = None)"

lemma sender_kind:
  assumes "wbVersion net = (if network = NetMainnet then 0 else 128)"
  shows "senderAddress K mode signer (wbVersion net) = wkAddress K (address_kind network mode) signer"
  using assms by (cases network; cases mode) (simp_all add: senderAddress_def mainnetTransactionVersion_def)

lemma conditions_written:
  assumes "\<forall>c. list_all is_hex_lower (wkCondition K c)"
  shows "map (\<lambda>c. canonicalWireHex (wkCondition K c)) cs = map canonicalWireHex ps \<longleftrightarrow>
    list_all2 writes_condition (map (wkCondition K) cs) ps"
proof (induction cs arbitrary: ps)
  case (Cons c cs)
  then show ?case using canonical_condition [of "wkCondition K c"] assms by (cases ps) auto
qed auto

lemma signer_key_pattern: "signerKeyPattern k \<longleftrightarrow> (\<exists>d. (k = ''02'' @ d \<or> k = ''03'' @ d) \<and> hashSchema d)"
proof
  assume k: "signerKeyPattern k"
  then have h: "hashSchema (drop 2 k)" and "take 2 k = ''02'' \<or> take 2 k = ''03''" by (auto simp: signerKeyPattern_def)
  then have "k = ''02'' @ drop 2 k \<or> k = ''03'' @ drop 2 k" using append_take_drop_id [of 2 k] by metis
  with h have "(k = ''02'' @ drop 2 k \<or> k = ''03'' @ drop 2 k) \<and> hashSchema (drop 2 k)" by blast
  then show "\<exists>d. (k = ''02'' @ d \<or> k = ''03'' @ d) \<and> hashSchema d"
    by blast
qed (auto simp: signerKeyPattern_def)

lemma signer_key_written:
  "(if wrFunction request = ''register-self''
    then 1 < length args \<and> (\<exists>k d. key = Some k \<and> wkBuffer K (args ! 1) = Some k \<and>
      (k = ''02'' @ d \<or> k = ''03'' @ d) \<and> hashSchema d)
    else key = None) \<longleftrightarrow>
   key = signer_key_argument K request args \<and>
     (wrFunction request = ''register-self'' \<longrightarrow> (\<exists>k. signer_key_argument K request args = Some k \<and> signerKeyPattern k))"
  unfolding signer_key_pattern
  by (cases "1 < length args"; cases "wkBuffer K (args ! 1)") (auto simp: signer_key_argument_def at_index_def)

text \<open>The checks of the verifier in one formula, and what it answers when they hold.\<close>

definition requested_call ::
  "('c, 'v) wire_codec \<Rightarrow> txid \<Rightarrow> principal \<Rightarrow> wallet_request \<Rightarrow> string \<Rightarrow> wallet_binding \<Rightarrow>
    ('c, 'v) wire \<Rightarrow> 'v list \<Rightarrow> bool" where
  "requested_call K t sender request h net w args \<longleftrightarrow>
     indexBlockHashSchema (to_lower t) \<and> transactionHexPattern h \<and>
     wkDeserialize K (to_lower h) = Some w \<and> wkSerialize K w = to_lower h \<and> wkVerifyOrigin K w \<and>
     ''0x'' @ wkTxid K (to_lower h) = to_lower t \<and>
     wtVersion w = wbVersion net \<and> wtChainId w = wbChainId net \<and> wrNetwork request = wbNetwork net \<and>
     wtStandardAuth w \<and> wtAnchorAny w \<and> wtDeny w \<and>
     map (\<lambda>c. canonicalWireHex (wkCondition K c)) (wtConditions w) = map canonicalWireHex (wrPostConditions request) \<and>
     senderAddress K (wtHashMode w) (wtSigner w) (wtVersion w) = sender \<and> wrAddress request = sender \<and>
     (\<exists>addr cname. wtPayload w = ContractCall addr cname (wrFunction request) args \<and>
        wrContract request = addr @ ''.'' @ cname) \<and>
     map (wkValue K) args = wrArgs request \<and>
     (wrFunction request = ''register-self'' \<longrightarrow>
        (\<exists>k. signer_key_argument K request args = Some k \<and> signerKeyPattern k))"

definition retained_call ::
  "('c, 'v) wire_codec \<Rightarrow> tx_lib \<Rightarrow> txid \<Rightarrow> principal \<Rightarrow> wallet_request \<Rightarrow> wallet_binding \<Rightarrow> 'v list \<Rightarrow>
    verified_transaction" where
  "retained_call K L t sender request net args = \<lparr>vwTxid = to_lower t, vwSender = sender,
     vwChainId = wbChainId net, vwVersion = wbVersion net,
     vwConditionCount = int (length (wrPostConditions request)), vwContract = wrContract request,
     vwFunction = wrFunction request, vwArgumentsSha = argumentsSha L (wrArgs request),
     vwSignerKey = signer_key_argument K request args\<rparr>"

lemma readSigned_Inr:
  "readSigned K h = Inr w \<longleftrightarrow>
     wkDeserialize K (to_lower h) = Some w \<and> wkSerialize K w = to_lower h \<and> wkVerifyOrigin K w"
  by (auto simp: readSigned_def split: option.splits)

lemma verified_call:
  assumes "verifyWalletTransactionHex K L t sender request h (Some net) = Inr v"
  shows "\<exists>w args. requested_call K t sender request h net w args \<and> v = retained_call K L t sender request net args"
proof -
  from assms obtain w where w: "indexBlockHashSchema (to_lower t)" "transactionHexPattern h" "readSigned K h = Inr w"
      "''0x'' @ wkTxid K (to_lower h) = to_lower t" "wtVersion w = wbVersion net" "wtChainId w = wbChainId net"
      "wrNetwork request = wbNetwork net" "wtStandardAuth w" "wtAnchorAny w" "wtDeny w"
      "map (\<lambda>c. canonicalWireHex (wkCondition K c)) (wtConditions w) = map canonicalWireHex (wrPostConditions request)"
      "senderAddress K (wtHashMode w) (wtSigner w) (wtVersion w) = sender" "wrAddress request = sender"
      "verify_call K L (to_lower t) request w sender = Inr v"
    by (auto simp: verifyWalletTransactionHex_def Let_def)
  from w(11) have count: "length (wtConditions w) = length (wrPostConditions request)" by (rule map_eq_imp_length_eq)
  from w(14) obtain addr cname args where call: "wtPayload w = ContractCall addr cname (wrFunction request) args"
      "wrContract request = addr @ ''.'' @ cname" "map (wkValue K) args = wrArgs request"
      "wrFunction request = ''register-self'' \<longrightarrow> (\<exists>k. signer_key_argument K request args = Some k \<and> signerKeyPattern k)"
    and v: "v = \<lparr>vwTxid = to_lower t, vwSender = sender, vwChainId = wtChainId w, vwVersion = wtVersion w,
      vwConditionCount = int (length (wtConditions w)), vwContract = addr @ ''.'' @ cname,
      vwFunction = wrFunction request, vwArgumentsSha = argumentsSha L (wrArgs request),
      vwSignerKey = signer_key_argument K request args\<rparr>"
    by (auto simp: verify_call_def Let_def split: wire_payload.splits option.splits)
  have "requested_call K t sender request h net w args"
    using w call unfolding requested_call_def readSigned_Inr by blast
  moreover have "v = retained_call K L t sender request net args"
    using v w(5,6) count call(2) by (simp add: retained_call_def)
  ultimately show ?thesis by blast
qed

lemma verify_requested:
  assumes "requested_call K t sender request h net w args"
  shows "verifyWalletTransactionHex K L t sender request h (Some net) = Inr (retained_call K L t sender request net args)"
proof -
  have count: "length (wtConditions w) = length (wrPostConditions request)"
    using assms map_eq_imp_length_eq unfolding requested_call_def by blast
  with assms show ?thesis
    unfolding requested_call_def retained_call_def
    by (auto simp: verifyWalletTransactionHex_def Let_def readSigned_Inr [THEN iffD2] verify_call_def)
qed

lemma prefixed_hash: "indexBlockHashSchema (''0x'' @ x) \<longleftrightarrow> hashSchema x"
  by (simp add: indexBlockHashSchema_def)

lemma wire_shape:
  "(\<exists>mode origin conditions addr cname.
      w = \<lparr>wtVersion = version, wtChainId = chainId, wtStandardAuth = True, wtAnchorAny = True, wtDeny = True,
        wtConditions = conditions, wtHashMode = mode, wtSigner = origin, wtPayload = ContractCall addr cname f args\<rparr> \<and>
      senderAddress K mode origin version = sender \<and> list_all2 R (map g conditions) ps \<and> contract = addr @ ''.'' @ cname) \<longleftrightarrow>
    wtVersion w = version \<and> wtChainId w = chainId \<and> wtStandardAuth w \<and> wtAnchorAny w \<and> wtDeny w \<and>
    list_all2 R (map g (wtConditions w)) ps \<and> senderAddress K (wtHashMode w) (wtSigner w) (wtVersion w) = sender \<and>
    (\<exists>addr cname. wtPayload w = ContractCall addr cname f args \<and> contract = addr @ ''.'' @ cname)"
proof -
  have "w = w0 \<longleftrightarrow> wtVersion w = wtVersion w0 \<and> wtChainId w = wtChainId w0 \<and> wtStandardAuth w = wtStandardAuth w0 \<and>
      wtAnchorAny w = wtAnchorAny w0 \<and> wtDeny w = wtDeny w0 \<and> wtConditions w = wtConditions w0 \<and>
      wtHashMode w = wtHashMode w0 \<and> wtSigner w = wtSigner w0 \<and> wtPayload w = wtPayload w0" for w0
    by (cases w; cases w0) simp
  then show ?thesis by auto
qed

text \<open>The formula of checks is the specification.\<close>

lemma requested_call_wire:
  assumes net: "createWalletTransactionNetworkBinding network chainId = Inr net"
    and hex: "\<forall>c. list_all is_hex_lower (wkCondition K c)"
  shows "requested_call K t sender request h net w args \<longleftrightarrow>
    requested_wire K network chainId sender request w args (signer_key_argument K request args) \<and>
    wkDeserialize K (wkSerialize K w) = Some w \<and> wkVerifyOrigin K w \<and>
    wkSerialize K w \<noteq> [] \<and> even (length (wkSerialize K w)) \<and> list_all is_hex_lower (wkSerialize K w) \<and>
    writes_bytes h (wkSerialize K w) \<and> hashSchema (wkTxid K (wkSerialize K w)) \<and>
    to_lower t = ''0x'' @ wkTxid K (wkSerialize K w)"
proof -
  let ?b = "wkSerialize K w"
  have n: "wbVersion net = (if network = NetMainnet then 0 else 128)" "wbChainId net = chainId" "wbNetwork net = network"
    using net by (auto simp: createWalletTransactionNetworkBinding_def mainnetTransactionVersion_def
        testnetTransactionVersion_def split: if_splits)
  have bytes: "transactionHexPattern h \<and> ?b = to_lower h \<longleftrightarrow>
      ?b \<noteq> [] \<and> even (length ?b) \<and> list_all is_hex_lower ?b \<and> writes_bytes h ?b"
  proof -
    have same: "length (to_lower h) = length h" by (simp add: to_lower_def)
    show ?thesis
    proof
      assume l: "transactionHexPattern h \<and> ?b = to_lower h"
      then have "h \<noteq> []" "even (length h)" "list_all is_hex_lower ?b" by (simp_all add: transactionHexPattern_def)
      with l same writes_lower [of ?b h] show "?b \<noteq> [] \<and> even (length ?b) \<and> list_all is_hex_lower ?b \<and> writes_bytes h ?b"
        by (metis length_0_conv)
    next
      assume r: "?b \<noteq> [] \<and> even (length ?b) \<and> list_all is_hex_lower ?b \<and> writes_bytes h ?b"
      then have "to_lower h = ?b" using writes_lower by blast
      with r same show "transactionHexPattern h \<and> ?b = to_lower h"
        unfolding transactionHexPattern_def by (metis length_0_conv)
    qed
  qed
  have txid: "indexBlockHashSchema (to_lower t) \<and> ''0x'' @ wkTxid K ?b = to_lower t \<longleftrightarrow>
      hashSchema (wkTxid K ?b) \<and> to_lower t = ''0x'' @ wkTxid K ?b"
    using prefixed_hash [of "wkTxid K ?b"] by metis
  have wire: "requested_wire K network chainId sender request w args (signer_key_argument K request args) \<longleftrightarrow>
      wtVersion w = wbVersion net \<and> wtChainId w = wbChainId net \<and> wrNetwork request = wbNetwork net \<and>
      wtStandardAuth w \<and> wtAnchorAny w \<and> wtDeny w \<and>
      map (\<lambda>c. canonicalWireHex (wkCondition K c)) (wtConditions w) = map canonicalWireHex (wrPostConditions request) \<and>
      senderAddress K (wtHashMode w) (wtSigner w) (wtVersion w) = sender \<and> wrAddress request = sender \<and>
      (\<exists>addr cname. wtPayload w = ContractCall addr cname (wrFunction request) args \<and>
         wrContract request = addr @ ''.'' @ cname) \<and>
      map (wkValue K) args = wrArgs request \<and>
      (wrFunction request = ''register-self'' \<longrightarrow>
         (\<exists>k. signer_key_argument K request args = Some k \<and> signerKeyPattern k))"
    unfolding requested_wire_def signer_key_written conditions_written [OF hex] n sender_kind [OF n(1), of K, unfolded n(1), symmetric]
      wire_shape by (rule iffI; elim conjE; intro conjI; (rule refl | assumption))
  show ?thesis
    unfolding requested_call_def wire
    by (rule iffI; elim conjE; insert bytes txid; intro conjI; (assumption | simp)?)
qed

text \<open>
  C37: a transaction read from the network is accepted for a wallet request exactly when its bytes are
  the serialized form of one origin-signed transaction that is the requested call, with the expected id;
  and what is retained of it is the request's own data. The accepted texts are spelled out: the bytes
  may be written in either letter case, and a requested post-condition with or without \<open>0x\<close>.
\<close>
theorem verified_transaction_exact:
  assumes net: "createWalletTransactionNetworkBinding network chainId = Inr net"
    and hex: "\<forall>c. list_all is_hex_lower (wkCondition K c)"
  shows "verifyWalletTransactionHex K L t sender request h (Some net) = Inr v \<longleftrightarrow>
    (\<exists>w args key b. requested_wire K network chainId sender request w args key \<and>
       b = wkSerialize K w \<and> wkDeserialize K b = Some w \<and> wkVerifyOrigin K w \<and>
       b \<noteq> [] \<and> even (length b) \<and> list_all is_hex_lower b \<and> writes_bytes h b \<and>
       hashSchema (wkTxid K b) \<and> to_lower t = ''0x'' @ wkTxid K b \<and>
       v = \<lparr>vwTxid = ''0x'' @ wkTxid K b, vwSender = sender, vwChainId = chainId,
         vwVersion = (if network = NetMainnet then 0 else 128),
         vwConditionCount = int (length (wrPostConditions request)), vwContract = wrContract request,
         vwFunction = wrFunction request, vwArgumentsSha = sha256Text L (documentText (JArr (map JStr (wrArgs request)))),
         vwSignerKey = key\<rparr>)" (is "_ \<longleftrightarrow> ?accepted")
proof -
  have n: "wbVersion net = (if network = NetMainnet then 0 else 128)" "wbChainId net = chainId"
    using net by (auto simp: createWalletTransactionNetworkBinding_def mainnetTransactionVersion_def
        testnetTransactionVersion_def split: if_splits)
  have key: "requested_wire K network chainId sender request w args key \<Longrightarrow> key = signer_key_argument K request args"
    for w args key unfolding requested_wire_def signer_key_written by blast
  have "verifyWalletTransactionHex K L t sender request h (Some net) = Inr v \<longleftrightarrow>
      (\<exists>w args. requested_call K t sender request h net w args \<and> v = retained_call K L t sender request net args)"
    using verified_call verify_requested by blast
  also have "\<dots> \<longleftrightarrow> ?accepted"
  proof
    assume "\<exists>w args. requested_call K t sender request h net w args \<and> v = retained_call K L t sender request net args"
    then obtain w args where w: "requested_call K t sender request h net w args" "v = retained_call K L t sender request net args"
      by blast
    from w(1) have "to_lower t = ''0x'' @ wkTxid K (wkSerialize K w)" unfolding requested_call_wire [OF assms] by blast
    with w show ?accepted unfolding requested_call_wire [OF assms] retained_call_def n argumentsSha_def
      by (intro exI [of _ w] exI [of _ args] exI [of _ "signer_key_argument K request args"] exI [of _ "wkSerialize K w"]) simp
  next
    assume ?accepted
    then obtain w args key where w: "requested_wire K network chainId sender request w args key"
        "requested_call K t sender request h net w args" "to_lower t = ''0x'' @ wkTxid K (wkSerialize K w)"
      and v: "v = \<lparr>vwTxid = ''0x'' @ wkTxid K (wkSerialize K w), vwSender = sender, vwChainId = chainId,
         vwVersion = (if network = NetMainnet then 0 else 128),
         vwConditionCount = int (length (wrPostConditions request)), vwContract = wrContract request,
         vwFunction = wrFunction request, vwArgumentsSha = sha256Text L (documentText (JArr (map JStr (wrArgs request)))),
         vwSignerKey = key\<rparr>"
      unfolding requested_call_wire [OF assms] using key by blast
    from v have "v = retained_call K L t sender request net args"
      using key [OF w(1)] w(3) by (simp add: retained_call_def n argumentsSha_def)
    with w(2) show "\<exists>w args. requested_call K t sender request h net w args \<and> v = retained_call K L t sender request net args"
      by blast
  qed
  finally show ?thesis .
qed

subsection \<open>Retention\<close>

lemma retained_schema:
  assumes "indexBlockHashSchema (vwTxid v)" "0 \<le> vwChainId v" "0 \<le> vwVersion v" "0 \<le> vwConditionCount v"
    and "vwFunction v \<in> set walletFunctions" "hashSchema (vwArgumentsSha v)"
    and "\<forall>k. vwSignerKey v = Some k \<longrightarrow> signerKeyPattern k"
  shows "verifiedWalletTransactionSchema (verified_json v) = Some v"
  using assms
  by (cases v; cases "vwSignerKey v")
     (simp_all add: verifiedWalletTransactionSchema_def verified_json_def verified_payload_def strict_keys_def
       string_field_def key_nat_def key_nullable_def obj_get_def json_opt_def)

text \<open>
  C38: the record retained of a verified transaction is read back later, as itself, for the same
  transaction id, sender, request and network; and whatever record is accepted names that transaction,
  that sender, the requested contract, function and arguments and that chain.
\<close>
theorem retained_verification_roundtrip:
  assumes "createWalletTransactionNetworkBinding network chainId = Inr net"
    and "\<forall>x. hashSchema (sha256Text L x)"
    and "wrFunction request \<in> set walletFunctions" and "to_lower t = t"
    and "verifyWalletTransactionHex K L t sender request h (Some net) = Inr v"
  shows "readPersistedWalletVerification L (verified_json v) t sender request net = Some v \<and>
    (\<forall>decoded u r n q. readPersistedWalletVerification L decoded u q r n = Some v \<longrightarrow>
       u = t \<and> q = sender \<and> wrContract r = wrContract request \<and> wrFunction r = wrFunction request \<and>
       wbChainId n = chainId \<and> argumentsSha L (wrArgs r) = argumentsSha L (wrArgs request))"
proof -
  obtain w args where w: "requested_call K t sender request h net w args"
    and v: "v = retained_call K L t sender request net args"
    using verified_call [OF assms(5)] by blast
  have net: "wbChainId net = chainId" "0 \<le> chainId" "0 \<le> wbVersion net"
    using assms(1) by (auto simp: createWalletTransactionNetworkBinding_def mainnetTransactionVersion_def
        testnetTransactionVersion_def split: if_splits)
  have key: "signerKeyPattern k" if "signer_key_argument K request args = Some k" for k
    using that w by (auto simp: requested_call_def signer_key_argument_def split: if_splits)
  have "verifiedWalletTransactionSchema (verified_json v) = Some v"
    using w assms(2,3) net key unfolding v
    by (intro retained_schema) (simp_all add: retained_call_def requested_call_def argumentsSha_def)
  moreover have "wrAddress request = sender" "wrNetwork request = wbNetwork net"
    using w by (simp_all add: requested_call_def)
  ultimately have "readPersistedWalletVerification L (verified_json v) t sender request net = Some v"
    using assms(4) unfolding v by (simp add: readPersistedWalletVerification_def retained_call_def)
  moreover have "u = t \<and> q = sender \<and> wrContract r = wrContract request \<and> wrFunction r = wrFunction request \<and>
       wbChainId n = chainId \<and> argumentsSha L (wrArgs r) = argumentsSha L (wrArgs request)"
    if "readPersistedWalletVerification L decoded u q r n = Some v" for decoded u r n q
  proof -
    from that have "vwTxid v = u" "vwSender v = q" "vwContract v = wrContract r" "vwFunction v = wrFunction r"
        "vwChainId v = wbChainId n" "vwArgumentsSha v = argumentsSha L (wrArgs r)"
      by (auto simp: readPersistedWalletVerification_def split: option.splits if_splits)
    with net(1) assms(4) show ?thesis unfolding v retained_call_def by simp
  qed
  ultimately show ?thesis by blast
qed

subsection \<open>A registration\<close>

definition sample_wire_codec :: "(string, string) wire_codec" where
  "sample_wire_codec = \<lparr>wkDeserialize = (\<lambda>h. Some \<lparr>wtVersion = 0, wtChainId = 1, wtStandardAuth = True,
       wtAnchorAny = True, wtDeny = True, wtConditions = [''ab''], wtHashMode = P2PKH, wtSigner = ''s'',
       wtPayload = ContractCall ''SPM'' ''manager'' ''update-fees'' [''0x01'']\<rparr>),
     wkSerialize = (\<lambda>w. ''00''), wkVerifyOrigin = (\<lambda>w. True), wkTxid = (\<lambda>h. replicate 64 (CHR ''1'')),
     wkAddress = (\<lambda>v s. ''SPW''), wkCondition = filter is_hex_lower, wkValue = (\<lambda>v. v), wkBuffer = (\<lambda>v. None)\<rparr>"

definition sample_wallet_request :: wallet_request where
  "sample_wallet_request = \<lparr>wrContract = ''SPM.manager'', wrFunction = ''update-fees'', wrArgs = [''0x01''],
     wrNetwork = NetMainnet, wrAddress = ''SPW'', wrPostConditions = [''0xAB'']\<rparr>"

lemma sample_txid: "to_lower (''0x'' @ replicate 64 (CHR ''1'')) = ''0x'' @ replicate 64 (CHR ''1'')"
  "indexBlockHashSchema (''0x'' @ replicate 64 (CHR ''1''))"
  by (simp_all add: to_lower_def lower_char_def less_eq_char_def indexBlockHashSchema_def)

lemma sample_verified:
  "\<exists>v. verifyWalletTransactionHex sample_wire_codec L (''0x'' @ replicate 64 (CHR ''1'')) ''SPW''
     sample_wallet_request ''00'' (Some mainnetWalletNetwork) = Inr v"
proof -
  have "transactionHexPattern ''00''" "to_lower ''00'' = ''00''" "canonicalWireHex ''0xAB'' = canonicalWireHex ''ab''"
    by code_simp+
  then show ?thesis
    using sample_txid
    by (simp add: verifyWalletTransactionHex_def Let_def readSigned_def sample_wire_codec_def sample_wallet_request_def
        mainnetWalletNetwork_def mainnetChainId_def mainnetTransactionVersion_def verify_call_def senderAddress_def)
qed

theorem verified_transaction_exact_witness:
  "\<exists>v w. verifyWalletTransactionHex sample_wire_codec sample_lib (''0x'' @ replicate 64 (CHR ''1'')) ''SPW''
       sample_wallet_request ''00'' (Some mainnetWalletNetwork) = Inr v \<and>
     requested_wire sample_wire_codec NetMainnet 1 ''SPW'' sample_wallet_request w [''0x01''] None \<and>
     wtConditions w = [''ab''] \<and> wrPostConditions sample_wallet_request = [''0xAB''] \<and>
     vwConditionCount v = 1 \<and> vwSignerKey v = None"
proof -
  obtain v where v: "verifyWalletTransactionHex sample_wire_codec sample_lib (''0x'' @ replicate 64 (CHR ''1'')) ''SPW''
     sample_wallet_request ''00'' (Some mainnetWalletNetwork) = Inr v" using sample_verified by blast
  have net: "createWalletTransactionNetworkBinding NetMainnet 1 = Inr mainnetWalletNetwork"
    by (simp add: createWalletTransactionNetworkBinding_def mainnetWalletNetwork_def mainnetChainId_def)
  have hex: "\<forall>c. list_all is_hex_lower (wkCondition sample_wire_codec c)"
    by (simp add: sample_wire_codec_def list_all_iff)
  from verified_transaction_exact [OF net hex] v obtain w args key where
    w: "requested_wire sample_wire_codec NetMainnet 1 ''SPW'' sample_wallet_request w args key"
      "wkDeserialize sample_wire_codec (wkSerialize sample_wire_codec w) = Some w" "vwSignerKey v = key"
      "vwConditionCount v = int (length (wrPostConditions sample_wallet_request))"
    by force
  moreover have "wtConditions w = [''ab'']" using w(2) by (auto simp: sample_wire_codec_def)
  moreover have "args = [''0x01'']" "key = None"
    using w(1) by (auto simp: requested_wire_def sample_wire_codec_def sample_wallet_request_def)
  ultimately show ?thesis using v by (auto simp: sample_wallet_request_def)
qed

theorem retained_verification_roundtrip_witness:
  "\<exists>v. vwFunction v = ''update-fees'' \<and>
     readPersistedWalletVerification sample_lib (verified_json v) (''0x'' @ replicate 64 (CHR ''1'')) ''SPW''
       sample_wallet_request mainnetWalletNetwork = Some v"
proof -
  obtain v where v: "verifyWalletTransactionHex sample_wire_codec sample_lib (''0x'' @ replicate 64 (CHR ''1'')) ''SPW''
     sample_wallet_request ''00'' (Some mainnetWalletNetwork) = Inr v" using sample_verified by blast
  have net: "createWalletTransactionNetworkBinding NetMainnet 1 = Inr mainnetWalletNetwork"
    by (simp add: createWalletTransactionNetworkBinding_def mainnetWalletNetwork_def mainnetChainId_def)
  have "\<forall>x. hashSchema (sha256Text sample_lib x)" by simp
  from retained_verification_roundtrip [OF net this _ sample_txid(1) v]
  have read: "readPersistedWalletVerification sample_lib (verified_json v) (''0x'' @ replicate 64 (CHR ''1'')) ''SPW''
       sample_wallet_request mainnetWalletNetwork = Some v"
    by (simp add: sample_wallet_request_def walletFunctions_def)
  then have "vwFunction v = wrFunction sample_wallet_request"
    by (auto simp: readPersistedWalletVerification_def split: option.splits if_splits)
  with read show ?thesis by (auto simp: sample_wallet_request_def)
qed

end
