(* ===== verification/Intent_Observer.thy ===== *)
theory Intent_Observer
  imports Intent_Safety Wallet_Verification Transaction_Outcome Calculation_Read
begin

text \<open>
  What the service does with a submitted wallet transaction it looks up on the network
  (apps/sidekick/src/wallet-intent-service.ts, from \<open>observeStored\<close> down to \<open>recordObservation\<close>).

  A handler takes the intent as it was read before the awaited lookups (\<open>stored\<close>), the parsed manifest
  and what the lookups answered (\<open>observe_reads\<close>), and runs on the repository as it is then. The
  completion of a manager or calculation call needs further reads, the fields of \<open>action_reads\<close>.
  The model's errors carry no messages; where a message enters an observation's detail it is the argument
  \<open>arMessage\<close>. An observation's instant is written as a number, its ISO text being a function of it.
  \<open>u\<close> is the random id of an appended observation.
\<close>

subsection \<open>Manifests and verifications\<close>

record calculation_binding =
  cbPox5 :: string
  cbCycle :: int
  cbExpectedHeight :: int

record wallet_manifest =
  wmAction :: intent_action
  wmNetwork :: wallet_network
  wmChainId :: int
  wmSender :: principal
  wmTransaction :: wallet_request
  wmTransactionSha :: string
  wmBinding :: "calculation_binding option"
  wmBindingSha :: string
  wmJobId :: "string option"

record wallet_observation =
  ivOutcome :: string
  ivSource :: "execution_source option"
  ivObserved :: instant
  ivCanonical :: "bool option"
  ivHeight :: "nat option"
  ivIndexHash :: "string option"
  ivDetail :: string

fun source_text :: "execution_source \<Rightarrow> string" where
  "source_text NodeSource = ''node''"
| "source_text ApiWithNode = ''api-with-node''"
| "source_text ApiSource = ''api''"

definition source_of_text :: "string \<Rightarrow> execution_source option" where
  "source_of_text s = (if s = ''node'' then Some NodeSource else if s = ''api-with-node'' then Some ApiWithNode
     else if s = ''api'' then Some ApiSource else None)"

definition walletOutcomes :: "string list" where
  "walletOutcomes = [''submitted'', ''mempool'', ''canonical-success'', ''complete'', ''not-found'',
     ''noncanonical'', ''superseded'', ''mismatch'', ''abort'', ''unavailable'']"

definition verification_json :: "wallet_observation \<Rightarrow> json" where
  "verification_json v = JObj [(''outcome'', JStr (ivOutcome v)), (''observedAt'', JNum (ivObserved v)),
     (''canonical'', json_opt JBool (ivCanonical v)), (''blockHeight'', json_opt (\<lambda>n. JNum (int n)) (ivHeight v)),
     (''indexBlockHash'', json_opt JStr (ivIndexHash v)), (''detail'', JStr (ivDetail v))]"

definition evidence_json :: "wallet_observation \<Rightarrow> json \<Rightarrow> json" where
  "evidence_json v decoded = JObj [(''schemaVersion'', JNum 1), (''verification'', verification_json v),
     (''decoded'', decoded)]"

definition publicVerificationSchema :: "json \<Rightarrow> wallet_observation option" where
  "publicVerificationSchema v = (case v of
       JObj kvs \<Rightarrow>
         (if \<not> strict_keys [''outcome'', ''observedAt'', ''canonical'', ''blockHeight'', ''indexBlockHash'',
                ''detail'', ''executionSource''] kvs then None
          else Option.bind (string_field kvs ''outcome'') (\<lambda>outcome.
               Option.bind (case obj_get ''observedAt'' kvs of Some (JNum t) \<Rightarrow> Some t | _ \<Rightarrow> None) (\<lambda>observed.
               Option.bind (case obj_get ''canonical'' kvs of Some JNull \<Rightarrow> Some None
                   | Some (JBool b) \<Rightarrow> Some (Some b) | _ \<Rightarrow> None) (\<lambda>canonical.
               Option.bind (case obj_get ''blockHeight'' kvs of Some JNull \<Rightarrow> Some None
                   | Some (JNum n) \<Rightarrow> if 0 \<le> n then Some (Some (nat n)) else None | _ \<Rightarrow> None) (\<lambda>height.
               Option.bind (key_nullable ''indexBlockHash'' kvs) (\<lambda>hash.
               Option.bind (string_field kvs ''detail'') (\<lambda>detail.
               Option.bind (case obj_get ''executionSource'' kvs of None \<Rightarrow> Some None
                   | Some (JStr s) \<Rightarrow> map_option Some (source_of_text s) | _ \<Rightarrow> None) (\<lambda>src.
               if outcome \<in> set walletOutcomes \<and> detail \<noteq> [] \<and>
                  (case hash of None \<Rightarrow> True | Some h \<Rightarrow> indexBlockHashSchema h)
               then Some \<lparr>ivOutcome = outcome, ivSource = src, ivObserved = observed, ivCanonical = canonical,
                 ivHeight = height, ivIndexHash = hash, ivDetail = detail\<rparr>
               else None))))))))
     | _ \<Rightarrow> None)"

text \<open>The source of an execution is kept inside the decoded object and moved back on reading.\<close>

definition observationEvidenceSchema :: "json \<Rightarrow> (wallet_observation \<times> json) option" where
  "observationEvidenceSchema e = (case e of
       JObj kvs \<Rightarrow>
         (if \<not> strict_keys [''schemaVersion'', ''verification'', ''decoded''] kvs \<or>
             obj_get ''schemaVersion'' kvs \<noteq> Some (JNum 1) then None
          else Option.bind (obj_get ''verification'' kvs) (\<lambda>vj.
               Option.bind (publicVerificationSchema vj) (\<lambda>v.
               let decoded = (case obj_get ''decoded'' kvs of None \<Rightarrow> JNull | Some d \<Rightarrow> d);
                   src = (case decoded of JObj ds \<Rightarrow> Option.bind (string_field ds ''executionSource'') source_of_text
                          | _ \<Rightarrow> None) in
               Some (case src of None \<Rightarrow> v | Some x \<Rightarrow> v\<lparr>ivSource := Some x\<rparr>, decoded))))
     | _ \<Rightarrow> None)"

subsection \<open>Storing what was observed\<close>

definition fingerprint :: "wallet_observation \<Rightarrow> json \<Rightarrow> json" where
  "fingerprint v decoded = JObj [(''outcome'', JStr (ivOutcome v)), (''canonical'', json_opt JBool (ivCanonical v)),
     (''blockHeight'', json_opt (\<lambda>n. JNum (int n)) (ivHeight v)), (''indexBlockHash'', json_opt JStr (ivIndexHash v)),
     (''detail'', JStr (ivDetail v)), (''executionSource'', json_opt (\<lambda>x. JStr (source_text x)) (ivSource v)),
     (''decoded'', decoded)]"

definition retained_decoded :: "wallet_observation \<Rightarrow> json \<Rightarrow> json" where
  "retained_decoded v decoded = (case (ivSource v, decoded) of
       (Some x, JObj kvs) \<Rightarrow> JObj (kvs @ [(''executionSource'', JStr (source_text x))])
     | _ \<Rightarrow> decoded)"

definition recordObservation ::
  "tx_lib \<Rightarrow> string \<Rightarrow> intent \<Rightarrow> wallet_observation \<Rightarrow> json \<Rightarrow> unit intent_op" where
  "recordObservation L u stored v decoded =
     (let retained = retained_decoded v decoded in
      ebind (latestObservation L [] [] (wiId stored)) (\<lambda>previous.
      ebind (case Option.bind previous (\<lambda>w. observationEvidenceSchema (woEvidence w)) of
               None \<Rightarrow> eret False
             | Some (pv, pd) \<Rightarrow>
                 ebind (elift (canonicalJsonSha256 L (fingerprint pv pd))) (\<lambda>a.
                 ebind (elift (canonicalJsonSha256 L (fingerprint v retained))) (\<lambda>b. eret (a = b)))) (\<lambda>same.
      if same then eret ()
      else ebind (appendObservation L u \<lparr>aoId = None, aoIntent = wiId stored, aoOutcome = ivOutcome v,
               aoCanonical = ivCanonical v, aoHeight = ivHeight v, aoIndexHash = ivIndexHash v,
               aoEvidence = evidence_json (v\<lparr>ivSource := None\<rparr>) retained, aoObserved = ivObserved v\<rparr>) (\<lambda>_.
           eret ()))))"

definition plain_observation :: "string \<Rightarrow> instant \<Rightarrow> string \<Rightarrow> wallet_observation" where
  "plain_observation outcome now detail = \<lparr>ivOutcome = outcome, ivSource = None, ivObserved = now,
     ivCanonical = None, ivHeight = None, ivIndexHash = None, ivDetail = detail\<rparr>"

definition recordUnavailable :: "tx_lib \<Rightarrow> string \<Rightarrow> intent \<Rightarrow> instant \<Rightarrow> string \<Rightarrow> unit intent_op" where
  "recordUnavailable L u stored now detail =
     recordObservation L u stored (plain_observation ''unavailable'' now detail) JNull"

definition asIntentError :: "intent_error \<Rightarrow> intent_error" where
  "asIntentError e = (case e of WiError c \<Rightarrow> WiService IntentConflict | _ \<Rightarrow> e)"

definition requireStored :: "tx_lib \<Rightarrow> string \<Rightarrow> intent intent_op" where
  "requireStored L i = ebind (getIntent L i) (\<lambda>r. case r of
       None \<Rightarrow> ethrow (WiService IntentNotFound) | Some r \<Rightarrow> eret r)"

definition serviceTransition :: "tx_lib \<Rightarrow> intent \<Rightarrow> intent_state \<Rightarrow> instant \<Rightarrow> intent intent_op" where
  "serviceTransition L stored st now =
     (if wiState stored = st then eret stored
      else ecatch (transitionIntent L (wiId stored) [wiState stored] st now) (\<lambda>e. ethrow (asIntentError e)))"

definition toConfirmed :: "tx_lib \<Rightarrow> intent \<Rightarrow> instant \<Rightarrow> intent intent_op" where
  "toConfirmed L stored now =
     ebind (if wiState stored = IFailed then serviceTransition L stored IReobserve now else eret stored)
       (\<lambda>current. serviceTransition L current IConfirmed now)"

definition toFailed :: "tx_lib \<Rightarrow> intent \<Rightarrow> instant \<Rightarrow> intent intent_op" where
  "toFailed L stored now =
     ebind (if wiState stored = IComplete then serviceTransition L stored IReobserve now else eret stored)
       (\<lambda>current. serviceTransition L current IFailed now)"

definition retireFailedIntent :: "tx_lib \<Rightarrow> string \<Rightarrow> intent \<Rightarrow> instant \<Rightarrow> intent intent_op" where
  "retireFailedIntent L u stored now =
     ebind (serviceTransition L stored ISuperseded now) (\<lambda>superseded.
     ebind (recordObservation L u superseded (plain_observation ''superseded'' now
       ''Failed transaction retired before preparing a replacement'') JNull) (\<lambda>_. eret superseded))"

fun record_displaced :: "tx_lib \<Rightarrow> string \<Rightarrow> intent list \<Rightarrow> instant \<Rightarrow> unit intent_op" where
  "record_displaced L u [] now = eret ()"
| "record_displaced L u (r # rs) now =
     ebind (recordObservation L u r (plain_observation ''superseded'' now
       ''An earlier equivalent transaction completed on-chain'') JNull) (\<lambda>_. record_displaced L u rs now)"

definition resolveEquivalentCompletion :: "tx_lib \<Rightarrow> string \<Rightarrow> string \<Rightarrow> instant \<Rightarrow> unit intent_op" where
  "resolveEquivalentCompletion L u winnerId now =
     ebind (supersedeActiveEquivalent L winnerId now) (\<lambda>displaced. record_displaced L u displaced now)"

definition submitWallet :: "tx_lib \<Rightarrow> string \<Rightarrow> string \<Rightarrow> string \<Rightarrow> instant \<Rightarrow> intent intent_op" where
  "submitWallet L u i txidInput now =
     ebind (requireStored L i) (\<lambda>stored.
     let t = to_lower txidInput in
     if \<not> indexBlockHashSchema t then ethrow (WiService IntentInvalid)
     else ecatch (ebind (submitIntent L (wiId stored) t now) (\<lambda>submitted.
            ebind (if wiTxid stored = None
                   then recordObservation L u submitted (plain_observation ''submitted'' now
                     ''Transaction submitted. Waiting for on-chain verification'') JNull
                   else eret ()) (\<lambda>_. eret submitted)))
          (\<lambda>e. ethrow (asIntentError e)))"

subsection \<open>Evidence\<close>

definition mismatch_message :: "string \<Rightarrow> string" where
  "mismatch_message reason = ''The submitted transaction does not match the prepared request ('' @ reason @
     ''). Do not retry it; prepare a new transaction.''"

text \<open>The verified transaction, or \<open>None\<close> when its bytes are not the request: then the intent has failed.\<close>

definition verifyObserved ::
  "('c, 'v) wire_codec \<Rightarrow> tx_lib \<Rightarrow> string \<Rightarrow> intent \<Rightarrow> wallet_manifest \<Rightarrow> string \<Rightarrow> instant \<Rightarrow>
    verified_transaction option intent_op" where
  "verifyObserved K L u stored m h now =
     (case createWalletTransactionNetworkBinding (wmNetwork m) (wmChainId m) of
        Inl _ \<Rightarrow> ethrow WiPersisted
      | Inr net \<Rightarrow>
          (case verifyWalletTransactionHex K L (case wiTxid stored of None \<Rightarrow> [] | Some t \<Rightarrow> t) (wmSender m)
                  (wmTransaction m) h (Some net) of
             Inr v \<Rightarrow> eret (Some v)
           | Inl reason \<Rightarrow>
               ebind (if wiState stored = ISuperseded then eret stored else toFailed L stored now) (\<lambda>n.
               ebind (recordObservation L u n (plain_observation ''mismatch'' now (mismatch_message reason)) JNull) (\<lambda>_.
               eret None))))"

definition persistedMempoolVerification ::
  "tx_lib \<Rightarrow> intent \<Rightarrow> wallet_manifest \<Rightarrow> verified_transaction option intent_op" where
  "persistedMempoolVerification L stored m =
     ebind (latestObservation L [] [''mempool''] (wiId stored)) (\<lambda>w. case w of
         None \<Rightarrow> eret None
       | Some w \<Rightarrow>
           if woIntent w \<noteq> wiId stored \<or> woOutcome w \<noteq> ''mempool'' \<or> woCanonical w \<noteq> None then eret None
           else (case observationEvidenceSchema (woEvidence w) of
               None \<Rightarrow> eret None
             | Some (v, decoded) \<Rightarrow>
                 if ivOutcome v \<noteq> ''mempool'' \<or> ivCanonical v \<noteq> None then eret None
                 else (case createWalletTransactionNetworkBinding (wmNetwork m) (wmChainId m) of
                     Inl _ \<Rightarrow> ethrow WiPersisted
                   | Inr net \<Rightarrow> eret (readPersistedWalletVerification L decoded
                       (case wiTxid stored of None \<Rightarrow> [] | Some t \<Rightarrow> t) (wmSender m) (wmTransaction m) net))))"

definition refreshPending ::
  "('c, 'v) wire_codec \<Rightarrow> tx_lib \<Rightarrow> string \<Rightarrow> intent \<Rightarrow> wallet_manifest \<Rightarrow> bool \<Rightarrow> string \<Rightarrow> instant \<Rightarrow> unit intent_op" where
  "refreshPending K L u stored m inMempool h now =
     ebind (verifyObserved K L u stored m h now) (\<lambda>v. case v of
         None \<Rightarrow> eret ()
       | Some v \<Rightarrow>
           ebind (if wiState stored = ISuperseded then eret stored
                  else ebind (if wiState stored \<in> {IConfirmed, IComplete, IFailed}
                              then serviceTransition L stored IReobserve now else eret stored)
                         (\<lambda>n. serviceTransition L n IMempool now)) (\<lambda>n.
           recordObservation L u n (plain_observation ''mempool'' now
             (if inMempool then ''Transaction is pending in the node mempool''
              else ''Transaction is pending in a microblock'')) (verified_json v)))"

subsection \<open>A transaction in a block\<close>

datatype job_status = JobComplete | JobSuperseded | JobOpen

record action_reads =
  arComputeHeight :: "int option"
  arJob :: "intent_error + job_status"
  arManager :: "intent_error + bool"
  arMessage :: "intent_error \<Rightarrow> string"

record wallet_indexed =
  wxCanonical :: bool
  wxHeight :: "int option"
  wxIndexHash :: string
  wxRepr :: string

definition block_observation ::
  "string \<Rightarrow> execution_source option \<Rightarrow> instant \<Rightarrow> wallet_indexed \<Rightarrow> string \<Rightarrow> wallet_observation" where
  "block_observation outcome src now ix detail = \<lparr>ivOutcome = outcome, ivSource = src, ivObserved = now,
     ivCanonical = Some True, ivHeight = map_option nat (wxHeight ix), ivIndexHash = Some (wxIndexHash ix),
     ivDetail = detail\<rparr>"

text \<open>
  Whether the executed call did what was asked (\<open>Inr\<close>), or that its claim job was superseded meanwhile
  (\<open>Inl\<close>). The unverified manager's asset transfer is the last component.
\<close>

definition call_completion ::
  "wallet_manifest \<Rightarrow> wallet_indexed \<Rightarrow> verified_transaction \<Rightarrow> action_reads \<Rightarrow>
    intent_error + (unit + bool \<times> bool)" where
  "call_completion m ix v reads =
     (case wmAction m of
        CalculateRewardsAction \<Rightarrow>
          (case wmBinding m of
             None \<Rightarrow> Inl (WiService IntentInvalid)
           | Some b \<Rightarrow>
               if cbPox5 b \<noteq> wrContract (wmTransaction m) then Inl (WiService IntentInvalid)
               else Inr (Inr (calculationResultMatchesTarget (wxRepr ix) (int_text (cbCycle b)) (cbExpectedHeight b),
                 False)))
      | ClaimRewardsAction \<Rightarrow>
          (case wmJobId m of
             None \<Rightarrow> Inr (Inr (vwConditionCount v = 1, False))
           | Some _ \<Rightarrow>
               bindr (arJob reads) (\<lambda>st. Inr (case st of
                   JobSuperseded \<Rightarrow> Inl () | JobComplete \<Rightarrow> Inr (True, False) | JobOpen \<Rightarrow> Inr (False, False))))
      | WithdrawFees \<Rightarrow> bindr (arManager reads) (\<lambda>ok. Inr (Inr (vwConditionCount v = 1 \<and> ok, \<not> ok)))
      | SweepFeeRefunds \<Rightarrow> bindr (arManager reads) (\<lambda>ok. Inr (Inr (vwConditionCount v = 1 \<and> ok, \<not> ok)))
      | _ \<Rightarrow> Inr (Inr (True, False)))"

definition completion_detail :: "wallet_manifest \<Rightarrow> wallet_indexed \<Rightarrow> verified_transaction \<Rightarrow> bool \<Rightarrow> bool \<Rightarrow> string" where
  "completion_detail m ix v complete unattested =
     (if complete then ''Exact transaction and canonical execution verified''
      else if wmAction m = CalculateRewardsAction
      then ''The calculation receipt does not match the sealed cycle and checkpoint: '' @ wxRepr ix
      else if unattested \<and> vwConditionCount v = 1
      then ''Transaction and exact asset transfer verified. Sidekick cannot attest the custom manager's resulting state''
      else ''Transaction confirmed. Waiting for the expected on-chain state'')"

text \<open>After the intent was confirmed (\<open>n\<close>): its completion.\<close>

definition recordCompletion ::
  "tx_lib \<Rightarrow> string \<Rightarrow> intent \<Rightarrow> wallet_manifest \<Rightarrow> wallet_indexed \<Rightarrow> verified_transaction \<Rightarrow>
    execution_source \<Rightarrow> action_reads \<Rightarrow> instant \<Rightarrow> unit intent_op" where
  "recordCompletion L u n m ix v src reads now =
     ebind (elift (call_completion m ix v reads)) (\<lambda>c. case c of
         Inl _ \<Rightarrow>
           ebind (if wiState n = ISuperseded then eret n else serviceTransition L n ISuperseded now) (\<lambda>n.
           recordObservation L u n (block_observation ''superseded'' (Some src) now ix
             ''Transaction confirmed, but its claim job was superseded. Refresh Operations'') (verified_json v))
       | Inr (complete, unattested) \<Rightarrow>
           ebind (if complete \<and> wiState n \<notin> {IComplete, ISuperseded}
                  then serviceTransition L n IComplete now else eret n) (\<lambda>n.
           recordObservation L u n (block_observation (if complete then ''complete'' else ''canonical-success'')
             (Some src) now ix (completion_detail m ix v complete unattested)) (verified_json v)))"

definition refreshSucceeded ::
  "tx_lib \<Rightarrow> string \<Rightarrow> intent \<Rightarrow> wallet_manifest \<Rightarrow> wallet_indexed \<Rightarrow> verified_transaction \<Rightarrow>
    execution_source \<Rightarrow> action_reads \<Rightarrow> instant \<Rightarrow> unit intent_op" where
  "refreshSucceeded L u stored m ix v src reads now =
     ebind (if wiState stored = IComplete \<or> wiState stored = ISuperseded then eret stored
            else toConfirmed L stored now) (\<lambda>n. recordCompletion L u n m ix v src reads now)"

definition overtaken :: "wallet_manifest \<Rightarrow> action_reads \<Rightarrow> bool" where
  "overtaken m reads \<longleftrightarrow> wmAction m = CalculateRewardsAction \<and>
     (case (wmBinding m, arComputeHeight reads) of
        (Some b, Some height) \<Rightarrow> cbExpectedHeight b \<le> height | _ \<Rightarrow> False)"

definition refreshVerified ::
  "tx_lib \<Rightarrow> string \<Rightarrow> intent \<Rightarrow> wallet_manifest \<Rightarrow> wallet_indexed \<Rightarrow> verified_transaction \<Rightarrow> bool \<Rightarrow>
    execution_source \<Rightarrow> action_reads \<Rightarrow> instant \<Rightarrow> unit intent_op" where
  "refreshVerified L u stored m ix v succeeded src reads now =
     (if wxCanonical ix \<and> wxHeight ix = None
      then recordUnavailable L u stored now
        ''The confirmed transaction has no anchored block height. Sidekick will retry''
      else if \<not> wxCanonical ix
      then ebind (if wiState stored = ISuperseded then eret stored else serviceTransition L stored IReobserve now) (\<lambda>n.
           let safe = (case wxHeight ix of None \<Rightarrow> False | Some h \<Rightarrow> isSafeInteger h) in
           recordObservation L u n \<lparr>ivOutcome = ''noncanonical'', ivSource = None, ivObserved = now,
             ivCanonical = Some False, ivHeight = (if safe then map_option nat (wxHeight ix) else None),
             ivIndexHash = (if safe then Some (wxIndexHash ix) else None),
             ivDetail = ''The transaction is no longer canonical. Sidekick will keep checking''\<rparr> (verified_json v))
      else if \<not> isSafeInteger (the (wxHeight ix))
      then recordUnavailable L u stored now ''Indexed block height is outside the safe range''
      else if \<not> succeeded then
        (if overtaken m reads
         then ebind (if wiState stored = ISuperseded then eret stored else serviceTransition L stored ISuperseded now) (\<lambda>n.
              recordObservation L u n (block_observation ''superseded'' (Some src) now ix
                ''Another permissionless caller completed this reward calculation before the submitted transaction executed'')
                (verified_json v))
         else ebind (if wiState stored = ISuperseded then eret stored else toFailed L stored now) (\<lambda>n.
              recordObservation L u n (block_observation ''abort'' (Some src) now ix
                ''Transaction failed on-chain. Prepare a new transaction if the action is still needed'') (verified_json v)))
      else ecatch (refreshSucceeded L u stored m ix v src reads now) (\<lambda>e.
           ebind (requireStored L (wiId stored)) (\<lambda>current.
           recordObservation L u current (block_observation ''canonical-success'' (Some src) now ix
             (''Canonical execution verified; additional action verification is unavailable: '' @ arMessage reads e @
               ''. Sidekick will retry''))
             (verified_json v))))"

definition refreshIndexed ::
  "('c, 'v) wire_codec \<Rightarrow> tx_lib \<Rightarrow> string \<Rightarrow> intent \<Rightarrow> wallet_manifest \<Rightarrow> wallet_indexed \<Rightarrow> string \<Rightarrow>
    action_reads \<Rightarrow> instant \<Rightarrow> unit intent_op" where
  "refreshIndexed K L u stored m ix h reads now =
     ebind (verifyObserved K L u stored m h now) (\<lambda>v. case v of
         None \<Rightarrow> eret ()
       | Some v \<Rightarrow> refreshVerified L u stored m ix v (starts_with ''(ok'' (dropWhile is_space (wxRepr ix))) NodeSource reads now)"

subsection \<open>The configured API, and the whole observation\<close>

text \<open>
  Whether the API's evidence may stand alone: the exact bytes were verified in the mempool before, and
  nothing observed since contradicts them.
\<close>

definition apiEvidenceAllowed :: "tx_lib \<Rightarrow> intent \<Rightarrow> wallet_manifest \<Rightarrow> (verified_transaction option \<times> bool) intent_op" where
  "apiEvidenceAllowed L stored m =
     ebind (persistedMempoolVerification L stored m) (\<lambda>persisted.
     ebind (latestObservation L []
         [''noncanonical'', ''mismatch'', ''canonical-success'', ''complete'', ''abort''] (wiId stored)) (\<lambda>conclusion.
     let conflicted = (case conclusion of None \<Rightarrow> False
           | Some w \<Rightarrow> woOutcome w = ''noncanonical'' \<or> woOutcome w = ''mismatch'') in
     eret (persisted, persisted \<noteq> None \<and> \<not> conflicted)))"

datatype api_fallback = FallbackNone | FallbackUnavailable string | FallbackDone

definition refreshIndexedFromApi ::
  "('c, 'v) wire_codec \<Rightarrow> tx_lib \<Rightarrow> string \<Rightarrow> intent \<Rightarrow> wallet_manifest \<Rightarrow> (bool \<Rightarrow> api_lookup) \<Rightarrow>
    action_reads \<Rightarrow> instant \<Rightarrow> api_fallback intent_op" where
  "refreshIndexedFromApi K L u stored m receipt reads now =
     ebind (apiEvidenceAllowed L stored m) (\<lambda>(persisted, allow).
     case receipt allow of
       LookupNotFound \<Rightarrow> eret FallbackNone
     | LookupUnavailable reason _ \<Rightarrow> eret (FallbackUnavailable
         (''Configured API transaction verification is unavailable: '' @ reason @ ''. Sidekick will retry''))
     | LookupConflict reason height hash \<Rightarrow>
         ebind (if wiState stored = ISuperseded then eret stored else serviceTransition L stored IReobserve now) (\<lambda>n.
         ebind (recordObservation L u n \<lparr>ivOutcome = ''noncanonical'', ivSource = None, ivObserved = now,
             ivCanonical = Some False, ivHeight = Some height, ivIndexHash = Some hash,
             ivDetail = ''Canonical transaction conflict: '' @ conflict_text reason
               @ ''. Sidekick will keep checking; do not repeat the transaction''\<rparr> JNull) (\<lambda>_. eret FallbackDone))
     | LookupObserved r \<Rightarrow>
         ebind (case arTransactionHex r of None \<Rightarrow> eret persisted
                | Some h \<Rightarrow> verifyObserved K L u stored m h now) (\<lambda>decoded. case decoded of
             None \<Rightarrow>
               ebind (if arTransactionHex r \<noteq> None then eret ()
                 else recordUnavailable L u stored now ''Exact wallet transaction verification is unavailable'')
                 (\<lambda>_. eret FallbackDone)
           | Some v \<Rightarrow>
               ebind (refreshVerified L u stored m \<lparr>wxCanonical = True, wxHeight = Some (int (arBlockHeight r)),
                   wxIndexHash = arIndexBlockHash r, wxRepr = arResultRepr r\<rparr> v (arSuccess r) (arSource r) reads now)
                 (\<lambda>_. eret FallbackDone)))"

text \<open>An answer of an invalid shape is an unavailable read with its own reason; a rejected read is \<open>LiveThrew\<close>.\<close>

datatype 'a live_read = LiveObserved 'a | LiveNotFound | LiveUnavailable string | LiveThrew

definition transactionIndexCannotAnswer :: "'a live_read \<Rightarrow> bool" where
  "transactionIndexCannotAnswer r =
     (case r of LiveNotFound \<Rightarrow> True | LiveUnavailable reason \<Rightarrow> reason = ''transaction-index-unavailable'' | _ \<Rightarrow> False)"

record authoritative_facts =
  auScope :: string
  auSender :: principal
  auFactsSha :: string
  auTransactionSha :: string
  auBindingSha :: string

record observe_reads =
  orFacts :: "intent_error + authoritative_facts"
  orRouting :: "string + unit"
  orIndexed :: "(wallet_indexed \<times> string) live_read"
  orReceipt :: "bool \<Rightarrow> api_lookup"
  orPending :: "(bool \<times> string) live_read"
  orAction :: action_reads

definition supersedePrepared :: "tx_lib \<Rightarrow> string \<Rightarrow> intent \<Rightarrow> instant \<Rightarrow> string \<Rightarrow> unit intent_op" where
  "supersedePrepared L u stored now detail =
     ebind (serviceTransition L stored ISuperseded now) (\<lambda>superseded.
     recordObservation L u superseded (plain_observation ''superseded'' now detail) JNull)"

text \<open>The facts an unsigned intent was prepared from, read again.\<close>

definition factsUnchanged :: "intent \<Rightarrow> wallet_manifest \<Rightarrow> authoritative_facts \<Rightarrow> bool" where
  "factsUnchanged stored m a \<longleftrightarrow> auScope a = wiScope stored \<and> auSender a = wiSender stored \<and>
     auFactsSha a = wiFactsSha stored \<and> auTransactionSha a = wmTransactionSha m \<and> auBindingSha a = wmBindingSha m"

definition observePending ::
  "('c, 'v) wire_codec \<Rightarrow> tx_lib \<Rightarrow> string \<Rightarrow> intent \<Rightarrow> wallet_manifest \<Rightarrow> observe_reads \<Rightarrow> api_fallback \<Rightarrow>
    instant \<Rightarrow> unit intent_op" where
  "observePending K L u stored m reads fallback now =
     (case orPending reads of
        LiveObserved (inMempool, h) \<Rightarrow> refreshPending K L u stored m inMempool h now
      | pending \<Rightarrow>
          if fallback \<noteq> FallbackNone \<or> orIndexed reads = LiveThrew \<or>
             \<not> transactionIndexCannotAnswer (orIndexed reads)
          then recordUnavailable L u stored now (case fallback of FallbackUnavailable d \<Rightarrow> d
             | _ \<Rightarrow> ''Confirmed transaction lookup is unavailable. Sidekick will retry'')
          else if pending \<noteq> LiveNotFound
          then recordUnavailable L u stored now (''Pending transaction lookup is unavailable ('' @
             (case pending of LiveUnavailable reason \<Rightarrow> reason | _ \<Rightarrow> ''lookup failed'') @ ''). Sidekick will retry'')
          else if wiState stored = IComplete \<or> wiState stored = IFailed
          then recordUnavailable L u stored now
            ''Previously observed transaction is not currently available from the sources. Its terminal result is retained until contradictory evidence is observed''
          else ebind (if wiState stored \<in> {ISubmitted, IMempool, IConfirmed}
                 then serviceTransition L stored IReobserve now else eret stored) (\<lambda>stored.
               recordObservation L u stored (plain_observation ''not-found'' now
                 ''Transaction is not visible in pending or confirmed node state. Wait and retry; replacement is available after 15 minutes'') JNull))"

definition observeSubmittedIntent ::
  "('c, 'v) wire_codec \<Rightarrow> tx_lib \<Rightarrow> string \<Rightarrow> intent \<Rightarrow> wallet_manifest \<Rightarrow> observe_reads \<Rightarrow> instant \<Rightarrow> unit intent_op" where
  "observeSubmittedIntent K L u stored m reads now =
     (case orRouting reads of
        Inl reason \<Rightarrow> recordUnavailable L u stored now (''Verification paused: '' @ reason)
      | Inr _ \<Rightarrow>
          (case orIndexed reads of
             LiveObserved (ix, h) \<Rightarrow> refreshIndexed K L u stored m ix h (orAction reads) now
           | _ \<Rightarrow>
               ebind (refreshIndexedFromApi K L u stored m (orReceipt reads) (orAction reads) now) (\<lambda>fallback.
               if fallback = FallbackDone then eret ()
               else observePending K L u stored m reads fallback now)))"

definition observeStored ::
  "('c, 'v) wire_codec \<Rightarrow> tx_lib \<Rightarrow> string \<Rightarrow> intent \<Rightarrow> wallet_manifest \<Rightarrow> observe_reads \<Rightarrow> instant \<Rightarrow> unit intent_op" where
  "observeStored K L u stored m reads now =
     (if wiState stored = IPrepared \<and> wiExpires stored \<le> now
      then ebind (serviceTransition L stored IExpired now) (\<lambda>_. eret ())
      else if wiState stored = IPrepared
      then (case orFacts reads of
          Inl (WiService _) \<Rightarrow> supersedePrepared L u stored now ''Operation state changed. Prepare a new transaction''
        | Inl e \<Rightarrow> ethrow e
        | Inr a \<Rightarrow>
            if \<not> factsUnchanged stored m a
            then supersedePrepared L u stored now ''Operation state changed before signing. Prepare a new transaction''
            else if wiTxid stored = None then eret ()
            else observeSubmittedIntent K L u stored m reads now)
      else if wiTxid stored = None then eret ()
      else observeSubmittedIntent K L u stored m reads now)"

subsection \<open>Replacement\<close>

definition replacementGraceMs :: int where
  "replacementGraceMs = 15 * 60 * 1000"

definition latestVerification :: "tx_lib \<Rightarrow> string \<Rightarrow> wallet_observation option intent_op" where
  "latestVerification L i = ebind (latestObservation L [] [] i) (\<lambda>w.
     eret (map_option fst (Option.bind w (\<lambda>w. observationEvidenceSchema (woEvidence w)))))"

text \<open>The checks of \<open>replace\<close> before its refresh, and what it does after it.\<close>

definition replaceable :: "tx_lib \<Rightarrow> string \<Rightarrow> instant \<Rightarrow> unit intent_op" where
  "replaceable L i now =
     ebind (requireStored L i) (\<lambda>before.
     ebind (eguard (wiState before = IReobserve \<and> wiSubmitted before \<noteq> None) (WiService IntentConflict)) (\<lambda>_.
     eguard (the (wiSubmitted before) + replacementGraceMs \<le> now) (WiService IntentConflict)))"

definition replaceRefreshed :: "tx_lib \<Rightarrow> string \<Rightarrow> string \<Rightarrow> intent_error + unit \<Rightarrow> instant \<Rightarrow> intent intent_op" where
  "replaceRefreshed L u i facts now =
     ebind (requireStored L i) (\<lambda>stored.
     ebind (latestVerification L i) (\<lambda>v.
     ebind (eguard (wiState stored = IReobserve \<and> map_option ivOutcome v = Some ''not-found'')
       (WiService IntentConflict)) (\<lambda>_.
     ebind (elift facts) (\<lambda>_.
     ebind (serviceTransition L stored ISuperseded now) (\<lambda>superseded.
     ebind (recordObservation L u superseded (plain_observation ''superseded'' now
       ''Transaction remained absent after 15 minutes and was replaced'') JNull) (\<lambda>_. eret superseded))))))"

definition hasCanonicalExecution :: "tx_lib \<Rightarrow> string \<Rightarrow> intent_action \<Rightarrow> bool intent_op" where
  "hasCanonicalExecution L i act =
     (let concluded = (\<lambda>outcomes w. woOutcome w \<in> set outcomes \<and> woCanonical w = Some True \<and>
            (case observationEvidenceSchema (woEvidence w) of None \<Rightarrow> False
             | Some (v, _) \<Rightarrow> ivOutcome v \<in> set outcomes \<and> ivCanonical v = Some True)) in
      ebind (latestObservation L [''superseded''] [] i) (\<lambda>w. case w of
          None \<Rightarrow> eret False
        | Some w \<Rightarrow>
            if \<not> concluded [''complete'', ''canonical-success''] w then eret False
            else if woOutcome w = ''complete'' \<or> act = WithdrawFees \<or> act = SweepFeeRefunds then eret True
            else ebind (listObservations L i) (\<lambda>ws. eret (list_ex (concluded [''complete'']) ws))))"

definition historicalScopeBlockers :: "string list" where
  "historicalScopeBlockers = [''submitted'', ''mempool'', ''canonical-success'', ''complete'', ''unavailable'']"

text \<open>
  Whether an earlier transaction of the scope, just observed again, still keeps a new one from being
  prepared (the body of the loop of \<open>reconcileHistoricalScope\<close>).
\<close>

definition historicalBlocker :: "tx_lib \<Rightarrow> intent \<Rightarrow> instant \<Rightarrow> bool intent_op" where
  "historicalBlocker L candidate now =
     ebind (latestVerification L (wiId candidate)) (\<lambda>v.
     ebind (hasCanonicalExecution L (wiId candidate) (wiAction candidate)) (\<lambda>completed.
     eret (case v of None \<Rightarrow> False
       | Some v \<Rightarrow> (ivOutcome v \<in> set historicalScopeBlockers \<and> \<not> completed) \<or>
           (ivOutcome v = ''not-found'' \<and> (case wiSubmitted candidate of None \<Rightarrow> False
              | Some t \<Rightarrow> now < t + replacementGraceMs)))))"

end
