(* ===== verification/Intent_Verdict.thy ===== *)
theory Intent_Verdict
  imports Intent_Observer
begin

text \<open>
  What an observation means for an intent, as one pure function of what was read (\<open>observed_verdict\<close>), of the
  state the intent was read in (\<open>observed_state\<close>, \<open>observed_path\<close>) and of the state it is in by then
  (\<open>settled\<close>), and the proof that the handlers compute it: whatever they record on the way, and even if
  recording fails, the stored intent ends in that state and no other intent is touched.
\<close>

datatype evidence_verdict =
  NoVerdict | PendingSeen | NotRequested | OffChain | Aborted | Overtaken | Displaced
| ExecutedCall bool | Missing

text \<open>The state an observed intent belongs in. A superseded intent stays superseded.\<close>

definition observed_state :: "intent_state \<Rightarrow> evidence_verdict \<Rightarrow> intent_state" where
  "observed_state st v = (if st = ISuperseded then ISuperseded else (case v of
       NoVerdict \<Rightarrow> st
     | PendingSeen \<Rightarrow> IMempool
     | NotRequested \<Rightarrow> IFailed
     | OffChain \<Rightarrow> IReobserve
     | Aborted \<Rightarrow> IFailed
     | Overtaken \<Rightarrow> ISuperseded
     | Displaced \<Rightarrow> ISuperseded
     | ExecutedCall complete \<Rightarrow> if st = IComplete \<or> complete then IComplete else IConfirmed
     | Missing \<Rightarrow> if st \<in> {IComplete, IFailed} then st else IReobserve))"

definition block_verdict :: "wallet_manifest \<Rightarrow> wallet_indexed \<Rightarrow> verified_transaction \<Rightarrow> bool \<Rightarrow> action_reads \<Rightarrow> evidence_verdict" where
  "block_verdict m ix v succeeded reads =
     (if \<not> wxCanonical ix then OffChain
      else (case wxHeight ix of
          None \<Rightarrow> NoVerdict
        | Some h \<Rightarrow>
            if \<not> isSafeInteger h then NoVerdict
            else if \<not> succeeded then (if overtaken m reads then Overtaken else Aborted)
            else (case call_completion m ix v reads of
                Inl _ \<Rightarrow> ExecutedCall False
              | Inr (Inl _) \<Rightarrow> Displaced
              | Inr (Inr (complete, _)) \<Rightarrow> ExecutedCall complete)))"

text \<open>What the pending lookup says, when no source showed the transaction in a block (\<open>unknown\<close>: the API said so).\<close>

definition unconfirmed_verdict ::
  "('c, 'v) wire_codec \<Rightarrow> tx_lib \<Rightarrow> wallet_binding \<Rightarrow> txid \<Rightarrow> wallet_manifest \<Rightarrow> observe_reads \<Rightarrow> bool \<Rightarrow> evidence_verdict" where
  "unconfirmed_verdict K L net t m reads unknown = (case orPending reads of
       LiveObserved (_, h) \<Rightarrow>
         (case verifyWalletTransactionHex K L t (wmSender m) (wmTransaction m) h (Some net) of
            Inl _ \<Rightarrow> NotRequested | Inr _ \<Rightarrow> PendingSeen)
     | LiveNotFound \<Rightarrow> if transactionIndexCannotAnswer (orIndexed reads) \<and> unknown then Missing else NoVerdict
     | _ \<Rightarrow> NoVerdict)"

text \<open>What an accepted API receipt says: its own bytes are verified, or the retained verification stands in.\<close>

definition receipt_verdict ::
  "('c, 'v) wire_codec \<Rightarrow> tx_lib \<Rightarrow> wallet_binding \<Rightarrow> txid \<Rightarrow> wallet_manifest \<Rightarrow> action_reads \<Rightarrow>
    verified_transaction option \<Rightarrow> api_receipt \<Rightarrow> evidence_verdict" where
  "receipt_verdict K L net t m reads persisted x =
     (case (case arTransactionHex x of
              None \<Rightarrow> Some persisted
            | Some h \<Rightarrow> (case verifyWalletTransactionHex K L t (wmSender m) (wmTransaction m) h (Some net) of
                 Inl _ \<Rightarrow> None | Inr v \<Rightarrow> Some (Some v))) of
        None \<Rightarrow> NotRequested
      | Some None \<Rightarrow> NoVerdict
      | Some (Some v) \<Rightarrow> block_verdict m \<lparr>wxCanonical = True, wxHeight = Some (int (arBlockHeight x)),
          wxIndexHash = arIndexBlockHash x, wxRepr = arResultRepr x\<rparr> v (arSuccess x) reads)"

definition observed_verdict ::
  "('c, 'v) wire_codec \<Rightarrow> tx_lib \<Rightarrow> wallet_binding \<Rightarrow> txid \<Rightarrow> wallet_manifest \<Rightarrow> observe_reads \<Rightarrow>
    verified_transaction option \<Rightarrow> bool \<Rightarrow> evidence_verdict" where
  "observed_verdict K L net t m reads persisted allow =
     (case orRouting reads of
        Inl _ \<Rightarrow> NoVerdict
      | Inr _ \<Rightarrow>
          (case orIndexed reads of
             LiveObserved (ix, h) \<Rightarrow>
               (case verifyWalletTransactionHex K L t (wmSender m) (wmTransaction m) h (Some net) of
                  Inl _ \<Rightarrow> NotRequested
                | Inr v \<Rightarrow> block_verdict m ix v (starts_with ''(ok'' (dropWhile is_space (wxRepr ix))) (orAction reads))
           | _ \<Rightarrow>
               (case orReceipt reads allow of
                  LookupNotFound \<Rightarrow> unconfirmed_verdict K L net t m reads True
                | LookupUnavailable _ _ \<Rightarrow> unconfirmed_verdict K L net t m reads False
                | LookupConflict _ _ _ \<Rightarrow> OffChain
                | LookupObserved x \<Rightarrow> receipt_verdict K L net t m (orAction reads) persisted x)))"

subsection \<open>The way there\<close>

text \<open>
  The transitions by which the handlers take an intent read in state \<open>st\<close> to its verdict. The table has
  no edge from complete to failed or from failed to confirmed: those lead through reobserve.
\<close>

definition failing :: "intent_state \<Rightarrow> intent_state list" where
  "failing st = (if st = IComplete then [IReobserve, IFailed] else [IFailed])"

definition confirming :: "intent_state \<Rightarrow> intent_state list" where
  "confirming st = (if st = IComplete then [] else if st = IFailed then [IReobserve, IConfirmed] else [IConfirmed])"

definition observed_path :: "intent_state \<Rightarrow> evidence_verdict \<Rightarrow> intent_state list" where
  "observed_path st v = (if st = ISuperseded then [] else (case v of
       NoVerdict \<Rightarrow> []
     | PendingSeen \<Rightarrow> if st \<in> {IConfirmed, IComplete, IFailed} then [IReobserve, IMempool] else [IMempool]
     | NotRequested \<Rightarrow> failing st
     | OffChain \<Rightarrow> [IReobserve]
     | Aborted \<Rightarrow> failing st
     | Overtaken \<Rightarrow> [ISuperseded]
     | Displaced \<Rightarrow> confirming st @ [ISuperseded]
     | ExecutedCall complete \<Rightarrow> if st = IComplete then [] else confirming st @ (if complete then [IComplete] else [])
     | Missing \<Rightarrow> if st \<in> {ISubmitted, IMempool, IConfirmed} then [IReobserve] else []))"

text \<open>
  Where an intent ends that is in state \<open>current\<close> while the handler, having read it earlier, believes it to be
  in state \<open>seen\<close>. A transition to the state already seen is not written; one to the state it is in by now
  is accepted as done; any other one needs the intent to be as it was seen and the table to allow it,
  and a failed intent cannot be observed again when its scope is taken (\<open>blocked\<close>). A refused one ends
  the handler.
\<close>

fun settled :: "bool \<Rightarrow> intent_state \<Rightarrow> intent_state \<Rightarrow> intent_state list \<Rightarrow> intent_state" where
  "settled blocked seen current [] = current"
| "settled blocked seen current (st # p) =
     (if seen = st then settled blocked seen current p
      else if current = st \<or> current = seen \<and> st \<in> transitions seen \<and> \<not> (blocked \<and> seen = IFailed \<and> st = IReobserve)
      then settled blocked st st p
      else current)"

text \<open>The end of the row \<open>q\<close> of \<open>s\<close>, observed as \<open>r\<close>.\<close>

definition observed_end :: "intent \<Rightarrow> intent \<Rightarrow> intent_store \<Rightarrow> evidence_verdict \<Rightarrow> intent_state" where
  "observed_end r q s v = settled (\<not> scope_free q s) (wiState r) (wiState q) (observed_path (wiState r) v)"

definition submittedStates :: "intent_state set" where
  "submittedStates = {ISubmitted, IMempool, IConfirmed, IComplete, IFailed, IReobserve}"

lemma settled_end: "settled b seen current p \<in> insert current (set p)"
proof (induction p arbitrary: seen current)
  case (Cons st p)
  then show ?case using Cons.IH [of seen current] Cons.IH [of st st] by auto
qed simp

text \<open>
  The intent ends in the state of the verdict, or stays in the one it is in because it has changed since
  it was read; unchanged, it gets there except that a failed one of a taken scope can only be overtaken.
\<close>

lemma settled_path:
  assumes "seen \<in> insert ISuperseded submittedStates"
  shows "settled b seen current (observed_path seen v) \<in> {current, observed_state seen v}"
    and "current = seen \<Longrightarrow> \<not> (b \<and> seen = IFailed) \<Longrightarrow> settled b seen current (observed_path seen v) = observed_state seen v"
    and "b \<Longrightarrow> current = IFailed \<Longrightarrow> seen = IFailed \<Longrightarrow>
      settled b seen current (observed_path seen v) = (if v = Overtaken then ISuperseded else IFailed)"
  using assms unfolding submittedStates_def
  by (cases v; cases current; auto simp: observed_path_def observed_state_def failing_def confirming_def transitions_def)+

lemma path_completes: "IComplete \<in> set (observed_path st v) \<Longrightarrow> v = ExecutedCall True"
  by (auto simp: observed_path_def failing_def confirming_def split: evidence_verdict.splits if_splits)

declare settled.simps(2) [simp del]

subsection \<open>Following one row\<close>

text \<open>\<open>follows L q s st t\<close>: from \<open>s\<close> to \<open>t\<close> the row of \<open>q\<close> went to state \<open>st\<close> and no other row changed.\<close>

definition follows :: "tx_lib \<Rightarrow> intent \<Rightarrow> intent_store \<Rightarrow> intent_state \<Rightarrow> intent_store \<Rightarrow> bool" where
  "follows L q s st t \<longleftrightarrow> intents_ok L t \<and> (\<exists>a \<in> set (isRows t). wiId a = wiId q \<and> wiState a = st) \<and>
     other_rows (wiId q) t = other_rows (wiId q) s"

text \<open>
  \<open>heading L q s path X p t\<close>: the handler holds \<open>p\<close> as the row of \<open>q\<close>, still has \<open>path\<close> before it, and from the
  row as it is in \<open>t\<close> this path ends in \<open>X\<close>.
\<close>

definition heading ::
  "tx_lib \<Rightarrow> intent \<Rightarrow> intent_store \<Rightarrow> intent_state list \<Rightarrow> intent_state \<Rightarrow> intent \<Rightarrow> intent_store \<Rightarrow> bool" where
  "heading L q s path X p t \<longleftrightarrow> intents_ok L t \<and> wiId p = wiId q \<and> other_rows (wiId q) t = other_rows (wiId q) s \<and>
     (\<exists>a \<in> set (isRows t). wiId a = wiId q \<and> wiTxid a \<noteq> None \<and> scope_key a = scope_key q \<and>
        settled (\<not> scope_free q s) (wiState p) (wiState a) path = X)"

lemma heading_arrived: "heading L q s [] X p t \<Longrightarrow> follows L q s X t"
  by (auto simp: heading_def follows_def)

lemma scope_free_others: "scope_free r s \<longleftrightarrow> (\<forall>x \<in> set (other_rows (wiId r) s). scope_key x = scope_key r \<longrightarrow> \<not> intent_active (wiState x))"
  by (auto simp: scope_free_def other_rows_def)

lemma stored_reads:
  assumes ok: "intents_ok L t" and a: "a \<in> set (isRows t)" "wiId a = i"
  shows "readable L a" "isUuid L i" "row_find wiId i (isRows t) = Some a" "intentRow L i t = (Inr (Some a), t)"
proof -
  show r: "readable L a" using ok a(1) by (simp add: intents_ok_def)
  from readable_row [OF r] a(2) show u: "isUuid L i" by (simp add: walletIntentRowSchema_def)
  show f: "row_find wiId i (isRows t) = Some a"
    using ok a row_find_unique [of wiId "isRows t" a] by (auto simp: intents_ok_def intents_unique_iff)
  from r u f show "intentRow L i t = (Inr (Some a), t)" by (simp add: intentRow_def eread_def)
qed

text \<open>A transition along the table of the row as stored succeeds and answers the moved row.\<close>

lemma intent_transition_row:
  assumes ok: "intents_ok L t" and q: "q \<in> set (isRows t)" "st \<in> transitions (wiState q)"
    and unblocked: "\<not> (st = IReobserve \<and> reobserve_blocked (wiId q) t)"
  shows "\<exists>u. serviceTransition L q st now t = (Inr (moved st now q), u) \<and> intents_ok L u \<and>
    moved st now q \<in> set (isRows u) \<and> other_rows (wiId q) u = other_rows (wiId q) t"
proof -
  note row = stored_reads(1,3,2) [OF ok q(1) refl]
  have neq: "wiState q \<noteq> st" using q(2) by (auto simp: transitions_def split: intent_state.splits)
  have read: "wpe (intentRow L (wiId q)) Q F t = Q (Some q) t" for Q F
    using row by (simp add: intentRow_def)
  let ?post = "\<lambda>x u. x = moved st now q \<and> intents_ok L u \<and> moved st now q \<in> set (isRows u) \<and>
      other_rows (wiId q) u = other_rows (wiId q) t"
  have "wpe (updateWhere (\<lambda>x. wiId x = wiId q \<and> wiVersion x = wiVersion q \<and> wiState x \<in> set [wiState q]) (moved st now))
     (\<lambda>n. wpe (ebind (eguard (n = 1) (WiError WiStateConflict)) (\<lambda>_.
                ebind (intentRow L (wiId q)) (\<lambda>x. case x of
                    None \<Rightarrow> ethrow WiPersisted
                  | Some x \<Rightarrow> elift (mapIntent L x)))) ?post (\<lambda>_. False)) (\<lambda>_. False) t"
  proof (rule transition_update [OF ok q(1) _ q(2) unblocked])
    fix u assume u: "preserves L t u" "moved st now q \<in> set (isRows u)"
      and others: "other_rows (wiId q) u = other_rows (wiId q) t"
    then have "intents_ok L u" by (simp add: preserves_def)
    then have "row_find wiId (wiId q) (isRows u) = Some (moved st now q)" "readable L (moved st now q)"
      using u(2) row_find_unique [of wiId "isRows u" "moved st now q"] by (auto simp: intents_ok_def intents_unique_iff)
    then show "wpe (ebind (eguard (1 = 1) (WiError WiStateConflict)) (\<lambda>_.
                ebind (intentRow L (wiId q)) (\<lambda>x. case x of
                    None \<Rightarrow> ethrow WiPersisted
                  | Some x \<Rightarrow> elift (mapIntent L x)))) ?post (\<lambda>_. False) u"
      using row(3) u(2) others \<open>intents_ok L u\<close> by (simp add: intentRow_def)
  qed simp
  then have "wpe (transitionIntent L (wiId q) [wiState q] st now) ?post (\<lambda>_. False) t"
    using row(3) q(2) neq unfolding transitionIntent_def wpe_ebind wpe_eguard wpe_basic read by simp
  then show ?thesis
    using neq by (auto simp: serviceTransition_def ecatch_def dest!: wpe_total)
qed

lemma service_conflict:
  assumes ok: "intents_ok L t" and a: "a \<in> set (isRows t)" "wiId a = wiId p"
    and "wiState p \<noteq> st" "wiState a \<noteq> st" "wiState a \<noteq> wiState p \<or> st \<notin> transitions (wiState p)"
  shows "\<exists>e. serviceTransition L p st now t = (Inl e, t)"
  using stored_reads [OF ok a] assms(4-6)
  by (auto simp: serviceTransition_def ecatch_def transitionIntent_def immediate_def monad_defs)

lemma wp_keeps: "keeps P m \<Longrightarrow> P s \<Longrightarrow> (\<And>a t. P t \<Longrightarrow> Q a t) \<Longrightarrow> (\<And>t. P t \<Longrightarrow> E t) \<Longrightarrow> wp m Q E s"
  by (auto simp: keeps_def wp_def split: prod.split sum.split)

text \<open>Recording an observation leaves the intents alone.\<close>

lemma append_rows: "isRows (snd (appendObservation L u v s)) = isRows s"
  by (auto simp: appendObservation_def insertObservation_def eread_def Let_def monad_defs immediate_def intentRow_def
      split: sum.splits prod.splits if_splits option.splits)

lemma keeps_record: "keeps (\<lambda>t. intents_ok L t \<and> isRows t = R) (recordObservation L u r v d)"
proof -
  have "keeps (\<lambda>t. intents_ok L t \<and> isRows t = R) (appendObservation L u w)" for w
    using append_settles by (auto simp: keeps_def append_rows preserves_def)
  then show ?thesis
    unfolding recordObservation_def Let_def latestObservation_def
    by (auto intro!: keeps_rules split: option.split prod.split)
qed

lemma wp_record:
  assumes "intents_ok L t" and "\<And>a u. intents_ok L u \<Longrightarrow> isRows u = isRows t \<Longrightarrow> Q a u \<and> E u"
  shows "wp (recordObservation L x r v d) Q E t"
  by (rule wp_keeps [OF keeps_record [of L "isRows t"]]) (use assms in auto)

lemma wp_note:
  assumes "heading L q s [] X p t"
  shows "wp (recordObservation L x p' v d) (\<lambda>_. follows L q s X) (follows L q s X) t"
  using heading_arrived [OF assms] by (intro wp_record) (auto simp: follows_def other_rows_def)

lemma wp_move:
  assumes p: "heading L q s (st # path) X p t"
    and Q: "\<And>n u. heading L q s path X n u \<Longrightarrow> wiState n = st \<Longrightarrow> Q n u"
    and E: "\<And>u. follows L q s X u \<Longrightarrow> E u"
  shows "wp (serviceTransition L p st now) Q E t"
proof -
  from p obtain a where ok: "intents_ok L t" and ids: "wiId p = wiId q" "wiId a = wiId q"
    and others: "other_rows (wiId q) t = other_rows (wiId q) s"
    and a: "a \<in> set (isRows t)" "wiTxid a \<noteq> None" "scope_key a = scope_key q"
    and X: "settled (\<not> scope_free q s) (wiState p) (wiState a) (st # path) = X"
    by (auto simp: heading_def)
  have free: "scope_free a t \<longleftrightarrow> scope_free q s"
    using others ids(2) a(3) by (simp add: scope_free_others)
  have stay: "follows L q s (wiState a) t" using ok ids a others by (auto simp: follows_def)
  consider (seen) "wiState p = st"
    | (there) "wiState p \<noteq> st" "wiState a = st"
    | (moves) "wiState p \<noteq> st" "wiState a = wiState p" "st \<in> transitions (wiState p)"
        "\<not> (\<not> scope_free q s \<and> wiState p = IFailed \<and> st = IReobserve)"
    | (blocked) "wiState p \<noteq> st" "wiState a = wiState p" "\<not> scope_free q s" "wiState p = IFailed" "st = IReobserve"
    | (conflict) "wiState p \<noteq> st" "wiState a \<noteq> st" "wiState a \<noteq> wiState p \<or> st \<notin> transitions (wiState p)"
    by blast
  then show ?thesis
  proof cases
    case seen
    then have "heading L q s path X p t" using p by (auto simp: heading_def settled.simps(2))
    with seen show ?thesis by (simp add: serviceTransition_def Q)
  next
    case there
    then have "serviceTransition L p st now t = (Inr a, t)"
      using stored_reads [OF ok a(1), of "wiId p"] ids
      by (simp add: serviceTransition_def ecatch_def transitionIntent_def immediate_def monad_defs)
    moreover have "heading L q s path X a t"
      using there X ok ids others a by (auto simp: heading_def settled.simps(2))
    ultimately show ?thesis using there Q by (simp add: wp_def)
  next
    case moves
    have "\<not> (st = IReobserve \<and> reobserve_blocked (wiId a) t)"
    proof
      assume blocked: "st = IReobserve \<and> reobserve_blocked (wiId a) t"
      then obtain x where x: "x \<in> set (isRows t)" "wiId x = wiId a" "wiState x = IFailed" "wiTxid x = None \<or> \<not> scope_free x t"
        by (auto simp: reobserve_blocked_def)
      from same_row [OF ok x(1) a(1) x(2)] x(3,4) blocked moves a(2) free show False by auto
    qed
    from intent_transition_row [OF ok a(1) _ this, of now] moves obtain u where
      u: "serviceTransition L a st now t = (Inr (moved st now a), u)" "intents_ok L u" "moved st now a \<in> set (isRows u)"
        "other_rows (wiId a) u = other_rows (wiId a) t" by auto
    have "serviceTransition L p st now = serviceTransition L a st now"
      using ids moves by (simp add: serviceTransition_def)
    moreover have "settled (\<not> scope_free q s) st st path = X"
      using moves X by (auto simp: settled.simps(2))
    then have "heading L q s path X (moved st now a) u"
      unfolding heading_def using u(2-4) others ids a by (auto intro!: bexI [of _ "moved st now a"])
    ultimately show ?thesis using Q by (simp add: wp_def u(1))
  next
    case blocked
    then have "reobserve_blocked (wiId p) t"
      using a(1) ids free by (auto simp: reobserve_blocked_def)
    moreover have "isUuid L (wiId p)" using stored_reads [OF ok a(1)] ids by simp
    ultimately obtain c where "transitionIntent L (wiId p) [wiState p] st now t = (Inl (WiConstraint c), t)"
      using transition_blocked [OF ok] blocked(4,5) by fastforce
    then have "serviceTransition L p st now t = (Inl (WiConstraint c), t)"
      using blocked(1) by (simp add: serviceTransition_def ecatch_def monad_defs asIntentError_def)
    moreover have "X = wiState a" using X blocked by (auto simp: settled.simps(2))
    ultimately show ?thesis using stay E by (simp add: wp_def)
  next
    case conflict
    then have "X = wiState a" using X by (auto simp: settled.simps(2))
    with service_conflict [OF ok a(1) _ conflict, of now] ids stay E show ?thesis by (auto simp: wp_def)
  qed
qed

lemma wp_toFailed:
  assumes p: "heading L q s (failing (wiState p)) X p t"
    and Q: "\<And>n u. heading L q s [] X n u \<Longrightarrow> Q n u" and E: "\<And>u. follows L q s X u \<Longrightarrow> E u"
  shows "wp (toFailed L p now) Q E t"
  using p unfolding toFailed_def failing_def wp_ebind by (auto intro!: wp_move Q E split: if_splits)

lemma wp_toConfirmed:
  assumes p: "heading L q s (confirming (wiState p) @ path) X p t" and "wiState p \<noteq> IComplete"
    and Q: "\<And>n u. heading L q s path X n u \<Longrightarrow> wiState n = IConfirmed \<Longrightarrow> Q n u"
    and E: "\<And>u. follows L q s X u \<Longrightarrow> E u"
  shows "wp (toConfirmed L p now) Q E t"
  using p assms(2) unfolding toConfirmed_def confirming_def wp_ebind by (auto intro!: wp_move Q E split: if_splits)

subsection \<open>The handlers compute the verdict\<close>

text \<open>\<open>lands L q s m X\<close>: run on \<open>s\<close>, \<open>m\<close> leaves the row of \<open>q\<close> in state \<open>X\<close>, whether it returns or throws.\<close>

abbreviation lands :: "tx_lib \<Rightarrow> intent \<Rightarrow> intent_store \<Rightarrow> (intent_store, intent_error, 'a) eng \<Rightarrow> intent_state \<Rightarrow> bool" where
  "lands L q s m X \<equiv> wp m (\<lambda>_. follows L q s X) (follows L q s X) s"

text \<open>\<open>r\<close> is the row \<open>q\<close> of \<open>s\<close> as it was read, then or earlier.\<close>

definition observable :: "tx_lib \<Rightarrow> intent \<Rightarrow> intent \<Rightarrow> intent_store \<Rightarrow> bool" where
  "observable L r q s \<longleftrightarrow> intents_ok L s \<and> q \<in> set (isRows s) \<and> wiId r = wiId q \<and> wiTxid q \<noteq> None \<and>
     wiState r \<in> insert ISuperseded submittedStates"

lemma observable_heading: "observable L r q s \<Longrightarrow> heading L q s (observed_path (wiState r) v) (observed_end r q s v) r s"
  unfolding observable_def heading_def observed_end_def by (auto intro!: bexI [of _ q])

lemma path_none [simp]: "observed_path st NoVerdict = []" "observed_path ISuperseded v = []"
  by (simp_all add: observed_path_def)

lemma lands_unavailable: "observable L r q s \<Longrightarrow> lands L q s (recordUnavailable L u r now d) (observed_end r q s NoVerdict)"
  unfolding recordUnavailable_def using observable_heading [of L r q s NoVerdict] by (intro wp_note) simp

lemma lands_failed:
  assumes "observable L r q s" and v: "v = NotRequested \<or> v = Aborted"
  shows "lands L q s (ebind (if wiState r = ISuperseded then eret r else toFailed L r now)
     (\<lambda>n. recordObservation L u n w d)) (observed_end r q s v)"
proof (cases "wiState r = ISuperseded")
  case True
  with observable_heading [OF assms(1), of v] show ?thesis by (simp add: wp_note)
next
  case False
  with v have "observed_path (wiState r) v = failing (wiState r)" by (auto simp: observed_path_def)
  with observable_heading [OF assms(1), of v] False show ?thesis by (auto intro!: wp_toFailed wp_note)
qed

lemma lands_moved:
  assumes "observable L r q s" and "v = OffChain \<and> st = IReobserve \<or> v = Overtaken \<and> st = ISuperseded"
  shows "lands L q s (ebind (if wiState r = ISuperseded then eret r else serviceTransition L r st now)
     (\<lambda>n. recordObservation L u n w d)) (observed_end r q s v)"
proof (cases "wiState r = ISuperseded")
  case True
  with observable_heading [OF assms(1), of v] show ?thesis by (simp add: wp_note)
next
  case False
  with assms(2) have "observed_path (wiState r) v = [st]" by (auto simp: observed_path_def)
  with observable_heading [OF assms(1), of v] False show ?thesis by (auto intro!: wp_move wp_note)
qed

text \<open>After the confirmation: what is left of the path of a successful execution.\<close>

definition completing :: "intent_state \<Rightarrow> evidence_verdict \<Rightarrow> intent_state list" where
  "completing st v = (if st = ISuperseded then [] else (case v of
       Displaced \<Rightarrow> [ISuperseded] | ExecutedCall True \<Rightarrow> if st = IComplete then [] else [IComplete] | _ \<Rightarrow> []))"

definition call_verdict :: "intent_error + (unit + bool \<times> bool) \<Rightarrow> evidence_verdict" where
  "call_verdict c = (case c of Inl _ \<Rightarrow> ExecutedCall False | Inr (Inl _) \<Rightarrow> Displaced
     | Inr (Inr (complete, _)) \<Rightarrow> ExecutedCall complete)"

lemma completion_lands:
  assumes n: "heading L q s (completing (wiState n) (call_verdict (call_completion m ix v reads))) X n t"
  shows "wp (recordCompletion L u n m ix v src reads now) (\<lambda>_. follows L q s X) (follows L q s X) t"
proof (cases "call_completion m ix v reads")
  case (Inl e)
  with n have "follows L q s X t" by (auto intro: heading_arrived simp: completing_def call_verdict_def split: if_splits)
  with Inl show ?thesis by (simp add: recordCompletion_def)
next
  case (Inr c)
  show ?thesis
  proof (cases c)
    case c: (Inl x)
    have "wiState n = ISuperseded \<Longrightarrow> heading L q s [] X n t" "wiState n \<noteq> ISuperseded \<Longrightarrow> heading L q s [ISuperseded] X n t"
      using n Inr c by (auto simp: completing_def call_verdict_def)
    with Inr c show ?thesis by (cases "wiState n = ISuperseded") (auto simp: recordCompletion_def intro!: wp_move wp_note)
  next
    case c: (Inr y)
    then obtain complete unattested where y: "y = (complete, unattested)" by fastforce
    have "heading L q s (if complete \<and> wiState n \<notin> {IComplete, ISuperseded} then [IComplete] else []) X n t"
      using n Inr c y by (auto simp: completing_def call_verdict_def split: if_splits bool.splits)
    then show ?thesis using Inr c y
      by (cases "complete \<and> wiState n \<notin> {IComplete, ISuperseded}") (auto simp: recordCompletion_def intro!: wp_move wp_note)
  qed
qed

lemma lands_succeeded:
  assumes o: "observable L r q s"
  shows "lands L q s (refreshSucceeded L u r m ix v src reads now) (observed_end r q s (call_verdict (call_completion m ix v reads)))"
    (is "lands L q s _ (observed_end r q s ?v)")
proof (cases "wiState r = IComplete \<or> wiState r = ISuperseded")
  case True
  then have "observed_path (wiState r) ?v = completing (wiState r) ?v"
    by (auto simp: observed_path_def completing_def confirming_def call_verdict_def split: sum.split prod.split bool.split)
  with observable_heading [OF o, of ?v] completion_lands True show ?thesis by (auto simp: refreshSucceeded_def)
next
  case False
  then have "observed_path (wiState r) ?v = confirming (wiState r) @ completing IConfirmed ?v"
    by (auto simp: observed_path_def completing_def call_verdict_def split: sum.split prod.split bool.split)
  with observable_heading [OF o, of ?v] have "heading L q s (confirming (wiState r) @ completing IConfirmed ?v) (observed_end r q s ?v) r s"
    by simp
  with False show ?thesis unfolding refreshSucceeded_def wp_ebind
    by (auto intro!: wp_toConfirmed completion_lands)
qed

lemma lands_verified:
  assumes o: "observable L r q s"
  shows "lands L q s (refreshVerified L u r m ix v succeeded src reads now)
     (observed_end r q s (block_verdict m ix v succeeded reads))"
proof -
  let ?v = "block_verdict m ix v succeeded reads"
  let ?st = "observed_end r q s ?v"
  consider (height) "wxCanonical ix" "wxHeight ix = None" | (off) "\<not> wxCanonical ix"
    | (unsafe) h where "wxCanonical ix" "wxHeight ix = Some h" "\<not> isSafeInteger h"
    | (overtaken) h where "wxCanonical ix" "wxHeight ix = Some h" "isSafeInteger h" "\<not> succeeded" "overtaken m reads"
    | (aborted) h where "wxCanonical ix" "wxHeight ix = Some h" "isSafeInteger h" "\<not> succeeded" "\<not> overtaken m reads"
    | (success) h where "wxCanonical ix" "wxHeight ix = Some h" "isSafeInteger h" "succeeded"
    by (cases "wxHeight ix") auto
  then show ?thesis
  proof cases
    case height
    then have "?v = NoVerdict" by (simp add: block_verdict_def)
    with height lands_unavailable [OF o] show ?thesis by (simp add: refreshVerified_def)
  next
    case off
    then have "?v = OffChain" by (simp add: block_verdict_def)
    with off lands_moved [OF o, of OffChain] show ?thesis by (simp add: refreshVerified_def Let_def)
  next
    case unsafe
    then have "?v = NoVerdict" by (simp add: block_verdict_def)
    with unsafe lands_unavailable [OF o] show ?thesis by (simp add: refreshVerified_def)
  next
    case overtaken
    then have "?v = Overtaken" by (simp add: block_verdict_def)
    with overtaken lands_moved [OF o, of Overtaken] show ?thesis by (simp add: refreshVerified_def)
  next
    case aborted
    then have "?v = Aborted" by (simp add: block_verdict_def)
    with aborted lands_failed [OF o, of Aborted] show ?thesis by (simp add: refreshVerified_def)
  next
    case success
    then have v: "?v = call_verdict (call_completion m ix v reads)"
      by (simp add: block_verdict_def call_verdict_def)
    have "lands L q s (ecatch (refreshSucceeded L u r m ix v src reads now) (\<lambda>e.
           ebind (requireStored L (wiId r)) (\<lambda>current. recordObservation L u current (w e) d))) ?st" for w d
    proof (rule wp_ecatch)
      show "wp (refreshSucceeded L u r m ix v src reads now) (\<lambda>_. follows L q s ?st) (follows L q s ?st) s"
        using lands_succeeded [OF o, of u m ix v src reads now] v by simp
      fix e t assume t: "follows L q s ?st t"
      have "keeps (\<lambda>t. intents_ok L t \<and> isRows t = isRows t0) (ebind (requireStored L (wiId r)) (\<lambda>current. recordObservation L u current (w e) d))" for t0
        unfolding requireStored_def getIntent_def intentRow_def
        by (auto intro!: keeps_rules keeps_record split: option.split)
      then show "wp (ebind (requireStored L (wiId r)) (\<lambda>current. recordObservation L u current (w e) d))
          (\<lambda>_. follows L q s ?st) (follows L q s ?st) t"
        by (rule wp_keeps [of _ _ t]) (use t in \<open>auto simp: follows_def other_rows_def\<close>)
    qed
    with success show ?thesis by (simp add: refreshVerified_def)
  qed
qed

lemma wp_verify:
  assumes o: "observable L r q s" and net: "createWalletTransactionNetworkBinding (wmNetwork m) (wmChainId m) = Inr net"
    and t: "wiTxid r = Some t"
    and "\<And>v. verifyWalletTransactionHex K L t (wmSender m) (wmTransaction m) h (Some net) = Inr v \<Longrightarrow> Q (Some v) s"
    and "\<And>reason t'. verifyWalletTransactionHex K L t (wmSender m) (wmTransaction m) h (Some net) = Inl reason \<Longrightarrow>
      follows L q s (observed_end r q s NotRequested) t' \<Longrightarrow> Q None t' \<and> E t'"
  shows "wp (verifyObserved K L u r m h now) Q E s"
proof (cases "verifyWalletTransactionHex K L t (wmSender m) (wmTransaction m) h (Some net)")
  case (Inl reason)
  have "wp (ebind (if wiState r = ISuperseded then eret r else toFailed L r now)
     (\<lambda>n. recordObservation L u n w JNull)) (\<lambda>_. Q None) E s" for w
    by (rule wp_mono [OF lands_failed [OF o, of NotRequested]]) (use assms(5) [OF Inl] in auto)
  then show ?thesis using net t Inl by (simp add: verifyObserved_def)
qed (use assms in \<open>simp add: verifyObserved_def wp_def eret_def\<close>)

lemma lands_indexed:
  assumes o: "observable L r q s" and net: "createWalletTransactionNetworkBinding (wmNetwork m) (wmChainId m) = Inr net"
    and t: "wiTxid r = Some t"
  shows "lands L q s (refreshIndexed K L u r m ix h reads now) (observed_end r q s
    (case verifyWalletTransactionHex K L t (wmSender m) (wmTransaction m) h (Some net) of
       Inl _ \<Rightarrow> NotRequested
     | Inr v \<Rightarrow> block_verdict m ix v (starts_with ''(ok'' (dropWhile is_space (wxRepr ix))) reads))"
  unfolding refreshIndexed_def wp_ebind
  by (rule wp_verify [OF o net t]) (use lands_verified [OF o] in auto)

lemma lands_pending:
  assumes o: "observable L r q s" and net: "createWalletTransactionNetworkBinding (wmNetwork m) (wmChainId m) = Inr net"
    and t: "wiTxid r = Some t"
  shows "lands L q s (refreshPending K L u r m b h now) (observed_end r q s
    (case verifyWalletTransactionHex K L t (wmSender m) (wmTransaction m) h (Some net) of
       Inl _ \<Rightarrow> NotRequested | Inr v \<Rightarrow> PendingSeen))"
proof -
  have "lands L q s (ebind (if wiState r = ISuperseded then eret r
      else ebind (if wiState r \<in> {IConfirmed, IComplete, IFailed} then serviceTransition L r IReobserve now else eret r)
             (\<lambda>n. serviceTransition L n IMempool now)) (\<lambda>n. recordObservation L u n w d))
      (observed_end r q s PendingSeen)" for w d
    using observable_heading [OF o, of PendingSeen]
    by (cases "wiState r = ISuperseded"; cases "wiState r \<in> {IConfirmed, IComplete, IFailed}")
      (auto simp: observed_path_def intro!: wp_move wp_note)
  then show ?thesis
    unfolding refreshPending_def wp_ebind by (intro wp_verify [OF o net t]) auto
qed


subsection \<open>With the configured API\<close>

lemma observation_outcomes:
  "outcomeSchema ''mempool''" "outcomeSchema ''noncanonical''" "outcomeSchema ''mismatch''"
  "outcomeSchema ''canonical-success''" "outcomeSchema ''complete''" "outcomeSchema ''abort''"
  by (simp_all add: outcomeSchema_def is_outcome_char_def is_digit_def less_eq_char_def)

lemma newest_in: "newest_observation p ws = Some w \<Longrightarrow> w \<in> set ws"
proof -
  let ?f = "\<lambda>newest w. case newest of None \<Rightarrow> Some w
       | Some v \<Rightarrow> if woObserved v \<le> woObserved w then Some w else newest"
  have "foldl ?f b ws = Some w \<Longrightarrow> b = Some w \<or> w \<in> set ws" for b and ws :: "observation list"
  proof (induction ws arbitrary: b)
    case (Cons a ws)
    then have "?f b a = Some w \<or> w \<in> set ws" by simp
    then show ?case by (cases b) (auto split: if_splits)
  qed simp
  from this [of None "filter p ws"] show "newest_observation p ws = Some w \<Longrightarrow> w \<in> set ws"
    by (simp add: newest_observation_def)
qed

lemma latest_reads:
  assumes "intents_ok L s" "isUuid L i" "list_all outcomeSchema xs" "list_all outcomeSchema ys"
  shows "\<exists>w. latestObservation L xs ys i s = (Inr w, s)"
  using assms newest_in
  by (fastforce simp: latestObservation_def eread_def intents_ok_def split: option.splits)

lemma evidence_reads:
  assumes o: "observable L r q s" and net: "createWalletTransactionNetworkBinding (wmNetwork m) (wmChainId m) = Inr net"
  obtains persisted allow where "apiEvidenceAllowed L r m s = (Inr (persisted, allow), s)"
    "persistedMempoolVerification L r m s = (Inr persisted, s)"
proof -
  have ok: "intents_ok L s" "isUuid L (wiId r)"
    using o stored_reads(2) [of L s q "wiId r"] by (auto simp: observable_def)
  obtain w where w: "latestObservation L [] [''mempool''] (wiId r) s = (Inr w, s)"
    using latest_reads [OF ok] observation_outcomes(1) by fastforce
  obtain c where c: "latestObservation L []
      [''noncanonical'', ''mismatch'', ''canonical-success'', ''complete'', ''abort''] (wiId r) s = (Inr c, s)"
    using latest_reads [OF ok] observation_outcomes(2-) by fastforce
  have "\<exists>p. persistedMempoolVerification L r m s = (Inr p, s)"
    using net by (auto simp: persistedMempoolVerification_def ebind_def w eret_def split: option.split prod.split)
  then obtain p where "persistedMempoolVerification L r m s = (Inr p, s)" by blast
  then show ?thesis using c that by (simp add: apiEvidenceAllowed_def ebind_def eret_def Let_def)
qed

lemma wp_api:
  assumes o: "observable L r q s" and net: "createWalletTransactionNetworkBinding (wmNetwork m) (wmChainId m) = Inr net"
    and t: "wiTxid r = Some t" and allowed: "apiEvidenceAllowed L r m s = (Inr (persisted, allow), s)"
    and answered: "case receipt allow of LookupNotFound \<Rightarrow> Q FallbackNone s | LookupUnavailable reason x \<Rightarrow> \<forall>d. Q (FallbackUnavailable d) s
       | LookupConflict _ _ _ \<Rightarrow> (\<forall>u. follows L q s (observed_end r q s OffChain) u \<longrightarrow> Q FallbackDone u \<and> E u)
       | LookupObserved x \<Rightarrow> (\<forall>u. follows L q s (observed_end r q s
           (receipt_verdict K L net t m reads persisted x)) u \<longrightarrow> Q FallbackDone u \<and> E u)"
  shows "wp (refreshIndexedFromApi K L x r m receipt reads now) Q E s"
proof -
  have first: "wp (ebind (apiEvidenceAllowed L r m) f) Q E s = wp (f (persisted, allow)) Q E s" for f
    using allowed by (simp add: wp_def ebind_def)
  have chain: "wp (ebind m' (\<lambda>_. eret FallbackDone)) Q E s"
    if "lands L q s m' st" "\<And>u. follows L q s st u \<Longrightarrow> Q FallbackDone u \<and> E u" for m' :: "unit intent_op" and st
    unfolding wp_ebind by (rule wp_mono [OF that(1)]) (use that(2) in auto)
  show ?thesis
  proof (cases "receipt allow")
    case (LookupConflict reason height hash)
    have "lands L q s (ebind (if wiState r = ISuperseded then eret r else serviceTransition L r IReobserve now)
        (\<lambda>n. recordObservation L x n w JNull)) (observed_end r q s OffChain)" for w
      by (rule lands_moved [OF o]) simp
    from chain [OF this] answered have "wp (ebind (ebind (if wiState r = ISuperseded then eret r else serviceTransition L r IReobserve now)
        (\<lambda>n. recordObservation L x n w JNull)) (\<lambda>_. eret FallbackDone)) Q E s" for w
      by (simp only: LookupConflict api_lookup.case)
    then show ?thesis
      unfolding refreshIndexedFromApi_def first by (simp only: LookupConflict api_lookup.case prod.case wp_ebind)
  next
    case (LookupObserved y)
    let ?ix = "\<lparr>wxCanonical = True, wxHeight = Some (int (arBlockHeight y)), wxIndexHash = arIndexBlockHash y, wxRepr = arResultRepr y\<rparr>"
    have verified: "wp (ebind (refreshVerified L x r m ?ix v (arSuccess y) (arSource y) reads now) (\<lambda>_. eret FallbackDone)) Q E s"
      if "\<And>u. follows L q s (observed_end r q s (block_verdict m ?ix v (arSuccess y) reads)) u \<Longrightarrow> Q FallbackDone u \<and> E u" for v
      by (rule chain [OF lands_verified [OF o] that])
    show ?thesis
    proof (cases "arTransactionHex y")
      case None
      have "wp (ebind (recordUnavailable L x r now d) (\<lambda>_. eret FallbackDone)) Q E s" if "persisted = None" for d
        using answered that by (intro chain [OF lands_unavailable [OF o]]) (simp add: LookupObserved None receipt_verdict_def)
      moreover have "wp (ebind (refreshVerified L x r m ?ix v (arSuccess y) (arSource y) reads now) (\<lambda>_. eret FallbackDone)) Q E s"
        if "persisted = Some v" for v
        using answered that by (intro verified) (simp add: LookupObserved None receipt_verdict_def)
      ultimately show ?thesis
        unfolding refreshIndexedFromApi_def first by (cases persisted) (simp_all add: LookupObserved None)
    next
      case (Some h)
      have "wp (verifyObserved K L x r m h now) (\<lambda>d. wp (case d of
             None \<Rightarrow> ebind (eret ()) (\<lambda>_. eret FallbackDone)
           | Some v \<Rightarrow> ebind (refreshVerified L x r m ?ix v (arSuccess y) (arSource y) reads now) (\<lambda>_. eret FallbackDone)) Q E) E s"
        by (rule wp_verify [OF o net t]) (use answered verified in \<open>auto simp: LookupObserved Some receipt_verdict_def\<close>)
      then show ?thesis unfolding refreshIndexedFromApi_def first by (simp add: LookupObserved Some)
    qed
  next
    case LookupNotFound
    then show ?thesis using answered
      unfolding refreshIndexedFromApi_def first by (simp add: wp_def eret_def)
  next
    case (LookupUnavailable reason x)
    then show ?thesis using answered
      unfolding refreshIndexedFromApi_def first by (simp add: wp_def eret_def)
  qed
qed


lemma lands_missing:
  assumes o: "observable L r q s"
  shows "lands L q s (if wiState r = IComplete \<or> wiState r = IFailed then recordUnavailable L u r now d
     else ebind (if wiState r \<in> {ISubmitted, IMempool, IConfirmed} then serviceTransition L r IReobserve now else eret r)
       (\<lambda>q. recordObservation L u q v JNull)) (observed_end r q s Missing)"
proof (cases "wiState r \<in> {ISubmitted, IMempool, IConfirmed}")
  case True
  then have "heading L q s [IReobserve] (observed_end r q s Missing) r s"
    using observable_heading [OF o, of Missing] by (auto simp: observed_path_def)
  with True show ?thesis by (auto intro!: wp_move wp_note)
next
  case False
  then have "heading L q s [] (observed_end r q s Missing) r s"
    using observable_heading [OF o, of Missing] by (simp add: observed_path_def split: if_splits)
  with False show ?thesis by (auto simp: recordUnavailable_def intro!: wp_note)
qed

lemma lands_observe_pending:
  assumes o: "observable L r q s" and net: "createWalletTransactionNetworkBinding (wmNetwork m) (wmChainId m) = Inr net"
    and t: "wiTxid r = Some t"
  shows "lands L q s (observePending K L u r m reads fallback now) (observed_end r q s
    (unconfirmed_verdict K L net t m reads (fallback = FallbackNone)))"
proof (cases "orPending reads")
  case (LiveObserved p)
  then show ?thesis using lands_pending [OF o net t] by (cases p) (simp add: observePending_def unconfirmed_verdict_def)
next
  case LiveNotFound
  show ?thesis
  proof (cases "transactionIndexCannotAnswer (orIndexed reads) \<and> fallback = FallbackNone")
    case True
    then have "orIndexed reads \<noteq> LiveThrew" by (auto simp: transactionIndexCannotAnswer_def)
    with True LiveNotFound lands_missing [OF o, of u now] show ?thesis by (simp add: observePending_def unconfirmed_verdict_def)
  next
    case False
    then have "fallback \<noteq> FallbackNone \<or> orIndexed reads = LiveThrew \<or> \<not> transactionIndexCannotAnswer (orIndexed reads)"
      by blast
    with False LiveNotFound lands_unavailable [OF o, of u now] show ?thesis by (auto simp: observePending_def unconfirmed_verdict_def)
  qed
qed (use lands_unavailable [OF o, of u now] in \<open>simp_all add: observePending_def unconfirmed_verdict_def\<close>)

lemma observe_follows:
  assumes o: "observable L r q s"
    and net: "createWalletTransactionNetworkBinding (wmNetwork m) (wmChainId m) = Inr net"
    and t: "wiTxid r = Some t"
  shows "\<exists>persisted allow. apiEvidenceAllowed L r m s = (Inr (persisted, allow), s) \<and>
    follows L q s (observed_end r q s (observed_verdict K L net t m reads persisted allow))
      (snd (observeSubmittedIntent K L u r m reads now s))"
proof -
  obtain persisted allow where allowed: "apiEvidenceAllowed L r m s = (Inr (persisted, allow), s)"
    using evidence_reads [OF o net] .
  let ?st = "observed_end r q s (observed_verdict K L net t m reads persisted allow)"
  have "lands L q s (observeSubmittedIntent K L u r m reads now) ?st"
  proof (cases "orRouting reads")
    case (Inl e)
    then show ?thesis using lands_unavailable [OF o] by (simp add: observeSubmittedIntent_def observed_verdict_def)
  next
    case routed: (Inr _)
    show ?thesis
    proof (cases "\<exists>ix h. orIndexed reads = LiveObserved (ix, h)")
      case True
      then show ?thesis using lands_indexed [OF o net t] routed
        by (auto simp: observeSubmittedIntent_def observed_verdict_def)
    next
      case False
      have "lands L q s (ebind (refreshIndexedFromApi K L u r m (orReceipt reads) (orAction reads) now) (\<lambda>fallback.
               if fallback = FallbackDone then eret () else observePending K L u r m reads fallback now)) ?st"
      proof (cases "orReceipt reads allow")
        case LookupNotFound
        then have "?st = observed_end r q s (unconfirmed_verdict K L net t m reads (FallbackNone = FallbackNone))"
          using False routed by (auto simp: observed_verdict_def split: live_read.splits)
        with lands_observe_pending [OF o net t, of K u reads FallbackNone now] LookupNotFound show ?thesis unfolding wp_ebind by (intro wp_api [OF o net t allowed]) simp
      next
        case (LookupUnavailable reason x)
        then have "?st = observed_end r q s (unconfirmed_verdict K L net t m reads (FallbackUnavailable d = FallbackNone))" for d
          using False routed by (auto simp: observed_verdict_def split: live_read.splits)
        with lands_observe_pending [OF o net t, of K u reads "FallbackUnavailable d" now for d] LookupUnavailable show ?thesis unfolding wp_ebind by (intro wp_api [OF o net t allowed]) simp
      next
        case (LookupConflict reason height hash)
        then have "?st = observed_end r q s OffChain"
          using False routed by (auto simp: observed_verdict_def split: live_read.splits)
        with LookupConflict show ?thesis unfolding wp_ebind by (intro wp_api [OF o net t allowed]) (simp add: wp_def eret_def)
      next
        case (LookupObserved x)
        then have "?st = observed_end r q s (receipt_verdict K L net t m (orAction reads) persisted x)"
          using False routed by (auto simp: observed_verdict_def split: live_read.splits)
        with LookupObserved show ?thesis unfolding wp_ebind by (intro wp_api [OF o net t allowed]) (simp add: wp_def eret_def)
      qed
      then show ?thesis using False routed by (auto simp: observeSubmittedIntent_def split: live_read.splits)
    qed
  qed
  then have "follows L q s ?st (snd (observeSubmittedIntent K L u r m reads now s))" by (rule wp_final)
  with allowed show ?thesis by blast
qed

text \<open>A canonical block in which the call did what the action asks for.\<close>

definition completes :: "wallet_manifest \<Rightarrow> wallet_indexed \<Rightarrow> verified_transaction \<Rightarrow> action_reads \<Rightarrow> bool" where
  "completes m ix v reads \<longleftrightarrow> wxCanonical ix \<and> (\<exists>d. call_completion m ix v reads = Inr (Inr (True, d)))"

lemma follows_state:
  assumes "follows L q s st t" "a \<in> set (isRows t)" "wiId a = wiId q"
  shows "wiState a = st"
proof -
  from assms(1) obtain p where "intents_ok L t" "p \<in> set (isRows t)" "wiId p = wiId q" "wiState p = st"
    by (auto simp: follows_def)
  with assms(2,3) same_row [of L t a p] show ?thesis by auto
qed

lemma block_completed:
  "block_verdict m ix v succeeded reads = ExecutedCall True \<Longrightarrow> succeeded \<and> completes m ix v reads"
  by (auto simp: block_verdict_def completes_def split: if_splits option.splits sum.splits prod.splits)

lemma persisted_evidence:
  assumes "observable L r q s" and "createWalletTransactionNetworkBinding (wmNetwork m) (wmChainId m) = Inr net"
    and "apiEvidenceAllowed L r m s = (Inr (persisted, allow), s)"
  shows "persistedMempoolVerification L r m s = (Inr persisted, s)"
  using evidence_reads [OF assms(1,2)] assms(3) by auto

text \<open>The two proofs of a completion: the node's own block, and a receipt of the configured API.\<close>

definition node_proof ::
  "('c, 'v) wire_codec \<Rightarrow> tx_lib \<Rightarrow> wallet_binding \<Rightarrow> txid \<Rightarrow> wallet_manifest \<Rightarrow> observe_reads \<Rightarrow> bool" where
  "node_proof K L net t m reads \<longleftrightarrow> (\<exists>ix h v. orIndexed reads = LiveObserved (ix, h) \<and>
     verifyWalletTransactionHex K L t (wmSender m) (wmTransaction m) h (Some net) = Inr v \<and>
     starts_with ''(ok'' (dropWhile is_space (wxRepr ix)) \<and> completes m ix v (orAction reads))"

definition api_proof ::
  "('c, 'v) wire_codec \<Rightarrow> tx_lib \<Rightarrow> wallet_binding \<Rightarrow> txid \<Rightarrow> wallet_manifest \<Rightarrow> action_reads \<Rightarrow>
    verified_transaction option \<Rightarrow> api_receipt \<Rightarrow> bool" where
  "api_proof K L net t m reads persisted x \<longleftrightarrow> (\<exists>v.
     (case arTransactionHex x of
        None \<Rightarrow> persisted = Some v
      | Some h \<Rightarrow> verifyWalletTransactionHex K L t (wmSender m) (wmTransaction m) h (Some net) = Inr v) \<and>
     arSuccess x \<and> completes m \<lparr>wxCanonical = True, wxHeight = Some (int (arBlockHeight x)),
       wxIndexHash = arIndexBlockHash x, wxRepr = arResultRepr x\<rparr> v reads)"

lemma receipt_completed:
  "receipt_verdict K L net t m reads persisted x = ExecutedCall True \<Longrightarrow> api_proof K L net t m reads persisted x"
  by (auto simp: receipt_verdict_def api_proof_def dest!: block_completed split: option.splits sum.splits)

lemma indexed_completed:
  assumes "(case verifyWalletTransactionHex K L t (wmSender m) (wmTransaction m) h (Some net) of
      Inl _ \<Rightarrow> NotRequested
    | Inr v \<Rightarrow> block_verdict m ix v (starts_with ''(ok'' (dropWhile is_space (wxRepr ix))) (orAction reads)) = ExecutedCall True"
    and "orIndexed reads = LiveObserved (ix, h)"
  shows "node_proof K L net t m reads"
  using assms by (auto simp: node_proof_def dest!: block_completed split: sum.splits)

lemma unconfirmed_never_completes: "unconfirmed_verdict K L net t m reads unknown \<noteq> ExecutedCall complete"
  by (simp add: unconfirmed_verdict_def split: live_read.split sum.split prod.split)

lemma observed_verdict_completed:
  assumes "observed_verdict K L net t m reads persisted allow = ExecutedCall True"
  shows "node_proof K L net t m reads \<or>
    (\<exists>x. orReceipt reads allow = LookupObserved x \<and> api_proof K L net t m (orAction reads) persisted x)"
proof (cases "orRouting reads")
  case routed: (Inr _)
  show ?thesis
  proof (cases "\<exists>ix h. orIndexed reads = LiveObserved (ix, h)")
    case True
    then obtain ix h where ix: "orIndexed reads = LiveObserved (ix, h)" by blast
    with assms routed show ?thesis by (intro disjI1 indexed_completed [OF _ ix]) (simp add: observed_verdict_def)
  next
    case False
    with assms routed have "(case orReceipt reads allow of
                  LookupNotFound \<Rightarrow> unconfirmed_verdict K L net t m reads True
                | LookupUnavailable _ _ \<Rightarrow> unconfirmed_verdict K L net t m reads False
                | LookupConflict _ _ _ \<Rightarrow> OffChain
                | LookupObserved x \<Rightarrow> receipt_verdict K L net t m (orAction reads) persisted x) = ExecutedCall True"
      by (auto simp: observed_verdict_def split: live_read.splits)
    then show ?thesis
      by (cases "orReceipt reads allow") (simp_all add: unconfirmed_never_completes receipt_completed)
  qed
qed (use assms in \<open>simp add: observed_verdict_def\<close>)

text \<open>An intent with a transaction, read at some point, is observed at a later one.\<close>

lemma observable_later:
  assumes r: "r \<in> set (isRows (intent_trace L es no_intents))" and s: "s = intent_trace L (es @ fs) no_intents"
    and t: "wiTxid r = Some t"
  obtains q where "observable L r q s" "intent_path r q"
proof -
  let ?s = "intent_trace L es no_intents"
  have "s = intent_trace L fs ?s" using s by (simp add: intent_trace_def)
  with trace_settles [OF trace_ok, of L es fs] have "grows ?s s" by (simp add: preserves_def)
  then obtain old new where old: "isRows s = old @ new" "list_all2 intent_path (isRows ?s) old"
    by (auto simp: grows_def)
  from r obtain k where k: "k < length (isRows ?s)" "r = isRows ?s ! k" by (auto simp: in_set_conv_nth)
  with old(2) have "old ! k \<in> set old" "intent_path r (old ! k)"
    by (auto simp: list_all2_conv_all_nth)
  then obtain q where q: "q \<in> set (isRows s)" "intent_path r q" using old(1) by auto
  have "intent_checks r" using r trace_ok [of L es] by (simp add: intents_ok_def)
  with checks_state t have "wiState r \<in> insert ISuperseded submittedStates"
    by (cases "wiState r") (auto simp: state_fits_def submittedStates_def)
  moreover have "wiId r = wiId q" "wiTxid q \<noteq> None"
    using intent_path_id [OF q(2)] intent_path_txid [OF q(2) t] by simp_all
  moreover have "intents_ok L s" using trace_ok s by simp
  ultimately show ?thesis using q that by (simp add: observable_def)
qed

text \<open>
  C39: Observing a submitted intent does exactly what the evidence says. The intent \<open>r\<close> was read after any
  sequence \<open>es\<close> of operations, further ones \<open>fs\<close> may have run while the sources were asked, and \<open>q\<close> is its row by
  then. Whichever of the handlers' recordings and transitions fail on the way, no other intent is
  touched and \<open>q\<close> either keeps its state or ends in the one that \<open>observed_verdict\<close> gives for what was read: a
  transaction that is not the request fails it, a canonical success completes it when its action's own
  proof is there, an execution off the canonical chain reopens it, an unknown transaction is only
  given up on when node and API both answer that they do not know it, and an incomplete answer changes
  nothing. Which of the two is exact as well: an intent unchanged since it was read always ends in the
  verdict's state, except that a failed one whose scope another active intent has taken cannot be
  reopened and stays failed unless another caller had overtaken it; for one that has changed, the
  handlers' transitions (\<open>observed_path\<close>) are tried one by one on the row as it is (\<open>settled\<close>). The handler
  itself runs as one stretch, its further reads being \<open>reads\<close>: other operations come before it, in \<open>fs\<close>.
\<close>
theorem observation_computes_verdict:
  assumes "r \<in> set (isRows (intent_trace L es no_intents))" and "s = intent_trace L (es @ fs) no_intents"
    and net: "createWalletTransactionNetworkBinding (wmNetwork m) (wmChainId m) = Inr net"
    and t: "wiTxid r = Some t"
  shows "\<exists>q persisted allow v st.
    q \<in> set (isRows s) \<and> intent_path r q \<and> apiEvidenceAllowed L r m s = (Inr (persisted, allow), s) \<and>
    v = observed_verdict K L net t m reads persisted allow \<and>
    st = settled (\<not> scope_free q s) (wiState r) (wiState q) (observed_path (wiState r) v) \<and>
    follows L q s st (snd (observeSubmittedIntent K L u r m reads now s)) \<and>
    st \<in> {wiState q, observed_state (wiState r) v} \<and>
    (wiState q = wiState r \<longrightarrow> st = (if wiState r = IFailed \<and> \<not> scope_free q s
       then (if v = Overtaken then ISuperseded else IFailed) else observed_state (wiState r) v))"
proof -
  obtain q where o: "observable L r q s" and path: "intent_path r q" using observable_later [OF assms(1,2) t] .
  from observe_follows [OF o net t] obtain persisted allow where
    allowed: "apiEvidenceAllowed L r m s = (Inr (persisted, allow), s)" and
    after: "follows L q s (observed_end r q s (observed_verdict K L net t m reads persisted allow))
      (snd (observeSubmittedIntent K L u r m reads now s))" by blast
  have "q \<in> set (isRows s)" "wiState r \<in> insert ISuperseded submittedStates" using o by (simp_all add: observable_def)
  with path allowed after settled_path [where seen = "wiState r" and b = "\<not> scope_free q s" and current = "wiState q"] show ?thesis
    unfolding observed_end_def by (intro exI [of _ q] exI [of _ persisted] exI [of _ allow] exI conjI) (rule refl | auto)+
qed

text \<open>
  C40: an intent is completed by an observation only on proof. The intent \<open>r\<close> was read after the operations
  \<open>es\<close>, and \<open>fs\<close> may have run since. If it was not complete before the observation and is complete afterwards,
  then a canonical block contained a successful execution of exactly the requested bytes, or the API
  receipt did and those bytes were verified when the transaction was pending, and the proof that the
  action itself asks for was there.
\<close>
theorem completed_only_on_proof:
  assumes "r \<in> set (isRows (intent_trace L es no_intents))" and "s = intent_trace L (es @ fs) no_intents"
    and net: "createWalletTransactionNetworkBinding (wmNetwork m) (wmChainId m) = Inr net"
    and t: "wiTxid r = Some t" and before: "\<forall>q \<in> set (isRows s). wiId q = wiId r \<longrightarrow> wiState q \<noteq> IComplete"
    and a: "a \<in> set (isRows (snd (observeSubmittedIntent K L u r m reads now s)))" "wiId a = wiId r" "wiState a = IComplete"
  shows "node_proof K L net t m reads \<or>
    (\<exists>persisted allow x. persistedMempoolVerification L r m s = (Inr persisted, s) \<and>
       orReceipt reads allow = LookupObserved x \<and> api_proof K L net t m (orAction reads) persisted x)"
proof -
  obtain q where o: "observable L r q s" using observable_later [OF assms(1,2) t] .
  then have q: "wiId r = wiId q" "wiState q \<noteq> IComplete" using before by (auto simp: observable_def)
  from observe_follows [OF o net t] obtain persisted allow where
    allowed: "apiEvidenceAllowed L r m s = (Inr (persisted, allow), s)" and
    after: "follows L q s (observed_end r q s (observed_verdict K L net t m reads persisted allow))
      (snd (observeSubmittedIntent K L u r m reads now s))" by blast
  from follows_state [OF after a(1)] a(2,3) q(1)
  have "observed_end r q s (observed_verdict K L net t m reads persisted allow) = IComplete" by simp
  then have "IComplete \<in> set (observed_path (wiState r) (observed_verdict K L net t m reads persisted allow))"
    using q(2) settled_end [of "\<not> scope_free q s" "wiState r" "wiState q"
      "observed_path (wiState r) (observed_verdict K L net t m reads persisted allow)"]
    by (auto simp: observed_end_def)
  then have "observed_verdict K L net t m reads persisted allow = ExecutedCall True" by (rule path_completes)
  from observed_verdict_completed [OF this] persisted_evidence [OF o net allowed] show ?thesis by blast
qed

subsection \<open>A submitted intent executed in a block\<close>

definition browser_manifest :: wallet_manifest where
  "browser_manifest = \<lparr>wmAction = UpdateFees, wmNetwork = NetMainnet, wmChainId = 1, wmSender = ''SPW'',
     wmTransaction = sample_wallet_request, wmTransactionSha = browser_sha, wmBinding = None, wmBindingSha = browser_sha, wmJobId = None\<rparr>"

definition browser_block :: wallet_indexed where
  "browser_block = \<lparr>wxCanonical = True, wxHeight = Some 7, wxIndexHash = browser_txid, wxRepr = ''(ok true)''\<rparr>"

definition browser_reads :: observe_reads where
  "browser_reads = \<lparr>orFacts = Inl WiPersisted, orRouting = Inr (), orIndexed = LiveObserved (browser_block, ''00''),
     orReceipt = (\<lambda>_. LookupNotFound), orPending = LiveNotFound,
     orAction = \<lparr>arComputeHeight = None, arJob = Inl WiPersisted, arManager = Inl WiPersisted, arMessage = (\<lambda>_. [])\<rparr>\<rparr>"

definition browser_submission :: "intent_event list" where
  "browser_submission = [CreateEvent ''u'' (browser_request ''a'' 0), SubmitEvent ''a'' browser_txid 1]"

definition browser_row :: intent where
  "browser_row = bound ISubmitted browser_txid 1 (fresh_intent ''a'' (browser_request ''a'' 0))"

lemma browser_submitted_rows: "isRows (intent_trace intent_lib browser_submission no_intents) = [browser_row]"
  unfolding browser_submission_def intent_trace_def foldl.simps browser_first snd_conv
  by (simp add: intent_code browser_request_def browser_row_def bound_def moved_def Let_def)

lemma browser_read: "browser_row \<in> set (isRows (intent_trace intent_lib browser_submission no_intents))"
  by (simp add: browser_submitted_rows)

text \<open>The intent given up while its transaction was looked up.\<close>

definition browser_withdrawal :: "intent_event list" where
  "browser_withdrawal = [TransitionEvent ''a'' [ISubmitted] ISuperseded 2]"

lemma browser_withdrawn_rows:
  "isRows (intent_trace intent_lib (browser_submission @ browser_withdrawal) no_intents) = [moved ISuperseded 2 browser_row]"
  unfolding browser_submission_def browser_withdrawal_def append.simps intent_trace_def foldl.simps browser_first snd_conv
  by (simp add: intent_code browser_request_def browser_row_def bound_def moved_def Let_def)

lemma browser_binding:
  "createWalletTransactionNetworkBinding (wmNetwork browser_manifest) (wmChainId browser_manifest) = Inr mainnetWalletNetwork"
  by (simp add: browser_manifest_def createWalletTransactionNetworkBinding_def mainnetWalletNetwork_def mainnetChainId_def)

lemma browser_verdict: "observed_verdict sample_wire_codec intent_lib mainnetWalletNetwork browser_txid browser_manifest browser_reads p a = ExecutedCall True"
proof -
  obtain v where "verifyWalletTransactionHex sample_wire_codec intent_lib browser_txid ''SPW'' sample_wallet_request ''00''
     (Some mainnetWalletNetwork) = Inr v"
    using sample_verified unfolding browser_txid_def by blast
  moreover have "starts_with ''(ok'' (dropWhile is_space (wxRepr browser_block))" by code_simp
  ultimately show ?thesis
    by (simp add: observed_verdict_def browser_reads_def browser_manifest_def block_verdict_def browser_block_def isSafeInteger_def
        call_completion_def)
qed

lemma browser_row_states: "wiState browser_row = ISubmitted" "wiTxid browser_row = Some browser_txid" "wiId browser_row = ''a''"
  by (simp_all add: browser_row_def fresh_intent_def browser_request_def)

abbreviation browser_observed :: "intent_event list \<Rightarrow> intent_store" where
  "browser_observed fs \<equiv> snd (observeSubmittedIntent sample_wire_codec intent_lib ''u'' browser_row browser_manifest browser_reads 3
     (intent_trace intent_lib (browser_submission @ fs) no_intents))"

theorem observation_computes_verdict_witness:
  "(\<exists>a \<in> set (isRows (browser_observed [])). wiId a = ''a'' \<and> wiState a = IComplete) \<and>
   (\<exists>a \<in> set (isRows (browser_observed browser_withdrawal)). wiId a = ''a'' \<and> wiState a = ISuperseded)"
proof -
  note observed = observation_computes_verdict [OF browser_read refl browser_binding browser_row_states(2),
      of _ sample_wire_codec browser_reads "''u''" 3]
  have "\<exists>a \<in> set (isRows (browser_observed [])). wiId a = ''a'' \<and> wiState a = IComplete"
    using observed [of "[]"] browser_submitted_rows
    by (auto simp: browser_verdict browser_row_states observed_state_def follows_def)
  moreover have "\<exists>a \<in> set (isRows (browser_observed browser_withdrawal)). wiId a = ''a'' \<and> wiState a = ISuperseded"
    using observed [of browser_withdrawal] browser_withdrawn_rows
    by (auto simp: browser_verdict browser_row_states follows_def observed_path_def confirming_def settled.simps)
  ultimately show ?thesis ..
qed

theorem completed_only_on_proof_witness:
  "(\<exists>a \<in> set (isRows (browser_observed [])). wiState a = IComplete) \<and>
   node_proof sample_wire_codec intent_lib mainnetWalletNetwork browser_txid browser_manifest browser_reads"
proof -
  let ?s = "intent_trace intent_lib (browser_submission @ []) no_intents"
  have s: "isRows ?s = [browser_row]" using browser_submitted_rows by simp
  obtain q where o: "observable intent_lib browser_row q ?s"
    using observable_later [OF browser_read refl browser_row_states(2), of "[]"] .
  then have q: "q = browser_row" using s by (simp add: observable_def)
  from observe_follows [OF o browser_binding browser_row_states(2), of sample_wire_codec browser_reads "''u''" 3]
  obtain a where a: "a \<in> set (isRows (browser_observed []))" "wiId a = wiId browser_row" "wiState a = IComplete"
    by (auto simp: q browser_verdict browser_row_states follows_def observed_end_def observed_path_def confirming_def
        settled.simps transitions_def)
  have "\<forall>q \<in> set (isRows ?s). wiId q = wiId browser_row \<longrightarrow> wiState q \<noteq> IComplete"
    by (simp add: browser_submitted_rows browser_row_states(1))
  from completed_only_on_proof [OF browser_read refl browser_binding browser_row_states(2) this a] a show ?thesis
    by (auto simp: browser_reads_def)
qed

end
