(* ===== verification/Gas_Signer.thy ===== *)
theory Gas_Signer
  imports Nakamoto_Block Operation_Plan Sweep_Plan
begin

text \<open>
  The gas payer's signer (apps/sidekick/src/transaction-engine/gas-payer-signer.ts): reading the one raw
  private key of its secret file, and signing sealed plans with it.

  A file is a record of what the system calls on it answer. The elliptic-curve functions of the
  transaction library are the fields of \<open>key_lib\<close>: \<open>klPublicKey\<close> is the compressed public key,
  \<open>klSign\<close> reads an unsigned transaction, signs its origin and answers the signed bytes and their
  id; \<open>None\<close> is a throw. Signing awaits the revalidation of the plan, so it is two functions: what
  \<open>destroy\<close> does to the key in between is seen by the second.
\<close>

unbundle bit_operations_syntax

datatype signer_code =
    InvalidConfiguration | SecretUnavailable | SecretSymlink | SecretNotRegularFile
  | SecretInsecurePermissions | SecretOwnerMismatch | SecretChangedDuringRead | SecretInvalidFormat
  | IdentityMismatch | SignerDestroyed | SealedPlanInvalid | PlanSignerMismatch | SigningFailed

text \<open>\<open>SystemError\<close> is a rejected system call that the code passes on.\<close>

datatype signer_error = SignerError signer_code | SystemError

subsection \<open>The secret\<close>

definition hexNibble :: "byte \<Rightarrow> int" where
  "hexNibble v = (if 0x30 \<le> uint v \<and> uint v \<le> 0x39 then uint v - 0x30
     else if 0x41 \<le> uint v \<and> uint v \<le> 0x46 then uint v - 0x41 + 10
     else if 0x61 \<le> uint v \<and> uint v \<le> 0x66 then uint v - 0x61 + 10
     else -1)"

text \<open>The encoded bytes without one trailing newline and, before it, one carriage return.\<close>

definition drop_trailing :: "byte \<Rightarrow> byte list \<Rightarrow> byte list" where
  "drop_trailing b bs = (if bs \<noteq> [] \<and> last bs = b then butlast bs else bs)"

fun decode_pairs :: "byte list \<Rightarrow> byte list option" where
  "decode_pairs (h # l # bs) =
     (if hexNibble h < 0 \<or> hexNibble l < 0 then None
      else map_option ((#) (word_of_int (push_bit 4 (hexNibble h) OR hexNibble l))) (decode_pairs bs))"
| "decode_pairs [] = Some []"
| "decode_pairs [b] = None"

definition decodeRawPrivateKey :: "byte list \<Rightarrow> signer_error + byte list" where
  "decodeRawPrivateKey encoded =
     (let digits = drop_trailing 0x0d (drop_trailing 0x0a encoded) in
      if length digits \<noteq> 64 \<and> length digits \<noteq> 66 then Inl (SignerError SecretInvalidFormat)
      else (case decode_pairs digits of
          None \<Rightarrow> Inl (SignerError SecretInvalidFormat)
        | Some decoded \<Rightarrow>
            if length digits = 66 \<and> decoded ! 32 \<noteq> 1 then Inl (SignerError SecretInvalidFormat)
            else Inr (take 32 decoded @ [1])))"

record file_stat =
  fsRegular :: bool
  fsSymlink :: bool
  fsDev :: int
  fsIno :: int
  fsMode :: nat
  fsUid :: int
  fsSize :: int
  fsMtime :: int
  fsCtime :: int

text \<open>What the calls of one read answer, \<open>None\<close> when they reject; \<open>sfUid\<close> is \<open>process.getuid()\<close>, where it exists.\<close>

record secret_file =
  sfLstat :: "file_stat option"
  sfOpens :: bool
  sfStat :: "file_stat option"
  sfContent :: "byte list option"
  sfStatAfter :: "file_stat option"
  sfCloses :: bool
  sfUid :: "int option"

record signer_options =
  soSecretPath :: string
  soPrincipal :: principal
  soNetwork :: network

definition secure_mode :: "nat \<Rightarrow> bool" where
  "secure_mode mode \<longleftrightarrow> (let permissions = mode AND 0x1ff in
     permissions AND 0x3f = 0 \<and> permissions AND 0x100 \<noteq> 0 \<and> permissions AND 0x49 = 0)"

definition some_or :: "'e \<Rightarrow> 'a option \<Rightarrow> 'e + 'a" where
  "some_or e x = (case x of None \<Rightarrow> Inl e | Some a \<Rightarrow> Inr a)"

definition readSecret :: "secret_file \<Rightarrow> file_stat \<Rightarrow> signer_error + byte list" where
  "readSecret f pathStat =
     bindr (some_or SystemError (sfStat f)) (\<lambda>fileStat.
     bindr (guardr (fsRegular fileStat) (SignerError SecretNotRegularFile)) (\<lambda>_.
     bindr (guardr (fsDev fileStat = fsDev pathStat \<and> fsIno fileStat = fsIno pathStat)
       (SignerError SecretChangedDuringRead)) (\<lambda>_.
     bindr (guardr (secure_mode (fsMode fileStat)) (SignerError SecretInsecurePermissions)) (\<lambda>_.
     bindr (guardr (case sfUid f of None \<Rightarrow> True | Some u \<Rightarrow> fsUid fileStat = u)
       (SignerError SecretOwnerMismatch)) (\<lambda>_.
     bindr (guardr (64 \<le> fsSize fileStat \<and> fsSize fileStat \<le> 68) (SignerError SecretInvalidFormat)) (\<lambda>_.
     bindr (some_or SystemError (sfContent f)) (\<lambda>encoded.
     bindr (some_or SystemError (sfStatAfter f)) (\<lambda>afterRead.
     bindr (guardr (fsSize afterRead = fsSize fileStat \<and> fsMtime afterRead = fsMtime fileStat \<and>
         fsCtime afterRead = fsCtime fileStat) (SignerError SecretChangedDuringRead)) (\<lambda>_.
     decodeRawPrivateKey encoded)))))))))"

text \<open>Closing the handle comes last and its rejection replaces the result.\<close>

definition loadPrivateKey :: "signer_options \<Rightarrow> secret_file \<Rightarrow> signer_error + byte list" where
  "loadPrivateKey options f =
     (if take 1 (soSecretPath options) \<noteq> ''/'' then Inl (SignerError InvalidConfiguration)
      else bindr (some_or (SignerError SecretUnavailable) (sfLstat f)) (\<lambda>pathStat.
      bindr (guardr (\<not> fsSymlink pathStat) (SignerError SecretSymlink)) (\<lambda>_.
      bindr (guardr (fsRegular pathStat) (SignerError SecretNotRegularFile)) (\<lambda>_.
      bindr (guardr (sfOpens f) (SignerError SecretUnavailable)) (\<lambda>_.
      if sfCloses f then readSecret f pathStat else Inl SystemError)))))"

subsection \<open>The signer\<close>

record key_lib =
  klPublicKey :: "byte list \<Rightarrow> string option"
  klSign :: "byte list \<Rightarrow> string \<Rightarrow> (string \<times> string) option"

record gas_signer =
  srKey :: "byte list"
  srPrincipal :: principal
  srPublicKey :: string
  srNetwork :: network
  srDestroyed :: bool

definition fromSecretFile ::
  "key_lib \<Rightarrow> tx_lib \<Rightarrow> signer_options \<Rightarrow> secret_file \<Rightarrow> signer_error + gas_signer" where
  "fromSecretFile K L options f =
     bindr (loadPrivateKey options f) (\<lambda>key.
     bindr (some_or (SignerError SecretInvalidFormat) (klPublicKey K key)) (\<lambda>compressed.
     let publicKey = to_lower compressed; p = getAddressFromPublicKey L publicKey (soNetwork options) in
     bindr (guardr (p = soPrincipal options) (SignerError IdentityMismatch)) (\<lambda>_.
     Inr \<lparr>srKey = key, srPrincipal = p, srPublicKey = publicKey, srNetwork = soNetwork options,
       srDestroyed = False\<rparr>)))"

definition destroySigner :: "gas_signer \<Rightarrow> gas_signer" where
  "destroySigner s = (if srDestroyed s then s
     else s\<lparr>srKey := replicate (length (srKey s)) 0, srDestroyed := True\<rparr>)"

text \<open>The two opaque outputs; a sweep has no operation kind.\<close>

record signed_transaction =
  sdOperation :: "operation option"
  sdPlanSha :: string
  sdUnsignedSha :: string
  sdBytes :: string
  sdTxid :: txid
  sdNonce :: int
  sdFee :: int

definition startSigning :: "gas_signer \<Rightarrow> signer_error + unit" where
  "startSigning s = guardr (\<not> srDestroyed s) (SignerError SignerDestroyed)"

definition signRewardOperation ::
  "key_lib \<Rightarrow> tx_lib \<Rightarrow> gas_signer \<Rightarrow> operation \<Rightarrow> plan \<Rightarrow> signer_error + signed_transaction" where
  "signRewardOperation K L s kind p =
     (case revalidateRewardOperationPlan L p of
        Inl _ \<Rightarrow> Inl (SignerError SealedPlanInvalid)
      | Inr v \<Rightarrow>
          bindr (guardr (material_kind (matOp (planMaterial v)) = kind) (SignerError SealedPlanInvalid)) (\<lambda>_.
          bindr (guardr (netKind (matNetwork (planMaterial v)) = srNetwork s \<and>
              senderPrincipal (matSender (planMaterial v)) = srPrincipal s \<and>
              senderPublicKey (matSender (planMaterial v)) = srPublicKey s)
            (SignerError PlanSignerMismatch)) (\<lambda>_.
          bindr (some_or (SignerError SigningFailed) (klSign K (srKey s) (unsignedTransactionHex v)))
            (\<lambda>(bytes, t).
          Inr \<lparr>sdOperation = Some kind, sdPlanSha = planSha256 v,
            sdUnsignedSha = unsignedTransactionSha256 v, sdBytes = bytes, sdTxid = ''0x'' @ t,
            sdNonce = txNonce (matTransaction (planMaterial v)),
            sdFee = txFeeUstx (matTransaction (planMaterial v))\<rparr>))))"

definition signGasWalletSweepPlan ::
  "key_lib \<Rightarrow> sweep_lib \<Rightarrow> gas_signer \<Rightarrow> sweep_plan \<Rightarrow> signer_error + signed_transaction" where
  "signGasWalletSweepPlan K S s p =
     (case revalidateGasWalletSweepPlan S p of
        Inl _ \<Rightarrow> Inl (SignerError SealedPlanInvalid)
      | Inr v \<Rightarrow>
          bindr (guardr (swNetwork (spMaterial v) = srNetwork s \<and> swSender (spMaterial v) = srPrincipal s \<and>
              swPublicKey (spMaterial v) = srPublicKey s) (SignerError PlanSignerMismatch)) (\<lambda>_.
          bindr (some_or (SignerError SigningFailed) (klSign K (srKey s) (spHex v))) (\<lambda>(bytes, t).
          Inr \<lparr>sdOperation = None, sdPlanSha = spSha256 v, sdUnsignedSha = spTxSha256 v, sdBytes = bytes,
            sdTxid = ''0x'' @ t, sdNonce = swNonce (spMaterial v), sdFee = swFee (spMaterial v)\<rparr>)))"

subsection \<open>The format of a secret\<close>

text \<open>Lower-case hexadecimal text of a byte string, and ASCII letters in lower case.\<close>

definition nibble_digit :: "int \<Rightarrow> byte" where
  "nibble_digit n = word_of_int (if n < 10 then 0x30 + n else 0x61 + n - 10)"

definition hex_bytes :: "byte list \<Rightarrow> byte list" where
  "hex_bytes bs = concat (map (\<lambda>b. [nibble_digit (uint b div 16), nibble_digit (uint b mod 16)]) bs)"

definition lower_byte :: "byte \<Rightarrow> byte" where
  "lower_byte b = (if 0x41 \<le> uint b \<and> uint b \<le> 0x5a then b + 0x20 else b)"

lemma length_hex_bytes [simp]: "length (hex_bytes bs) = 2 * length bs"
  by (induction bs) (simp_all add: hex_bytes_def)

lemma hexNibble_range: "hexNibble b < 16"
  by (simp add: hexNibble_def)

lemma uint_byte: "0 \<le> n \<Longrightarrow> n < 256 \<Longrightarrow> uint (word_of_int n :: byte) = n"
  by (simp add: uint_word_of_int)

lemma lower_byte_digit:
  assumes "0 \<le> n" "n < 16"
  shows "lower_byte b = nibble_digit n \<longleftrightarrow> hexNibble b = n"
proof -
  have "lower_byte b = nibble_digit n \<longleftrightarrow> uint (lower_byte b) = uint (nibble_digit n)"
    by (metis word_of_int_uint)
  moreover have "uint (nibble_digit n) = (if n < 10 then 0x30 + n else 0x61 + n - 10)"
    using assms unfolding nibble_digit_def by (subst uint_byte) auto
  moreover have "uint (lower_byte b) = (if 0x41 \<le> uint b \<and> uint b \<le> 0x5a then uint b + 0x20 else uint b)"
    by (simp add: lower_byte_def uint_word_ariths)
  ultimately show ?thesis using assms uint_bounded [of b] by (auto simp: hexNibble_def)
qed

lemma nibbles:
  assumes "0 \<le> h" "h < 16" "0 \<le> l" "l < 16"
  shows "uint (word_of_int (push_bit 4 h OR l) :: byte) = 16 * h + l"
proof -
  have low: "take_bit 4 l = l" using assms by (simp add: take_bit_eq_mod)
  have "push_bit 4 h AND l = 0"
    by (subst low [symmetric]) (auto simp: bit_eq_iff bit_simps)
  then have "push_bit 4 h OR l = push_bit 4 h + l" by (simp add: disjunctive_add_eq_or)
  then show ?thesis using assms by (subst uint_byte) (simp_all add: push_bit_eq_mult)
qed

lemma hex_split: "0 \<le> l \<Longrightarrow> l < 16 \<Longrightarrow> 16 * h + l = n \<longleftrightarrow> h = n div 16 \<and> l = n mod 16" for n :: int
  by auto

lemma decode_pairs_iff: "decode_pairs ds = Some ks \<longleftrightarrow> map lower_byte ds = hex_bytes ks"
proof (induction ds arbitrary: ks rule: decode_pairs.induct)
  case (1 h l bs)
  show ?case
  proof (cases ks)
    case Nil
    then show ?thesis by (auto simp: hex_bytes_def)
  next
    case (Cons k ks')
    let ?ok = "hexNibble h \<ge> 0 \<and> hexNibble l \<ge> 0"
    have k: "0 \<le> uint k div 16" "uint k div 16 < 16" "0 \<le> uint k mod 16" "uint k mod 16 < 16"
      using uint_bounded [of k] by (simp_all add: pos_imp_zdiv_nonneg_iff)
    have "word_of_int (push_bit 4 (hexNibble h) OR hexNibble l) = k \<longleftrightarrow>
        hexNibble h = uint k div 16 \<and> hexNibble l = uint k mod 16" if ?ok
    proof -
      have "uint (word_of_int (push_bit 4 (hexNibble h) OR hexNibble l) :: byte) = 16 * hexNibble h + hexNibble l"
        using that hexNibble_range [of h] hexNibble_range [of l] by (intro nibbles) simp_all
      then have "word_of_int (push_bit 4 (hexNibble h) OR hexNibble l) = k \<longleftrightarrow> 16 * hexNibble h + hexNibble l = uint k"
        using word_uint_eq_iff [of "word_of_int (push_bit 4 (hexNibble h) OR hexNibble l)" k] by argo
      also have "\<dots> \<longleftrightarrow> hexNibble h = uint k div 16 \<and> hexNibble l = uint k mod 16"
        using that hexNibble_range by (intro hex_split) auto
      finally show ?thesis .
    qed
    moreover have "map lower_byte (h # l # bs) = hex_bytes ks \<longleftrightarrow>
        hexNibble h = uint k div 16 \<and> hexNibble l = uint k mod 16 \<and> map lower_byte bs = hex_bytes ks'"
      using k by (simp add: Cons hex_bytes_def lower_byte_digit)
    ultimately show ?thesis using 1 k by (auto simp: Cons)
  qed
next
  case (3 b)
  have "map lower_byte [b] \<noteq> hex_bytes ks" using length_hex_bytes [of ks] by (metis length_map One_nat_def length_Cons list.size(3) odd_one dvd_triv_left)
  then show ?case by simp
qed (auto simp: hex_bytes_def)


definition line_ends :: "byte list set" where
  "line_ends = {[], [0x0a], [0x0d], [0x0d, 0x0a]}"

abbreviation secret_digits :: "byte list \<Rightarrow> byte list" where
  "secret_digits e \<equiv> drop_trailing 0x0d (drop_trailing 0x0a e)"

lemma secret_digits_split: "\<exists>nl \<in> line_ends. e = secret_digits e @ nl"
proof -
  have split: "\<exists>nl. (nl = [] \<or> nl = [b]) \<and> bs = drop_trailing b bs @ nl" for b bs
    by (metis append_Nil2 append_butlast_last_id drop_trailing_def)
  obtain m where m: "m = [] \<or> m = [0x0a]" "e = drop_trailing 0x0a e @ m" using split by blast
  obtain n where n: "n = [] \<or> n = [0x0d]" "drop_trailing 0x0a e = secret_digits e @ n" using split by blast
  from m n have "e = secret_digits e @ (n @ m)" by (metis append_assoc)
  moreover from m(1) n(1) have "n @ m \<in> line_ends" by (auto simp: line_ends_def)
  ultimately show ?thesis by blast
qed

lemma secret_digits_ends:
  assumes "ds \<noteq> []" "0 \<le> hexNibble (last ds)" "nl \<in> line_ends"
  shows "secret_digits (ds @ nl) = ds"
proof -
  have "last ds \<noteq> 0x0a" "last ds \<noteq> 0x0d" using assms(2) by (auto simp: hexNibble_def)
  with assms show ?thesis by (auto simp: line_ends_def drop_trailing_def butlast_append)
qed

lemma hex_bytes_last:
  assumes "map lower_byte ds = hex_bytes ks" "ks \<noteq> []"
  shows "ds \<noteq> []" and "0 \<le> hexNibble (last ds)"
proof -
  show ds: "ds \<noteq> []" using arg_cong [OF assms(1), of length] assms(2) by auto
  have "lower_byte (last ds) = last (hex_bytes ks)" using assms(1) ds by (metis last_map)
  also have "\<dots> = nibble_digit (uint (last ks) mod 16)"
    using assms(2) by (induction ks rule: rev_induct) (simp_all add: hex_bytes_def)
  finally have "hexNibble (last ds) = uint (last ks) mod 16" by (simp add: lower_byte_digit)
  then show "0 \<le> hexNibble (last ds)" by simp
qed

text \<open>
  The hexadecimal text, in either letter case, of 32 bytes, or of 32 bytes and the byte 1 of a compressed
  key, followed by at most one line end.
\<close>

definition secret_text :: "byte list \<Rightarrow> byte list \<Rightarrow> bool" where
  "secret_text key e \<longleftrightarrow> length key = 32 \<and> (\<exists>ds nl. nl \<in> line_ends \<and> e = ds @ nl \<and>
     (map lower_byte ds = hex_bytes key \<or> map lower_byte ds = hex_bytes (key @ [1])))"

lemma secret_format: "decodeRawPrivateKey e = Inr k \<longleftrightarrow> (\<exists>key. secret_text key e \<and> k = key @ [1])"
proof
  assume read: "decodeRawPrivateKey e = Inr k"
  then obtain ks where ks: "decode_pairs (secret_digits e) = Some ks" "k = take 32 ks @ [1]"
    and n: "length (secret_digits e) = 64 \<or> length (secret_digits e) = 66 \<and> ks ! 32 = 1"
    by (auto simp: decodeRawPrivateKey_def Let_def split: if_splits option.splits)
  from ks(1) have hex: "map lower_byte (secret_digits e) = hex_bytes ks" by (simp add: decode_pairs_iff)
  then have "2 * length ks = length (secret_digits e)" by (metis length_hex_bytes length_map)
  with n have "length ks = 32 \<or> length ks = 33 \<and> ks ! 32 = 1" by auto
  then have "ks = take 32 ks \<or> ks = take 32 ks @ [1]"
    using take_Suc_conv_app_nth [of 32 ks] by auto
  then have hex': "map lower_byte (secret_digits e) = hex_bytes (take 32 ks) \<or>
      map lower_byte (secret_digits e) = hex_bytes (take 32 ks @ [1])" using hex by metis
  obtain nl where "nl \<in> line_ends" "e = secret_digits e @ nl" using secret_digits_split by blast
  with hex' ks(2) \<open>length ks = 32 \<or> _\<close>
  show "\<exists>key. secret_text key e \<and> k = key @ [1]"
    unfolding secret_text_def
    by (intro exI [of _ "take 32 ks"] conjI exI [of _ "secret_digits e"] exI [of _ nl]) auto
next
  assume "\<exists>key. secret_text key e \<and> k = key @ [1]"
  then obtain key ds nl where k: "length key = 32" "k = key @ [1]" "nl \<in> line_ends" "e = ds @ nl"
    and "map lower_byte ds = hex_bytes key \<or> map lower_byte ds = hex_bytes (key @ [1])"
    by (auto simp: secret_text_def)
  then obtain ks where ks: "map lower_byte ds = hex_bytes ks" "ks = key \<or> ks = key @ [1]" by blast
  then have "ks \<noteq> []" using k(1) by auto
  with hex_bytes_last [OF ks(1)] k(3,4) have "secret_digits e = ds" by (simp add: secret_digits_ends)
  moreover have "length ds = 2 * length ks" using ks(1) by (metis length_hex_bytes length_map)
  moreover have "decode_pairs ds = Some ks" using ks(1) by (simp add: decode_pairs_iff)
  ultimately show "decodeRawPrivateKey e = Inr k"
    using ks(2) k(1,2) by (auto simp: decodeRawPrivateKey_def Let_def nth_append)
qed

subsection \<open>Where a key comes from\<close>

lemma some_or_Inr [simp]: "some_or e x = Inr a \<longleftrightarrow> x = Some a"
  by (simp add: some_or_def split: option.splits)

lemma secure_mode_bits: "secure_mode mode \<longleftrightarrow> mode mod 512 = 0x100 \<or> mode mod 512 = 0x180"
proof -
  define p where "p = mode mod 512"
  have mode: "mode AND 0x1ff = p"
    using take_bit_eq_mask [of 9 mode] by (simp add: take_bit_eq_mod mask_eq_exp_minus_1 p_def)
  have low: "p AND 0x3f = p mod 64"
    using take_bit_eq_mask [of 6 p] by (simp add: take_bit_eq_mod mask_eq_exp_minus_1)
  have "p < 512" by (simp add: p_def)
  show ?thesis
  proof (cases "p mod 64 = 0")
    case True
    then have "p = 64 * (p div 64)" by auto
    moreover have "p div 64 < 8" using \<open>p < 512\<close> by auto
    then have "p div 64 \<in> {0, 1, 2, 3, 4, 5, 6, 7}" by auto
    ultimately have "p \<in> {0, 64, 128, 192, 256, 320, 384, 448}" by auto
    then show ?thesis unfolding secure_mode_def Let_def mode p_def [symmetric] by auto
  next
    case False
    then have "p \<noteq> 0x100 \<and> p \<noteq> 0x180" by auto
    with False show ?thesis unfolding secure_mode_def Let_def mode low p_def [symmetric] by simp
  qed
qed


text \<open>
  C16: the private key is read from one place only. Loading succeeds precisely when the configured path is
  absolute and names a regular file that is no symbolic link, the opened file is that same file, with
  mode 0400 or 0600, owned by the process user where there is one, unchanged while it was read, and it
  holds exactly one key in hexadecimal text; the key loaded is that key with the byte 1 of a compressed key.
\<close>
theorem secret_loaded_exactly:
  "loadPrivateKey options f = Inr k \<longleftrightarrow> take 1 (soSecretPath options) = ''/'' \<and> sfOpens f \<and> sfCloses f \<and>
     (\<exists>path opened after key encoded. sfLstat f = Some path \<and> sfStat f = Some opened \<and> sfStatAfter f = Some after \<and>
        fsRegular path \<and> \<not> fsSymlink path \<and> fsRegular opened \<and>
        fsDev opened = fsDev path \<and> fsIno opened = fsIno path \<and>
        (fsMode opened mod 512 = 0x100 \<or> fsMode opened mod 512 = 0x180) \<and>
        (sfUid f = None \<or> sfUid f = Some (fsUid opened)) \<and>
        64 \<le> fsSize opened \<and> fsSize opened \<le> 68 \<and>
        fsSize after = fsSize opened \<and> fsMtime after = fsMtime opened \<and> fsCtime after = fsCtime opened \<and>
        sfContent f = Some encoded \<and> secret_text key encoded \<and> k = key @ [1])"
  by (cases "sfUid f") (auto simp: loadPrivateKey_def readSecret_def secret_format secure_mode_bits)

subsection \<open>What is signed\<close>

text \<open>The sealed plan an output was made from, and the signer it belongs to.\<close>

definition signed_plan :: "key_lib \<Rightarrow> tx_lib \<Rightarrow> gas_signer \<Rightarrow> operation \<Rightarrow> plan \<Rightarrow> signed_transaction \<Rightarrow> bool" where
  "signed_plan K L s kind p x \<longleftrightarrow> revalidateRewardOperationPlan L p = Inr p \<and>
     material_kind (matOp (planMaterial p)) = kind \<and> netKind (matNetwork (planMaterial p)) = srNetwork s \<and>
     senderPrincipal (matSender (planMaterial p)) = srPrincipal s \<and>
     senderPublicKey (matSender (planMaterial p)) = srPublicKey s \<and>
     (\<exists>bytes t. klSign K (srKey s) (unsignedTransactionHex p) = Some (bytes, t) \<and>
        x = \<lparr>sdOperation = Some kind, sdPlanSha = planSha256 p, sdUnsignedSha = unsignedTransactionSha256 p,
          sdBytes = bytes, sdTxid = ''0x'' @ t, sdNonce = txNonce (matTransaction (planMaterial p)),
          sdFee = txFeeUstx (matTransaction (planMaterial p))\<rparr>)"

lemma signRewardOperation_Inr: "signRewardOperation K L s kind p = Inr x \<longleftrightarrow> signed_plan K L s kind p x"
proof -
  have "revalidateRewardOperationPlan L p = Inr v \<Longrightarrow> v = p" for v by (simp add: revalidate_iff)
  then show ?thesis unfolding signRewardOperation_def signed_plan_def
    by (auto split: sum.splits prod.splits)
qed

definition signed_sweep :: "key_lib \<Rightarrow> sweep_lib \<Rightarrow> gas_signer \<Rightarrow> sweep_plan \<Rightarrow> signed_transaction \<Rightarrow> bool" where
  "signed_sweep K S s p x \<longleftrightarrow> revalidateGasWalletSweepPlan S p = Inr p \<and> swNetwork (spMaterial p) = srNetwork s \<and>
     swSender (spMaterial p) = srPrincipal s \<and> swPublicKey (spMaterial p) = srPublicKey s \<and>
     (\<exists>bytes t. klSign K (srKey s) (spHex p) = Some (bytes, t) \<and>
        x = \<lparr>sdOperation = None, sdPlanSha = spSha256 p, sdUnsignedSha = spTxSha256 p, sdBytes = bytes,
          sdTxid = ''0x'' @ t, sdNonce = swNonce (spMaterial p), sdFee = swFee (spMaterial p)\<rparr>)"

lemma signGasWalletSweepPlan_Inr: "signGasWalletSweepPlan K S s p = Inr x \<longleftrightarrow> signed_sweep K S s p x"
proof -
  have "revalidateGasWalletSweepPlan S p = Inr v \<Longrightarrow> v = p" for v
    by (auto simp: revalidateGasWalletSweepPlan_def Let_def split: if_splits)
  then show ?thesis unfolding signGasWalletSweepPlan_def signed_sweep_def
    by (auto split: sum.splits prod.splits)
qed


subsection \<open>A secret file\<close>

definition owner_only :: file_stat where
  "owner_only = \<lparr>fsRegular = True, fsSymlink = False, fsDev = 1, fsIno = 7, fsMode = 0x8180, fsUid = 1000, fsSize = 65,
     fsMtime = 0, fsCtime = 0\<rparr>"

definition sample_secret :: secret_file where
  "sample_secret = \<lparr>sfLstat = Some owner_only, sfOpens = True, sfStat = Some owner_only,
     sfContent = Some (replicate 64 0x41 @ [0x0a]), sfStatAfter = Some owner_only, sfCloses = True, sfUid = Some 1000\<rparr>"

definition sample_key :: "byte list" where
  "sample_key = replicate 32 0xaa"

lemma sample_digits:
  "map lower_byte (replicate (2 * n) 0x41) = hex_bytes (replicate n 0xaa)"
  by (induction n) (simp_all add: hex_bytes_def nibble_digit_def lower_byte_def)

lemma sample_secret_text: "secret_text sample_key (replicate 64 0x41 @ [0x0a])"
proof -
  have "map lower_byte (replicate 64 0x41) = hex_bytes sample_key"
    using sample_digits [of 32] by (simp add: sample_key_def)
  moreover have "length sample_key = 32" by (simp add: sample_key_def)
  ultimately show ?thesis unfolding secret_text_def line_ends_def by blast
qed

definition sample_options :: signer_options where
  "sample_options = \<lparr>soSecretPath = ''/run/secrets/key'', soPrincipal = ''SPW'', soNetwork = Mainnet\<rparr>"

definition sample_key_lib :: key_lib where
  "sample_key_lib = \<lparr>klPublicKey = (\<lambda>_. Some (''02'' @ replicate 64 (CHR ''0''))),
     klSign = (\<lambda>_ _. Some (''00'', replicate 64 (CHR ''1'')))\<rparr>"

definition sample_signer :: gas_signer where
  "sample_signer = \<lparr>srKey = sample_key @ [1], srPrincipal = ''SPW'', srPublicKey = ''02'' @ replicate 64 (CHR ''0''),
     srNetwork = Mainnet, srDestroyed = False\<rparr>"

lemma sample_signer_loaded: "fromSecretFile sample_key_lib sample_lib sample_options sample_secret = Inr sample_signer"
proof -
  have "decodeRawPrivateKey (replicate 64 0x41 @ [0x0a]) = Inr (sample_key @ [1])"
    using sample_secret_text secret_format by blast
  moreover have "secure_mode 0x8180" by (simp add: secure_mode_bits)
  ultimately have "loadPrivateKey sample_options sample_secret = Inr (sample_key @ [1])"
    by (simp add: loadPrivateKey_def readSecret_def sample_options_def sample_secret_def owner_only_def some_or_def guardr_def)
  then show ?thesis
    by (simp add: fromSecretFile_def sample_key_lib_def sample_options_def sample_signer_def some_or_def Let_def to_lower_def lower_char_def
        less_eq_char_def)
qed

theorem secret_loaded_exactly_witness:
  "sfContent sample_secret = Some (replicate 64 0x41 @ [0x0a]) \<and> loadPrivateKey sample_options sample_secret = Inr (sample_key @ [1])"
  using secret_loaded_exactly [of sample_options sample_secret "sample_key @ [1]"] sample_secret_text
  by (auto simp: sample_secret_def sample_options_def owner_only_def)

end
