(* ===== verification/Signer_Runtime.thy ===== *)
theory Signer_Runtime
  imports Gas_Signer Broadcaster
begin

text \<open>
  The engine runtime that owns the gas payer's signer
  (apps/sidekick/src/transaction-engine/runtime.ts): loading, replacing and dropping it, and signing with
  it, one operation at a time.

  \<open>#exclusive\<close> chains operations on a promise, so they run in the order of their requests; the chain is
  \<open>rxQueue\<close>, and the operation that has started and awaits something is \<open>rxRunning\<close>. Between any two events
  others may come. Signers are objects, referred to by their position in \<open>rxSigners\<close>, as a reference kept
  across an \<open>await\<close> sees what \<open>destroy\<close> did. Observation passes are \<open>OtherJob\<close>. A request has a number;
  \<open>rxAnswers\<close> lists what was answered, and \<open>rxSigned\<close> the signatures made, with the signer as it was; no
  function reads these two.
\<close>

record activation =
  acPrincipal :: principal
  acPublicKey :: string
  acSecretPath :: string
  acNetwork :: network

datatype runtime_error =
    RuntimeClosed | NoSignerLoaded | NotOperatorRun | KeyNotRecorded
  | RuntimeSignerError signer_error

datatype runtime_job =
  RewardJob operation plan | SweepJob sweep_plan | ActivateJob activation | DeactivateJob | OtherJob

datatype runtime_pc =
  SigningReward nat operation plan | SigningSweep nat sweep_plan | Activating activation | OtherRunning

record runtime =
  rxClosed :: bool
  rxShut :: bool
  rxQueue :: "(nat \<times> runtime_job) list"
  rxRunning :: "(nat \<times> runtime_pc) option"
  rxSigners :: "gas_signer list"
  rxCurrent :: "nat option"
  rxIdentity :: "(principal \<times> string) option"
  rxNext :: nat
  rxAnswers :: "(nat \<times> (runtime_error + signed_transaction option)) list"
  rxSigned :: "(gas_signer \<times> (operation \<times> plan + sweep_plan) \<times> signed_transaction) list"

definition gasWalletSignerReady :: "runtime \<Rightarrow> bool" where
  "gasWalletSignerReady rt \<longleftrightarrow> rxCurrent rt \<noteq> None"

definition answer :: "nat \<Rightarrow> runtime_error + signed_transaction option \<Rightarrow> runtime \<Rightarrow> runtime" where
  "answer n r rt = rt\<lparr>rxRunning := None, rxAnswers := rxAnswers rt @ [(n, r)]\<rparr>"

text \<open>A request made before its operation runs: refused at once, or queued.\<close>

definition exclusive :: "runtime_job \<Rightarrow> runtime \<Rightarrow> runtime" where
  "exclusive job rt = (let n = rxNext rt; rt' = rt\<lparr>rxNext := Suc n\<rparr> in
     if rxClosed rt then rt'\<lparr>rxAnswers := rxAnswers rt @ [(n, Inl RuntimeClosed)]\<rparr>
     else rt'\<lparr>rxQueue := rxQueue rt @ [(n, job)]\<rparr>)"

definition request :: "bool \<Rightarrow> runtime_job \<Rightarrow> runtime \<Rightarrow> runtime" where
  "request operatorRun job rt = (case job of
       ActivateJob _ \<Rightarrow>
         if operatorRun then exclusive job rt
         else rt\<lparr>rxNext := Suc (rxNext rt), rxAnswers := rxAnswers rt @ [(rxNext rt, Inl NotOperatorRun)]\<rparr>
     | _ \<Rightarrow> exclusive job rt)"

definition dropCurrent :: "runtime \<Rightarrow> runtime" where
  "dropCurrent rt = rt\<lparr>rxCurrent := None, rxSigners := (case rxCurrent rt of
       None \<Rightarrow> rxSigners rt
     | Some i \<Rightarrow> (rxSigners rt)[i := destroySigner (rxSigners rt ! i)])\<rparr>"

definition start_signing :: "nat \<Rightarrow> (nat \<Rightarrow> runtime_pc) \<Rightarrow> runtime \<Rightarrow> runtime" where
  "start_signing n pc rt = (case rxCurrent rt of
       None \<Rightarrow> answer n (Inl NoSignerLoaded) rt
     | Some i \<Rightarrow>
         (case startSigning (rxSigners rt ! i) of
            Inl e \<Rightarrow> answer n (Inl (RuntimeSignerError e)) rt
          | Inr _ \<Rightarrow> rt\<lparr>rxRunning := Some (n, pc i)\<rparr>))"

definition start_next :: "runtime \<Rightarrow> runtime" where
  "start_next rt = (case (rxRunning rt, rxQueue rt) of
       (None, (n, job) # rest) \<Rightarrow>
         let rt = rt\<lparr>rxQueue := rest\<rparr> in
         if rxClosed rt then answer n (Inl RuntimeClosed) rt
         else (case job of
             RewardJob kind p \<Rightarrow> start_signing n (\<lambda>i. SigningReward i kind p) rt
           | SweepJob p \<Rightarrow> start_signing n (\<lambda>i. SigningSweep i p) rt
           | ActivateJob a \<Rightarrow> rt\<lparr>rxRunning := Some (n, Activating a)\<rparr>
           | DeactivateJob \<Rightarrow> answer n (Inr None) (dropCurrent rt)
           | OtherJob \<Rightarrow> rt\<lparr>rxRunning := Some (n, OtherRunning)\<rparr>)
     | _ \<Rightarrow> rt)"

definition finish_signing ::
  "nat \<Rightarrow> gas_signer \<Rightarrow> operation \<times> plan + sweep_plan \<Rightarrow> signer_error + signed_transaction \<Rightarrow> runtime \<Rightarrow> runtime" where
  "finish_signing n s q r rt = (case r of
       Inl e \<Rightarrow> answer n (Inl (RuntimeSignerError e)) rt
     | Inr x \<Rightarrow> answer n (Inr (Some x)) (rt\<lparr>rxSigned := rxSigned rt @ [(s, q, x)]\<rparr>))"

text \<open>The new signer is read first; an error leaves the previous one untouched.\<close>

definition activateGasWallet ::
  "key_lib \<Rightarrow> tx_lib \<Rightarrow> activation \<Rightarrow> secret_file \<Rightarrow> runtime \<Rightarrow> (runtime_error + signed_transaction option) \<times> runtime" where
  "activateGasWallet K L a f rt =
     (case fromSecretFile K L \<lparr>soSecretPath = acSecretPath a, soPrincipal = acPrincipal a, soNetwork = acNetwork a\<rparr> f of
        Inl e \<Rightarrow> (Inl (RuntimeSignerError e), rt)
      | Inr s \<Rightarrow>
          if srPublicKey s \<noteq> to_lower (acPublicKey a)
          then (Inl KeyNotRecorded, rt\<lparr>rxSigners := rxSigners rt @ [destroySigner s]\<rparr>)
          else (let rt' = dropCurrent rt in (Inr None, rt'\<lparr>rxSigners := rxSigners rt' @ [s],
            rxCurrent := Some (length (rxSigners rt)), rxIdentity := Some (acPrincipal a, srPublicKey s)\<rparr>)))"

definition finish_running :: "key_lib \<Rightarrow> tx_lib \<Rightarrow> sweep_lib \<Rightarrow> secret_file \<Rightarrow> runtime \<Rightarrow> runtime" where
  "finish_running K L S f rt = (case rxRunning rt of
       None \<Rightarrow> rt
     | Some (n, SigningReward i kind p) \<Rightarrow> let s = rxSigners rt ! i in
         finish_signing n s (Inl (kind, p)) (signRewardOperation K L s kind p) rt
     | Some (n, SigningSweep i p) \<Rightarrow> let s = rxSigners rt ! i in
         finish_signing n s (Inr p) (signGasWalletSweepPlan K S s p) rt
     | Some (n, Activating a) \<Rightarrow> (case activateGasWallet K L a f rt of (r, rt') \<Rightarrow> answer n r rt')
     | Some (n, OtherRunning) \<Rightarrow> answer n (Inr None) rt)"

text \<open>\<open>close\<close> refuses new work, waits for the chain and then destroys the signer.\<close>

definition close_start :: "runtime \<Rightarrow> runtime" where
  "close_start rt = rt\<lparr>rxClosed := True\<rparr>"

definition close_finish :: "runtime \<Rightarrow> runtime" where
  "close_finish rt = (if rxClosed rt \<and> rxRunning rt = None \<and> rxQueue rt = []
     then (dropCurrent rt)\<lparr>rxShut := True\<rparr> else rt)"

datatype runtime_event =
  Request runtime_job | StartNext | FinishRunning secret_file | CloseStart | CloseFinish

fun runtime_apply :: "key_lib \<Rightarrow> tx_lib \<Rightarrow> sweep_lib \<Rightarrow> bool \<Rightarrow> runtime_event \<Rightarrow> runtime \<Rightarrow> runtime" where
  "runtime_apply K L S operatorRun (Request job) rt = request operatorRun job rt"
| "runtime_apply K L S operatorRun StartNext rt = start_next rt"
| "runtime_apply K L S operatorRun (FinishRunning f) rt = finish_running K L S f rt"
| "runtime_apply K L S operatorRun CloseStart rt = close_start rt"
| "runtime_apply K L S operatorRun CloseFinish rt = close_finish rt"

definition runtime_trace ::
  "key_lib \<Rightarrow> tx_lib \<Rightarrow> sweep_lib \<Rightarrow> bool \<Rightarrow> runtime_event list \<Rightarrow> runtime \<Rightarrow> runtime" where
  "runtime_trace K L S operatorRun es rt = foldl (\<lambda>rt e. runtime_apply K L S operatorRun e rt) rt es"

subsection \<open>Start-up\<close>

text \<open>A gas payer configured by the environment: principal, public key, and where its secret is, if any.\<close>

record runtime_config =
  rcOperatorRun :: bool
  rcGasPayer :: "(principal \<times> string \<times> string option) option"
  rcPayerNetwork :: network

definition idle_runtime :: "gas_signer list \<Rightarrow> nat option \<Rightarrow> (principal \<times> string) option \<Rightarrow> runtime" where
  "idle_runtime signers cur identity = \<lparr>rxClosed = False, rxShut = False, rxQueue = [], rxRunning = None,
     rxSigners = signers, rxCurrent = cur, rxIdentity = identity, rxNext = 0, rxAnswers = [], rxSigned = []\<rparr>"

definition createRuntime :: "key_lib \<Rightarrow> tx_lib \<Rightarrow> runtime_config \<Rightarrow> secret_file \<Rightarrow> runtime_error + runtime" where
  "createRuntime K L c f = (case (rcOperatorRun c, rcGasPayer c) of
       (True, Some (p, publicKey, Some path)) \<Rightarrow>
         (case fromSecretFile K L \<lparr>soSecretPath = path, soPrincipal = p, soNetwork = rcPayerNetwork c\<rparr> f of
            Inl e \<Rightarrow> Inl (RuntimeSignerError e)
          | Inr s \<Rightarrow>
              if srPublicKey s \<noteq> publicKey then Inl KeyNotRecorded
              else Inr (idle_runtime [s] (Some 0) (Some (p, publicKey))))
     | (_, payer) \<Rightarrow> Inr (idle_runtime [] None (map_option (\<lambda>(p, publicKey, _). (p, publicKey)) payer)))"


subsection \<open>Invariant\<close>

text \<open>A signer holds a key that was loaded from its file, or none: zeroes.\<close>

definition loaded :: "key_lib \<Rightarrow> tx_lib \<Rightarrow> gas_signer \<Rightarrow> bool" where
  "loaded K L s \<longleftrightarrow> (\<exists>options f. fromSecretFile K L options f = Inr s)"

definition spent :: "gas_signer \<Rightarrow> bool" where
  "spent s \<longleftrightarrow> srDestroyed s \<and> srKey s = replicate 33 0"

lemma loaded_key: "loaded K L s \<Longrightarrow> length (srKey s) = 33 \<and> \<not> srDestroyed s"
  by (auto simp: loaded_def fromSecretFile_def loadPrivateKey_def readSecret_def secret_format secret_text_def
      Let_def split: if_splits)

lemma destroy_loaded [simp]: "loaded K L s \<Longrightarrow> spent (destroySigner s)"
  using loaded_key [of K L s] by (simp add: spent_def destroySigner_def)

lemma loaded_not_spent: "loaded K L s \<Longrightarrow> \<not> spent s"
  using loaded_key [of K L s] by (simp add: spent_def)

definition genuine ::
  "key_lib \<Rightarrow> tx_lib \<Rightarrow> sweep_lib \<Rightarrow> gas_signer \<times> (operation \<times> plan + sweep_plan) \<times> signed_transaction \<Rightarrow> bool" where
  "genuine K L S = (\<lambda>(s, q, x). loaded K L s \<and>
     (case q of Inl (kind, p) \<Rightarrow> signed_plan K L s kind p x | Inr p \<Rightarrow> signed_sweep K S s p x))"

definition signers_ok :: "key_lib \<Rightarrow> tx_lib \<Rightarrow> gas_signer list \<Rightarrow> nat option \<Rightarrow> bool" where
  "signers_ok K L ss cur \<longleftrightarrow> (\<forall>i < length ss. if cur = Some i then loaded K L (ss ! i) else spent (ss ! i)) \<and>
     (\<forall>i. cur = Some i \<longrightarrow> i < length ss)"

definition pc_signer :: "runtime_pc \<Rightarrow> nat option" where
  "pc_signer pc = (case pc of SigningReward i _ _ \<Rightarrow> Some i | SigningSweep i _ \<Rightarrow> Some i | _ \<Rightarrow> None)"

definition runtime_ok :: "key_lib \<Rightarrow> tx_lib \<Rightarrow> sweep_lib \<Rightarrow> runtime \<Rightarrow> bool" where
  "runtime_ok K L S rt \<longleftrightarrow> signers_ok K L (rxSigners rt) (rxCurrent rt) \<and>
     (\<forall>n pc i. rxRunning rt = Some (n, pc) \<longrightarrow> pc_signer pc = Some i \<longrightarrow> rxCurrent rt = Some i) \<and>
     (rxShut rt \<longrightarrow> rxClosed rt \<and> rxRunning rt = None \<and> rxQueue rt = [] \<and> rxCurrent rt = None) \<and>
     (\<forall>x \<in> set (rxSigned rt). genuine K L S x)"

lemma signers_ok_drop:
  "signers_ok K L (rxSigners rt) (rxCurrent rt) \<Longrightarrow>
     signers_ok K L (rxSigners (dropCurrent rt)) None \<and> length (rxSigners (dropCurrent rt)) = length (rxSigners rt)"
  by (auto simp: signers_ok_def dropCurrent_def nth_list_update split: option.splits if_splits)

lemma signers_ok_append:
  "signers_ok K L ss cur \<Longrightarrow> spent s \<Longrightarrow> signers_ok K L (ss @ [s]) cur"
  "signers_ok K L ss None \<Longrightarrow> loaded K L s \<Longrightarrow> signers_ok K L (ss @ [s]) (Some (length ss))"
  by (auto simp: signers_ok_def nth_append less_Suc_eq)

lemma dropCurrent_simps [simp]:
  "rxClosed (dropCurrent rt) = rxClosed rt" "rxShut (dropCurrent rt) = rxShut rt" "rxQueue (dropCurrent rt) = rxQueue rt"
  "rxRunning (dropCurrent rt) = rxRunning rt" "rxCurrent (dropCurrent rt) = None" "rxNext (dropCurrent rt) = rxNext rt"
  "rxAnswers (dropCurrent rt) = rxAnswers rt" "rxSigned (dropCurrent rt) = rxSigned rt"
  by (simp_all add: dropCurrent_def)

lemma answer_ok: "runtime_ok K L S rt \<Longrightarrow> runtime_ok K L S (answer n r rt)"
  by (auto simp: runtime_ok_def answer_def)

lemma exclusive_ok: "runtime_ok K L S rt \<Longrightarrow> runtime_ok K L S (exclusive job rt)"
  by (auto simp: runtime_ok_def exclusive_def Let_def)

lemma request_ok: "runtime_ok K L S rt \<Longrightarrow> runtime_ok K L S (request op job rt)"
  using exclusive_ok by (auto simp: request_def runtime_ok_def split: runtime_job.split)

lemma drop_ok: "runtime_ok K L S rt \<Longrightarrow> rxRunning rt = None \<Longrightarrow> runtime_ok K L S (dropCurrent rt)"
  using signers_ok_drop by (auto simp: runtime_ok_def)

lemma start_signing_ok:
  assumes "runtime_ok K L S rt" and "\<not> rxShut rt" and "\<And>i. pc_signer (pc i) = Some i"
  shows "runtime_ok K L S (start_signing n pc rt)"
  using assms answer_ok [OF assms(1)]
  by (auto simp: start_signing_def runtime_ok_def split: option.split sum.split)

lemma start_next_ok:
  assumes ok: "runtime_ok K L S rt" shows "runtime_ok K L S (start_next rt)"
proof (cases "rxRunning rt = None \<and> rxQueue rt \<noteq> []")
  case True
  then obtain n job rest where q: "rxRunning rt = None" "rxQueue rt = (n, job) # rest" by (metis list.exhaust surj_pair)
  let ?rt = "rt\<lparr>rxQueue := rest\<rparr>"
  have ok': "runtime_ok K L S ?rt" and open': "\<not> rxShut ?rt" using ok q by (auto simp: runtime_ok_def)
  have start: "runtime_ok K L S (?rt\<lparr>rxRunning := Some (n, pc)\<rparr>)" if "pc_signer pc = None" for pc
    using ok' open' that by (auto simp: runtime_ok_def)
  have drop: "runtime_ok K L S (dropCurrent ?rt)" using drop_ok [OF ok'] q(1) by simp
  have next_def: "start_next rt = (if rxClosed rt then answer n (Inl RuntimeClosed) ?rt
      else (case job of
             RewardJob kind p \<Rightarrow> start_signing n (\<lambda>i. SigningReward i kind p) ?rt
           | SweepJob p \<Rightarrow> start_signing n (\<lambda>i. SigningSweep i p) ?rt
           | ActivateJob a \<Rightarrow> ?rt\<lparr>rxRunning := Some (n, Activating a)\<rparr>
           | DeactivateJob \<Rightarrow> answer n (Inr None) (dropCurrent ?rt)
           | OtherJob \<Rightarrow> ?rt\<lparr>rxRunning := Some (n, OtherRunning)\<rparr>))"
    using q by (simp add: start_next_def Let_def)
  show ?thesis unfolding next_def
    by (cases job) (simp_all add: answer_ok ok' drop start start_signing_ok open' pc_signer_def)
qed (use ok in \<open>auto simp: start_next_def split: list.split option.split\<close>)

lemma finish_signing_ok:
  assumes "runtime_ok K L S rt" and "\<And>x. r = Inr x \<Longrightarrow> genuine K L S (s, q, x)"
  shows "runtime_ok K L S (finish_signing n s q r rt)"
  using assms by (auto simp: finish_signing_def answer_def runtime_ok_def split: sum.split)

lemma activate_ok:
  assumes ok: "runtime_ok K L S rt" and "rxRunning rt = Some (m, Activating a')"
  shows "runtime_ok K L S (answer n r (snd (activateGasWallet K L a f rt)))"
proof -
  let ?rt = "rt\<lparr>rxRunning := None\<rparr>"
  have ok': "signers_ok K L (rxSigners rt) (rxCurrent rt)" using ok by (simp add: runtime_ok_def)
  have "signers_ok K L (rxSigners (snd (activateGasWallet K L a f rt))) (rxCurrent (snd (activateGasWallet K L a f rt)))"
  proof (cases "fromSecretFile K L \<lparr>soSecretPath = acSecretPath a, soPrincipal = acPrincipal a, soNetwork = acNetwork a\<rparr> f")
    case (Inr s)
    then have "loaded K L s" by (auto simp: loaded_def)
    with Inr ok' signers_ok_drop [OF ok'] signers_ok_append show ?thesis
      by (fastforce simp: activateGasWallet_def Let_def)
  qed (use ok' in \<open>simp add: activateGasWallet_def\<close>)
  moreover have "\<not> rxShut rt" using assms by (auto simp: runtime_ok_def)
  ultimately show ?thesis using ok
    by (auto simp: runtime_ok_def answer_def activateGasWallet_def Let_def split: sum.split)
qed

lemma finish_running_ok:
  assumes ok: "runtime_ok K L S rt" shows "runtime_ok K L S (finish_running K L S f rt)"
proof (cases "rxRunning rt")
  case (Some r)
  obtain n pc where r: "rxRunning rt = Some (n, pc)" using Some by (cases r) auto
  have current: "loaded K L (rxSigners rt ! i)" if "pc_signer pc = Some i" for i
    using ok r that by (auto simp: runtime_ok_def signers_ok_def)
  show ?thesis
  proof (cases pc)
    case (Activating a)
    with r activate_ok [OF ok, of n a] show ?thesis
      by (simp add: finish_running_def split: prod.split) (metis snd_conv)
  next
    case (SigningReward i kind p)
    with r current ok show ?thesis
      by (auto simp: finish_running_def Let_def pc_signer_def genuine_def signRewardOperation_Inr intro!: finish_signing_ok)
  next
    case (SigningSweep i p)
    with r current ok show ?thesis
      by (auto simp: finish_running_def Let_def pc_signer_def genuine_def signGasWalletSweepPlan_Inr intro!: finish_signing_ok)
  qed (use r answer_ok [OF ok] in \<open>simp add: finish_running_def\<close>)
qed (simp add: finish_running_def ok)

lemma close_ok: "runtime_ok K L S rt \<Longrightarrow> runtime_ok K L S (close_start rt) \<and> runtime_ok K L S (close_finish rt)"
  using drop_ok [of K L S rt] by (auto simp: close_start_def close_finish_def runtime_ok_def)

lemma runtime_trace_ok: "runtime_ok K L S rt \<Longrightarrow> runtime_ok K L S (runtime_trace K L S op es rt)"
proof (induction es arbitrary: rt)
  case (Cons e es)
  then have "runtime_ok K L S (runtime_apply K L S op e rt)"
    by (cases e) (simp_all add: request_ok start_next_ok finish_running_ok close_ok)
  with Cons.IH show ?case by (simp add: runtime_trace_def)
qed (simp add: runtime_trace_def)

lemma create_ok: "createRuntime K L c f = Inr rt \<Longrightarrow> runtime_ok K L S rt"
  unfolding createRuntime_def idle_runtime_def runtime_ok_def signers_ok_def
  by (auto split: bool.splits option.splits prod.splits sum.splits if_splits) (auto simp: loaded_def)


subsection \<open>Requests\<close>

text \<open>The numbers of all requests: the answered, the running, the waiting.\<close>

definition tickets :: "runtime \<Rightarrow> nat list" where
  "tickets rt = map fst (rxAnswers rt) @ (case rxRunning rt of None \<Rightarrow> [] | Some (n, _) \<Rightarrow> [n]) @ map fst (rxQueue rt)"

definition accounted :: "runtime \<Rightarrow> bool" where
  "accounted rt \<longleftrightarrow> distinct (tickets rt) \<and> set (tickets rt) = {..<rxNext rt}"

lemma answer_tickets: "rxRunning rt = Some (n, pc) \<Longrightarrow> tickets (answer n r rt) = tickets rt"
  by (simp add: tickets_def answer_def)

lemma answer_next:
  "rxRunning rt = None \<Longrightarrow> rxQueue rt = (n, job) # rest \<Longrightarrow> tickets (answer n r (rt\<lparr>rxQueue := rest\<rparr>)) = tickets rt"
  by (simp add: tickets_def answer_def)

lemma tickets_cong:
  "rxAnswers rt' = rxAnswers rt \<Longrightarrow> rxRunning rt' = rxRunning rt \<Longrightarrow> rxQueue rt' = rxQueue rt \<Longrightarrow> tickets rt' = tickets rt"
  by (simp add: tickets_def)

lemma answer_frame [simp]: "rxNext (answer n r rt) = rxNext rt" "rxRunning (answer n r rt) = None" "rxQueue (answer n r rt) = rxQueue rt"
  by (simp_all add: answer_def)

lemma request_accounted: "accounted rt \<Longrightarrow> accounted (request op job rt)"
proof -
  assume rt: "accounted rt"
  then have "rxNext rt \<notin> set (tickets rt)" by (simp add: accounted_def)
  with rt have "accounted (exclusive job rt)"
    "accounted (rt\<lparr>rxNext := Suc (rxNext rt), rxAnswers := rxAnswers rt @ [(rxNext rt, a)]\<rparr>)" for a
    by (auto simp: accounted_def exclusive_def tickets_def Let_def lessThan_Suc)
  then show ?thesis by (auto simp: request_def split: runtime_job.split)
qed

lemma start_next_tickets: "tickets (start_next rt) = tickets rt \<and> rxNext (start_next rt) = rxNext rt"
proof (cases "rxRunning rt = None \<and> rxQueue rt \<noteq> []")
  case True
  then obtain n job rest where q: "rxRunning rt = None" "rxQueue rt = (n, job) # rest" by (metis list.exhaust surj_pair)
  let ?rt = "rt\<lparr>rxQueue := rest\<rparr>"
  have run: "tickets (?rt\<lparr>rxRunning := Some (n, pc)\<rparr>) = tickets rt" for pc using q by (simp add: tickets_def)
  have drop: "tickets (answer n r (dropCurrent ?rt)) = tickets rt" for r
    using q by (simp add: tickets_def answer_def)
  have signing: "tickets (start_signing n pc ?rt) = tickets rt \<and> rxNext (start_signing n pc ?rt) = rxNext rt" for pc
    using run answer_next [OF q] by (simp add: start_signing_def split: option.split sum.split)
  show ?thesis
    using q run drop signing answer_next [OF q] by (simp add: start_next_def Let_def split: runtime_job.split)
qed (auto simp: start_next_def split: list.split option.split)

lemma activate_frame:
  "rxAnswers (snd (activateGasWallet K L a f rt)) = rxAnswers rt \<and> rxRunning (snd (activateGasWallet K L a f rt)) = rxRunning rt \<and>
   rxQueue (snd (activateGasWallet K L a f rt)) = rxQueue rt \<and> rxNext (snd (activateGasWallet K L a f rt)) = rxNext rt"
  by (simp add: activateGasWallet_def Let_def split: sum.split)

lemma finish_running_tickets:
  "tickets (finish_running K L S f rt) = tickets rt \<and> rxNext (finish_running K L S f rt) = rxNext rt \<and>
   rxRunning (finish_running K L S f rt) = None \<and> rxQueue (finish_running K L S f rt) = rxQueue rt"
proof (cases "rxRunning rt")
  case (Some r)
  obtain n pc where r: "rxRunning rt = Some (n, pc)" using Some by (cases r) auto
  have signed: "tickets (finish_signing n s q x rt) = tickets rt" "rxNext (finish_signing n s q x rt) = rxNext rt"
    "rxRunning (finish_signing n s q x rt) = None" "rxQueue (finish_signing n s q x rt) = rxQueue rt" for s q x
    using r by (simp_all add: finish_signing_def tickets_def answer_def split: sum.split)
  show ?thesis
  proof (cases pc)
    case (Activating a)
    obtain x rt' where act: "activateGasWallet K L a f rt = (x, rt')" by fastforce
    from activate_frame [of K L a f rt] r show ?thesis unfolding act
      by (simp add: finish_running_def Activating act tickets_def answer_def)
  qed (simp_all add: finish_running_def r signed answer_tickets [OF r] Let_def)
qed (simp add: finish_running_def)

lemma close_accounted: "accounted rt \<Longrightarrow> accounted (close_start rt) \<and> accounted (close_finish rt)"
  by (auto simp: accounted_def close_start_def close_finish_def tickets_def)

lemma runtime_trace_accounted: "accounted rt \<Longrightarrow> accounted (runtime_trace K L S op es rt)"
proof (induction es arbitrary: rt)
  case (Cons e es)
  then have "accounted (runtime_apply K L S op e rt)"
    using start_next_tickets finish_running_tickets
    by (cases e) (simp_all add: request_accounted close_accounted, simp_all add: accounted_def)
  with Cons.IH show ?case by (simp add: runtime_trace_def)
qed (simp add: runtime_trace_def)

lemma create_accounted: "createRuntime K L c f = Inr rt \<Longrightarrow> accounted rt"
  unfolding createRuntime_def idle_runtime_def
  by (auto simp: accounted_def tickets_def split: bool.splits option.splits prod.splits sum.splits if_splits)

text \<open>The events in which every waiting operation has its turn.\<close>

definition drain :: "secret_file \<Rightarrow> nat \<Rightarrow> runtime_event list" where
  "drain f k = FinishRunning f # concat (replicate k [StartNext, FinishRunning f])"

lemma start_next_queue: "rxRunning rt = None \<Longrightarrow> rxQueue (start_next rt) = tl (rxQueue rt)"
  by (cases "rxQueue rt") (auto simp: start_next_def start_signing_def Let_def split: runtime_job.split option.split sum.split)

lemma drain_turns:
  "rxRunning rt = None \<Longrightarrow> length (rxQueue rt) = k \<Longrightarrow>
   let rt' = runtime_trace K L S op (concat (replicate k [StartNext, FinishRunning f])) rt in
   rxRunning rt' = None \<and> rxQueue rt' = [] \<and> rxNext rt' = rxNext rt"
proof (induction k arbitrary: rt)
  case (Suc k)
  let ?rt = "finish_running K L S f (start_next rt)"
  have "rxRunning ?rt = None" "length (rxQueue ?rt) = k" "rxNext ?rt = rxNext rt"
    using Suc.prems finish_running_tickets start_next_tickets start_next_queue by simp_all
  from Suc.IH [OF this(1,2)] this(3) show ?case by (simp add: runtime_trace_def Let_def)
qed (simp add: runtime_trace_def)


subsection \<open>Guarantees\<close>

text \<open>
  C13: a signature is only ever made with the loaded gas wallet, for its own sealed plan. In every
  execution of a runtime, whatever is requested, activated, deactivated and closed while other requests
  wait for their plan's revalidation, each signature was made with a key loaded from its checked secret
  file and not yet destroyed, over the exact bytes of a plan that revalidates, is of the requested kind
  and names that wallet's network, principal and public key.
\<close>
theorem signatures_by_loaded_wallet:
  assumes "createRuntime K L c f = Inr rt0" and "rt = runtime_trace K L S (rcOperatorRun c) es rt0"
    and "(s, q, x) \<in> set (rxSigned rt)"
  shows "(\<exists>options file. fromSecretFile K L options file = Inr s) \<and>
    (case q of Inl (kind, p) \<Rightarrow> signed_plan K L s kind p x | Inr p \<Rightarrow> signed_sweep K S s p x)"
proof -
  have "runtime_ok K L S rt" using create_ok [OF assms(1)] runtime_trace_ok assms(2) by blast
  with assms(3) have "genuine K L S (s, q, x)" by (simp add: runtime_ok_def)
  then show ?thesis by (simp add: genuine_def loaded_def)
qed

text \<open>
  C14: a process holds at most one live key. In every execution exactly the current signer is not destroyed
  and every other signer ever loaded holds only zeroes; and once closing has finished, no operation is
  running or waiting and no signer is live.
\<close>
theorem one_live_key:
  assumes "createRuntime K L c f = Inr rt0" and "rt = runtime_trace K L S (rcOperatorRun c) es rt0"
  shows "(\<forall>i < length (rxSigners rt). rxCurrent rt \<noteq> Some i \<longleftrightarrow> srDestroyed (rxSigners rt ! i)) \<and>
    (\<forall>s \<in> set (rxSigners rt). srDestroyed s \<longrightarrow> srKey s = replicate 33 0) \<and>
    (rxShut rt \<longrightarrow> rxRunning rt = None \<and> rxQueue rt = [] \<and> (\<forall>s \<in> set (rxSigners rt). srDestroyed s))"
proof -
  have ok: "runtime_ok K L S rt" using create_ok [OF assms(1)] runtime_trace_ok assms(2) by blast
  have each: "if rxCurrent rt = Some i then \<not> srDestroyed (rxSigners rt ! i) else spent (rxSigners rt ! i)"
    if "i < length (rxSigners rt)" for i
    using ok that loaded_key by (auto simp: runtime_ok_def signers_ok_def)
  have "rxCurrent rt \<noteq> Some i \<longleftrightarrow> srDestroyed (rxSigners rt ! i)" if "i < length (rxSigners rt)" for i
    using each [OF that] by (auto simp: spent_def split: if_splits)
  moreover have "srKey (rxSigners rt ! i) = replicate 33 0" if "i < length (rxSigners rt)" "srDestroyed (rxSigners rt ! i)" for i
    using each [OF that(1)] that(2) by (auto simp: spent_def split: if_splits)
  moreover have "rxShut rt \<Longrightarrow> rxCurrent rt = None \<and> rxRunning rt = None \<and> rxQueue rt = []"
    using ok by (simp add: runtime_ok_def)
  ultimately show ?thesis by (auto simp: in_set_conv_nth)
qed

text \<open>
  C15: every request is answered exactly once. From any state of any execution, once each waiting operation
  has had its turn, the answered requests are all requests ever made, each with one answer.
\<close>
theorem every_request_answered:
  assumes "createRuntime K L c f = Inr rt0" and "rt = runtime_trace K L S (rcOperatorRun c) es rt0"
  shows "let rt' = runtime_trace K L S (rcOperatorRun c) (drain g (length (rxQueue rt))) rt in
    rxRunning rt' = None \<and> rxQueue rt' = [] \<and>
    distinct (map fst (rxAnswers rt')) \<and> set (map fst (rxAnswers rt')) = {..<rxNext rt}"
proof -
  let ?rt' = "runtime_trace K L S (rcOperatorRun c) (drain g (length (rxQueue rt))) rt"
  let ?rt1 = "finish_running K L S g rt"
  have "accounted rt" using create_accounted [OF assms(1)] runtime_trace_accounted assms(2) by blast
  then have ok: "accounted ?rt'" by (rule runtime_trace_accounted)
  have "?rt' = runtime_trace K L S (rcOperatorRun c) (concat (replicate (length (rxQueue rt)) [StartNext, FinishRunning g])) ?rt1"
    by (simp add: drain_def runtime_trace_def)
  then have "rxRunning ?rt' = None \<and> rxQueue ?rt' = [] \<and> rxNext ?rt' = rxNext rt"
    using drain_turns [of ?rt1 "length (rxQueue rt)" K L S "rcOperatorRun c" g] finish_running_tickets [of K L S g rt]
    by (simp add: Let_def)
  with ok show ?thesis by (simp add: accounted_def tickets_def Let_def)
qed


subsection \<open>From the signer to the node\<close>

text \<open>What is handed to the broadcaster and recorded as an attempt.\<close>

definition attempt_of :: "signed_transaction \<Rightarrow> signed_attempt" where
  "attempt_of x = \<lparr>sgTxid = sdTxid x, sgNonce = nat (sdNonce x), sgFee = nat (sdFee x), sgBytes = sdBytes x\<rparr>"

lemma lower_hex: "is_hex_lower c \<Longrightarrow> lower_char c = c \<and> \<not> is_space c \<and> c \<noteq> CHR 0x22"
  by (auto simp: is_hex_lower_def is_digit_def less_eq_char_def lower_char_def is_space_def)

lemma canonicalTxid_hash:
  assumes "hashSchema t" shows "canonicalTxid (''0x'' @ t) = Some (''0x'' @ t)"
proof -
  obtain c u where t: "t = u @ [c]" using assms by (cases t rule: rev_cases) (auto simp: hashSchema_def)
  have hex: "\<forall>c \<in> set t. lower_char c = c \<and> \<not> is_space c \<and> c \<noteq> CHR 0x22"
    using assms lower_hex by (auto simp: hashSchema_def list_all_iff)
  have "map lower_char t = t" using hex by (auto intro: map_idI)
  moreover have "lower_char (CHR ''0'') = CHR ''0''" "lower_char (CHR ''x'') = CHR ''x''" "\<not> is_space (CHR ''0'')"
    by (simp_all add: lower_char_def less_eq_char_def is_space_def)
  moreover have "trim (''0x'' @ t) = ''0x'' @ t" using hex calculation(4) by (simp add: trim_def t)
  ultimately show ?thesis using assms hex
    by (simp add: canonicalTxid_def Let_def strip_quotes_def to_lower_def starts_with_def txidPattern_def
        indexBlockHashSchema_def t)
qed

text \<open>
  What the signer returns for a sealed reward plan passes every check on its way to the node. If the
  library reads back the bytes it signed and computes the same transaction id from them, the broadcaster
  posts exactly those bytes once, and the recorded attempt carries the nonce and the fee of the sealed plan,
  which is what a tick compares before it records the attempt.
\<close>
theorem signature_is_submittable:
  assumes "createRuntime K L c f = Inr rt0" and "rt = runtime_trace K L S (rcOperatorRun c) es rt0"
    and "(s, Inl (kind, p), x) \<in> set (rxSigned rt)"
    and lib: "\<forall>k h b t. klSign K k h = Some (b, t) \<longrightarrow>
      b \<noteq> [] \<and> wlDeserializeOk W b \<and> wlTxidFromBytes W b = t \<and> hashSchema t"
  shows "snd (broadcast W fetch (attempt_of x)) = [sdBytes x] \<and>
    int (sgNonce (attempt_of x)) = txNonce (matTransaction (planMaterial p)) \<and>
    int (sgFee (attempt_of x)) = txFeeUstx (matTransaction (planMaterial p))"
proof -
  have "runtime_ok K L S rt" using create_ok [OF assms(1)] runtime_trace_ok assms(2) by blast
  with assms(3) have signed: "signed_plan K L s kind p x" by (auto simp: runtime_ok_def genuine_def)
  then obtain bytes t where b: "klSign K (srKey s) (unsignedTransactionHex p) = Some (bytes, t)"
      "sdBytes x = bytes" "sdTxid x = ''0x'' @ t" "sdNonce x = txNonce (matTransaction (planMaterial p))"
      "sdFee x = txFeeUstx (matTransaction (planMaterial p))"
    by (auto simp: signed_plan_def)
  have "rewardOperationPlanSchema L p"
    using signed by (auto simp: signed_plan_def revalidateRewardOperationPlan_def split: if_splits)
  then have "0 \<le> txNonce (matTransaction (planMaterial p))" "0 \<le> txFeeUstx (matTransaction (planMaterial p))"
    by (auto simp: rewardOperationPlanSchema_def operationMaterialSchema_def uintText_def)
  moreover have "validateSignedAttempt W (attempt_of x) = Some (bytes, ''0x'' @ t)"
    using lib b canonicalTxid_hash [of t] by (simp add: validateSignedAttempt_def attempt_of_def)
  ultimately show ?thesis using b
    by (auto simp: attempt_of_def broadcast_def Let_def split: fetch_outcome.split option.split)
qed


subsection \<open>A signature\<close>

definition sample_runtime_config :: runtime_config where
  "sample_runtime_config = \<lparr>rcOperatorRun = True,
     rcGasPayer = Some (''SPW'', ''02'' @ replicate 64 (CHR ''0''), Some ''/run/secrets/key''), rcPayerNetwork = Mainnet\<rparr>"

definition sample_runtime :: runtime where
  "sample_runtime = idle_runtime [sample_signer] (Some 0) (Some (''SPW'', ''02'' @ replicate 64 (CHR ''0'')))"

lemma sample_runtime_created:
  "createRuntime sample_key_lib sample_lib sample_runtime_config sample_secret = Inr sample_runtime"
  using sample_signer_loaded
  by (simp add: createRuntime_def sample_runtime_config_def sample_runtime_def sample_options_def sample_signer_def)

definition sample_events :: "runtime_event list" where
  "sample_events = [Request (RewardJob ClaimRewards sample_plan), Request DeactivateJob, StartNext,
     FinishRunning sample_secret]"

definition sample_signature :: signed_transaction where
  "sample_signature = \<lparr>sdOperation = Some ClaimRewards, sdPlanSha = planSha256 sample_plan,
     sdUnsignedSha = unsignedTransactionSha256 sample_plan, sdBytes = ''00'', sdTxid = ''0x'' @ replicate 64 (CHR ''1''),
     sdNonce = txNonce (matTransaction (planMaterial sample_plan)),
     sdFee = txFeeUstx (matTransaction (planMaterial sample_plan))\<rparr>"

lemma sample_plan_signed:
  "signRewardOperation sample_key_lib sample_lib sample_signer ClaimRewards sample_plan = Inr sample_signature"
  unfolding signRewardOperation_Inr signed_plan_def sample_signature_def
  using sample_plan_revalidates
  by (simp add: sample_key_lib_def sample_signer_def sample_plan_def plan_material_def sample_common_def sample_call_def)

definition sample_signing :: runtime where
  "sample_signing = runtime_trace sample_key_lib sample_lib sample_sweep_lib True sample_events sample_runtime"

lemma sample_signer_live: "srDestroyed sample_signer = False"
  by (simp add: sample_signer_def)

lemma sample_signing_state:
  "rxSigned sample_signing = [(sample_signer, Inl (ClaimRewards, sample_plan), sample_signature)] \<and>
   rxQueue sample_signing = [(1, DeactivateJob)] \<and> rxRunning sample_signing = None \<and> rxSigners sample_signing = [sample_signer] \<and>
   rxNext sample_signing = 2"
  unfolding sample_signing_def runtime_trace_def sample_events_def sample_runtime_def
  by (simp add: request_def exclusive_def Let_def start_next_def start_signing_def startSigning_def guardr_def
      sample_signer_live finish_running_def sample_plan_signed finish_signing_def
      answer_def idle_runtime_def)

lemma sample_signing_trace:
  "sample_signing = runtime_trace sample_key_lib sample_lib sample_sweep_lib (rcOperatorRun sample_runtime_config)
     sample_events sample_runtime"
  by (simp add: sample_signing_def sample_runtime_config_def)

theorem signatures_by_loaded_wallet_witness:
  "(sample_signer, Inl (ClaimRewards, sample_plan), sample_signature) \<in> set (rxSigned sample_signing) \<and>
   revalidateRewardOperationPlan sample_lib sample_plan = Inr sample_plan \<and>
   senderPrincipal (matSender (planMaterial sample_plan)) = srPrincipal sample_signer"
  using signatures_by_loaded_wallet [OF sample_runtime_created sample_signing_trace,
      of sample_signer "Inl (ClaimRewards, sample_plan)" sample_signature] sample_signing_state
  by (simp add: signed_plan_def)

theorem one_live_key_witness:
  "length (rxSigners sample_signing) = 1 \<and> (rxCurrent sample_signing \<noteq> Some 0 \<longleftrightarrow> srDestroyed (rxSigners sample_signing ! 0))"
  using one_live_key [OF sample_runtime_created sample_signing_trace] sample_signing_state by auto

theorem every_request_answered_witness:
  "let rt' = runtime_trace sample_key_lib sample_lib sample_sweep_lib True (drain sample_secret 1) sample_signing in
    rxQueue rt' = [] \<and> set (map fst (rxAnswers rt')) = {0, 1}"
  using every_request_answered [OF sample_runtime_created sample_signing_trace, of sample_secret] sample_signing_state
  by (auto simp: Let_def sample_runtime_config_def)

theorem signature_is_submittable_witness:
  "snd (broadcast \<lparr>wlDeserializeOk = (\<lambda>_. True), wlTxidFromBytes = (\<lambda>_. replicate 64 (CHR ''1'')), wlJsonParse = (\<lambda>_. None)\<rparr>
     (\<lambda>_. Response 200 None) (attempt_of sample_signature)) = [''00''] \<and> sgFee (attempt_of sample_signature) = 2500"
proof -
  have "\<forall>k h b t. klSign sample_key_lib k h = Some (b, t) \<longrightarrow> b \<noteq> [] \<and> t = replicate 64 (CHR ''1'') \<and> hashSchema t"
    by (simp add: sample_key_lib_def)
  then have "\<forall>k h b t. klSign sample_key_lib k h = Some (b, t) \<longrightarrow> b \<noteq> [] \<and>
      wlDeserializeOk \<lparr>wlDeserializeOk = (\<lambda>_. True), wlTxidFromBytes = (\<lambda>_. replicate 64 (CHR ''1'')), wlJsonParse = (\<lambda>_. None)\<rparr> b \<and>
      wlTxidFromBytes \<lparr>wlDeserializeOk = (\<lambda>_. True), wlTxidFromBytes = (\<lambda>_. replicate 64 (CHR ''1'')), wlJsonParse = (\<lambda>_. None)\<rparr> b = t \<and>
      hashSchema t"
    by simp
  from signature_is_submittable [OF sample_runtime_created sample_signing_trace _ this, of sample_signer ClaimRewards sample_plan
      sample_signature "\<lambda>_. Response 200 None"] sample_signing_state
  show ?thesis by (simp add: sample_signature_def sample_plan_def plan_material_def sample_common_def)
qed

end
