(* ===== verification/Spec2Isabelle.thy ===== *)
theory Spec2Isabelle
  imports Sweep_Demo Preparations Demo_Completion Mempool_Enumeration Driver_Demo Intent_Verdict Signer_Runtime
begin

text \<open>
  Signer Sidekick is a TypeScript service that a Stacks signer-pool operator runs beside a node. It prepares
  bounded runs of reward payments, signs them with a gas wallet of its own after the operator's approval,
  submits them, observes what became of them, and keeps everything in one SQLite database. It also follows
  transactions that the operator signs in a browser wallet, and discovers what rewards are owed. This
  development models that logic and proves what an operator relies on. Paths below are under
  src/apps/sidekick/src unless they begin with packages/ (then under src/).

  How the parts interact. An operator request is turned into facts by the driver
  (transaction-engine/live-reward-run.ts), which reads the claims of the manager contract
  (reward-status.ts, operator-service.ts). The reward-run service
  (transaction-engine/reward-run-service.ts) seals the facts into a recipe, stores it, and after approval
  executes one child at a time: the driver materializes a plan (packages/protocol reward-operation-plan.ts),
  the service checks it against the recipe, the gas wallet (gas-wallet.ts) signs it, the attempt is recorded,
  and the broadcaster (transaction-engine/transaction-broadcaster.ts) posts it. The outcome is established
  from node blocks and API records (submitted-transaction-outcome.ts) and moves the run on. The gas wallet
  also sweeps its balance; runs and sweeps exclude each other by a lease in the database. Calculations of
  rewards are replayed before they are paid for (packages/protocol pox5-calculate-rewards.ts). Browser-wallet
  transactions have their own repository and observer (storage/wallet-intent-repository.ts,
  wallet-intent-service.ts).

  \<^bold>\<open>Conventions.\<close> A function that may throw returns \<open>'e + 'a\<close>; code over the database is a function from the
  store to a result and a store (\<open>('s, 'e, 'a) eng\<close> of Prelude), so the writes before a throw stay, except
  inside \<open>eatomic\<close> or \<open>immediate\<close>, the SQLite transactions. Tables are row lists with their CHECK, UNIQUE, FOREIGN KEY
  and trigger constraints checked by the statements. An \<open>async\<close> method is one function per stretch between two
  \<open>await\<close>s; what it is suspended on, with the local variables still needed, is a value in the engine state, and
  awaited values are arguments, so anything may happen in between. bigint is \<open>int\<close> or \<open>nat\<close>, byte strings are
  lists of \<open>8 word\<close>, instants are milliseconds. Cryptography, transaction encoding, Clarity decoding, address
  validation, \<open>localeCompare\<close>, \<open>fetch\<close> and \<open>JSON.parse\<close> are arguments (the records \<open>tx_lib\<close>, \<open>sweep_lib\<close>,
  \<open>wire_lib\<close>, \<open>tx_codec\<close>, \<open>wire_codec\<close> and the records of reads); a theorem names what it needs of them.

  \<^bold>\<open>Theories and code.\<close>
  \<^item> Prelude: results, the store monad with its \<open>wp\<close> and \<open>keeps\<close> rules, keyed rows, decimal text.
  \<^item> Canonical_Json, Operation_Plan: packages/protocol/src/reward-operation-plan.ts and principals.ts
    (\<open>planRewardOperation\<close>, \<open>revalidateRewardOperationPlan\<close> and the schemas).
  \<^item> Run_Recipe: packages/api-contracts/src/reward-runs.ts and \<open>buildRewardRunRecipe\<close>; the operations that a
    run may be restricted to (packages/api-contracts/src/reward-actions.ts) are in Run_Facts.
  \<^item> Wallet_Lease, Run_Store, Sweep_Store: the database of runs, attempts, preparations, sweeps and leases
    (storage/reward-run-repository.ts, storage/gas-wallet-sweep-repository.ts, tables of
    storage/migrations.ts). The record \<open>store\<close> is the database, one field per table.
  \<^item> Broadcaster: transaction-engine/transaction-broadcaster.ts.
  \<^item> Run_Guards, Run_Tick, Run_Service: transaction-engine/reward-run-service.ts. \<open>tick_pc\<close> is where a tick
    waits; the record \<open>engine\<close> is the service's fields, the store, and a log of what was submitted. The process
    may stop between two stretches (\<open>restart\<close>) and after the commits of a stretch but before the transaction it
    hands to the broadcaster leaves (\<open>crash\<close>); a stop between two commits of one stretch is not modelled.
  \<^item> Fee_Policy, Sweep_Plan, Sweep_Service, Observation_Cadence: transaction-engine/fee-policy.ts,
    gas-wallet-sweep.ts, gas-wallet.ts (the sweep handlers), submitted-observation-cadence.ts.
  \<^item> Nakamoto_Block, Transaction_Outcome: nakamoto-block.ts, canonical-node-block.ts,
    canonical-api-transaction.ts, submitted-transaction-outcome.ts.
  \<^item> Chain_Anchor, Mempool_Enumeration: chain-anchor.ts and the parts of chain-clients.ts that capture an
    anchor and scan the mempool.
  \<^item> Pox5_Bonds, Reward_Simulation, Calculation_Read: packages/protocol/src/pox5-bonds.ts and
    pox5-calculate-rewards.ts, pox5-calculate-rewards.ts, calculation-receipt.ts.
  \<^item> Claim_Discovery, Reward_Driver, Run_Facts: the claim discovery of reward-status.ts and
    operator-service.ts, and transaction-engine/live-reward-run.ts.
  \<^item> Intent_Store, Wallet_Verification, Intent_Observer: storage/wallet-intent-repository.ts,
    wallet-transaction-verification.ts, and the observation of submitted intents in
    wallet-intent-service.ts. The record \<open>intent_store\<close> is the two tables of intents.
  \<^item> Gas_Signer, Signer_Runtime: transaction-engine/gas-payer-signer.ts, and of transaction-engine/runtime.ts
    the serialized operations on the signer. The record \<open>runtime\<close> has the queue of \<open>#exclusive\<close>, the operation
    that is suspended, and all signers ever loaded. The services above take the signature as an argument;
    \<open>signature_is_submittable\<close> links the two.

  \<^bold>\<open>What is proved.\<close>
  \<^item> Run_Invariant, Tick_Safety, Handler_Frames, Run_Safety: the store invariant (\<open>store_inv\<close>) is kept by
    every stretch of every handler; \<open>step\<close> is the service as a transition system and \<open>reachable\<close> what can
    happen from an empty database. Store_History states as a locale what a predicate on stores needs to be
    kept by every event (\<open>run_predicate\<close>, extended to sweeps by \<open>store_predicate\<close>); Submission_Log,
    Preparations, Progress and Sweep_Safety interpret it on the model. Wallet_Lease does the same for the
    contract of a lease (\<open>wallet_lease\<close>), interpreted on the lease table.
  \<^item> This theory and Run_Guarantees: exclusive use of a wallet, fees and payments within what was approved, strict
    order, record before submission, at most one live transaction, what is true when the signer is called,
    refinement of the abstract run life cycle, confirmation only of the approved work, progress on a
    confirmed outcome, and sweeps submitted once, a crash before the hand-over included.
  \<^item> The pure parts carry their own theorems: sealing round trips, bounds of recipes and plans, the
    classification of a broadcast, the block parser against a serializer, the replay's conservation and
    overflow bounds, bond periods and calculation targets against their arithmetic definition.
  \<^item> Reward_Driver and Run_Facts: the driver agrees with the service's checks and with claim discovery, and the
    facts of a run are complete when roster and store hold still.
  \<^item> Intent_Tables, Intent_Safety, Intent_Verdict: any sequence of repository operations keeps the intents
    readable, unique and on their life cycle; an observation of an intent, read then or earlier, computes a
    pure verdict of the evidence and completes an intent only on proof.
  \<^item> Gas_Signer and Signer_Runtime: a secret is loaded only from a private, unchanged file of one key; whatever
    the interleaving, signatures are made only by the loaded wallet over its own sealed plans, at most one
    key is live, and every request is answered once.
  \<^item> Demo_Trace, Demo_Completion, Sweep_Demo, Driver_Demo hold the concrete executions the witnesses use.

  \<^bold>\<open>Termination and bounds.\<close> No definition uses fuel to cut off a computation. A loop of the code that may not end is
  \<open>partial_function (option)\<close> with \<open>None\<close> for not returning (the pages of claims and of withdrawals in Run_Facts, whose
  termination over a stable roster is a theorem); the mempool scan and the capture of an anchor have the
  code's own limits (pages, three attempts) as their measure; the remaining recursion is structural or on
  a distance that the code itself bounds.

  \<^bold>\<open>Not modelled.\<close> The HTTP server, the command line, configuration and the dashboard (routing, wiring, rendering);
  the HTTP transport and response schemas of the chain clients, whose answers are arguments; the read-side
  projections (reward ledger, activity, overview) and the legacy job tables
  (transaction-engine/repository.ts), which no modelled handler writes; health monitoring; creating the gas
  wallet's secret file; the engine runtime's observation passes and maintenance timer, which serve the legacy
  jobs and are one opaque operation of its queue; of the browser-wallet service the reading of an action's authoritative facts, \<open>prepare\<close> and the
  sequences of refreshes over several intents. Instants are not checked for validity, object identity and logging
  are left out, and error messages are kept only where the program stores or compares them.
\<close>

section \<open>The reward-run service\<close>

lemma reachable_store: "reachable C e \<Longrightarrow> store_inv (cfLib C) (egStore e)"
  using reachable_inv[of C e] by (simp add: engine_inv_def)

lemma reachable_run: "reachable C e \<Longrightarrow> r \<in> set (stRuns (egStore e)) \<Longrightarrow> run_inv (cfLib C) r"
  using reachable_store[of C e] by (simp add: store_inv_def)

lemma reachable_tick:
  "reachable C e \<Longrightarrow> egTick e = Some (rid, src, pc) \<Longrightarrow> pc_inv (cfLib C) pc (egStore e)"
  using reachable_inv[of C e] by (simp add: engine_inv_def tick_known_def)

text \<open>
  C1: in every reachable state the lease table says exactly who is using a gas wallet: a reward run
  or a sweep of the wallet is unfinished precisely when it holds the wallet's lease, so a wallet
  never has two unfinished runs or sweeps.
\<close>
theorem wallet_exclusive:
  assumes "reachable C e"
  shows "(lease_holder (stLeases (egStore e)) w = Some x \<longleftrightarrow> owner_active (egStore e) w x) \<and>
    (owner_active (egStore e) w x \<and> owner_active (egStore e) w y \<longrightarrow> x = y)"
  using reachable_store[OF assms] owner_unique[OF reachable_store[OF assms], of w x y]
  unfolding store_inv_def lease_inv_def by blast

theorem wallet_exclusive_witness:
  "{y. owner_active (egStore demo_state) ''SPW'' y} = {(RewardRunKind, demo_id)}"
proof -
  have "lease_holder (stLeases (egStore demo_state)) ''SPW'' = Some (RewardRunKind, demo_id)"
    by (simp add: lease_holder_def)
  then show ?thesis
    using wallet_exclusive[OF demo_state_reachable, of "''SPW''" "(RewardRunKind, demo_id)"] by blast
qed

text \<open>
  C2: fees never exceed what the operator approved. In every reachable state the fees charged to a
  run, and the highest fees that the transactions ever signed for its children can cost, summed over
  all children, stay within the gas budget of its sealed recipe.
\<close>
theorem fees_within_budget:
  assumes "reachable C e" and "r \<in> set (stRuns (egStore e))"
  shows "rnGasSpent r \<le> rpGasBudget (rnRecipe r) \<and>
    sum_list (map child_max_fee (rnChildren r)) \<le> rpGasBudget (rnRecipe r)"
  using run_fees_within_budget[OF reachable_run[OF assms]] by simp

theorem fees_within_budget_witness:
  "child_max_fee demo_sent = 2500 \<and> child_max_fee demo_sent \<le> rpGasBudget demo_recipe"
  using fees_within_budget[OF demo_state_reachable, of "demo_started demo_sent"] by (simp add: child_max_fee_def)

text \<open>
  C3: payments never exceed the approved total. In every reachable state the amounts sealed into
  the payment children of a run sum to at most the reviewed total of its recipe, and each amount is
  at most the maximum reviewed for that child.
\<close>
theorem payments_within_review:
  assumes "reachable C e" and "r \<in> set (stRuns (egStore e))"
  shows "sum_list (map child_amount (filter is_payment (rnChildren r))) \<le> rpReviewedTotal (rnRecipe r) \<and>
    (\<forall>i < length (rnChildren r). case chAmount (rnChildren r ! i) of None \<Rightarrow> True
      | Some n \<Rightarrow> \<exists>m. chMaxAmount (rnChildren r ! i) = Some m \<and> n \<le> m)"
  using payments_total[OF reachable_run[OF assms]] child_amount_within[OF reachable_run[OF assms]] by blast

theorem payments_within_review_witness:
  "child_amount demo_sent = 500 \<and> child_amount demo_sent \<le> rpReviewedTotal demo_recipe"
  using payments_within_review[OF demo_state_reachable, of "demo_started demo_sent"]
  by (simp add: child_amount_def is_payment_def)

text \<open>
  C4: children execute strictly in the order of the recipe. In every reachable state all children
  before the cursor are resolved, all children after it are untouched, at most one child is
  broadcast and it is the one at the cursor, and a completed run has resolved all its children.
\<close>
theorem ordered_execution:
  assumes "reachable C e" and "r \<in> set (stRuns (egStore e))"
  shows "rnCursor r \<le> length (rnChildren r) \<and>
    (\<forall>i < rnCursor r. child_complete (chStatus (rnChildren r ! i))) \<and>
    (\<forall>i < length (rnChildren r). rnCursor r < i \<longrightarrow> untouched (rnChildren r ! i)) \<and>
    (\<forall>i < length (rnChildren r). chStatus (rnChildren r ! i) = Broadcast \<longrightarrow> i = rnCursor r) \<and>
    in_flight r \<le> 1 \<and>
    (rnStatus r = Completed \<longrightarrow> rnCursor r = length (rnChildren r))"
proof -
  note inv = reachable_run[OF assms]
  show ?thesis
    using run_inv_cursor[OF inv] run_inv_before[OF inv] run_inv_after[OF inv] in_flight_at_cursor[OF inv]
      in_flight_le_1[OF inv] run_inv_completed[OF inv] by blast
qed

theorem ordered_execution_witness: "in_flight (demo_started demo_sent) \<le> 1 \<and> rnCursor (demo_started demo_sent) \<le> 1"
  using ordered_execution[OF demo_state_reachable, of "demo_started demo_sent"] by simp

text \<open>
  Nothing is signed without approval. In every reachable state a run that was never approved has
  only pending children and no transaction was ever signed for any of them.
\<close>
theorem nothing_signed_before_approval:
  assumes "reachable C e" and "r \<in> set (stRuns (egStore e))" and "c \<in> set (rnChildren r)" and "chAttempts c \<noteq> []"
  shows "rnApprovedAt r \<noteq> None"
  using run_inv_approved[OF reachable_run[OF assms(1,2)] _ assms(3)] assms(4) by (auto simp: untouched_def)

theorem nothing_signed_before_approval_witness: "rnApprovedAt (demo_started demo_sent) \<noteq> None"
  using nothing_signed_before_approval[OF demo_state_reachable, of "demo_started demo_sent" demo_sent] by simp

text \<open>
  C6: no double submission. In every reachable state an unresolved child has at most one transaction
  that the node has not rejected, and no transaction id is recorded for two attempts of any runs.
\<close>
theorem at_most_one_live_transaction:
  assumes "reachable C e" and "r \<in> set (stRuns (egStore e))" and "c \<in> set (rnChildren r)"
    and "\<not> child_complete (chStatus c)"
  shows "length (live c) \<le> 1 \<and> distinct (attempt_txids (egStore e))"
  using live_le_1[OF reachable_run[OF assms(1,2)] assms(3,4)] reachable_store[OF assms(1)]
  by (simp add: store_inv_def)

theorem at_most_one_live_transaction_witness: "live demo_sent = [demo_attempt] \<and> length (live demo_sent) \<le> 1"
  using at_most_one_live_transaction[OF demo_state_reachable, of "demo_started demo_sent" demo_sent]
  by (simp add: child_complete_def live_def)

text \<open>
  C5: a transaction is recorded before it is sent. In every reachable state every transaction ever
  handed to the broadcaster, before or after restarts, is an attempt row of the child it was signed
  for, so recovery can always find it.
\<close>
theorem submissions_recorded_first:
  assumes "reachable C e" and "(rid, i, t) \<in> set (egSent e)"
  shows "\<exists>r \<in> set (stRuns (egStore e)). rnId r = rid \<and> i < length (rnChildren r) \<and>
    t \<in> atTxid ` set (chAttempts (rnChildren r ! i))"
  using reachable_log[OF assms(1)] assms(2) store_inv_run[OF reachable_store[OF assms(1)]]
  unfolding log_recorded_def recorded_txids_def by blast

theorem submissions_recorded_first_witness:
  "\<exists>r \<in> set (stRuns (egStore demo_state)). rnId r = demo_id \<and> 0 < length (rnChildren r) \<and>
    demo_txid \<in> atTxid ` set (chAttempts (rnChildren r ! 0))"
  by (rule submissions_recorded_first[OF demo_state_reachable]) simp

text \<open>
  C7: when a tick waits for the signer, the plan being signed is the one sealed into the child at the
  cursor of an approved run, its fee is within the fee cap, and every earlier transaction of the
  child was rejected.
\<close>
theorem signs_only_sealed_plan:
  assumes "reachable C e" and "egTick e = Some (rid, src, TickSign r i p now)"
  shows "\<exists>r' \<in> set (stRuns (egStore e)). rnId r' = rnId r \<and> i = rnCursor r' \<and> i < length (rnChildren r') \<and>
    rnApprovedAt r' \<noteq> None \<and> chPlan (rnChildren r' ! i) = Some p \<and>
    txFeeUstx (matTransaction (planMaterial p)) \<le> int (rpFeeCap (rnRecipe r')) \<and>
    (\<forall>a \<in> set (chAttempts (rnChildren r' ! i)). atState a = AttemptRejected)"
proof -
  from reachable_tick[OF assms] obtain r' where s: "snapshot_of (cfLib C) r i (egStore e) r'" and g: "signable r' i p"
    by auto
  have "r' \<in> set (stRuns (egStore e))"
    using store_inv_run[OF reachable_store[OF assms(1)]] s unfolding snapshot_of_def by blast
  moreover have "rnId r' = rnId r" "i = rnCursor r'" "i < length (rnChildren r')" "rnApprovedAt r' \<noteq> None"
    using s by (simp_all add: snapshot_of_def behind_def same_seal_def)
  moreover have "\<forall>a \<in> set (chAttempts (rnChildren r' ! i)). atState a = AttemptRejected"
    using g by (auto simp: signable_def live_def filter_empty_conv)
  ultimately show ?thesis using g by (auto simp: signable_def)
qed

theorem signs_only_sealed_plan_witness:
  "\<exists>r' \<in> set [demo_started demo_ready]. chPlan (rnChildren r' ! 0) = Some demo_plan \<and>
     txFeeUstx (matTransaction (planMaterial demo_plan)) \<le> int (rpFeeCap (rnRecipe r'))"
  using signs_only_sealed_plan[OF demo_reachable_signing, of demo_id FromOperator "demo_started demo_waiting" 0 demo_plan 5]
  by (simp add: demo_ticking_def demo_engine_def boot_def)

text \<open>
  C21: every step of the service refines the lifecycle of runs. Whatever step is taken, a stored run
  stays stored with the same identity, wallet and sealed recipe; its status moves along the edges of
  the lifecycle, so a completed, cancelled or expired run stays so; its cursor never goes back, an
  approval is never lost, and the attempts of its children only grow, with ids, nonces and fees
  unchanged.
\<close>
theorem run_refines_lifecycle:
  assumes "step C e e'" and "run_row (egStore e) rid = Some r"
  shows "\<exists>r'. run_row (egStore e') rid = Some r' \<and> same_seal r r' \<and> lifecycle (rnStatus r) (rnStatus r') \<and>
    (terminal_run (rnStatus r) \<longrightarrow> rnStatus r' = rnStatus r) \<and>
    rnCursor r \<le> rnCursor r' \<and> (rnApprovedAt r \<noteq> None \<longrightarrow> rnApprovedAt r' \<noteq> None) \<and>
    list_all2 (\<lambda>c c'. \<exists>ks. map attempt_key (chAttempts c') = map attempt_key (chAttempts c) @ ks)
      (rnChildren r) (rnChildren r')"
proof -
  from step_evolves[OF assms] obtain r' where r': "run_row (egStore e') rid = Some r'" and ev: "evolves r r'" by blast
  have "list_all2 (\<lambda>c c'. \<exists>ks. map attempt_key (chAttempts c') = map attempt_key (chAttempts c) @ ks)
      (rnChildren r) (rnChildren r')"
    using ev unfolding evolves_def by (auto simp: child_grows_def elim!: list_all2_mono)
  with r' ev lifecycle_terminal[of "rnStatus r" "rnStatus r'"] show ?thesis by (auto simp: evolves_def)
qed

theorem run_refines_lifecycle_witness:
  "\<exists>r'. run_row (egStore demo_state) demo_id = Some r' \<and> lifecycle Running (rnStatus r')"
proof -
  let ?e = "demo_ticking (TickSign (demo_started demo_waiting) 0 demo_plan 5)
      (demo_engine [demo_prep Ready] [demo_started demo_ready])"
  have "step demo_config ?e demo_state"
    using step.Runs[OF run_step.Signature[of demo_config ?e "Inr demo_signed" 5]] by (simp add: demo_signature demo_state_def)
  moreover have "run_row (egStore ?e) demo_id = Some (demo_started demo_ready)"
    by (simp add: demo_ticking_def demo_engine_def boot_def)
  ultimately show ?thesis using run_refines_lifecycle[of demo_config ?e demo_state demo_id] by fastforce
qed

text \<open>
  A request is prepared at most once at a time. In every reachable state preparation ids are
  unique and no two preparations of the same request are queued or running, also across restarts.
\<close>
theorem one_active_preparation:
  assumes "reachable C e"
  shows "distinct (map ppId (stPreps (egStore e))) \<and>
    distinct (map ppRequestSha (filter prep_active (stPreps (egStore e))))"
  using reachable_prep_inv[OF assms] by (simp add: prep_inv_def)

theorem one_active_preparation_witness: "distinct (map ppId (stPreps (egStore demo_state)))"
  using one_active_preparation[OF demo_state_reachable] by simp

text \<open>
  The last check before a signature. A tick goes on to sign exactly when the service is still
  open, the wallet passed its refusal check, the run it re-reads is stored intact, still running and
  within its maximum run time, and no emergency control blocks the operation.
\<close>
theorem signature_boundary:
  "fst (tick_refusal_checked L ctl closed r i k p now at refusal s) = Inr (TickSign r i p now) \<longleftrightarrow>
     \<not> closed \<and> refusal = None \<and> assertExecutionAllowed ctl [k] = Inr () \<and>
     (\<exists>r'. run_row s (rnId r) = Some r' \<and> rewardRunSchema L r' \<and> assertSealedRun L r' = Inr () \<and>
        rnStatus r' = Running \<and> \<not> runtime_elapsed r' at)"
proof (cases "run_row s (rnId r)")
  case None
  then show ?thesis
    by (cases refusal) (auto simp: tick_refusal_checked_def monad_defs assertDedicatedWallet_def serviceGet_def getRun_def)
next
  case (Some r')
  then show ?thesis
    by (cases refusal; cases "assertSealedRun L r'"; cases "assertExecutionAllowed ctl [k]")
      (auto simp: tick_refusal_checked_def monad_defs assertDedicatedWallet_def serviceGet_def getRun_def
        expireRunningRun_def split: prod.splits sum.splits)
qed

text \<open>
  An approval call reaches the wallet check only for the sealed recipe. It proceeds exactly when
  the stored run is intact, waits for approval, its recipe hash is the one the operator sent, no
  emergency control blocks one of its operations and the approval window is still open; proceeding
  changes nothing yet.
\<close>
theorem approve_proceeds_iff:
  "approve_start L ctl rid sha now s = (Inr None, s) \<longleftrightarrow>
     (\<exists>r. run_row s rid = Some r \<and> rewardRunSchema L r \<and> assertSealedRun L r = Inr () \<and>
        rnRecipeSha r = sha \<and> rnStatus r = AwaitingApproval \<and>
        assertExecutionAllowed ctl (rpOperations (rnRecipe r)) = Inr () \<and> now < rnApprovalExpires r)"
proof (cases "run_row s rid")
  case None
  then show ?thesis by (simp add: approve_start_def monad_defs serviceGet_def getRun_def)
next
  case (Some r)
  then show ?thesis
    by (cases "assertSealedRun L r"; cases "assertExecutionAllowed ctl (rpOperations (rnRecipe r))")
      (auto simp: approve_start_def monad_defs serviceGet_def getRun_def split: prod.splits sum.splits)
qed

text \<open>
  C22: a submission can outlive its run. While the broadcaster is being awaited the child is still
  materialized, so pausing and then cancelling the run both succeed; the lease of the wallet is free
  again although the transaction has been handed to the broadcaster and its outcome is unknown.
\<close>
theorem submission_outlives_cancel:
  "\<exists>e. reachable demo_config e \<and> egTick e = Some (demo_id, FromOperator, demo_submitting) \<and>
     (demo_id, 0, demo_txid) \<in> set (egSent e) \<and> map rnStatus (stRuns (egStore e)) = [Cancelled] \<and>
     lease_holder (stLeases (egStore e)) ''SPW'' = None"
proof -
  note S = reachable_by_run[where C = demo_config]
  note s1 = S[OF demo_state_reachable run_step.Pause, of demo_id 6, unfolded demo_cfg demo_pause]
  note s2 = S[OF s1 run_step.Cancel, of demo_id 7, unfolded demo_cfg demo_cancel]
  show ?thesis by (rule exI, intro conjI, rule s2) (simp_all add: demo_later_def apply_patch_def lease_holder_def)
qed

section \<open>Progress\<close>



text \<open>
  C18: a run makes progress. When the outcome of a submitted transaction arrives as confirmed, the tick ends, the
  child is confirmed, the cursor moves to the next child and the fee of its last attempt is counted;
  no constraint of the tables can get in the way.
\<close>
theorem resolution_advances:
  assumes "reachable C e" and "egTick e = Some (rid, tsrc, TickReconcile r i p t now)"
    and "run_row (egStore e) (rnId r) = Some r'" and "rewardRunSchema (cfLib C) r'"
    and "chStatus (rnChildren r' ! i) = Broadcast"
  shows "egTick (reconcile_arrives C (Inr (RecConfirmed src)) at e) = None \<and>
    (\<exists>r''. run_row (egStore (reconcile_arrives C (Inr (RecConfirmed src)) at e)) (rnId r) = Some r'' \<and>
       rnCursor r'' = Suc (rnCursor r') \<and> rnStatus r'' = rnStatus r' \<and> chStatus (rnChildren r'' ! i) = Confirmed \<and>
       rnGasSpent r'' = rnGasSpent r + last_fee (rnChildren r' ! i))"
proof -
  have inv: "store_inv (cfLib C) (egStore e)" using reachable_store[OF assms(1)] .
  obtain x where "snapshot_of (cfLib C) r i (egStore e) x" using reachable_tick[OF assms(1,2)] by auto
  moreover from this have "x = r'" using assms(3) by (simp add: snapshot_of_def)
  ultimately have S: "snapshot_of (cfLib C) r i (egStore e) r'" by simp
  obtain t r'' where t: "record_resolution (cfLib C) r i now Confirmed src (egStore e) = (Inr TickDone, t)"
    and r'': "run_row t (rnId r) = Some r''" "rnCursor r'' = Suc (rnCursor r)" "rnStatus r'' = rnStatus r'"
      "chStatus (rnChildren r'' ! i) = Confirmed" "rnGasSpent r'' = rnGasSpent r + last_fee (rnChildren r' ! i)"
    using record_resolution_runs[OF assms(3) _ snapshotD(5)[OF inv S] assms(5)
        rows_checked_row[OF reachable_checked[OF assms(1)] assms(3)] assms(4), of Confirmed now src]
      snapshotD(3,4)[OF inv S] by auto
  then show ?thesis
    using snapshotD(3,4)[OF inv S] unfolding reconcile_arrives_def assms(2)
    by (simp add: tick_reconciled_def on_store_def settle_tick_def release_queue_def Let_def)
qed

theorem resolution_advances_witness:
  "\<exists>r. run_row (egStore (reconcile_arrives demo_config (Inr (RecConfirmed None)) 40001 demo_waiting_receipt)) demo_id = Some r \<and>
     rnCursor r = 1 \<and> rnGasSpent r = 2500"
  using resolution_advances[OF demo_receipt_reachable demo_receipt_sel(1), of "demo_started demo_live" None 40001]
  by auto



text \<open>
  The rows of the run tables stay well-formed, by the statements that write them: in every reachable state run
  ids are unique and every run and every child satisfies the CHECK constraints of its table, an approval and a start time wherever its
  status requires them included.
\<close>
theorem stored_rows_well_formed:
  assumes "reachable C e"
  shows "distinct (map rnId (stRuns (egStore e))) \<and>
    (\<forall>r \<in> set (stRuns (egStore e)). run_checks r \<and> (\<forall>c \<in> set (rnChildren r). child_checks c))"
  using reachable_checked[OF assms] by (simp add: rows_checked_def row_ok_def list_all_iff)

theorem stored_rows_well_formed_witness: "run_checks (demo_started demo_sent) \<and> child_checks demo_sent"
  using stored_rows_well_formed[OF demo_state_reachable] by simp

section \<open>Gas-wallet sweeps\<close>

text \<open>
  C17: a sweep is handed to the broadcaster at most once, and only after its row records the
  transaction. A crash between the two leaves a sweep that is recorded as broadcast but was never handed
  over; it is never handed over later either. Whatever happens, restarts included, a sweep of either kind
  is stored as broadcast, confirmed or failed under the recorded transaction id, never cancelled or
  expired; and a readable sweep that is broadcast or confirmed was handed over or lost in such a crash.
\<close>
theorem sweeps_submitted_once:
  assumes "reachable C e"
  shows "distinct (map fst (egSweepSent e @ egSweepLost e)) \<and>
    (\<forall>(sid, t) \<in> set (egSweepSent e) \<union> set (egSweepLost e). \<exists>g. sweep_row (egStore e) sid = Some g \<and>
       gsTxid g = Some t \<and> gsStatus g \<in> {SwBroadcast, SwConfirmed, SwFailed}) \<and>
    (\<forall>sid g. sweep_row (egStore e) sid = Some g \<and> sweepRowSchema (cfLib C) g \<and>
       gsStatus g \<in> {SwBroadcast, SwConfirmed} \<longrightarrow>
       sid \<in> fst ` set (egSweepSent e) \<or> sid \<in> fst ` set (egSweepLost e))"
  using reachable_sweep_log[OF assms]
  unfolding sweep_log_def submitted_rows_def rows_submitted_def submissions_def set_append image_Un Un_iff by blast

theorem sweeps_submitted_once_witness:
  "(\<exists>g. sweep_row (egStore sweep_submitted) demo_id = Some g \<and> gsTxid g = Some demo_txid) \<and>
   (\<exists>g. sweep_row (egStore sweep_crashed) demo_id = Some g \<and> gsTxid g = Some demo_txid) \<and> egSweepSent sweep_crashed = []"
proof -
  have "(demo_id, demo_txid) \<in> set (egSweepSent sweep_submitted) \<union> set (egSweepLost sweep_submitted)"
    "(demo_id, demo_txid) \<in> set (egSweepSent sweep_crashed) \<union> set (egSweepLost sweep_crashed)"
    by (simp_all add: sweep_demo_sent sweep_demo_crashed)
  then show ?thesis
    using sweeps_submitted_once[OF sweep_demo_reachable(2)] sweeps_submitted_once[OF sweep_demo_reachable(3)]
    unfolding sweep_demo_crashed(1) by blast
qed

text \<open>
  The last check before a sweep is signed. An approval goes on to the signer exactly when the
  wallet's account was observed, its nonce is the planned one, its balance covers the planned amount and
  fee, and the stored sweep is readable, still planned and inside its approval window.
\<close>
theorem sweep_signature_boundary:
  "fst (approveSweep_account L sid plan now at account s) = Inr pc \<longleftrightarrow>
     pc = AwaitSignature plan now \<and>
     (\<exists>balance. account = AccountObserved balance (swNonce (spMaterial plan)) \<and>
        swAmount (spMaterial plan) + swFee (spMaterial plan) \<le> balance) \<and>
     (\<exists>g. sweep_row s sid = Some g \<and> sweepRowSchema L g \<and> gsStatus g = SwPlanned \<and> at < gsExpires g)"
proof (cases account)
  case (AccountUnread st)
  then show ?thesis by (simp add: approveSweep_account_def observed_account_def ebind_def elift_def)
next
  case (AccountObserved balance nonce)
  show ?thesis
  proof (cases "nonce \<noteq> swNonce (spMaterial plan) \<or> balance < swAmount (spMaterial plan) + swFee (spMaterial plan)")
    case True
    then show ?thesis
      by (auto simp: AccountObserved approveSweep_account_def observed_account_def ebind_def elift_def ethrow_def
          split: prod.split sum.split)
  next
    case False
    then show ?thesis
      by (cases "sweep_row s sid")
        (auto simp: AccountObserved approveSweep_account_def observed_account_def assertSweepApprovalCurrent_def
          requireSweep_at ebind_def elift_def eguard_def eret_def)
  qed
qed

text \<open>
  The wallet passes its refusal checks exactly when it is proven to be dedicated: a standard
  principal that the manager reports not to be an admin, and that is not the pool's signer key.  A
  failed read never passes.
\<close>
theorem refusal_checks_exact:
  "(\<exists>f. refusalChecks retryTransient p admin signer = Inr f \<and> rfReason f = None) \<longleftrightarrow>
     CHR ''.'' \<notin> set p \<and> admin = Inr False \<and> (signer = Inr None \<or> (\<exists>q. signer = Inr (Some q) \<and> q \<noteq> p))"
  by (cases admin; cases signer) (auto simp: refusalChecks_def Let_def split: option.split)

text \<open>
  A sealed sweep pays at most the wallet's cap, or the fee policy's maximum where one is
  configured, and the amount and the fee are together exactly the observed balance.
\<close>
theorem sealed_sweep_fee:
  assumes "sealSweep C w recipient tip balance nonce est now = Inr plan"
  shows "swFee (spMaterial plan) \<le> (case scFeePolicy C of None \<Rightarrow> scMaximumFee C | Some p \<Rightarrow> fpMaximum p) \<and>
    0 < swFee (spMaterial plan) \<and> swAmount (spMaterial plan) + swFee (spMaterial plan) = balance \<and>
    swNonce (spMaterial plan) = nonce \<and> swExpiresAt (spMaterial plan) = now + scApprovalMinutes C * 60 * 1000"
proof -
  from assms obtain draft where d: "planGasWalletSweep (scSweepLib C)
      (sweep_input_of C w recipient tip balance nonce (scMaximumFee C) now) = Inr draft"
    by (auto simp: sealSweep_def Let_def)
  define fee where f: "fee = estimateFee (scFeePolicy C) (est (spHex draft)) (scMaximumFee C)"
  have p: "planGasWalletSweep (scSweepLib C) (sweep_input_of C w recipient tip balance nonce fee now) = Inr plan"
    using assms d f by (cases "fee = scMaximumFee C") (simp_all add: sealSweep_def Let_def)
  from p have "swFee (spMaterial plan) = fee" "0 < fee" "swAmount (spMaterial plan) = balance - fee"
    "swNonce (spMaterial plan) = nonce" "swExpiresAt (spMaterial plan) = now + scApprovalMinutes C * 60 * 1000"
    by (auto simp: planGasWalletSweep_def sweep_input_of_def Let_def)
  with f estimateFee_capped show ?thesis by (auto split: option.split)
qed

theorem sealed_sweep_fee_witness:
  "case sealSweep (cfSweep demo_config) sweep_wallet '' SPX '' (''0x'' @ replicate 64 (CHR ''0'')) 1000 4 (\<lambda>_. None) 0 of
     Inl _ \<Rightarrow> False | Inr plan \<Rightarrow> swFee (spMaterial plan) \<le> 300"
proof -
  let ?r = "sealSweep (cfSweep demo_config) sweep_wallet '' SPX '' (''0x'' @ replicate 64 (CHR ''0'')) 1000 4 (\<lambda>_. None) 0"
  have "case ?r of Inl _ \<Rightarrow> False | Inr _ \<Rightarrow> True" by code_simp
  moreover have "scFeePolicy (cfSweep demo_config) = None" "scMaximumFee (cfSweep demo_config) = 300"
    by (simp_all add: demo_config_def)
  ultimately show ?thesis
    using sealed_sweep_fee[of "cfSweep demo_config" sweep_wallet "'' SPX ''" _ 1000 4 "\<lambda>_. None" 0]
    by (auto split: sum.splits)
qed

end
